(* ===== verification/Prelude.thy ===== *)
theory Prelude
  imports Main "HOL-Library.Word" "HOL-Library.Sublist" "HOL-Library.AList"
begin

text \<open>
  Shared vocabulary of the development.  Rust's \<open>Result<T, E>\<close> is the sum \<open>'e + 'a\<close>
  (\<open>Inl\<close> the error), the \<open>?\<close> operator is \<open>rbind\<close>/\<open>andThen\<close>, and an early return
  \<open>if c { return Err(e) }\<close> is \<open>fail_if\<close>.  A Rust \<open>String\<close> is the list of its UTF-8 bytes
  (\<open>string\<close>), so \<open>length\<close> is Rust's \<open>len()\<close>; operations that look at characters go
  through \<open>utf8_chars\<close>, which cuts the bytes into encoded characters.
\<close>

type_synonym u8 = "8 word"
type_synonym u16 = "16 word"
type_synonym u32 = "32 word"
type_synonym u64 = "64 word"
type_synonym uuid = "128 word"
type_synonym bytes = "u8 list"

text \<open>\<open>result_simps\<close>: decisions of a chain of fallible checks; \<open>char_simps\<close>: the ASCII classes.\<close>

named_theorems result_simps
named_theorems char_simps

section \<open>Results\<close>

primrec rbind :: "'e + 'a \<Rightarrow> ('a \<Rightarrow> 'e + 'b) \<Rightarrow> 'e + 'b" where
  "rbind (Inl e) f = Inl e"
| "rbind (Inr a) f = f a"

abbreviation andThen :: "'e + unit \<Rightarrow> 'e + 'b \<Rightarrow> 'e + 'b" where
  "andThen r k \<equiv> rbind r (\<lambda>_. k)"

definition fail_if :: "bool \<Rightarrow> 'e \<Rightarrow> 'e + unit" where
  "fail_if b e = (if b then Inl e else Inr ())"

primrec map_err :: "('e \<Rightarrow> 'f) \<Rightarrow> 'e + 'a \<Rightarrow> 'f + 'a" where
  "map_err f (Inl e) = Inl (f e)"
| "map_err f (Inr a) = Inr a"

primrec ok_or :: "'e \<Rightarrow> 'a option \<Rightarrow> 'e + 'a" where
  "ok_or e None = Inl e"
| "ok_or e (Some a) = Inr a"

primrec is_ok :: "'e + 'a \<Rightarrow> bool" where
  "is_ok (Inl e) = False"
| "is_ok (Inr a) = True"

text \<open>\<open>iter().try_for_each(f)\<close>: the first error in list order, or success.\<close>

primrec try_all :: "('a \<Rightarrow> 'e + unit) \<Rightarrow> 'a list \<Rightarrow> 'e + unit" where
  "try_all f [] = Inr ()"
| "try_all f (x # xs) = andThen (f x) (try_all f xs)"

text \<open>\<open>iter().map(f).collect::<Result<Vec<_>, _>>()\<close>.\<close>

primrec map_res :: "('a \<Rightarrow> 'e + 'b) \<Rightarrow> 'a list \<Rightarrow> 'e + 'b list" where
  "map_res f [] = Inr []"
| "map_res f (x # xs) = rbind (f x) (\<lambda>y. rbind (map_res f xs) (\<lambda>ys. Inr (y # ys)))"

lemma rbind_Inr_iff [result_simps]: "rbind r f = Inr b \<longleftrightarrow> (\<exists>a. r = Inr a \<and> f a = Inr b)"
  by (cases r) auto

lemma rbind_Inl_iff: "rbind r f = Inl e \<longleftrightarrow> r = Inl e \<or> (\<exists>a. r = Inr a \<and> f a = Inl e)"
  by (cases r) auto

lemma fail_if_Inr_iff [result_simps]: "fail_if b e = Inr u \<longleftrightarrow> \<not> b"
  by (auto simp: fail_if_def)

lemma fail_if_Inl_iff: "fail_if b e = Inl e' \<longleftrightarrow> b \<and> e' = e"
  by (auto simp: fail_if_def)

lemma fail_if_simps [simp]: "fail_if True e = Inl e" "fail_if False e = Inr ()"
  by (simp_all add: fail_if_def)

lemma fail_if_then: "andThen (fail_if b e) k = (if b then Inl e else k)"
  by simp

lemma map_err_Inr_iff [result_simps]: "map_err f r = Inr a \<longleftrightarrow> r = Inr a"
  by (cases r) auto

lemma map_err_Inl_iff: "map_err f r = Inl e \<longleftrightarrow> (\<exists>x. r = Inl x \<and> e = f x)"
  by (cases r) auto

lemma ok_or_Inr_iff [result_simps]: "ok_or e r = Inr a \<longleftrightarrow> r = Some a"
  by (cases r) auto

lemma is_ok_iff: "is_ok r \<longleftrightarrow> (\<exists>a. r = Inr a)"
  by (cases r) auto

lemma not_ok_iff: "\<not> is_ok r \<longleftrightarrow> (\<exists>e. r = Inl e)"
  by (cases r) auto

lemma try_all_Inr_iff [result_simps]: "try_all f xs = Inr u \<longleftrightarrow> (\<forall>x \<in> set xs. f x = Inr ())"
  by (induction xs) (auto simp: rbind_Inr_iff)

lemma try_all_Inl:
  "try_all f xs = Inl e \<Longrightarrow> \<exists>ys x zs. xs = ys @ x # zs \<and> try_all f ys = Inr () \<and> f x = Inl e"
proof (induction xs)
  case Nil
  then show ?case by simp
next
  case (Cons x xs)
  show ?case
  proof (cases "f x")
    case (Inl e')
    with Cons.prems show ?thesis by (intro exI [of _ "[]"] exI [of _ x] exI [of _ xs]) simp
  next
    case (Inr u)
    with Cons obtain ys y zs where "xs = ys @ y # zs" "try_all f ys = Inr ()" "f y = Inl e"
      by auto
    with Inr show ?thesis by (intro exI [of _ "x # ys"] exI [of _ y] exI [of _ zs]) simp
  qed
qed

lemma map_res_Inr_iff: "map_res f xs = Inr ys \<longleftrightarrow> list_all2 (\<lambda>x y. f x = Inr y) xs ys"
  by (induction xs arbitrary: ys) (auto simp: rbind_Inr_iff list_all2_Cons1)

lemma map_res_length: "map_res f xs = Inr ys \<Longrightarrow> length ys = length xs"
  by (auto simp: map_res_Inr_iff dest: list_all2_lengthD)

section \<open>Characters\<close>

abbreviation ord :: "char \<Rightarrow> nat" where
  "ord \<equiv> of_char"

definition ascii_lower :: "char \<Rightarrow> bool" where
  "ascii_lower c \<longleftrightarrow> 97 \<le> ord c \<and> ord c \<le> 122"

definition ascii_upper :: "char \<Rightarrow> bool" where
  "ascii_upper c \<longleftrightarrow> 65 \<le> ord c \<and> ord c \<le> 90"

definition ascii_digit :: "char \<Rightarrow> bool" where
  "ascii_digit c \<longleftrightarrow> 48 \<le> ord c \<and> ord c \<le> 57"

definition ascii_alnum :: "char \<Rightarrow> bool" where
  "ascii_alnum c \<longleftrightarrow> ascii_lower c \<or> ascii_upper c \<or> ascii_digit c"

definition ascii_hexdigit :: "char \<Rightarrow> bool" where
  "ascii_hexdigit c \<longleftrightarrow> ascii_digit c \<or> (97 \<le> ord c \<and> ord c \<le> 102) \<or> (65 \<le> ord c \<and> ord c \<le> 70)"

definition lower_hex :: "char \<Rightarrow> bool" where
  "lower_hex c \<longleftrightarrow> ascii_digit c \<or> (97 \<le> ord c \<and> ord c \<le> 102)"

definition ascii_control :: "char \<Rightarrow> bool" where
  "ascii_control c \<longleftrightarrow> ord c < 32 \<or> ord c = 127"

definition ascii_ws :: "char \<Rightarrow> bool" where
  "ascii_ws c \<longleftrightarrow> ord c \<in> {9, 10, 12, 13, 32}"

definition to_lower :: "char \<Rightarrow> char" where
  "to_lower c = (if ascii_upper c then char_of (ord c + 32) else c)"

lemmas [char_simps] = ascii_lower_def ascii_upper_def ascii_digit_def ascii_alnum_def
  ascii_hexdigit_def lower_hex_def ascii_control_def ascii_ws_def

lemma ord_less_256 [simp]: "ord c < 256"
  by (metis of_char_mod_256 mod_less_divisor zero_less_numeral)

lemma ord_inject [simp]: "ord c = ord d \<longleftrightarrow> c = d"
  by (metis char_of_char)

section \<open>Encoded characters of a UTF-8 string\<close>

text \<open>The number of bytes of the character that starts with this byte.\<close>

definition utf8_len :: "char \<Rightarrow> nat" where
  "utf8_len c = (if ord c < 192 then 1 else if ord c < 224 then 2 else if ord c < 240 then 3 else 4)"

fun utf8_chars :: "string \<Rightarrow> string list" where
  "utf8_chars [] = []"
| "utf8_chars (c # cs) = (c # take (utf8_len c - 1) cs) # utf8_chars (drop (utf8_len c - 1) cs)"

text \<open>A continuation byte \<open>10xxxxxx\<close>: never at the start of a character.\<close>

definition utf8_cont :: "char \<Rightarrow> bool" where
  "utf8_cont c \<longleftrightarrow> 128 \<le> ord c \<and> ord c < 192"

text \<open>Rust's \<open>str::is_char_boundary\<close>.\<close>

definition is_char_boundary :: "string \<Rightarrow> nat \<Rightarrow> bool" where
  "is_char_boundary s i \<longleftrightarrow>
     i = 0 \<or> i = length s \<or> (i < length s \<and> \<not> utf8_cont (s ! i))"

text \<open>Rust's \<open>char::is_control\<close> (category Cc): U+0000-U+001F, U+007F-U+009F.\<close>

definition char_control :: "string \<Rightarrow> bool" where
  "char_control ch = (case map ord ch of
      [b] \<Rightarrow> b < 32 \<or> b = 127
    | [a, b] \<Rightarrow> a = 194 \<and> 128 \<le> b \<and> b \<le> 159
    | _ \<Rightarrow> False)"

definition has_control :: "string \<Rightarrow> bool" where
  "has_control s = list_ex char_control (utf8_chars s)"

text \<open>Rust's \<open>char::is_whitespace\<close> (property White\_Space), by the encodings of its 25 members.\<close>

definition char_whitespace :: "string \<Rightarrow> bool" where
  "char_whitespace ch = (case map ord ch of
      [b] \<Rightarrow> (9 \<le> b \<and> b \<le> 13) \<or> b = 32
    | [a, b] \<Rightarrow> a = 194 \<and> (b = 133 \<or> b = 160)
    | [a, b, c] \<Rightarrow> (a = 225 \<and> b = 154 \<and> c = 128)
         \<or> (a = 226 \<and> b = 128 \<and> (128 \<le> c \<and> c \<le> 138 \<or> c = 168 \<or> c = 169 \<or> c = 175))
         \<or> (a = 226 \<and> b = 129 \<and> c = 159) \<or> (a = 227 \<and> b = 128 \<and> c = 128)
    | _ \<Rightarrow> False)"

definition trim :: "string \<Rightarrow> string" where
  "trim s = concat (rev (dropWhile char_whitespace (rev (dropWhile char_whitespace (utf8_chars s)))))"

lemma utf8_chars_concat [simp]: "concat (utf8_chars s) = s"
  by (induction s rule: utf8_chars.induct) simp_all

lemma utf8_chars_nonempty: "[] \<notin> set (utf8_chars s)"
  by (induction s rule: utf8_chars.induct) simp_all

lemma utf8_chars_ascii: "\<forall>c \<in> set s. ord c < 128 \<Longrightarrow> utf8_chars s = map (\<lambda>c. [c]) s"
  by (induction s) (auto simp: utf8_len_def)

lemma utf8_chars_Nil_iff [simp]: "utf8_chars s = [] \<longleftrightarrow> s = []"
  by (cases s) auto

text \<open>A string is blank when trimming leaves nothing.\<close>

lemma concat_nonempty_eq_Nil: "[] \<notin> set xss \<Longrightarrow> concat xss = [] \<longleftrightarrow> xss = []"
  by (cases xss) auto

lemma trim_blank_iff: "trim s = [] \<longleftrightarrow> list_all char_whitespace (utf8_chars s)"
proof -
  let ?r = "rev (dropWhile char_whitespace (utf8_chars s))"
  have ne: "[] \<notin> set (rev (dropWhile char_whitespace ?r))"
    using utf8_chars_nonempty [of s] by (auto dest!: set_dropWhileD)
  have "trim s = [] \<longleftrightarrow> (\<forall>x \<in> set (dropWhile char_whitespace (utf8_chars s)). char_whitespace x)"
    unfolding trim_def concat_nonempty_eq_Nil [OF ne] by (simp add: dropWhile_eq_Nil_conv)
  also have "\<dots> \<longleftrightarrow> (\<forall>x \<in> set (utf8_chars s). char_whitespace x)"
    by (metis dropWhile_eq_Nil_conv dropWhile_idem)
  finally show ?thesis by (simp add: list_all_iff)
qed

section \<open>Substrings and separators\<close>

fun contains_str :: "'a list \<Rightarrow> 'a list \<Rightarrow> bool" where
  "contains_str p [] = (p = [])"
| "contains_str p (x # xs) = (prefix p (x # xs) \<or> contains_str p xs)"

lemma contains_str_iff: "contains_str p s \<longleftrightarrow> (\<exists>u v. s = u @ p @ v)"
proof (induction s)
  case Nil
  then show ?case by auto
next
  case (Cons x xs)
  show ?case
  proof
    assume "contains_str p (x # xs)"
    then consider "prefix p (x # xs)" | "contains_str p xs" by auto
    then show "\<exists>u v. x # xs = u @ p @ v"
    proof cases
      case 1
      then obtain v where "x # xs = p @ v" by (auto simp: prefix_def)
      then show ?thesis by (intro exI [of _ "[]"] exI [of _ v]) simp
    next
      case 2
      with Cons.IH obtain u v where "xs = u @ p @ v" by blast
      then show ?thesis by (intro exI [of _ "x # u"] exI [of _ v]) simp
    qed
  next
    assume "\<exists>u v. x # xs = u @ p @ v"
    then obtain u v where uv: "x # xs = u @ p @ v" by blast
    show "contains_str p (x # xs)"
    proof (cases u)
      case Nil
      with uv have "prefix p (x # xs)" by (simp add: prefix_def)
      then show ?thesis by simp
    next
      case (Cons y u')
      with uv have "xs = u' @ p @ v" by simp
      with Cons.IH have "contains_str p xs" by blast
      then show ?thesis by simp
    qed
  qed
qed

text \<open>\<open>s.split(c)\<close>: always at least one piece.\<close>

fun split_on :: "'a \<Rightarrow> 'a list \<Rightarrow> 'a list list" where
  "split_on c [] = [[]]"
| "split_on c (x # xs) =
     (if x = c then [] # split_on c xs
      else (case split_on c xs of [] \<Rightarrow> [[x]] | p # ps \<Rightarrow> (x # p) # ps))"

text \<open>Joining with a separator.\<close>

fun join_with :: "'a \<Rightarrow> 'a list list \<Rightarrow> 'a list" where
  "join_with c [] = []"
| "join_with c [p] = p"
| "join_with c (p # q # ps) = p @ c # join_with c (q # ps)"

lemma split_on_not_Nil [simp]: "split_on c s \<noteq> []"
  by (induction s) (auto split: list.splits)

lemma split_on_pieces: "p \<in> set (split_on c s) \<Longrightarrow> c \<notin> set p"
  by (induction s arbitrary: p) (auto split: list.splits if_splits)

lemma join_split: "join_with c (split_on c s) = s"
proof (induction s)
  case Nil
  then show ?case by simp
next
  case (Cons x xs)
  obtain p ps where ps: "split_on c xs = p # ps" by (cases "split_on c xs") auto
  with Cons show ?case by (cases ps) auto
qed

lemma split_on_no_sep: "c \<notin> set p \<Longrightarrow> split_on c p = [p]"
  by (induction p) auto

lemma split_on_append_sep: "c \<notin> set p \<Longrightarrow> split_on c (p @ c # s) = p # split_on c s"
  by (induction p) auto

lemma split_join:
  "ps \<noteq> [] \<Longrightarrow> \<forall>p \<in> set ps. c \<notin> set p \<Longrightarrow> split_on c (join_with c ps) = ps"
  by (induction c ps rule: join_with.induct) (auto simp: split_on_no_sep split_on_append_sep)

text \<open>\<open>s.split_once(c)\<close>: cut at the first occurrence.\<close>

fun split_once :: "'a \<Rightarrow> 'a list \<Rightarrow> ('a list \<times> 'a list) option" where
  "split_once c [] = None"
| "split_once c (x # xs) =
     (if x = c then Some ([], xs) else map_option (\<lambda>(p, q). (x # p, q)) (split_once c xs))"

lemma split_once_Some: "split_once c s = Some (p, q) \<longleftrightarrow> s = p @ c # q \<and> c \<notin> set p"
proof (induction s arbitrary: p)
  case Nil
  then show ?case by simp
next
  case (Cons x xs)
  show ?case
  proof (cases p)
    case Nil
    then show ?thesis by simp
  next
    case (Cons y p')
    with Cons.IH show ?thesis by auto
  qed
qed

text \<open>\<open>strip_prefix\<close>.\<close>

fun strip_prefix :: "'a list \<Rightarrow> 'a list \<Rightarrow> 'a list option" where
  "strip_prefix [] s = Some s"
| "strip_prefix (x # p) [] = None"
| "strip_prefix (x # p) (y # s) = (if x = y then strip_prefix p s else None)"

lemma strip_prefix_Some [simp]: "strip_prefix p s = Some r \<longleftrightarrow> s = p @ r"
  by (induction p s rule: strip_prefix.induct) auto

lemma strip_prefix_None: "strip_prefix p s = None \<longleftrightarrow> \<not> prefix p s"
  by (induction p s rule: strip_prefix.induct) auto

section \<open>Big-endian bytes\<close>

text \<open>The \<open>n\<close> low bytes of a number, most significant first, and back.\<close>

primrec to_be :: "nat \<Rightarrow> nat \<Rightarrow> bytes" where
  "to_be 0 x = []"
| "to_be (Suc n) x = to_be n (x div 256) @ [word_of_nat (x mod 256)]"

lemma to_be_numeral:
  "to_be (numeral k) x = to_be (pred_numeral k) (x div 256) @ [word_of_nat (x mod 256)]"
  by (simp only: numeral_eq_Suc [of k] to_be.simps)

definition from_be :: "bytes \<Rightarrow> nat" where
  "from_be = foldl (\<lambda>acc b. acc * 256 + unat b) 0"

lemma length_to_be [simp]: "length (to_be n x) = n"
  by (induction n arbitrary: x) auto

lemma from_be_Nil [simp]: "from_be [] = 0"
  by (simp add: from_be_def)

lemma from_be_snoc [simp]: "from_be (bs @ [b]) = from_be bs * 256 + unat b"
  by (simp add: from_be_def)

lemma unat_byte_less: "unat (b :: u8) < 256"
  using unsigned_less [of b] by simp

lemma unat_byte_mod [simp]: "unat (word_of_nat (x mod 256) :: u8) = x mod 256"
  by (simp add: unat_of_nat)

lemma from_to_be: "from_be (to_be n x) = x mod 256 ^ n"
proof (induction n arbitrary: x)
  case 0
  then show ?case by simp
next
  case (Suc n)
  have "x mod 256 ^ Suc n = 256 * (x div 256 mod 256 ^ n) + x mod 256"
    by (simp add: mod_mult2_eq)
  with Suc show ?case by simp
qed

lemma to_from_be: "length bs = n \<Longrightarrow> to_be n (from_be bs) = bs"
proof (induction n arbitrary: bs)
  case 0
  then show ?case by simp
next
  case (Suc n)
  then obtain cs c where bs: "bs = cs @ [c]" and len: "length cs = n"
    by (metis length_Suc_conv_rev)
  have c: "unat c < 256" using unsigned_less [of c] by simp
  then have "(from_be cs * 256 + unat c) div 256 = from_be cs" by simp
  moreover have "word_of_nat ((from_be cs * 256 + unat c) mod 256) = c"
    using c by simp
  ultimately show ?case using Suc.IH [OF len] by (simp add: bs)
qed

lemma from_be_bound: "from_be bs < 256 ^ length bs"
proof (induction bs rule: rev_induct)
  case Nil
  then show ?case by simp
next
  case (snoc b bs)
  have "unat b < 256" using unsigned_less [of b] by simp
  with snoc show ?case by simp
qed

text \<open>\<open>iter.find_map(f)\<close>.\<close>

primrec find_map :: "('a \<Rightarrow> 'b option) \<Rightarrow> 'a list \<Rightarrow> 'b option" where
  "find_map f [] = None"
| "find_map f (x # xs) = (case f x of Some y \<Rightarrow> Some y | None \<Rightarrow> find_map f xs)"

section \<open>Words of a text\<close>

text \<open>\<open>str::split_whitespace\<close>: the maximal runs of characters that are not white space.\<close>

function words_by :: "('a \<Rightarrow> bool) \<Rightarrow> 'a list \<Rightarrow> 'a list list" where
  "words_by p [] = []"
| "words_by p (x # xs) =
     (if p x then words_by p xs
      else (x # takeWhile (\<lambda>y. \<not> p y) xs) # words_by p (dropWhile (\<lambda>y. \<not> p y) xs))"
  by pat_completeness auto
termination
  by (relation "measure (\<lambda>(p, xs). length xs)") (auto simp: le_imp_less_Suc length_dropWhile_le)

definition split_whitespace :: "string \<Rightarrow> string list" where
  "split_whitespace s = map concat (words_by char_whitespace (utf8_chars s))"

section \<open>Hash maps\<close>

text \<open>
  A \<open>HashMap\<close> whose size the code reads is the list of its entries with distinct keys; the code
  never depends on the iteration order.
\<close>

abbreviation hget :: "('k \<times> 'v) list \<Rightarrow> 'k \<Rightarrow> 'v option" where
  "hget \<equiv> map_of"

abbreviation hput :: "'k \<Rightarrow> 'v \<Rightarrow> ('k \<times> 'v) list \<Rightarrow> ('k \<times> 'v) list" where
  "hput \<equiv> AList.update"

abbreviation hdel :: "'k \<Rightarrow> ('k \<times> 'v) list \<Rightarrow> ('k \<times> 'v) list" where
  "hdel \<equiv> AList.delete"

definition hkeys :: "('k \<times> 'v) list \<Rightarrow> 'k set" where
  "hkeys m = set (map fst m)"

definition hmap_ok :: "('k \<times> 'v) list \<Rightarrow> bool" where
  "hmap_ok m \<longleftrightarrow> distinct (map fst m)"

named_theorems hmap_simps

lemmas [hmap_simps] = AList.update_conv' AList.delete_conv'

lemma hkeys_simps [hmap_simps]:
  "hkeys [] = {}" "hkeys (hput k v m) = insert k (hkeys m)" "hkeys (hdel k m) = hkeys m - {k}"
  by (auto simp: hkeys_def AList.dom_update AList.delete_keys)

lemma hmap_ok_simps [hmap_simps]:
  "hmap_ok []" "hmap_ok m \<Longrightarrow> hmap_ok (hput k v m)" "hmap_ok m \<Longrightarrow> hmap_ok (hdel k m)"
  by (auto simp: hmap_ok_def AList.distinct_update AList.distinct_delete)

lemma hget_None_iff: "hget m k = None \<longleftrightarrow> k \<notin> hkeys m"
  by (simp add: hkeys_def map_of_eq_None_iff)

lemma hget_Some_key: "hget m k = Some v \<Longrightarrow> k \<in> hkeys m"
  using hget_None_iff [of m k] by simp

lemma hput_length:
  "length (hput k v m) = (if k \<in> hkeys m then length m else Suc (length m))"
  by (induction m) (auto simp: hkeys_def)

lemma hmap_ok_size: "hmap_ok m \<Longrightarrow> length m = card (hkeys m)"
  by (metis distinct_card hkeys_def hmap_ok_def length_map)

section \<open>Saturating and checked arithmetic\<close>

definition sat_add64 :: "nat \<Rightarrow> nat \<Rightarrow> nat" where
  "sat_add64 a b = min (a + b) (2 ^ 64 - 1)"

definition checked_add64 :: "nat \<Rightarrow> nat \<Rightarrow> nat option" where
  "checked_add64 a b = (if a + b < 2 ^ 64 then Some (a + b) else None)"

definition checked_add32 :: "u32 \<Rightarrow> u32 \<Rightarrow> u32 option" where
  "checked_add32 a b = (if unat a + unat b < 2 ^ 32 then Some (a + b) else None)"

lemma checked_add32_Some: "checked_add32 a b = Some c \<Longrightarrow> unat c = unat a + unat b"
  by (auto simp: checked_add32_def unat_word_ariths split: if_splits)

lemma sat_add64_le: "sat_add64 a b \<le> m \<Longrightarrow> m < 2 ^ 64 - 1 \<Longrightarrow> a + b \<le> m"
  by (auto simp: sat_add64_def min_def split: if_splits)

section \<open>Decimal numbers\<close>

text \<open>\<open>Display\<close> of an unsigned integer.\<close>

fun show_nat :: "nat \<Rightarrow> string" where
  "show_nat n = (if n < 10 then [char_of (48 + n)] else show_nat (n div 10) @ [char_of (48 + n mod 10)])"

declare show_nat.simps [simp del]

definition read_nat :: "string \<Rightarrow> nat" where
  "read_nat s = foldl (\<lambda>n c. n * 10 + (ord c - 48)) 0 s"

lemma ord_digit: "d < 10 \<Longrightarrow> ord (char_of (48 + d) :: char) = 48 + d"
  by (simp add: of_char_of)

lemma read_show_nat: "read_nat (show_nat n) = n"
proof (induction n rule: show_nat.induct)
  case (1 n)
  show ?case
  proof (cases "n < 10")
    case True
    then show ?thesis by (simp add: show_nat.simps [of n] read_nat_def ord_digit)
  next
    case False
    with 1 have "read_nat (show_nat (n div 10)) = n div 10" by simp
    then show ?thesis
      using False by (simp add: show_nat.simps [of n] read_nat_def ord_digit)
  qed
qed

lemma show_nat_digits: "\<forall>ch \<in> set (show_nat n). 48 \<le> ord ch \<and> ord ch \<le> 57"
proof (induction n rule: show_nat.induct)
  case (1 n)
  then show ?case by (cases "n < 10") (auto simp: show_nat.simps [of n] ord_digit)
qed

section \<open>Steps on a state\<close>

text \<open>Sequencing of steps that answer with an error or go on.\<close>

definition st_then ::
  "('s \<Rightarrow> ('e + 'a) \<times> 's) \<Rightarrow> ('a \<Rightarrow> 's \<Rightarrow> ('e + 'b) \<times> 's) \<Rightarrow> 's \<Rightarrow> ('e + 'b) \<times> 's" where
  "st_then m k s = (case m s of (Inl e, s) \<Rightarrow> (Inl e, s) | (Inr a, s) \<Rightarrow> k a s)"

definition st_check :: "('s \<Rightarrow> 'e + 'a) \<Rightarrow> 's \<Rightarrow> ('e + 'a) \<times> 's" where
  "st_check f s = (f s, s)"

end
