(* ===== verification/Machines.thy ===== *)
theory Machines
  imports Prelude
begin

text \<open>
  The interfaces the components share.  \<open>guarded_machine\<close>: a component whose operations take
  the state by \<open>&mut self\<close> and answer with a result, so that a step yields the answer and the
  next state, with an invariant every step keeps.  \<open>growing_machine\<close> adds a preorder on states
  that every step climbs (a checkpoint, a set of used identifiers, a revision).  \<open>wire_names\<close>:
  an enum with a canonical spelling and its parser.  \<open>partial_codec\<close>: an encoder that may
  refuse, with its decoder.  The lemmas of each are proved once here; the theories of the
  components interpret them on the code's own definitions.
\<close>

section \<open>Running a machine\<close>

primrec run_steps :: "('s \<Rightarrow> 'e \<Rightarrow> 'r \<times> 's) \<Rightarrow> 's \<Rightarrow> 'e list \<Rightarrow> 's" where
  "run_steps f s [] = s"
| "run_steps f s (e # es) = run_steps f (snd (f s e)) es"

primrec answers :: "('s \<Rightarrow> 'e \<Rightarrow> 'r \<times> 's) \<Rightarrow> 's \<Rightarrow> 'e list \<Rightarrow> 'r list" where
  "answers f s [] = []"
| "answers f s (e # es) = fst (f s e) # answers f (snd (f s e)) es"

lemma run_steps_append: "run_steps f s (xs @ ys) = run_steps f (run_steps f s xs) ys"
  by (induction xs arbitrary: s) auto

lemma answers_append: "answers f s (xs @ ys) = answers f s xs @ answers f (run_steps f s xs) ys"
  by (induction xs arbitrary: s) auto

lemma answers_length [simp]: "length (answers f s es) = length es"
  by (induction es arbitrary: s) auto

lemma answers_nth:
  "i < length es \<Longrightarrow> answers f s es ! i = fst (f (run_steps f s (take i es)) (es ! i))"
proof (induction es arbitrary: s i)
  case Nil
  then show ?case by simp
next
  case (Cons e es)
  then show ?case by (cases i) auto
qed

locale guarded_machine =
  fixes step :: "'s \<Rightarrow> 'e \<Rightarrow> 'r \<times> 's"
    and init :: 's
    and inv :: "'s \<Rightarrow> bool"
  assumes inv_init: "inv init"
    and inv_step: "inv s \<Longrightarrow> inv (snd (step s e))"
begin

lemma inv_run: "inv s \<Longrightarrow> inv (run_steps step s es)"
  by (induction es arbitrary: s) (auto intro: inv_step)

lemma inv_reachable: "inv (run_steps step init es)"
  by (rule inv_run [OF inv_init])

end

locale growing_machine = guarded_machine step init inv
  for step :: "'s \<Rightarrow> 'e \<Rightarrow> 'r \<times> 's" and init :: 's and inv :: "'s \<Rightarrow> bool" +
  fixes below :: "'s \<Rightarrow> 's \<Rightarrow> bool"
  assumes below_refl: "below s s"
    and below_trans: "below s t \<Longrightarrow> below t u \<Longrightarrow> below s u"
    and below_step: "inv s \<Longrightarrow> below s (snd (step s e))"
begin

lemma below_run: "inv s \<Longrightarrow> below s (run_steps step s es)"
proof (induction es arbitrary: s)
  case Nil
  show ?case by (simp add: below_refl)
next
  case (Cons e es)
  have "below (snd (step s e)) (run_steps step (snd (step s e)) es)"
    by (rule Cons.IH) (rule inv_step [OF Cons.prems])
  with below_step [OF Cons.prems] show ?case by (auto intro: below_trans)
qed

lemma below_prefix:
  "inv s \<Longrightarrow> below (run_steps step s xs) (run_steps step s (xs @ ys))"
  by (simp add: run_steps_append below_run inv_run)

end

section \<open>Spellings and codecs\<close>

locale wire_names =
  fixes spell :: "'a \<Rightarrow> string"
    and parse :: "string \<Rightarrow> 'e + 'a"
  assumes parse_spell: "parse (spell x) = Inr x"
    and spell_parse: "parse s = Inr x \<Longrightarrow> spell x = s"
begin

lemma parse_iff: "parse s = Inr x \<longleftrightarrow> s = spell x"
  by (metis parse_spell spell_parse)

lemma spell_inj: "spell x = spell y \<longleftrightarrow> x = y"
  by (metis parse_spell sum.inject(2))

lemma rejects_iff: "(\<exists>e. parse s = Inl e) \<longleftrightarrow> s \<notin> range spell"
  by (cases "parse s") (auto simp: parse_spell parse_iff)

end

locale partial_codec =
  fixes encode :: "'a \<Rightarrow> 'e + 'b"
    and decode :: "'b \<Rightarrow> 'e + 'a"
  assumes decode_encode: "encode x = Inr b \<Longrightarrow> decode b = Inr x"
    and encode_decode: "decode b = Inr x \<Longrightarrow> encode x = Inr b"
begin

lemma decode_iff: "decode b = Inr x \<longleftrightarrow> encode x = Inr b"
  by (auto intro: decode_encode encode_decode)

lemma encode_inj: "encode x = Inr b \<Longrightarrow> encode y = Inr b \<Longrightarrow> x = y"
  by (metis decode_encode sum.inject(2))

lemma decode_inj: "decode b = Inr x \<Longrightarrow> decode c = Inr x \<Longrightarrow> b = c"
  by (metis encode_decode sum.inject(2))

end

end
