(* ===== verification/Permissions.thy ===== *)
theory Permissions
  imports Machines
begin

text \<open>
  \<^verbatim>\<open>crates/c6-core/src/permissions.rs\<close>: the cumulative project roles and the actions they
  allow, and the scoped credentials of \<^verbatim>\<open>crates/c6-core/src/model.rs\<close> (the credential types,
  their scopes and their canonical spellings).  The role names of the control plane
  (\<^verbatim>\<open>crates/c6-server/src/main.rs\<close>: \<open>role_rank\<close>, \<open>parse_core_role\<close>, \<open>validate_role\<close>,
  \<open>require_role_tx\<close>) are tied to the same order.
\<close>

section \<open>Roles and actions\<close>

datatype role = Consumer | Reader | Runner | Contributor | Maintainer | Owner

datatype action = UseApp | ReadSource | Fork | RunJob | CancelRun | PushBranch
  | OpenPullRequest | ReviewPullRequest | Merge | Publish | ManageSchedules
  | ReadSecretMetadata | WriteSecrets | ManageProject | ManageMembers | ViewAuditLog
  | DeleteProject

text \<open>The derived \<open>Ord\<close> compares discriminants.\<close>

primrec role_index :: "role \<Rightarrow> nat" where
  "role_index Consumer = 0"
| "role_index Reader = 1"
| "role_index Runner = 2"
| "role_index Contributor = 3"
| "role_index Maintainer = 4"
| "role_index Owner = 5"

lemma role_index_inject [simp]: "role_index r = role_index s \<longleftrightarrow> r = s"
  by (cases r; cases s) simp_all

instantiation role :: linorder
begin

definition less_eq_role :: "role \<Rightarrow> role \<Rightarrow> bool" where
  "less_eq_role r s = (role_index r \<le> role_index s)"

definition less_role :: "role \<Rightarrow> role \<Rightarrow> bool" where
  "less_role r s = (role_index r < role_index s)"

instance
  by standard (auto simp: less_eq_role_def less_role_def)

end

lemmas role_order = less_eq_role_def less_role_def

fun minimum_role :: "action \<Rightarrow> role" where
  "minimum_role UseApp = Consumer"
| "minimum_role ReadSource = Reader"
| "minimum_role Fork = Reader"
| "minimum_role RunJob = Runner"
| "minimum_role CancelRun = Runner"
| "minimum_role PushBranch = Contributor"
| "minimum_role OpenPullRequest = Contributor"
| "minimum_role ReviewPullRequest = Contributor"
| "minimum_role Merge = Maintainer"
| "minimum_role Publish = Maintainer"
| "minimum_role ManageSchedules = Maintainer"
| "minimum_role ReadSecretMetadata = Maintainer"
| "minimum_role WriteSecrets = Maintainer"
| "minimum_role ManageProject = Maintainer"
| "minimum_role ManageMembers = Owner"
| "minimum_role ViewAuditLog = Owner"
| "minimum_role DeleteProject = Owner"

definition allows :: "role \<Rightarrow> action \<Rightarrow> bool" where
  "allows r a = (minimum_role a \<le> r)"

lemma minimum_role_onto: "\<exists>a. minimum_role a = r"
proof (cases r)
  case Consumer then show ?thesis by (auto intro: exI [of _ UseApp])
next
  case Reader then show ?thesis by (auto intro: exI [of _ ReadSource])
next
  case Runner then show ?thesis by (auto intro: exI [of _ RunJob])
next
  case Contributor then show ?thesis by (auto intro: exI [of _ PushBranch])
next
  case Maintainer then show ?thesis by (auto intro: exI [of _ Merge])
next
  case Owner then show ?thesis by (auto intro: exI [of _ ManageMembers])
qed

lemma allows_mono: "r \<le> s \<Longrightarrow> allows r a \<Longrightarrow> allows s a"
  by (auto simp: allows_def)

lemma allows_at_minimum: "allows (minimum_role a) a"
  by (simp add: allows_def)

text \<open>
  The roles are cumulative with a strict boundary at every level: a role is below another
  exactly when the actions it allows are a proper subset of the other's.
\<close>

theorem roles_strictly_cumulative:
  "r < s \<longleftrightarrow> {a. allows r a} \<subset> {a. allows s a}"
proof
  assume less: "r < s"
  obtain b where b: "minimum_role b = s" using minimum_role_onto by blast
  have "allows s b" "\<not> allows r b" using b less by (auto simp: allows_def)
  moreover have "{a. allows r a} \<subseteq> {a. allows s a}"
    using less by (auto intro: allows_mono [OF less_imp_le])
  ultimately show "{a. allows r a} \<subset> {a. allows s a}" by blast
next
  assume sub: "{a. allows r a} \<subset> {a. allows s a}"
  show "r < s"
  proof (rule ccontr)
    assume "\<not> r < s"
    then have "s \<le> r" by simp
    then have "{a. allows s a} \<subseteq> {a. allows r a}" by (auto intro: allows_mono)
    with sub show False by blast
  qed
qed

section \<open>Role names of the control plane\<close>

primrec role_name :: "role \<Rightarrow> string" where
  "role_name Consumer = ''consumer''"
| "role_name Reader = ''reader''"
| "role_name Runner = ''runner''"
| "role_name Contributor = ''contributor''"
| "role_name Maintainer = ''maintainer''"
| "role_name Owner = ''owner''"

text \<open>The errors of the control plane, by their HTTP class (\<open>ApiError\<close>).\<close>

datatype server_error = BadRequest string | Unauthenticated | Forbidden string
  | NotFoundError string | ConflictError string | InternalError string

definition parse_core_role :: "string \<Rightarrow> server_error + role" where
  "parse_core_role s =
     (if s = ''consumer'' then Inr Consumer
      else if s = ''reader'' then Inr Reader
      else if s = ''runner'' then Inr Runner
      else if s = ''contributor'' then Inr Contributor
      else if s = ''maintainer'' then Inr Maintainer
      else if s = ''owner'' then Inr Owner
      else Inl (InternalError ''invalid persisted role''))"

definition role_rank :: "string \<Rightarrow> u8" where
  "role_rank s =
     (if s = ''consumer'' then 0
      else if s = ''reader'' then 1
      else if s = ''runner'' then 2
      else if s = ''contributor'' then 3
      else if s = ''maintainer'' then 4
      else if s = ''owner'' then 5
      else 0)"

definition validate_role :: "string \<Rightarrow> server_error + unit" where
  "validate_role s =
     (if s \<in> {''consumer'', ''reader'', ''runner'', ''contributor'', ''maintainer'', ''owner''}
      then Inr () else Inl (BadRequest ''invalid role''))"

text \<open>\<open>require_role_tx\<close> over the role column of the membership row, if there is one.\<close>

definition require_role_tx :: "string option \<Rightarrow> string \<Rightarrow> server_error + unit" where
  "require_role_tx row required =
     (case row of
        Some r \<Rightarrow> if role_rank required \<le> role_rank r then Inr ()
                  else Inl (Forbidden (required @ '' role required''))
      | None \<Rightarrow> Inl (Forbidden (required @ '' role required'')))"

interpretation core_role: wire_names role_name parse_core_role
proof unfold_locales
  show "parse_core_role (role_name r) = Inr r" for r
    by (cases r) (simp_all add: parse_core_role_def)
  show "role_name r = s" if "parse_core_role s = Inr r" for s r
    using that by (auto simp: parse_core_role_def split: if_splits)
qed

lemma role_rank_name: "role_rank (role_name r) = word_of_nat (role_index r)"
  by (cases r) (simp_all add: role_rank_def)

lemma role_index_small: "role_index r < 6"
  by (cases r) simp_all

lemma role_rank_le: "role_rank (role_name r) \<le> role_rank (role_name s) \<longleftrightarrow> r \<le> s"
  using role_index_small [of r] role_index_small [of s]
  by (simp add: role_rank_name role_order word_le_nat_alt unat_of_nat)

lemma validate_role_iff: "validate_role s = Inr () \<longleftrightarrow> (\<exists>r. s = role_name r)"
proof
  assume "validate_role s = Inr ()"
  then have "\<exists>r. parse_core_role s = Inr r"
    by (auto simp: validate_role_def parse_core_role_def split: if_splits)
  then show "\<exists>r. s = role_name r" by (simp add: core_role.parse_iff)
next
  assume "\<exists>r. s = role_name r"
  then obtain r where "s = role_name r" ..
  then show "validate_role s = Inr ()" by (cases r) (simp_all add: validate_role_def)
qed

text \<open>
  The string ranks the control plane compares agree with the order of the core roles: for a
  stored role and a required role, both spelled canonically, \<open>require_role_tx\<close> admits exactly
  when the stored role is at least the required one, a missing membership is refused, and every
  role name the API accepts is one that can be read back as a core role.
\<close>

theorem require_role_agrees_with_core:
  "(require_role_tx (Some (role_name r)) (role_name m) = Inr () \<longleftrightarrow> m \<le> r)
   \<and> require_role_tx None (role_name m) = Inl (Forbidden (role_name m @ '' role required''))
   \<and> (validate_role w = Inr () \<longleftrightarrow> (\<exists>c. parse_core_role w = Inr c))"
  by (simp add: require_role_tx_def role_rank_le validate_role_iff core_role.parse_iff)

section \<open>Scoped credentials\<close>

datatype credential_type = Cli | Git

datatype credential_scope = ApiRead | ApiWrite | GitRead | GitWrite

primrec credential_type_as_str :: "credential_type \<Rightarrow> string" where
  "credential_type_as_str Cli = ''cli''"
| "credential_type_as_str Git = ''git''"

primrec token_prefix :: "credential_type \<Rightarrow> string" where
  "token_prefix Cli = ''c6c_v1''"
| "token_prefix Git = ''c6g_v1''"

primrec allowed_scopes :: "credential_type \<Rightarrow> credential_scope list" where
  "allowed_scopes Cli = [ApiRead, ApiWrite]"
| "allowed_scopes Git = [GitRead, GitWrite]"

primrec read_scope :: "credential_type \<Rightarrow> credential_scope" where
  "read_scope Cli = ApiRead"
| "read_scope Git = GitRead"

definition permits_scope :: "credential_type \<Rightarrow> credential_scope \<Rightarrow> bool" where
  "permits_scope t s = (case (t, s) of
      (Cli, ApiRead) \<Rightarrow> True | (Cli, ApiWrite) \<Rightarrow> True
    | (Git, GitRead) \<Rightarrow> True | (Git, GitWrite) \<Rightarrow> True
    | _ \<Rightarrow> False)"

datatype parse_credential_error = ParseCredentialTypeError | ParseCredentialScopeError

definition credential_type_from_str :: "string \<Rightarrow> parse_credential_error + credential_type" where
  "credential_type_from_str s =
     (if s = ''cli'' then Inr Cli else if s = ''git'' then Inr Git
      else Inl ParseCredentialTypeError)"

primrec credential_scope_as_str :: "credential_scope \<Rightarrow> string" where
  "credential_scope_as_str ApiRead = ''api:read''"
| "credential_scope_as_str ApiWrite = ''api:write''"
| "credential_scope_as_str GitRead = ''git:read''"
| "credential_scope_as_str GitWrite = ''git:write''"

definition credential_scope_from_str :: "string \<Rightarrow> parse_credential_error + credential_scope" where
  "credential_scope_from_str s =
     (if s = ''api:read'' then Inr ApiRead
      else if s = ''api:write'' then Inr ApiWrite
      else if s = ''git:read'' then Inr GitRead
      else if s = ''git:write'' then Inr GitWrite
      else Inl ParseCredentialScopeError)"

interpretation cred_type: wire_names credential_type_as_str credential_type_from_str
proof unfold_locales
  show "credential_type_from_str (credential_type_as_str t) = Inr t" for t
    by (cases t) (simp_all add: credential_type_from_str_def)
  show "credential_type_as_str t = s" if "credential_type_from_str s = Inr t" for s t
    using that by (auto simp: credential_type_from_str_def split: if_splits)
qed

interpretation cred_scope: wire_names credential_scope_as_str credential_scope_from_str
proof unfold_locales
  show "credential_scope_from_str (credential_scope_as_str t) = Inr t" for t
    by (cases t) (simp_all add: credential_scope_from_str_def)
  show "credential_scope_as_str t = s" if "credential_scope_from_str s = Inr t" for s t
    using that by (auto simp: credential_scope_from_str_def split: if_splits)
qed

lemma permits_scope_iff: "permits_scope t s \<longleftrightarrow> s \<in> set (allowed_scopes t)"
  by (cases t; cases s) (simp_all add: permits_scope_def)

lemma scope_has_one_type: "\<exists>!t. permits_scope t s"
  by (cases s; rule ex_ex1I)
     (auto simp: permits_scope_def split: credential_type.splits intro: exI [of _ Cli] exI [of _ Git])

text \<open>
  The authentication surfaces are disjoint, by name and by authority: a scope string parses to
  a scope if and only if it is that scope's canonical spelling, and every scope is permitted on
  exactly one credential type, whose read scope it shares the surface with.
\<close>

theorem scopes_partition_surfaces:
  "(credential_scope_from_str w = Inr s \<longleftrightarrow> w = credential_scope_as_str s)
   \<and> (\<exists>!t. permits_scope t s)
   \<and> (permits_scope t s \<longleftrightarrow> s \<in> set (allowed_scopes t))
   \<and> permits_scope t (read_scope t)"
  using scope_has_one_type [of s]
  by (cases t) (simp_all add: cred_scope.parse_iff permits_scope_iff)

end
