(* ===== verification/Manifest.thy ===== *)
theory Manifest
  imports Complex_Main Permissions
begin

text \<open>
  \<^verbatim>\<open>crates/c6-core/src/manifest.rs\<close>: the \<^verbatim>\<open>c6.toml\<close> contract and its validation, in the
  code's order of checks.  \<open>ProjectManifest::parse\<close> runs the TOML deserialiser (a third-party
  crate, here the parameter \<open>from_toml\<close>) and then \<open>validate\<close>.  A \<open>BTreeMap\<close> is its list of
  entries in key order; an \<open>f32\<close> is read only through \<open>is_finite\<close> and the comparison with
  zero, so it is a tagged rational.  The abstract specification \<open>manifest_ok\<close> says what an
  accepted manifest promises, without the order of the checks.
\<close>

section \<open>Data model\<close>

datatype f32 = F32_NaN | F32_Infinite bool | F32_Finite rat

datatype build_strategy = Auto | Dockerfile

datatype job_kind = CommandJob | CronJob | AgentJob

datatype concurrency = Forbid | Allow | Replace

datatype repository_write = NoWrite | Proposal

record build =
  strategy :: build_strategy
  dockerfile :: "string option"

record resources =
  cpu :: f32
  memory_mb :: u32

record service =
  service_name :: string
  service_command :: string
  port :: u16
  health_path :: string
  service_secrets :: "string list"
  service_resources :: resources

record job =
  job_name :: string
  kind :: job_kind
  command :: "string option"
  agent_config :: "string option"
  schedule :: "string option"
  timezone :: "string option"
  job_concurrency :: concurrency
  timeout_seconds :: u32
  job_secrets :: "string list"
  job_repository_write :: repository_write
  network :: "string list"
  job_resources :: resources

record project_manifest =
  version :: u32
  manifest_build :: build
  services :: "service list"
  jobs :: "job list"
  postgres_enabled :: bool
  files_enabled :: bool
  secrets :: "(string \<times> string) list"

text \<open>The \<open>#[serde(default)]\<close> values.\<close>

definition default_build :: build where
  "default_build = \<lparr>strategy = Auto, dockerfile = None\<rparr>"

definition default_health_path :: string where
  "default_health_path = ''/healthz''"

definition default_timeout :: u32 where
  "default_timeout = 900"

definition default_resources :: resources where
  "default_resources = \<lparr>cpu = F32_Finite (1 / 2), memory_mb = 512\<rparr>"

datatype manifest_error =
    InvalidToml string
  | UnsupportedVersion u32
  | DuplicateName string
  | InvalidPort string
  | InvalidCron string
  | MissingAgentConfig string
  | UnknownSecret string
  | InvalidName string
  | MissingCommand string
  | InvalidTimeout string
  | InvalidResources string
  | PartialSchedule string
  | MissingDockerfile
  | UnsafePath string
  | InvalidSecretName string

section \<open>The checks\<close>

text \<open>\<open>bytes.first()\<close> and \<open>bytes.last()\<close> of a possibly empty slice.\<close>

definition first_is :: "(char \<Rightarrow> bool) \<Rightarrow> string \<Rightarrow> bool" where
  "first_is P s = (case s of [] \<Rightarrow> False | c # _ \<Rightarrow> P c)"

definition last_is :: "(char \<Rightarrow> bool) \<Rightarrow> string \<Rightarrow> bool" where
  "last_is P s = (case rev s of [] \<Rightarrow> False | c # _ \<Rightarrow> P c)"

definition name_char :: "char \<Rightarrow> bool" where
  "name_char c \<longleftrightarrow> ascii_lower c \<or> ascii_digit c \<or> c = CHR ''-''"

definition validate_name :: "string \<Rightarrow> manifest_error + unit" where
  "validate_name name =
     (let boundary = first_is ascii_alnum name \<and> last_is ascii_alnum name in
      if name \<noteq> [] \<and> length name \<le> 63 \<and> boundary \<and> list_all name_char name
      then Inr () else Inl (InvalidName name))"

definition validate_secret_name :: "string \<Rightarrow> manifest_error + unit" where
  "validate_secret_name name =
     (case name of
        [] \<Rightarrow> Inl (InvalidSecretName name)
      | c # cs \<Rightarrow>
          if (ascii_upper c \<or> c = CHR ''_'')
             \<and> list_all (\<lambda>b. ascii_upper b \<or> ascii_digit b \<or> b = CHR ''_'') cs
          then Inr () else Inl (InvalidSecretName name))"

primrec is_finite :: "f32 \<Rightarrow> bool" where
  "is_finite F32_NaN = False"
| "is_finite (F32_Infinite neg) = False"
| "is_finite (F32_Finite q) = True"

text \<open>\<open>x <= 0.0\<close>: false on NaN.\<close>

primrec f32_le_zero :: "f32 \<Rightarrow> bool" where
  "f32_le_zero F32_NaN = False"
| "f32_le_zero (F32_Infinite neg) = neg"
| "f32_le_zero (F32_Finite q) = (q \<le> 0)"

definition validate_resources :: "string \<Rightarrow> resources \<Rightarrow> manifest_error + unit" where
  "validate_resources name r =
     (if \<not> is_finite (cpu r) \<or> f32_le_zero (cpu r) \<or> memory_mb r = 0
      then Inl (InvalidResources name) else Inr ())"

text \<open>
  \<open>std::path::Path\<close> on Unix: repeated separators collapse, a \<open>.\<close> is kept only at the start of
  the path, and a leading separator is the root.
\<close>

datatype component = RootDir | CurDir | ParentDir | Normal string

fun path_rest :: "string list \<Rightarrow> component list" where
  "path_rest [] = []"
| "path_rest (p # ps) =
     (if p = [] \<or> p = ''.'' then path_rest ps
      else (if p = ''..'' then ParentDir else Normal p) # path_rest ps)"

definition is_absolute :: "string \<Rightarrow> bool" where
  "is_absolute path = prefix ''/'' path"

definition components :: "string \<Rightarrow> component list" where
  "components path =
     (if is_absolute path then RootDir # path_rest (split_on (CHR ''/'') path)
      else (case split_on (CHR ''/'') path of
              [] \<Rightarrow> []
            | p # ps \<Rightarrow> (if p = ''.'' then CurDir # path_rest ps else path_rest (p # ps))))"

definition validate_relative_path :: "string \<Rightarrow> manifest_error + unit" where
  "validate_relative_path path =
     (if trim path \<noteq> [] \<and> \<not> is_absolute path
         \<and> list_all (\<lambda>c. case c of Normal _ \<Rightarrow> True | CurDir \<Rightarrow> True | _ \<Rightarrow> False) (components path)
      then Inr () else Inl (UnsafePath path))"

definition contains_key :: "(string \<times> string) list \<Rightarrow> string \<Rightarrow> bool" where
  "contains_key m k = (k \<in> set (map fst m))"

definition validate_secrets :: "project_manifest \<Rightarrow> string list \<Rightarrow> manifest_error + unit" where
  "validate_secrets m references =
     try_all (\<lambda>name. fail_if (\<not> contains_key (secrets m) name) (UnknownSecret name)) references"

text \<open>The checks of one service or job after its name was found fresh.\<close>

definition validate_service_body :: "project_manifest \<Rightarrow> service \<Rightarrow> manifest_error + unit" where
  "validate_service_body m s =
     andThen (fail_if (port s = 0) (InvalidPort (service_name s)))
     (andThen (fail_if (trim (service_command s) = []) (MissingCommand (service_name s)))
     (andThen (validate_resources (service_name s) (service_resources s))
       (validate_secrets m (service_secrets s))))"

definition validate_job_body :: "project_manifest \<Rightarrow> job \<Rightarrow> manifest_error + unit" where
  "validate_job_body m j =
     andThen (fail_if (kind j = CronJob \<and> (schedule j = None \<or> timezone j = None))
                (InvalidCron (job_name j)))
     (andThen (fail_if ((schedule j \<noteq> None) \<noteq> (timezone j \<noteq> None)) (PartialSchedule (job_name j)))
     (andThen (fail_if (kind j = AgentJob \<and> agent_config j = None) (MissingAgentConfig (job_name j)))
     (andThen (fail_if (kind j \<in> {CommandJob, CronJob}
                \<and> (case command j of None \<Rightarrow> True | Some c \<Rightarrow> trim c = []))
                (MissingCommand (job_name j)))
     (andThen (case agent_config j of None \<Rightarrow> Inr () | Some path \<Rightarrow> validate_relative_path path)
     (andThen (fail_if (timeout_seconds j = 0) (InvalidTimeout (job_name j)))
     (andThen (validate_resources (job_name j) (job_resources j))
       (validate_secrets m (job_secrets j))))))))"

text \<open>
  The two loops share the set \<open>names\<close>: services first, then jobs.  Each item is checked for
  its name, then for freshness (the insertion), then for its body.
\<close>

fun validate_items ::
  "('a \<Rightarrow> string) \<Rightarrow> ('a \<Rightarrow> manifest_error + unit) \<Rightarrow> string set \<Rightarrow> 'a list
     \<Rightarrow> manifest_error + string set" where
  "validate_items name body names [] = Inr names"
| "validate_items name body names (x # xs) =
     andThen (validate_name (name x))
     (andThen (fail_if (name x \<in> names) (DuplicateName (name x)))
     (andThen (body x) (validate_items name body (insert (name x) names) xs)))"

definition validate_build :: "build \<Rightarrow> manifest_error + unit" where
  "validate_build b =
     (if strategy b = Dockerfile
      then rbind (ok_or MissingDockerfile
                   (case dockerfile b of None \<Rightarrow> None
                    | Some path \<Rightarrow> if trim path \<noteq> [] then Some path else None))
             validate_relative_path
      else Inr ())"

definition validate :: "project_manifest \<Rightarrow> manifest_error + unit" where
  "validate m =
     andThen (fail_if (version m \<noteq> 1) (UnsupportedVersion (version m)))
     (andThen (validate_build (manifest_build m))
     (andThen (try_all validate_secret_name (map fst (secrets m)))
     (rbind (validate_items service_name (validate_service_body m) {} (services m)) (\<lambda>names.
      rbind (validate_items job_name (validate_job_body m) names (jobs m)) (\<lambda>_. Inr ())))))"

definition parse_manifest ::
  "(string \<Rightarrow> string + project_manifest) \<Rightarrow> string \<Rightarrow> manifest_error + project_manifest" where
  "parse_manifest from_toml source =
     rbind (map_err InvalidToml (from_toml source)) (\<lambda>m. andThen (validate m) (Inr m))"

section \<open>The contract\<close>

definition safe_path :: "string \<Rightarrow> bool" where
  "safe_path p \<longleftrightarrow> trim p \<noteq> [] \<and> hd p \<noteq> CHR ''/'' \<and> ''..'' \<notin> set (split_on (CHR ''/'') p)"

definition runtime_name :: "string \<Rightarrow> bool" where
  "runtime_name n \<longleftrightarrow> n \<noteq> [] \<and> length n \<le> 63 \<and> list_all name_char n
     \<and> hd n \<noteq> CHR ''-'' \<and> last n \<noteq> CHR ''-''"

definition secret_name :: "string \<Rightarrow> bool" where
  "secret_name n \<longleftrightarrow> n \<noteq> [] \<and> \<not> ascii_digit (hd n)
     \<and> list_all (\<lambda>b. ascii_upper b \<or> ascii_digit b \<or> b = CHR ''_'') n"

definition resources_ok :: "resources \<Rightarrow> bool" where
  "resources_ok r \<longleftrightarrow> (\<exists>q > 0. cpu r = F32_Finite q) \<and> 0 < memory_mb r"

definition service_ok :: "project_manifest \<Rightarrow> service \<Rightarrow> bool" where
  "service_ok m s \<longleftrightarrow> runtime_name (service_name s) \<and> 0 < port s
     \<and> trim (service_command s) \<noteq> [] \<and> resources_ok (service_resources s)
     \<and> set (service_secrets s) \<subseteq> fst ` set (secrets m)"

definition job_ok :: "project_manifest \<Rightarrow> job \<Rightarrow> bool" where
  "job_ok m j \<longleftrightarrow> runtime_name (job_name j)
     \<and> (schedule j = None \<longleftrightarrow> timezone j = None)
     \<and> (case kind j of
          CommandJob \<Rightarrow> True
        | CronJob \<Rightarrow> schedule j \<noteq> None
        | AgentJob \<Rightarrow> agent_config j \<noteq> None)
     \<and> (kind j \<noteq> AgentJob \<longrightarrow> (\<exists>c. command j = Some c \<and> trim c \<noteq> []))
     \<and> (\<forall>p. agent_config j = Some p \<longrightarrow> safe_path p)
     \<and> 0 < timeout_seconds j \<and> resources_ok (job_resources j)
     \<and> set (job_secrets j) \<subseteq> fst ` set (secrets m)"

definition manifest_ok :: "project_manifest \<Rightarrow> bool" where
  "manifest_ok m \<longleftrightarrow> version m = 1
     \<and> (strategy (manifest_build m) = Dockerfile \<longrightarrow>
          (\<exists>p. dockerfile (manifest_build m) = Some p \<and> safe_path p))
     \<and> (\<forall>n \<in> fst ` set (secrets m). secret_name n)
     \<and> (\<forall>s \<in> set (services m). service_ok m s)
     \<and> (\<forall>j \<in> set (jobs m). job_ok m j)
     \<and> distinct (map service_name (services m) @ map job_name (jobs m))"

section \<open>Each check decides its part of the contract\<close>

lemma name_char_not_hyphen: "name_char c \<Longrightarrow> ascii_alnum c \<longleftrightarrow> c \<noteq> CHR ''-''"
  by (auto simp: name_char_def char_simps)

lemma first_is_iff: "first_is P s \<longleftrightarrow> s \<noteq> [] \<and> P (hd s)"
  by (cases s) (auto simp: first_is_def)

lemma last_is_iff: "last_is P s \<longleftrightarrow> s \<noteq> [] \<and> P (last s)"
  by (cases s rule: rev_cases) (auto simp: last_is_def)

lemma validate_name_iff [result_simps]: "validate_name n = Inr () \<longleftrightarrow> runtime_name n"
proof (cases "n \<noteq> [] \<and> list_all name_char n")
  case True
  then have "name_char (hd n)" "name_char (last n)" by (auto simp: list_all_iff)
  with True show ?thesis
    by (auto simp: validate_name_def runtime_name_def first_is_iff last_is_iff name_char_not_hyphen)
next
  case False
  then show ?thesis by (auto simp: validate_name_def runtime_name_def)
qed

lemma validate_secret_name_iff [result_simps]:
  "validate_secret_name n = Inr () \<longleftrightarrow> secret_name n"
proof (cases n)
  case Nil
  then show ?thesis by (simp add: validate_secret_name_def secret_name_def)
next
  case (Cons c cs)
  have "ascii_upper c \<or> c = CHR ''_'' \<Longrightarrow> \<not> ascii_digit c"
    by (auto simp: char_simps)
  with Cons show ?thesis by (auto simp: validate_secret_name_def secret_name_def)
qed

lemma validate_resources_iff [result_simps]:
  "validate_resources n r = Inr () \<longleftrightarrow> resources_ok r"
  by (cases "cpu r") (auto simp: validate_resources_def resources_ok_def word_gt_0)

lemma path_rest_parent: "ParentDir \<in> set (path_rest ps) \<longleftrightarrow> ''..'' \<in> set ps"
  by (induction ps) auto

lemma path_rest_root: "RootDir \<notin> set (path_rest ps)"
  by (induction ps) auto

lemma is_absolute_iff: "p \<noteq> [] \<Longrightarrow> is_absolute p \<longleftrightarrow> hd p = CHR ''/''"
  by (cases p) (auto simp: is_absolute_def)

lemma components_safe:
  assumes "\<not> is_absolute p"
  shows "list_all (\<lambda>c. case c of Normal _ \<Rightarrow> True | CurDir \<Rightarrow> True | _ \<Rightarrow> False) (components p)
     \<longleftrightarrow> ''..'' \<notin> set (split_on (CHR ''/'') p)"
proof -
  have ok: "(case c of Normal _ \<Rightarrow> True | CurDir \<Rightarrow> True | _ \<Rightarrow> False) \<longleftrightarrow> c \<noteq> ParentDir \<and> c \<noteq> RootDir"
    for c by (cases c) auto
  obtain q qs where q: "split_on (CHR ''/'') p = q # qs"
    by (cases "split_on (CHR ''/'') p") auto
  have "ParentDir \<in> set (components p) \<longleftrightarrow> ''..'' \<in> set (q # qs)"
    using assms by (auto simp: components_def q path_rest_parent)
  moreover have "RootDir \<notin> set (components p)"
    using assms by (auto simp: components_def q path_rest_root)
  ultimately show ?thesis unfolding ok list_all_iff q by blast
qed

lemma trim_Nil [simp]: "trim [] = []"
  by (simp add: trim_def)

lemma validate_relative_path_iff [result_simps]:
  "validate_relative_path p = Inr () \<longleftrightarrow> safe_path p"
proof (cases "is_absolute p")
  case True
  then have "p \<noteq> [] \<and> hd p = CHR ''/''" by (auto simp: is_absolute_def prefix_def)
  with True show ?thesis by (simp add: validate_relative_path_def safe_path_def)
next
  case False
  then have "hd p \<noteq> CHR ''/''" if "trim p \<noteq> []"
    using that is_absolute_iff [of p] by (cases "p = []") simp_all
  then show ?thesis
    unfolding validate_relative_path_def safe_path_def components_safe [OF False]
    using False by (simp cong: conj_cong)
qed

lemma validate_secrets_iff [result_simps]:
  "validate_secrets m refs = Inr () \<longleftrightarrow> set refs \<subseteq> fst ` set (secrets m)"
  by (auto simp: validate_secrets_def contains_key_def result_simps)

lemma validate_build_iff [result_simps]:
  "validate_build b = Inr () \<longleftrightarrow>
     (strategy b = Dockerfile \<longrightarrow> (\<exists>p. dockerfile b = Some p \<and> safe_path p))"
  by (auto simp: validate_build_def result_simps safe_path_def split: option.splits)

lemma service_body_iff:
  "runtime_name (service_name s) \<and> validate_service_body m s = Inr () \<longleftrightarrow> service_ok m s"
  by (auto simp: validate_service_body_def service_ok_def result_simps word_gt_0)

lemma job_body_iff:
  "runtime_name (job_name j) \<and> validate_job_body m j = Inr () \<longleftrightarrow> job_ok m j"
  by (cases "kind j"; cases "command j"; cases "agent_config j"; cases "schedule j"; cases "timezone j")
     (auto simp: validate_job_body_def job_ok_def result_simps word_gt_0)

text \<open>The name loop: it succeeds exactly when all names are fresh and pairwise distinct.\<close>

lemma validate_items_iff:
  "validate_items name body names xs = Inr names' \<longleftrightarrow>
     (\<forall>x \<in> set xs. runtime_name (name x) \<and> body x = Inr ())
     \<and> distinct (map name xs) \<and> set (map name xs) \<inter> names = {} \<and> names' = names \<union> set (map name xs)"
  by (induction xs arbitrary: names) (auto simp: result_simps)

lemma validate_unfold:
  "validate m = Inr () \<longleftrightarrow> version m = 1 \<and> validate_build (manifest_build m) = Inr ()
     \<and> (\<forall>n \<in> fst ` set (secrets m). secret_name n)
     \<and> (\<forall>s \<in> set (services m). service_ok m s) \<and> (\<forall>j \<in> set (jobs m). job_ok m j)
     \<and> distinct (map service_name (services m) @ map job_name (jobs m))"
proof -
  have s: "(\<forall>s \<in> set (services m). runtime_name (service_name s) \<and> validate_service_body m s = Inr ())
      \<longleftrightarrow> (\<forall>s \<in> set (services m). service_ok m s)"
    by (simp only: service_body_iff)
  have j: "(\<forall>j \<in> set (jobs m). runtime_name (job_name j) \<and> validate_job_body m j = Inr ())
      \<longleftrightarrow> (\<forall>j \<in> set (jobs m). job_ok m j)"
    by (simp only: job_body_iff)
  have names: "(\<exists>ns. validate_items service_name (validate_service_body m) {} (services m) = Inr ns
        \<and> (\<exists>ns'. validate_items job_name (validate_job_body m) ns (jobs m) = Inr ns'))
      \<longleftrightarrow> (\<forall>s \<in> set (services m). service_ok m s) \<and> (\<forall>j \<in> set (jobs m). job_ok m j)
        \<and> distinct (map service_name (services m) @ map job_name (jobs m))"
    unfolding validate_items_iff s j by (auto simp: distinct_append)
  have keys: "try_all validate_secret_name (map fst (secrets m)) = Inr ()
      \<longleftrightarrow> (\<forall>n \<in> fst ` set (secrets m). secret_name n)"
    by (simp add: result_simps)
  show ?thesis
    unfolding validate_def names [symmetric] keys [symmetric]
    by (simp add: rbind_Inr_iff fail_if_Inr_iff)
qed

text \<open>
  C36: the validator of \<^verbatim>\<open>c6.toml\<close> decides the manifest contract: version 1; a Dockerfile
  build has a safe relative path; secret names are environment names; every service and job is
  well formed, its schedule, command, agent configuration and resources included; no runtime name
  is declared twice across services and jobs; and every secret reference is declared.
\<close>

theorem validate_decides_contract: "validate m = Inr () \<longleftrightarrow> manifest_ok m"
  by (simp add: validate_unfold manifest_ok_def validate_build_iff)

text \<open>
  Whatever the TOML deserialiser does, \<open>parse\<close> accepts exactly the sources that deserialise
  to a manifest satisfying the contract, and returns that manifest unchanged.
\<close>

theorem parse_manifest_accepts_iff:
  "parse_manifest from_toml source = Inr m \<longleftrightarrow> from_toml source = Inr m \<and> manifest_ok m"
  by (auto simp: parse_manifest_def result_simps validate_unfold manifest_ok_def)

end
