(* ===== verification/Identifiers.thy ===== *)
theory Identifiers
  imports Machines
begin

text \<open>
  \<^verbatim>\<open>crates/c6-cloud-core/src/identifiers.rs\<close>: the validated identifiers of the cloud directory.
  The macro \<open>slug_identifier!\<close> makes one newtype per instance; each is a one-constructor
  \<open>datatype\<close> with its \<open>new\<close>.  The abstract specification is the grammar \<open>slug_words\<close>: words of
  lowercase letters and digits joined by single hyphens.
\<close>

datatype identifier_error =
    Length string nat nat
  | Boundary string
  | Characters string
  | Reserved string
  | UnsafeLabel

definition slug_alnum :: "char \<Rightarrow> bool" where
  "slug_alnum c \<longleftrightarrow> ascii_lower c \<or> ascii_digit c"

text \<open>
  \<open>bytes[0]\<close> and \<open>bytes[len - 1]\<close> are read after the length check; every instance has a minimum
  of at least one byte, so the slice is not empty there.
\<close>

definition validate_slug ::
  "string \<Rightarrow> string \<Rightarrow> nat \<Rightarrow> nat \<Rightarrow> string list \<Rightarrow> identifier_error + unit" where
  "validate_slug value knd lo hi reserved =
     (if \<not> (lo \<le> length value \<and> length value \<le> hi) then Inl (Length knd lo hi)
      else if \<not> slug_alnum (hd value) \<or> \<not> slug_alnum (last value) then Inl (Boundary knd)
      else if list_ex (\<lambda>b. \<not> slug_alnum b \<and> b \<noteq> CHR ''-'') value \<or> contains_str ''--'' value
        then Inl (Characters knd)
      else if value \<in> set reserved then Inl (Reserved knd)
      else Inr ())"

definition reserved_names :: "string list" where
  "reserved_names = [''api'', ''assets'', ''bootstrap'', ''connector'', ''directory'',
     ''installations'', ''login'', ''logout'', ''relay'', ''session'', ''settings'',
     ''status'', ''workspaces'']"

datatype account_handle = AccountHandle (handle_str: string)
datatype workspace_namespace = WorkspaceNamespace (namespace_str: string)
datatype project_slug = ProjectSlug (slug_str: string)
datatype installation_label = InstallationLabel (label_str: string)

definition account_handle_new :: "string \<Rightarrow> identifier_error + account_handle" where
  "account_handle_new v =
     andThen (validate_slug v ''account handle'' 3 39 reserved_names) (Inr (AccountHandle v))"

definition workspace_namespace_new :: "string \<Rightarrow> identifier_error + workspace_namespace" where
  "workspace_namespace_new v =
     andThen (validate_slug v ''workspace namespace'' 3 63 reserved_names) (Inr (WorkspaceNamespace v))"

definition project_slug_new :: "string \<Rightarrow> identifier_error + project_slug" where
  "project_slug_new v = andThen (validate_slug v ''project slug'' 1 100 []) (Inr (ProjectSlug v))"

definition installation_label_new :: "string \<Rightarrow> identifier_error + installation_label" where
  "installation_label_new v =
     (if v = [] \<or> 80 < length v then Inl (Length ''installation label'' 1 80)
      else if trim v \<noteq> v \<or> has_control v then Inl UnsafeLabel
      else Inr (InstallationLabel v))"

section \<open>The slug grammar\<close>

definition slug_words :: "string \<Rightarrow> bool" where
  "slug_words v \<longleftrightarrow> (\<exists>ws. ws \<noteq> [] \<and> (\<forall>w \<in> set ws. w \<noteq> [] \<and> list_all slug_alnum w)
     \<and> v = join_with (CHR ''-'') ws)"

lemma hyphen_not_alnum [simp]: "\<not> slug_alnum (CHR ''-'')"
  by (simp add: slug_alnum_def char_simps)

lemma hd_split_on_Nil: "hd (split_on c v) = [] \<longleftrightarrow> v = [] \<or> hd v = c"
  by (cases v) (auto split: list.splits)

lemma prefix_single: "prefix [c] xs \<longleftrightarrow> xs \<noteq> [] \<and> hd xs = c"
  by (cases xs) auto

lemma empty_piece_tl:
  "[] \<in> set (tl (split_on c v)) \<longleftrightarrow> (v \<noteq> [] \<and> last v = c) \<or> contains_str [c, c] v"
proof (induction v)
  case Nil
  then show ?case by simp
next
  case (Cons x xs)
  obtain p ps where ps: "split_on c xs = p # ps" by (cases "split_on c xs") auto
  show ?case
  proof (cases "x = c")
    case True
    have "[] \<in> set (split_on c xs) \<longleftrightarrow> (xs = [] \<or> hd xs = c) \<or> [] \<in> set (tl (split_on c xs))"
      using hd_split_on_Nil [of c xs] by (auto simp: ps)
    with True Cons.IH show ?thesis by (auto simp: prefix_single)
  next
    case False
    with Cons.IH show ?thesis by (auto simp: ps prefix_single)
  qed
qed

lemma empty_piece:
  "[] \<in> set (split_on c v) \<longleftrightarrow> v = [] \<or> hd v = c \<or> last v = c \<or> contains_str [c, c] v"
proof -
  have "[] \<in> set (split_on c v) \<longleftrightarrow> hd (split_on c v) = [] \<or> [] \<in> set (tl (split_on c v))"
    by (cases "split_on c v") auto
  then show ?thesis using hd_split_on_Nil [of c v] empty_piece_tl [of c v] by auto
qed

lemma set_split_on: "\<Union> (set ` set (split_on c v)) = set v - {c}"
proof (induction v)
  case Nil
  then show ?case by simp
next
  case (Cons x xs)
  obtain p ps where "split_on c xs = p # ps" by (cases "split_on c xs") auto
  with Cons show ?case by auto
qed

lemma slug_words_split:
  "slug_words v \<longleftrightarrow> (\<forall>w \<in> set (split_on (CHR ''-'') v). w \<noteq> [] \<and> list_all slug_alnum w)"
proof
  assume "slug_words v"
  then obtain ws where ws: "ws \<noteq> []" "\<forall>w \<in> set ws. w \<noteq> [] \<and> list_all slug_alnum w"
    "v = join_with (CHR ''-'') ws" by (auto simp: slug_words_def)
  then have "\<forall>w \<in> set ws. CHR ''-'' \<notin> set w" by (metis hyphen_not_alnum list_all_iff)
  then have "split_on (CHR ''-'') v = ws" using ws by (simp add: split_join)
  with ws show "\<forall>w \<in> set (split_on (CHR ''-'') v). w \<noteq> [] \<and> list_all slug_alnum w" by simp
next
  assume "\<forall>w \<in> set (split_on (CHR ''-'') v). w \<noteq> [] \<and> list_all slug_alnum w"
  then show "slug_words v"
    unfolding slug_words_def
    by (intro exI [of _ "split_on (CHR ''-'') v"]) (simp add: join_split)
qed

lemma slug_chars:
  "(\<forall>w \<in> set (split_on (CHR ''-'') v). list_all slug_alnum w)
     \<longleftrightarrow> (\<forall>b \<in> set v. slug_alnum b \<or> b = CHR ''-'')"
proof -
  have "(\<forall>w \<in> set (split_on (CHR ''-'') v). list_all slug_alnum w)
      \<longleftrightarrow> (\<forall>b \<in> \<Union> (set ` set (split_on (CHR ''-'') v)). slug_alnum b)"
    by (auto simp: list_all_iff)
  also have "\<dots> \<longleftrightarrow> (\<forall>b \<in> set v. slug_alnum b \<or> b = CHR ''-'')"
    by (auto simp: set_split_on)
  finally show ?thesis .
qed

lemma slug_words_iff:
  "slug_words v \<longleftrightarrow> v \<noteq> [] \<and> slug_alnum (hd v) \<and> slug_alnum (last v)
     \<and> (\<forall>b \<in> set v. slug_alnum b \<or> b = CHR ''-'') \<and> \<not> contains_str ''--'' v"
proof -
  have "slug_words v \<longleftrightarrow> [] \<notin> set (split_on (CHR ''-'') v)
      \<and> (\<forall>b \<in> set v. slug_alnum b \<or> b = CHR ''-'')"
    unfolding slug_words_split slug_chars [symmetric] by auto
  also have "\<dots> \<longleftrightarrow> (v \<noteq> [] \<and> hd v \<noteq> CHR ''-'' \<and> last v \<noteq> CHR ''-'' \<and> \<not> contains_str ''--'' v)
      \<and> (\<forall>b \<in> set v. slug_alnum b \<or> b = CHR ''-'')"
    by (simp add: empty_piece)
  also have "\<dots> \<longleftrightarrow> v \<noteq> [] \<and> slug_alnum (hd v) \<and> slug_alnum (last v)
     \<and> (\<forall>b \<in> set v. slug_alnum b \<or> b = CHR ''-'') \<and> \<not> contains_str ''--'' v"
    using hyphen_not_alnum by (metis hd_in_set last_in_set)
  finally show ?thesis .
qed

lemma validate_slug_iff:
  "0 < lo \<Longrightarrow> validate_slug v knd lo hi reserved = Inr () \<longleftrightarrow>
     lo \<le> length v \<and> length v \<le> hi \<and> slug_words v \<and> v \<notin> set reserved"
  by (auto simp: validate_slug_def slug_words_iff list_ex_iff)

lemma new_iffs [result_simps]:
  "account_handle_new v = Inr h \<longleftrightarrow> h = AccountHandle v \<and> 3 \<le> length v \<and> length v \<le> 39
     \<and> slug_words v \<and> v \<notin> set reserved_names"
  "workspace_namespace_new v = Inr n \<longleftrightarrow> n = WorkspaceNamespace v \<and> 3 \<le> length v \<and> length v \<le> 63
     \<and> slug_words v \<and> v \<notin> set reserved_names"
  "project_slug_new v = Inr p \<longleftrightarrow> p = ProjectSlug v \<and> 1 \<le> length v \<and> length v \<le> 100 \<and> slug_words v"
  unfolding account_handle_new_def workspace_namespace_new_def project_slug_new_def
  by (auto simp: rbind_Inr_iff validate_slug_iff)

text \<open>
  The three slug types accept exactly the words of lowercase letters and digits joined by single
  hyphens, within their length bounds and outside the reserved route names, and keep the text as it
  is; so every account handle is also a valid namespace and project slug.
\<close>

theorem slug_types_accept_grammar:
  "((\<exists>h. account_handle_new v = Inr h) \<longleftrightarrow>
      slug_words v \<and> 3 \<le> length v \<and> length v \<le> 39 \<and> v \<notin> set reserved_names)
   \<and> ((\<exists>n. workspace_namespace_new v = Inr n) \<longleftrightarrow>
      slug_words v \<and> 3 \<le> length v \<and> length v \<le> 63 \<and> v \<notin> set reserved_names)
   \<and> ((\<exists>p. project_slug_new v = Inr p) \<longleftrightarrow> slug_words v \<and> 1 \<le> length v \<and> length v \<le> 100)
   \<and> (is_ok (account_handle_new v) \<longrightarrow>
        workspace_namespace_new v = Inr (WorkspaceNamespace v)
        \<and> project_slug_new v = Inr (ProjectSlug v)
        \<and> account_handle_new v = Inr (AccountHandle v))"
  by (auto simp: is_ok_iff result_simps)

text \<open>A witness: a handle of two words.\<close>

lemma slug_example: "slug_words ''neal-6''"
  by (simp add: slug_words_iff slug_alnum_def char_simps)

theorem slug_types_accept_grammar_witness:
  "workspace_namespace_new ''neal-6'' = Inr (WorkspaceNamespace ''neal-6'')"
proof -
  have "is_ok (account_handle_new ''neal-6'')"
    by (simp add: is_ok_iff result_simps slug_example reserved_names_def)
  then show ?thesis using slug_types_accept_grammar [of "''neal-6''"] by blast
qed

end
