(* ===== verification/Scheduler.thy ===== *)
theory Scheduler
  imports Machines
begin

text \<open>
  \<^verbatim>\<open>crates/c6-scheduler/src/lib.rs\<close>: schedule validation, the decision of one tick, and the
  protocol in which the control plane commits each tick.  Instants are integers (nanoseconds of
  \<open>DateTime<Utc>\<close>).  The time-zone and cron parsers and the calendar search of the \<open>chrono-tz\<close> and
  \<open>cron\<close> packages are the fields of the parameter \<open>calendar\<close>.
\<close>

type_synonym instant = int

section \<open>Schedules\<close>

datatype missed_run_policy = Skip | RunOnce

record schedule_definition =
  schedule_id :: string
  cron :: string
  timezone :: string
  missed_policy :: missed_run_policy

datatype schedule_error =
    EmptyId
  | InvalidFieldCount nat
  | InvalidCron string
  | InvalidTimezone string
  | NoFutureOccurrence
  | ClockMovedBackwards instant instant

record ('tz, 'cron) calendar =
  tz_from_str :: "string \<Rightarrow> 'tz option"
  cron_from_str :: "string \<Rightarrow> string + 'cron"
  first_after :: "'cron \<Rightarrow> 'tz \<Rightarrow> instant \<Rightarrow> instant option"

record ('tz, 'cron) validated_schedule =
  sched_definition :: schedule_definition
  sched_timezone :: 'tz
  sched_parsed :: 'cron

definition expand_cron :: "string list \<Rightarrow> string" where
  "expand_cron parts = ''0 '' @ join_with (CHR '' '') parts @ '' *''"

definition validated_schedule_new ::
  "('tz, 'cron) calendar \<Rightarrow> schedule_definition \<Rightarrow> schedule_error + ('tz, 'cron) validated_schedule" where
  "validated_schedule_new cal d =
     (if trim (schedule_id d) = [] then Inl EmptyId
      else let parts = split_whitespace (cron d) in
        if length parts \<noteq> 5 then Inl (InvalidFieldCount (length parts))
        else case tz_from_str cal (timezone d) of
            None \<Rightarrow> Inl (InvalidTimezone (timezone d))
          | Some tz \<Rightarrow>
              (case cron_from_str cal (expand_cron parts) of
                 Inl err \<Rightarrow> Inl (InvalidCron err)
               | Inr parsed \<Rightarrow>
                   Inr \<lparr>sched_definition = d, sched_timezone = tz, sched_parsed = parsed\<rparr>))"

definition next_after ::
  "('tz, 'cron) calendar \<Rightarrow> ('tz, 'cron) validated_schedule \<Rightarrow> instant \<Rightarrow> schedule_error + instant" where
  "next_after cal vs t = ok_or NoFutureOccurrence (first_after cal (sched_parsed vs) (sched_timezone vs) t)"

section \<open>One tick\<close>

record occurrence_key =
  occ_schedule :: string
  occurrence_at :: instant

datatype tick_mode = Live | Recovery

record tick_state =
  tick_from :: instant
  tick_mode_of :: tick_mode
  active_occurrence :: "occurrence_key option"
  claimed_occurrences :: "occurrence_key list"

datatype tick_decision =
    NoOccurrenceDue
  | Enqueue occurrence_key
  | MissedOccurrenceSkipped occurrence_key
  | AlreadyClaimed occurrence_key
  | BlockedByActiveRun occurrence_key occurrence_key

record tick_outcome =
  evaluated_through :: instant
  decision :: tick_decision

definition decide :: "schedule_definition \<Rightarrow> tick_state \<Rightarrow> occurrence_key \<Rightarrow> tick_decision" where
  "decide d st due =
     (if tick_mode_of st = Recovery \<and> missed_policy d = Skip then MissedOccurrenceSkipped due
      else if due \<in> set (claimed_occurrences st) then AlreadyClaimed due
      else case active_occurrence st of
          Some active \<Rightarrow> BlockedByActiveRun due active
        | None \<Rightarrow> Enqueue due)"

definition evaluate ::
  "('tz, 'cron) calendar \<Rightarrow> ('tz, 'cron) validated_schedule \<Rightarrow> tick_state \<Rightarrow> instant
     \<Rightarrow> schedule_error + tick_outcome" where
  "evaluate cal vs st now =
     (if now < tick_from st then Inl (ClockMovedBackwards (tick_from st) now)
      else rbind
        (case next_after cal vs (tick_from st) of
           Inr t \<Rightarrow> Inr (Some t)
         | Inl NoFutureOccurrence \<Rightarrow> Inr None
         | Inl other \<Rightarrow> Inl other)
        (\<lambda>found. case found of
            None \<Rightarrow> Inr \<lparr>evaluated_through = now, decision = NoOccurrenceDue\<rparr>
          | Some t \<Rightarrow>
              if now < t then Inr \<lparr>evaluated_through = now, decision = NoOccurrenceDue\<rparr>
              else let due = \<lparr>occ_schedule = schedule_id (sched_definition vs), occurrence_at = t\<rparr>
                in Inr \<lparr>evaluated_through = now, decision = decide (sched_definition vs) st due\<rparr>))"

text \<open>\<open>Scheduler::tick\<close> reads the injected clock, the parameter \<open>clock_now\<close>.\<close>

definition tick ::
  "instant \<Rightarrow> ('tz, 'cron) calendar \<Rightarrow> ('tz, 'cron) validated_schedule \<Rightarrow> tick_state
     \<Rightarrow> schedule_error + tick_outcome" where
  "tick clock_now cal vs st = evaluate cal vs st clock_now"

section \<open>Facts about a tick\<close>

definition due_at :: "('tz, 'cron) calendar \<Rightarrow> ('tz, 'cron) validated_schedule \<Rightarrow> instant \<Rightarrow> instant option" where
  "due_at cal vs t = first_after cal (sched_parsed vs) (sched_timezone vs) t"

lemma evaluate_cases:
  "evaluate cal vs st now =
     (if now < tick_from st then Inl (ClockMovedBackwards (tick_from st) now)
      else Inr \<lparr>evaluated_through = now, decision =
        (case due_at cal vs (tick_from st) of
           Some t \<Rightarrow> if t \<le> now
             then decide (sched_definition vs) st
               \<lparr>occ_schedule = schedule_id (sched_definition vs), occurrence_at = t\<rparr>
             else NoOccurrenceDue
         | None \<Rightarrow> NoOccurrenceDue)\<rparr>)"
  by (auto simp: evaluate_def next_after_def due_at_def Let_def split: option.splits)

lemma decide_Enqueue:
  "decide d st due = Enqueue k \<longleftrightarrow>
     k = due \<and> \<not> (tick_mode_of st = Recovery \<and> missed_policy d = Skip)
     \<and> due \<notin> set (claimed_occurrences st) \<and> active_occurrence st = None"
  by (auto simp: decide_def split: option.splits)

lemma evaluate_Inr_iff:
  "evaluate cal vs st now = Inr out \<longleftrightarrow>
     tick_from st \<le> now \<and> evaluated_through out = now \<and> decision out =
        (case due_at cal vs (tick_from st) of
           Some t \<Rightarrow> if t \<le> now
             then decide (sched_definition vs) st
               \<lparr>occ_schedule = schedule_id (sched_definition vs), occurrence_at = t\<rparr>
             else NoOccurrenceDue
         | None \<Rightarrow> NoOccurrenceDue)"
  by (cases out) (auto simp: evaluate_cases)

lemma evaluate_Enqueue_iff:
  "evaluate cal vs st now = Inr \<lparr>evaluated_through = c, decision = Enqueue k\<rparr> \<longleftrightarrow>
     c = now \<and> tick_from st \<le> now \<and> occurrence_at k \<le> now
     \<and> due_at cal vs (tick_from st) = Some (occurrence_at k)
     \<and> occ_schedule k = schedule_id (sched_definition vs)
     \<and> \<not> (tick_mode_of st = Recovery \<and> missed_policy (sched_definition vs) = Skip)
     \<and> k \<notin> set (claimed_occurrences st) \<and> active_occurrence st = None"
  by (cases k) (auto simp: evaluate_Inr_iff decide_Enqueue eq_commute [of "Enqueue _"] split: option.splits if_splits)

text \<open>
  A tick enqueues an occurrence exactly when the clock did not move backwards, the
  occurrence is the first one after the checkpoint and is already due, it has not been claimed, no
  run of the schedule is active, and it is not a missed occurrence the policy skips; the checkpoint
  then moves to the time of the tick.
\<close>

theorem tick_enqueues_exactly:
  "tick now cal vs st = Inr \<lparr>evaluated_through = c, decision = Enqueue k\<rparr> \<longleftrightarrow>
     c = now \<and> tick_from st \<le> now \<and> occurrence_at k \<le> now
     \<and> first_after cal (sched_parsed vs) (sched_timezone vs) (tick_from st) = Some (occurrence_at k)
     \<and> occ_schedule k = schedule_id (sched_definition vs)
     \<and> \<not> (tick_mode_of st = Recovery \<and> missed_policy (sched_definition vs) = Skip)
     \<and> k \<notin> set (claimed_occurrences st) \<and> active_occurrence st = None"
  by (simp add: tick_def evaluate_Enqueue_iff due_at_def)

section \<open>The cron expression handed to the parser\<close>

definition utf8_ok :: "string \<Rightarrow> bool" where
  "utf8_ok s \<longleftrightarrow> (\<forall>ch \<in> set (utf8_chars s). list_all utf8_cont (tl ch) \<and> (1 < length ch \<longrightarrow> 192 \<le> ord (hd ch)))"

lemma words_by_char: "w \<in> set (words_by p xs) \<Longrightarrow> x \<in> set w \<Longrightarrow> \<not> p x \<and> x \<in> set xs"
proof (induction p xs arbitrary: w rule: words_by.induct)
  case (1 p)
  then show ?case by simp
next
  case (2 p y ys)
  then show ?case by (auto split: if_splits dest: set_takeWhileD set_dropWhileD)
qed

lemma words_by_nonempty: "[] \<notin> set (words_by p xs)"
  by (induction p xs rule: words_by.induct) auto

lemma split_whitespace_no_space:
  assumes "utf8_ok s" and "w \<in> set (split_whitespace s)"
  shows "CHR '' '' \<notin> set w"
proof
  assume "CHR '' '' \<in> set w"
  then obtain chs ch where "chs \<in> set (words_by char_whitespace (utf8_chars s))"
    and "ch \<in> set chs" and sp: "CHR '' '' \<in> set ch"
    using assms(2) by (auto simp: split_whitespace_def)
  then have nw: "\<not> char_whitespace ch" and ch: "ch \<in> set (utf8_chars s)"
    by (auto dest: words_by_char)
  obtain c cs where eq: "ch = c # cs"
    using utf8_chars_nonempty [of s] ch by (cases ch) auto
  have cont: "list_all utf8_cont cs" and multi: "cs \<noteq> [] \<Longrightarrow> 192 \<le> ord c"
    using assms(1) ch eq by (auto simp: utf8_ok_def)
  have "CHR '' '' \<notin> set cs" using cont by (auto simp: list_all_iff utf8_cont_def)
  with sp eq have c: "c = CHR '' ''" by auto
  with multi have "cs = []" by auto
  with nw eq c show False by (simp add: char_whitespace_def)
qed

text \<open>
  A validated schedule hands the cron parser exactly seven space-separated fields: the
  seconds pinned to \<open>0\<close>, the five fields of the definition in their order, and any year.
\<close>

theorem validated_schedule_expansion:
  assumes "validated_schedule_new cal d = Inr vs" and "utf8_ok (cron d)"
  shows "let parts = split_whitespace (cron d) in
    length parts = 5 \<and> cron_from_str cal (expand_cron parts) = Inr (sched_parsed vs)
    \<and> split_on (CHR '' '') (expand_cron parts) = [''0''] @ parts @ [''*'']
    \<and> tz_from_str cal (timezone d) = Some (sched_timezone vs) \<and> sched_definition vs = d"
proof -
  let ?parts = "split_whitespace (cron d)"
  have len: "length ?parts = 5" and rest: "cron_from_str cal (expand_cron ?parts) = Inr (sched_parsed vs)"
    "tz_from_str cal (timezone d) = Some (sched_timezone vs)" "sched_definition vs = d"
    using assms(1) by (auto simp: validated_schedule_new_def Let_def split: if_splits option.splits sum.splits)
  obtain a b c e f where parts: "?parts = [a, b, c, e, f]"
    using len by (auto simp: length_Suc_conv numeral_eq_Suc)
  have sep: "\<forall>p \<in> set ([''0''] @ ?parts @ [''*'']). CHR '' '' \<notin> set p"
    using split_whitespace_no_space [OF assms(2)] by auto
  have "expand_cron ?parts = join_with (CHR '' '') ([''0''] @ ?parts @ [''*''])"
    unfolding parts expand_cron_def by simp
  then have "split_on (CHR '' '') (expand_cron ?parts) = [''0''] @ ?parts @ [''*'']"
    using split_join [OF _ sep] by simp
  with len rest show ?thesis by (simp add: Let_def)
qed

section \<open>Ticks committed by the control plane\<close>

text \<open>
  The crate's contract with its caller: the durable checkpoint is read before a tick, and the
  returned checkpoint is persisted atomically with the enqueued occurrence.  A tick is the event;
  which mode it runs in, what the clock says and whether a run is active is the environment's.
\<close>

record plane =
  checkpoint :: instant
  enqueued :: "occurrence_key list"

record tick_event =
  ev_now :: instant
  ev_mode :: tick_mode
  ev_active :: "occurrence_key option"

definition plane_tick ::
  "('tz, 'cron) calendar \<Rightarrow> ('tz, 'cron) validated_schedule \<Rightarrow> plane \<Rightarrow> tick_event
     \<Rightarrow> (schedule_error + tick_outcome) \<times> plane" where
  "plane_tick cal vs p ev =
     (let r = tick (ev_now ev) cal vs
        \<lparr>tick_from = checkpoint p, tick_mode_of = ev_mode ev, active_occurrence = ev_active ev,
         claimed_occurrences = enqueued p\<rparr>
      in (r, case r of
          Inl _ \<Rightarrow> p
        | Inr out \<Rightarrow> \<lparr>checkpoint = evaluated_through out,
            enqueued = enqueued p @ (case decision out of Enqueue k \<Rightarrow> [k] | _ \<Rightarrow> [])\<rparr>))"

definition plane_init :: "instant \<Rightarrow> plane" where
  "plane_init t = \<lparr>checkpoint = t, enqueued = []\<rparr>"

text \<open>The calendar search answers with a later instant (\<open>Schedule::after\<close> is exclusive).\<close>

definition strictly_after :: "('tz, 'cron) calendar \<Rightarrow> bool" where
  "strictly_after cal \<longleftrightarrow> (\<forall>c tz t u. first_after cal c tz t = Some u \<longrightarrow> t < u)"

fun increasing :: "instant list \<Rightarrow> bool" where
  "increasing [] = True"
| "increasing [t] = True"
| "increasing (t # u # ts) = (t < u \<and> increasing (u # ts))"

lemma increasing_snoc: "increasing (ts @ [u]) \<longleftrightarrow> increasing ts \<and> (ts \<noteq> [] \<longrightarrow> last ts < u)"
  by (induction ts rule: increasing.induct) auto

lemma increasing_distinct: "increasing ts \<Longrightarrow> distinct ts"
proof -
  have "increasing (t # ts) \<Longrightarrow> (\<forall>u \<in> set ts. t < u) \<and> distinct (t # ts)" for t ts
    by (induction ts arbitrary: t) fastforce+
  then show "increasing ts \<Longrightarrow> distinct ts" by (cases ts) auto
qed

definition plane_ok :: "('tz, 'cron) calendar \<Rightarrow> plane \<Rightarrow> bool" where
  "plane_ok cal p \<longleftrightarrow> (\<forall>k \<in> set (enqueued p). occurrence_at k \<le> checkpoint p)
     \<and> (strictly_after cal \<longrightarrow> increasing (map occurrence_at (enqueued p)))"

definition plane_le :: "plane \<Rightarrow> plane \<Rightarrow> bool" where
  "plane_le p q \<longleftrightarrow> checkpoint p \<le> checkpoint q \<and> prefix (enqueued p) (enqueued q)"

abbreviation tick_view :: "plane \<Rightarrow> tick_event \<Rightarrow> tick_state" where
  "tick_view p ev \<equiv> \<lparr>tick_from = checkpoint p, tick_mode_of = ev_mode ev,
     active_occurrence = ev_active ev, claimed_occurrences = enqueued p\<rparr>"

lemma plane_tick_eqs:
  "evaluate cal vs (tick_view p ev) (ev_now ev) = Inl e \<Longrightarrow> plane_tick cal vs p ev = (Inl e, p)"
  "evaluate cal vs (tick_view p ev) (ev_now ev) = Inr out \<Longrightarrow> plane_tick cal vs p ev =
     (Inr out, \<lparr>checkpoint = evaluated_through out,
        enqueued = enqueued p @ (case decision out of Enqueue k \<Rightarrow> [k] | _ \<Rightarrow> [])\<rparr>)"
  by (simp_all add: plane_tick_def tick_def)

lemma plane_tick_cases:
  obtains (rejected) e where "plane_tick cal vs p ev = (Inl e, p)"
  | (quiet) out where "plane_tick cal vs p ev = (Inr out, p\<lparr>checkpoint := ev_now ev\<rparr>)"
      "checkpoint p \<le> ev_now ev"
  | (enqueue) out k where
      "plane_tick cal vs p ev = (Inr out, \<lparr>checkpoint = ev_now ev, enqueued = enqueued p @ [k]\<rparr>)"
      "checkpoint p \<le> ev_now ev" "occurrence_at k \<le> ev_now ev" "k \<notin> set (enqueued p)"
      "due_at cal vs (checkpoint p) = Some (occurrence_at k)"
proof (cases "evaluate cal vs (tick_view p ev) (ev_now ev)")
  case (Inl e)
  then show thesis by (intro rejected [of e] plane_tick_eqs)
next
  case (Inr out)
  then have now: "checkpoint p \<le> ev_now ev" "evaluated_through out = ev_now ev"
    by (auto simp: evaluate_Inr_iff)
  show thesis
  proof (cases "\<exists>k. decision out = Enqueue k")
    case True
    then obtain k where k: "decision out = Enqueue k" by blast
    then have out: "out = \<lparr>evaluated_through = ev_now ev, decision = Enqueue k\<rparr>"
      using now by (cases out) simp
    show thesis
      using Inr [unfolded out] plane_tick_eqs(2) [OF Inr] k now(2)
      by (intro enqueue [of out k]) (simp_all add: evaluate_Enqueue_iff)
  next
    case False
    with plane_tick_eqs(2) [OF Inr] now show thesis
      by (intro quiet [of out]) (auto split: tick_decision.splits)
  qed
qed

lemma plane_tick_ok: "plane_ok cal p \<Longrightarrow> plane_ok cal (snd (plane_tick cal vs p ev))"
proof (cases rule: plane_tick_cases [of cal vs p ev])
  case (enqueue out k)
  assume ok: "plane_ok cal p"
  have "increasing (map occurrence_at (enqueued p) @ [occurrence_at k])" if "strictly_after cal"
  proof -
    have "checkpoint p < occurrence_at k" using that enqueue(5) by (auto simp: strictly_after_def due_at_def)
    moreover have "last (map occurrence_at (enqueued p)) \<le> checkpoint p" if "enqueued p \<noteq> []"
      using that ok by (simp add: plane_ok_def last_map)
    ultimately show ?thesis
      using that ok unfolding increasing_snoc plane_ok_def by fastforce
  qed
  with enqueue ok show ?thesis by (auto simp: plane_ok_def)
qed (auto simp: plane_ok_def)

lemma plane_tick_le: "plane_le p (snd (plane_tick cal vs p ev))"
  by (cases rule: plane_tick_cases [of cal vs p ev]) (auto simp: plane_le_def)

interpretation ticks: growing_machine "plane_tick cal vs" "plane_init t" "plane_ok cal" plane_le
  for cal vs t
proof unfold_locales
  show "plane_ok cal (plane_init t)" by (simp add: plane_ok_def plane_init_def)
  show "plane_le p p" for p by (simp add: plane_le_def)
  show "plane_le p r" if "plane_le p q" "plane_le q r" for p q r
    using that by (auto simp: plane_le_def)
qed (auto intro: plane_tick_ok plane_tick_le)

text \<open>
  C11: however many ticks are committed, in whatever modes and with whatever clock readings, no
  occurrence is ever enqueued twice: the enqueued occurrences are strictly increasing in time and
  the last checkpoint covers them all.
\<close>

theorem tick_run_enqueues_once:
  assumes "strictly_after cal"
  shows "let p = run_steps (plane_tick cal vs) (plane_init t) evs in
     increasing (map occurrence_at (enqueued p)) \<and> distinct (enqueued p)
     \<and> list_all (\<lambda>k. occurrence_at k \<le> checkpoint p) (enqueued p)"
proof -
  have "plane_ok cal (run_steps (plane_tick cal vs) (plane_init t) evs)"
    by (rule ticks.inv_reachable)
  with assms show ?thesis
    by (auto simp: Let_def plane_ok_def list_all_iff distinct_map dest!: increasing_distinct)
qed

text \<open>
  The durable checkpoint never moves backwards and an enqueued occurrence is never
  withdrawn, under any continuation of the ticks.
\<close>

theorem tick_checkpoint_monotone:
  "plane_le (run_steps (plane_tick cal vs) (plane_init t) evs)
            (run_steps (plane_tick cal vs) (plane_init t) (evs @ later))"
  by (rule ticks.below_prefix) (rule ticks.inv_init)

section \<open>An hourly calendar\<close>

definition hourly :: "(unit, unit) calendar" where
  "hourly = \<lparr>tz_from_str = (\<lambda>s. if s = ''UTC'' then Some () else None),
     cron_from_str = (\<lambda>s. if s = ''0 0 * * * * *'' then Inr () else Inl ''unsupported''),
     first_after = (\<lambda>_ _ t. Some ((t div 3600 + 1) * 3600))\<rparr>"

definition nightly :: schedule_definition where
  "nightly = \<lparr>schedule_id = ''nightly'', cron = ''0  * * * *'', timezone = ''UTC'', missed_policy = RunOnce\<rparr>"

definition nightly_vs :: "(unit, unit) validated_schedule" where
  "nightly_vs = \<lparr>sched_definition = nightly, sched_timezone = (), sched_parsed = ()\<rparr>"

lemma hourly_after: "strictly_after hourly"
  by (auto simp: strictly_after_def hourly_def)

lemma nightly_chars: "utf8_chars (cron nightly) = map (\<lambda>c. [c]) (cron nightly)"
  by (rule utf8_chars_ascii) (simp add: nightly_def)

lemma nightly_fields: "split_whitespace (cron nightly) = [''0'', ''*'', ''*'', ''*'', ''*'']"
  unfolding split_whitespace_def nightly_chars by (simp add: nightly_def char_whitespace_def)

theorem validated_schedule_expansion_witness:
  "split_on (CHR '' '') (expand_cron (split_whitespace (cron nightly)))
     = [''0''] @ split_whitespace (cron nightly) @ [''*'']"
proof -
  have blank: "trim (schedule_id nightly) \<noteq> []"
    unfolding trim_blank_iff by (simp add: nightly_def utf8_len_def char_whitespace_def)
  have "validated_schedule_new hourly nightly = Inr nightly_vs"
    using blank by (simp add: validated_schedule_new_def nightly_fields)
      (simp add: nightly_def hourly_def expand_cron_def nightly_vs_def)
  moreover have "utf8_ok (cron nightly)"
    by (simp add: utf8_ok_def nightly_chars)
  ultimately show ?thesis
    using validated_schedule_expansion [of hourly nightly nightly_vs] by (simp add: Let_def)
qed

theorem tick_run_enqueues_once_witness:
  "let p = run_steps (plane_tick hourly nightly_vs) (plane_init 0)
      [\<lparr>ev_now = 4000, ev_mode = Live, ev_active = None\<rparr>,
       \<lparr>ev_now = 9000, ev_mode = Recovery, ev_active = None\<rparr>] in
   map occurrence_at (enqueued p) = [3600, 7200] \<and> distinct (enqueued p)"
proof -
  let ?evs = "[\<lparr>ev_now = 4000, ev_mode = Live, ev_active = None\<rparr>,
       \<lparr>ev_now = 9000, ev_mode = Recovery, ev_active = None\<rparr>]"
  have "map occurrence_at (enqueued (run_steps (plane_tick hourly nightly_vs) (plane_init 0) ?evs)) = [3600, 7200]"
    by (simp add: plane_init_def plane_tick_def tick_def evaluate_cases due_at_def hourly_def
        nightly_vs_def nightly_def decide_def)
  then show ?thesis
    using tick_run_enqueues_once [OF hourly_after, of nightly_vs 0 ?evs] by (simp add: Let_def)
qed

end
