(* ===== verification/Runner_Protocol.thy ===== *)
theory Runner_Protocol
  imports Machines
begin

text \<open>
  \<^verbatim>\<open>crates/c6-runner/src/lib.rs\<close>, the protocol of the runner: validation of an execution
  request, the signed envelope with its replay table, the newline-terminated frame reader, and the
  capture of logs into a run record.  HMAC-SHA256, base64, serde's JSON and the display of UUIDs
  are the fields of the parameter \<open>crypto\<close>.
\<close>

section \<open>Execution requests\<close>

record resource_policy =
  cpu_millis :: u32
  memory_bytes :: u64
  disk_bytes :: u64
  process_limit :: u32
  timeout_seconds :: u32
  log_bytes :: u64

record network_destination =
  dest_host :: string
  dest_port :: u16

datatype network_policy = DenyAll | AllowList "network_destination list"

datatype write_policy = WriteNone | WriteProposal

text \<open>\<open>exit_code\<close> is an \<open>i32\<close>: the signed reading of the word.\<close>

record simulation_plan =
  delay_ms :: u64
  sim_stdout :: string
  sim_stderr :: string
  sim_exit_code :: u32

record execution_request =
  run_id :: uuid
  workspace_id :: uuid
  project_id :: uuid
  revision_sha :: string
  manifest_digest :: string
  resources :: resource_policy
  network :: network_policy
  repository_write :: write_policy
  simulation :: simulation_plan

datatype validation_error =
    NilIdentifier | InvalidRevision | InvalidDigest | ResourceOutOfRange string
  | InvalidNetworkPolicy | InvalidDestination | BlockedDestination
  | SimulationInputTooLarge | InvalidExitCode

definition max_log_bytes :: nat where "max_log_bytes = 1024 * 1024"
definition max_timeout_seconds :: nat where "max_timeout_seconds = 3600"

definition validate_revision :: "string \<Rightarrow> validation_error + unit" where
  "validate_revision value =
     (if (length value = 40 \<or> length value = 64) \<and> list_all lower_hex value
      then Inr () else Inl InvalidRevision)"

definition validate_digest :: "string \<Rightarrow> validation_error + unit" where
  "validate_digest value =
     (case strip_prefix ''sha256:'' value of
        None \<Rightarrow> Inl InvalidDigest
      | Some hex \<Rightarrow> if length hex = 64 \<and> list_all lower_hex hex then Inr () else Inl InvalidDigest)"

definition in_range :: "nat \<Rightarrow> nat \<Rightarrow> 'w::len word \<Rightarrow> bool" where
  "in_range lo hi w \<longleftrightarrow> lo \<le> unat w \<and> unat w \<le> hi"

definition resources_validate :: "resource_policy \<Rightarrow> validation_error + unit" where
  "resources_validate r =
     (if \<not> in_range 10 4000 (cpu_millis r) then Inl (ResourceOutOfRange ''cpu_millis'')
      else if \<not> in_range (16 * 1024 * 1024) (4 * 1024 * 1024 * 1024) (memory_bytes r)
        then Inl (ResourceOutOfRange ''memory_bytes'')
      else if \<not> in_range (1024 * 1024) (20 * 1024 * 1024 * 1024) (disk_bytes r)
        then Inl (ResourceOutOfRange ''disk_bytes'')
      else if \<not> in_range 1 512 (process_limit r) then Inl (ResourceOutOfRange ''process_limit'')
      else if \<not> in_range 1 max_timeout_seconds (timeout_seconds r)
        then Inl (ResourceOutOfRange ''timeout_seconds'')
      else if \<not> in_range 1024 max_log_bytes (log_bytes r) then Inl (ResourceOutOfRange ''log_bytes'')
      else Inr ())"

text \<open>
  \<open>str::parse::<IpAddr>\<close> on a host that already passed the byte check: no colon, so only the
  dotted form of IPv4 is left, four decimal octets of at most three digits without leading zeros.
\<close>

definition decimal :: "string \<Rightarrow> nat" where
  "decimal s = foldl (\<lambda>n c. n * 10 + (ord c - 48)) 0 s"

definition ipv4_octet :: "string \<Rightarrow> nat option" where
  "ipv4_octet s =
     (if s \<noteq> [] \<and> length s \<le> 3 \<and> list_all ascii_digit s \<and> (length s = 1 \<or> hd s \<noteq> CHR ''0'')
         \<and> decimal s \<le> 255
      then Some (decimal s) else None)"

definition parse_ipv4 :: "string \<Rightarrow> (nat \<times> nat \<times> nat \<times> nat) option" where
  "parse_ipv4 s =
     (case map ipv4_octet (split_on (CHR ''.'') s) of
        [Some a, Some b, Some c, Some d] \<Rightarrow> Some (a, b, c, d)
      | _ \<Rightarrow> None)"

text \<open>\<open>is_private\<close>, \<open>is_loopback\<close>, \<open>is_link_local\<close>, \<open>is_unspecified\<close>, \<open>is_multicast\<close>.\<close>

fun ipv4_protected :: "nat \<times> nat \<times> nat \<times> nat \<Rightarrow> bool" where
  "ipv4_protected (a, b, c, d) \<longleftrightarrow>
     a = 10 \<or> (a = 172 \<and> 16 \<le> b \<and> b \<le> 31) \<or> (a = 192 \<and> b = 168)
     \<or> a = 127 \<or> (a = 169 \<and> b = 254) \<or> (a = 0 \<and> b = 0 \<and> c = 0 \<and> d = 0) \<or> (224 \<le> a \<and> a \<le> 239)"

definition blocked_hosts :: "string list" where
  "blocked_hosts = [''localhost'', ''localhost.localdomain'', ''metadata.google.internal'',
     ''169.254.169.254'', ''127.0.0.1'', ''::1'']"

definition host_char :: "char \<Rightarrow> bool" where
  "host_char b \<longleftrightarrow> ascii_lower b \<or> ascii_digit b \<or> b = CHR ''-'' \<or> b = CHR ''.''"

definition destination_validate :: "network_destination \<Rightarrow> validation_error + unit" where
  "destination_validate d =
     (let host = dest_host d in
      if dest_port d = 0 \<or> host = [] \<or> 253 < length host \<or> host \<noteq> map to_lower host
         \<or> prefix ''.'' host \<or> suffix ''.'' host \<or> contains_str ''..'' host \<or> CHR ''*'' \<in> set host
         \<or> \<not> list_all host_char host
      then Inl InvalidDestination
      else if host \<in> set blocked_hosts then Inl BlockedDestination
      else (case parse_ipv4 host of
          Some a \<Rightarrow> if ipv4_protected a then Inl BlockedDestination else Inr ()
        | None \<Rightarrow> Inr ()))"

definition network_validate :: "network_policy \<Rightarrow> validation_error + unit" where
  "network_validate p =
     (case p of
        DenyAll \<Rightarrow> Inr ()
      | AllowList ds \<Rightarrow>
          if ds = [] \<or> 32 < length ds then Inl InvalidNetworkPolicy else try_all destination_validate ds)"

definition sat_mul64 :: "nat \<Rightarrow> nat \<Rightarrow> nat" where
  "sat_mul64 a b = min (a * b) (2 ^ 64 - 1)"

definition simulation_validate :: "resource_policy \<Rightarrow> simulation_plan \<Rightarrow> validation_error + unit" where
  "simulation_validate r p =
     (if min (sat_mul64 (unat (log_bytes r)) 4) (max_log_bytes * 2)
          < sat_add64 (length (sim_stdout p)) (length (sim_stderr p))
      then Inl SimulationInputTooLarge
      else if \<not> (-255 \<le> sint (sim_exit_code p) \<and> sint (sim_exit_code p) \<le> 255) then Inl InvalidExitCode
      else Inr ())"

definition execution_validate :: "execution_request \<Rightarrow> validation_error + unit" where
  "execution_validate x =
     (if workspace_id x = 0 \<or> project_id x = 0 \<or> run_id x = 0 then Inl NilIdentifier
      else andThen (validate_revision (revision_sha x))
          (andThen (validate_digest (manifest_digest x))
          (andThen (resources_validate (resources x))
          (andThen (network_validate (network x))
            (simulation_validate (resources x) (simulation x))))))"

primrec validation_error_text :: "validation_error \<Rightarrow> string" where
  "validation_error_text NilIdentifier = ''run, workspace, and project identifiers must be non-nil''"
| "validation_error_text InvalidRevision = ''revision must be a full lowercase SHA-1 or SHA-256 object ID''"
| "validation_error_text InvalidDigest = ''digest must be pinned as sha256:<64 lowercase hex characters>''"
| "validation_error_text (ResourceOutOfRange name) = ''resource '' @ name @ '' is outside runner limits''"
| "validation_error_text InvalidNetworkPolicy =
     ''network allow list must contain between 1 and 32 destinations''"
| "validation_error_text InvalidDestination =
     ''network destination must be a lowercase hostname and nonzero port''"
| "validation_error_text BlockedDestination =
     ''network destination targets a protected local or metadata address''"
| "validation_error_text SimulationInputTooLarge =
     ''simulation log input exceeds the accepted request bound''"
| "validation_error_text InvalidExitCode = ''simulation exit code is outside the supported range''"

section \<open>What a valid execution is\<close>

definition hex_of_length :: "nat \<Rightarrow> string \<Rightarrow> bool" where
  "hex_of_length n s \<longleftrightarrow> length s = n \<and> list_all lower_hex s"

definition resources_ok :: "resource_policy \<Rightarrow> bool" where
  "resources_ok r \<longleftrightarrow> in_range 10 4000 (cpu_millis r)
     \<and> in_range (2 ^ 24) (2 ^ 32) (memory_bytes r) \<and> in_range (2 ^ 20) (20 * 2 ^ 30) (disk_bytes r)
     \<and> in_range 1 512 (process_limit r) \<and> in_range 1 3600 (timeout_seconds r)
     \<and> in_range (2 ^ 10) (2 ^ 20) (log_bytes r)"

definition destination_ok :: "network_destination \<Rightarrow> bool" where
  "destination_ok d \<longleftrightarrow> dest_port d \<noteq> 0 \<and> length (dest_host d) \<le> 253
     \<and> list_all (\<lambda>label. label \<noteq> []) (split_on (CHR ''.'') (dest_host d))
     \<and> list_all host_char (dest_host d) \<and> dest_host d \<notin> set blocked_hosts
     \<and> (case parse_ipv4 (dest_host d) of Some a \<Rightarrow> \<not> ipv4_protected a | None \<Rightarrow> True)"

definition network_ok :: "network_policy \<Rightarrow> bool" where
  "network_ok p = (case p of
      DenyAll \<Rightarrow> True
    | AllowList ds \<Rightarrow> 1 \<le> length ds \<and> length ds \<le> 32 \<and> list_all destination_ok ds)"

lemma resources_validate_iff [result_simps]: "resources_validate r = Inr () \<longleftrightarrow> resources_ok r"
  by (auto simp: resources_validate_def resources_ok_def max_timeout_seconds_def max_log_bytes_def)

lemma host_char_lower: "list_all host_char h \<Longrightarrow> map to_lower h = h"
  by (induction h) (auto simp: host_char_def to_lower_def char_simps)

lemma split_on_append: "split_on c (u @ c # v) = split_on c u @ split_on c v"
  by (induction u) (auto split: list.splits)

lemma split_on_hd_Nil: "hd (split_on c s) = [] \<Longrightarrow> s = [] \<or> (\<exists>v. s = c # v)"
  by (cases s) (auto split: if_splits list.splits)

lemma split_on_tl_Nil:
  "[] \<in> set (tl (split_on c s)) \<Longrightarrow> suffix [c] s \<or> contains_str [c, c] s"
proof (induction s)
  case Nil
  then show ?case by simp
next
  case (Cons x xs)
  obtain p ps where ps: "split_on c xs = p # ps" by (cases "split_on c xs") auto
  show ?case
  proof (cases "x = c")
    case True
    with Cons.prems ps have "p = [] \<or> [] \<in> set (tl (split_on c xs))" by auto
    then show ?thesis
    proof
      assume "p = []"
      with ps split_on_hd_Nil [of c xs] True show ?thesis by (auto simp: suffix_def)
    next
      assume "[] \<in> set (tl (split_on c xs))"
      with Cons.IH show ?thesis by (auto simp: suffix_Cons)
    qed
  next
    case False
    with Cons ps show ?thesis by (auto simp: suffix_Cons)
  qed
qed

text \<open>A name has no empty label exactly when it is not empty, has no dot at an end and no two dots in a row.\<close>

lemma split_on_Nil_iff:
  "[] \<in> set (split_on c s) \<longleftrightarrow> s = [] \<or> prefix [c] s \<or> suffix [c] s \<or> contains_str [c, c] s"
proof
  assume "[] \<in> set (split_on c s)"
  then have "hd (split_on c s) = [] \<or> [] \<in> set (tl (split_on c s))"
    by (cases "split_on c s") auto
  then show "s = [] \<or> prefix [c] s \<or> suffix [c] s \<or> contains_str [c, c] s"
    using split_on_hd_Nil [of c s] split_on_tl_Nil [of c s] by auto
next
  assume "s = [] \<or> prefix [c] s \<or> suffix [c] s \<or> contains_str [c, c] s"
  then consider "s = []" | v where "s = [] @ c # v" | u where "s = u @ c # []"
    | u v where "s = u @ c # [] @ c # v"
    by (auto simp: prefix_def suffix_def contains_str_iff)
  then show "[] \<in> set (split_on c s)"
    by cases (simp_all only: split_on_append, simp_all)
qed

lemma destination_validate_iff [result_simps]: "destination_validate d = Inr () \<longleftrightarrow> destination_ok d"
proof -
  have labels: "list_all (\<lambda>label. label \<noteq> []) (split_on (CHR ''.'') h) \<longleftrightarrow>
      h \<noteq> [] \<and> \<not> prefix ''.'' h \<and> \<not> suffix ''.'' h \<and> \<not> contains_str ''..'' h" for h
    using split_on_Nil_iff [of "CHR ''.''" h] by (auto simp: list_all_iff)
  have star: "CHR ''*'' \<notin> set h" if "list_all host_char h" for h
    using that by (auto simp: list_all_iff host_char_def char_simps)
  let ?h = "dest_host d"
  have form: "(dest_port d = 0 \<or> ?h = [] \<or> 253 < length ?h \<or> ?h \<noteq> map to_lower ?h
         \<or> prefix ''.'' ?h \<or> suffix ''.'' ?h \<or> contains_str ''..'' ?h \<or> CHR ''*'' \<in> set ?h
         \<or> \<not> list_all host_char ?h) \<longleftrightarrow>
      \<not> (dest_port d \<noteq> 0 \<and> length ?h \<le> 253
         \<and> list_all (\<lambda>label. label \<noteq> []) (split_on (CHR ''.'') ?h) \<and> list_all host_char ?h)"
    unfolding labels not_le [symmetric] using host_char_lower [of ?h] star [of ?h] by argo
  show ?thesis
    unfolding destination_validate_def Let_def form destination_ok_def
    by (cases "parse_ipv4 ?h"; simp; argo)
qed

lemma network_validate_iff [result_simps]: "network_validate p = Inr () \<longleftrightarrow> network_ok p"
  by (cases p) (auto simp: network_validate_def network_ok_def try_all_Inr_iff list_all_iff
      destination_validate_iff Suc_le_eq)

lemma validate_revision_iff [result_simps]:
  "validate_revision s = Inr () \<longleftrightarrow> hex_of_length 40 s \<or> hex_of_length 64 s"
  by (auto simp: validate_revision_def hex_of_length_def)

lemma validate_digest_iff [result_simps]:
  "validate_digest s = Inr () \<longleftrightarrow> (\<exists>hex. s = ''sha256:'' @ hex \<and> hex_of_length 64 hex)"
proof (cases "strip_prefix ''sha256:'' s")
  case None
  then have "\<not> prefix ''sha256:'' s" using strip_prefix_None by blast
  moreover have "validate_digest s = Inl InvalidDigest"
    by (simp only: validate_digest_def None option.case)
  ultimately show ?thesis by (auto simp: prefix_def)
next
  case (Some h)
  then have "s = ''sha256:'' @ h" unfolding strip_prefix_Some .
  moreover have "validate_digest s =
      (if length h = 64 \<and> list_all lower_hex h then Inr () else Inl InvalidDigest)"
    by (simp only: validate_digest_def Some option.case)
  ultimately show ?thesis by (auto simp: hex_of_length_def)
qed

lemma simulation_validate_iff [result_simps]:
  "simulation_validate r p = Inr () \<longleftrightarrow>
     sat_add64 (length (sim_stdout p)) (length (sim_stderr p)) \<le> min (4 * unat (log_bytes r)) (2 ^ 21)
     \<and> -255 \<le> sint (sim_exit_code p) \<and> sint (sim_exit_code p) \<le> 255"
  by (auto simp: simulation_validate_def sat_mul64_def max_log_bytes_def min_def)

text \<open>
  The runner admits an execution exactly when its three identifiers are set, its
  revision is a full lowercase object id, its manifest digest is pinned, its resources are within
  the runner's limits, its network policy names at most 32 well-formed destinations none of which
  is a protected address, its simulated logs are at most four times the log limit and 2 MiB, and
  its exit code is between -255 and 255.
\<close>

theorem execution_validate_exact:
  "execution_validate x = Inr () \<longleftrightarrow>
     run_id x \<noteq> 0 \<and> workspace_id x \<noteq> 0 \<and> project_id x \<noteq> 0
     \<and> (hex_of_length 40 (revision_sha x) \<or> hex_of_length 64 (revision_sha x))
     \<and> (\<exists>hex. manifest_digest x = ''sha256:'' @ hex \<and> hex_of_length 64 hex)
     \<and> resources_ok (resources x) \<and> network_ok (network x)
     \<and> sat_add64 (length (sim_stdout (simulation x))) (length (sim_stderr (simulation x)))
         \<le> min (4 * unat (log_bytes (resources x))) (2 ^ 21)
     \<and> -255 \<le> sint (sim_exit_code (simulation x)) \<and> sint (sim_exit_code (simulation x)) \<le> 255"
  by (auto simp: execution_validate_def rbind_Inr_iff resources_validate_iff network_validate_iff
      validate_revision_iff validate_digest_iff simulation_validate_iff)

text \<open>
  The short form of the loopback address, which resolvers read as 127.0.0.1, is no dotted quad for
  the standard library and passes as a host name.
\<close>

lemma short_loopback_admitted:
  "destination_validate \<lparr>dest_host = ''127.1'', dest_port = 443\<rparr> = Inr ()"
  by (simp add: destination_validate_def to_lower_def char_simps host_char_def blocked_hosts_def
      parse_ipv4_def ipv4_octet_def decimal_def suffix_def Let_def)

section \<open>Signed envelopes\<close>

datatype runner_command =
    RunnerPing
  | Execute execution_request
  | CancelRun uuid
  | Inspect uuid

record signed_envelope =
  env_version :: u8
  request_id :: uuid
  issued_at_ms :: int
  nonce :: string
  env_payload :: string
  mac :: string

datatype protocol_error =
    WeakKey | AuthenticationFailed | ReplayDetected | StaleRequest | UnsupportedVersion
  | Malformed string

datatype error_code =
    CodeAuthenticationFailed | CodeReplayDetected | CodeStaleRequest | CodeUnsupportedVersion
  | CodeMalformedRequest | CodeInvalidExecution | CodeIdempotencyConflict | CodeNotFound
  | CodePersistenceFailed | CodeInternal

primrec protocol_error_code :: "protocol_error \<Rightarrow> error_code" where
  "protocol_error_code AuthenticationFailed = CodeAuthenticationFailed"
| "protocol_error_code WeakKey = CodeAuthenticationFailed"
| "protocol_error_code ReplayDetected = CodeReplayDetected"
| "protocol_error_code StaleRequest = CodeStaleRequest"
| "protocol_error_code UnsupportedVersion = CodeUnsupportedVersion"
| "protocol_error_code (Malformed msg) = CodeMalformedRequest"

primrec protocol_error_text :: "protocol_error \<Rightarrow> string" where
  "protocol_error_text WeakKey = ''authentication key must contain at least 32 bytes''"
| "protocol_error_text AuthenticationFailed = ''request authentication failed''"
| "protocol_error_text ReplayDetected = ''request nonce has already been used''"
| "protocol_error_text StaleRequest = ''request timestamp is outside the allowed window''"
| "protocol_error_text UnsupportedVersion = ''unsupported protocol version''"
| "protocol_error_text (Malformed msg) = ''malformed request: '' @ msg"

record crypto =
  b64_encode :: "bytes \<Rightarrow> string"
  b64_decode :: "string \<Rightarrow> string + bytes"
  hmac_sha256 :: "bytes \<Rightarrow> string \<Rightarrow> bytes"
  show_uuid :: "uuid \<Rightarrow> string"
  command_json :: "runner_command \<Rightarrow> string + bytes"
  parse_command :: "bytes \<Rightarrow> string + runner_command"

definition runner_protocol_version :: u8 where "runner_protocol_version = 1"
definition max_clock_skew_ms :: int where "max_clock_skew_ms = 60000"
definition min_auth_key_bytes :: nat where "min_auth_key_bytes = 32"
definition max_replay_entries :: nat where "max_replay_entries = 4096"
definition max_frame_bytes :: nat where "max_frame_bytes = 256 * 1024"

definition validate_auth_key :: "bytes \<Rightarrow> protocol_error + unit" where
  "validate_auth_key key = (if length key < min_auth_key_bytes then Inl WeakKey else Inr ())"

text \<open>\<open>Display\<close> of an \<open>i64\<close>.\<close>

definition show_int :: "int \<Rightarrow> string" where
  "show_int i = (if i < 0 then CHR ''-'' # show_nat (nat (- i)) else show_nat (nat i))"

abbreviation newline :: char where "newline \<equiv> CHR 0x0A"

definition signing_input :: "crypto \<Rightarrow> signed_envelope \<Rightarrow> string" where
  "signing_input c e =
     ''c6-runner-v1'' @ [newline] @ show_uuid c (request_id e) @ [newline] @ show_int (issued_at_ms e)
     @ [newline] @ nonce e @ [newline] @ env_payload e"

text \<open>HMAC accepts keys of every length, so \<open>compute_mac\<close> has no error of its own.\<close>

definition compute_mac :: "crypto \<Rightarrow> bytes \<Rightarrow> signed_envelope \<Rightarrow> bytes" where
  "compute_mac c key e = hmac_sha256 c key (signing_input c e)"

definition sign_envelope ::
  "crypto \<Rightarrow> uuid \<Rightarrow> int \<Rightarrow> bytes \<Rightarrow> runner_command \<Rightarrow> bytes \<Rightarrow> protocol_error + signed_envelope" where
  "sign_envelope c rid issued fresh cmd key =
     andThen (validate_auth_key key)
       (rbind (map_err Malformed (command_json c cmd)) (\<lambda>body.
          let e = \<lparr>env_version = runner_protocol_version, request_id = rid, issued_at_ms = issued,
                   nonce = b64_encode c fresh, env_payload = b64_encode c body, mac = []\<rparr>
          in Inr (e\<lparr>mac := b64_encode c (compute_mac c key e)\<rparr>)))"

text \<open>
  \<open>Authenticator::verify\<close>: the checks in their order, then, under the lock, expiry of old nonces,
  the replay check, the bound, and the recording of the nonce; the payload is decoded last, so a
  nonce is spent even when the command turns out to be malformed.
\<close>

type_synonym nonces = "(string \<times> int) list"

definition retain_fresh :: "int \<Rightarrow> nonces \<Rightarrow> nonces" where
  "retain_fresh now seen = filter (\<lambda>e. \<bar>now - snd e\<bar> \<le> max_clock_skew_ms) seen"

definition envelope_authentic :: "crypto \<Rightarrow> bytes \<Rightarrow> signed_envelope \<Rightarrow> int \<Rightarrow> protocol_error + unit" where
  "envelope_authentic c key e now =
     (if env_version e \<noteq> runner_protocol_version then Inl UnsupportedVersion
      else if max_clock_skew_ms < \<bar>now - issued_at_ms e\<bar> then Inl StaleRequest
      else case b64_decode c (nonce e) of
          Inl _ \<Rightarrow> Inl AuthenticationFailed
        | Inr raw \<Rightarrow>
            if length raw \<noteq> 16 then Inl AuthenticationFailed
            else (case b64_decode c (mac e) of
                Inl _ \<Rightarrow> Inl AuthenticationFailed
              | Inr supplied \<Rightarrow>
                  if supplied \<noteq> compute_mac c key e then Inl AuthenticationFailed else Inr ()))"

definition decode_command :: "crypto \<Rightarrow> signed_envelope \<Rightarrow> protocol_error + runner_command" where
  "decode_command c e =
     rbind (map_err Malformed (b64_decode c (env_payload e)))
       (\<lambda>body. map_err Malformed (parse_command c body))"

definition verify ::
  "crypto \<Rightarrow> bytes \<Rightarrow> nonces \<Rightarrow> signed_envelope \<Rightarrow> int
     \<Rightarrow> (protocol_error + runner_command) \<times> nonces" where
  "verify c key seen e now =
     (case envelope_authentic c key e now of
        Inl err \<Rightarrow> (Inl err, seen)
      | Inr _ \<Rightarrow>
          (let kept = retain_fresh now seen in
           if hget kept (nonce e) \<noteq> None then (Inl ReplayDetected, kept)
           else if max_replay_entries \<le> length kept then (Inl ReplayDetected, kept)
           else (decode_command c e, hput (nonce e) (issued_at_ms e) kept)))"

section \<open>No envelope twice\<close>

text \<open>
  The authenticator over time: each request arrives with the clock advanced by some amount, and
  \<open>accepted\<close> records the nonce and the time of issue of every envelope that \<open>verify\<close> answered with a
  command.
\<close>

record authenticator =
  seen_nonces :: nonces
  clock_ms :: int
  accepted :: "(string \<times> int) list"

definition auth_step ::
  "crypto \<Rightarrow> bytes \<Rightarrow> authenticator \<Rightarrow> signed_envelope \<times> nat
     \<Rightarrow> (protocol_error + runner_command) \<times> authenticator" where
  "auth_step c key a ev =
     (let now = clock_ms a + int (snd ev);
          r = verify c key (seen_nonces a) (fst ev) now
      in (fst r, \<lparr>seen_nonces = snd r, clock_ms = now,
            accepted = accepted a
              @ (if is_ok (fst r) then [(nonce (fst ev), issued_at_ms (fst ev))] else [])\<rparr>))"

definition auth_init :: "int \<Rightarrow> authenticator" where
  "auth_init t = \<lparr>seen_nonces = [], clock_ms = t, accepted = []\<rparr>"

definition auth_ok :: "authenticator \<Rightarrow> bool" where
  "auth_ok a \<longleftrightarrow> hmap_ok (seen_nonces a) \<and> length (seen_nonces a) \<le> max_replay_entries
     \<and> distinct (accepted a)
     \<and> (\<forall>(n, t) \<in> set (accepted a). t \<le> clock_ms a + max_clock_skew_ms
          \<and> (hget (seen_nonces a) n = Some t \<or> t + max_clock_skew_ms < clock_ms a))"

definition auth_le :: "authenticator \<Rightarrow> authenticator \<Rightarrow> bool" where
  "auth_le a b \<longleftrightarrow> clock_ms a \<le> clock_ms b \<and> prefix (accepted a) (accepted b)"

lemma hmap_ok_filter: "hmap_ok m \<Longrightarrow> hmap_ok (filter p m)"
  by (simp add: hmap_ok_def distinct_map_filter)

lemma hget_filter:
  "hmap_ok m \<Longrightarrow> hget (filter p m) k = (case hget m k of Some v \<Rightarrow> if p (k, v) then Some v else None | None \<Rightarrow> None)"
proof (induction m)
  case Nil
  then show ?case by simp
next
  case (Cons e m)
  obtain j v where e: "e = (j, v)" by (cases e)
  have ok: "hmap_ok m" and fresh: "hget m j = None"
    using Cons.prems by (auto simp: e hmap_ok_def map_of_eq_None_iff)
  show ?case using Cons.IH [OF ok] fresh by (auto simp: e split: option.splits)
qed

lemma retain_fresh_get:
  "hmap_ok seen \<Longrightarrow> hget (retain_fresh now seen) n = Some t \<longleftrightarrow> hget seen n = Some t \<and> \<bar>now - t\<bar> \<le> max_clock_skew_ms"
  by (auto simp: retain_fresh_def hget_filter split: option.splits)

text \<open>The nonce is new and there is room for it.\<close>

definition nonce_free :: "nonces \<Rightarrow> signed_envelope \<Rightarrow> int \<Rightarrow> bool" where
  "nonce_free seen e now \<longleftrightarrow> hget (retain_fresh now seen) (nonce e) = None
     \<and> length (retain_fresh now seen) < max_replay_entries"

lemma verify_cases:
  obtains (refused) "\<not> is_ok (fst (verify c key seen e now))" "snd (verify c key seen e now) \<in> {seen, retain_fresh now seen}"
  | (spent) "nonce_free seen e now" "snd (verify c key seen e now) = hput (nonce e) (issued_at_ms e) (retain_fresh now seen)"
      "\<bar>now - issued_at_ms e\<bar> \<le> max_clock_skew_ms"
proof (cases "envelope_authentic c key e now")
  case (Inl err)
  then show thesis by (intro refused) (simp_all add: verify_def is_ok_iff)
next
  case (Inr u)
  then have skew: "\<bar>now - issued_at_ms e\<bar> \<le> max_clock_skew_ms"
    by (auto simp: envelope_authentic_def split: if_splits)
  show thesis
  proof (cases "nonce_free seen e now")
    case True
    with skew Inr show thesis by (intro spent) (auto simp: nonce_free_def verify_def Let_def)
  next
    case False
    with Inr show thesis by (intro refused) (auto simp: nonce_free_def verify_def Let_def is_ok_iff)
  qed
qed

lemma auth_step_ok:
  assumes "auth_ok a"
  shows "auth_ok (snd (auth_step c key a ev))"
proof -
  obtain e d where ev: "ev = (e, d)" by (cases ev)
  let ?now = "clock_ms a + int d"
  let ?kept = "retain_fresh ?now (seen_nonces a)"
  have map: "hmap_ok (seen_nonces a)" and len: "length (seen_nonces a) \<le> max_replay_entries"
    and dist: "distinct (accepted a)"
    and acc: "\<And>n t. (n, t) \<in> set (accepted a) \<Longrightarrow> t \<le> clock_ms a + max_clock_skew_ms
          \<and> (hget (seen_nonces a) n = Some t \<or> t + max_clock_skew_ms < clock_ms a)"
    using assms by (auto simp: auth_ok_def)
  have keep: "hmap_ok ?kept" "length ?kept \<le> length (seen_nonces a)"
    using map by (auto simp: retain_fresh_def hmap_ok_filter)
  have old: "t \<le> ?now + max_clock_skew_ms
       \<and> (hget (seen_nonces a) n = Some t \<and> hget ?kept n = Some t \<or> t + max_clock_skew_ms < ?now)"
    if "(n, t) \<in> set (accepted a)" for n t
    using acc [OF that] retain_fresh_get [OF map, of ?now n t] by auto
  show ?thesis
  proof (cases rule: verify_cases [of c key "seen_nonces a" e ?now])
    case refused
    then have st: "snd (auth_step c key a ev) = \<lparr>seen_nonces = snd (verify c key (seen_nonces a) e ?now),
        clock_ms = ?now, accepted = accepted a\<rparr>"
      by (simp add: auth_step_def ev Let_def)
    from refused(2) have "snd (verify c key (seen_nonces a) e ?now) = seen_nonces a
        \<or> snd (verify c key (seen_nonces a) e ?now) = ?kept" by simp
    then show ?thesis unfolding st using map len dist keep by (elim disjE) (auto simp: auth_ok_def dest: old)
  next
    case spent
    obtain new where new: "accepted (snd (auth_step c key a ev)) = accepted a @ new" "set new \<subseteq> {(nonce e, issued_at_ms e)}" "distinct new"
    proof (rule that)
      show "accepted (snd (auth_step c key a ev)) = accepted a
          @ (if is_ok (fst (verify c key (seen_nonces a) e ?now)) then [(nonce e, issued_at_ms e)] else [])"
        by (simp add: auth_step_def ev Let_def)
    qed auto
    have st: "seen_nonces (snd (auth_step c key a ev)) = hput (nonce e) (issued_at_ms e) ?kept"
      "clock_ms (snd (auth_step c key a ev)) = ?now"
      using spent by (simp_all add: auth_step_def ev Let_def)
    have none: "hget ?kept (nonce e) = None" "length ?kept < max_replay_entries"
      using spent(1) by (auto simp: nonce_free_def)
    have unseen: "(nonce e, issued_at_ms e) \<notin> set (accepted a)"
      using old [of "nonce e" "issued_at_ms e"] none(1) spent(3) by auto
    have "hget (hput (nonce e) (issued_at_ms e) ?kept) n = Some t \<or> t + max_clock_skew_ms < ?now"
      if "(n, t) \<in> set (accepted a)" for n t
      using old [OF that] none(1) by (auto simp: hmap_simps)
    then show ?thesis
      unfolding auth_ok_def st new(1) using keep none dist new(2,3) unseen spent(3)
      by (auto simp: hmap_simps hput_length dest: old)
  qed
qed

interpretation auth: growing_machine "auth_step c key" "auth_init t" auth_ok auth_le
  for c key t
proof unfold_locales
  show "auth_ok (auth_init t)" by (simp add: auth_ok_def auth_init_def hmap_simps)
  show "auth_ok a \<Longrightarrow> auth_ok (snd (auth_step c key a e))" for a e by (rule auth_step_ok)
  show "auth_le a a" for a by (simp add: auth_le_def)
  show "auth_le a b \<Longrightarrow> auth_le b d \<Longrightarrow> auth_le a d" for a b d by (auto simp: auth_le_def)
  show "auth_le a (snd (auth_step c key a e))" for a e by (simp add: auth_le_def auth_step_def Let_def)
qed

text \<open>
  C35: no request is accepted twice: while the runner's clock does not run backwards, whatever
  sequence of envelopes arrives, those that \<open>verify\<close> answers with a command have all different pairs
  of nonce and time of issue, even though expired nonces are forgotten; and the replay table never
  holds more than 4096 entries.
\<close>

theorem no_envelope_accepted_twice:
  "let a = run_steps (auth_step c key) (auth_init t) evs in
     distinct (accepted a) \<and> length (seen_nonces a) \<le> 4096"
  using auth.inv_reachable [of c key t evs] by (simp add: Let_def auth_ok_def max_replay_entries_def)

section \<open>What the signature covers\<close>

lemma show_int_no_newline: "newline \<notin> set (show_int i)"
proof -
  have "newline \<notin> set (show_nat n)" for n using show_nat_digits [of n] by force
  then show ?thesis by (simp add: show_int_def)
qed

lemma show_int_inject: "show_int i = show_int j \<longleftrightarrow> i = j"
proof
  assume eq: "show_int i = show_int j"
  have minus: "CHR ''-'' # s \<noteq> show_nat n" for s n
    using show_nat_digits [of n] by (cases "show_nat n") auto
  have nat: "show_nat a = show_nat b \<Longrightarrow> a = b" for a b
    by (metis read_show_nat)
  from eq show "i = j"
    using minus minus [symmetric] nat
    by (auto simp: show_int_def eq_nat_nat_iff split: if_splits dest!: nat)
qed simp

definition show_uuid_ok :: "crypto \<Rightarrow> bool" where
  "show_uuid_ok c \<longleftrightarrow> inj (show_uuid c) \<and> (\<forall>u. newline \<notin> set (show_uuid c u))"

text \<open>
  The signature binds the whole envelope: two envelopes with the same signing input and
  newline-free nonces, as every accepted nonce is, have the same request id, time of issue, nonce
  and payload; no field can be shifted into its neighbour.
\<close>

theorem signing_input_unambiguous:
  assumes "show_uuid_ok c" and "newline \<notin> set (nonce e)" and "newline \<notin> set (nonce f)"
    and "signing_input c e = signing_input c f"
  shows "request_id e = request_id f \<and> issued_at_ms e = issued_at_ms f
     \<and> nonce e = nonce f \<and> env_payload e = env_payload f"
proof -
  have cut: "u = v \<and> s = t"
    if "u @ newline # s = v @ newline # t" "newline \<notin> set u" "newline \<notin> set v" for u v s t :: string
    using that split_once_Some [of newline "u @ newline # s" u s] split_once_Some [of newline "v @ newline # t" v t]
    by simp
  have uu: "newline \<notin> set (show_uuid c u)" for u using assms(1) by (simp add: show_uuid_ok_def)
  have eq: "show_uuid c (request_id e) @ newline # (show_int (issued_at_ms e) @ newline # (nonce e @ newline # env_payload e))
      = show_uuid c (request_id f) @ newline # (show_int (issued_at_ms f) @ newline # (nonce f @ newline # env_payload f))"
    using assms(4) by (simp add: signing_input_def)
  from cut [OF eq uu uu] have id: "show_uuid c (request_id e) = show_uuid c (request_id f)"
    and rest: "show_int (issued_at_ms e) @ newline # (nonce e @ newline # env_payload e)
      = show_int (issued_at_ms f) @ newline # (nonce f @ newline # env_payload f)" by auto
  from cut [OF rest show_int_no_newline show_int_no_newline]
  have at: "show_int (issued_at_ms e) = show_int (issued_at_ms f)"
    and rest': "nonce e @ newline # env_payload e = nonce f @ newline # env_payload f" by auto
  from cut [OF rest' assms(2,3)] id at assms(1) show ?thesis
    by (auto simp: show_int_inject show_uuid_ok_def dest: injD)
qed

definition base64_ok :: "crypto \<Rightarrow> bool" where
  "base64_ok c \<longleftrightarrow> (\<forall>b. b64_decode c (b64_encode c b) = Inr b)"

text \<open>
  What the client signs, the runner accepts: an envelope signed with the shared key and a
  fresh 16-byte nonce passes every check within a minute of its issue on either side, is not taken
  for a replay unless its nonce is in the table or the table is full, and yields the command that
  was signed.
\<close>

theorem signed_envelope_accepted:
  assumes "base64_ok c" and "sign_envelope c rid issued fresh cmd key = Inr e"
    and "command_json c cmd = Inr body" and "parse_command c body = Inr cmd"
    and "length fresh = 16" and "\<bar>now - issued\<bar> \<le> 60000"
    and "hget (retain_fresh now seen) (b64_encode c fresh) = None"
    and "length (retain_fresh now seen) < 4096"
  shows "fst (verify c key seen e now) = Inr cmd"
proof -
  let ?e = "\<lparr>env_version = runner_protocol_version, request_id = rid, issued_at_ms = issued,
                   nonce = b64_encode c fresh, env_payload = b64_encode c body, mac = []\<rparr>"
  have e: "e = ?e\<lparr>mac := b64_encode c (compute_mac c key ?e)\<rparr>"
    using assms(2,3) by (auto simp: sign_envelope_def result_simps Let_def)
  have "compute_mac c key e = compute_mac c key ?e"
    by (simp add: e compute_mac_def signing_input_def)
  then have "envelope_authentic c key e now = Inr ()"
    using assms(1,5,6) by (simp add: envelope_authentic_def e base64_ok_def max_clock_skew_ms_def)
  moreover have "decode_command c e = Inr cmd"
    using assms(1,4) by (simp add: decode_command_def e base64_ok_def)
  ultimately show ?thesis
    using assms(7,8) by (simp add: verify_def Let_def e max_replay_entries_def)
qed

section \<open>Frames\<close>

datatype frame_error = FrameIo | FrameTooLarge | Truncated | MultipleFrames | FrameMalformed

text \<open>
  \<open>read_frame\<close> over the results of its reads: an error, or the bytes read (at most 4096 of them);
  no bytes, or no further read, is the end of the stream.
\<close>

fun read_frame :: "bytes \<Rightarrow> (unit + bytes) list \<Rightarrow> frame_error + bytes" where
  "read_frame frame [] = Inl Truncated"
| "read_frame frame (Inl _ # rs) = Inl FrameIo"
| "read_frame frame (Inr b # rs) =
     (if b = [] then Inl Truncated
      else case split_once 10 b of
          Some (p, rest) \<Rightarrow>
            let f = frame @ p in
            if rest \<noteq> [] then Inl MultipleFrames
            else if f = [] then Inl FrameMalformed
            else if max_frame_bytes < length f then Inl FrameTooLarge else Inr f
        | None \<Rightarrow>
            let f = frame @ b in
            if max_frame_bytes < length f then Inl FrameTooLarge else read_frame f rs)"

lemma split_once_None: "split_once x s = None \<longleftrightarrow> x \<notin> set s"
  by (induction s) auto

lemma read_frame_sound:
  "read_frame acc rs = Inr f \<Longrightarrow> 10 \<notin> set acc \<Longrightarrow>
   \<exists>bs later. rs = map Inr bs @ later \<and> [] \<notin> set bs \<and> acc @ concat bs = f @ [10]
      \<and> 10 \<notin> set f \<and> f \<noteq> [] \<and> length f \<le> max_frame_bytes"
proof (induction acc rs rule: read_frame.induct)
  case (3 acc b rs)
  have ne: "b \<noteq> []" using 3(2) by auto
  show ?case
  proof (cases "split_once 10 b")
    case None
    then have sep: "10 \<notin> set b" by (simp add: split_once_None)
    have rec: "read_frame (acc @ b) rs = Inr f" and fits: "\<not> max_frame_bytes < length (acc @ b)"
      using 3(2) ne None by (auto simp: Let_def split: if_splits)
    obtain bs later where "rs = map Inr bs @ later" "[] \<notin> set bs" "(acc @ b) @ concat bs = f @ [10]"
      "10 \<notin> set f" "f \<noteq> []" "length f \<le> max_frame_bytes"
      using 3(1) [OF ne None refl fits rec] 3(3) sep by auto
    with ne show ?thesis by (intro exI [of _ "b # bs"] exI [of _ later]) auto
  next
    case (Some pr)
    obtain p rest where pr: "pr = (p, rest)" by (cases pr)
    with Some ne 3(2) have "rest = []" "f = acc @ p" "f \<noteq> []" "length f \<le> max_frame_bytes"
      by (auto simp: Let_def split: if_splits)
    moreover have "b = p @ [10]" "10 \<notin> set p"
      using Some pr \<open>rest = []\<close> by (auto simp: split_once_Some)
    ultimately show ?thesis
      using ne 3(3) by (intro exI [of _ "[b]"] exI [of _ rs]) auto
  qed
qed simp_all

lemma read_frame_complete:
  "acc @ concat bs = f @ [10] \<Longrightarrow> [] \<notin> set bs \<Longrightarrow> 10 \<notin> set f \<Longrightarrow> f \<noteq> [] \<Longrightarrow> 10 \<notin> set acc
   \<Longrightarrow> length f \<le> max_frame_bytes \<Longrightarrow> read_frame acc (map Inr bs @ later) = Inr f"
proof (induction bs arbitrary: acc)
  case Nil
  then have "10 \<in> set acc" by simp
  with Nil show ?case by simp
next
  case (Cons b bs)
  have ne: "b \<noteq> []" using Cons.prems(2) by auto
  show ?case
  proof (cases "concat bs = []")
    case True
    then have b: "acc @ b = f @ [10]"
      using Cons.prems(1) by (simp only: concat.simps append_Nil2)
    then obtain p where p: "b = p @ [10]" "f = acc @ p"
      using ne by (cases b rule: rev_cases) auto
    have "split_once 10 b = Some (p, [])"
      using Cons.prems(3) p by (simp add: split_once_Some)
    with ne p Cons.prems(4,6) show ?thesis by (simp add: Let_def)
  next
    case False
    then obtain q where q: "concat bs = q @ [10]" "f = acc @ b @ q"
      using Cons.prems(1) by (cases "concat bs" rule: rev_cases) auto
    then have sep: "10 \<notin> set b" "10 \<notin> set (acc @ b)" and fits: "\<not> max_frame_bytes < length (acc @ b)"
      using Cons.prems(3,6) by auto
    have "read_frame (acc @ b) (map Inr bs @ later) = Inr f"
      by (rule Cons.IH) (use Cons.prems q sep in auto)
    with ne sep fits show ?thesis by (simp add: split_once_None [THEN iffD2] Let_def)
  qed
qed

text \<open>
  The frame reader accepts exactly one well-formed frame however it is split into reads:
  the reads up to its end are non-empty, together they are the frame and its newline, and the frame
  is not empty, has no newline and is at most 256 KiB.
\<close>

theorem read_frame_exact:
  "read_frame [] rs = Inr f \<longleftrightarrow>
     (\<exists>bs later. rs = map Inr bs @ later \<and> [] \<notin> set bs \<and> concat bs = f @ [10]
        \<and> 10 \<notin> set f \<and> f \<noteq> [] \<and> length f \<le> 256 * 1024)"
  using read_frame_sound [of "[]" rs f] read_frame_complete [of "[]" _ f]
  by (auto simp: max_frame_bytes_def)

section \<open>Logs and records\<close>

record captured_log =
  log_content :: string
  log_truncated :: bool

datatype run_status = Succeeded | RunFailed | RunCancelled | TimedOut | Interrupted

record run_record =
  rec_request :: execution_request
  rec_status :: run_status
  rec_exit_code :: "u32 option"
  rec_stdout :: captured_log
  rec_stderr :: captured_log
  started_at_ms :: int
  finished_at_ms :: int

record backend_output =
  out_exit_code :: u32
  out_stdout :: string
  out_stderr :: string

datatype run_outcome =
    Exited backend_output
  | BackendFailed string
  | OutcomeCancelled
  | OutcomeTimedOut

text \<open>The loop \<open>while !content.is_char_boundary(boundary) { boundary -= 1; }\<close>; 0 is a boundary.\<close>

primrec log_boundary :: "string \<Rightarrow> nat \<Rightarrow> nat" where
  "log_boundary s 0 = 0"
| "log_boundary s (Suc i) = (if is_char_boundary s (Suc i) then Suc i else log_boundary s i)"

definition capture_log :: "string \<Rightarrow> nat \<Rightarrow> captured_log" where
  "capture_log content limit =
     (if length content \<le> limit then \<lparr>log_content = content, log_truncated = False\<rparr>
      else \<lparr>log_content = take (log_boundary content limit) content, log_truncated = True\<rparr>)"

text \<open>\<open>SimulationBackend::execute\<close>, after its sleep.\<close>

definition simulate :: "execution_request \<Rightarrow> backend_output" where
  "simulate x = \<lparr>out_exit_code = sim_exit_code (simulation x), out_stdout = sim_stdout (simulation x),
     out_stderr = sim_stderr (simulation x)\<rparr>"

definition build_record :: "execution_request \<Rightarrow> int \<Rightarrow> int \<Rightarrow> run_outcome \<Rightarrow> run_record" where
  "build_record x started finished outcome =
     (let limit = unat (log_bytes (resources x));
          (st, code, so, se) = (case outcome of
              Exited out \<Rightarrow> (if out_exit_code out = 0 then Succeeded else RunFailed,
                 Some (out_exit_code out), capture_log (out_stdout out) limit, capture_log (out_stderr out) limit)
            | BackendFailed msg \<Rightarrow> (Interrupted, None, capture_log [] limit,
                 capture_log msg limit)
            | OutcomeCancelled \<Rightarrow> (RunCancelled, None, capture_log [] limit, capture_log [] limit)
            | OutcomeTimedOut \<Rightarrow> (TimedOut, None, capture_log [] limit, capture_log [] limit))
      in \<lparr>rec_request = x, rec_status = st, rec_exit_code = code, rec_stdout = so, rec_stderr = se,
          started_at_ms = started, finished_at_ms = finished\<rparr>)"

lemma log_boundary_le: "log_boundary s i \<le> i"
  by (induction i) auto

lemma log_boundary_is_boundary: "is_char_boundary s (log_boundary s i)"
  by (induction i) (auto simp: is_char_boundary_def)

lemma log_boundary_greatest: "is_char_boundary s j \<Longrightarrow> j \<le> i \<Longrightarrow> j \<le> log_boundary s i"
  by (induction i) (auto simp: le_Suc_eq)

lemma log_boundary_maximal:
  "j \<le> i \<Longrightarrow> log_boundary s i < j \<Longrightarrow> \<not> is_char_boundary s j"
  using log_boundary_greatest [of s j i] by auto

text \<open>What a capture keeps: the longest prefix of whole characters within the limit.\<close>

definition captures :: "string \<Rightarrow> nat \<Rightarrow> captured_log \<Rightarrow> bool" where
  "captures s limit l \<longleftrightarrow> prefix (log_content l) s \<and> length (log_content l) \<le> limit
     \<and> (log_truncated l \<longleftrightarrow> limit < length s) \<and> is_char_boundary s (length (log_content l))
     \<and> list_all (\<lambda>j. \<not> is_char_boundary s j) [Suc (length (log_content l))..<Suc (min limit (length s))]"

lemma capture_log_captures: "captures s limit (capture_log s limit)"
proof (cases "length s \<le> limit")
  case True
  then show ?thesis by (simp add: captures_def capture_log_def is_char_boundary_def min_def)
next
  case False
  let ?b = "log_boundary s limit"
  have b: "?b \<le> limit" "is_char_boundary s ?b"
    by (rule log_boundary_le, rule log_boundary_is_boundary)
  have len: "length (take ?b s) = ?b" using b(1) False by simp
  have "list_all (\<lambda>j. \<not> is_char_boundary s j) [Suc ?b..<Suc limit]"
    unfolding list_all_iff using log_boundary_maximal [of _ limit s] by (auto simp: less_Suc_eq_le Suc_le_eq)
  with False b len show ?thesis
    by (simp add: captures_def capture_log_def take_is_prefix min_def)
qed

text \<open>
  A run record keeps of each log exactly the longest prefix of whole characters that fits
  the request's limit and says whether anything was cut; it carries the request it was made for,
  and an exit code exactly when the backend ran to its end, success meaning code 0.
\<close>

theorem run_record_faithful:
  "let r = build_record x started finished (Exited out); limit = unat (log_bytes (resources x)) in
     rec_request r = x \<and> captures (out_stdout out) limit (rec_stdout r)
     \<and> captures (out_stderr out) limit (rec_stderr r)
     \<and> rec_exit_code r = Some (out_exit_code out)
     \<and> (rec_status r = Succeeded \<longleftrightarrow> out_exit_code out = 0)"
  by (simp add: build_record_def Let_def capture_log_captures)

section \<open>Concretely\<close>

text \<open>Toy cryptography: the identity encoding, and the signing input itself as its tag.\<close>

definition bytes_of_chars :: "string \<Rightarrow> bytes" where
  "bytes_of_chars = map (\<lambda>ch. word_of_nat (ord ch))"

definition chars_of_bytes :: "bytes \<Rightarrow> string" where
  "chars_of_bytes = map (\<lambda>b. char_of (unat b))"

lemma bytes_of_chars_of: "bytes_of_chars (chars_of_bytes b) = b"
proof (induction b)
  case Nil
  then show ?case by (simp add: bytes_of_chars_def chars_of_bytes_def)
next
  case (Cons x xs)
  have "ord (char_of (unat x) :: char) = unat x" using unat_byte_less [of x] by simp
  with Cons show ?case by (simp add: bytes_of_chars_def chars_of_bytes_def)
qed

definition toy_crypto :: crypto where
  "toy_crypto = \<lparr>b64_encode = chars_of_bytes, b64_decode = (\<lambda>s. Inr (bytes_of_chars s)),
     hmac_sha256 = (\<lambda>k s. k @ bytes_of_chars s), show_uuid = (\<lambda>u. show_nat (unat u)),
     command_json = (\<lambda>cmd. case cmd of RunnerPing \<Rightarrow> Inr [112] | _ \<Rightarrow> Inl ''unsupported''),
     parse_command = (\<lambda>b. if b = [112] then Inr RunnerPing else Inl ''unsupported'')\<rparr>"

lemma toy_show_uuid: "show_uuid_ok toy_crypto"
proof -
  have "inj (\<lambda>u :: uuid. show_nat (unat u))"
    by (rule injI) (metis read_show_nat unsigned_word_eqI)
  moreover have "newline \<notin> set (show_nat n)" for n using show_nat_digits [of n] by force
  ultimately show ?thesis by (simp add: show_uuid_ok_def toy_crypto_def)
qed

definition toy_envelope :: "string \<Rightarrow> signed_envelope" where
  "toy_envelope n = \<lparr>env_version = 1, request_id = 7, issued_at_ms = 5, nonce = n, env_payload = ''p'', mac = []\<rparr>"

theorem signing_input_unambiguous_witness:
  "request_id (toy_envelope ''ab'') = request_id (toy_envelope ''ab''\<lparr>mac := ''x''\<rparr>)
     \<and> env_payload (toy_envelope ''ab'') = env_payload (toy_envelope ''ab''\<lparr>mac := ''x''\<rparr>)"
proof -
  have "signing_input toy_crypto (toy_envelope ''ab'') = signing_input toy_crypto (toy_envelope ''ab''\<lparr>mac := ''x''\<rparr>)"
    by (simp add: signing_input_def)
  moreover have "newline \<notin> set (nonce (toy_envelope ''ab''))" "newline \<notin> set (nonce (toy_envelope ''ab''\<lparr>mac := ''x''\<rparr>))"
    by (simp_all add: toy_envelope_def)
  ultimately show ?thesis using signing_input_unambiguous [OF toy_show_uuid] by blast
qed

definition toy_nonce :: bytes where "toy_nonce = replicate 16 65"

theorem signed_envelope_accepted_witness:
  "\<exists>e. sign_envelope toy_crypto 7 5 toy_nonce RunnerPing (replicate 32 1) = Inr e
     \<and> fst (verify toy_crypto (replicate 32 1) [] e 1000) = Inr RunnerPing"
proof -
  obtain e where e: "sign_envelope toy_crypto 7 5 toy_nonce RunnerPing (replicate 32 1) = Inr e"
    by (simp add: sign_envelope_def toy_crypto_def validate_auth_key_def min_auth_key_bytes_def Let_def)
  have b64: "base64_ok toy_crypto" by (simp add: base64_ok_def toy_crypto_def bytes_of_chars_of)
  have "fst (verify toy_crypto (replicate 32 1) [] e 1000) = Inr RunnerPing"
    by (rule signed_envelope_accepted [OF b64 e, of "[112]"])
       (simp_all add: toy_crypto_def toy_nonce_def retain_fresh_def)
  with e show ?thesis by blast
qed

end
