(* ===== verification/Runner_Service.thy ===== *)
theory Runner_Service
  imports Runner_Protocol
begin

text \<open>
  \<^verbatim>\<open>crates/c6-runner/src/lib.rs\<close>, the service: the interface \<open>ResultStore\<close> as a locale, its
  file implementation with the temporary file and the rename, and \<open>RunnerService\<close> with its table
  of active runs.  Between two \<open>await\<close> points other requests run, so one \<open>execute\<close> is a task that
  passes through \<open>Loaded\<close>, \<open>Running\<close> and \<open>Saving\<close>, a save is the sequence of its file-system calls,
  and the service is a machine whose events are the steps of its tasks.
\<close>

section \<open>The result store\<close>

datatype store_fault = NoFault | ReadFault | WriteFault nat | PermissionFault | RenameFault

record 's store_ops =
  load_run :: "'s \<Rightarrow> store_fault \<Rightarrow> uuid \<Rightarrow> string + run_record option"
  save_call :: "run_record \<Rightarrow> nat \<Rightarrow> 's \<Rightarrow> store_fault \<Rightarrow> (string + bool) \<times> 's"

definition record_id :: "run_record \<Rightarrow> uuid" where
  "record_id r = run_id (rec_request r)"

text \<open>
  A save is a sequence of calls: \<open>save_call r n\<close> is the one after \<open>n\<close> others, and answers whether it
  was the last.  What the service relies on: \<open>half s r n\<close> tells that the first \<open>n\<close> calls of the save of
  \<open>r\<close> are in place, and only a save of the same run can undo that; until its last call a save changes
  no record that is read, and the last one changes that of its run only.  \<open>sound\<close> is the assumption
  on the encoding the store is built with; only reading back what was saved depends on it.
\<close>

locale result_store =
  fixes ops :: "'s store_ops" and sound :: bool and half :: "'s \<Rightarrow> run_record \<Rightarrow> nat \<Rightarrow> bool"
  assumes half_start: "half s r 0"
    and half_step: "half s r n \<Longrightarrow> save_call ops r n s flt = (Inr False, s') \<Longrightarrow> half s' r (Suc n)"
    and half_other: "half s r m \<Longrightarrow> record_id q \<noteq> record_id r \<Longrightarrow> save_call ops q n s flt = (res, s') \<Longrightarrow> half s' r m"
    and save_load: "sound \<Longrightarrow> half s r n \<Longrightarrow> save_call ops r n s flt = (Inr True, s') \<Longrightarrow>
      load_run ops s' NoFault (record_id r) = Inr (Some r)"
    and save_other: "save_call ops q n s flt = (res, s') \<Longrightarrow> k \<noteq> record_id q \<Longrightarrow>
      load_run ops s' NoFault k = load_run ops s NoFault k"
    and save_unfinished: "save_call ops q n s flt = (res, s') \<Longrightarrow> res \<noteq> Inr True \<Longrightarrow>
      load_run ops s' NoFault k = load_run ops s NoFault k"
    and load_fault: "load_run ops s flt k = load_run ops s NoFault k \<or> (\<exists>e. load_run ops s flt k = Inl e)"

text \<open>
  \<open>FileResultStore\<close>: \<open>root/<id>.json\<close> holds the record, \<open>root/.<id>.tmp\<close> is the temporary file.
  A failing write leaves some prefix of the bytes in the temporary file.
\<close>

datatype store_file = RunFile uuid | TempFile uuid

type_synonym store_fs = "store_file \<Rightarrow> bytes option"

record record_codec =
  record_to_json :: "run_record \<Rightarrow> string + bytes"
  record_from_json :: "bytes \<Rightarrow> string + run_record"

definition record_codec_ok :: "record_codec \<Rightarrow> bool" where
  "record_codec_ok c \<longleftrightarrow> (\<forall>r b. record_to_json c r = Inr b \<longrightarrow> record_from_json c b = Inr r)"

definition file_load ::
  "record_codec \<Rightarrow> store_fs \<Rightarrow> store_fault \<Rightarrow> uuid \<Rightarrow> string + run_record option" where
  "file_load c fs flt k =
     (if flt = ReadFault then Inl ''read failed''
      else case fs (RunFile k) of
          None \<Rightarrow> Inr None
        | Some b \<Rightarrow> (case record_from_json c b of Inl e \<Rightarrow> Inl e | Inr r \<Rightarrow> Inr (Some r)))"

text \<open>
  The three calls of a save: the temporary file is written, its mode is set, it is renamed.  The
  temporary file of a run has one name, so two saves of the same run use the same file.
\<close>

definition file_save ::
  "record_codec \<Rightarrow> run_record \<Rightarrow> nat \<Rightarrow> store_fs \<Rightarrow> store_fault \<Rightarrow> (string + bool) \<times> store_fs" where
  "file_save c r n fs flt =
     (let temporary = TempFile (record_id r) in
      case record_to_json c r of
        Inl e \<Rightarrow> (Inl e, fs)
      | Inr b \<Rightarrow>
          if n = 0 then
            (case flt of
               WriteFault m \<Rightarrow> (Inl ''write failed'', fs(temporary \<mapsto> take m b))
             | _ \<Rightarrow> (Inr False, fs(temporary \<mapsto> b)))
          else if n = 1 then
            (if flt = PermissionFault \<or> fs temporary = None then (Inl ''permissions failed'', fs) else (Inr False, fs))
          else
            (case fs temporary of
               None \<Rightarrow> (Inl ''rename failed'', fs)
             | Some written \<Rightarrow>
                 if flt = RenameFault then (Inl ''rename failed'', fs)
                 else (Inr True, fs(temporary := None, RunFile (record_id r) \<mapsto> written))))"

definition file_ops :: "record_codec \<Rightarrow> store_fs store_ops" where
  "file_ops c = \<lparr>load_run = file_load c, save_call = file_save c\<rparr>"

section \<open>The service\<close>

record active_run =
  run_request :: execution_request
  run_cancel :: bool

datatype task =
    Loaded execution_request
  | Running execution_request int
  | Saving run_record nat

record 's runner_service =
  svc_store :: 's
  active_runs :: "(uuid \<times> active_run) list"
  tasks :: "(nat \<times> task) list"

datatype response_body =
    RespPong
  | RespFinished run_record
  | RespStatus "run_record option"
  | CancelAcknowledged bool
  | Rejected error_code string

definition store_error_text :: "string \<Rightarrow> string" where
  "store_error_text e = ''result persistence failed: '' @ e"

text \<open>Up to the insertion into the active table: validation and the first load.\<close>

definition execute_submit ::
  "'s store_ops \<Rightarrow> nat \<Rightarrow> store_fault \<Rightarrow> execution_request \<Rightarrow> 's runner_service \<Rightarrow> response_body option \<times> 's runner_service" where
  "execute_submit ops tid flt x sv =
     (case execution_validate x of
        Inl err \<Rightarrow> (Some (Rejected CodeInvalidExecution (validation_error_text err)), sv)
      | Inr _ \<Rightarrow>
          (case load_run ops (svc_store sv) flt (run_id x) of
             Inl e \<Rightarrow> (Some (Rejected CodePersistenceFailed (store_error_text e)), sv)
           | Inr (Some r) \<Rightarrow>
               if rec_request r = x then (Some (RespFinished r), sv)
               else (Some (Rejected CodeIdempotencyConflict
                 ''run ID is already bound to a different execution''), sv)
           | Inr None \<Rightarrow> (None, sv\<lparr>tasks := hput tid (Loaded x) (tasks sv)\<rparr>)))"

definition execute_admit :: "nat \<Rightarrow> int \<Rightarrow> 's runner_service \<Rightarrow> response_body option \<times> 's runner_service" where
  "execute_admit tid now sv =
     (case hget (tasks sv) tid of
        Some (Loaded x) \<Rightarrow>
          (case hget (active_runs sv) (run_id x) of
             Some existing \<Rightarrow>
               (Some (Rejected CodeIdempotencyConflict
                  (if run_request existing = x then ''run is already active''
                   else ''run ID is active with a different execution'')),
                sv\<lparr>tasks := hdel tid (tasks sv)\<rparr>)
           | None \<Rightarrow>
               (None, sv\<lparr>active_runs := hput (run_id x) \<lparr>run_request = x, run_cancel = False\<rparr> (active_runs sv),
                        tasks := hput tid (Running x now) (tasks sv)\<rparr>))
      | _ \<Rightarrow> (None, sv))"

text \<open>
  The biased \<open>select!\<close>: a requested cancellation wins over the backend, and without one the run
  is not cancelled.  The run then leaves the active table, and its record is built.
\<close>

definition execute_complete :: "nat \<Rightarrow> run_outcome \<Rightarrow> int \<Rightarrow> 's runner_service \<Rightarrow> response_body option \<times> 's runner_service" where
  "execute_complete tid out now sv =
     (case hget (tasks sv) tid of
        Some (Running x started) \<Rightarrow>
          (let flag = (case hget (active_runs sv) (run_id x) of Some a \<Rightarrow> run_cancel a | None \<Rightarrow> False) in
           if \<not> flag \<and> out = OutcomeCancelled then (None, sv)
           else (None, sv\<lparr>active_runs := hdel (run_id x) (active_runs sv),
                  tasks := hput tid (Saving (build_record x started now
                     (if flag then OutcomeCancelled else out)) 0) (tasks sv)\<rparr>))
      | _ \<Rightarrow> (None, sv))"

text \<open>The next call of a save.\<close>

definition execute_save :: "'s store_ops \<Rightarrow> nat \<Rightarrow> store_fault \<Rightarrow> 's runner_service \<Rightarrow> response_body option \<times> 's runner_service" where
  "execute_save ops tid flt sv =
     (case hget (tasks sv) tid of
        Some (Saving r n) \<Rightarrow>
          (case save_call ops r n (svc_store sv) flt of
             (Inl e, s) \<Rightarrow> (Some (Rejected CodePersistenceFailed (store_error_text e)),
                sv\<lparr>svc_store := s, tasks := hdel tid (tasks sv)\<rparr>)
           | (Inr False, s) \<Rightarrow> (None, sv\<lparr>svc_store := s, tasks := hput tid (Saving r (Suc n)) (tasks sv)\<rparr>)
           | (Inr True, s) \<Rightarrow> (Some (RespFinished r), sv\<lparr>svc_store := s, tasks := hdel tid (tasks sv)\<rparr>))
      | _ \<Rightarrow> (None, sv))"

definition cancel_run :: "'s store_ops \<Rightarrow> store_fault \<Rightarrow> uuid \<Rightarrow> 's runner_service \<Rightarrow> response_body option \<times> 's runner_service" where
  "cancel_run ops flt k sv =
     (case hget (active_runs sv) k of
        Some a \<Rightarrow> (Some (CancelAcknowledged False),
          sv\<lparr>active_runs := hput k (a\<lparr>run_cancel := True\<rparr>) (active_runs sv)\<rparr>)
      | None \<Rightarrow>
          (case load_run ops (svc_store sv) flt k of
             Inr (Some _) \<Rightarrow> (Some (CancelAcknowledged True), sv)
           | Inr None \<Rightarrow> (Some (Rejected CodeNotFound ''run was not found''), sv)
           | Inl e \<Rightarrow> (Some (Rejected CodePersistenceFailed (store_error_text e)), sv)))"

definition inspect_run :: "'s store_ops \<Rightarrow> store_fault \<Rightarrow> uuid \<Rightarrow> 's runner_service \<Rightarrow> response_body option \<times> 's runner_service" where
  "inspect_run ops flt k sv =
     (case load_run ops (svc_store sv) flt k of
        Inr r \<Rightarrow> (Some (RespStatus r), sv)
      | Inl e \<Rightarrow> (Some (Rejected CodePersistenceFailed (store_error_text e)), sv))"

datatype svc_event =
    Submit nat store_fault execution_request
  | Admit nat int
  | Complete nat run_outcome int
  | Save nat store_fault
  | CancelCommand store_fault uuid
  | InspectCommand store_fault uuid

definition svc_step :: "'s store_ops \<Rightarrow> 's runner_service \<Rightarrow> svc_event \<Rightarrow> response_body option \<times> 's runner_service" where
  "svc_step ops sv ev =
     (case ev of
        Submit tid flt x \<Rightarrow>
          if hget (tasks sv) tid = None then execute_submit ops tid flt x sv else (None, sv)
      | Admit tid now \<Rightarrow> execute_admit tid now sv
      | Complete tid out now \<Rightarrow> execute_complete tid out now sv
      | Save tid flt \<Rightarrow> execute_save ops tid flt sv
      | CancelCommand flt k \<Rightarrow> cancel_run ops flt k sv
      | InspectCommand flt k \<Rightarrow> inspect_run ops flt k sv)"

text \<open>\<open>handle\<close>: authentication first, then the command; \<open>execute\<close> starts a task.\<close>

definition handle ::
  "crypto \<Rightarrow> bytes \<Rightarrow> 's store_ops \<Rightarrow> signed_envelope \<Rightarrow> int \<Rightarrow> nat \<Rightarrow> store_fault
     \<Rightarrow> nonces \<times> 's runner_service \<Rightarrow> response_body option \<times> nonces \<times> 's runner_service" where
  "handle c key ops e now tid flt st =
     (let (seen, sv) = st in
      case verify c key seen e now of
        (Inl err, seen') \<Rightarrow> (Some (Rejected (protocol_error_code err) (protocol_error_text err)), seen', sv)
      | (Inr cmd, seen') \<Rightarrow>
          (case cmd of
             RunnerPing \<Rightarrow> (Some RespPong, seen', sv)
           | Inspect k \<Rightarrow> (let (r, sv') = svc_step ops sv (InspectCommand flt k) in (r, seen', sv'))
           | CancelRun k \<Rightarrow> (let (r, sv') = svc_step ops sv (CancelCommand flt k) in (r, seen', sv'))
           | Execute x \<Rightarrow> (let (r, sv') = svc_step ops sv (Submit tid flt x) in (r, seen', sv'))))"

section \<open>The file store is a result store\<close>

definition file_half :: "record_codec \<Rightarrow> store_fs \<Rightarrow> run_record \<Rightarrow> nat \<Rightarrow> bool" where
  "file_half c fs r n \<longleftrightarrow> n = 0 \<or> (\<exists>b. record_to_json c r = Inr b \<and> fs (TempFile (record_id r)) = Some b)"

lemmas file_store_defs = file_ops_def file_save_def file_load_def file_half_def Let_def

lemmas file_store_splits = sum.splits store_fault.splits option.splits if_splits

interpretation file_store: result_store "file_ops c" "record_codec_ok c" "file_half c" for c
proof unfold_locales
  show "file_half c s r 0" for s r by (simp add: file_half_def)
  show "file_half c s' r (Suc n)" if "file_half c s r n" "save_call (file_ops c) r n s flt = (Inr False, s')" for s r n flt s'
    using that by (auto simp: file_store_defs split: file_store_splits)
  show "file_half c s' r m"
    if "file_half c s r m" "record_id q \<noteq> record_id r" "save_call (file_ops c) q n s flt = (res, s')" for s r m q n flt res s'
    using that by (auto simp: file_store_defs split: file_store_splits)
  show "load_run (file_ops c) s' NoFault (record_id r) = Inr (Some r)"
    if "record_codec_ok c" "file_half c s r n" "save_call (file_ops c) r n s flt = (Inr True, s')" for s r n flt s'
    using that by (auto simp: file_store_defs record_codec_ok_def split: file_store_splits)
  show "load_run (file_ops c) s' NoFault k = load_run (file_ops c) s NoFault k"
    if "save_call (file_ops c) q n s flt = (res, s')" "k \<noteq> record_id q" for q n s flt res s' k
    using that by (auto simp: file_store_defs split: file_store_splits)
  show "load_run (file_ops c) s' NoFault k = load_run (file_ops c) s NoFault k"
    if "save_call (file_ops c) q n s flt = (res, s')" "res \<noteq> Inr True" for q n s flt res s' k
    using that by (auto simp: file_store_defs split: file_store_splits)
  show "load_run (file_ops c) s flt k = load_run (file_ops c) s NoFault k
      \<or> (\<exists>e. load_run (file_ops c) s flt k = Inl e)" for s flt k
    by (auto simp: file_ops_def file_load_def)
qed

section \<open>Active runs are the running tasks\<close>

definition task_request :: "task \<Rightarrow> execution_request" where
  "task_request t = (case t of Loaded x \<Rightarrow> x | Running x n \<Rightarrow> x | Saving r n \<Rightarrow> rec_request r)"

definition running :: "(nat \<times> task) list \<Rightarrow> nat \<Rightarrow> execution_request \<Rightarrow> bool" where
  "running ts tid x \<longleftrightarrow> (\<exists>n. hget ts tid = Some (Running x n))"

definition runs_ok :: "(uuid \<times> active_run) list \<Rightarrow> (nat \<times> task) list \<Rightarrow> bool" where
  "runs_ok act ts \<longleftrightarrow> hmap_ok act \<and> hmap_ok ts
     \<and> (\<forall>k a. hget act k = Some a \<longrightarrow> run_id (run_request a) = k \<and> (\<exists>tid. running ts tid (run_request a)))
     \<and> (\<forall>tid x. running ts tid x \<longrightarrow> (\<exists>a. hget act (run_id x) = Some a \<and> run_request a = x))
     \<and> (\<forall>t u x y. running ts t x \<and> running ts u y \<and> run_id x = run_id y \<longrightarrow> t = u)
     \<and> (\<forall>tid t. hget ts tid = Some t \<longrightarrow> execution_validate (task_request t) = Inr ())"

definition svc_ok :: "'s runner_service \<Rightarrow> bool" where
  "svc_ok sv \<longleftrightarrow> runs_ok (active_runs sv) (tasks sv)"

definition svc_init :: "'s \<Rightarrow> 's runner_service" where
  "svc_init s = \<lparr>svc_store = s, active_runs = [], tasks = []\<rparr>"

lemma runs_okI:
  assumes "hmap_ok act" and "hmap_ok ts"
    and "\<And>k a. hget act k = Some a \<Longrightarrow> run_id (run_request a) = k \<and> (\<exists>tid. running ts tid (run_request a))"
    and "\<And>tid x. running ts tid x \<Longrightarrow> \<exists>a. hget act (run_id x) = Some a \<and> run_request a = x"
    and "\<And>t u x y. running ts t x \<Longrightarrow> running ts u y \<Longrightarrow> run_id x = run_id y \<Longrightarrow> t = u"
    and "\<And>tid t. hget ts tid = Some t \<Longrightarrow> execution_validate (task_request t) = Inr ()"
  shows "runs_ok act ts"
  unfolding runs_ok_def using assms by (intro conjI allI impI) (blast+)

lemma runs_okD:
  assumes "runs_ok act ts"
  shows runs_maps: "hmap_ok act" "hmap_ok ts"
    and runs_active: "hget act k = Some a \<Longrightarrow> run_id (run_request a) = k \<and> (\<exists>tid. running ts tid (run_request a))"
    and runs_running: "running ts tid x \<Longrightarrow> \<exists>a. hget act (run_id x) = Some a \<and> run_request a = x"
    and runs_unique: "running ts t x \<Longrightarrow> running ts u y \<Longrightarrow> run_id x = run_id y \<Longrightarrow> t = u"
    and runs_valid: "hget ts tid = Some tk \<Longrightarrow> execution_validate (task_request tk) = Inr ()"
  using assms unfolding runs_ok_def by (blast+)

lemma running_put [simp]:
  "running (hput tid t m) u y \<longleftrightarrow> (if u = tid then (\<exists>n. t = Running y n) else running m u y)"
  by (auto simp: running_def hmap_simps)

lemma running_del [simp]: "running (hdel tid m) u y \<longleftrightarrow> u \<noteq> tid \<and> running m u y"
  by (auto simp: running_def hmap_simps)

lemma running_task: "hget ts tid = Some (Running x n) \<Longrightarrow> running ts tid y \<longleftrightarrow> y = x"
  by (auto simp: running_def)

lemma runs_put:
  assumes ok: "runs_ok act ts" and nr: "\<And>y. \<not> running ts tid y" and t: "\<And>x n. t \<noteq> Running x n"
    and valid: "execution_validate (task_request t) = Inr ()"
  shows "runs_ok act (hput tid t ts)"
proof -
  have run: "running (hput tid t ts) u y \<longleftrightarrow> running ts u y" for u y
    using nr t by auto
  show ?thesis
    using runs_okD [OF ok] valid
    by (intro runs_okI; simp only: run) (auto simp: hmap_simps split: if_splits)
qed

lemma runs_submit:
  assumes "runs_ok act ts" and "hget ts tid = None" and "execution_validate x = Inr ()"
  shows "runs_ok act (hput tid (Loaded x) ts)"
  using assms by (intro runs_put) (auto simp: running_def task_request_def)

lemma runs_progress:
  assumes "runs_ok act ts" and "hget ts tid = Some (Saving r n)"
  shows "runs_ok act (hput tid (Saving r m) ts)"
  using assms runs_valid [OF assms(1,2)] by (intro runs_put) (auto simp: running_def task_request_def)

lemma runs_drop:
  assumes ok: "runs_ok act ts" and nr: "\<And>y. \<not> running ts tid y"
  shows "runs_ok act (hdel tid ts)"
proof -
  have run: "running (hdel tid ts) u y \<longleftrightarrow> running ts u y" for u y
    using nr by auto
  show ?thesis
    using runs_okD [OF ok] by (intro runs_okI; simp only: run) (auto simp: hmap_simps split: if_splits)
qed

lemma runs_admit:
  assumes ok: "runs_ok act ts" and x: "hget ts tid = Some (Loaded x)" and none: "hget act (run_id x) = None"
  shows "runs_ok (hput (run_id x) \<lparr>run_request = x, run_cancel = False\<rparr> act) (hput tid (Running x now) ts)"
proof (rule runs_okI)
  have nr: "\<not> running ts tid y" for y using x by (simp add: running_def)
  have other: "run_id y \<noteq> run_id x" if "running ts u y" for u y
    using runs_running [OF ok that] none by auto
  fix k a assume a: "hget (hput (run_id x) \<lparr>run_request = x, run_cancel = False\<rparr> act) k = Some a"
  show "run_id (run_request a) = k \<and> (\<exists>t. running (hput tid (Running x now) ts) t (run_request a))"
  proof (cases "k = run_id x")
    case True
    with a show ?thesis by (auto simp: hmap_simps)
  next
    case False
    with a have "hget act k = Some a" by (simp add: hmap_simps)
    then obtain t where "run_id (run_request a) = k" "running ts t (run_request a)"
      using runs_active [OF ok] by blast
    with nr show ?thesis by (metis running_put)
  qed
next
  fix t y assume "running (hput tid (Running x now) ts) t y"
  then have "y = x \<or> running ts t y \<and> run_id y \<noteq> run_id x"
    using runs_running [OF ok, of t y] none by (auto split: if_splits)
  then show "\<exists>a. hget (hput (run_id x) \<lparr>run_request = x, run_cancel = False\<rparr> act) (run_id y) = Some a \<and> run_request a = y"
    using runs_running [OF ok, of t y] by (auto simp: hmap_simps)
next
  fix t u y z
  assume "running (hput tid (Running x now) ts) t y" "running (hput tid (Running x now) ts) u z" "run_id y = run_id z"
  then show "t = u"
    using runs_unique [OF ok, of t y u z] runs_running [OF ok, of t y] runs_running [OF ok, of u z] none
    by (auto split: if_splits)
next
  fix t tk assume "hget (hput tid (Running x now) ts) t = Some tk"
  then show "execution_validate (task_request tk) = Inr ()"
    using runs_valid [OF ok, of t tk] runs_valid [OF ok x] by (auto simp: hmap_simps task_request_def split: if_splits)
qed (use runs_maps [OF ok] in \<open>simp_all add: hmap_simps\<close>)

lemma runs_complete:
  assumes ok: "runs_ok act ts" and x: "hget ts tid = Some (Running x n)" and r: "rec_request r = x"
  shows "runs_ok (hdel (run_id x) act) (hput tid (Saving r 0) ts)"
proof (rule runs_okI)
  have here: "running ts tid x" using x by (auto simp: running_def)
  fix k a assume "hget (hdel (run_id x) act) k = Some a"
  then have a: "hget act k = Some a" "k \<noteq> run_id x" by (auto simp: hmap_simps split: if_splits)
  then obtain t where t: "run_id (run_request a) = k" "running ts t (run_request a)"
    using runs_active [OF ok] by blast
  with a running_task [OF x] have "t \<noteq> tid" by auto
  with t show "run_id (run_request a) = k \<and> (\<exists>t. running (hput tid (Saving r 0) ts) t (run_request a))" by auto
next
  fix t y assume "running (hput tid (Saving r 0) ts) t y"
  then have y: "t \<noteq> tid" "running ts t y" by (auto split: if_splits)
  have "running ts tid x" using x by (auto simp: running_def)
  then have "run_id y \<noteq> run_id x" using runs_unique [OF ok, of t y tid x] y by auto
  with runs_running [OF ok y(2)]
  show "\<exists>a. hget (hdel (run_id x) act) (run_id y) = Some a \<and> run_request a = y" by (auto simp: hmap_simps)
next
  fix t u y z
  assume "running (hput tid (Saving r 0) ts) t y" "running (hput tid (Saving r 0) ts) u z" "run_id y = run_id z"
  then show "t = u" using runs_unique [OF ok, of t y u z] by (auto split: if_splits)
next
  fix t tk assume "hget (hput tid (Saving r 0) ts) t = Some tk"
  then show "execution_validate (task_request tk) = Inr ()"
    using runs_valid [OF ok, of t tk] runs_valid [OF ok x] r by (auto simp: hmap_simps task_request_def split: if_splits)
qed (use runs_maps [OF ok] in \<open>simp_all add: hmap_simps\<close>)

lemma runs_cancel:
  assumes ok: "runs_ok act ts" and a: "hget act k = Some a"
  shows "runs_ok (hput k (a\<lparr>run_cancel := True\<rparr>) act) ts"
proof (rule runs_okI)
  fix j b assume "hget (hput k (a\<lparr>run_cancel := True\<rparr>) act) j = Some b"
  then show "run_id (run_request b) = j \<and> (\<exists>t. running ts t (run_request b))"
    using runs_active [OF ok, of j] runs_active [OF ok a] by (auto simp: hmap_simps split: if_splits)
next
  fix t y assume "running ts t y"
  from runs_running [OF ok this] a
  show "\<exists>b. hget (hput k (a\<lparr>run_cancel := True\<rparr>) act) (run_id y) = Some b \<and> run_request b = y"
    by (auto simp: hmap_simps)
qed (use runs_maps [OF ok] runs_unique [OF ok] runs_valid [OF ok] in \<open>auto simp: hmap_simps\<close>)

lemma rec_request_build [simp]: "rec_request (build_record x n now out) = x"
  by (simp add: build_record_def Let_def split: prod.splits)

lemma svc_step_ok:
  assumes "svc_ok sv"
  shows "svc_ok (snd (svc_step ops sv ev))"
proof -
  have ok: "runs_ok (active_runs sv) (tasks sv)" using assms by (simp add: svc_ok_def)
  have drop: "runs_ok (active_runs sv) (hdel tid (tasks sv))"
    if "hget (tasks sv) tid = Some t" "\<And>x n. t \<noteq> Running x n" for tid t
    using that by (intro runs_drop [OF ok]) (simp add: running_def)
  show ?thesis
    unfolding svc_ok_def
    by (cases ev)
       (auto simp: svc_step_def execute_submit_def execute_admit_def execute_complete_def
          execute_save_def cancel_run_def inspect_run_def Let_def ok
          intro: runs_submit [OF ok] runs_progress [OF ok] runs_admit [OF ok] runs_complete [OF ok] runs_cancel [OF ok] drop
          split: option.splits sum.splits task.splits prod.splits bool.splits)
qed

interpretation runner: guarded_machine "svc_step ops" "svc_init s" svc_ok for ops s
proof unfold_locales
  show "svc_ok (svc_init s)"
    unfolding svc_ok_def svc_init_def by (rule runs_okI) (simp_all add: running_def hmap_simps)
  show "svc_ok sv \<Longrightarrow> svc_ok (snd (svc_step ops sv e))" for sv e by (rule svc_step_ok)
qed

text \<open>
  In every interleaving of executions, cancellations and store faults, a run id is active
  exactly while one task runs it: the active table lists the running tasks with their requests, two
  tasks never run the same run id at once, and every task was validated.
\<close>

theorem one_active_task_per_run:
  "let sv = run_steps (svc_step ops) (svc_init s) evs in
     (\<forall>k x. map_option run_request (hget (active_runs sv) k) = Some x
         \<longleftrightarrow> run_id x = k \<and> (\<exists>tid. running (tasks sv) tid x))
     \<and> (\<forall>k. \<exists>tid. {t. \<exists>x. running (tasks sv) t x \<and> run_id x = k} \<subseteq> {tid})
     \<and> {t. \<exists>tid. hget (tasks sv) tid = Some t} \<subseteq> {t. execution_validate (task_request t) = Inr ()}"
proof -
  let ?sv = "run_steps (svc_step ops) (svc_init s) evs"
  have "svc_ok ?sv" by (rule runner.inv_reachable)
  then have ok: "runs_ok (active_runs ?sv) (tasks ?sv)" by (simp add: svc_ok_def)
  have "map_option run_request (hget (active_runs ?sv) k) = Some x
         \<longleftrightarrow> run_id x = k \<and> (\<exists>tid. running (tasks ?sv) tid x)" for k x
    using runs_active [OF ok, of k] runs_running [OF ok, of _ x] by auto
  moreover have "\<exists>tid. {t. \<exists>x. running (tasks ?sv) t x \<and> run_id x = k} \<subseteq> {tid}" for k
    using runs_unique [OF ok] by blast
  moreover have "{t. \<exists>tid. hget (tasks ?sv) tid = Some t} \<subseteq> {t. execution_validate (task_request t) = Inr ()}"
    using runs_valid [OF ok] by blast
  ultimately show ?thesis by (simp add: Let_def)
qed

section \<open>A stored run is final\<close>

definition idle :: "(nat \<times> task) list \<Rightarrow> uuid \<Rightarrow> bool" where
  "idle ts k \<longleftrightarrow> (\<forall>tid t. hget ts tid = Some t \<longrightarrow> run_id (task_request t) \<noteq> k)"

lemma idle_put: "idle (hput tid t ts) k \<Longrightarrow> run_id (task_request t) \<noteq> k"
  by (auto simp: idle_def hmap_simps dest: spec [of _ tid])

lemma idle_simps:
  "idle ts k \<Longrightarrow> run_id (task_request t) \<noteq> k \<Longrightarrow> idle (hput tid t ts) k"
  "idle ts k \<Longrightarrow> idle (hdel tid ts) k"
  by (auto simp: idle_def hmap_simps split: if_splits)

lemma idle_task: "idle ts k \<Longrightarrow> hget ts tid = Some t \<Longrightarrow> run_id (task_request t) \<noteq> k"
  by (simp add: idle_def)

text \<open>The record of run \<open>k\<close> is stored and no task for it is in flight.\<close>

definition settled :: "'s store_ops \<Rightarrow> 's runner_service \<Rightarrow> uuid \<Rightarrow> run_record \<Rightarrow> bool" where
  "settled ops sv k r \<longleftrightarrow> load_run ops (svc_store sv) NoFault k = Inr (Some r) \<and> idle (tasks sv) k"

context result_store
begin

lemma settled_load: "settled ops sv k r \<Longrightarrow> load_run ops (svc_store sv) flt k \<noteq> Inr None"
  using load_fault [of "svc_store sv" flt k] by (auto simp: settled_def)

lemma settled_submit: "settled ops sv k r \<Longrightarrow> settled ops (snd (execute_submit ops tid flt x sv)) k r"
  using settled_load [of sv k r flt]
  by (cases "run_id x = k")
     (auto simp: execute_submit_def settled_def task_request_def intro!: idle_simps split: sum.splits option.splits)

lemma settled_admit: "settled ops sv k r \<Longrightarrow> settled ops (snd (execute_admit tid now sv)) k r"
  by (auto simp: execute_admit_def settled_def task_request_def dest: idle_task intro!: idle_simps
      split: option.splits task.splits)

lemma settled_complete: "settled ops sv k r \<Longrightarrow> settled ops (snd (execute_complete tid out now sv)) k r"
  by (auto simp: execute_complete_def settled_def task_request_def Let_def dest: idle_task intro!: idle_simps
      split: option.splits task.splits)

lemma settled_save: "settled ops sv k r \<Longrightarrow> settled ops (snd (execute_save ops tid flt sv)) k r"
proof (cases "\<exists>q n. hget (tasks sv) tid = Some (Saving q n)")
  case True
  assume st: "settled ops sv k r"
  from True obtain q n where q: "hget (tasks sv) tid = Some (Saving q n)" by blast
  have "k \<noteq> record_id q"
    using idle_task [OF _ q, of k] st by (auto simp: settled_def task_request_def record_id_def)
  with st q show ?thesis
    by (auto simp: execute_save_def settled_def save_other task_request_def record_id_def intro!: idle_simps
        split: prod.splits sum.splits bool.splits)
qed (auto simp: execute_save_def split: option.splits task.splits)

lemma settled_cancel: "settled ops sv k r \<Longrightarrow> settled ops (snd (cancel_run ops flt j sv)) k r"
  by (auto simp: cancel_run_def settled_def split: sum.splits option.splits)

lemma settled_inspect: "settled ops sv k r \<Longrightarrow> settled ops (snd (inspect_run ops flt j sv)) k r"
  by (auto simp: inspect_run_def split: sum.splits)

lemma settled_step: "settled ops sv k r \<Longrightarrow> settled ops (snd (svc_step ops sv ev)) k r"
  by (cases ev)
     (simp_all add: svc_step_def settled_submit settled_admit settled_complete settled_save
        settled_cancel settled_inspect)

lemma settled_run: "settled ops sv k r \<Longrightarrow> settled ops (run_steps (svc_step ops) sv evs) k r"
  by (induction evs arbitrary: sv) (auto intro: settled_step)

lemma settled_answer:
  assumes "settled ops sv k r" and "run_id x = k" and "execution_validate x = Inr ()" and "hget (tasks sv) tid = None"
  shows "svc_step ops sv (Submit tid NoFault x) =
     (Some (if rec_request r = x then RespFinished r
            else Rejected CodeIdempotencyConflict ''run ID is already bound to a different execution''), sv)"
  using assms by (simp add: svc_step_def execute_submit_def settled_def)

text \<open>The record \<open>r\<close> is being saved by task \<open>tid\<close> and no other task for its run is in flight.\<close>

definition being_saved :: "'s runner_service \<Rightarrow> nat \<Rightarrow> run_record \<Rightarrow> bool" where
  "being_saved sv tid r \<longleftrightarrow> (\<exists>n. hget (tasks sv) tid = Some (Saving r n) \<and> half (svc_store sv) r n)
     \<and> idle (hdel tid (tasks sv)) (record_id r)"

lemma saved_save:
  assumes "being_saved sv tid r"
  shows "being_saved (snd (execute_save ops t flt sv)) tid r \<or> idle (tasks (snd (execute_save ops t flt sv))) (record_id r)"
proof (cases "\<exists>q m. hget (tasks sv) t = Some (Saving q m)")
  case True
  from assms obtain n where n: "hget (tasks sv) tid = Some (Saving r n)" "half (svc_store sv) r n"
    and i: "idle (hdel tid (tasks sv)) (record_id r)" by (auto simp: being_saved_def)
  from True obtain q m where q: "hget (tasks sv) t = Some (Saving q m)" by blast
  obtain y s' where c: "save_call ops q m (svc_store sv) flt = (y, s')" by fastforce
  show ?thesis
  proof (cases "t = tid")
    case True
    with n q have "q = r" "m = n" by auto
    with n q c i True half_step [OF n(2), of flt s'] show ?thesis
      by (auto simp: execute_save_def being_saved_def hmap_simps idle_def split: sum.splits bool.splits if_splits)
  next
    case False
    with i q have d: "record_id q \<noteq> record_id r"
      by (auto simp: idle_def hmap_simps task_request_def record_id_def dest: spec [of _ t])
    from half_other [OF n(2) d c] n q c i d False show ?thesis
      by (auto simp: execute_save_def being_saved_def hmap_simps idle_def task_request_def record_id_def
          split: sum.splits bool.splits if_splits)
  qed
qed (use assms in \<open>auto simp: execute_save_def split: option.splits task.splits\<close>)

end

text \<open>An execution of the run id is started.\<close>

definition starts_run :: "uuid \<Rightarrow> svc_event \<Rightarrow> bool" where
  "starts_run k ev = (case ev of Submit tid flt x \<Rightarrow> run_id x = k | _ \<Rightarrow> False)"

context result_store
begin

lemma idle_step:
  assumes "idle (tasks sv) k" and "\<not> starts_run k ev"
  shows "idle (tasks (snd (svc_step ops sv ev))) k"
  using assms
  by (cases ev)
     (auto simp: svc_step_def execute_submit_def execute_admit_def execute_complete_def execute_save_def cancel_run_def
       inspect_run_def starts_run_def task_request_def Let_def dest: idle_task intro!: idle_simps
       split: option.splits sum.splits task.splits prod.splits bool.splits)

lemma saved_other:
  assumes "being_saved sv tid r" and "hget (tasks sv) t = Some u" and "\<And>q n. u \<noteq> Saving q n"
  shows "t \<noteq> tid" and "run_id (task_request u) \<noteq> record_id r"
proof -
  show "t \<noteq> tid" using assms unfolding being_saved_def by (metis option.inject)
  with assms(1,2) show "run_id (task_request u) \<noteq> record_id r"
    using idle_task [of "hdel tid (tasks sv)" "record_id r" t u] by (simp add: being_saved_def hmap_simps)
qed

lemma saved_put:
  assumes "being_saved sv tid r" and "t \<noteq> tid" and "run_id (task_request u) \<noteq> record_id r"
  shows "being_saved (sv\<lparr>active_runs := act, tasks := hput t u (tasks sv)\<rparr>) tid r"
    and "being_saved (sv\<lparr>tasks := hput t u (tasks sv)\<rparr>) tid r"
  using assms by (auto simp: being_saved_def idle_def hmap_simps split: if_splits)

lemma saved_del:
  assumes "being_saved sv tid r" and "t \<noteq> tid"
  shows "being_saved (sv\<lparr>tasks := hdel t (tasks sv)\<rparr>) tid r"
  using assms by (auto simp: being_saved_def idle_def hmap_simps split: if_splits)

lemma saved_same: "being_saved sv tid r \<Longrightarrow> being_saved (sv\<lparr>active_runs := act\<rparr>) tid r"
  by (simp add: being_saved_def)

lemma saved_admit: "being_saved sv tid r \<Longrightarrow> being_saved (snd (execute_admit t now sv)) tid r"
proof (cases "\<exists>x. hget (tasks sv) t = Some (Loaded x)")
  case True
  assume b: "being_saved sv tid r"
  from True obtain x where x: "hget (tasks sv) t = Some (Loaded x)" by blast
  with saved_other [OF b x] have "t \<noteq> tid" "run_id x \<noteq> record_id r" by (simp_all add: task_request_def)
  then show ?thesis
    by (auto simp: execute_admit_def x task_request_def saved_del [OF b] saved_put [OF b] split: option.split)
qed (auto simp: execute_admit_def split: option.splits task.splits)

lemma saved_complete: "being_saved sv tid r \<Longrightarrow> being_saved (snd (execute_complete t out now sv)) tid r"
proof (cases "\<exists>x n. hget (tasks sv) t = Some (Running x n)")
  case True
  assume b: "being_saved sv tid r"
  from True obtain x n where x: "hget (tasks sv) t = Some (Running x n)" by blast
  with saved_other [OF b x] have "t \<noteq> tid" "run_id x \<noteq> record_id r" by (simp_all add: task_request_def)
  then show ?thesis
    by (auto simp: execute_complete_def x task_request_def Let_def b saved_put [OF b])
qed (auto simp: execute_complete_def split: option.splits task.splits)

lemma saved_step:
  assumes b: "being_saved sv tid r" and "\<not> starts_run (record_id r) ev"
  shows "being_saved (snd (svc_step ops sv ev)) tid r \<or> idle (tasks (snd (svc_step ops sv ev))) (record_id r)"
proof (cases ev)
  case (Submit t flt x)
  have "t \<noteq> tid" if "hget (tasks sv) t = None" using that b by (auto simp: being_saved_def)
  with Submit assms(2) show ?thesis
    by (auto simp: svc_step_def execute_submit_def starts_run_def task_request_def b saved_put [OF b]
        split: sum.split option.split)
next
  case (CancelCommand flt k)
  then show ?thesis
    by (auto simp: svc_step_def cancel_run_def b saved_same [OF b] split: sum.split option.split)
next
  case (InspectCommand flt k)
  then show ?thesis by (auto simp: svc_step_def inspect_run_def b split: sum.split)
qed (use saved_admit [OF b] saved_complete [OF b] saved_save [OF b] in \<open>simp_all add: svc_step_def\<close>)

lemma saved_run:
  assumes "list_all (\<lambda>ev. \<not> starts_run (record_id r) ev) evs"
  shows "being_saved sv tid r \<Longrightarrow> being_saved (run_steps (svc_step ops) sv evs) tid r
      \<or> idle (tasks (run_steps (svc_step ops) sv evs)) (record_id r)"
    and "idle (tasks sv) (record_id r) \<Longrightarrow> idle (tasks (run_steps (svc_step ops) sv evs)) (record_id r)"
  using assms
proof (induction evs arbitrary: sv)
  case (Cons ev evs)
  {
    case 1
    then show ?case using Cons.IH saved_step [of sv tid r ev] by auto
  next
    case 2
    then show ?case using Cons.IH(2) idle_step [of sv "record_id r" ev] by simp
  }
qed simp_all

lemma save_settles:
  assumes "sound" and "being_saved sv tid r \<or> idle (tasks sv) (record_id r)"
    and "svc_step ops sv (Save tid flt) = (Some (RespFinished r), sv')"
  shows "settled ops sv' (record_id r) r"
proof -
  from assms(3) obtain n where t: "hget (tasks sv) tid = Some (Saving r n)"
    by (auto simp: svc_step_def execute_save_def split: option.splits task.splits prod.splits sum.splits bool.splits)
  then have "\<not> idle (tasks sv) (record_id r)" using idle_task by (fastforce simp: task_request_def record_id_def)
  with assms(2) t have "half (svc_store sv) r n" "idle (hdel tid (tasks sv)) (record_id r)" by (auto simp: being_saved_def)
  with t assms(3) save_load [OF assms(1), of "svc_store sv" r n flt] show ?thesis
    by (auto simp: svc_step_def execute_save_def settled_def split: prod.splits sum.splits bool.splits)
qed

end

text \<open>
  C12: a finished run is final: when no other execution of its run id is in flight or started while
  its record is saved, then once that save has answered, whatever else happened between its calls
  and whatever happens afterwards (other runs, cancellations, failing reads and writes, further
  executions of the run id), the stored record stays the same, the same request is answered with
  that record without running again, and a different request with that run id is refused.
\<close>

theorem stored_run_is_final:
  assumes "record_codec_ok c" and "hget (tasks sv) tid = Some (Saving r 0)"
    and "idle (hdel tid (tasks sv)) (record_id r)" and "list_all (\<lambda>ev. \<not> starts_run (record_id r) ev) meanwhile"
    and "svc_step (file_ops c) (run_steps (svc_step (file_ops c)) sv meanwhile) (Save tid flt) = (Some (RespFinished r), sv')"
    and "execution_validate x = Inr ()" and "run_id x = record_id r"
    and "hget (tasks (run_steps (svc_step (file_ops c)) sv' evs)) t = None"
  shows "let sv'' = run_steps (svc_step (file_ops c)) sv' evs in
     file_load c (svc_store sv'') NoFault (record_id r) = Inr (Some r)
     \<and> svc_step (file_ops c) sv'' (Submit t NoFault x) =
        (Some (if rec_request r = x then RespFinished r
            else Rejected CodeIdempotencyConflict ''run ID is already bound to a different execution''), sv'')"
proof -
  let ?sv = "run_steps (svc_step (file_ops c)) sv' evs"
  have "file_store.being_saved c sv tid r"
    using assms(2,3) file_store.half_start by (auto simp: file_store.being_saved_def)
  from file_store.save_settles [OF assms(1) file_store.saved_run(1) [OF assms(4) this] assms(5)]
  have st: "settled (file_ops c) ?sv (record_id r) r" by (rule file_store.settled_run)
  then have "file_load c (svc_store ?sv) NoFault (record_id r) = Inr (Some r)"
    unfolding settled_def by (simp add: file_ops_def)
  with file_store.settled_answer [OF st assms(7,6,8)] show ?thesis by (simp add: Let_def)
qed

text \<open>
  A failed save is harmless: whichever step of it fails, every record that could be read
  before is read the same afterwards, and the caller is told.
\<close>

theorem failed_save_changes_no_record:
  assumes "svc_step (file_ops c) sv (Save tid flt) = (Some (Rejected code msg), sv')"
  shows "file_load c (svc_store sv') NoFault k = file_load c (svc_store sv) NoFault k
     \<and> code = CodePersistenceFailed"
proof -
  obtain r n e where "save_call (file_ops c) r n (svc_store sv) flt = (Inl e, svc_store sv')"
      and code: "code = CodePersistenceFailed"
    using assms by (auto simp: svc_step_def execute_save_def split: option.splits task.splits prod.splits sum.splits bool.splits)
  from file_store.save_unfinished [OF this(1), of k] code show ?thesis by (simp add: file_ops_def)
qed

text \<open>
  The claim of idempotency does not cover overlapping requests: of two requests with the
  same run id that both found no record, the second is admitted as soon as the first has left the
  active table, before its record is saved; it runs too, and its record replaces the first.
\<close>

theorem overlapping_executions_run_twice:
  assumes "execution_validate x = Inr ()" and "execution_validate y = Inr ()" and "run_id y = run_id x"
    and "load_run ops s NoFault (run_id x) = Inr None"
  shows "let sv = run_steps (svc_step ops) (svc_init s)
       [Submit 1 NoFault x, Submit 2 NoFault y, Admit 1 a, Complete 1 (Exited o1) b,
        Admit 2 c, Complete 2 (Exited o2) d]
     in hget (tasks sv) 1 = Some (Saving (build_record x a b (Exited o1)) 0)
      \<and> hget (tasks sv) 2 = Some (Saving (build_record y c d (Exited o2)) 0)"
  using assms
  by (simp add: svc_step_def svc_init_def execute_submit_def execute_admit_def execute_complete_def Let_def)

section \<open>Concretely\<close>

definition sample_run :: "u32 \<Rightarrow> execution_request" where
  "sample_run code = \<lparr>run_id = 1, workspace_id = 2, project_id = 3, revision_sha = replicate 40 (CHR ''a''),
     manifest_digest = ''sha256:'' @ replicate 64 (CHR ''b''),
     resources = \<lparr>cpu_millis = 500, memory_bytes = 67108864, disk_bytes = 1048576, process_limit = 16,
        timeout_seconds = 1, log_bytes = 1024\<rparr>,
     network = DenyAll, repository_write = WriteNone,
     simulation = \<lparr>delay_ms = 0, sim_stdout = ''ok'', sim_stderr = [], sim_exit_code = code\<rparr>\<rparr>"

lemma sample_run_valid: "sint code = 0 \<or> sint code = 1 \<Longrightarrow> execution_validate (sample_run code) = Inr ()"
  by (auto simp: execution_validate_def sample_run_def rbind_Inr_iff validate_revision_iff validate_digest_iff
      hex_of_length_def list_all_iff lower_hex_def ascii_digit_def resources_validate_iff resources_ok_def
      in_range_def network_validate_iff network_ok_def simulation_validate_iff sat_add64_def)

text \<open>A codec for the records of one fixed request, told apart by their status.\<close>

definition sample_record :: run_record where
  "sample_record = build_record (sample_run 0) 10 20 (Exited (simulate (sample_run 0)))"

definition one_codec :: record_codec where
  "one_codec = \<lparr>record_to_json = (\<lambda>r. if r = sample_record then Inr [1] else Inl ''unsupported''),
     record_from_json = (\<lambda>b. if b = [1] then Inr sample_record else Inl ''unsupported'')\<rparr>"

lemma one_codec_ok: "record_codec_ok one_codec"
  by (simp add: record_codec_ok_def one_codec_def)

definition sample_svc :: "store_fs runner_service" where
  "sample_svc = \<lparr>svc_store = (\<lambda>_. None), active_runs = [], tasks = [(1, Saving sample_record 0)]\<rparr>"

lemma sample_ids: "record_id sample_record = 1" "rec_request sample_record = sample_run 0" "run_id (sample_run 0) = 1"
  by (simp_all add: record_id_def sample_record_def sample_run_def)

definition half_saved :: "store_fs runner_service" where
  "half_saved = run_steps (svc_step (file_ops one_codec)) sample_svc [Save 1 NoFault, InspectCommand NoFault 1, Save 1 NoFault]"

lemmas sample_steps = svc_step_def execute_save_def sample_svc_def file_store_defs one_codec_def half_saved_def inspect_run_def

theorem stored_run_is_final_witness:
  "\<exists>sv'. svc_step (file_ops one_codec) half_saved (Save 1 NoFault) = (Some (RespFinished sample_record), sv')
     \<and> svc_step (file_ops one_codec) sv' (Submit 5 NoFault (sample_run 0)) = (Some (RespFinished sample_record), sv')"
proof -
  obtain sv' where save: "svc_step (file_ops one_codec) half_saved (Save 1 NoFault) = (Some (RespFinished sample_record), sv')"
      and ts: "tasks sv' = []"
    by (simp add: sample_steps)
  have task: "hget (tasks sample_svc) 1 = Some (Saving sample_record 0)" by (simp add: sample_svc_def)
  have idle: "idle (hdel 1 (tasks sample_svc)) (record_id sample_record)" by (simp add: idle_def sample_svc_def)
  have none: "list_all (\<lambda>ev. \<not> starts_run (record_id sample_record) ev) [Save 1 NoFault, InspectCommand NoFault 1, Save 1 NoFault]"
    by (simp add: starts_run_def)
  have "svc_step (file_ops one_codec) sv' (Submit 5 NoFault (sample_run 0)) = (Some (RespFinished sample_record), sv')"
    using stored_run_is_final [OF one_codec_ok task idle none save [unfolded half_saved_def], of "sample_run 0" "[]" 5]
    by (simp add: sample_run_valid sample_ids ts)
  with save show ?thesis by blast
qed

theorem failed_save_changes_no_record_witness:
  "\<exists>sv' msg. svc_step (file_ops one_codec) half_saved (Save 1 RenameFault)
       = (Some (Rejected CodePersistenceFailed msg), sv')
     \<and> file_load one_codec (svc_store sv') NoFault 1 = Inr None"
proof -
  obtain sv' msg where save: "svc_step (file_ops one_codec) half_saved (Save 1 RenameFault)
       = (Some (Rejected CodePersistenceFailed msg), sv')"
    by (simp add: sample_steps)
  have "file_load one_codec (svc_store sv') NoFault 1 = file_load one_codec (svc_store half_saved) NoFault 1"
    using failed_save_changes_no_record [OF save] by blast
  moreover have "file_load one_codec (svc_store half_saved) NoFault 1 = Inr None" by (simp add: sample_steps sample_ids)
  ultimately show ?thesis using save by auto
qed

theorem overlapping_executions_run_twice_witness:
  "let sv = run_steps (svc_step (file_ops one_codec)) (svc_init (\<lambda>_. None))
       [Submit 1 NoFault (sample_run 0), Submit 2 NoFault (sample_run 1), Admit 1 10,
        Complete 1 (Exited (simulate (sample_run 0))) 20, Admit 2 30, Complete 2 (Exited (simulate (sample_run 1))) 40]
     in hget (tasks sv) 1 = Some (Saving (build_record (sample_run 0) 10 20 (Exited (simulate (sample_run 0)))) 0)
      \<and> hget (tasks sv) 2 = Some (Saving (build_record (sample_run 1) 30 40 (Exited (simulate (sample_run 1)))) 0)"
  by (rule overlapping_executions_run_twice)
     (simp_all add: sample_run_valid, simp_all add: sample_run_def file_ops_def file_load_def)

end
