(* ===== verification/Tokens.thy ===== *)
theory Tokens
  imports Machines
begin

text \<open>
  \<^verbatim>\<open>crates/c6-cloud-core/src/token.rs\<close>: the four disjoint classes of cloud credentials and the
  parser of the token format \<open>prefix \<^bold>_ public-id \<^bold>_ proof\<close>, with a public identifier of fixed
  width because the separator is itself a base64url character; and the issuer
  \<open>issue_token\<close> of \<^verbatim>\<open>crates/c6-cloud/src/lib.rs\<close>.  A \<open>SecretToken\<close> is a string its parser
  accepted.
\<close>

datatype token_class = Bootstrap | CloudSession | Csrf | Connector

definition all_classes :: "token_class list" where
  "all_classes = [Bootstrap, CloudSession, Csrf, Connector]"

primrec class_prefix :: "token_class \<Rightarrow> string" where
  "class_prefix Bootstrap = ''c6b_v1''"
| "class_prefix CloudSession = ''c6s_v1''"
| "class_prefix Csrf = ''c6f_v1''"
| "class_prefix Connector = ''c6x_v1''"

datatype token_parse_error = UnknownClass | Malformed

definition token_class_from_str :: "string \<Rightarrow> token_parse_error + token_class" where
  "token_class_from_str value =
     ok_or UnknownClass (find (\<lambda>cls. class_prefix cls = value) all_classes)"

record parsed_token =
  token_class :: token_class
  public_id :: string
  proof_text :: string

definition is_base64url :: "string \<Rightarrow> bool" where
  "is_base64url = list_all (\<lambda>b. ascii_alnum b \<or> b = CHR ''-'' \<or> b = CHR ''_'')"

definition max_token_len :: nat where
  "max_token_len = 256"

text \<open>
  The slices \<open>[..16]\<close> and \<open>[17..]\<close> are taken after byte 16 was found to be the ASCII separator,
  so both cuts are on character boundaries.
\<close>

definition parse_token :: "string \<Rightarrow> token_parse_error + parsed_token" where
  "parse_token value =
     (if max_token_len < length value then Inl Malformed
      else
        rbind (ok_or UnknownClass
                (find_map (\<lambda>cls. map_option (\<lambda>rest. (cls, rest)) (strip_prefix (class_prefix cls) value))
                   all_classes))
        (\<lambda>(cls, remainder).
        rbind (ok_or Malformed (strip_prefix ''_'' remainder)) (\<lambda>remainder.
          if \<not> (16 < length remainder \<and> remainder ! 16 = CHR ''_'') then Inl Malformed
          else
            let pid = take 16 remainder; secret = drop 17 remainder in
            if \<not> (32 \<le> length secret \<and> length secret \<le> 128)
               \<or> \<not> is_base64url pid \<or> \<not> is_base64url secret
            then Inl Malformed
            else Inr \<lparr>token_class = cls, public_id = pid, proof_text = secret\<rparr>)))"

section \<open>The format\<close>

definition render_token :: "parsed_token \<Rightarrow> string" where
  "render_token t = class_prefix (token_class t) @ ''_'' @ public_id t @ ''_'' @ proof_text t"

definition token_ok :: "parsed_token \<Rightarrow> bool" where
  "token_ok t \<longleftrightarrow> length (public_id t) = 16 \<and> is_base64url (public_id t)
     \<and> 32 \<le> length (proof_text t) \<and> length (proof_text t) \<le> 128 \<and> is_base64url (proof_text t)"

lemma class_prefix_length [simp]: "length (class_prefix c) = 6"
  by (cases c) simp_all

lemma class_prefix_inject [simp]: "class_prefix c = class_prefix d \<longleftrightarrow> c = d"
  by (cases c; cases d) simp_all

lemma class_prefix_append_eq: "class_prefix c @ r = class_prefix d @ s \<longleftrightarrow> c = d \<and> r = s"
  by (auto simp: append_eq_append_conv)

lemma find_class_iff:
  "find_map (\<lambda>cls. map_option (\<lambda>rest. (cls, rest)) (strip_prefix (class_prefix cls) v)) all_classes
     = Some (c, r) \<longleftrightarrow> v = class_prefix c @ r"
proof -
  have "strip_prefix (class_prefix d) (class_prefix c @ r) = (if d = c then Some r else None)" for d
    by (auto simp: strip_prefix_None prefix_def class_prefix_append_eq)
  then have "find_map (\<lambda>cls. map_option (\<lambda>rest. (cls, rest)) (strip_prefix (class_prefix cls) v))
     all_classes = Some (c, r)" if "v = class_prefix c @ r"
    using that by (cases c) (simp_all add: all_classes_def)
  moreover have "v = class_prefix c @ r" if "find_map (\<lambda>cls. map_option (\<lambda>rest. (cls, rest))
      (strip_prefix (class_prefix cls) v)) all_classes = Some (c, r)"
    using that by (auto simp: all_classes_def split: option.splits)
  ultimately show ?thesis by blast
qed

lemma cut_at_16:
  "16 < length r \<and> r ! 16 = x \<longleftrightarrow> (\<exists>p q. length p = 16 \<and> r = p @ x # q)"
proof
  assume a: "16 < length r \<and> r ! 16 = x"
  then have "r = take 16 r @ x # drop 17 r"
    using id_take_nth_drop [of 16 r] by simp
  with a show "\<exists>p q. length p = 16 \<and> r = p @ x # q"
    by (intro exI [of _ "take 16 r"] exI [of _ "drop 17 r"]) simp
next
  assume "\<exists>p q. length p = 16 \<and> r = p @ x # q"
  then show "16 < length r \<and> r ! 16 = x" by (auto simp: nth_append)
qed

lemma parse_token_iff:
  "parse_token v = Inr t \<longleftrightarrow> v = render_token t \<and> token_ok t"
proof
  assume "parse_token v = Inr t"
  then obtain c r where cr: "v = class_prefix c @ ''_'' @ r"
    and cut: "16 < length r \<and> r ! 16 = CHR ''_''"
    and t: "t = \<lparr>token_class = c, public_id = take 16 r, proof_text = drop 17 r\<rparr>"
    and ok: "32 \<le> length (drop 17 r)" "length (drop 17 r) \<le> 128"
       "is_base64url (take 16 r)" "is_base64url (drop 17 r)"
    by (auto simp: parse_token_def rbind_Inr_iff ok_or_Inr_iff find_class_iff Let_def
        split: if_splits)
  from cut obtain p q where "length p = 16" "r = p @ CHR ''_'' # q"
    unfolding cut_at_16 by blast
  with cr t ok show "v = render_token t \<and> token_ok t"
    by (simp add: render_token_def token_ok_def)
next
  assume v: "v = render_token t \<and> token_ok t"
  let ?r = "public_id t @ CHR ''_'' # proof_text t"
  have find: "find_map (\<lambda>cls. map_option (\<lambda>rest. (cls, rest)) (strip_prefix (class_prefix cls) v))
     all_classes = Some (token_class t, ''_'' @ ?r)"
    unfolding find_class_iff using v by (simp add: render_token_def)
  have len: "length v \<le> max_token_len"
    using v by (simp add: render_token_def token_ok_def max_token_len_def)
  have cut: "16 < length ?r" "?r ! 16 = CHR ''_''" "take 16 ?r = public_id t" "drop 17 ?r = proof_text t"
    using v by (simp_all add: token_ok_def nth_append)
  show "parse_token v = Inr t"
    unfolding parse_token_def find
    using v len cut by (simp add: token_ok_def)
qed

interpretation class_names: wire_names class_prefix token_class_from_str
proof unfold_locales
  show "token_class_from_str (class_prefix c) = Inr c" for c
    by (cases c) (simp_all add: token_class_from_str_def all_classes_def)
  show "class_prefix c = v" if "token_class_from_str v = Inr c" for v c
    using that by (auto simp: token_class_from_str_def all_classes_def split: if_splits)
qed

text \<open>The encoder side: rendering refuses what is not in the format.\<close>

definition encode_token :: "parsed_token \<Rightarrow> token_parse_error + string" where
  "encode_token t = (if token_ok t then Inr (render_token t) else Inl Malformed)"

interpretation token_codec: partial_codec encode_token parse_token
  by unfold_locales (auto simp: encode_token_def parse_token_iff split: if_splits)

text \<open>
  The token parser accepts exactly the strings of the form prefix, separator, 16-byte
  public identifier, separator, proof of 32 to 128 bytes, with base64url fields, and returns those
  fields; so a token string has at most one reading (class, identifier and proof), although the
  separator may also occur inside the fields.
\<close>

theorem parse_token_exact:
  "parse_token v = Inr t \<longleftrightarrow>
     v = class_prefix (token_class t) @ ''_'' @ public_id t @ ''_'' @ proof_text t
     \<and> length (public_id t) = 16 \<and> is_base64url (public_id t)
     \<and> 32 \<le> length (proof_text t) \<and> length (proof_text t) \<le> 128 \<and> is_base64url (proof_text t)"
  by (simp add: parse_token_iff render_token_def token_ok_def)

section \<open>Issuing\<close>

definition hex_digit :: "nat \<Rightarrow> char" where
  "hex_digit n = (if n < 10 then char_of (48 + n) else char_of (87 + n))"

text \<open>\<open>format!("{byte:02x}")\<close> of every byte.\<close>

definition hex_bytes :: "bytes \<Rightarrow> string" where
  "hex_bytes bs = concat (map (\<lambda>b. [hex_digit (unat b div 16), hex_digit (unat b mod 16)]) bs)"

text \<open>
  The random bytes are inputs; \<open>b64\<close> is the third-party base64url encoder.  The \<open>expect\<close> on the
  parse is the panic \<open>None\<close>.
\<close>

definition issue_token :: "(bytes \<Rightarrow> string) \<Rightarrow> token_class \<Rightarrow> bytes \<Rightarrow> bytes \<Rightarrow> string option" where
  "issue_token b64 cls public secret =
     (let text = class_prefix cls @ ''_'' @ hex_bytes public @ ''_'' @ b64 secret in
      case parse_token text of Inr _ \<Rightarrow> Some text | Inl _ \<Rightarrow> None)"

lemma length_hex_bytes [simp]: "length (hex_bytes bs) = 2 * length bs"
  by (induction bs) (simp_all add: hex_bytes_def)

lemma hex_digit_url: "n < 16 \<Longrightarrow> ascii_alnum (hex_digit n)"
  by (auto simp: hex_digit_def char_simps)

lemma hex_bytes_url: "is_base64url (hex_bytes bs)"
proof -
  have "unat b div 16 < 16" for b :: u8
    using unat_byte_less [of b] by (simp add: less_mult_imp_div_less)
  then show ?thesis
    by (auto simp: is_base64url_def hex_bytes_def list_all_iff hex_digit_url)
qed

text \<open>
  With an encoder that turns 32 bytes into 43 base64url characters, issuing never
  panics, and the token parses back to the class it was issued for, with the public identifier and
  the proof it was made from.
\<close>

theorem issue_token_parses:
  assumes "\<And>bs. length bs = 32 \<Longrightarrow> length (b64 bs) = 43 \<and> is_base64url (b64 bs)"
    and "length public = 8" and "length secret = 32"
  shows "\<exists>v. issue_token b64 cls public secret = Some v \<and>
     parse_token v = Inr \<lparr>token_class = cls, public_id = hex_bytes public, proof_text = b64 secret\<rparr>"
proof -
  let ?t = "\<lparr>token_class = cls, public_id = hex_bytes public, proof_text = b64 secret\<rparr>"
  have "parse_token (render_token ?t) = Inr ?t"
    using assms by (simp add: parse_token_iff token_ok_def hex_bytes_url)
  then show ?thesis by (simp add: issue_token_def render_token_def)
qed

text \<open>A concrete encoder with the output shape the hypothesis documents.\<close>

definition sample_b64 :: "bytes \<Rightarrow> string" where
  "sample_b64 bs = map (\<lambda>i. if i < length bs \<and> unat (bs ! i) = 0 then CHR ''A'' else CHR ''_'') [0..<43]"

theorem issue_token_parses_witness:
  "\<exists>v. issue_token sample_b64 Connector (replicate 8 171) (replicate 32 0) = Some v \<and>
     parse_token v = Inr \<lparr>token_class = Connector, public_id = hex_bytes (replicate 8 171),
       proof_text = sample_b64 (replicate 32 0)\<rparr>"
  by (rule issue_token_parses) (auto simp: sample_b64_def is_base64url_def list_all_iff char_simps)

end
