(* ===== verification/Relay_Frames.thy ===== *)
theory Relay_Frames
  imports Machines Tokens
begin

text \<open>
  \<^verbatim>\<open>crates/c6-cloud-core/src/relay.rs\<close>, the wire contracts of the relay: limits, the HTTP
  method, header and request-start validation, the control frames, and the binary codec of body
  chunks.  JSON encoding of control frames is serde's; body frames are encoded byte by byte here.
\<close>

section \<open>Limits\<close>

named_theorems relay_limits

definition relay_protocol_version :: u16 where [relay_limits]: "relay_protocol_version = 1"
definition max_body_chunk_bytes :: nat where [relay_limits]: "max_body_chunk_bytes = 64 * 1024"
definition max_request_body_bytes :: nat where [relay_limits]: "max_request_body_bytes = 16 * 1024 * 1024"
definition max_response_body_bytes :: nat where [relay_limits]: "max_response_body_bytes = 64 * 1024 * 1024"
definition max_concurrent_requests :: nat where [relay_limits]: "max_concurrent_requests = 32"
definition max_header_count :: nat where [relay_limits]: "max_header_count = 128"
definition max_header_bytes :: nat where [relay_limits]: "max_header_bytes = 64 * 1024"
definition max_target_bytes :: nat where [relay_limits]: "max_target_bytes = 8 * 1024"
definition max_request_ids_per_session :: nat where [relay_limits]: "max_request_ids_per_session = 4096"

datatype relay_error =
    UnsupportedProtocol | InvalidMethod | InvalidTarget | InvalidDeadline | InvalidStatus
  | InvalidHeader | ForbiddenHeader | HeadersTooLarge | ChunkTooLarge | BodyTooLarge
  | MalformedBodyFrame | IllegalTransition | DuplicateRequest | UnknownRequest
  | ConcurrencyLimit | RequestIdBudgetExhausted | InvalidSequence

section \<open>Methods and headers\<close>

datatype http_method = HttpMethod (method_str: string)

definition relay_methods :: "string list" where
  "relay_methods = [''GET'', ''HEAD'', ''POST'', ''PUT'', ''PATCH'', ''DELETE'', ''OPTIONS'']"

definition http_method_new :: "string \<Rightarrow> relay_error + http_method" where
  "http_method_new value =
     (if value \<notin> set relay_methods then Inl InvalidMethod else Inr (HttpMethod value))"

record header_field =
  header_name :: string
  header_value :: string

definition token_punctuation :: string where
  "token_punctuation = ''!#$%&'' @ [CHR 0x27] @ ''*+-.^_`|~''"

definition header_name_char :: "char \<Rightarrow> bool" where
  "header_name_char b \<longleftrightarrow> ascii_lower b \<or> ascii_digit b \<or> b \<in> set token_punctuation"

definition forbidden_headers :: "string list" where
  "forbidden_headers =
     [''connection'', ''keep-alive'', ''proxy-authenticate'', ''proxy-authorization'', ''te'',
      ''trailer'', ''transfer-encoding'', ''upgrade'', ''content-length'', ''host'', ''forwarded'',
      ''x-forwarded-for'', ''x-forwarded-host'', ''x-forwarded-proto'', ''x-real-ip'',
      ''x-c6-route'', ''x-c6-installation'', ''x-cresix-route'', ''x-cresix-installation'']"

definition is_forbidden_header :: "string \<Rightarrow> bool" where
  "is_forbidden_header name = (name \<in> set forbidden_headers)"

definition header_validate :: "header_field \<Rightarrow> relay_error + unit" where
  "header_validate h =
     (if header_name h = [] \<or> \<not> list_all header_name_char (header_name h) then Inl InvalidHeader
      else if list_ex (\<lambda>b. (ascii_control b \<and> ord b \<noteq> 9) \<or> ord b = 127) (header_value h)
        then Inl InvalidHeader
      else if is_forbidden_header (header_name h) then Inl ForbiddenHeader
      else Inr ())"

text \<open>The loop of \<open>validate_headers\<close>, with the running size.\<close>

primrec validate_header_list :: "nat \<Rightarrow> header_field list \<Rightarrow> relay_error + unit" where
  "validate_header_list sz [] = Inr ()"
| "validate_header_list sz (h # hs) =
     andThen (header_validate h)
       (let sz' = sat_add64 (sat_add64 sz (length (header_name h))) (length (header_value h)) in
        if max_header_bytes < sz' then Inl HeadersTooLarge else validate_header_list sz' hs)"

definition validate_headers :: "header_field list \<Rightarrow> relay_error + unit" where
  "validate_headers hs =
     (if max_header_count < length hs then Inl HeadersTooLarge else validate_header_list 0 hs)"

section \<open>Control frames\<close>

record client_hello =
  protocol_version :: u16
  connector_token :: string

record server_ready =
  installation_id :: uuid
  generation :: u64
  ready_max_concurrent :: u16
  ready_max_chunk :: u32

record request_start =
  start_id :: uuid
  start_method :: http_method
  target :: string
  start_headers :: "header_field list"
  deadline_unix_ms :: u64

record response_start =
  response_id :: uuid
  status :: u16
  response_headers :: "header_field list"

datatype relay_failure_code = BadGateway | Timeout | Cancelled | Protocol

record request_failed =
  failed_id :: uuid
  failure_code :: relay_failure_code
  failure_message :: string

datatype control_frame =
    ClientHello client_hello
  | ServerReady server_ready
  | RequestStart request_start
  | RequestEnd uuid
  | ResponseStart response_start
  | ResponseEnd uuid
  | Cancel uuid
  | RequestFailed request_failed
  | Ping u64
  | Pong u64

definition request_start_validate :: "request_start \<Rightarrow> relay_error + unit" where
  "request_start_validate f =
     (let t = target f in
      if t = [] \<or> max_target_bytes < length t \<or> \<not> prefix ''/'' t \<or> prefix ''//'' t
         \<or> CHR ''#'' \<in> set t \<or> contains_str ''://'' t \<or> CHR 0x5C \<in> set t
         \<or> list_ex ascii_control t
      then Inl InvalidTarget
      else if deadline_unix_ms f = 0 then Inl InvalidDeadline
      else validate_headers (start_headers f))"

definition response_start_validate :: "response_start \<Rightarrow> relay_error + unit" where
  "response_start_validate f =
     (if \<not> (100 \<le> unat (status f) \<and> unat (status f) \<le> 599) then Inl InvalidStatus
      else validate_headers (response_headers f))"

text \<open>The class of a \<open>SecretToken\<close>; only strings the token parser accepts are such tokens.\<close>

definition token_class_of :: "string \<Rightarrow> token_class option" where
  "token_class_of tok = (case parse_token tok of Inr t \<Rightarrow> Some (token_class t) | Inl _ \<Rightarrow> None)"

section \<open>What the header checks guarantee\<close>

definition header_ok :: "header_field \<Rightarrow> bool" where
  "header_ok h \<longleftrightarrow> header_name h \<noteq> [] \<and> (\<forall>b \<in> set (header_name h). header_name_char b)
     \<and> (\<forall>b \<in> set (header_value h). \<not> ascii_control b \<or> ord b = 9)
     \<and> header_name h \<notin> set forbidden_headers"

definition headers_size :: "header_field list \<Rightarrow> nat" where
  "headers_size hs = (\<Sum>h\<leftarrow>hs. length (header_name h) + length (header_value h))"

lemma header_validate_iff [result_simps]: "header_validate h = Inr () \<longleftrightarrow> header_ok h"
  by (auto simp: header_validate_def header_ok_def is_forbidden_header_def list_all_iff
      list_ex_iff ascii_control_def)

lemma sat_size_step:
  assumes "s \<le> max_header_bytes"
  shows "sat_add64 (sat_add64 s a) b \<le> max_header_bytes \<longleftrightarrow> s + a + b \<le> max_header_bytes"
    and "s + a + b \<le> max_header_bytes \<Longrightarrow> sat_add64 (sat_add64 s a) b = s + a + b"
  using assms by (auto simp: sat_add64_def max_header_bytes_def min_def)

lemma validate_header_list_iff:
  "s \<le> max_header_bytes \<Longrightarrow> validate_header_list s hs = Inr () \<longleftrightarrow>
     (\<forall>h \<in> set hs. header_ok h) \<and> s + headers_size hs \<le> max_header_bytes"
proof (induction hs arbitrary: s)
  case Nil
  then show ?case by (simp add: headers_size_def)
next
  case (Cons h hs)
  let ?s = "sat_add64 (sat_add64 s (length (header_name h))) (length (header_value h))"
  show ?case
  proof (cases "?s \<le> max_header_bytes")
    case True
    then have "?s = s + length (header_name h) + length (header_value h)"
      using sat_size_step [OF Cons.prems] by blast
    with True Cons.IH [OF True] show ?thesis
      by (auto simp: rbind_Inr_iff header_validate_iff headers_size_def Let_def add.assoc)
  next
    case False
    then have "\<not> s + length (header_name h) + length (header_value h) \<le> max_header_bytes"
      using sat_size_step [OF Cons.prems] by blast
    with False show ?thesis
      by (auto simp: rbind_Inr_iff headers_size_def Let_def)
  qed
qed

lemma validate_headers_iff [result_simps]:
  "validate_headers hs = Inr () \<longleftrightarrow>
     length hs \<le> max_header_count \<and> (\<forall>h \<in> set hs. header_ok h) \<and> headers_size hs \<le> max_header_bytes"
  by (auto simp: validate_headers_def validate_header_list_iff)

text \<open>
  A target a frame may carry: an origin-relative path that cannot name another authority.
\<close>

definition target_ok :: "string \<Rightarrow> bool" where
  "target_ok t \<longleftrightarrow> length t \<le> max_target_bytes \<and> prefix ''/'' t \<and> \<not> prefix ''//'' t
     \<and> (\<forall>c \<in> set t. \<not> ascii_control c \<and> c \<noteq> CHR ''#'' \<and> c \<noteq> CHR 0x5C)
     \<and> \<not> contains_str ''://'' t"

lemma request_start_validate_iff [result_simps]:
  "request_start_validate f = Inr () \<longleftrightarrow>
     target_ok (target f) \<and> deadline_unix_ms f \<noteq> 0
     \<and> length (start_headers f) \<le> max_header_count \<and> (\<forall>h \<in> set (start_headers f). header_ok h)
     \<and> headers_size (start_headers f) \<le> max_header_bytes"
proof -
  have "(target f = [] \<or> max_target_bytes < length (target f) \<or> \<not> prefix ''/'' (target f)
      \<or> prefix ''//'' (target f) \<or> CHR ''#'' \<in> set (target f) \<or> contains_str ''://'' (target f)
      \<or> CHR 0x5C \<in> set (target f) \<or> list_ex ascii_control (target f)) \<longleftrightarrow> \<not> target_ok (target f)"
    unfolding target_ok_def list_ex_iff by (cases "target f = []") (simp, force simp: not_le)
  then show ?thesis
    unfolding request_start_validate_def Let_def
    by (simp add: validate_headers_iff del: not_less)
qed

text \<open>
  The validation of a request start guarantees that a relayed request cannot select
  another upstream or smuggle hop-by-hop state: the target is an origin-relative path without
  scheme, authority, fragment, backslash or control bytes, the headers are lowercase tokens with
  values free of line breaks, none of them is one of the transport or routing headers, and their
  number and total size are bounded; and every such frame is accepted.
\<close>

theorem request_start_validation_exact:
  "request_start_validate f = Inr () \<longleftrightarrow>
     target_ok (target f) \<and> deadline_unix_ms f \<noteq> 0
     \<and> length (start_headers f) \<le> 128 \<and> headers_size (start_headers f) \<le> 65536
     \<and> list_all header_ok (start_headers f)"
  by (auto simp: request_start_validate_iff relay_limits list_all_iff)

section \<open>The body codec\<close>

datatype body_kind = RequestChunk | ResponseChunk

record body_frame =
  body_kind :: body_kind
  body_id :: uuid
  sequence :: u32
  payload :: bytes

definition header_bytes :: nat where "header_bytes = 22"

primrec kind_byte :: "body_kind \<Rightarrow> u8" where
  "kind_byte RequestChunk = 1"
| "kind_byte ResponseChunk = 2"

text \<open>\<open>Uuid::as_bytes\<close> and \<open>u32::to_be_bytes\<close>, most significant byte first.\<close>

definition uuid_bytes :: "uuid \<Rightarrow> bytes" where
  "uuid_bytes u = to_be 16 (unat u)"

definition u32_be_bytes :: "u32 \<Rightarrow> bytes" where
  "u32_be_bytes w = to_be 4 (unat w)"

definition uuid_from_slice :: "bytes \<Rightarrow> uuid option" where
  "uuid_from_slice bs = (if length bs = 16 then Some (word_of_nat (from_be bs)) else None)"

definition u32_from_be :: "bytes \<Rightarrow> u32" where
  "u32_from_be bs = word_of_nat (from_be bs)"

definition body_encode :: "body_frame \<Rightarrow> relay_error + bytes" where
  "body_encode f =
     (if max_body_chunk_bytes < length (payload f) then Inl ChunkTooLarge
      else Inr ([ucast relay_protocol_version, kind_byte (body_kind f)]
                @ uuid_bytes (body_id f) @ u32_be_bytes (sequence f) @ payload f))"

definition body_decode :: "bytes \<Rightarrow> relay_error + body_frame" where
  "body_decode input =
     (if length input < header_bytes then Inl MalformedBodyFrame
      else if max_body_chunk_bytes < length input - header_bytes then Inl ChunkTooLarge
      else if input ! 0 \<noteq> ucast relay_protocol_version then Inl UnsupportedProtocol
      else
        rbind (if input ! 1 = 1 then Inr RequestChunk
               else if input ! 1 = 2 then Inr ResponseChunk
               else Inl MalformedBodyFrame) (\<lambda>knd.
        rbind (ok_or MalformedBodyFrame (uuid_from_slice (take 16 (drop 2 input)))) (\<lambda>rid.
        Inr \<lparr>body_kind = knd, body_id = rid,
             sequence = u32_from_be (take 4 (drop 18 input)), payload = drop 22 input\<rparr>)))"

lemma uuid_bytes_length [simp]: "length (uuid_bytes u) = 16"
  by (simp add: uuid_bytes_def)

lemma u32_be_bytes_length [simp]: "length (u32_be_bytes w) = 4"
  by (simp add: u32_be_bytes_def)

lemma uuid_from_bytes [simp]: "uuid_from_slice (uuid_bytes u) = Some u"
proof -
  have "unat u < 256 ^ 16" using unsigned_less [of u] by simp
  then show ?thesis by (simp add: uuid_from_slice_def uuid_bytes_def from_to_be)
qed

lemma u32_from_be_bytes [simp]: "u32_from_be (u32_be_bytes w) = w"
proof -
  have "unat w < 256 ^ 4" using unsigned_less [of w] by simp
  then show ?thesis by (simp add: u32_from_be_def u32_be_bytes_def from_to_be)
qed

lemma uuid_bytes_of_slice: "uuid_from_slice bs = Some u \<Longrightarrow> uuid_bytes u = bs"
proof -
  assume a: "uuid_from_slice bs = Some u"
  then have len: "length bs = 16" by (simp add: uuid_from_slice_def split: if_splits)
  then have "from_be bs < 256 ^ 16" using from_be_bound [of bs] by simp
  then have "unat (word_of_nat (from_be bs) :: uuid) = from_be bs" by (simp add: unat_of_nat)
  with a len show ?thesis
    by (auto simp: uuid_from_slice_def uuid_bytes_def to_from_be)
qed

lemma u32_bytes_of_be: "length bs = 4 \<Longrightarrow> u32_be_bytes (u32_from_be bs) = bs"
proof -
  assume len: "length bs = 4"
  then have "from_be bs < 256 ^ 4" using from_be_bound [of bs] by simp
  then have "unat (word_of_nat (from_be bs) :: u32) = from_be bs" by (simp add: unat_of_nat)
  with len show ?thesis by (simp add: u32_from_be_def u32_be_bytes_def to_from_be)
qed

lemma decode_encode_body: "body_encode f = Inr b \<Longrightarrow> body_decode b = Inr f"
proof -
  assume "body_encode f = Inr b"
  then have b: "b = 1 # kind_byte (body_kind f) # uuid_bytes (body_id f) @ u32_be_bytes (sequence f) @ payload f"
    and len: "length (payload f) \<le> max_body_chunk_bytes"
    by (auto simp: body_encode_def relay_protocol_version_def split: if_splits)
  have "take 16 (drop 2 b) = uuid_bytes (body_id f)"
    "take 4 (drop 18 b) = u32_be_bytes (sequence f)" "drop 22 b = payload f"
    by (simp_all add: b)
  then show ?thesis
    using len by (cases "body_kind f")
      (simp_all add: body_decode_def b header_bytes_def relay_protocol_version_def)
qed

lemma split_frame:
  assumes "22 \<le> length (b :: bytes)"
  shows "b = [b ! 0, b ! 1] @ take 16 (drop 2 b) @ take 4 (drop 18 b) @ drop 22 b"
proof -
  have "b = b ! 0 # b ! 1 # drop 2 b"
    using assms by (cases b; cases "tl b") auto
  moreover have "drop 2 b = take 16 (drop 2 b) @ drop 18 b"
    using append_take_drop_id [of 16 "drop 2 b"] by simp
  moreover have "drop 18 b = take 4 (drop 18 b) @ drop 22 b"
    using append_take_drop_id [of 4 "drop 18 b"] by simp
  ultimately show ?thesis by (metis append_Cons append_Nil)
qed

lemma encode_decode_body: "body_decode b = Inr f \<Longrightarrow> body_encode f = Inr b"
proof -
  assume "body_decode b = Inr f"
  then obtain k u where len: "22 \<le> length b" "length b - 22 \<le> max_body_chunk_bytes"
    and v: "b ! 0 = 1" and k: "b ! 1 = kind_byte k"
    and u: "uuid_from_slice (take 16 (drop 2 b)) = Some u"
    and f: "f = \<lparr>body_kind = k, body_id = u,
             sequence = u32_from_be (take 4 (drop 18 b)), payload = drop 22 b\<rparr>"
    by (auto simp: body_decode_def header_bytes_def relay_protocol_version_def rbind_Inr_iff
        ok_or_Inr_iff split: if_splits)
  have "u32_be_bytes (u32_from_be (take 4 (drop 18 b))) = take 4 (drop 18 b)"
    using len by (intro u32_bytes_of_be) simp
  moreover have "uuid_bytes u = take 16 (drop 2 b)" by (rule uuid_bytes_of_slice [OF u])
  moreover have "b = [1, kind_byte k] @ take 16 (drop 2 b) @ take 4 (drop 18 b) @ drop 22 b"
    using split_frame [OF len(1)] v k by simp
  ultimately show ?thesis
    using len by (simp add: body_encode_def f relay_protocol_version_def)
qed

interpretation body_codec: partial_codec body_encode body_decode
  by unfold_locales (fact decode_encode_body encode_decode_body)+

text \<open>
  The binary body codec is exact: a byte string decodes to a frame if and only if it is
  that frame's encoding, so nothing but an encoding is accepted, no two frames share one, and a
  frame on the wire has at most 22 header bytes and one chunk.
\<close>

theorem body_codec_exact:
  "(body_decode b = Inr f \<longleftrightarrow> body_encode f = Inr b)
   \<and> (is_ok (body_encode f) \<longleftrightarrow> length (payload f) \<le> max_body_chunk_bytes)
   \<and> (body_encode f = Inr b \<longrightarrow> length b = 22 + length (payload f))"
  by (auto simp: body_codec.decode_iff is_ok_iff) (auto simp: body_encode_def split: if_splits)

theorem body_codec_exact_witness:
  "length [1, 1, 0, 0, 0, 0, 0, 0, 0, 0, 0, 0, 0, 0, 0, 0, 0, 7, 0, 0, 0, 8, 65 :: u8] = 22 + 1"
proof -
  let ?f = "\<lparr>body_kind = RequestChunk, body_id = 7, sequence = 8, payload = [65]\<rparr>"
  let ?b = "[1, 1, 0, 0, 0, 0, 0, 0, 0, 0, 0, 0, 0, 0, 0, 0, 0, 7, 0, 0, 0, 8, 65 :: u8]"
  have "body_encode ?f = Inr ?b"
    by (simp add: body_encode_def relay_limits uuid_bytes_def u32_be_bytes_def to_be_numeral)
  then have "length ?b = 22 + length (payload ?f)" using body_codec_exact [of ?b ?f] by blast
  then show ?thesis by simp
qed

end
