(* ===== verification/Relay_Session.thy ===== *)
theory Relay_Session
  imports Relay_Frames
begin

text \<open>
  \<^verbatim>\<open>crates/c6-cloud-core/src/relay.rs\<close>, the transport-neutral session validator: the
  handshake, the per-request flow states, and \<open>observe_control\<close>/\<open>observe_body\<close>, which both
  ends call on every frame they send and receive.  The contract is stated per request:
  \<open>request_status\<close> with \<open>spec_step\<close> is the life of one request identifier, and the validator
  refines it for all identifiers at once.
\<close>

section \<open>State and operations\<close>

datatype handshake_state = AwaitingHello | AwaitingReady | Ready

datatype flow_state =
    RequestBody u32 nat
  | AwaitingResponse
  | ResponseBody u32 nat

record relay_session =
  handshake :: handshake_state
  flows :: "(uuid \<times> flow_state) list"
  seen_request_ids :: "uuid list"

definition default_session :: relay_session where
  "default_session = \<lparr>handshake = AwaitingHello, flows = [], seen_request_ids = []\<rparr>"

definition is_ready :: "relay_session \<Rightarrow> bool" where
  "is_ready s = (handshake s = Ready)"

definition in_flight :: "relay_session \<Rightarrow> nat" where
  "in_flight s = length (flows s)"

type_synonym observation = "(relay_error + unit) \<times> relay_session"

definition observe_hello :: "relay_session \<Rightarrow> client_hello \<Rightarrow> observation" where
  "observe_hello s f =
     (if handshake s \<noteq> AwaitingHello then (Inl IllegalTransition, s)
      else if protocol_version f \<noteq> relay_protocol_version then (Inl UnsupportedProtocol, s)
      else if token_class_of (connector_token f) \<noteq> Some Connector then (Inl IllegalTransition, s)
      else (Inr (), s\<lparr>handshake := AwaitingReady\<rparr>))"

definition observe_server_ready :: "relay_session \<Rightarrow> server_ready \<Rightarrow> observation" where
  "observe_server_ready s f =
     (if handshake s \<noteq> AwaitingReady then (Inl IllegalTransition, s)
      else if generation f = 0 \<or> ready_max_concurrent f = 0
         \<or> max_concurrent_requests < unat (ready_max_concurrent f)
         \<or> max_body_chunk_bytes < unat (ready_max_chunk f)
      then (Inl IllegalTransition, s)
      else (Inr (), s\<lparr>handshake := Ready\<rparr>))"

definition observe_request_start :: "relay_session \<Rightarrow> request_start \<Rightarrow> observation" where
  "observe_request_start s f =
     (case request_start_validate f of
        Inl e \<Rightarrow> (Inl e, s)
      | Inr _ \<Rightarrow>
          if start_id f \<in> set (seen_request_ids s) then (Inl DuplicateRequest, s)
          else if max_concurrent_requests \<le> length (flows s) then (Inl ConcurrencyLimit, s)
          else if max_request_ids_per_session \<le> length (seen_request_ids s)
            then (Inl RequestIdBudgetExhausted, s)
          else (Inr (), s\<lparr>seen_request_ids := List.insert (start_id f) (seen_request_ids s),
                          flows := hput (start_id f) (RequestBody 0 0) (flows s)\<rparr>))"

definition observe_request_end :: "relay_session \<Rightarrow> uuid \<Rightarrow> observation" where
  "observe_request_end s rid =
     (case hget (flows s) rid of
        None \<Rightarrow> (Inl UnknownRequest, s)
      | Some (RequestBody n b) \<Rightarrow> (Inr (), s\<lparr>flows := hput rid AwaitingResponse (flows s)\<rparr>)
      | Some _ \<Rightarrow> (Inl IllegalTransition, s))"

definition observe_response_start :: "relay_session \<Rightarrow> response_start \<Rightarrow> observation" where
  "observe_response_start s f =
     (case response_start_validate f of
        Inl e \<Rightarrow> (Inl e, s)
      | Inr _ \<Rightarrow>
          (case hget (flows s) (response_id f) of
             None \<Rightarrow> (Inl UnknownRequest, s)
           | Some fl \<Rightarrow>
               if fl \<noteq> AwaitingResponse then (Inl IllegalTransition, s)
               else (Inr (), s\<lparr>flows := hput (response_id f) (ResponseBody 0 0) (flows s)\<rparr>)))"

definition observe_response_end :: "relay_session \<Rightarrow> uuid \<Rightarrow> observation" where
  "observe_response_end s rid =
     (case hget (flows s) rid of
        None \<Rightarrow> (Inl UnknownRequest, s)
      | Some (ResponseBody n b) \<Rightarrow> (Inr (), s\<lparr>flows := hdel rid (flows s)\<rparr>)
      | Some _ \<Rightarrow> (Inl IllegalTransition, s))"

definition observe_cancel :: "relay_session \<Rightarrow> uuid \<Rightarrow> observation" where
  "observe_cancel s rid =
     (case hget (flows s) rid of
        None \<Rightarrow> (Inl UnknownRequest, s)
      | Some _ \<Rightarrow> (Inr (), s\<lparr>flows := hdel rid (flows s)\<rparr>))"

definition observe_request_failed :: "relay_session \<Rightarrow> request_failed \<Rightarrow> observation" where
  "observe_request_failed s f =
     (if 200 < length (failure_message f) \<or> has_control (failure_message f)
      then (Inl IllegalTransition, s)
      else observe_cancel s (failed_id f))"

text \<open>The match of \<open>observe_control\<close>: before the handshake is done only its own frames pass.\<close>

definition observe_control :: "relay_session \<Rightarrow> control_frame \<Rightarrow> observation" where
  "observe_control s frame =
     (case frame of
        ClientHello f \<Rightarrow> observe_hello s f
      | ServerReady f \<Rightarrow> observe_server_ready s f
      | _ \<Rightarrow>
          if handshake s \<noteq> Ready then (Inl IllegalTransition, s)
          else (case frame of
              RequestStart f \<Rightarrow> observe_request_start s f
            | RequestEnd rid \<Rightarrow> observe_request_end s rid
            | ResponseStart f \<Rightarrow> observe_response_start s f
            | ResponseEnd rid \<Rightarrow> observe_response_end s rid
            | Cancel rid \<Rightarrow> observe_cancel s rid
            | RequestFailed f \<Rightarrow> observe_request_failed s f
            | _ \<Rightarrow> (Inr (), s)))"

text \<open>
  The accounting of one accepted-so-far chunk: the byte counter is written before the sequence
  number is advanced, so an overflow of the latter leaves the new counter behind.
\<close>

definition account_chunk ::
  "relay_session \<Rightarrow> body_frame \<Rightarrow> (u32 \<Rightarrow> nat \<Rightarrow> flow_state) \<Rightarrow> nat \<Rightarrow> u32 \<Rightarrow> nat \<Rightarrow> observation" where
  "account_chunk s f mk limit next_sequence bytes =
     (if sequence f \<noteq> next_sequence then (Inl InvalidSequence, s)
      else
        let updated = sat_add64 bytes (length (payload f)) in
        if limit < updated then (Inl BodyTooLarge, s)
        else (case checked_add32 next_sequence 1 of
            None \<Rightarrow> (Inl InvalidSequence, s\<lparr>flows := hput (body_id f) (mk next_sequence updated) (flows s)\<rparr>)
          | Some n \<Rightarrow> (Inr (), s\<lparr>flows := hput (body_id f) (mk n updated) (flows s)\<rparr>)))"

definition observe_body :: "relay_session \<Rightarrow> body_frame \<Rightarrow> observation" where
  "observe_body s f =
     (if handshake s \<noteq> Ready then (Inl IllegalTransition, s)
      else if max_body_chunk_bytes < length (payload f) then (Inl ChunkTooLarge, s)
      else (case hget (flows s) (body_id f) of
          None \<Rightarrow> (Inl UnknownRequest, s)
        | Some fl \<Rightarrow>
            (case (body_kind f, fl) of
               (RequestChunk, RequestBody n b) \<Rightarrow>
                 account_chunk s f RequestBody max_request_body_bytes n b
             | (ResponseChunk, ResponseBody n b) \<Rightarrow>
                 account_chunk s f ResponseBody max_response_body_bytes n b
             | _ \<Rightarrow> (Inl IllegalTransition, s))))"

datatype relay_event = Control control_frame | Body body_frame

primrec observe :: "relay_session \<Rightarrow> relay_event \<Rightarrow> observation" where
  "observe s (Control f) = observe_control s f"
| "observe s (Body f) = observe_body s f"

lemmas observe_defs = observe_control_def observe_body_def observe_hello_def
  observe_server_ready_def observe_request_start_def observe_request_end_def
  observe_response_start_def observe_response_end_def observe_cancel_def
  observe_request_failed_def account_chunk_def

lemmas observe_splits = control_frame.splits flow_state.splits body_kind.splits option.splits
  sum.splits if_splits prod.splits

section \<open>The invariant\<close>

primrec flow_ok :: "flow_state \<Rightarrow> bool" where
  "flow_ok (RequestBody n b) = (b \<le> max_request_body_bytes)"
| "flow_ok AwaitingResponse = True"
| "flow_ok (ResponseBody n b) = (b \<le> max_response_body_bytes)"

definition session_ok :: "relay_session \<Rightarrow> bool" where
  "session_ok s \<longleftrightarrow> hmap_ok (flows s) \<and> distinct (seen_request_ids s)
     \<and> hkeys (flows s) \<subseteq> set (seen_request_ids s)
     \<and> length (flows s) \<le> max_concurrent_requests
     \<and> length (seen_request_ids s) \<le> max_request_ids_per_session
     \<and> (\<forall>rid fl. hget (flows s) rid = Some fl \<longrightarrow> flow_ok fl)
     \<and> (handshake s \<noteq> Ready \<longrightarrow> flows s = [] \<and> seen_request_ids s = [])"

lemma session_ok_default: "session_ok default_session"
  by (simp add: session_ok_def default_session_def hmap_simps)

lemma session_ok_put:
  assumes "session_ok s" and "handshake s = Ready" and "rid \<in> hkeys (flows s)" and "flow_ok fl"
  shows "session_ok (s\<lparr>flows := hput rid fl (flows s)\<rparr>)"
  using assms by (auto simp: session_ok_def hmap_simps hput_length)

lemma session_ok_del:
  assumes "session_ok s" and "handshake s = Ready"
  shows "session_ok (s\<lparr>flows := hdel rid (flows s)\<rparr>)"
  using assms AList.length_delete_le [of rid "flows s"]
  by (auto simp: session_ok_def hmap_simps)

lemma session_ok_open:
  assumes "session_ok s" and "handshake s = Ready" and "rid \<notin> set (seen_request_ids s)"
    and "length (flows s) < max_concurrent_requests"
    and "length (seen_request_ids s) < max_request_ids_per_session"
  shows "session_ok (s\<lparr>seen_request_ids := rid # seen_request_ids s,
                       flows := hput rid (RequestBody 0 0) (flows s)\<rparr>)"
proof -
  have "rid \<notin> hkeys (flows s)" using assms by (auto simp: session_ok_def)
  with assms show ?thesis by (auto simp: session_ok_def hmap_simps hput_length)
qed

lemma session_ok_shake:
  assumes "session_ok s" and "handshake s \<noteq> Ready"
  shows "session_ok (s\<lparr>handshake := h\<rparr>)"
  using assms by (auto simp: session_ok_def)

lemma account_chunk_ok:
  assumes ok: "session_ok s" "handshake s = Ready" and get: "hget (flows s) (body_id f) = Some fl"
    and mk: "\<And>n b. flow_ok (mk n b) \<longleftrightarrow> b \<le> limit"
  shows "session_ok (snd (account_chunk s f mk limit n b))"
proof -
  have "rid \<in> hkeys (flows s)" if "rid = body_id f" for rid
    using that hget_Some_key [OF get] by simp
  then show ?thesis
    using ok by (auto simp: account_chunk_def Let_def mk intro!: session_ok_put split: option.splits)
qed

lemma observe_body_ok: "session_ok s \<Longrightarrow> session_ok (snd (observe_body s f))"
  by (auto simp: observe_body_def intro!: account_chunk_ok split: option.splits flow_state.splits body_kind.splits)

lemma observe_control_ok: "session_ok s \<Longrightarrow> session_ok (snd (observe_control s frame))"
  by (cases frame)
     (auto simp: observe_control_def observe_hello_def observe_server_ready_def
        observe_request_start_def observe_request_end_def observe_response_start_def
        observe_response_end_def observe_cancel_def observe_request_failed_def
        intro!: session_ok_put session_ok_del session_ok_open session_ok_shake
        dest: hget_Some_key split: sum.splits option.splits flow_state.splits)

lemma observe_ok: "session_ok s \<Longrightarrow> session_ok (snd (observe s e))"
  by (cases e) (simp_all add: observe_control_ok observe_body_ok)


text \<open>What can only grow: the used identifiers, and the handshake.\<close>

primrec handshake_rank :: "handshake_state \<Rightarrow> nat" where
  "handshake_rank AwaitingHello = 0"
| "handshake_rank AwaitingReady = 1"
| "handshake_rank Ready = 2"

definition session_below :: "relay_session \<Rightarrow> relay_session \<Rightarrow> bool" where
  "session_below s t \<longleftrightarrow> set (seen_request_ids s) \<subseteq> set (seen_request_ids t)
     \<and> handshake_rank (handshake s) \<le> handshake_rank (handshake t)"

lemma observe_below: "session_below s (snd (observe s e))"
proof (cases e)
  case (Control frame)
  then show ?thesis
    by (cases frame)
       (auto simp: session_below_def observe_control_def observe_hello_def observe_server_ready_def
          observe_request_start_def observe_request_end_def observe_response_start_def
          observe_response_end_def observe_cancel_def observe_request_failed_def
          split: sum.splits option.splits flow_state.splits)
next
  case (Body f)
  then show ?thesis
    by (auto simp: session_below_def observe_body_def account_chunk_def Let_def
        split: option.splits flow_state.splits body_kind.splits)
qed

interpretation relay: growing_machine observe default_session session_ok session_below
proof unfold_locales
  show "session_ok default_session" by (rule session_ok_default)
  show "session_ok s \<Longrightarrow> session_ok (snd (observe s e))" for s e by (rule observe_ok)
  show "session_below s s" for s by (simp add: session_below_def)
  show "session_below s t \<Longrightarrow> session_below t u \<Longrightarrow> session_below s u" for s t u
    by (auto simp: session_below_def)
  show "session_below s (snd (observe s e))" for s e by (rule observe_below)
qed

text \<open>
  C16: whatever sequence of frames a peer sends, valid or not, the validator's resources
  stay bounded: at most 32 requests in flight, at most 4096 identifiers, no flow beyond its body
  limit, and nothing at all before the handshake is complete.
\<close>

theorem relay_session_bounded:
  "let s = run_steps observe default_session es in
     in_flight s \<le> 32 \<and> length (seen_request_ids s) \<le> 4096
     \<and> (\<forall>rid n b. hget (flows s) rid = Some (RequestBody n b) \<longrightarrow> b \<le> 16 * 1024 * 1024)
     \<and> (\<forall>rid n b. hget (flows s) rid = Some (ResponseBody n b) \<longrightarrow> b \<le> 64 * 1024 * 1024)
     \<and> (\<not> is_ready s \<longrightarrow> in_flight s = 0)"
proof -
  let ?s = "run_steps observe default_session es"
  have ok: "session_ok ?s" by (rule relay.inv_reachable)
  have flow: "flow_ok fl" if "hget (flows ?s) rid = Some fl" for rid fl
    using ok that by (auto simp: session_ok_def)
  show ?thesis
    using ok flow [of _ "RequestBody _ _"] flow [of _ "ResponseBody _ _"]
    by (auto simp: Let_def session_ok_def in_flight_def is_ready_def relay_limits)
qed

section \<open>The life of one request\<close>

datatype request_status = Fresh | Sending nat nat | Waiting | Responding nat nat | Closed

primrec flow_status :: "flow_state \<Rightarrow> request_status" where
  "flow_status (RequestBody n b) = Sending (unat n) b"
| "flow_status AwaitingResponse = Waiting"
| "flow_status (ResponseBody n b) = Responding (unat n) b"

definition request_status :: "relay_session \<Rightarrow> uuid \<Rightarrow> request_status" where
  "request_status s rid =
     (case hget (flows s) rid of
        Some fl \<Rightarrow> flow_status fl
      | None \<Rightarrow> if rid \<in> set (seen_request_ids s) then Closed else Fresh)"

text \<open>
  The contract, for one identifier: a request is opened once, its chunks are numbered without
  gaps and bounded in total, then the request side ends, the response starts, its chunks follow,
  and it ends; a cancellation or a failure closes an open request at any point.  \<open>None\<close> is a
  violation.
\<close>

fun spec_body :: "body_frame \<Rightarrow> request_status \<Rightarrow> request_status option" where
  "spec_body f (Sending n b) =
     (if body_kind f = RequestChunk \<and> unat (sequence f) = n
         \<and> b + length (payload f) \<le> max_request_body_bytes
      then Some (Sending (Suc n) (b + length (payload f))) else None)"
| "spec_body f (Responding n b) =
     (if body_kind f = ResponseChunk \<and> unat (sequence f) = n
         \<and> b + length (payload f) \<le> max_response_body_bytes
      then Some (Responding (Suc n) (b + length (payload f))) else None)"
| "spec_body f st = None"

fun spec_close :: "request_status \<Rightarrow> request_status option" where
  "spec_close Fresh = None"
| "spec_close Closed = None"
| "spec_close st = Some Closed"

definition spec_step :: "uuid \<Rightarrow> relay_event \<Rightarrow> request_status \<Rightarrow> request_status option" where
  "spec_step rid e st =
     (case e of
        Body f \<Rightarrow> if body_id f = rid then spec_body f st else Some st
      | Control frame \<Rightarrow>
          (case frame of
             RequestStart f \<Rightarrow> if start_id f = rid
               then (if st = Fresh then Some (Sending 0 0) else None) else Some st
           | RequestEnd i \<Rightarrow> if i = rid
               then (case st of Sending n b \<Rightarrow> Some Waiting | _ \<Rightarrow> None) else Some st
           | ResponseStart f \<Rightarrow> if response_id f = rid
               then (if st = Waiting then Some (Responding 0 0) else None) else Some st
           | ResponseEnd i \<Rightarrow> if i = rid
               then (case st of Responding n b \<Rightarrow> Some Closed | _ \<Rightarrow> None) else Some st
           | Cancel i \<Rightarrow> if i = rid then spec_close st else Some st
           | RequestFailed f \<Rightarrow> if failed_id f = rid then spec_close st else Some st
           | _ \<Rightarrow> Some st))"

lemma session_ok_flow_seen:
  "session_ok s \<Longrightarrow> hget (flows s) rid = Some fl \<Longrightarrow> rid \<in> set (seen_request_ids s)"
  by (auto simp: session_ok_def dest: hget_Some_key)

lemma status_put:
  "request_status (s\<lparr>flows := hput r fl (flows s)\<rparr>) rid
     = (if rid = r then flow_status fl else request_status s rid)"
  by (simp add: request_status_def hmap_simps)

lemma status_del:
  "r \<in> set (seen_request_ids s) \<Longrightarrow>
   request_status (s\<lparr>flows := hdel r (flows s)\<rparr>) rid = (if rid = r then Closed else request_status s rid)"
  by (simp add: request_status_def hmap_simps)

lemma status_shake: "request_status (s\<lparr>handshake := h\<rparr>) rid = request_status s rid"
  by (simp add: request_status_def)

lemma status_of_flow: "hget (flows s) rid = Some fl \<Longrightarrow> request_status s rid = flow_status fl"
  by (simp add: request_status_def)

lemma account_chunk_refines:
  assumes acc: "account_chunk s f mk limit n b = (Inr (), s')" and "limit < 2 ^ 64 - 1"
  shows "sequence f = n \<and> b + length (payload f) \<le> limit
     \<and> (\<exists>m. unat m = Suc (unat n) \<and>
          s' = s\<lparr>flows := hput (body_id f) (mk m (b + length (payload f))) (flows s)\<rparr>)"
proof -
  have seq: "sequence f = n" and le: "sat_add64 b (length (payload f)) \<le> limit"
    using acc by (auto simp: account_chunk_def Let_def split: if_splits)
  have sum: "b + length (payload f) \<le> limit"
    using sat_add64_le [OF le] assms(2) by simp
  then have sat: "sat_add64 b (length (payload f)) = b + length (payload f)"
    using assms(2) by (simp add: sat_add64_def)
  from acc seq le obtain m where m: "checked_add32 n 1 = Some m"
    and s': "s' = s\<lparr>flows := hput (body_id f) (mk m (b + length (payload f))) (flows s)\<rparr>"
    by (auto simp: account_chunk_def Let_def sat split: option.splits)
  have "unat m = Suc (unat n)" using checked_add32_Some [OF m] by simp
  with seq sum s' show ?thesis by blast
qed

lemma limits_small: "max_request_body_bytes < 2 ^ 64 - 1" "max_response_body_bytes < 2 ^ 64 - 1"
  by (simp_all add: relay_limits)

lemma observe_body_refines:
  assumes ok: "session_ok s" and acc: "observe_body s f = (Inr (), s')"
  shows "spec_step rid (Body f) (request_status s rid) = Some (request_status s' rid)"
proof -
  obtain fl where get: "hget (flows s) (body_id f) = Some fl"
    using acc by (auto simp: observe_body_def split: if_splits option.splits)
  show ?thesis
  proof (cases fl)
    case (RequestBody n b)
    with acc get have k: "body_kind f = RequestChunk"
      and ch: "account_chunk s f RequestBody max_request_body_bytes n b = (Inr (), s')"
      by (auto simp: observe_body_def split: if_splits body_kind.splits)
    from account_chunk_refines [OF ch limits_small(1)] show ?thesis
      using k get by (auto simp: spec_step_def status_put status_of_flow RequestBody)
  next
    case AwaitingResponse
    with acc get show ?thesis
      by (auto simp: observe_body_def split: if_splits body_kind.splits)
  next
    case (ResponseBody n b)
    with acc get have k: "body_kind f = ResponseChunk"
      and ch: "account_chunk s f ResponseBody max_response_body_bytes n b = (Inr (), s')"
      by (auto simp: observe_body_def split: if_splits body_kind.splits)
    from account_chunk_refines [OF ch limits_small(2)] show ?thesis
      using k get by (auto simp: spec_step_def status_put status_of_flow ResponseBody)
  qed
qed

lemma observe_start_refines:
  assumes ok: "session_ok s" and acc: "observe_request_start s f = (Inr (), s')"
  shows "spec_step rid (Control (RequestStart f)) (request_status s rid) = Some (request_status s' rid)"
proof -
  have fresh: "start_id f \<notin> set (seen_request_ids s)"
    and s': "s' = s\<lparr>seen_request_ids := start_id f # seen_request_ids s,
       flows := hput (start_id f) (RequestBody 0 0) (flows s)\<rparr>"
    using acc by (auto simp: observe_request_start_def split: sum.splits if_splits)
  have "hget (flows s) (start_id f) = None"
    using fresh ok by (auto simp: hget_None_iff session_ok_def)
  with fresh show ?thesis
    by (auto simp: spec_step_def s' request_status_def hmap_simps)
qed

lemma observe_cancel_refines:
  assumes ok: "session_ok s" and acc: "observe_cancel s i = (Inr (), s')"
  shows "(if i = rid then spec_close (request_status s rid) else Some (request_status s rid))
     = Some (request_status s' rid)"
proof -
  obtain fl where get: "hget (flows s) i = Some fl" and s': "s' = s\<lparr>flows := hdel i (flows s)\<rparr>"
    using acc by (auto simp: observe_cancel_def split: option.splits)
  have "i \<in> set (seen_request_ids s)" by (rule session_ok_flow_seen [OF ok get])
  then show ?thesis
    using get by (cases fl) (auto simp: s' status_del status_of_flow)
qed

lemma observe_control_refines:
  assumes ok: "session_ok s" and acc: "observe_control s frame = (Inr (), s')"
  shows "spec_step rid (Control frame) (request_status s rid) = Some (request_status s' rid)"
proof (cases frame)
  case (RequestStart f)
  with acc have "observe_request_start s f = (Inr (), s')"
    by (auto simp: observe_control_def split: if_splits)
  with ok RequestStart show ?thesis by (simp add: observe_start_refines)
next
  case (RequestEnd i)
  with acc show ?thesis
    by (auto simp: observe_control_def observe_request_end_def spec_step_def status_put status_of_flow
        split: if_splits option.splits flow_state.splits)
next
  case (ResponseStart f)
  with acc show ?thesis
    by (auto simp: observe_control_def observe_response_start_def spec_step_def status_put status_of_flow
        split: if_splits option.splits flow_state.splits sum.splits)
next
  case (ResponseEnd i)
  with acc show ?thesis
    by (auto simp: observe_control_def observe_response_end_def spec_step_def status_del status_of_flow
        session_ok_flow_seen [OF ok]
        split: if_splits option.splits flow_state.splits)
next
  case (Cancel i)
  with acc have "observe_cancel s i = (Inr (), s')"
    by (auto simp: observe_control_def split: if_splits)
  from observe_cancel_refines [OF ok this, of rid] show ?thesis
    by (simp add: Cancel spec_step_def)
next
  case (RequestFailed f)
  with acc have "observe_cancel s (failed_id f) = (Inr (), s')"
    by (auto simp: observe_control_def observe_request_failed_def split: if_splits)
  from observe_cancel_refines [OF ok this, of rid] show ?thesis
    by (simp add: RequestFailed spec_step_def)
qed (use acc in \<open>auto simp: observe_control_def observe_hello_def observe_server_ready_def
        spec_step_def status_shake split: if_splits\<close>)

lemma observe_refines:
  "session_ok s \<Longrightarrow> observe s e = (Inr (), s') \<Longrightarrow>
   spec_step rid e (request_status s rid) = Some (request_status s' rid)"
  by (cases e) (simp_all add: observe_body_refines observe_control_refines)

text \<open>Rejected events leave every request where it was, apart from the byte counter on overflow.\<close>

lemma account_chunk_rejects:
  "account_chunk s f mk limit n b = (Inl err, s') \<Longrightarrow> s' = s \<or> (err = InvalidSequence \<and> sequence f = - 1)"
proof -
  assume a: "account_chunk s f mk limit n b = (Inl err, s')"
  have "n = - 1" if "checked_add32 n 1 = None"
  proof -
    have "2 ^ 32 \<le> unat n + 1" using that by (simp add: checked_add32_def split: if_splits)
    moreover have "unat n < 2 ^ 32" using unsigned_less [of n] by simp
    ultimately have "unat n = unat (- 1 :: u32)" by (simp add: unsigned_minus_1_eq_mask mask_eq_exp_minus_1)
    then show ?thesis by (simp only: word_unat_eq_iff)
  qed
  with a show ?thesis
    by (auto simp: account_chunk_def Let_def split: if_splits option.splits)
qed

lemma observe_rejects:
  "observe s e = (Inl err, s') \<Longrightarrow> s' = s \<or> (\<exists>f. e = Body f \<and> err = InvalidSequence \<and> sequence f = - 1)"
proof (cases e)
  case (Control frame)
  assume "observe s e = (Inl err, s')"
  with Control show ?thesis
    by (cases frame)
       (auto simp: observe_control_def observe_hello_def observe_server_ready_def
          observe_request_start_def observe_request_end_def observe_response_start_def
          observe_response_end_def observe_cancel_def observe_request_failed_def
          split: sum.splits option.splits flow_state.splits if_splits)
next
  case (Body f)
  assume "observe s e = (Inl err, s')"
  with Body show ?thesis
    by (auto simp: observe_body_def dest: account_chunk_rejects
        split: option.splits flow_state.splits body_kind.splits if_splits)
qed


text \<open>
  A frame the validator rejects changes nothing: the session is left as it was, with the
  one exception of the byte counter of a flow whose chunk number cannot be advanced past the last
  32-bit value.
\<close>

theorem rejected_frame_changes_nothing:
  assumes "fst (observe s e) = Inl err"
  shows "snd (observe s e) = s
     \<or> (\<exists>f. e = Body f \<and> err = InvalidSequence \<and> unat (sequence f) = 2 ^ 32 - 1)"
proof -
  have "observe s e = (Inl err, snd (observe s e))" using assms by (intro prod_eqI) simp_all
  from observe_rejects [OF this] show ?thesis
    by (auto simp: unsigned_minus_1_eq_mask mask_eq_exp_minus_1)
qed

theorem rejected_frame_changes_nothing_witness:
  "snd (observe default_session (Control (Ping 0))) = default_session
     \<or> (\<exists>f. Control (Ping 0) = Body f \<and> IllegalTransition = InvalidSequence
          \<and> unat (sequence f) = 2 ^ 32 - 1)"
  by (rule rejected_frame_changes_nothing)
     (simp add: observe_control_def default_session_def)

section \<open>Accepted traces\<close>

text \<open>Both ends drop the connection at the first rejected frame.\<close>

fun run_accepted :: "relay_session \<Rightarrow> relay_event list \<Rightarrow> relay_session option" where
  "run_accepted s [] = Some s"
| "run_accepted s (e # es) =
     (case observe s e of (Inr _, s') \<Rightarrow> run_accepted s' es | (Inl _, _) \<Rightarrow> None)"

primrec spec_run :: "uuid \<Rightarrow> request_status \<Rightarrow> relay_event list \<Rightarrow> request_status option" where
  "spec_run rid st [] = Some st"
| "spec_run rid st (e # es) =
     (case spec_step rid e st of None \<Rightarrow> None | Some st' \<Rightarrow> spec_run rid st' es)"

lemma run_accepted_append:
  "run_accepted s (xs @ ys) = Option.bind (run_accepted s xs) (\<lambda>t. run_accepted t ys)"
  by (induction s xs rule: run_accepted.induct) (auto split: prod.splits sum.splits)

lemma run_accepted_Cons_Some:
  "run_accepted s (e # es) = Some t \<longleftrightarrow>
     (\<exists>s'. observe s e = (Inr (), s') \<and> run_accepted s' es = Some t)"
  by (auto split: prod.splits sum.splits)

lemma run_accepted_ok: "run_accepted s es = Some t \<Longrightarrow> session_ok s \<Longrightarrow> session_ok t"
proof (induction es arbitrary: s)
  case Nil
  then show ?case by simp
next
  case (Cons e es)
  then show ?case using observe_ok [of s e] by (auto simp: run_accepted_Cons_Some simp del: run_accepted.simps)
qed

lemma run_accepted_refines:
  "run_accepted s es = Some t \<Longrightarrow> session_ok s \<Longrightarrow>
   spec_run rid (request_status s rid) es = Some (request_status t rid)"
proof (induction es arbitrary: s)
  case Nil
  then show ?case by simp
next
  case (Cons e es)
  then obtain s' where s': "observe s e = (Inr (), s')" "run_accepted s' es = Some t"
    by (auto simp: run_accepted_Cons_Some simp del: run_accepted.simps)
  have "session_ok s'" using observe_ok [of s e] Cons.prems(2) s'(1) by simp
  with Cons.IH s' observe_refines [OF Cons.prems(2) s'(1), of rid] show ?case by simp
qed

lemma status_default: "request_status default_session rid = Fresh"
  by (simp add: request_status_def default_session_def)

text \<open>
  C1: the validator refines the per-request contract: an accepted trace of frames, however
  the requests are interleaved in it, is a legal life of every single request identifier.
\<close>

theorem accepted_trace_refines_contract:
  assumes "run_accepted default_session es = Some t"
  shows "spec_run rid Fresh es = Some (request_status t rid)"
  using run_accepted_refines [OF assms session_ok_default, of rid] by (simp add: status_default)

text \<open>The chunks and the openings of one request in a trace.\<close>

definition chunks_of :: "body_kind \<Rightarrow> uuid \<Rightarrow> relay_event list \<Rightarrow> body_frame list" where
  "chunks_of kind rid es = [f. Body f \<leftarrow> es, body_id f = rid \<and> body_kind f = kind]"

definition starts_of :: "uuid \<Rightarrow> relay_event list \<Rightarrow> request_start list" where
  "starts_of rid es = [f. Control (RequestStart f) \<leftarrow> es, start_id f = rid]"

definition payload_bytes :: "body_frame list \<Rightarrow> nat" where
  "payload_bytes fs = (\<Sum>f\<leftarrow>fs. length (payload f))"

definition sequence_numbers :: "body_frame list \<Rightarrow> nat list" where
  "sequence_numbers fs = map (\<lambda>f. unat (sequence f)) fs"

definition in_order :: "nat \<Rightarrow> body_frame list \<Rightarrow> bool" where
  "in_order limit fs \<longleftrightarrow> (\<exists>n. sequence_numbers fs = [0..<n]) \<and> payload_bytes fs \<le> limit"

lemma chunk_simps [simp]:
  "sequence_numbers [] = []" "sequence_numbers (fs @ gs) = sequence_numbers fs @ sequence_numbers gs"
  "sequence_numbers [f] = [unat (sequence f)]"
  "payload_bytes [] = 0" "payload_bytes (fs @ gs) = payload_bytes fs + payload_bytes gs" "payload_bytes [f] = length (payload f)"
  by (simp_all add: sequence_numbers_def payload_bytes_def)

lemma in_order_intros [intro]:
  "in_order limit []" "sequence_numbers fs = [0..<n] \<Longrightarrow> payload_bytes fs \<le> limit \<Longrightarrow> in_order limit fs"
  by (auto simp: in_order_def intro: exI [of _ 0])

primrec trace_inv :: "request_status \<Rightarrow> body_frame list \<Rightarrow> body_frame list \<Rightarrow> nat \<Rightarrow> bool" where
  "trace_inv Fresh q r opened = (q = [] \<and> r = [] \<and> opened = 0)"
| "trace_inv (Sending n b) q r opened =
     (sequence_numbers q = [0..<n] \<and> payload_bytes q = b \<and> b \<le> max_request_body_bytes \<and> r = [] \<and> opened = 1)"
| "trace_inv Waiting q r opened = (in_order max_request_body_bytes q \<and> r = [] \<and> opened = 1)"
| "trace_inv (Responding n b) q r opened =
     (in_order max_request_body_bytes q \<and> sequence_numbers r = [0..<n] \<and> payload_bytes r = b
      \<and> b \<le> max_response_body_bytes \<and> opened = 1)"
| "trace_inv Closed q r opened =
     (in_order max_request_body_bytes q \<and> in_order max_response_body_bytes r \<and> opened = 1)"

definition trace_facts :: "uuid \<Rightarrow> request_status \<Rightarrow> relay_event list \<Rightarrow> bool" where
  "trace_facts rid st es =
     trace_inv st (chunks_of RequestChunk rid es) (chunks_of ResponseChunk rid es) (length (starts_of rid es))"

lemma trace_append:
  "chunks_of kind rid (xs @ ys) = chunks_of kind rid xs @ chunks_of kind rid ys"
  "starts_of rid (xs @ ys) = starts_of rid xs @ starts_of rid ys"
  by (simp_all add: chunks_of_def starts_of_def)

lemma trace_single:
  "chunks_of kind rid [Body f] = (if body_id f = rid \<and> body_kind f = kind then [f] else [])"
  "chunks_of kind rid [Control frame] = []" "starts_of rid [Body f] = []"
  by (simp_all add: chunks_of_def starts_of_def)

lemma trace_close: "spec_close st = Some st' \<Longrightarrow> trace_inv st q r k \<Longrightarrow> trace_inv st' q r k"
  by (cases st) auto

lemma trace_body:
  assumes "trace_facts rid st es" and "spec_body f st = Some st'" and "body_id f = rid"
  shows "trace_facts rid st' (es @ [Body f])"
  using assms by (cases st) (auto simp: trace_facts_def trace_append trace_single split: if_splits)

lemma trace_step:
  assumes "trace_facts rid st es" and "spec_step rid e st = Some st'"
  shows "trace_facts rid st' (es @ [e])"
proof (cases e)
  case (Body f)
  show ?thesis
  proof (cases "body_id f = rid")
    case True
    with assms Body show ?thesis by (simp add: spec_step_def trace_body)
  next
    case False
    with assms Body show ?thesis by (simp add: spec_step_def trace_facts_def trace_append trace_single)
  qed
next
  case (Control frame)
  show ?thesis
    using assms
    by (cases frame)
       (auto simp: Control spec_step_def trace_facts_def trace_append trace_single
          starts_of_def [of _ "[_]"] split: if_splits request_status.splits dest: trace_close)
qed

lemma trace_run:
  "trace_facts rid st pre \<Longrightarrow> spec_run rid st es = Some st' \<Longrightarrow> trace_facts rid st' (pre @ es)"
proof (induction es arbitrary: st pre)
  case Nil
  then show ?case by simp
next
  case (Cons e es)
  then obtain u where u: "spec_step rid e st = Some u" "spec_run rid u es = Some st'"
    by (auto split: option.splits)
  have "trace_facts rid u (pre @ [e])" by (rule trace_step [OF Cons.prems(1) u(1)])
  from Cons.IH [OF this u(2)] show ?case by simp
qed

lemma trace_inv_summary:
  "trace_inv st q r k \<Longrightarrow> in_order max_request_body_bytes q \<and> in_order max_response_body_bytes r \<and> k \<le> 1"
  by (cases st) auto

text \<open>
  C15: in an accepted trace a request identifier is opened at most once, even after it was
  closed or cancelled; the chunks of its body carry the numbers 0, 1, 2, \<dots> without gap or
  repetition and together are at most 16 MiB; the chunks of its response do the same, within 64 MiB.
\<close>

theorem accepted_trace_chunks_in_order:
  assumes "run_accepted default_session es = Some t"
  shows "length (starts_of rid es) \<le> 1
     \<and> (\<exists>n. map (\<lambda>f. unat (sequence f)) (chunks_of RequestChunk rid es) = [0..<n])
     \<and> payload_bytes (chunks_of RequestChunk rid es) \<le> 16 * 1024 * 1024
     \<and> (\<exists>n. map (\<lambda>f. unat (sequence f)) (chunks_of ResponseChunk rid es) = [0..<n])
     \<and> payload_bytes (chunks_of ResponseChunk rid es) \<le> 64 * 1024 * 1024"
proof -
  have "spec_run rid Fresh es = Some (request_status t rid)"
    using run_accepted_refines [OF assms session_ok_default, of rid] by (simp add: status_default)
  moreover have "trace_facts rid Fresh []"
    by (simp add: trace_facts_def chunks_of_def starts_of_def)
  ultimately have "trace_facts rid (request_status t rid) es"
    using trace_run [of rid Fresh "[]" es] by simp
  from trace_inv_summary [OF this [unfolded trace_facts_def]] show ?thesis
    by (simp add: in_order_def sequence_numbers_def max_request_body_bytes_def max_response_body_bytes_def)
qed

section \<open>A session, concretely\<close>

definition sample_token :: string where
  "sample_token = ''c6x_v1_AAAAAAAAAAAAAAAA_BBBBBBBBBBBBBBBBBBBBBBBBBBBBBBBB''"

definition sample_handshake :: "relay_event list" where
  "sample_handshake =
     [Control (ClientHello \<lparr>protocol_version = 1, connector_token = sample_token\<rparr>),
      Control (ServerReady \<lparr>installation_id = 5, generation = 1, ready_max_concurrent = 1,
                            ready_max_chunk = 65536\<rparr>)]"

definition sample_start :: request_start where
  "sample_start = \<lparr>start_id = 9, start_method = HttpMethod ''GET'', target = ''/api/v1/status'',
     start_headers = [], deadline_unix_ms = 1\<rparr>"

definition sample_trace :: "relay_event list" where
  "sample_trace = sample_handshake @
     [Control (RequestStart sample_start),
      Body \<lparr>body_kind = RequestChunk, body_id = 9, sequence = 0, payload = [104, 105]\<rparr>,
      Control (RequestEnd 9),
      Control (ResponseStart \<lparr>response_id = 9, status = 200, response_headers = []\<rparr>),
      Body \<lparr>body_kind = ResponseChunk, body_id = 9, sequence = 0, payload = [111]\<rparr>,
      Control (ResponseEnd 9)]"

lemma sample_token_class: "token_class_of sample_token = Some Connector"
proof -
  have "parse_token sample_token = Inr \<lparr>token_class = Connector, public_id = replicate 16 (CHR ''A''),
      proof_text = replicate 32 (CHR ''B'')\<rparr>"
    unfolding parse_token_iff
    by (simp add: render_token_def token_ok_def sample_token_def is_base64url_def char_simps
        list_all_iff numeral_eq_Suc)
  then show ?thesis by (simp add: token_class_of_def)
qed

lemma sample_handshake_run:
  "run_accepted default_session sample_handshake
     = Some \<lparr>handshake = Ready, flows = [], seen_request_ids = []\<rparr>"
  by (simp add: sample_handshake_def default_session_def observe_control_def observe_hello_def
      observe_server_ready_def sample_token_class relay_limits)

lemma sample_start_valid: "request_start_validate sample_start = Inr ()"
  by (simp add: request_start_validate_iff sample_start_def target_ok_def char_simps headers_size_def
      relay_limits)

lemma sample_trace_run:
  "run_accepted default_session sample_trace
     = Some \<lparr>handshake = Ready, flows = [], seen_request_ids = [9]\<rparr>"
proof -
  have id: "start_id sample_start = 9" by (simp add: sample_start_def)
  show ?thesis
    unfolding sample_trace_def run_accepted_append sample_handshake_run
    by (simp add: observe_control_def observe_request_start_def sample_start_valid id
        observe_body_def account_chunk_def sat_add64_def checked_add32_def observe_request_end_def
        observe_response_start_def response_start_validate_def validate_headers_def
        observe_response_end_def relay_limits)
qed

text \<open>The same session, stopped after the first chunk of the request.\<close>

lemma run_accepted_steps: "run_accepted s es = Some t \<Longrightarrow> run_steps observe s es = t"
proof (induction es arbitrary: s)
  case Nil
  then show ?case by simp
next
  case (Cons e es)
  then show ?case by (auto simp: run_accepted_Cons_Some simp del: run_accepted.simps)
qed

definition sample_open :: "relay_event list" where
  "sample_open = sample_handshake @ [Control (RequestStart sample_start),
     Body \<lparr>body_kind = RequestChunk, body_id = 9, sequence = 0, payload = [104, 105]\<rparr>]"

lemma sample_open_run:
  "run_steps observe default_session sample_open
     = \<lparr>handshake = Ready, flows = [(9, RequestBody 1 2)], seen_request_ids = [9]\<rparr>"
proof (rule run_accepted_steps)
  have id: "start_id sample_start = 9" by (simp add: sample_start_def)
  show "run_accepted default_session sample_open
     = Some \<lparr>handshake = Ready, flows = [(9, RequestBody 1 2)], seen_request_ids = [9]\<rparr>"
    unfolding sample_open_def run_accepted_append sample_handshake_run
    by (simp add: observe_control_def observe_request_start_def sample_start_valid id
        observe_body_def account_chunk_def sat_add64_def checked_add32_def relay_limits)
qed

theorem relay_session_bounded_witness:
  "hget (flows (run_steps observe default_session sample_open)) 9 = Some (RequestBody 1 2)
   \<and> in_flight (run_steps observe default_session sample_open) \<le> 32 \<and> (2 :: nat) \<le> 16 * 1024 * 1024"
proof -
  have get: "hget (flows (run_steps observe default_session sample_open)) 9 = Some (RequestBody 1 2)"
    by (simp add: sample_open_run)
  then show ?thesis using relay_session_bounded [of sample_open] by (auto simp: Let_def)
qed

theorem accepted_trace_refines_contract_witness:
  "spec_run 9 Fresh sample_trace = Some Closed"
  using accepted_trace_refines_contract [OF sample_trace_run, of 9]
  by (simp add: request_status_def)

theorem accepted_trace_chunks_in_order_witness:
  "length (starts_of 9 sample_trace) \<le> 1
     \<and> payload_bytes (chunks_of RequestChunk 9 sample_trace) \<le> 16 * 1024 * 1024
     \<and> payload_bytes (chunks_of ResponseChunk 9 sample_trace) \<le> 64 * 1024 * 1024"
  using accepted_trace_chunks_in_order [OF sample_trace_run, of 9] by blast

end
