(* ===== verification/Relay_Link.thy ===== *)
theory Relay_Link
  imports Relay_Session
begin

text \<open>
  One end of a relay connection: the web socket, the protocol validator both ends keep
  (\<open>RelaySessionState\<close>), and the sending of observed control frames and chunked bodies as
  \<^verbatim>\<open>crates/c6-cloud/src/lib.rs\<close> and \<^verbatim>\<open>crates/c6-connector/src/runtime.rs\<close> do it.  A socket is
  the list of what will still arrive (\<open>Inl\<close> a transport error; the end of the list is the end of
  the stream), what was sent, and how many more messages the peer takes before sending fails.
  serde's JSON encoding of control frames is the parameter \<open>codec\<close>.
\<close>

datatype ws_message =
    WsText string | WsBinary bytes | WsPing bytes | WsPong bytes | WsClose

record link =
  inbox :: "(unit + ws_message) list"
  sent :: "ws_message list"
  budget :: nat
  protocol :: relay_session

record codec =
  to_json :: "control_frame \<Rightarrow> string option"
  from_json :: "string \<Rightarrow> control_frame option"

text \<open>serde's derived implementations read back what they wrote.\<close>

definition codec_ok :: "codec \<Rightarrow> bool" where
  "codec_ok c \<longleftrightarrow> (\<forall>f t. to_json c f = Some t \<longrightarrow> from_json c t = Some f)"

section \<open>Effects\<close>

text \<open>An \<open>async\<close> function on a link: its result (\<open>?\<close> returns early) and the link after it.\<close>

type_synonym ('l, 'e, 'a) io = "'l \<Rightarrow> ('e + 'a) \<times> 'l"

definition io_return :: "'a \<Rightarrow> ('l, 'e, 'a) io" where
  "io_return a l = (Inr a, l)"

definition io_fail :: "'e \<Rightarrow> ('l, 'e, 'a) io" where
  "io_fail e l = (Inl e, l)"

definition io_bind :: "('l, 'e, 'a) io \<Rightarrow> ('a \<Rightarrow> ('l, 'e, 'b) io) \<Rightarrow> ('l, 'e, 'b) io" where
  "io_bind m k l = (case m l of (Inl e, l') \<Rightarrow> (Inl e, l') | (Inr a, l') \<Rightarrow> k a l')"

abbreviation io_then :: "('l, 'e, unit) io \<Rightarrow> ('l, 'e, 'b) io \<Rightarrow> ('l, 'e, 'b) io" where
  "io_then m k \<equiv> io_bind m (\<lambda>_. k)"

lemma io_bind_Inr: "m l = (Inr a, l') \<Longrightarrow> io_bind m k l = k a l'"
  by (simp add: io_bind_def)

lemma io_bind_Inl: "m l = (Inl e, l') \<Longrightarrow> io_bind m k l = (Inl e, l')"
  by (simp add: io_bind_def)

definition ws_send :: "'e \<Rightarrow> ws_message \<Rightarrow> ('x link_scheme, 'e, unit) io" where
  "ws_send err m l =
     (if budget l = 0 then (Inl err, l)
      else (Inr (), l\<lparr>sent := sent l @ [m], budget := budget l - 1\<rparr>))"

section \<open>Sending frames\<close>

text \<open>
  \<open>send_control\<close> of the cloud and \<open>send_observed_control\<close> of the connector: observe first, then
  encode, then send.  The three errors are the caller's: a message of the cloud, a
  \<open>RuntimeError\<close> of the connector.
\<close>

record 'e send_errors =
  err_rejected :: 'e
  err_encoding :: 'e
  err_transport :: 'e

definition send_control :: "codec \<Rightarrow> 'e send_errors \<Rightarrow> control_frame \<Rightarrow> ('x link_scheme, 'e, unit) io" where
  "send_control c errs frame l =
     (case observe_control (protocol l) frame of
        (Inl _, p) \<Rightarrow> (Inl (err_rejected errs), l\<lparr>protocol := p\<rparr>)
      | (Inr _, p) \<Rightarrow>
          (case to_json c frame of
             None \<Rightarrow> (Inl (err_encoding errs), l\<lparr>protocol := p\<rparr>)
           | Some text \<Rightarrow> ws_send (err_transport errs) (WsText text) (l\<lparr>protocol := p\<rparr>)))"

text \<open>\<open>slice::chunks\<close>.\<close>

function chunks :: "nat \<Rightarrow> 'a list \<Rightarrow> 'a list list" where
  "chunks n xs = (if xs = [] \<or> n = 0 then [] else take n xs # chunks n (drop n xs))"
  by pat_completeness auto
termination by (relation "measure (\<lambda>(n, xs). length xs)") auto

declare chunks.simps [simp del]

text \<open>
  The body of the \<open>for (sequence, chunk) in body.chunks(..).enumerate()\<close> loops; \<open>err_rejected\<close>
  is a chunk the own validator refuses.
\<close>

definition send_chunk ::
  "'e send_errors \<Rightarrow> body_kind \<Rightarrow> uuid \<Rightarrow> nat \<Rightarrow> bytes \<Rightarrow> ('x link_scheme, 'e, unit) io" where
  "send_chunk errs kind rid n chunk l =
     (let f = \<lparr>body_kind = kind, body_id = rid, sequence = word_of_nat n, payload = chunk\<rparr> in
      case observe_body (protocol l) f of
        (Inl _, p) \<Rightarrow> (Inl (err_rejected errs), l\<lparr>protocol := p\<rparr>)
      | (Inr _, p) \<Rightarrow>
          (case body_encode f of
             Inl _ \<Rightarrow> (Inl (err_encoding errs), l\<lparr>protocol := p\<rparr>)
           | Inr bs \<Rightarrow> ws_send (err_transport errs) (WsBinary bs) (l\<lparr>protocol := p\<rparr>)))"

primrec send_chunks ::
  "'e send_errors \<Rightarrow> body_kind \<Rightarrow> uuid \<Rightarrow> nat \<Rightarrow> bytes list \<Rightarrow> ('x link_scheme, 'e, unit) io" where
  "send_chunks errs kind rid n [] = io_return ()"
| "send_chunks errs kind rid n (x # xs) =
     io_then (send_chunk errs kind rid n x) (send_chunks errs kind rid (Suc n) xs)"

section \<open>Chunks\<close>

lemma chunks_Nil [simp]: "chunks n [] = []"
  by (simp add: chunks.simps)

lemma concat_chunks: "0 < n \<Longrightarrow> concat (chunks n xs) = xs"
proof (induction n xs rule: chunks.induct)
  case (1 n xs)
  then show ?case by (subst chunks.simps) auto
qed

lemma chunks_length: "0 < n \<Longrightarrow> length (chunks n xs) \<le> length xs"
proof (induction n xs rule: chunks.induct)
  case (1 n xs)
  show ?case
  proof (cases "xs = []")
    case False
    with 1 have "length (chunks n (drop n xs)) \<le> length xs - n" by simp
    with False 1(2) show ?thesis by (cases xs) (auto simp: chunks.simps [of n "_ # _"])
  qed simp
qed

lemma chunks_bounds: "x \<in> set (chunks n xs) \<Longrightarrow> x \<noteq> [] \<and> length x \<le> n"
proof (induction n xs rule: chunks.induct)
  case (1 n xs)
  from 1(2) have ne: "\<not> (xs = [] \<or> n = 0)" by (auto simp: chunks.simps [of n xs] split: if_splits)
  then have "x = take n xs \<or> x \<in> set (chunks n (drop n xs))"
    using 1(2) by (simp add: chunks.simps [of n xs])
  with 1(1) [OF ne] ne show ?case by auto
qed

section \<open>Sending a whole body\<close>

text \<open>The frames of a body, and the flow they leave.\<close>

definition chunk_frame :: "body_kind \<Rightarrow> uuid \<Rightarrow> nat \<Rightarrow> bytes \<Rightarrow> body_frame" where
  "chunk_frame kind rid n x =
     \<lparr>body_kind = kind, body_id = rid, sequence = word_of_nat n, payload = x\<rparr>"

primrec chunk_frames :: "body_kind \<Rightarrow> uuid \<Rightarrow> nat \<Rightarrow> bytes list \<Rightarrow> body_frame list" where
  "chunk_frames kind rid n [] = []"
| "chunk_frames kind rid n (x # xs) = chunk_frame kind rid n x # chunk_frames kind rid (Suc n) xs"

primrec flow_of :: "body_kind \<Rightarrow> u32 \<Rightarrow> nat \<Rightarrow> flow_state" where
  "flow_of RequestChunk n b = RequestBody n b"
| "flow_of ResponseChunk n b = ResponseBody n b"

primrec body_limit :: "body_kind \<Rightarrow> nat" where
  "body_limit RequestChunk = max_request_body_bytes"
| "body_limit ResponseChunk = max_response_body_bytes"

definition encoded :: "body_frame \<Rightarrow> bytes" where
  "encoded f = (case body_encode f of Inr bs \<Rightarrow> bs | Inl _ \<Rightarrow> [])"

lemma body_encode_Inr: "length (payload f) \<le> max_body_chunk_bytes \<Longrightarrow> body_encode f = Inr (encoded f)"
  by (simp add: body_encode_def encoded_def)

lemma body_limit_small: "body_limit kind < 2 ^ 64 - 1"
  by (cases kind) (simp_all add: relay_limits)

text \<open>One chunk is accepted when it is the next one and the total stays within the limit.\<close>

lemma observe_chunk:
  assumes "handshake s = Ready" and "hget (flows s) rid = Some (flow_of kind (word_of_nat n) b)"
    and "length x \<le> max_body_chunk_bytes" and "b + length x \<le> body_limit kind" and "Suc n < 2 ^ 32"
  shows "observe_body s (chunk_frame kind rid n x)
    = (Inr (), s\<lparr>flows := hput rid (flow_of kind (word_of_nat (Suc n)) (b + length x)) (flows s)\<rparr>)"
proof -
  have sat: "sat_add64 b (length x) = b + length x"
    using assms(4) body_limit_small [of kind] by (simp add: sat_add64_def)
  have "unat (word_of_nat n :: u32) = n"
    using assms(5) by (simp only: unat_of_nat) simp
  then have "checked_add32 (word_of_nat n) 1 = Some (word_of_nat n + 1)"
    using assms(5) by (simp only: checked_add32_def unsigned_1) simp
  then have "checked_add32 (word_of_nat n) 1 = Some (word_of_nat (Suc n))"
    by (simp only: of_nat_Suc add.commute)
  with assms sat show ?thesis
    by (cases kind) (simp_all add: observe_body_def chunk_frame_def account_chunk_def)
qed

definition body_sum :: "bytes list \<Rightarrow> nat" where
  "body_sum xs = (\<Sum>x\<leftarrow>xs. length x)"

lemma body_sum_simps [simp]:
  "body_sum [] = 0" "body_sum (x # xs) = length x + body_sum xs"
  by (simp_all add: body_sum_def)

lemma body_sum_concat: "body_sum xs = length (concat xs)"
  by (simp add: body_sum_def length_concat)

definition after_chunks :: "relay_session \<Rightarrow> body_kind \<Rightarrow> uuid \<Rightarrow> nat \<Rightarrow> nat \<Rightarrow> bytes list \<Rightarrow> relay_session" where
  "after_chunks s kind rid n b xs =
     (if xs = [] then s
      else s\<lparr>flows := hput rid (flow_of kind (word_of_nat (n + length xs)) (b + body_sum xs)) (flows s)\<rparr>)"

lemma hput_hput: "hput k v (hput k w m) = hput k v m"
  by (induction m) auto

lemma after_chunks_Cons:
  "after_chunks (s\<lparr>flows := hput rid (flow_of kind (word_of_nat (Suc n)) (b + length x)) (flows s)\<rparr>)
      kind rid (Suc n) (b + length x) xs = after_chunks s kind rid n b (x # xs)"
  by (simp add: after_chunks_def hput_hput add.assoc)

lemma send_chunks_ok:
  assumes "handshake (protocol l) = Ready"
    and "hget (flows (protocol l)) rid = Some (flow_of kind (word_of_nat n) b)"
    and "\<forall>x \<in> set xs. length x \<le> max_body_chunk_bytes"
    and "b + body_sum xs \<le> body_limit kind" and "n + length xs < 2 ^ 32"
    and "length xs \<le> budget l"
  shows "send_chunks errs kind rid n xs l =
     (Inr (), l\<lparr>sent := sent l @ map (\<lambda>f. WsBinary (encoded f)) (chunk_frames kind rid n xs),
               budget := budget l - length xs,
               protocol := after_chunks (protocol l) kind rid n b xs\<rparr>)"
  using assms
proof (induction xs arbitrary: n b l)
  case Nil
  then show ?case by (simp add: io_return_def after_chunks_def)
next
  case (Cons x xs)
  let ?f = "chunk_frame kind rid n x"
  let ?p = "(protocol l)\<lparr>flows := hput rid (flow_of kind (word_of_nat (Suc n)) (b + length x))
              (flows (protocol l))\<rparr>"
  let ?l = "l\<lparr>sent := sent l @ [WsBinary (encoded ?f)], budget := budget l - 1, protocol := ?p\<rparr>"
  have obs: "observe_body (protocol l) ?f = (Inr (), ?p)"
    using Cons.prems by (intro observe_chunk) simp_all
  have enc: "body_encode ?f = Inr (encoded ?f)"
    using Cons.prems(3) by (intro body_encode_Inr) (simp add: chunk_frame_def)
  have one: "send_chunk errs kind rid n x l = (Inr (), ?l)"
    using obs enc Cons.prems(6)
    by (simp add: send_chunk_def chunk_frame_def ws_send_def)
  have "send_chunks errs kind rid (Suc n) xs ?l =
     (Inr (), ?l\<lparr>sent := sent ?l @ map (\<lambda>f. WsBinary (encoded f)) (chunk_frames kind rid (Suc n) xs),
               budget := budget ?l - length xs,
               protocol := after_chunks (protocol ?l) kind rid (Suc n) (b + length x) xs\<rparr>)"
    by (rule Cons.IH) (use Cons.prems in \<open>simp_all add: hmap_simps\<close>)
  then show ?case
    by (simp only: send_chunks.simps io_bind_Inr [where m = "send_chunk errs kind rid n x", OF one])
       (simp add: after_chunks_Cons del: of_nat_Suc)
qed

lemma send_control_ok:
  assumes "observe_control (protocol l) frame = (Inr (), p)" and "to_json c frame = Some text"
    and "0 < budget l"
  shows "send_control c errs frame l =
    (Inr (), l\<lparr>sent := sent l @ [WsText text], budget := budget l - 1, protocol := p\<rparr>)"
  using assms by (simp add: send_control_def ws_send_def)

end
