(* ===== verification/Cloud_Relay.thy ===== *)
theory Cloud_Relay
  imports Relay_Link
begin

text \<open>
  The cloud end of the relay in \<^verbatim>\<open>crates/c6-cloud/src/lib.rs\<close>: turning a proxied HTTP request
  into an exchange (\<open>relay_proxy\<close>), running one exchange over the connector's socket
  (\<open>execute_exchange\<close>), the loop of \<open>relay_session\<close>, and the HTTP answer (\<open>proxy_response\<close>).
  Clock readings and fresh UUIDs are arguments; the \<open>http\<close> package's header parsing is the
  parameter \<open>http_lib\<close>.
\<close>

section \<open>Errors of the cloud API\<close>

datatype api_error = ApiError (err_status: nat) (err_code: string) (err_message: string)

definition api_bad :: "string \<Rightarrow> api_error" where
  "api_bad msg = ApiError 400 ''bad_request'' msg"

definition api_unauthenticated :: api_error where
  "api_unauthenticated = ApiError 401 ''unauthenticated'' ''authentication required''"

definition api_forbidden :: "string \<Rightarrow> api_error" where
  "api_forbidden msg = ApiError 403 ''forbidden'' msg"

definition api_not_found :: "string \<Rightarrow> api_error" where
  "api_not_found kind = ApiError 404 ''not_found'' (kind @ '' not found'')"

definition api_conflict :: "string \<Rightarrow> api_error" where
  "api_conflict msg = ApiError 409 ''conflict'' msg"

definition api_internal :: api_error where
  "api_internal = ApiError 500 ''internal'' ''internal server error''"

section \<open>One exchange\<close>

definition cloud_errs :: "string send_errors" where
  "cloud_errs = \<lparr>err_rejected = ''relay state rejected control frame'',
     err_encoding = ''relay control encoding failed'', err_transport = ''connector disconnected''\<rparr>"

definition cloud_body_errs :: "string send_errors" where
  "cloud_body_errs = \<lparr>err_rejected = ''relay protocol rejected request body'',
     err_encoding = ''relay request encoding failed'', err_transport = ''connector disconnected''\<rparr>"

record proxy_exchange =
  ex_method :: string
  ex_target :: string
  ex_headers :: "header_field list"
  ex_body :: bytes

record proxy_result =
  result_status :: u16
  result_headers :: "header_field list"
  result_body :: bytes

text \<open>The response loop, over what the socket still delivers.\<close>

fun exchange_loop ::
  "codec \<Rightarrow> uuid \<Rightarrow> u16 option \<Rightarrow> header_field list \<Rightarrow> bytes \<Rightarrow> (unit + ws_message) list
     \<Rightarrow> link \<Rightarrow> (string + proxy_result) \<times> link" where
  "exchange_loop c rid st hs body [] l = (Inl ''connector disconnected'', l)"
| "exchange_loop c rid st hs body (Inl _ # ms) l =
     (Inl ''connector transport failed'', l\<lparr>inbox := ms\<rparr>)"
| "exchange_loop c rid st hs body (Inr (WsText text) # ms) l =
     (case from_json c text of
        None \<Rightarrow> (Inl ''connector sent malformed control frame'', l\<lparr>inbox := ms\<rparr>)
      | Some frame \<Rightarrow>
          (case observe_control (protocol l) frame of
             (Inl _, p) \<Rightarrow> (Inl ''connector violated relay protocol'', l\<lparr>inbox := ms, protocol := p\<rparr>)
           | (Inr _, p) \<Rightarrow>
               (let l' = l\<lparr>inbox := ms, protocol := p\<rparr>;
                    wrong = (Inl ''connector sent a frame for the wrong request'', l') in
                case frame of
                  ResponseStart f \<Rightarrow>
                    if response_id f = rid
                    then exchange_loop c rid (Some (status f)) (response_headers f) body ms l'
                    else wrong
                | ResponseEnd i \<Rightarrow>
                    if i = rid
                    then (case st of
                        None \<Rightarrow> (Inl ''connector ended response before status'', l')
                      | Some s \<Rightarrow> (Inr \<lparr>result_status = s, result_headers = hs, result_body = body\<rparr>, l'))
                    else wrong
                | RequestFailed f \<Rightarrow>
                    if failed_id f = rid
                    then (case failure_code f of
                        Timeout \<Rightarrow> (Inl ''local request timed out'', l')
                      | _ \<Rightarrow> (Inl ''local C6 request failed'', l'))
                    else wrong
                | Ping n \<Rightarrow>
                    (case send_control c cloud_errs (Pong n) l' of
                       (Inl e, l'') \<Rightarrow> (Inl e, l'')
                     | (Inr _, l'') \<Rightarrow> exchange_loop c rid st hs body ms l'')
                | Pong n \<Rightarrow> exchange_loop c rid st hs body ms l'
                | _ \<Rightarrow> wrong)))"
| "exchange_loop c rid st hs body (Inr (WsBinary bs) # ms) l =
     (case body_decode bs of
        Inl _ \<Rightarrow> (Inl ''connector sent malformed response body'', l\<lparr>inbox := ms\<rparr>)
      | Inr f \<Rightarrow>
          if body_kind f \<noteq> ResponseChunk \<or> body_id f \<noteq> rid
          then (Inl ''connector sent a body for the wrong request'', l\<lparr>inbox := ms\<rparr>)
          else (case observe_body (protocol l) f of
              (Inl _, p) \<Rightarrow> (Inl ''connector violated relay body limits'', l\<lparr>inbox := ms, protocol := p\<rparr>)
            | (Inr _, p) \<Rightarrow>
                let body' = body @ payload f in
                if max_response_body_bytes < length body'
                then (Inl ''local response exceeded relay limit'', l\<lparr>inbox := ms, protocol := p\<rparr>)
                else exchange_loop c rid st hs body' ms (l\<lparr>inbox := ms, protocol := p\<rparr>)))"
| "exchange_loop c rid st hs body (Inr (WsPing bs) # ms) l =
     (case ws_send ''connector disconnected'' (WsPong bs) (l\<lparr>inbox := ms\<rparr>) of
        (Inl e, l') \<Rightarrow> (Inl e, l')
      | (Inr _, l') \<Rightarrow> exchange_loop c rid st hs body ms l')"
| "exchange_loop c rid st hs body (Inr _ # ms) l =
     (Inl ''connector closed during request'', l\<lparr>inbox := ms\<rparr>)"

definition receive_response :: "codec \<Rightarrow> uuid \<Rightarrow> (link, string, proxy_result) io" where
  "receive_response c rid l = exchange_loop c rid None [] [] (inbox l) l"

definition start_frame :: "uuid \<Rightarrow> u64 \<Rightarrow> http_method \<Rightarrow> proxy_exchange \<Rightarrow> request_start" where
  "start_frame rid deadline m ex =
     \<lparr>start_id = rid, start_method = m, target = ex_target ex, start_headers = ex_headers ex,
      deadline_unix_ms = deadline\<rparr>"

text \<open>
  \<open>rid\<close> is \<open>Uuid::new_v4()\<close> and \<open>deadline\<close> the clock's reading plus 30 seconds, at least 1.
\<close>

definition execute_exchange ::
  "codec \<Rightarrow> uuid \<Rightarrow> u64 \<Rightarrow> proxy_exchange \<Rightarrow> (link, string, proxy_result) io" where
  "execute_exchange c rid deadline ex =
     (case http_method_new (ex_method ex) of
        Inl _ \<Rightarrow> io_fail ''invalid relay method''
      | Inr m \<Rightarrow>
          io_then (send_control c cloud_errs (RequestStart (start_frame rid deadline m ex)))
         (io_then (send_chunks cloud_body_errs RequestChunk rid 0 (chunks max_body_chunk_bytes (ex_body ex)))
         (io_then (send_control c cloud_errs (RequestEnd rid))
            (receive_response c rid))))"

section \<open>The session loop\<close>

text \<open>
  What wakes the loop: an exchange from the queue (with the identifier and the deadline it will
  draw, and whether its total deadline passes first), the queue's end, or the socket.
\<close>

datatype session_event =
    Exchange uuid u64 bool proxy_exchange
  | QueueClosed
  | SocketReady

datatype session_reply = NoReply | Reply "string + proxy_result"

definition session_step ::
  "codec \<Rightarrow> link \<Rightarrow> session_event \<Rightarrow> (bool \<times> session_reply) \<times> link" where
  "session_step c l ev =
     (case ev of
        QueueClosed \<Rightarrow> ((False, NoReply), l)
      | Exchange rid deadline timed_out ex \<Rightarrow>
          (let (r, l') = execute_exchange c rid deadline ex l;
               result = (if timed_out then Inl ''relay exchange exceeded its total deadline'' else r)
           in ((\<not> timed_out \<and> is_ok result \<and> is_ready (protocol l'), Reply result), l'))
      | SocketReady \<Rightarrow>
          (case inbox l of
             Inr (WsPing bs) # ms \<Rightarrow>
               (case ws_send () (WsPong bs) (l\<lparr>inbox := ms\<rparr>) of
                  (Inl _, l') \<Rightarrow> ((False, NoReply), l')
                | (Inr _, l') \<Rightarrow> ((True, NoReply), l'))
           | Inr (WsText text) # ms \<Rightarrow>
               (case from_json c text of
                  Some (Ping n) \<Rightarrow>
                    (case observe_control (protocol l) (Ping n) of
                       (Inl _, p) \<Rightarrow> ((False, NoReply), l\<lparr>inbox := ms, protocol := p\<rparr>)
                     | (Inr _, p) \<Rightarrow>
                         (case send_control c cloud_errs (Pong n) (l\<lparr>inbox := ms, protocol := p\<rparr>) of
                            (Inl _, l') \<Rightarrow> ((False, NoReply), l')
                          | (Inr _, l') \<Rightarrow> ((True, NoReply), l')))
                | _ \<Rightarrow> ((False, NoReply), l\<lparr>inbox := ms\<rparr>))
           | _ # ms \<Rightarrow> ((False, NoReply), l\<lparr>inbox := ms\<rparr>)
           | [] \<Rightarrow> ((False, NoReply), l)))"

text \<open>
  The handshake at the start of \<open>relay_session\<close>, up to the answer \<open>ServerReady\<close>; \<open>None\<close> is the
  silent return.  \<open>installation\<close> is the parsed installation id.
\<close>

definition session_open ::
  "codec \<Rightarrow> string \<Rightarrow> uuid option \<Rightarrow> link \<Rightarrow> link option" where
  "session_open c authorization installation l =
     (case inbox l of
        Inr (WsText text) # ms \<Rightarrow>
          (case from_json c text of
             Some (ClientHello hello) \<Rightarrow>
               if connector_token hello \<noteq> authorization then None
               else (case observe_control default_session (ClientHello hello) of
                   (Inl _, _) \<Rightarrow> None
                 | (Inr _, p) \<Rightarrow>
                     (case installation of
                        None \<Rightarrow> None
                      | Some i \<Rightarrow>
                          (case send_control c cloud_errs
                              (ServerReady \<lparr>installation_id = i, generation = 1,
                                 ready_max_concurrent = 1,
                                 ready_max_chunk = word_of_nat max_body_chunk_bytes\<rparr>)
                              (l\<lparr>inbox := ms, protocol := p\<rparr>) of
                             (Inl _, _) \<Rightarrow> None
                           | (Inr _, l') \<Rightarrow> Some l')))
           | _ \<Rightarrow> None)
      | _ \<Rightarrow> None)"

section \<open>From an HTTP request to an exchange\<close>

record http_lib =
  header_name_from :: "string \<Rightarrow> string option"
  header_value_ok :: "string \<Rightarrow> bool"
  header_value_str :: "string \<Rightarrow> string option"
  status_code_ok :: "u16 \<Rightarrow> bool"

text \<open>A parsed header name is the given one in lower case.\<close>

definition http_lib_ok :: "http_lib \<Rightarrow> bool" where
  "http_lib_ok lib \<longleftrightarrow> (\<forall>s n. header_name_from lib s = Some n \<longrightarrow> n = map to_lower s)"

record proxy_parts =
  rq_method :: string
  rq_path :: string
  rq_query :: "string option"
  rq_headers :: "(string \<times> string) list"

primrec collect_headers :: "http_lib \<Rightarrow> (string \<times> string) list \<Rightarrow> api_error + header_field list" where
  "collect_headers lib [] = Inr []"
| "collect_headers lib (nv # rest) =
     (if fst nv = ''cookie'' then collect_headers lib rest
      else case header_value_str lib (snd nv) of
          None \<Rightarrow> Inl (api_bad ''relay headers must be visible ASCII'')
        | Some v \<Rightarrow>
            (let field = \<lparr>header_name = fst nv, header_value = v\<rparr> in
             rbind (collect_headers lib rest)
               (\<lambda>fs. Inr (if is_ok (header_validate field) then field # fs else fs))))"

definition relay_target :: "proxy_parts \<Rightarrow> string" where
  "relay_target rq = (case rq_query rq of
      Some q \<Rightarrow> ''/'' @ rq_path rq @ ''?'' @ q
    | None \<Rightarrow> ''/'' @ rq_path rq)"

text \<open>The body, read with \<open>to_bytes\<close> under the deadline: \<open>None\<close> when the client breaks off.\<close>

definition proxy_request_of ::
  "http_lib \<Rightarrow> proxy_parts \<Rightarrow> bool \<Rightarrow> bytes option \<Rightarrow> api_error + proxy_exchange" where
  "proxy_request_of lib rq late raw =
     (if \<not> is_ok (http_method_new (rq_method rq)) then Inl (api_bad ''unsupported relay method'')
      else rbind (collect_headers lib (rq_headers rq)) (\<lambda>hs.
        if late then Inl (ApiError 504 ''relay_timeout'' ''relay request body did not arrive before the deadline'')
        else (case raw of
            Some b \<Rightarrow>
              if length b \<le> max_request_body_bytes
              then Inr \<lparr>ex_method = rq_method rq, ex_target = relay_target rq, ex_headers = hs, ex_body = b\<rparr>
              else Inl (ApiError 413 ''payload_too_large'' ''relay request body is too large'')
          | None \<Rightarrow> Inl (ApiError 413 ''payload_too_large'' ''relay request body is too large''))))"

text \<open>What becomes of the exchange after it was built: admission to the queue, and the answer.\<close>

datatype admission = Admitted | QueueGone | QueueTimeout

record http_response =
  http_status :: u16
  http_headers :: "(string \<times> string) list"
  http_body :: bytes

definition proxy_response :: "http_lib \<Rightarrow> proxy_result \<Rightarrow> http_response" where
  "proxy_response lib r =
     \<lparr>http_status = (if status_code_ok lib (result_status r) then result_status r else 502),
      http_headers = [(n, header_value f). f \<leftarrow> result_headers r,
         n \<leftarrow> (if map to_lower (header_name f) = ''set-cookie'' then []
               else case header_name_from lib (header_name f) of
                   Some n \<Rightarrow> if header_value_ok lib (header_value f) then [n] else []
                 | None \<Rightarrow> [])],
      http_body = result_body r\<rparr>"

definition relay_proxy ::
  "http_lib \<Rightarrow> bool \<Rightarrow> proxy_parts \<Rightarrow> bool \<Rightarrow> bytes option \<Rightarrow> admission
     \<Rightarrow> (proxy_exchange \<Rightarrow> (string + proxy_result) option) \<Rightarrow> api_error + http_response" where
  "relay_proxy lib registered rq late raw adm answer =
     (if \<not> registered then Inl (ApiError 502 ''relay_unavailable'' ''installation is not connected'')
      else rbind (proxy_request_of lib rq late raw) (\<lambda>ex.
        case adm of
          QueueGone \<Rightarrow> Inl (ApiError 502 ''relay_unavailable'' ''installation disconnected'')
        | QueueTimeout \<Rightarrow> Inl (ApiError 504 ''relay_timeout''
             ''relay queue did not admit the request before the deadline'')
        | Admitted \<Rightarrow>
            (case answer ex of
               Some (Inr result) \<Rightarrow> Inr (proxy_response lib result)
             | Some (Inl msg) \<Rightarrow> Inl (ApiError 502 ''upstream_failed'' msg)
             | None \<Rightarrow> Inl (ApiError 504 ''relay_timeout''
                 ''installation did not respond before the deadline''))))"

section \<open>Header hygiene of the proxy\<close>

lemma collect_headers_ok:
  "collect_headers lib hs = Inr fs \<Longrightarrow>
     list_all (\<lambda>f. header_ok f \<and> header_name f \<noteq> ''cookie'') fs"
proof (induction hs arbitrary: fs)
  case Nil
  then show ?case by simp
next
  case (Cons nv rest)
  show ?case
  proof (cases "fst nv = ''cookie''")
    case True
    with Cons show ?thesis by simp
  next
    case False
    with Cons.prems obtain v gs where gs: "collect_headers lib rest = Inr gs"
      and fs: "fs = (if is_ok (header_validate \<lparr>header_name = fst nv, header_value = v\<rparr>)
                     then \<lparr>header_name = fst nv, header_value = v\<rparr> # gs else gs)"
      by (auto simp: result_simps Let_def split: option.splits)
    with Cons.IH [OF gs] False show ?thesis
      by (auto simp: is_ok_iff header_validate_iff)
  qed
qed

lemma header_name_lower:
  "Some n = header_name_from lib s \<Longrightarrow> http_lib_ok lib \<Longrightarrow> map to_lower s = n"
  by (metis http_lib_ok_def)

text \<open>
  The cookies of the account pages never cross the relay, in either direction: an
  exchange built from a request carries only validated, permitted headers, none of them a cookie,
  and a bounded body; and no answer of an installation sets a cookie of the cloud.
\<close>

theorem relay_cookies_isolated:
  assumes "http_lib_ok lib"
  shows "(case proxy_request_of lib rq late raw of
       Inr ex \<Rightarrow> list_all (\<lambda>f. header_ok f \<and> header_name f \<noteq> ''cookie'') (ex_headers ex)
          \<and> length (ex_body ex) \<le> 16 * 1024 * 1024 \<and> ex_method ex \<in> set relay_methods
     | Inl e \<Rightarrow> err_status e \<in> {400, 413, 504})
   \<and> ''set-cookie'' \<notin> set (map fst (http_headers (proxy_response lib r)))"
proof
  show "''set-cookie'' \<notin> set (map fst (http_headers (proxy_response lib r)))"
    using assms by (auto simp: proxy_response_def dest: header_name_lower split: if_splits option.splits)
  have bad: "collect_headers lib hs = Inl e \<Longrightarrow> err_status e = 400" for hs e
    by (induction hs) (auto simp: rbind_Inl_iff Let_def api_bad_def split: if_splits option.splits)
  show "case proxy_request_of lib rq late raw of
       Inr ex \<Rightarrow> list_all (\<lambda>f. header_ok f \<and> header_name f \<noteq> ''cookie'') (ex_headers ex)
          \<and> length (ex_body ex) \<le> 16 * 1024 * 1024 \<and> ex_method ex \<in> set relay_methods
     | Inl e \<Rightarrow> err_status e \<in> {400, 413, 504}"
  proof (cases "proxy_request_of lib rq late raw")
    case (Inl e)
    then show ?thesis
      by (auto simp: proxy_request_of_def api_bad_def rbind_Inl_iff dest: bad
          split: if_splits option.splits)
  next
    case (Inr ex)
    then obtain hs where hs: "collect_headers lib (rq_headers rq) = Inr hs" "ex_headers ex = hs"
        "length (ex_body ex) \<le> max_request_body_bytes" "is_ok (http_method_new (rq_method rq))"
        "ex_method ex = rq_method rq"
      by (auto simp: proxy_request_of_def result_simps split: if_splits option.splits)
    with Inr collect_headers_ok [OF hs(1)] show ?thesis
      by (simp add: max_request_body_bytes_def http_method_new_def split: if_splits)
  qed
qed

definition ascii_http :: http_lib where
  "ascii_http = \<lparr>header_name_from = (\<lambda>s. if s = [] then None else Some (map to_lower s)),
     header_value_ok = list_all (\<lambda>c. \<not> ascii_control c), header_value_str = Some,
     status_code_ok = (\<lambda>s. 100 \<le> unat s \<and> unat s \<le> 999)\<rparr>"

lemma ascii_http_ok: "http_lib_ok ascii_http"
  by (simp add: http_lib_ok_def ascii_http_def)

theorem relay_cookies_isolated_witness:
  "''set-cookie'' \<notin> set (map fst (http_headers (proxy_response ascii_http
      \<lparr>result_status = 200, result_headers = [\<lparr>header_name = ''Set-Cookie'', header_value = ''a=b''\<rparr>,
         \<lparr>header_name = ''accept'', header_value = ''x''\<rparr>], result_body = []\<rparr>)))"
  using relay_cookies_isolated [OF ascii_http_ok] by blast

section \<open>A response, received\<close>

definition response_frames ::
  "codec \<Rightarrow> uuid \<Rightarrow> proxy_result \<Rightarrow> string \<Rightarrow> string \<Rightarrow> ws_message list" where
  "response_frames c rid r t1 t2 =
     [WsText t1]
     @ map (\<lambda>f. WsBinary (encoded f))
         (chunk_frames ResponseChunk rid 0 (chunks max_body_chunk_bytes (result_body r)))
     @ [WsText t2]"

lemma decode_encoded:
  "length x \<le> max_body_chunk_bytes \<Longrightarrow> body_decode (encoded (chunk_frame kind rid n x)) = Inr (chunk_frame kind rid n x)"
  by (rule body_codec.decode_encode) (simp add: body_encode_Inr chunk_frame_def)

lemma receive_chunks:
  assumes "handshake (protocol l) = Ready"
    and "hget (flows (protocol l)) rid = Some (ResponseBody (word_of_nat n) b)"
    and "length body = b"
    and "\<forall>x \<in> set xs. length x \<le> max_body_chunk_bytes"
    and "b + body_sum xs \<le> max_response_body_bytes" and "n + length xs < 2 ^ 32"
    and "inbox l = map (\<lambda>f. Inr (WsBinary (encoded f))) (chunk_frames ResponseChunk rid n xs) @ ms"
  shows "exchange_loop c rid st hs body (inbox l) l =
     exchange_loop c rid st hs (body @ concat xs) ms
       (l\<lparr>inbox := ms, protocol := after_chunks (protocol l) ResponseChunk rid n b xs\<rparr>)"
  using assms
proof (induction xs arbitrary: n b body l)
  case Nil
  then show ?case by (cases l) (simp add: after_chunks_def)
next
  case (Cons x xs)
  let ?f = "chunk_frame ResponseChunk rid n x"
  let ?p = "(protocol l)\<lparr>flows := hput rid (flow_of ResponseChunk (word_of_nat (Suc n)) (b + length x))
              (flows (protocol l))\<rparr>"
  let ?ms = "map (\<lambda>f. Inr (WsBinary (encoded f))) (chunk_frames ResponseChunk rid (Suc n) xs) @ ms"
  let ?l = "l\<lparr>inbox := ?ms, protocol := ?p\<rparr>"
  have obs: "observe_body (protocol l) ?f = (Inr (), ?p)"
    using Cons.prems by (intro observe_chunk) simp_all
  have dec: "body_decode (encoded ?f) = Inr ?f"
    using Cons.prems(4) by (intro decode_encoded) simp
  have fields: "body_kind ?f = ResponseChunk" "body_id ?f = rid" "payload ?f = x"
    by (simp_all add: chunk_frame_def)
  have "exchange_loop c rid st hs body (inbox l) l = exchange_loop c rid st hs (body @ x) ?ms ?l"
    using Cons.prems(3,5,7) obs dec fields by (simp del: of_nat_Suc)
  also have "\<dots> = exchange_loop c rid st hs (body @ x) (inbox ?l) ?l" by simp
  also have "\<dots> = exchange_loop c rid st hs ((body @ x) @ concat xs) ms
       (?l\<lparr>inbox := ms, protocol := after_chunks (protocol ?l) ResponseChunk rid (Suc n) (b + length x) xs\<rparr>)"
    by (rule Cons.IH) (use Cons.prems in \<open>simp_all add: hmap_simps del: of_nat_Suc\<close>)
  finally show ?case
    using after_chunks_Cons [where s = "protocol l" and rid = rid and kind = ResponseChunk and n = n and b = b and x = x and xs = xs] by (simp del: of_nat_Suc)
qed

lemma chunk_count: "length b \<le> max_response_body_bytes \<Longrightarrow> length (chunks max_body_chunk_bytes b) < 2 ^ 32"
  using chunks_length [of max_body_chunk_bytes b] by (simp add: relay_limits)

lemma chunks_fit: "\<forall>x \<in> set (chunks max_body_chunk_bytes b). length x \<le> max_body_chunk_bytes"
  by (auto dest: chunks_bounds)

lemma concat_body [simp]: "concat (chunks max_body_chunk_bytes b) = b"
  by (rule concat_chunks) (simp add: relay_limits)

lemma body_sum_body [simp]: "body_sum (chunks max_body_chunk_bytes b) = length b"
  by (simp add: body_sum_concat)

definition result_start :: "uuid \<Rightarrow> proxy_result \<Rightarrow> response_start" where
  "result_start rid r = \<lparr>response_id = rid, status = result_status r, response_headers = result_headers r\<rparr>"

lemma receive_response_ok:
  assumes json: "from_json c t1 = Some (ResponseStart (result_start rid r))"
      "from_json c t2 = Some (ResponseEnd rid)"
    and ready: "handshake (protocol l) = Ready"
    and flow: "hget (flows (protocol l)) rid = Some AwaitingResponse"
    and valid: "response_start_validate (result_start rid r) = Inr ()"
    and fits: "length (result_body r) \<le> max_response_body_bytes"
    and inbox: "inbox l = map Inr (response_frames c rid r t1 t2) @ ms"
  shows "receive_response c rid l =
    (Inr r, l\<lparr>inbox := ms, protocol := (protocol l)\<lparr>flows := hdel rid (flows (protocol l))\<rparr>\<rparr>)"
proof -
  let ?xs = "chunks max_body_chunk_bytes (result_body r)"
  let ?m1 = "map (\<lambda>f. Inr (WsBinary (encoded f))) (chunk_frames ResponseChunk rid 0 ?xs) @ Inr (WsText t2) # ms"
  let ?p1 = "(protocol l)\<lparr>flows := hput rid (ResponseBody 0 0) (flows (protocol l))\<rparr>"
  let ?l1 = "l\<lparr>inbox := ?m1, protocol := ?p1\<rparr>"
  let ?p2 = "after_chunks (protocol ?l1) ResponseChunk rid 0 0 ?xs"
  let ?l2 = "?l1\<lparr>inbox := Inr (WsText t2) # ms, protocol := ?p2\<rparr>"
  have in1: "inbox l = Inr (WsText t1) # ?m1" using inbox by (simp add: response_frames_def)
  have obs1: "observe_control (protocol l) (ResponseStart (result_start rid r)) = (Inr (), ?p1)"
    using ready flow valid by (simp add: observe_control_def observe_response_start_def result_start_def)
  have "receive_response c rid l =
      exchange_loop c rid (Some (result_status r)) (result_headers r) [] (inbox ?l1) ?l1"
    by (simp add: receive_response_def in1 json obs1) (simp add: result_start_def)
  also have "\<dots> = exchange_loop c rid (Some (result_status r)) (result_headers r) ([] @ concat ?xs)
      (Inr (WsText t2) # ms) ?l2"
    by (rule receive_chunks)
       (use ready fits chunk_count [OF fits] chunks_fit in \<open>simp_all add: hmap_simps\<close>)
  finally have loop: "receive_response c rid l =
     exchange_loop c rid (Some (result_status r)) (result_headers r) (result_body r) (Inr (WsText t2) # ms) ?l2"
    by simp
  have p2: "handshake ?p2 = Ready" "\<exists>k b. hget (flows ?p2) rid = Some (ResponseBody k b)"
    using ready by (auto simp: after_chunks_def hmap_simps)
  have del: "?p2\<lparr>flows := hdel rid (flows ?p2)\<rparr> = (protocol l)\<lparr>flows := hdel rid (flows (protocol l))\<rparr>"
    by (simp add: after_chunks_def AList.delete_update_same)
  have obs2: "observe_control ?p2 (ResponseEnd rid)
      = (Inr (), (protocol l)\<lparr>flows := hdel rid (flows (protocol l))\<rparr>)"
    using p2 del by (auto simp: observe_control_def observe_response_end_def)
  show ?thesis unfolding loop using obs2 by (cases r) (simp add: json)
qed

section \<open>A whole exchange\<close>

text \<open>The messages one exchange sends.\<close>

definition request_frames :: "uuid \<Rightarrow> bytes \<Rightarrow> string \<Rightarrow> string \<Rightarrow> ws_message list" where
  "request_frames rid body t1 t2 =
     [WsText t1]
     @ map (\<lambda>f. WsBinary (encoded f)) (chunk_frames RequestChunk rid 0 (chunks max_body_chunk_bytes body))
     @ [WsText t2]"

definition can_open :: "relay_session \<Rightarrow> uuid \<Rightarrow> bool" where
  "can_open s rid \<longleftrightarrow> handshake s = Ready \<and> rid \<notin> set (seen_request_ids s) \<and> rid \<notin> hkeys (flows s)
     \<and> length (flows s) < max_concurrent_requests \<and> length (seen_request_ids s) < max_request_ids_per_session"

lemma observe_start_ok:
  assumes "can_open s (start_id f)" and "request_start_validate f = Inr ()"
  shows "observe_control s (RequestStart f) =
     (Inr (), s\<lparr>seen_request_ids := start_id f # seen_request_ids s,
                flows := hput (start_id f) (RequestBody 0 0) (flows s)\<rparr>)"
  using assms hget_None_iff [of "flows s" "start_id f"]
  by (auto simp: can_open_def observe_control_def observe_request_start_def)

lemma hdel_hput_fresh: "rid \<notin> hkeys m \<Longrightarrow> hdel rid (hput rid v m) = m"
  by (simp add: AList.delete_update_same AList.delete_idem hkeys_def)

lemma request_chunk_count:
  "length b \<le> max_request_body_bytes \<Longrightarrow> length (chunks max_body_chunk_bytes b) < 2 ^ 32"
  by (rule chunk_count) (simp add: relay_limits)

definition sent_link :: "link \<Rightarrow> ws_message list \<Rightarrow> relay_session \<Rightarrow> link" where
  "sent_link l ms p = l\<lparr>sent := sent l @ ms, budget := budget l - length ms, protocol := p\<rparr>"

lemma chunk_frames_length [simp]: "length (chunk_frames k rid n xs) = length xs"
  by (induction xs arbitrary: n) auto

text \<open>The sending half, as a block: start, chunks, end.\<close>

definition send_request ::
  "codec \<Rightarrow> request_start \<Rightarrow> bytes \<Rightarrow> (link, string, unit) io" where
  "send_request c f body =
     io_then (send_control c cloud_errs (RequestStart f))
    (io_then (send_chunks cloud_body_errs RequestChunk (start_id f) 0 (chunks max_body_chunk_bytes body))
       (send_control c cloud_errs (RequestEnd (start_id f))))"

lemma io_bind_assoc: "io_bind (io_bind m k) h = io_bind m (\<lambda>a. io_bind (k a) h)"
  by (auto simp: io_bind_def fun_eq_iff split: prod.splits sum.splits)

lemma execute_exchange_split:
  "http_method_new (ex_method ex) = Inr m \<Longrightarrow> execute_exchange c rid d ex =
     io_then (send_request c (start_frame rid d m ex) (ex_body ex)) (receive_response c rid)"
  by (simp add: execute_exchange_def send_request_def io_bind_assoc start_frame_def)

lemma send_request_ok:
  assumes can: "can_open (protocol l) (start_id f)" and valid: "request_start_validate f = Inr ()"
    and fits: "length body \<le> max_request_body_bytes"
    and json: "to_json c (RequestStart f) = Some t1" "to_json c (RequestEnd (start_id f)) = Some t2"
    and room: "length (request_frames (start_id f) body t1 t2) \<le> budget l"
  shows "send_request c f body l =
    (Inr (), sent_link l (request_frames (start_id f) body t1 t2)
       ((protocol l)\<lparr>seen_request_ids := start_id f # seen_request_ids (protocol l),
          flows := hput (start_id f) AwaitingResponse (flows (protocol l))\<rparr>))"
proof -
  let ?rid = "start_id f" and ?xs = "chunks max_body_chunk_bytes body"
  let ?p1 = "(protocol l)\<lparr>seen_request_ids := ?rid # seen_request_ids (protocol l),
                flows := hput ?rid (RequestBody 0 0) (flows (protocol l))\<rparr>"
  let ?l1 = "l\<lparr>sent := sent l @ [WsText t1], budget := budget l - 1, protocol := ?p1\<rparr>"
  let ?p2 = "after_chunks (protocol ?l1) RequestChunk ?rid 0 0 ?xs"
  let ?l2 = "?l1\<lparr>sent := sent ?l1 @ map (\<lambda>f. WsBinary (encoded f)) (chunk_frames RequestChunk ?rid 0 ?xs),
       budget := budget ?l1 - length ?xs, protocol := ?p2\<rparr>"
  let ?p3 = "?p2\<lparr>flows := hput ?rid AwaitingResponse (flows ?p2)\<rparr>"
  have room': "2 + length ?xs \<le> budget l" using room by (simp add: request_frames_def)
  have s1: "send_control c cloud_errs (RequestStart f) l = (Inr (), ?l1)"
    using observe_start_ok [OF can valid] json(1) room' by (intro send_control_ok) simp_all
  have s2: "send_chunks cloud_body_errs RequestChunk ?rid 0 ?xs ?l1 = (Inr (), ?l2)"
    by (rule send_chunks_ok)
       (use can fits chunks_fit request_chunk_count [OF fits] room' in \<open>simp_all add: can_open_def hmap_simps\<close>)
  have h2: "handshake ?p2 = Ready" "\<exists>k b. hget (flows ?p2) ?rid = Some (RequestBody k b)"
    using can by (auto simp: can_open_def after_chunks_def hmap_simps)
  have obs3: "observe_control ?p2 (RequestEnd ?rid) = (Inr (), ?p3)"
    using h2 by (auto simp: observe_control_def observe_request_end_def)
  have s3: "send_control c cloud_errs (RequestEnd ?rid) ?l2 =
     (Inr (), ?l2\<lparr>sent := sent ?l2 @ [WsText t2], budget := budget ?l2 - 1, protocol := ?p3\<rparr>)"
    by (rule send_control_ok) (use obs3 json(2) room' in simp_all)
  have p3: "?p3 = (protocol l)\<lparr>seen_request_ids := ?rid # seen_request_ids (protocol l),
          flows := hput ?rid AwaitingResponse (flows (protocol l))\<rparr>"
    by (simp add: after_chunks_def hput_hput)
  have link: "?l2\<lparr>sent := sent ?l2 @ [WsText t2], budget := budget ?l2 - 1, protocol := ?p3\<rparr>
      = sent_link l (request_frames ?rid body t1 t2) ?p3"
    by (simp add: sent_link_def request_frames_def)
  have "send_request c f body l =
     (Inr (), ?l2\<lparr>sent := sent ?l2 @ [WsText t2], budget := budget ?l2 - 1, protocol := ?p3\<rparr>)"
    by (simp only: send_request_def io_bind_def s1 s2 s3 prod.case sum.case)
  also have "\<dots> = (Inr (), sent_link l (request_frames ?rid body t1 t2) ?p3)"
    by (simp only: link)
  finally show ?thesis by (simp only: p3)
qed

text \<open>
  C8: an exchange delivers exactly: on an open session with room for one more request, a
  valid request whose body is within the limit is sent whole, and when the connector answers with
  the frames of a response, the exchange returns exactly the status, the headers and the body of
  that response, whatever its length, and leaves the session ready with its other requests as
  they were.
\<close>

theorem exchange_delivers_response:
  assumes "can_open (protocol l) rid" and "http_method_new (ex_method ex) = Inr m"
    and "request_start_validate (start_frame rid d m ex) = Inr ()"
    and "length (ex_body ex) \<le> max_request_body_bytes"
    and "to_json c (RequestStart (start_frame rid d m ex)) = Some t1"
    and "to_json c (RequestEnd rid) = Some t2"
    and "length (request_frames rid (ex_body ex) t1 t2) \<le> budget l"
    and "codec_ok c" and "to_json c (ResponseStart (result_start rid r)) = Some u1"
    and "to_json c (ResponseEnd rid) = Some u2"
    and "response_start_validate (result_start rid r) = Inr ()"
    and "length (result_body r) \<le> max_response_body_bytes"
    and "inbox l = map Inr (response_frames c rid r u1 u2) @ ms"
  shows "execute_exchange c rid d ex l =
    (Inr r, (sent_link l (request_frames rid (ex_body ex) t1 t2)
       ((protocol l)\<lparr>seen_request_ids := rid # seen_request_ids (protocol l)\<rparr>))\<lparr>inbox := ms\<rparr>)"
proof -
  let ?p = "(protocol l)\<lparr>seen_request_ids := rid # seen_request_ids (protocol l),
          flows := hput rid AwaitingResponse (flows (protocol l))\<rparr>"
  let ?l = "sent_link l (request_frames rid (ex_body ex) t1 t2) ?p"
  have id: "start_id (start_frame rid d m ex) = rid" by (simp add: start_frame_def)
  have send: "send_request c (start_frame rid d m ex) (ex_body ex) l = (Inr (), ?l)"
    using send_request_ok [of l "start_frame rid d m ex" "ex_body ex" c t1 t2] assms unfolding id by blast
  have json: "from_json c u1 = Some (ResponseStart (result_start rid r))" "from_json c u2 = Some (ResponseEnd rid)"
    using assms(8-10) by (auto simp: codec_ok_def)
  have "receive_response c rid ?l =
    (Inr r, ?l\<lparr>inbox := ms, protocol := (protocol ?l)\<lparr>flows := hdel rid (flows (protocol ?l))\<rparr>\<rparr>)"
    by (rule receive_response_ok [OF json])
       (use assms in \<open>simp_all add: sent_link_def can_open_def hmap_simps\<close>)
  moreover have "?l\<lparr>inbox := ms, protocol := (protocol ?l)\<lparr>flows := hdel rid (flows (protocol ?l))\<rparr>\<rparr>
     = (sent_link l (request_frames rid (ex_body ex) t1 t2)
       ((protocol l)\<lparr>seen_request_ids := rid # seen_request_ids (protocol l)\<rparr>))\<lparr>inbox := ms\<rparr>"
    using assms(1) by (simp add: sent_link_def can_open_def hdel_hput_fresh)
  ultimately show ?thesis
    unfolding execute_exchange_split [OF assms(2)] io_bind_def send by simp
qed

section \<open>A request that ends the session\<close>

lemma bad_start_rejected:
  assumes "request_start_validate f = Inl e"
  shows "\<exists>err. observe_control s (RequestStart f) = (Inl err, s)"
  using assms by (auto simp: observe_control_def observe_request_start_def)

lemma bad_target_invalid:
  assumes "prefix ''//'' (target f)"
  shows "\<exists>e. request_start_validate f = Inl e"
  using assms by (simp add: request_start_validate_def)

lemma bad_start_fails_exchange:
  assumes "http_method_new (ex_method ex) = Inr m"
    and "request_start_validate (start_frame rid d m ex) = Inl e"
  shows "execute_exchange c rid d ex l = (Inl ''relay state rejected control frame'', l)"
proof -
  obtain err where "observe_control (protocol l) (RequestStart (start_frame rid d m ex)) = (Inl err, protocol l)"
    using bad_start_rejected [OF assms(2)] by blast
  then have "send_control c cloud_errs (RequestStart (start_frame rid d m ex)) l
      = (Inl ''relay state rejected control frame'', l)"
    by (simp add: send_control_def cloud_errs_def)
  then show ?thesis by (simp add: execute_exchange_def assms(1) io_bind_def)
qed

text \<open>
  A request whose path starts with a slash of its own is built into an exchange, is then
  refused by the session's own validator before a single byte reaches the connector, and still
  ends the session: one malformed request of any client disconnects the installation.
\<close>

theorem slash_path_ends_session:
  assumes "prefix ''/'' (rq_path rq)" and "rq_method rq = ''GET''" and "rq_headers rq = []"
  shows "\<exists>ex. proxy_request_of lib rq False (Some []) = Inr ex
     \<and> session_step c l (Exchange rid d False ex)
       = ((False, Reply (Inl ''relay state rejected control frame'')), l)"
proof -
  let ?ex = "\<lparr>ex_method = ''GET'', ex_target = relay_target rq, ex_headers = [], ex_body = []\<rparr>"
  have m: "http_method_new ''GET'' = Inr (HttpMethod ''GET'')"
    by (simp add: http_method_new_def relay_methods_def)
  have "prefix ''//'' (relay_target rq)"
    using assms(1) by (cases "rq_path rq") (auto simp: relay_target_def split: option.splits)
  then have "\<exists>e. request_start_validate (start_frame rid d (HttpMethod ''GET'') ?ex) = Inl e"
    by (intro bad_target_invalid) (simp add: start_frame_def)
  then have "execute_exchange c rid d ?ex l = (Inl ''relay state rejected control frame'', l)"
    using bad_start_fails_exchange [of ?ex] m by auto
  then have "session_step c l (Exchange rid d False ?ex)
       = ((False, Reply (Inl ''relay state rejected control frame'')), l)"
    by (simp add: session_step_def)
  moreover have "proxy_request_of lib rq False (Some []) = Inr ?ex"
    using assms m by (simp add: proxy_request_of_def)
  ultimately show ?thesis by blast
qed

section \<open>An exchange, concretely\<close>

definition table_codec :: "(control_frame \<times> string) list \<Rightarrow> codec" where
  "table_codec tbl = \<lparr>to_json = map_of tbl, from_json = map_of (map (\<lambda>(f, t). (t, f)) tbl)\<rparr>"

lemma table_codec_ok: "distinct (map snd tbl) \<Longrightarrow> codec_ok (table_codec tbl)"
  by (auto simp: codec_ok_def table_codec_def comp_def case_prod_beta dest!: map_of_SomeD
      intro!: map_of_is_SomeI image_eqI [of _ _ "(f, t)" for f t])

definition sample_exchange :: proxy_exchange where
  "sample_exchange = \<lparr>ex_method = ''GET'', ex_target = ''/api/v1/status'', ex_headers = [], ex_body = [104, 105]\<rparr>"

definition sample_result :: proxy_result where
  "sample_result = \<lparr>result_status = 200, result_headers = [], result_body = [111, 107]\<rparr>"

definition sample_codec :: codec where
  "sample_codec = table_codec
     [(RequestStart (start_frame 9 1 (HttpMethod ''GET'') sample_exchange), ''a''), (RequestEnd 9, ''b''),
      (ResponseStart (result_start 9 sample_result), ''c''), (ResponseEnd 9, ''d'')]"

definition sample_link :: link where
  "sample_link = \<lparr>inbox = map Inr (response_frames sample_codec 9 sample_result ''c'' ''d''), sent = [],
     budget = 10, protocol = \<lparr>handshake = Ready, flows = [], seen_request_ids = []\<rparr>\<rparr>"

theorem exchange_delivers_response_witness:
  "fst (execute_exchange sample_codec 9 1 sample_exchange sample_link) = Inr sample_result"
proof -
  have start: "start_frame 9 1 (HttpMethod ''GET'') sample_exchange = sample_start\<lparr>deadline_unix_ms := 1\<rparr>"
    by (simp add: start_frame_def sample_exchange_def sample_start_def)
  have ids: "can_open (protocol sample_link) 9"
    by (simp add: can_open_def sample_link_def hmap_simps relay_limits)
  have valid: "request_start_validate (start_frame 9 1 (HttpMethod ''GET'') sample_exchange) = Inr ()"
    using sample_start_valid unfolding start by (simp add: sample_start_def)
  have codec: "codec_ok sample_codec" unfolding sample_codec_def by (rule table_codec_ok) simp
  have room: "length (request_frames 9 (ex_body sample_exchange) ''a'' ''b'') \<le> budget sample_link"
    by (simp add: request_frames_def sample_exchange_def sample_link_def relay_limits chunks.simps)
  have resp: "response_start_validate (result_start 9 sample_result) = Inr ()"
    by (simp add: response_start_validate_def result_start_def sample_result_def validate_headers_def)
  have "execute_exchange sample_codec 9 1 sample_exchange sample_link =
    (Inr sample_result, (sent_link sample_link (request_frames 9 (ex_body sample_exchange) ''a'' ''b'')
       ((protocol sample_link)\<lparr>seen_request_ids := 9 # seen_request_ids (protocol sample_link)\<rparr>))\<lparr>inbox := []\<rparr>)"
    by (rule exchange_delivers_response [OF ids _ valid _ _ _ room codec _ _ resp])
       (simp_all add: sample_exchange_def http_method_new_def relay_methods_def relay_limits
          sample_result_def sample_link_def sample_codec_def table_codec_def)
  then show ?thesis by simp
qed

theorem slash_path_ends_session_witness:
  "\<exists>ex. proxy_request_of ascii_http
        \<lparr>rq_method = ''GET'', rq_path = ''/x'', rq_query = None, rq_headers = []\<rparr> False (Some []) = Inr ex
     \<and> session_step sample_codec sample_link (Exchange 9 1 False ex)
       = ((False, Reply (Inl ''relay state rejected control frame'')), sample_link)"
  by (rule slash_path_ends_session) simp_all

end
