(* ===== verification/Cloud_Contracts.thy ===== *)
theory Cloud_Contracts
  imports Identifiers Tokens
begin

text \<open>
  \<^verbatim>\<open>crates/c6-cloud-core/src/api.rs\<close> and \<^verbatim>\<open>model.rs\<close>: the request and response values of the
  cloud API and the bounds \<open>validate\<close> puts on the requests.  A \<open>SecretToken\<close> is a string the
  token parser accepted and is kept as its reading (\<open>parsed_token\<close>), whose text is
  \<open>render_token\<close>; the identifier types are those of \<open>Identifiers\<close>; an instant is an integer.
\<close>

type_synonym time = int

section \<open>Values\<close>

datatype cloud_role = CloudOwner | CloudMaintainer | CloudMember

datatype connection_state = LinkConnected | LinkDisconnected | LinkRevoked

record account_summary =
  asum_id :: uuid
  asum_handle :: account_handle
  asum_display_name :: string
  asum_created_at :: time
  asum_disabled_at :: "time option"

record workspace_summary =
  wsum_id :: uuid
  wsum_namespace :: workspace_namespace
  wsum_name :: string
  wsum_owner :: uuid
  wsum_role :: cloud_role
  wsum_created_at :: time

record installation_summary =
  isum_id :: uuid
  isum_local_server :: uuid
  isum_route :: string
  isum_owner :: uuid
  isum_label :: installation_label
  isum_public_id :: string
  isum_state :: connection_state
  isum_connected_at :: "time option"
  isum_created_at :: time
  isum_revoked_at :: "time option"

record binding_summary =
  bsum_id :: uuid
  bsum_workspace :: uuid
  bsum_installation :: uuid
  bsum_local_workspace :: uuid
  bsum_revision :: int

record catalog_project =
  proj_binding :: uuid
  proj_local :: uuid
  proj_slug :: project_slug
  proj_name :: string
  proj_description :: string
  proj_default_branch :: string
  proj_head_sha :: string
  proj_updated_at :: time

record directory_summary =
  dir_workspace :: workspace_summary
  dir_binding :: "binding_summary option"
  dir_projects :: "catalog_project list"

section \<open>Requests\<close>

record claim_request =
  claim_token :: parsed_token
  claim_handle :: account_handle
  claim_display_name :: string

record workspace_request =
  wreq_namespace :: workspace_namespace
  wreq_name :: string

record installation_request =
  ireq_local_server :: uuid
  ireq_label :: installation_label

record binding_request =
  breq_installation :: uuid
  breq_local_workspace :: uuid

record project_input =
  pin_local :: uuid
  pin_slug :: project_slug
  pin_name :: string
  pin_description :: string
  pin_default_branch :: string
  pin_head_sha :: string
  pin_updated_at :: time

record catalog_request =
  creq_binding :: uuid
  creq_revision :: u64
  creq_projects :: "project_input list"

definition max_display_name_len :: nat where "max_display_name_len = 100"
definition max_workspace_name_len :: nat where "max_workspace_name_len = 100"
definition max_project_name_len :: nat where "max_project_name_len = 120"
definition max_project_description_len :: nat where "max_project_description_len = 2000"
definition max_branch_len :: nat where "max_branch_len = 255"
definition max_head_sha_len :: nat where "max_head_sha_len = 128"
definition max_catalog_projects :: nat where "max_catalog_projects = 1000"

datatype contract_error =
    LengthOutside string nat nat
  | ControlCharacters string
  | CatalogTooLarge
  | ZeroCatalogRevision
  | WrongTokenClass

definition contract_error_text :: "contract_error \<Rightarrow> string" where
  "contract_error_text e = (case e of
      LengthOutside f lo hi \<Rightarrow>
        f @ '' must be between '' @ show_nat lo @ '' and '' @ show_nat hi @ '' bytes''
    | ControlCharacters f \<Rightarrow> f @ '' must not contain control characters''
    | CatalogTooLarge \<Rightarrow> ''catalog contains too many projects''
    | ZeroCatalogRevision \<Rightarrow> ''catalog revision must be non-zero''
    | WrongTokenClass \<Rightarrow> ''credential belongs to the wrong authentication surface'')"

definition bounded_text :: "string \<Rightarrow> string \<Rightarrow> nat \<Rightarrow> nat \<Rightarrow> contract_error + unit" where
  "bounded_text v field lo hi =
     (if \<not> (lo \<le> length v \<and> length v \<le> hi) then Inl (LengthOutside field lo hi)
      else if has_control v then Inl (ControlCharacters field)
      else Inr ())"

definition claim_validate :: "claim_request \<Rightarrow> contract_error + unit" where
  "claim_validate r =
     (if token_class (claim_token r) \<noteq> Bootstrap then Inl WrongTokenClass
      else bounded_text (claim_display_name r) ''displayName'' 1 max_display_name_len)"

definition workspace_validate :: "workspace_request \<Rightarrow> contract_error + unit" where
  "workspace_validate r = bounded_text (wreq_name r) ''name'' 1 max_workspace_name_len"

definition project_validate :: "project_input \<Rightarrow> contract_error + unit" where
  "project_validate p =
     andThen (bounded_text (pin_name p) ''projects[].name'' 1 max_project_name_len)
    (andThen (bounded_text (pin_description p) ''projects[].description'' 0 max_project_description_len)
    (andThen (bounded_text (pin_default_branch p) ''projects[].defaultBranch'' 1 max_branch_len)
       (bounded_text (pin_head_sha p) ''projects[].headSha'' 1 max_head_sha_len)))"

definition catalog_validate :: "catalog_request \<Rightarrow> contract_error + unit" where
  "catalog_validate r =
     (if creq_revision r = 0 then Inl ZeroCatalogRevision
      else if max_catalog_projects < length (creq_projects r) then Inl CatalogTooLarge
      else try_all project_validate (creq_projects r))"

section \<open>What an accepted request satisfies\<close>

definition bounded :: "nat \<Rightarrow> nat \<Rightarrow> string \<Rightarrow> bool" where
  "bounded lo hi v \<longleftrightarrow> lo \<le> length v \<and> length v \<le> hi \<and> \<not> has_control v"

lemma bounded_text_iff [result_simps]: "bounded_text v f lo hi = Inr u \<longleftrightarrow> bounded lo hi v"
  by (auto simp: bounded_text_def bounded_def)

lemma project_validate_iff [result_simps]:
  "project_validate p = Inr u \<longleftrightarrow>
     bounded 1 max_project_name_len (pin_name p)
     \<and> bounded 0 max_project_description_len (pin_description p)
     \<and> bounded 1 max_branch_len (pin_default_branch p) \<and> bounded 1 max_head_sha_len (pin_head_sha p)"
  by (simp add: project_validate_def result_simps)

lemma catalog_validate_iff [result_simps]:
  "catalog_validate r = Inr u \<longleftrightarrow>
     creq_revision r \<noteq> 0 \<and> length (creq_projects r) \<le> max_catalog_projects
     \<and> (\<forall>p \<in> set (creq_projects r). project_validate p = Inr ())"
  by (auto simp: catalog_validate_def try_all_Inr_iff)

end
