(* ===== verification/Tables.thy ===== *)
theory Tables
  imports Prelude
begin

text \<open>
  Database tables as lists of rows in insertion order, shared by the services that keep their
  state in SQLite: keys and references as predicates on lists, updates in place, and tables whose
  rows only ever move one way.
\<close>

section \<open>Rows and constraints\<close>

text \<open>A violated UNIQUE or PRIMARY KEY constraint, or another one.\<close>

datatype sql_error = UniqueViolation | OtherViolation

text \<open>\<open>UPDATE ... SET ... WHERE\<close>.\<close>

definition update_where :: "('r \<Rightarrow> bool) \<Rightarrow> ('r \<Rightarrow> 'r) \<Rightarrow> 'r list \<Rightarrow> 'r list" where
  "update_where p f = map (\<lambda>r. if p r then f r else r)"

definition distinct_on :: "('r \<Rightarrow> 'k) \<Rightarrow> 'r list \<Rightarrow> bool" where
  "distinct_on f rs \<longleftrightarrow> distinct (map f rs)"

definition refers :: "('r \<Rightarrow> 'k) \<Rightarrow> 'r list \<Rightarrow> ('s \<Rightarrow> 'k) \<Rightarrow> 's list \<Rightarrow> bool" where
  "refers f rs g ss \<longleftrightarrow> f ` set rs \<subseteq> g ` set ss"

lemma distinct_on_simps:
  "distinct_on f []"
  "distinct_on f (rs @ [r]) \<longleftrightarrow> distinct_on f rs \<and> (\<forall>x \<in> set rs. f x \<noteq> f r)"
  by (auto simp: distinct_on_def) (metis image_eqI)

lemma distinct_on_filter: "distinct_on f rs \<Longrightarrow> distinct_on f (filter p rs)"
  by (simp add: distinct_on_def distinct_map_filter)

lemma map_update: "(\<And>r. f (h r) = f r) \<Longrightarrow> map f (update_where p h rs) = map f rs"
  by (simp add: update_where_def)

lemma distinct_on_update: "(\<And>r. f (h r) = f r) \<Longrightarrow> distinct_on f (update_where p h rs) \<longleftrightarrow> distinct_on f rs"
  by (simp add: distinct_on_def map_update)

lemma image_update: "(\<And>r. f (h r) = f r) \<Longrightarrow> f ` set (update_where p h rs) = f ` set rs"
  by (metis list.set_map map_update)

lemma refers_simps:
  "refers f [] g ss"
  "refers f (rs @ [r]) g ss \<longleftrightarrow> refers f rs g ss \<and> (\<exists>s \<in> set ss. f r = g s)"
  "refers f rs g ss \<Longrightarrow> refers f rs g (ss @ [s])"
  "refers f rs g ss \<Longrightarrow> refers f (filter p rs) g ss"
  by (auto simp: refers_def)

lemma refers_update:
  "(\<And>r. f (h r) = f r) \<Longrightarrow> refers f (update_where p h rs) g ss \<longleftrightarrow> refers f rs g ss"
  by (simp add: refers_def image_update)

lemma refers_update_target:
  "(\<And>s. g (h s) = g s) \<Longrightarrow> refers f rs g (update_where p h ss) \<longleftrightarrow> refers f rs g ss"
  by (simp add: refers_def image_update)

named_theorems db_simps

lemmas [db_simps] = distinct_on_simps refers_simps distinct_on_update distinct_on_filter refers_update refers_update_target

lemma db_insert_cases:
  "(if c then Inl e else Inr d) = Inr d' \<longleftrightarrow> \<not> c \<and> d = d'"
  "(if c then Inl e else if c' then Inl e' else Inr d) = Inr d' \<longleftrightarrow> \<not> c \<and> \<not> c' \<and> d = d'"
  by auto

lemma distinct_on_inj:
  "distinct_on f rs \<Longrightarrow> x \<in> set rs \<Longrightarrow> y \<in> set rs \<Longrightarrow> f x = f y \<Longrightarrow> x = y"
  by (auto simp: distinct_on_def distinct_map inj_on_def)

lemma find_SomeD: "find P xs = Some x \<Longrightarrow> x \<in> set xs \<and> P x"
  by (auto simp: find_Some_iff)

lemma find_append: "find P (xs @ ys) = (case find P xs of None \<Rightarrow> find P ys | Some x \<Rightarrow> Some x)"
  by (induction xs) auto

lemma filter_update:
  "(\<And>x. x \<in> set xs \<Longrightarrow> p x \<Longrightarrow> \<not> q x \<and> \<not> q (f x)) \<Longrightarrow> filter q (update_where p f xs) = filter q xs"
  by (induction xs) (auto simp: update_where_def)

lemma filter_unique_key:
  "distinct_on f xs \<Longrightarrow> x \<in> set xs \<Longrightarrow> filter (\<lambda>y. f y = f x) xs = [x]"
  by (induction xs) (auto simp: distinct_on_def filter_empty_conv image_iff)

section \<open>Tables that only grow\<close>

definition evolves :: "('r \<Rightarrow> 'r \<Rightarrow> bool) \<Rightarrow> 'r list \<Rightarrow> 'r list \<Rightarrow> bool" where
  "evolves R xs ys \<longleftrightarrow> length xs \<le> length ys \<and> list_all2 R xs (take (length xs) ys)"

lemma evolves_refl: "(\<And>x. R x x) \<Longrightarrow> evolves R xs xs"
  by (simp add: evolves_def list_all2_refl)

lemma evolves_append: "(\<And>x. R x x) \<Longrightarrow> evolves R xs (xs @ ys)"
  by (simp add: evolves_def list_all2_refl)

lemma evolves_update:
  "(\<And>x. R x x) \<Longrightarrow> (\<And>x. x \<in> set xs \<Longrightarrow> p x \<Longrightarrow> R x (f x)) \<Longrightarrow> evolves R xs (update_where p f xs)"
  by (auto simp: evolves_def update_where_def list_all2_conv_all_nth)

lemma evolves_trans:
  assumes "\<And>x y z. R x y \<Longrightarrow> R y z \<Longrightarrow> R x z" and "evolves R xs ys" and "evolves R ys zs"
  shows "evolves R xs zs"
  using assms unfolding evolves_def list_all2_conv_all_nth
  by (auto simp: min_def)

lemma evolves_mem: "evolves R xs ys \<Longrightarrow> x \<in> set xs \<Longrightarrow> \<exists>y \<in> set ys. R x y"
  by (auto simp: evolves_def list_all2_conv_all_nth in_set_conv_nth)
    (metis nth_take order_less_le_trans min.absorb2 nth_mem)

end
