(* ===== verification/Cloud_Store.thy ===== *)
theory Cloud_Store
  imports Cloud_Relay Cloud_Contracts Tables "HOL-Library.Char_ord" "HOL-Library.List_Lexorder" "HOL-Library.Product_Lexorder"
begin

text \<open>
  The durable state of \<^verbatim>\<open>crates/c6-cloud/src/lib.rs\<close>: the tables of \<open>migrate\<close> as lists of rows in
  insertion order, and the SQL statements the handlers run, with the PRIMARY KEY, UNIQUE and
  REFERENCES constraints of the schema as conditions of each insertion (\<open>foreign_keys\<close> is on).
  Times are integers: every stored time is a \<open>to_rfc3339\<close> text in UTC, whose text order, which
  the one comparison in SQL uses, is the order of time.
\<close>

record account =
  acc_id :: string
  acc_handle :: string
  acc_display_name :: string
  acc_created_at :: time
  acc_disabled_at :: "time option"

record session =
  ses_id :: string
  ses_account :: string
  ses_token_hash :: string
  ses_csrf_hash :: string
  ses_created_at :: time
  ses_expires_at :: time
  ses_revoked_at :: "time option"

record workspace =
  ws_id :: string
  ws_namespace :: string
  ws_display_name :: string
  ws_owner :: string
  ws_created_at :: time

record membership =
  mem_workspace :: string
  mem_account :: string
  mem_role :: string

record installation =
  ins_id :: string
  ins_owner :: string
  ins_local_server :: string
  ins_route :: string
  ins_label :: string
  ins_created_at :: time
  ins_connected_at :: "time option"
  ins_revoked_at :: "time option"

record credential =
  cred_id :: string
  cred_installation :: string
  cred_public_id :: string
  cred_secret_hash :: string
  cred_created_at :: time
  cred_revoked_at :: "time option"

record binding =
  bnd_id :: string
  bnd_workspace :: string
  bnd_installation :: string
  bnd_local_workspace :: string
  bnd_revision :: int

record catalog_row =
  cat_binding :: string
  cat_local_project :: string
  cat_slug :: string
  cat_name :: string
  cat_description :: string
  cat_default_branch :: string
  cat_head_sha :: string
  cat_revision :: int
  cat_updated_at :: time

record audit_event =
  aud_id :: string
  aud_actor_type :: string
  aud_actor :: "string option"
  aud_action :: string
  aud_target :: "string option"
  aud_created_at :: time

record cloud_db =
  settings :: "(string \<times> string) list"
  accounts :: "account list"
  sessions :: "session list"
  workspaces :: "workspace list"
  memberships :: "membership list"
  installations :: "installation list"
  credentials :: "credential list"
  bindings :: "binding list"
  catalog :: "catalog_row list"
  audit_log :: "audit_event list"

definition map_conflict :: "sql_error \<Rightarrow> api_error" where
  "map_conflict e = (case e of
      UniqueViolation \<Rightarrow> api_conflict ''identifier is already in use''
    | OtherViolation \<Rightarrow> api_internal)"

section \<open>Statements\<close>

definition insert_account :: "account \<Rightarrow> cloud_db \<Rightarrow> sql_error + cloud_db" where
  "insert_account a db =
     (if list_ex (\<lambda>b. acc_id b = acc_id a \<or> acc_handle b = acc_handle a) (accounts db)
      then Inl UniqueViolation else Inr (db\<lparr>accounts := accounts db @ [a]\<rparr>))"

definition insert_session :: "session \<Rightarrow> cloud_db \<Rightarrow> sql_error + cloud_db" where
  "insert_session s db =
     (if list_ex (\<lambda>b. ses_id b = ses_id s \<or> ses_token_hash b = ses_token_hash s) (sessions db)
      then Inl UniqueViolation
      else if \<not> list_ex (\<lambda>a. acc_id a = ses_account s) (accounts db) then Inl OtherViolation
      else Inr (db\<lparr>sessions := sessions db @ [s]\<rparr>))"

definition insert_workspace :: "workspace \<Rightarrow> cloud_db \<Rightarrow> sql_error + cloud_db" where
  "insert_workspace w db =
     (if list_ex (\<lambda>b. ws_id b = ws_id w \<or> ws_namespace b = ws_namespace w) (workspaces db)
      then Inl UniqueViolation
      else if \<not> list_ex (\<lambda>a. acc_id a = ws_owner w) (accounts db) then Inl OtherViolation
      else Inr (db\<lparr>workspaces := workspaces db @ [w]\<rparr>))"

definition insert_membership :: "membership \<Rightarrow> cloud_db \<Rightarrow> sql_error + cloud_db" where
  "insert_membership m db =
     (if list_ex (\<lambda>b. mem_workspace b = mem_workspace m \<and> mem_account b = mem_account m) (memberships db)
      then Inl UniqueViolation
      else if \<not> list_ex (\<lambda>w. ws_id w = mem_workspace m) (workspaces db)
           \<or> \<not> list_ex (\<lambda>a. acc_id a = mem_account m) (accounts db) then Inl OtherViolation
      else Inr (db\<lparr>memberships := memberships db @ [m]\<rparr>))"

definition insert_installation :: "installation \<Rightarrow> cloud_db \<Rightarrow> sql_error + cloud_db" where
  "insert_installation i db =
     (if list_ex (\<lambda>b. ins_id b = ins_id i \<or> ins_route b = ins_route i
           \<or> (ins_owner b = ins_owner i \<and> ins_local_server b = ins_local_server i)) (installations db)
      then Inl UniqueViolation
      else if \<not> list_ex (\<lambda>a. acc_id a = ins_owner i) (accounts db) then Inl OtherViolation
      else Inr (db\<lparr>installations := installations db @ [i]\<rparr>))"

definition insert_credential :: "credential \<Rightarrow> cloud_db \<Rightarrow> sql_error + cloud_db" where
  "insert_credential c db =
     (if list_ex (\<lambda>b. cred_id b = cred_id c \<or> cred_public_id b = cred_public_id c) (credentials db)
      then Inl UniqueViolation
      else if \<not> list_ex (\<lambda>i. ins_id i = cred_installation c) (installations db) then Inl OtherViolation
      else Inr (db\<lparr>credentials := credentials db @ [c]\<rparr>))"

definition insert_binding :: "binding \<Rightarrow> cloud_db \<Rightarrow> sql_error + cloud_db" where
  "insert_binding b db =
     (if list_ex (\<lambda>c. bnd_id c = bnd_id b \<or> bnd_workspace c = bnd_workspace b
           \<or> (bnd_installation c = bnd_installation b \<and> bnd_local_workspace c = bnd_local_workspace b)) (bindings db)
      then Inl UniqueViolation
      else if \<not> list_ex (\<lambda>w. ws_id w = bnd_workspace b) (workspaces db)
           \<or> \<not> list_ex (\<lambda>i. ins_id i = bnd_installation b) (installations db) then Inl OtherViolation
      else Inr (db\<lparr>bindings := bindings db @ [b]\<rparr>))"

definition insert_catalog :: "catalog_row \<Rightarrow> cloud_db \<Rightarrow> sql_error + cloud_db" where
  "insert_catalog r db =
     (if list_ex (\<lambda>c. cat_binding c = cat_binding r
           \<and> (cat_slug c = cat_slug r \<or> cat_local_project c = cat_local_project r)) (catalog db)
      then Inl UniqueViolation
      else if \<not> list_ex (\<lambda>b. bnd_id b = cat_binding r) (bindings db) then Inl OtherViolation
      else Inr (db\<lparr>catalog := catalog db @ [r]\<rparr>))"

primrec insert_catalog_all :: "catalog_row list \<Rightarrow> cloud_db \<Rightarrow> sql_error + cloud_db" where
  "insert_catalog_all [] db = Inr db"
| "insert_catalog_all (r # rs) db = rbind (insert_catalog r db) (insert_catalog_all rs)"

definition insert_audit :: "audit_event \<Rightarrow> cloud_db \<Rightarrow> sql_error + cloud_db" where
  "insert_audit e db =
     (if list_ex (\<lambda>b. aud_id b = aud_id e) (audit_log db) then Inl UniqueViolation
      else Inr (db\<lparr>audit_log := audit_log db @ [e]\<rparr>))"

definition put_setting :: "string \<Rightarrow> string \<Rightarrow> cloud_db \<Rightarrow> cloud_db" where
  "put_setting k v db = db\<lparr>settings := hput k v (settings db)\<rparr>"

definition delete_setting :: "string \<Rightarrow> cloud_db \<Rightarrow> cloud_db" where
  "delete_setting k db = db\<lparr>settings := hdel k (settings db)\<rparr>"

definition revoke_session_row :: "string \<Rightarrow> string \<Rightarrow> time \<Rightarrow> cloud_db \<Rightarrow> cloud_db" where
  "revoke_session_row acc th now db = db\<lparr>sessions :=
     update_where (\<lambda>s. ses_account s = acc \<and> ses_token_hash s = th)
       (\<lambda>s. s\<lparr>ses_revoked_at := Some now\<rparr>) (sessions db)\<rparr>"

definition revoke_installation_rows :: "string \<Rightarrow> time \<Rightarrow> cloud_db \<Rightarrow> cloud_db" where
  "revoke_installation_rows k now db = db\<lparr>
     installations := update_where (\<lambda>i. ins_id i = k) (\<lambda>i. i\<lparr>ins_revoked_at := Some now\<rparr>) (installations db),
     credentials := update_where (\<lambda>c. cred_installation c = k \<and> cred_revoked_at c = None)
       (\<lambda>c. c\<lparr>cred_revoked_at := Some now\<rparr>) (credentials db)\<rparr>"

definition set_connected :: "string \<Rightarrow> time option \<Rightarrow> cloud_db \<Rightarrow> cloud_db" where
  "set_connected k t db = db\<lparr>installations :=
     update_where (\<lambda>i. ins_id i = k \<and> ins_revoked_at i = None) (\<lambda>i. i\<lparr>ins_connected_at := t\<rparr>) (installations db)\<rparr>"

definition replace_catalog :: "string \<Rightarrow> int \<Rightarrow> catalog_row list \<Rightarrow> cloud_db \<Rightarrow> sql_error + cloud_db" where
  "replace_catalog b revision rows db =
     rbind (insert_catalog_all rows (db\<lparr>catalog := filter (\<lambda>c. cat_binding c \<noteq> b) (catalog db)\<rparr>))
       (\<lambda>db'. Inr (db'\<lparr>bindings := update_where (\<lambda>c. bnd_id c = b) (\<lambda>c. c\<lparr>bnd_revision := revision\<rparr>) (bindings db')\<rparr>))"

section \<open>The constraints as an invariant\<close>

definition db_ok :: "cloud_db \<Rightarrow> bool" where
  "db_ok db \<longleftrightarrow>
     distinct_on acc_id (accounts db) \<and> distinct_on acc_handle (accounts db)
     \<and> distinct_on ses_id (sessions db) \<and> distinct_on ses_token_hash (sessions db)
     \<and> distinct_on ws_id (workspaces db) \<and> distinct_on ws_namespace (workspaces db)
     \<and> distinct_on (\<lambda>m. (mem_workspace m, mem_account m)) (memberships db)
     \<and> distinct_on ins_id (installations db) \<and> distinct_on ins_route (installations db)
     \<and> distinct_on (\<lambda>i. (ins_owner i, ins_local_server i)) (installations db)
     \<and> distinct_on cred_id (credentials db) \<and> distinct_on cred_public_id (credentials db)
     \<and> distinct_on bnd_id (bindings db) \<and> distinct_on bnd_workspace (bindings db)
     \<and> distinct_on (\<lambda>b. (bnd_installation b, bnd_local_workspace b)) (bindings db)
     \<and> distinct_on (\<lambda>c. (cat_binding c, cat_slug c)) (catalog db)
     \<and> distinct_on (\<lambda>c. (cat_binding c, cat_local_project c)) (catalog db)
     \<and> distinct_on aud_id (audit_log db)
     \<and> refers ses_account (sessions db) acc_id (accounts db)
     \<and> refers ws_owner (workspaces db) acc_id (accounts db)
     \<and> refers mem_workspace (memberships db) ws_id (workspaces db)
     \<and> refers mem_account (memberships db) acc_id (accounts db)
     \<and> refers ins_owner (installations db) acc_id (accounts db)
     \<and> refers cred_installation (credentials db) ins_id (installations db)
     \<and> refers bnd_workspace (bindings db) ws_id (workspaces db)
     \<and> refers bnd_installation (bindings db) ins_id (installations db)
     \<and> refers cat_binding (catalog db) bnd_id (bindings db)"

lemma insert_ok:
  "insert_account a db = Inr db' \<Longrightarrow> db_ok db \<Longrightarrow> db_ok db'"
  "insert_session s db = Inr db' \<Longrightarrow> db_ok db \<Longrightarrow> db_ok db'"
  "insert_workspace w db = Inr db' \<Longrightarrow> db_ok db \<Longrightarrow> db_ok db'"
  "insert_membership m db = Inr db' \<Longrightarrow> db_ok db \<Longrightarrow> db_ok db'"
  "insert_installation i db = Inr db' \<Longrightarrow> db_ok db \<Longrightarrow> db_ok db'"
  "insert_credential c db = Inr db' \<Longrightarrow> db_ok db \<Longrightarrow> db_ok db'"
  "insert_binding b db = Inr db' \<Longrightarrow> db_ok db \<Longrightarrow> db_ok db'"
  "insert_catalog r db = Inr db' \<Longrightarrow> db_ok db \<Longrightarrow> db_ok db'"
  "insert_audit e db = Inr db' \<Longrightarrow> db_ok db \<Longrightarrow> db_ok db'"
  by (clarsimp simp: insert_account_def insert_session_def insert_workspace_def insert_membership_def
      insert_installation_def insert_credential_def insert_binding_def insert_catalog_def insert_audit_def
      db_insert_cases list_ex_iff, simp add: db_ok_def db_simps; metis)+

lemma update_ok:
  "db_ok db \<Longrightarrow> db_ok (put_setting k v db)"
  "db_ok db \<Longrightarrow> db_ok (delete_setting k db)"
  "db_ok db \<Longrightarrow> db_ok (revoke_session_row acc th now db)"
  "db_ok db \<Longrightarrow> db_ok (revoke_installation_rows j now db)"
  "db_ok db \<Longrightarrow> db_ok (set_connected j t db)"
  by (simp_all add: db_ok_def put_setting_def delete_setting_def revoke_session_row_def
      revoke_installation_rows_def set_connected_def db_simps)

end
