(* ===== verification/Cookies.thy ===== *)
theory Cookies
  imports Prelude
begin

text \<open>
  The text of HTTP cookies: how a \<open>Cookie\<close> header is cut into pairs, what a browser returns of a
  \<open>Set-Cookie\<close> value, and that plain values survive.
\<close>

definition cookie_pairs :: "string \<Rightarrow> (string \<times> string) list" where
  "cookie_pairs v = List.map_filter (\<lambda>p. split_once (CHR ''='') (trim p)) (split_on (CHR '';'') v)"

definition plain :: "string \<Rightarrow> bool" where
  "plain s \<longleftrightarrow> (\<forall>c \<in> set s. 33 \<le> ord c \<and> ord c \<le> 126 \<and> c \<noteq> CHR '';'')"

lemma plain_char:
  assumes "plain s" and "c \<in> set s"
  shows "33 \<le> ord c" and "ord c \<le> 126" and "c \<noteq> CHR '';''"
  using assms unfolding plain_def by blast+

lemma plain_chars:
  assumes "plain s"
  shows "utf8_chars s = map (\<lambda>c. [c]) s"
proof (rule utf8_chars_ascii, rule ballI)
  fix c assume "c \<in> set s"
  with plain_char(2) [OF assms] have "ord c \<le> 126" by blast
  then show "ord c < 128" by linarith
qed

lemma plain_not_white:
  assumes "plain s" and "c \<in> set s"
  shows "\<not> char_whitespace [c]"
proof -
  have "\<not> (ord c \<le> 13)" "ord c \<noteq> 32" using plain_char(1) [OF assms] by linarith+
  then show ?thesis by (simp add: char_whitespace_def)
qed

lemma dropWhile_none: "(\<And>x. x \<in> set xs \<Longrightarrow> \<not> P x) \<Longrightarrow> dropWhile P xs = xs"
  by (cases xs) auto

lemma trim_chars:
  assumes "plain s"
  shows "concat (rev (dropWhile char_whitespace (rev (dropWhile char_whitespace (map (\<lambda>c. [c]) s))))) = s"
proof -
  have "dropWhile char_whitespace (map (\<lambda>c. [c]) s) = map (\<lambda>c. [c]) s"
    by (rule dropWhile_none) (auto simp: plain_not_white [OF assms])
  moreover have "dropWhile char_whitespace (rev (map (\<lambda>c. [c]) s)) = rev (map (\<lambda>c. [c]) s)"
    by (rule dropWhile_none) (auto simp: plain_not_white [OF assms])
  ultimately show ?thesis by simp
qed

lemma trim_plain: "plain s \<Longrightarrow> trim s = s"
  by (simp add: trim_def plain_chars trim_chars)

lemma trim_space_plain: "plain s \<Longrightarrow> trim (CHR '' '' # s) = s"
  by (simp add: trim_def plain_chars trim_chars utf8_len_def char_whitespace_def)

lemma plain_append [simp]: "plain (s @ t) \<longleftrightarrow> plain s \<and> plain t"
  by (auto simp: plain_def)

text \<open>What a browser sends back of a \<open>Set-Cookie\<close> value: the part before the attributes.\<close>

definition cookie_pair :: "string \<Rightarrow> string" where
  "cookie_pair c = hd (split_on (CHR '';'') c)"

fun browser_cookies :: "string list \<Rightarrow> string" where
  "browser_cookies [] = []"
| "browser_cookies [c] = cookie_pair c"
| "browser_cookies (c # cs) = cookie_pair c @ ''; '' @ browser_cookies cs"

lemma plain_no_semicolon: "plain s \<Longrightarrow> CHR '';'' \<notin> set s"
  using plain_char(3) by blast

lemma cookie_pair_of:
  "plain n \<Longrightarrow> plain v \<Longrightarrow> cookie_pair (n @ CHR ''='' # v @ CHR '';'' # rest) = n @ CHR ''='' # v"
  using split_on_append_sep [of "CHR '';''" "n @ CHR ''='' # v" rest]
  by (simp add: cookie_pair_def plain_no_semicolon)

lemma cookie_pairs_two:
  assumes "plain m" "plain n" "plain v" "plain w" and "CHR ''='' \<notin> set m" "CHR ''='' \<notin> set n"
  shows "cookie_pairs ((m @ CHR ''='' # v) @ ''; '' @ (n @ CHR ''='' # w)) = [(m, v), (n, w)]"
proof -
  have eq: "plain (CHR ''='' # s) \<longleftrightarrow> plain s" for s by (auto simp: plain_def)
  have p: "plain (m @ CHR ''='' # v)" "plain (n @ CHR ''='' # w)" using assms by (simp_all add: eq)
  have q: "CHR '';'' \<notin> set (CHR '' '' # n @ CHR ''='' # w)"
    using plain_no_semicolon [OF p(2)] by simp
  have "split_on (CHR '';'') ((m @ CHR ''='' # v) @ ''; '' @ (n @ CHR ''='' # w))
      = [m @ CHR ''='' # v, CHR '' '' # n @ CHR ''='' # w]"
    using split_on_append_sep [OF plain_no_semicolon [OF p(1)], of "CHR '' '' # n @ CHR ''='' # w"]
      split_on_no_sep [OF q] by simp
  moreover have "split_once (CHR ''='') (m @ CHR ''='' # v) = Some (m, v)"
    "split_once (CHR ''='') (n @ CHR ''='' # w) = Some (n, w)"
    using assms(5,6) by (simp_all add: split_once_Some)
  ultimately show ?thesis
    by (simp add: cookie_pairs_def trim_plain [OF p(1)] trim_space_plain [OF p(2)] List.map_filter_simps)
qed

end
