(* ===== verification/Cloud_Api.thy ===== *)
theory Cloud_Api
  imports Cloud_Store Cookies
begin

text \<open>
  \<^verbatim>\<open>crates/c6-cloud/src/lib.rs\<close>, the HTTP service: opening the store, authentication of browser
  sessions and connectors, and every handler of the router, each from the request (headers, path
  parameters, decoded body) and the state to the answer and the next state.  The state is the
  database behind its mutex, the table of live relay routes, the one-time bootstrap file and the
  installations whose relay task has left the table but not yet updated the database.  A
  handler answers \<open>Refused\<close> with the error it returns or \<open>Panicked\<close> when an \<open>expect\<close> fails; a
  panic while the mutex is held poisons it.  What the handlers draw from the outside (clock
  readings, fresh identifiers, random bytes) comes with each request in \<open>draws\<close>; the hash, the
  base64 encoder and the \<open>uuid\<close> text forms of the third-party packages are the parameter
  \<open>cloud_lib\<close>.
\<close>

record cloud_lib = http_lib +
  sha_hex :: "string \<Rightarrow> string"
  b64url :: "bytes \<Rightarrow> string"
  uuid_text :: "uuid \<Rightarrow> string"
  uuid_of :: "string \<Rightarrow> uuid option"

record cloud_config =
  public_origin :: string

definition secure_cookies :: "cloud_config \<Rightarrow> bool" where
  "secure_cookies cfg = prefix ''https://'' (public_origin cfg)"

record cloud_state =
  cs_db :: cloud_db
  poisoned :: bool
  relays :: "(string \<times> uuid) list"
  closing :: "string list"
  bootstrap_file :: "string option"

record draws =
  auth_now :: time
  now :: time
  session_now :: time
  audit_now :: time
  new_id :: uuid
  second_id :: uuid
  audit_id :: uuid
  token_public :: bytes
  token_secret :: bytes
  csrf_public :: bytes
  csrf_secret :: bytes
  route_bytes :: bytes
  file_ok :: bool

type_synonym headers = "(string \<times> string) list"

datatype failure = Refused api_error | Panicked

section \<open>Opening\<close>

definition validate_origin :: "string \<Rightarrow> string + unit" where
  "validate_origin origin =
     rbind (ok_or ''C6_CLOUD_PUBLIC_ORIGIN must be an absolute HTTP(S) origin''
       (case strip_prefix ''https://'' origin of Some r \<Rightarrow> Some r | None \<Rightarrow> strip_prefix ''http://'' origin))
     (\<lambda>rest. fail_if (rest = [] \<or> CHR ''/'' \<in> set rest \<or> CHR ''?'' \<in> set rest
          \<or> CHR ''#'' \<in> set rest \<or> CHR ''@'' \<in> set rest)
        ''C6_CLOUD_PUBLIC_ORIGIN must contain only scheme and authority'')"

definition reset_connections :: "cloud_db \<Rightarrow> cloud_db" where
  "reset_connections db = db\<lparr>installations :=
     update_where (\<lambda>i. ins_revoked_at i = None) (\<lambda>i. i\<lparr>ins_connected_at := None\<rparr>) (installations db)\<rparr>"

text \<open>
  \<open>write_private\<close> opens the file with \<open>create_new\<close>: it fails on an existing file, and when the
  file system refuses (\<open>file_ok\<close>).  The verifier is in the database by then.
\<close>

definition ensure_bootstrap ::
  "cloud_lib \<Rightarrow> draws \<Rightarrow> cloud_db \<Rightarrow> string option \<Rightarrow> (string + unit) \<times> cloud_db \<times> string option" where
  "ensure_bootstrap lib d db file =
     (if hget (settings db) ''bootstrap_claimed'' = Some ''1'' then (Inr (), db, file)
      else if hget (settings db) ''bootstrap_hash'' \<noteq> None then (Inr (), db, file)
      else case issue_token (b64url lib) Bootstrap (token_public d) (token_secret d) of
          None \<Rightarrow> (Inl ''generated token must satisfy contract'', db, file)
        | Some token \<Rightarrow>
            (let db' = put_setting ''bootstrap_hash'' (sha_hex lib token) db in
             if file \<noteq> None \<or> \<not> file_ok d then (Inl ''create bootstrap credential'', db', file)
             else (Inr (), db', Some (token @ [CHR 0x0A]))))"

definition open_cloud ::
  "cloud_lib \<Rightarrow> cloud_config \<Rightarrow> draws \<Rightarrow> cloud_db \<Rightarrow> string option
     \<Rightarrow> (string + cloud_state) \<times> cloud_db \<times> string option" where
  "open_cloud lib cfg d db file =
     (case validate_origin (public_origin cfg) of
        Inl e \<Rightarrow> (Inl e, db, file)
      | Inr _ \<Rightarrow>
          (case ensure_bootstrap lib d (reset_connections db) file of
             (Inl e, db', file') \<Rightarrow> (Inl e, db', file')
           | (Inr _, db', file') \<Rightarrow>
               (Inr \<lparr>cs_db = db', poisoned = False, relays = [], closing = [], bootstrap_file = file'\<rparr>, db', file')))"

definition empty_db :: cloud_db where
  "empty_db = \<lparr>settings = [], accounts = [], sessions = [], workspaces = [], memberships = [],
     installations = [], credentials = [], bindings = [], catalog = [], audit_log = []\<rparr>"

section \<open>The lock and transactions\<close>

definition lock :: "cloud_state \<Rightarrow> api_error + cloud_db" where
  "lock st = (if poisoned st then Inl api_internal else Inr (cs_db st))"

text \<open>
  A transaction dropped without \<open>commit\<close> is rolled back, also when the body panics; the panic
  unwinds through the guard of the mutex.
\<close>

definition in_tx :: "(cloud_db \<Rightarrow> failure + ('a \<times> cloud_db)) \<Rightarrow> cloud_state \<Rightarrow> (failure + 'a) \<times> cloud_state" where
  "in_tx body st =
     (case lock st of
        Inl e \<Rightarrow> (Inl (Refused e), st)
      | Inr db \<Rightarrow>
          (case body db of
             Inl Panicked \<Rightarrow> (Inl Panicked, st\<lparr>poisoned := True\<rparr>)
           | Inl (Refused e) \<Rightarrow> (Inl (Refused e), st)
           | Inr (a, db') \<Rightarrow> (Inr a, st\<lparr>cs_db := db'\<rparr>)))"

abbreviation refuse :: "api_error + 'a \<Rightarrow> failure + 'a" where
  "refuse \<equiv> map_err Refused"

abbreviation sql :: "sql_error + 'a \<Rightarrow> failure + 'a" where
  "sql \<equiv> map_err (\<lambda>_. Refused api_internal)"

abbreviation sql_unique :: "sql_error + 'a \<Rightarrow> failure + 'a" where
  "sql_unique \<equiv> map_err (\<lambda>e. Refused (map_conflict e))"

definition audit ::
  "cloud_lib \<Rightarrow> draws \<Rightarrow> string \<Rightarrow> string \<Rightarrow> string \<Rightarrow> string \<Rightarrow> cloud_db \<Rightarrow> failure + cloud_db" where
  "audit lib d actor_type actor action tgt db =
     sql (insert_audit \<lparr>aud_id = uuid_text lib (audit_id d), aud_actor_type = actor_type,
        aud_actor = Some actor, aud_action = action, aud_target = Some tgt,
        aud_created_at = audit_now d\<rparr> db)"

section \<open>Headers and cookies\<close>

definition header_get :: "cloud_lib \<Rightarrow> string \<Rightarrow> headers \<Rightarrow> string option" where
  "header_get lib name hs = Option.bind (map_of hs name) (header_value_str lib)"

definition session_cookie_name :: "cloud_config \<Rightarrow> string" where
  "session_cookie_name cfg =
     (if secure_cookies cfg then ''__Host-c6_cloud_session'' else ''c6_cloud_session'')"

definition csrf_cookie_name :: "cloud_config \<Rightarrow> string" where
  "csrf_cookie_name cfg =
     (if secure_cookies cfg then ''__Host-c6_cloud_csrf'' else ''c6_cloud_csrf'')"

definition cookie :: "cloud_lib \<Rightarrow> headers \<Rightarrow> string \<Rightarrow> string option" where
  "cookie lib hs name =
     find_map (\<lambda>kv. if fst kv = name then Some (snd kv) else None)
       (concat (map cookie_pairs (List.map_filter (\<lambda>h. header_value_str lib (snd h))
          (filter (\<lambda>h. fst h = ''cookie'') hs))))"

text \<open>Instants count nanoseconds.\<close>

definition session_hours :: int where "session_hours = 24 * 30"
definition hour :: time where "hour = 3600 * 10 ^ 9"

definition cookie_suffix :: "cloud_config \<Rightarrow> string" where
  "cookie_suffix cfg = (if secure_cookies cfg then ''; Secure'' else [])"

definition session_cookie :: "cloud_config \<Rightarrow> string \<Rightarrow> string" where
  "session_cookie cfg v = session_cookie_name cfg @ ''='' @ v
     @ ''; Path=/; HttpOnly; SameSite=Lax; Max-Age='' @ show_nat (nat (session_hours * 3600)) @ cookie_suffix cfg"

definition csrf_cookie :: "cloud_config \<Rightarrow> string \<Rightarrow> string" where
  "csrf_cookie cfg v = csrf_cookie_name cfg @ ''='' @ v
     @ ''; Path=/; SameSite=Lax; Max-Age='' @ show_nat (nat (session_hours * 3600)) @ cookie_suffix cfg"

text \<open>The \<open>Set-Cookie\<close> values of a session response.\<close>

definition session_response :: "cloud_lib \<Rightarrow> cloud_config \<Rightarrow> string \<Rightarrow> string \<Rightarrow> api_error + string list" where
  "session_response lib cfg token csrf =
     andThen (fail_if (\<not> header_value_ok lib (session_cookie cfg token)) api_internal)
    (andThen (fail_if (\<not> header_value_ok lib (csrf_cookie cfg csrf)) api_internal)
       (Inr [session_cookie cfg token, csrf_cookie cfg csrf]))"

definition append_clear_cookies :: "cloud_lib \<Rightarrow> cloud_config \<Rightarrow> string list" where
  "append_clear_cookies lib cfg =
     filter (header_value_ok lib)
       [session_cookie_name cfg @ ''=; Path=/; SameSite=Lax; Max-Age=0; HttpOnly'' @ cookie_suffix cfg,
        csrf_cookie_name cfg @ ''=; Path=/; SameSite=Lax; Max-Age=0'' @ cookie_suffix cfg]"

section \<open>Authentication\<close>

record user_principal =
  up_account :: string
  up_csrf_hash :: string

definition require_origin :: "cloud_lib \<Rightarrow> cloud_config \<Rightarrow> headers \<Rightarrow> api_error + unit" where
  "require_origin lib cfg hs =
     rbind (ok_or (api_forbidden ''Origin header required'') (header_get lib ''origin'' hs))
       (\<lambda>origin. fail_if (origin \<noteq> public_origin cfg) (api_forbidden ''Origin does not match this cloud''))"

definition active_account :: "cloud_db \<Rightarrow> string \<Rightarrow> bool" where
  "active_account db a = list_ex (\<lambda>r. acc_id r = a \<and> acc_disabled_at r = None) (accounts db)"

definition find_session :: "cloud_db \<Rightarrow> string \<Rightarrow> time \<Rightarrow> session option" where
  "find_session db th t = find (\<lambda>s. ses_token_hash s = th \<and> ses_revoked_at s = None
      \<and> t < ses_expires_at s \<and> active_account db (ses_account s)) (sessions db)"

definition check_csrf :: "cloud_lib \<Rightarrow> cloud_config \<Rightarrow> headers \<Rightarrow> user_principal \<Rightarrow> api_error + unit" where
  "check_csrf lib cfg hs p =
     andThen (require_origin lib cfg hs)
    (rbind (ok_or (api_forbidden ''CSRF cookie required'') (cookie lib hs (csrf_cookie_name cfg))) (\<lambda>c.
     rbind (ok_or (api_forbidden ''CSRF header required'') (header_get lib ''x-c6-csrf'' hs)) (\<lambda>h.
     fail_if (sha_hex lib c \<noteq> up_csrf_hash p \<or> c \<noteq> h) (api_forbidden ''CSRF verification failed''))))"

definition user ::
  "cloud_lib \<Rightarrow> cloud_config \<Rightarrow> draws \<Rightarrow> headers \<Rightarrow> bool \<Rightarrow> cloud_state \<Rightarrow> api_error + user_principal" where
  "user lib cfg d hs mutation st =
     rbind (ok_or api_unauthenticated (cookie lib hs (session_cookie_name cfg))) (\<lambda>token.
     rbind (lock st) (\<lambda>db.
     rbind (ok_or api_unauthenticated (find_session db (sha_hex lib token) (auth_now d))) (\<lambda>s.
     let p = \<lparr>up_account = ses_account s, up_csrf_hash = ses_csrf_hash s\<rparr> in
     if mutation then andThen (check_csrf lib cfg hs p) (Inr p) else Inr p)))"

definition active_installation :: "cloud_db \<Rightarrow> string \<Rightarrow> bool" where
  "active_installation db k = list_ex (\<lambda>i. ins_id i = k \<and> ins_revoked_at i = None) (installations db)"

definition find_credential :: "cloud_db \<Rightarrow> string \<Rightarrow> credential option" where
  "find_credential db pid = find (\<lambda>c. cred_public_id c = pid \<and> cred_revoked_at c = None
      \<and> active_installation db (cred_installation c)) (credentials db)"

definition connector :: "cloud_lib \<Rightarrow> headers \<Rightarrow> cloud_state \<Rightarrow> api_error + string" where
  "connector lib hs st =
     rbind (ok_or api_unauthenticated
         (Option.bind (header_get lib ''authorization'' hs) (strip_prefix ''Bearer ''))) (\<lambda>text.
     rbind (map_err (\<lambda>_. api_unauthenticated) (parse_token text)) (\<lambda>t.
     if token_class t \<noteq> Connector then Inl api_unauthenticated
     else rbind (lock st) (\<lambda>db.
       rbind (ok_or api_unauthenticated (find_credential db (public_id t))) (\<lambda>c.
       if cred_secret_hash c \<noteq> sha_hex lib (proof_text t) then Inl api_unauthenticated
       else Inr (cred_installation c)))))"

definition require_installation_owner :: "cloud_db \<Rightarrow> string \<Rightarrow> string \<Rightarrow> api_error + unit" where
  "require_installation_owner db k acc =
     (case find (\<lambda>i. ins_id i = k) (installations db) of
        None \<Rightarrow> Inl (api_not_found ''installation'')
      | Some i \<Rightarrow> if ins_owner i = acc then Inr ()
          else Inl (api_forbidden ''installation owner required''))"

section \<open>Stored rows as responses\<close>

definition parse_uuid :: "cloud_lib \<Rightarrow> string \<Rightarrow> api_error + uuid" where
  "parse_uuid lib s = ok_or api_internal (uuid_of lib s)"

definition parse_role :: "string \<Rightarrow> api_error + cloud_role" where
  "parse_role v =
     (if v = ''owner'' then Inr CloudOwner else if v = ''maintainer'' then Inr CloudMaintainer
      else if v = ''member'' then Inr CloudMember else Inl api_internal)"

abbreviation parsed :: "identifier_error + 'a \<Rightarrow> api_error + 'a" where
  "parsed \<equiv> map_err (\<lambda>_. api_internal)"

definition installation_from_row :: "cloud_lib \<Rightarrow> installation \<Rightarrow> credential \<Rightarrow> api_error + installation_summary" where
  "installation_from_row lib i c =
     rbind (parse_uuid lib (ins_id i)) (\<lambda>k.
     rbind (parse_uuid lib (ins_local_server i)) (\<lambda>server.
     rbind (parse_uuid lib (ins_owner i)) (\<lambda>owner.
     rbind (parsed (installation_label_new (ins_label i))) (\<lambda>label.
     Inr \<lparr>isum_id = k, isum_local_server = server, isum_route = ins_route i, isum_owner = owner,
       isum_label = label, isum_public_id = cred_public_id c,
       isum_state = (if ins_revoked_at i \<noteq> None then LinkRevoked
          else if ins_connected_at i \<noteq> None then LinkConnected else LinkDisconnected),
       isum_connected_at = ins_connected_at i, isum_created_at = ins_created_at i,
       isum_revoked_at = ins_revoked_at i\<rparr>))))"

text \<open>The join of installations with their credentials.\<close>

definition installation_rows :: "cloud_db \<Rightarrow> (installation \<times> credential) list" where
  "installation_rows db =
     [(i, c). i \<leftarrow> installations db, c \<leftarrow> credentials db, cred_installation c = ins_id i]"

definition installation_by_id :: "cloud_lib \<Rightarrow> cloud_db \<Rightarrow> string \<Rightarrow> api_error + installation_summary" where
  "installation_by_id lib db k =
     rbind (ok_or (api_not_found ''installation'') (find (\<lambda>ic. ins_id (fst ic) = k) (installation_rows db)))
       (\<lambda>(i, c). installation_from_row lib i c)"

definition workspace_of_row :: "cloud_lib \<Rightarrow> workspace \<times> membership \<Rightarrow> api_error + workspace_summary" where
  "workspace_of_row lib wm =
     (let (w, m) = wm in
      rbind (parse_uuid lib (ws_id w)) (\<lambda>k.
      rbind (parsed (workspace_namespace_new (ws_namespace w))) (\<lambda>ns.
      rbind (parse_uuid lib (ws_owner w)) (\<lambda>owner.
      rbind (parse_role (mem_role m)) (\<lambda>rl.
      Inr \<lparr>wsum_id = k, wsum_namespace = ns, wsum_name = ws_display_name w, wsum_owner = owner,
        wsum_role = rl, wsum_created_at = ws_created_at w\<rparr>)))))"

definition project_of_row :: "cloud_lib \<Rightarrow> uuid \<Rightarrow> catalog_row \<Rightarrow> api_error + catalog_project" where
  "project_of_row lib b r =
     rbind (parse_uuid lib (cat_local_project r)) (\<lambda>k.
     rbind (parsed (project_slug_new (cat_slug r))) (\<lambda>slug.
     Inr \<lparr>proj_binding = b, proj_local = k, proj_slug = slug, proj_name = cat_name r,
       proj_description = cat_description r, proj_default_branch = cat_default_branch r,
       proj_head_sha = cat_head_sha r, proj_updated_at = cat_updated_at r\<rparr>))"

text \<open>\<open>u64::try_from\<close> refuses a negative revision.\<close>

definition binding_of_row :: "cloud_lib \<Rightarrow> uuid \<Rightarrow> binding \<Rightarrow> api_error + binding_summary" where
  "binding_of_row lib w b =
     rbind (parse_uuid lib (bnd_id b)) (\<lambda>k.
     rbind (parse_uuid lib (bnd_installation b)) (\<lambda>i.
     rbind (parse_uuid lib (bnd_local_workspace b)) (\<lambda>l.
     if bnd_revision b < 0 then Inl api_internal
     else Inr \<lparr>bsum_id = k, bsum_workspace = w, bsum_installation = i, bsum_local_workspace = l,
        bsum_revision = bnd_revision b\<rparr>)))"

definition directory_entry :: "cloud_lib \<Rightarrow> cloud_db \<Rightarrow> workspace_summary \<Rightarrow> api_error + directory_summary" where
  "directory_entry lib db w =
     (case find (\<lambda>b. bnd_workspace b = uuid_text lib (wsum_id w)) (bindings db) of
        None \<Rightarrow> Inr \<lparr>dir_workspace = w, dir_binding = None, dir_projects = []\<rparr>
      | Some row \<Rightarrow>
          rbind (binding_of_row lib (wsum_id w) row) (\<lambda>b.
          rbind (map_res (project_of_row lib (bsum_id b))
              (sort_key (\<lambda>r. (cat_name r, cat_slug r))
                 (filter (\<lambda>r. cat_binding r = uuid_text lib (bsum_id b)) (catalog db)))) (\<lambda>ps.
          Inr \<lparr>dir_workspace = w, dir_binding = Some b, dir_projects = ps\<rparr>)))"

definition binding_for_workspace :: "cloud_lib \<Rightarrow> cloud_db \<Rightarrow> string \<Rightarrow> api_error + uuid" where
  "binding_for_workspace lib db w =
     rbind (ok_or api_internal (find (\<lambda>b. bnd_workspace b = w) (bindings db)))
       (\<lambda>b. parse_uuid lib (bnd_id b))"

section \<open>Handlers\<close>

datatype cloud_response =
    StatusInfo bool string string
  | BootstrapClaimed account_summary string "string list"
  | SessionInfo account_summary string time
  | LoggedOut "string list"
  | WorkspaceList "directory_summary list"
  | WorkspaceCreated workspace_summary
  | InstallationRegistered installation_summary string
  | InstallationList "installation_summary list"
  | InstallationBound binding_summary
  | InstallationRevoked installation_summary
  | CatalogAccepted uuid u64 nat
  | HeartbeatSeen uuid u64 time
  | DirectoryProject workspace_summary catalog_project installation_summary string
  | RelayUpgraded string string
  | RelayRegistered "string option"
  | RelayRemoved bool
  | RelayCleared

type_synonym answer = "failure + cloud_response"

definition status :: "cloud_config \<Rightarrow> cloud_state \<Rightarrow> answer" where
  "status cfg st = refuse (rbind (lock st) (\<lambda>db. Inr (StatusInfo
      (hget (settings db) ''bootstrap_claimed'' = Some ''1'') ''Cresix Cloud (dogfood)'' (public_origin cfg))))"

definition issued :: "cloud_lib \<Rightarrow> token_class \<Rightarrow> bytes \<Rightarrow> bytes \<Rightarrow> failure + string" where
  "issued lib cls pb sb = ok_or Panicked (issue_token (b64url lib) cls pb sb)"

definition create_session ::
  "cloud_lib \<Rightarrow> draws \<Rightarrow> string \<Rightarrow> cloud_db \<Rightarrow> failure + ((string \<times> string) \<times> cloud_db)" where
  "create_session lib d acc db =
     rbind (issued lib CloudSession (token_public d) (token_secret d)) (\<lambda>token.
     rbind (issued lib Csrf (csrf_public d) (csrf_secret d)) (\<lambda>csrf.
     rbind (sql (insert_session \<lparr>ses_id = uuid_text lib (second_id d), ses_account = acc,
          ses_token_hash = sha_hex lib token, ses_csrf_hash = sha_hex lib csrf,
          ses_created_at = session_now d, ses_expires_at = session_now d + session_hours * hour,
          ses_revoked_at = None\<rparr> db)) (\<lambda>db'.
     Inr ((token, csrf), db'))))"

definition claim_tx ::
  "cloud_lib \<Rightarrow> draws \<Rightarrow> claim_request \<Rightarrow> cloud_db \<Rightarrow> failure + ((string \<times> string) \<times> cloud_db)" where
  "claim_tx lib d r db =
     (let acc = uuid_text lib (new_id d) in
      if hget (settings db) ''bootstrap_claimed'' = Some ''1''
      then Inl (Refused (api_conflict ''cloud bootstrap has already been claimed''))
      else rbind (ok_or (Refused api_internal) (hget (settings db) ''bootstrap_hash'')) (\<lambda>expected.
        if token_class (claim_token r) \<noteq> Bootstrap \<or> expected \<noteq> sha_hex lib (render_token (claim_token r))
        then Inl (Refused (api_forbidden ''invalid bootstrap credential''))
        else
          rbind (sql_unique (insert_account \<lparr>acc_id = acc, acc_handle = handle_str (claim_handle r),
             acc_display_name = claim_display_name r, acc_created_at = now d, acc_disabled_at = None\<rparr> db)) (\<lambda>db.
          rbind (create_session lib d acc (delete_setting ''bootstrap_hash''
             (put_setting ''bootstrap_claimed'' ''1'' db))) (\<lambda>(tokens, db).
          rbind (audit lib d ''account'' acc ''cloud.bootstrap_claimed'' acc db) (\<lambda>db.
          Inr (tokens, db))))))"

definition claim_admitted ::
  "cloud_lib \<Rightarrow> cloud_config \<Rightarrow> draws \<Rightarrow> claim_request \<Rightarrow> cloud_state \<Rightarrow> answer \<times> cloud_state" where
  "claim_admitted lib cfg d r st =
     (case in_tx (claim_tx lib d r) st of
        (Inl f, st) \<Rightarrow> (Inl f, st)
      | (Inr (token, csrf), st) \<Rightarrow>
          (refuse (andThen (map_err (\<lambda>_. api_internal) (rbind (parse_token csrf) (\<lambda>_. Inr ())))
             (rbind (session_response lib cfg token csrf) (\<lambda>cookies.
              Inr (BootstrapClaimed \<lparr>asum_id = new_id d, asum_handle = claim_handle r,
                asum_display_name = claim_display_name r, asum_created_at = now d,
                asum_disabled_at = None\<rparr> csrf cookies)))),
           st\<lparr>bootstrap_file := if file_ok d then None else bootstrap_file st\<rparr>))"

definition claim_bootstrap ::
  "cloud_lib \<Rightarrow> cloud_config \<Rightarrow> draws \<Rightarrow> bool \<Rightarrow> headers \<Rightarrow> claim_request \<Rightarrow> cloud_state \<Rightarrow> answer \<times> cloud_state" where
  "claim_bootstrap lib cfg d loopback hs r st =
     (case andThen (fail_if (\<not> loopback) (api_forbidden ''bootstrap claim is available from loopback only''))
          (andThen (require_origin lib cfg hs)
             (map_err (\<lambda>e. api_bad (contract_error_text e)) (claim_validate r))) of
        Inl e \<Rightarrow> (Inl (Refused e), st)
      | Inr _ \<Rightarrow> claim_admitted lib cfg d r st)"

definition session_info :: "cloud_lib \<Rightarrow> cloud_config \<Rightarrow> draws \<Rightarrow> headers \<Rightarrow> cloud_state \<Rightarrow> answer" where
  "session_info lib cfg d hs st =
     refuse (rbind (user lib cfg d hs False st) (\<lambda>p.
       rbind (lock st) (\<lambda>db.
       rbind (ok_or api_unauthenticated (cookie lib hs (session_cookie_name cfg))) (\<lambda>token.
       rbind (ok_or api_internal (find (\<lambda>(a, s). ses_account s = acc_id a \<and> acc_id a = up_account p
             \<and> ses_token_hash s = sha_hex lib token) (List.product (accounts db) (sessions db)))) (\<lambda>(a, s).
       rbind (ok_or api_unauthenticated (cookie lib hs (csrf_cookie_name cfg))) (\<lambda>csrf.
       rbind (parse_uuid lib (up_account p)) (\<lambda>k.
       rbind (parsed (account_handle_new (acc_handle a))) (\<lambda>h.
       rbind (map_err (\<lambda>_. api_internal) (parse_token csrf)) (\<lambda>_.
       Inr (SessionInfo \<lparr>asum_id = k, asum_handle = h, asum_display_name = acc_display_name a,
         asum_created_at = acc_created_at a, asum_disabled_at = None\<rparr> csrf (ses_expires_at s)))))))))))"

definition logout_as :: "cloud_lib \<Rightarrow> cloud_config \<Rightarrow> draws \<Rightarrow> headers \<Rightarrow> user_principal \<Rightarrow> cloud_state \<Rightarrow> answer \<times> cloud_state" where
  "logout_as lib cfg d hs p st =
     (case rbind (lock st) (\<lambda>db.
          rbind (ok_or api_unauthenticated (cookie lib hs (session_cookie_name cfg))) (\<lambda>token.
          Inr (revoke_session_row (up_account p) (sha_hex lib token) (now d) db))) of
        Inl e \<Rightarrow> (Inl (Refused e), st)
      | Inr db \<Rightarrow> (Inr (LoggedOut (append_clear_cookies lib cfg)), st\<lparr>cs_db := db\<rparr>))"

definition list_workspaces :: "cloud_lib \<Rightarrow> cloud_config \<Rightarrow> draws \<Rightarrow> headers \<Rightarrow> cloud_state \<Rightarrow> answer" where
  "list_workspaces lib cfg d hs st =
     refuse (rbind (user lib cfg d hs False st) (\<lambda>p. rbind (lock st) (\<lambda>db.
       rbind (map_res (workspace_of_row lib)
          (sort_key (\<lambda>wm. ws_namespace (fst wm))
            [(w, m). w \<leftarrow> workspaces db, m \<leftarrow> memberships db,
               mem_workspace m = ws_id w \<and> mem_account m = up_account p])) (\<lambda>ws.
       rbind (map_res (directory_entry lib db) ws) (\<lambda>ds.
       Inr (WorkspaceList ds))))))"

text \<open>The answer after the commit.\<close>

definition answered :: "('a \<Rightarrow> api_error + cloud_response) \<Rightarrow> (failure + 'a) \<times> cloud_state \<Rightarrow> answer \<times> cloud_state" where
  "answered g rs = (case rs of (Inl f, st) \<Rightarrow> (Inl f, st) | (Inr a, st) \<Rightarrow> (refuse (g a), st))"

definition workspace_tx ::
  "cloud_lib \<Rightarrow> draws \<Rightarrow> workspace_request \<Rightarrow> string \<Rightarrow> cloud_db \<Rightarrow> failure + (unit \<times> cloud_db)" where
  "workspace_tx lib d r acc db =
     (let k = uuid_text lib (new_id d) in
      rbind (sql_unique (insert_workspace \<lparr>ws_id = k, ws_namespace = namespace_str (wreq_namespace r),
         ws_display_name = wreq_name r, ws_owner = acc, ws_created_at = now d\<rparr> db)) (\<lambda>db.
      rbind (sql (insert_membership \<lparr>mem_workspace = k, mem_account = acc, mem_role = ''owner''\<rparr> db)) (\<lambda>db.
      rbind (audit lib d ''account'' acc ''workspace.created'' k db) (\<lambda>db. Inr ((), db)))))"

definition create_workspace_as ::
  "cloud_lib \<Rightarrow> draws \<Rightarrow> workspace_request \<Rightarrow> user_principal \<Rightarrow> cloud_state \<Rightarrow> answer \<times> cloud_state" where
  "create_workspace_as lib d r p st =
     (case workspace_validate r of
       Inl e \<Rightarrow> (Inl (Refused (api_bad (contract_error_text e))), st)
     | Inr _ \<Rightarrow>
         answered (\<lambda>_. rbind (parse_uuid lib (up_account p)) (\<lambda>owner.
             Inr (WorkspaceCreated \<lparr>wsum_id = new_id d, wsum_namespace = wreq_namespace r,
               wsum_name = wreq_name r, wsum_owner = owner, wsum_role = CloudOwner,
               wsum_created_at = now d\<rparr>)))
           (in_tx (workspace_tx lib d r (up_account p)) st))"

text \<open>\<open>short_id\<close>, the route, is 12 random bytes in base64url.\<close>

definition installation_tx ::
  "cloud_lib \<Rightarrow> draws \<Rightarrow> installation_request \<Rightarrow> parsed_token \<Rightarrow> string \<Rightarrow> cloud_db \<Rightarrow> failure + (unit \<times> cloud_db)" where
  "installation_tx lib d r tk acc db =
     (let k = uuid_text lib (new_id d) in
      rbind (sql_unique (insert_installation \<lparr>ins_id = k, ins_owner = acc,
         ins_local_server = uuid_text lib (ireq_local_server r), ins_route = b64url lib (route_bytes d),
         ins_label = label_str (ireq_label r), ins_created_at = now d,
         ins_connected_at = None, ins_revoked_at = None\<rparr> db)) (\<lambda>db.
      rbind (sql (insert_credential \<lparr>cred_id = uuid_text lib (second_id d), cred_installation = k,
         cred_public_id = public_id tk, cred_secret_hash = sha_hex lib (proof_text tk),
         cred_created_at = now d, cred_revoked_at = None\<rparr> db)) (\<lambda>db.
      rbind (audit lib d ''account'' acc ''installation.registered'' k db) (\<lambda>db. Inr ((), db)))))"

definition register_installation_as ::
  "cloud_lib \<Rightarrow> draws \<Rightarrow> installation_request \<Rightarrow> user_principal \<Rightarrow> cloud_state \<Rightarrow> answer \<times> cloud_state" where
  "register_installation_as lib d r p st =
     (case rbind (issued lib Connector (token_public d) (token_secret d)) (\<lambda>token.
          rbind (map_err (\<lambda>_. Panicked) (parse_token token)) (\<lambda>tk. Inr (token, tk))) of
       Inl f \<Rightarrow> (Inl f, st)
     | Inr (token, tk) \<Rightarrow>
         answered (\<lambda>_. rbind (parse_uuid lib (up_account p)) (\<lambda>owner.
             Inr (InstallationRegistered \<lparr>isum_id = new_id d, isum_local_server = ireq_local_server r,
               isum_route = b64url lib (route_bytes d), isum_owner = owner, isum_label = ireq_label r,
               isum_public_id = public_id tk, isum_state = LinkDisconnected, isum_connected_at = None,
               isum_created_at = now d, isum_revoked_at = None\<rparr> token)))
           (in_tx (installation_tx lib d r tk (up_account p)) st))"

definition list_installations :: "cloud_lib \<Rightarrow> cloud_config \<Rightarrow> draws \<Rightarrow> headers \<Rightarrow> cloud_state \<Rightarrow> answer" where
  "list_installations lib cfg d hs st =
     refuse (rbind (user lib cfg d hs False st) (\<lambda>p. rbind (lock st) (\<lambda>db.
       rbind (map_res (\<lambda>(i, c). installation_from_row lib i c)
          (sort_key (\<lambda>ic. ins_created_at (fst ic))
            (filter (\<lambda>ic. ins_owner (fst ic) = up_account p) (installation_rows db)))) (\<lambda>is.
       Inr (InstallationList is)))))"

definition owns_workspace :: "cloud_db \<Rightarrow> string \<Rightarrow> string \<Rightarrow> bool" where
  "owns_workspace db w acc = list_ex (\<lambda>m. mem_workspace m = w \<and> mem_account m = acc
      \<and> mem_role m = ''owner'') (memberships db)"

definition bind_tx ::
  "cloud_lib \<Rightarrow> draws \<Rightarrow> string \<Rightarrow> string \<Rightarrow> binding_request \<Rightarrow> cloud_db \<Rightarrow> failure + (unit \<times> cloud_db)" where
  "bind_tx lib d acc w r db =
     (let k = uuid_text lib (breq_installation r) in
      andThen (refuse (require_installation_owner db k acc))
        (if \<not> owns_workspace db w acc
         then Inl (Refused (api_forbidden ''workspace owner role required''))
         else
           rbind (sql_unique (insert_binding \<lparr>bnd_id = uuid_text lib (new_id d), bnd_workspace = w,
              bnd_installation = k, bnd_local_workspace = uuid_text lib (breq_local_workspace r),
              bnd_revision = 0\<rparr> db)) (\<lambda>db.
           rbind (audit lib d ''account'' acc ''installation.bound'' k db) (\<lambda>db.
           Inr ((), db)))))"

definition bind_installation_as ::
  "cloud_lib \<Rightarrow> draws \<Rightarrow> string \<Rightarrow> binding_request \<Rightarrow> user_principal \<Rightarrow> cloud_state \<Rightarrow> answer \<times> cloud_state" where
  "bind_installation_as lib d w r p st =
     (case uuid_of lib w of
       None \<Rightarrow> (Inl (Refused (api_bad ''invalid workspace id'')), st)
     | Some wid \<Rightarrow>
         answered (\<lambda>_. Inr (InstallationBound \<lparr>bsum_id = new_id d, bsum_workspace = wid,
             bsum_installation = breq_installation r, bsum_local_workspace = breq_local_workspace r,
             bsum_revision = 0\<rparr>))
           (in_tx (bind_tx lib d (up_account p) w r) st))"

definition revoke_tx ::
  "cloud_lib \<Rightarrow> draws \<Rightarrow> string \<Rightarrow> string \<Rightarrow> cloud_db \<Rightarrow> failure + (installation_summary \<times> cloud_db)" where
  "revoke_tx lib d acc k db =
     andThen (refuse (require_installation_owner db k acc))
    (rbind (refuse (installation_by_id lib db k)) (\<lambda>s.
     rbind (audit lib d ''account'' acc ''installation.revoked'' k (revoke_installation_rows k (now d) db)) (\<lambda>db.
     Inr (s\<lparr>isum_state := LinkRevoked, isum_revoked_at := Some (now d)\<rparr>, db))))"

definition revoke_installation_as ::
  "cloud_lib \<Rightarrow> draws \<Rightarrow> string \<Rightarrow> user_principal \<Rightarrow> cloud_state \<Rightarrow> answer \<times> cloud_state" where
  "revoke_installation_as lib d k p st =
     (case in_tx (revoke_tx lib d (up_account p) k) st of
       (Inl f, st) \<Rightarrow> (Inl f, st)
     | (Inr s, st) \<Rightarrow> (Inr (InstallationRevoked s), st\<lparr>relays := hdel (isum_route s) (relays st)\<rparr>))"

definition catalog_row_of :: "cloud_lib \<Rightarrow> uuid \<Rightarrow> int \<Rightarrow> project_input \<Rightarrow> catalog_row" where
  "catalog_row_of lib b revision p =
     \<lparr>cat_binding = uuid_text lib b, cat_local_project = uuid_text lib (pin_local p),
      cat_slug = slug_str (pin_slug p), cat_name = pin_name p, cat_description = pin_description p,
      cat_default_branch = pin_default_branch p, cat_head_sha = pin_head_sha p,
      cat_revision = revision, cat_updated_at = pin_updated_at p\<rparr>"

definition catalog_tx ::
  "cloud_lib \<Rightarrow> draws \<Rightarrow> string \<Rightarrow> catalog_request \<Rightarrow> cloud_db \<Rightarrow> failure + (unit \<times> cloud_db)" where
  "catalog_tx lib d k r db =
     (let b = uuid_text lib (creq_binding r); revision = uint (creq_revision r) in
      case find (\<lambda>x. bnd_id x = b \<and> bnd_installation x = k \<and> active_installation db k) (bindings db) of
        None \<Rightarrow> Inl (Refused (api_not_found ''active workspace binding''))
      | Some x \<Rightarrow>
          if \<not> revision < 2 ^ 63 then Inl (Refused (api_bad ''catalog revision is too large''))
          else if revision \<le> bnd_revision x
          then Inl (Refused (api_conflict ''catalog revision must increase monotonically''))
          else
            rbind (sql (replace_catalog b revision
                (map (catalog_row_of lib (creq_binding r) revision) (creq_projects r)) db)) (\<lambda>db.
            rbind (audit lib d ''installation'' k ''catalog.replaced'' k db) (\<lambda>db.
            Inr ((), db))))"

definition put_catalog_as :: "cloud_lib \<Rightarrow> draws \<Rightarrow> catalog_request \<Rightarrow> string \<Rightarrow> cloud_state \<Rightarrow> answer \<times> cloud_state" where
  "put_catalog_as lib d r k st =
     (case andThen (map_err (\<lambda>e. api_bad (contract_error_text e)) (catalog_validate r))
            (fail_if (\<not> distinct (map (\<lambda>p. slug_str (pin_slug p)) (creq_projects r)))
               (api_bad ''catalog contains duplicate project slug'')) of
        Inl e \<Rightarrow> (Inl (Refused e), st)
      | Inr _ \<Rightarrow>
          answered (\<lambda>_. Inr (CatalogAccepted (creq_binding r) (creq_revision r) (length (creq_projects r))))
            (in_tx (catalog_tx lib d k r) st))"

text \<open>\<open>COALESCE(MAX(catalog_revision), 0)\<close> over the installation's bindings.\<close>

definition catalog_generation :: "cloud_db \<Rightarrow> string \<Rightarrow> int" where
  "catalog_generation db k =
     (case map bnd_revision (filter (\<lambda>b. bnd_installation b = k) (bindings db)) of
        [] \<Rightarrow> 0 | n # ns \<Rightarrow> fold max ns n)"

definition heartbeat :: "cloud_lib \<Rightarrow> draws \<Rightarrow> string \<Rightarrow> headers \<Rightarrow> cloud_state \<Rightarrow> answer" where
  "heartbeat lib d k hs st =
     refuse (rbind (connector lib hs st) (\<lambda>c.
       andThen (fail_if (c \<noteq> k) (api_forbidden ''credential does not belong to installation''))
      (rbind (parse_uuid lib k) (\<lambda>kid. rbind (lock st) (\<lambda>db.
       rbind (ok_or (api_not_found ''active installation'')
          (find (\<lambda>i. ins_id i = k \<and> ins_revoked_at i = None) (installations db))) (\<lambda>i.
       if ins_route i \<notin> hkeys (relays st)
       then Inl (api_conflict ''installation has no live relay session'')
       else Inr (HeartbeatSeen kid (word_of_int (catalog_generation db k)) (now d))))))))"

definition directory_rows ::
  "cloud_db \<Rightarrow> string \<Rightarrow> string \<Rightarrow> string \<Rightarrow> (workspace \<times> binding \<times> installation \<times> catalog_row \<times> membership) list" where
  "directory_rows db w p acc =
     [(ws, b, i, c, m).
        ws \<leftarrow> filter (\<lambda>ws. ws_namespace ws = w) (workspaces db),
        b \<leftarrow> filter (\<lambda>b. bnd_workspace b = ws_id ws) (bindings db),
        i \<leftarrow> filter (\<lambda>i. ins_id i = bnd_installation b \<and> ins_revoked_at i = None) (installations db),
        c \<leftarrow> filter (\<lambda>c. cat_binding c = bnd_id b \<and> cat_slug c = p) (catalog db),
        m \<leftarrow> filter (\<lambda>m. mem_workspace m = ws_id ws \<and> mem_account m = acc) (memberships db)]"

definition directory_project ::
  "cloud_lib \<Rightarrow> cloud_config \<Rightarrow> draws \<Rightarrow> string \<Rightarrow> string \<Rightarrow> headers \<Rightarrow> cloud_state \<Rightarrow> answer" where
  "directory_project lib cfg d w p hs st =
     refuse (rbind (user lib cfg d hs False st) (\<lambda>u.
       rbind (map_err (\<lambda>_. api_not_found ''directory project'') (workspace_namespace_new w)) (\<lambda>_.
       rbind (map_err (\<lambda>_. api_not_found ''directory project'') (project_slug_new p)) (\<lambda>slug.
       rbind (lock st) (\<lambda>db.
       rbind (ok_or (api_not_found ''directory project'')
          (case directory_rows db w p (up_account u) of [] \<Rightarrow> None | r # _ \<Rightarrow> Some r)) (\<lambda>(ws, b, i, c, m).
       rbind (installation_by_id lib db (ins_id i)) (\<lambda>inst.
       rbind (workspace_of_row lib (ws, m)) (\<lambda>wsum.
       rbind (binding_for_workspace lib db (ws_id ws)) (\<lambda>bid.
       rbind (parse_uuid lib (cat_local_project c)) (\<lambda>local.
       Inr (DirectoryProject wsum
         \<lparr>proj_binding = bid, proj_local = local, proj_slug = slug, proj_name = cat_name c,
          proj_description = cat_description c, proj_default_branch = cat_default_branch c,
          proj_head_sha = cat_head_sha c, proj_updated_at = cat_updated_at c\<rparr>
         inst (public_origin cfg @ ''/relay/'' @ ins_route i @ ''/projects/'' @ p))))))))))))"

section \<open>Relay routes\<close>

text \<open>The answer hands the socket to \<open>relay_session\<close> with the installation and the bearer text.\<close>

definition relay_connect :: "cloud_lib \<Rightarrow> headers \<Rightarrow> cloud_state \<Rightarrow> answer" where
  "relay_connect lib hs st =
     refuse (rbind (connector lib hs st) (\<lambda>k.
       let requested = (case header_get lib ''sec-websocket-protocol'' hs of Some v \<Rightarrow> v | None \<Rightarrow> []) in
       if \<not> list_ex (\<lambda>v. trim v = ''c6-relay-v1'') (split_on (CHR '','') requested)
       then Inl (api_bad ''WebSocket subprotocol c6-relay-v1 is required'')
       else rbind (ok_or api_unauthenticated
           (Option.bind (header_get lib ''authorization'' hs) (strip_prefix ''Bearer ''))) (\<lambda>a.
         Inr (RelayUpgraded k a))))"

definition register_relay_if_active ::
  "draws \<Rightarrow> string \<Rightarrow> uuid \<Rightarrow> cloud_state \<Rightarrow> answer \<times> cloud_state" where
  "register_relay_if_active d k sid st =
     (case lock st of
        Inl e \<Rightarrow> (Inl (Refused e), st)
      | Inr db \<Rightarrow>
          (case find (\<lambda>i. ins_id i = k \<and> ins_revoked_at i = None \<and>
                list_ex (\<lambda>c. cred_installation c = k \<and> cred_revoked_at c = None) (credentials db))
              (installations db) of
             None \<Rightarrow> (Inr (RelayRegistered None), st)
           | Some i \<Rightarrow> (Inr (RelayRegistered (Some (ins_route i))),
               st\<lparr>cs_db := set_connected k (Some (now d)) db,
                  relays := hput (ins_route i) sid (relays st)\<rparr>)))"

text \<open>
  The end of \<open>relay_session\<close>: only the session that still owns the route removes it, and the
  database is updated after the registry's lock is released, in a critical section of its own.
\<close>

definition relay_remove :: "string \<Rightarrow> string \<Rightarrow> uuid \<Rightarrow> cloud_state \<Rightarrow> answer \<times> cloud_state" where
  "relay_remove k route sid st =
     (if hget (relays st) route = Some sid
      then (Inr (RelayRemoved True), st\<lparr>relays := hdel route (relays st), closing := closing st @ [k]\<rparr>)
      else (Inr (RelayRemoved False), st))"

definition relay_clear :: "string \<Rightarrow> cloud_state \<Rightarrow> answer \<times> cloud_state" where
  "relay_clear k st =
     (if k \<in> set (closing st)
      then (let st' = st\<lparr>closing := remove1 k (closing st)\<rparr> in
         (Inr RelayCleared, case lock st' of Inl _ \<Rightarrow> st' | Inr db \<Rightarrow> st'\<lparr>cs_db := set_connected k None db\<rparr>))
      else (Inr RelayCleared, st))"

section \<open>Requests\<close>

text \<open>The routes of \<open>app\<close>, each handler from authentication to the answer.\<close>

datatype cloud_request =
    GetStatus
  | PostClaim bool claim_request
  | GetSession
  | DeleteSession
  | GetWorkspaces
  | PostWorkspaces workspace_request
  | PostInstallations installation_request
  | GetInstallations
  | PostBinding string binding_request
  | DeleteInstallation string
  | PutInstallationCatalog string catalog_request
  | PostHeartbeat string
  | GetDirectory string string
  | GetRelayConnect

definition with_user ::
  "cloud_lib \<Rightarrow> cloud_config \<Rightarrow> draws \<Rightarrow> headers \<Rightarrow> (user_principal \<Rightarrow> cloud_state \<Rightarrow> answer \<times> cloud_state)
     \<Rightarrow> cloud_state \<Rightarrow> answer \<times> cloud_state" where
  "with_user lib cfg d hs k st =
     (case user lib cfg d hs True st of Inl e \<Rightarrow> (Inl (Refused e), st) | Inr p \<Rightarrow> k p st)"

definition put_catalog ::
  "cloud_lib \<Rightarrow> draws \<Rightarrow> string \<Rightarrow> headers \<Rightarrow> catalog_request \<Rightarrow> cloud_state \<Rightarrow> answer \<times> cloud_state" where
  "put_catalog lib d k hs r st =
     (case rbind (connector lib hs st) (\<lambda>c.
          andThen (fail_if (c \<noteq> k) (api_forbidden ''credential does not belong to installation'')) (Inr c)) of
        Inl e \<Rightarrow> (Inl (Refused e), st)
      | Inr c \<Rightarrow> put_catalog_as lib d r c st)"

definition serve ::
  "cloud_lib \<Rightarrow> cloud_config \<Rightarrow> draws \<Rightarrow> headers \<Rightarrow> cloud_state \<Rightarrow> cloud_request \<Rightarrow> answer \<times> cloud_state" where
  "serve lib cfg d hs st rq =
     (case rq of
        GetStatus \<Rightarrow> (status cfg st, st)
      | PostClaim loopback r \<Rightarrow> claim_bootstrap lib cfg d loopback hs r st
      | GetSession \<Rightarrow> (session_info lib cfg d hs st, st)
      | DeleteSession \<Rightarrow> with_user lib cfg d hs (logout_as lib cfg d hs) st
      | GetWorkspaces \<Rightarrow> (list_workspaces lib cfg d hs st, st)
      | PostWorkspaces r \<Rightarrow> with_user lib cfg d hs (create_workspace_as lib d r) st
      | PostInstallations r \<Rightarrow> with_user lib cfg d hs (register_installation_as lib d r) st
      | GetInstallations \<Rightarrow> (list_installations lib cfg d hs st, st)
      | PostBinding w r \<Rightarrow> with_user lib cfg d hs (bind_installation_as lib d w r) st
      | DeleteInstallation k \<Rightarrow> with_user lib cfg d hs (revoke_installation_as lib d k) st
      | PutInstallationCatalog k r \<Rightarrow> put_catalog lib d k hs r st
      | PostHeartbeat k \<Rightarrow> (heartbeat lib d k hs st, st)
      | GetDirectory w p \<Rightarrow> (directory_project lib cfg d w p hs st, st)
      | GetRelayConnect \<Rightarrow> (relay_connect lib hs st, st))"

section \<open>Critical sections\<close>

text \<open>
  Handlers run concurrently: between its authentication, which takes and releases the database
  lock, and its own critical section, others may change the state.  The machine whose events are
  the critical sections, with whatever principal was authenticated before, covers every such
  interleaving; the sections that only read are left out, since they leave the state as it is.
\<close>

datatype cloud_event =
    Claiming draws claim_request
  | LoggingOut draws headers user_principal
  | CreatingWorkspace draws workspace_request user_principal
  | Registering draws installation_request user_principal
  | Binding draws string binding_request user_principal
  | Revoking draws string user_principal
  | PuttingCatalog draws catalog_request string
  | RelayUp draws string uuid
  | RelayDown string string uuid
  | RelayClear string

definition cloud_step :: "cloud_lib \<Rightarrow> cloud_config \<Rightarrow> cloud_state \<Rightarrow> cloud_event \<Rightarrow> answer \<times> cloud_state" where
  "cloud_step lib cfg st ev =
     (case ev of
        Claiming d r \<Rightarrow> claim_admitted lib cfg d r st
      | LoggingOut d hs p \<Rightarrow> logout_as lib cfg d hs p st
      | CreatingWorkspace d r p \<Rightarrow> create_workspace_as lib d r p st
      | Registering d r p \<Rightarrow> register_installation_as lib d r p st
      | Binding d w r p \<Rightarrow> bind_installation_as lib d w r p st
      | Revoking d k p \<Rightarrow> revoke_installation_as lib d k p st
      | PuttingCatalog d r k \<Rightarrow> put_catalog_as lib d r k st
      | RelayUp d k sid \<Rightarrow> register_relay_if_active d k sid st
      | RelayDown k route sid \<Rightarrow> relay_remove k route sid st
      | RelayClear k \<Rightarrow> relay_clear k st)"

end
