(* ===== verification/Cloud_History.thy ===== *)
theory Cloud_History
  imports Cloud_Api
begin

text \<open>
  The cloud service in every interleaving of its critical sections: what each section does to the
  database, the invariant (the schema's constraints, credentials revoked with their installation,
  live routes only of installations in force, at most one account) and the order \<open>cloud_below\<close>
  in which every step climbs: rows are only added, revocations are final and catalog revisions
  never go back.  The machine is interpreted as a \<open>growing_machine\<close>.
\<close>

section \<open>What only moves forward\<close>

text \<open>Fields that never change, and those that move one way.\<close>

definition session_after :: "session \<Rightarrow> session \<Rightarrow> bool" where
  "session_after s t \<longleftrightarrow> t = s\<lparr>ses_revoked_at := ses_revoked_at t\<rparr>
     \<and> (ses_revoked_at s \<noteq> None \<longrightarrow> ses_revoked_at t \<noteq> None)"

definition installation_after :: "installation \<Rightarrow> installation \<Rightarrow> bool" where
  "installation_after i j \<longleftrightarrow> j = i\<lparr>ins_connected_at := ins_connected_at j, ins_revoked_at := ins_revoked_at j\<rparr>
     \<and> (ins_revoked_at i \<noteq> None \<longrightarrow> ins_revoked_at j \<noteq> None)"

definition credential_after :: "credential \<Rightarrow> credential \<Rightarrow> bool" where
  "credential_after c e \<longleftrightarrow> e = c\<lparr>cred_revoked_at := cred_revoked_at e\<rparr>
     \<and> (cred_revoked_at c \<noteq> None \<longrightarrow> cred_revoked_at e = cred_revoked_at c)"

definition binding_after :: "binding \<Rightarrow> binding \<Rightarrow> bool" where
  "binding_after b c \<longleftrightarrow> c = b\<lparr>bnd_revision := bnd_revision c\<rparr> \<and> bnd_revision b \<le> bnd_revision c"

definition db_below :: "cloud_db \<Rightarrow> cloud_db \<Rightarrow> bool" where
  "db_below db db' \<longleftrightarrow>
     (hget (settings db) ''bootstrap_claimed'' = Some ''1'' \<longrightarrow>
        hget (settings db') ''bootstrap_claimed'' = Some ''1'')
     \<and> prefix (accounts db) (accounts db') \<and> prefix (workspaces db) (workspaces db')
     \<and> prefix (memberships db) (memberships db') \<and> prefix (audit_log db) (audit_log db')
     \<and> evolves session_after (sessions db) (sessions db')
     \<and> evolves installation_after (installations db) (installations db')
     \<and> evolves credential_after (credentials db) (credentials db')
     \<and> evolves binding_after (bindings db) (bindings db')"

lemma row_refl [simp]:
  "session_after s s" "installation_after i i" "credential_after c c" "binding_after b b"
  by (simp_all add: session_after_def installation_after_def credential_after_def binding_after_def)

lemma session_after_trans: "session_after s t \<Longrightarrow> session_after t u \<Longrightarrow> session_after s u"
  by (cases s; cases t; cases u; simp add: session_after_def)

lemma installation_after_trans:
  "installation_after i j \<Longrightarrow> installation_after j k \<Longrightarrow> installation_after i k"
  by (cases i; cases j; cases k; simp add: installation_after_def)

lemma credential_after_trans:
  "credential_after c d \<Longrightarrow> credential_after d e \<Longrightarrow> credential_after c e"
  by (cases c; cases d; cases e; auto simp add: credential_after_def)

lemma binding_after_trans: "binding_after a b \<Longrightarrow> binding_after b c \<Longrightarrow> binding_after a c"
  by (cases a; cases b; cases c; simp add: binding_after_def)

lemmas row_trans = session_after_trans installation_after_trans credential_after_trans binding_after_trans

lemma db_below_refl [simp]: "db_below db db"
  by (simp add: db_below_def evolves_refl)

lemma db_below_trans: "db_below a b \<Longrightarrow> db_below b c \<Longrightarrow> db_below a c"
  unfolding db_below_def
  by (intro conjI; (elim conjE)?) (blast intro: prefix_order.order_trans evolves_trans row_trans)+

lemma insert_below:
  "insert_account a db = Inr db' \<Longrightarrow> db_below db db'"
  "insert_session s db = Inr db' \<Longrightarrow> db_below db db'"
  "insert_workspace w db = Inr db' \<Longrightarrow> db_below db db'"
  "insert_membership m db = Inr db' \<Longrightarrow> db_below db db'"
  "insert_installation i db = Inr db' \<Longrightarrow> db_below db db'"
  "insert_credential c db = Inr db' \<Longrightarrow> db_below db db'"
  "insert_binding b db = Inr db' \<Longrightarrow> db_below db db'"
  "insert_catalog r db = Inr db' \<Longrightarrow> db_below db db'"
  "insert_audit e db = Inr db' \<Longrightarrow> db_below db db'"
  by (clarsimp simp: insert_account_def insert_session_def insert_workspace_def insert_membership_def
      insert_installation_def insert_credential_def insert_binding_def insert_catalog_def insert_audit_def
      db_insert_cases, simp add: db_below_def evolves_refl evolves_append)+

lemma update_below:
  "k \<noteq> ''bootstrap_claimed'' \<Longrightarrow> db_below db (put_setting k v db)"
  "db_below db (put_setting ''bootstrap_claimed'' ''1'' db)"
  "k \<noteq> ''bootstrap_claimed'' \<Longrightarrow> db_below db (delete_setting k db)"
  "db_below db (revoke_session_row acc th t db)"
  "db_below db (revoke_installation_rows j t db)"
  "db_below db (set_connected j c db)"
  "db_below db (reset_connections db)"
  by (auto simp: db_below_def put_setting_def delete_setting_def revoke_session_row_def
      revoke_installation_rows_def set_connected_def reset_connections_def evolves_refl hmap_simps
      session_after_def installation_after_def credential_after_def intro!: evolves_update)

section \<open>What one critical section may do to the database\<close>

text \<open>Statements that succeed keep the constraints and move the database forward.\<close>

definition db_step :: "cloud_db \<Rightarrow> cloud_db \<Rightarrow> bool" where
  "db_step db db' \<longleftrightarrow> (db_ok db \<longrightarrow> db_ok db' \<and> db_below db db')"

lemma db_step_refl [simp]: "db_step db db"
  by (simp add: db_step_def)

lemma db_step_trans: "db_step a b \<Longrightarrow> db_step b c \<Longrightarrow> db_step a c"
  by (auto simp: db_step_def intro: db_below_trans)

lemma insert_step:
  "insert_account a db = Inr db' \<Longrightarrow> db_step db db'"
  "insert_session s db = Inr db' \<Longrightarrow> db_step db db'"
  "insert_workspace w db = Inr db' \<Longrightarrow> db_step db db'"
  "insert_membership m db = Inr db' \<Longrightarrow> db_step db db'"
  "insert_installation i db = Inr db' \<Longrightarrow> db_step db db'"
  "insert_credential c db = Inr db' \<Longrightarrow> db_step db db'"
  "insert_binding b db = Inr db' \<Longrightarrow> db_step db db'"
  "insert_catalog r db = Inr db' \<Longrightarrow> db_step db db'"
  "insert_audit e db = Inr db' \<Longrightarrow> db_step db db'"
  by (simp_all add: db_step_def insert_ok insert_below)

lemma update_step:
  "k \<noteq> ''bootstrap_claimed'' \<Longrightarrow> db_step db (put_setting k v db)"
  "db_step db (put_setting ''bootstrap_claimed'' ''1'' db)"
  "k \<noteq> ''bootstrap_claimed'' \<Longrightarrow> db_step db (delete_setting k db)"
  "db_step db (revoke_session_row acc th t db)"
  "db_step db (revoke_installation_rows j t db)"
  "db_step db (set_connected j c db)"
  by (simp_all add: db_step_def update_ok update_below)

lemma insert_catalog_all_step: "insert_catalog_all rs db = Inr db' \<Longrightarrow> db_step db db'"
  by (induction rs arbitrary: db) (auto simp: rbind_Inr_iff intro: db_step_trans insert_step)

lemma insert_catalog_all_rows:
  "insert_catalog_all rs db = Inr db' \<Longrightarrow> db' = db\<lparr>catalog := catalog db @ rs\<rparr>"
proof (induction rs arbitrary: db)
  case (Cons r rs)
  from Cons.prems obtain db1 where "insert_catalog r db = Inr db1" "insert_catalog_all rs db1 = Inr db'"
    by (auto simp: rbind_Inr_iff)
  with Cons.IH [of db1] show ?case by (auto simp: insert_catalog_def split: if_splits)
qed simp

lemma replace_catalog_rows:
  "replace_catalog b n rs db = Inr db' \<Longrightarrow>
     db' = db\<lparr>catalog := filter (\<lambda>c. cat_binding c \<noteq> b) (catalog db) @ rs,
        bindings := update_where (\<lambda>c. bnd_id c = b) (\<lambda>c. c\<lparr>bnd_revision := n\<rparr>) (bindings db)\<rparr>"
  by (auto simp: replace_catalog_def rbind_Inr_iff dest!: insert_catalog_all_rows)

lemma replace_catalog_step:
  assumes "replace_catalog b n rs db = Inr db'"
    and "\<And>x. x \<in> set (bindings db) \<Longrightarrow> bnd_id x = b \<Longrightarrow> bnd_revision x \<le> n"
  shows "db_step db db'"
proof -
  let ?d = "db\<lparr>catalog := filter (\<lambda>c. cat_binding c \<noteq> b) (catalog db)\<rparr>"
  have del: "db_step db ?d"
    by (simp add: db_step_def db_ok_def db_simps db_below_def evolves_refl)
  from assms(1) obtain db1 where db1: "insert_catalog_all rs ?d = Inr db1"
    and db': "db' = db1\<lparr>bindings := update_where (\<lambda>c. bnd_id c = b) (\<lambda>c. c\<lparr>bnd_revision := n\<rparr>) (bindings db1)\<rparr>"
    by (auto simp: replace_catalog_def rbind_Inr_iff)
  have "bindings db1 = bindings db" using insert_catalog_all_rows [OF db1] by simp
  then have "db_below db1 db'"
    using assms(2) unfolding db' by (auto simp: db_below_def evolves_refl binding_after_def intro!: evolves_update)
  moreover have "db_ok db'" if "db_ok db1" using that unfolding db' by (simp add: db_ok_def db_simps)
  ultimately have "db_step db1 db'" by (simp add: db_step_def)
  with del insert_catalog_all_step [OF db1] show ?thesis by (blast intro: db_step_trans)
qed

lemma audit_step: "audit lib d ty a ac tgt db = Inr db' \<Longrightarrow> db_step db db'"
  by (auto simp: audit_def map_err_Inr_iff intro: insert_step)

lemmas tx_defs = rbind_Inr_iff map_err_Inr_iff ok_or_Inr_iff fail_if_Inr_iff Let_def

lemma create_session_step:
  "create_session lib d acc db = Inr (a, db') \<Longrightarrow> db_step db db'"
  by (auto simp: create_session_def tx_defs intro: insert_step)

lemma claim_tx_cases:
  assumes "claim_tx lib d r db = Inr (a, db')"
  obtains db1 db2 where "hget (settings db) ''bootstrap_claimed'' \<noteq> Some ''1''"
    and "token_class (claim_token r) = Bootstrap"
    and "hget (settings db) ''bootstrap_hash'' = Some (sha_hex lib (render_token (claim_token r)))"
    and "insert_account \<lparr>acc_id = uuid_text lib (new_id d), acc_handle = handle_str (claim_handle r),
       acc_display_name = claim_display_name r, acc_created_at = now d, acc_disabled_at = None\<rparr> db = Inr db1"
    and "create_session lib d (uuid_text lib (new_id d))
       (delete_setting ''bootstrap_hash'' (put_setting ''bootstrap_claimed'' ''1'' db1)) = Inr (a, db2)"
    and "audit lib d ''account'' (uuid_text lib (new_id d)) ''cloud.bootstrap_claimed''
       (uuid_text lib (new_id d)) db2 = Inr db'"
  using assms by (auto simp: claim_tx_def tx_defs split: if_splits prod.splits)

lemma claim_tx_step:
  assumes "claim_tx lib d r db = Inr (a, db')"
  shows "db_step db db'"
  using assms
proof (cases rule: claim_tx_cases)
  case (1 db1 db2)
  show ?thesis
    by (rule db_step_trans [OF insert_step(1) [OF 1(4)]], rule db_step_trans [OF update_step(2)],
        rule db_step_trans [OF update_step(3) [of "''bootstrap_hash''"]], simp,
        rule db_step_trans [OF create_session_step [OF 1(5)] audit_step [OF 1(6)]])
qed

lemma catalog_tx_cases:
  assumes "catalog_tx lib d k r db = Inr (a, db')"
  obtains x db1 where "x \<in> set (bindings db)" and "bnd_id x = uuid_text lib (creq_binding r)"
    and "bnd_installation x = k" and "active_installation db k"
    and "bnd_revision x < uint (creq_revision r)" and "uint (creq_revision r) < 2 ^ 63"
    and "replace_catalog (uuid_text lib (creq_binding r)) (uint (creq_revision r))
       (map (catalog_row_of lib (creq_binding r) (uint (creq_revision r))) (creq_projects r)) db = Inr db1"
    and "audit lib d ''installation'' k ''catalog.replaced'' k db1 = Inr db'"
  using assms by (auto simp: catalog_tx_def tx_defs not_le
      split: if_splits option.splits dest!: find_SomeD)

lemma catalog_tx_step:
  assumes "catalog_tx lib d k r db = Inr (a, db')"
  shows "db_step db db'"
proof (cases "db_ok db")
  case True
  then have ids: "distinct_on bnd_id (bindings db)" by (simp add: db_ok_def)
  from assms show ?thesis
  proof (cases rule: catalog_tx_cases)
    case (1 x db1)
    have "bnd_revision y \<le> uint (creq_revision r)"
      if "y \<in> set (bindings db)" "bnd_id y = uuid_text lib (creq_binding r)" for y
      using distinct_on_inj [OF ids that(1) 1(1)] that(2) 1(2,5) by simp
    from replace_catalog_step [OF 1(7) this] audit_step [OF 1(8)] show ?thesis
      by (rule db_step_trans)
  qed
qed (simp add: db_step_def)

lemma bind_tx_cases:
  assumes "bind_tx lib d acc w r db = Inr (a, db')"
  obtains i db1 where "i \<in> set (installations db)" and "ins_id i = uuid_text lib (breq_installation r)"
    and "ins_owner i = acc" and "owns_workspace db w acc"
    and "insert_binding \<lparr>bnd_id = uuid_text lib (new_id d), bnd_workspace = w,
        bnd_installation = uuid_text lib (breq_installation r),
        bnd_local_workspace = uuid_text lib (breq_local_workspace r), bnd_revision = 0\<rparr> db = Inr db1"
    and "audit lib d ''account'' acc ''installation.bound'' (uuid_text lib (breq_installation r)) db1 = Inr db'"
  using assms by (auto simp: bind_tx_def require_installation_owner_def tx_defs
      split: if_splits option.splits dest!: find_SomeD)

lemma bind_tx_step: "bind_tx lib d acc w r db = Inr (a, db') \<Longrightarrow> db_step db db'"
  by (erule bind_tx_cases) (rule db_step_trans [OF insert_step(7) audit_step])

lemma installation_by_id_row:
  assumes "installation_by_id lib db k = Inr s"
  obtains i c where "i \<in> set (installations db)" and "ins_id i = k" and "c \<in> set (credentials db)"
    and "cred_installation c = k" and "installation_from_row lib i c = Inr s" and "isum_route s = ins_route i"
proof -
  from assms obtain i c where f: "find (\<lambda>ic. ins_id (fst ic) = k) (installation_rows db) = Some (i, c)"
    and s: "installation_from_row lib i c = Inr s"
    by (auto simp: installation_by_id_def tx_defs)
  from f have "(i, c) \<in> set (installation_rows db)" "ins_id i = k"
    by (auto dest: find_SomeD)
  with s that [of i c] show thesis
    by (auto simp: installation_rows_def installation_from_row_def tx_defs)
qed

lemma revoke_tx_cases:
  assumes "revoke_tx lib d acc k db = Inr (s', db')"
  obtains i c s where "i \<in> set (installations db)" and "ins_id i = k" and "ins_owner i = acc"
    and "installation_by_id lib db k = Inr s"
    and "s' = s\<lparr>isum_state := LinkRevoked, isum_revoked_at := Some (now d)\<rparr>"
    and "audit lib d ''account'' acc ''installation.revoked'' k (revoke_installation_rows k (now d) db) = Inr db'"
  using assms by (auto simp: revoke_tx_def require_installation_owner_def tx_defs
      split: if_splits option.splits dest!: find_SomeD)

lemma revoke_tx_step: "revoke_tx lib d acc k db = Inr (s, db') \<Longrightarrow> db_step db db'"
  by (erule revoke_tx_cases) (rule db_step_trans [OF update_step(5) audit_step])

lemma workspace_tx_step: "workspace_tx lib d r acc db = Inr (a, db') \<Longrightarrow> db_step db db'"
  by (auto simp: workspace_tx_def tx_defs)
    (rule db_step_trans [OF insert_step(3)], assumption, rule db_step_trans [OF insert_step(4) audit_step])

lemma installation_tx_cases:
  assumes "installation_tx lib d r tk acc db = Inr (a, db')"
  obtains db1 db2 where "insert_installation \<lparr>ins_id = uuid_text lib (new_id d), ins_owner = acc,
      ins_local_server = uuid_text lib (ireq_local_server r), ins_route = b64url lib (route_bytes d),
      ins_label = label_str (ireq_label r), ins_created_at = now d, ins_connected_at = None,
      ins_revoked_at = None\<rparr> db = Inr db1"
    and "insert_credential \<lparr>cred_id = uuid_text lib (second_id d), cred_installation = uuid_text lib (new_id d),
      cred_public_id = public_id tk, cred_secret_hash = sha_hex lib (proof_text tk),
      cred_created_at = now d, cred_revoked_at = None\<rparr> db1 = Inr db2"
    and "audit lib d ''account'' acc ''installation.registered'' (uuid_text lib (new_id d)) db2 = Inr db'"
  using assms by (auto simp: installation_tx_def tx_defs)

lemma installation_tx_step: "installation_tx lib d r tk acc db = Inr (a, db') \<Longrightarrow> db_step db db'"
  by (erule installation_tx_cases)
    (rule db_step_trans [OF insert_step(5)], assumption, rule db_step_trans [OF insert_step(6) audit_step])

section \<open>The invariant of the service\<close>

definition claimed :: "cloud_db \<Rightarrow> bool" where
  "claimed db \<longleftrightarrow> hget (settings db) ''bootstrap_claimed'' = Some ''1''"

text \<open>A credential is in force exactly when its installation is.\<close>

definition creds_ok :: "cloud_db \<Rightarrow> bool" where
  "creds_ok db \<longleftrightarrow> (\<forall>c \<in> set (credentials db). \<forall>i \<in> set (installations db).
     cred_installation c = ins_id i \<longrightarrow> (cred_revoked_at c = None \<longleftrightarrow> ins_revoked_at i = None))"

text \<open>Every live route belongs to an installation in force.\<close>

definition routes_ok :: "cloud_db \<Rightarrow> (string \<times> uuid) list \<Rightarrow> bool" where
  "routes_ok db rs \<longleftrightarrow> hmap_ok rs
     \<and> (\<forall>r \<in> hkeys rs. \<exists>i \<in> set (installations db). ins_route i = r \<and> ins_revoked_at i = None)"

definition bootstrap_ok :: "cloud_db \<Rightarrow> bool" where
  "bootstrap_ok db \<longleftrightarrow> length (accounts db) \<le> 1 \<and> (accounts db \<noteq> [] \<longrightarrow> claimed db)"

definition cloud_inv :: "cloud_state \<Rightarrow> bool" where
  "cloud_inv st \<longleftrightarrow> db_ok (cs_db st) \<and> creds_ok (cs_db st) \<and> routes_ok (cs_db st) (relays st)
     \<and> bootstrap_ok (cs_db st)"

definition cloud_below :: "cloud_state \<Rightarrow> cloud_state \<Rightarrow> bool" where
  "cloud_below s t \<longleftrightarrow> db_below (cs_db s) (cs_db t)"

lemma insert_rows:
  "insert_account a db = Inr db' \<Longrightarrow> db' = db\<lparr>accounts := accounts db @ [a]\<rparr>"
  "insert_session s db = Inr db' \<Longrightarrow> db' = db\<lparr>sessions := sessions db @ [s]\<rparr>"
  "insert_workspace w db = Inr db' \<Longrightarrow> db' = db\<lparr>workspaces := workspaces db @ [w]\<rparr>"
  "insert_membership m db = Inr db' \<Longrightarrow> db' = db\<lparr>memberships := memberships db @ [m]\<rparr>"
  "insert_installation i db = Inr db' \<Longrightarrow> db' = db\<lparr>installations := installations db @ [i]\<rparr>"
  "insert_credential c db = Inr db' \<Longrightarrow> db' = db\<lparr>credentials := credentials db @ [c]\<rparr>"
  "insert_binding b db = Inr db' \<Longrightarrow> db' = db\<lparr>bindings := bindings db @ [b]\<rparr>"
  "insert_audit e db = Inr db' \<Longrightarrow> db' = db\<lparr>audit_log := audit_log db @ [e]\<rparr>"
  by (auto simp: insert_account_def insert_session_def insert_workspace_def insert_membership_def
      insert_installation_def insert_credential_def insert_binding_def insert_audit_def db_insert_cases)

lemma audit_rows: "audit lib d ty a ac tgt db = Inr db' \<Longrightarrow> \<exists>e. db' = db\<lparr>audit_log := audit_log db @ [e]\<rparr>"
  by (auto simp: audit_def map_err_Inr_iff dest!: insert_rows)

definition authority_kept :: "cloud_db \<Rightarrow> cloud_db \<Rightarrow> bool" where
  "authority_kept db db' \<longleftrightarrow> installations db' = installations db \<and> credentials db' = credentials db
     \<and> accounts db' = accounts db \<and> settings db' = settings db"

lemma workspace_tx_keeps: "workspace_tx lib d r acc db = Inr (a, db') \<Longrightarrow> authority_kept db db'"
  by (auto simp: workspace_tx_def tx_defs authority_kept_def dest!: insert_rows audit_rows)

lemma bind_tx_keeps: "bind_tx lib d acc w r db = Inr (a, db') \<Longrightarrow> authority_kept db db'"
  by (erule bind_tx_cases) (auto simp: authority_kept_def dest!: insert_rows audit_rows)

lemma catalog_tx_keeps: "catalog_tx lib d k r db = Inr (a, db') \<Longrightarrow> authority_kept db db'"
  by (erule catalog_tx_cases) (auto simp: authority_kept_def dest!: replace_catalog_rows audit_rows)

lemma kept_ok:
  assumes "authority_kept db db'"
  shows "creds_ok db' \<longleftrightarrow> creds_ok db" and "routes_ok db' rs \<longleftrightarrow> routes_ok db rs"
    and "bootstrap_ok db' \<longleftrightarrow> bootstrap_ok db"
  using assms by (simp_all add: authority_kept_def creds_ok_def routes_ok_def bootstrap_ok_def claimed_def)

lemma create_session_rows:
  "create_session lib d acc db = Inr (a, db') \<Longrightarrow> \<exists>s. db' = db\<lparr>sessions := sessions db @ [s]\<rparr>"
  by (auto simp: create_session_def tx_defs dest!: insert_rows)

lemma claim_tx_rows:
  assumes "claim_tx lib d r db = Inr (a, db')"
  shows "installations db' = installations db" "credentials db' = credentials db"
    "length (accounts db') = Suc (length (accounts db))" "claimed db'" "\<not> claimed db"
    "hget (settings db') ''bootstrap_hash'' = None"
  using assms
  by (auto elim!: claim_tx_cases dest!: insert_rows create_session_rows audit_rows
      simp: claimed_def put_setting_def delete_setting_def hmap_simps)

lemma claim_tx_ok:
  assumes "claim_tx lib d r db = Inr (a, db')"
  shows "creds_ok db' \<longleftrightarrow> creds_ok db" and "routes_ok db' rs \<longleftrightarrow> routes_ok db rs"
    and "bootstrap_ok db \<Longrightarrow> bootstrap_ok db'"
  using claim_tx_rows [OF assms] by (auto simp: creds_ok_def routes_ok_def bootstrap_ok_def)

lemma installation_tx_ok:
  assumes "installation_tx lib d r tk acc db = Inr (a, db')" and ok: "db_ok db"
  shows "creds_ok db \<Longrightarrow> creds_ok db'" and "routes_ok db rs \<Longrightarrow> routes_ok db' rs"
    and "bootstrap_ok db' \<longleftrightarrow> bootstrap_ok db"
proof -
  from assms(1) obtain i c e where
    db': "db' = db\<lparr>installations := installations db @ [i], credentials := credentials db @ [c],
        audit_log := audit_log db @ [e]\<rparr>"
    and i: "ins_id i = uuid_text lib (new_id d)" "ins_revoked_at i = None"
    and c: "cred_installation c = uuid_text lib (new_id d)" "cred_revoked_at c = None"
    and fresh: "\<forall>j \<in> set (installations db). ins_id j \<noteq> uuid_text lib (new_id d)"
  proof (cases rule: installation_tx_cases)
    case (1 db1 db2)
    from 1(1) have "\<forall>j \<in> set (installations db). ins_id j \<noteq> uuid_text lib (new_id d)"
      by (auto simp: insert_installation_def db_insert_cases list_ex_iff)
    with insert_rows(5) [OF 1(1)] insert_rows(6) [OF 1(2)] audit_rows [OF 1(3)] that show ?thesis
      by auto
  qed
  have refs: "\<exists>j \<in> set (installations db). cred_installation x = ins_id j" if "x \<in> set (credentials db)" for x
    using ok that by (auto simp: db_ok_def refers_def)
  then have old: "cred_installation x \<noteq> uuid_text lib (new_id d)" if "x \<in> set (credentials db)" for x
    using fresh that by force
  show "creds_ok db \<Longrightarrow> creds_ok db'" using i c fresh old by (auto simp: creds_ok_def db')
  show "routes_ok db rs \<Longrightarrow> routes_ok db' rs" by (auto simp: routes_ok_def db')
  show "bootstrap_ok db' \<longleftrightarrow> bootstrap_ok db" by (simp add: bootstrap_ok_def claimed_def db')
qed

lemma revoke_rows_ok:
  assumes "distinct_on ins_route (installations db)"
  shows "creds_ok db \<Longrightarrow> creds_ok (revoke_installation_rows k t db)"
    and "routes_ok db rs \<Longrightarrow> i \<in> set (installations db) \<Longrightarrow> distinct_on ins_id (installations db) \<Longrightarrow>
       ins_id i = k \<Longrightarrow> routes_ok (revoke_installation_rows k t db) (hdel (ins_route i) rs)"
    and "bootstrap_ok (revoke_installation_rows k t db) \<longleftrightarrow> bootstrap_ok db"
proof -
  show "creds_ok db \<Longrightarrow> creds_ok (revoke_installation_rows k t db)"
    by (auto simp: creds_ok_def revoke_installation_rows_def update_where_def)
  show "routes_ok (revoke_installation_rows k t db) (hdel (ins_route i) rs)"
    if r: "routes_ok db rs" and i: "i \<in> set (installations db)" "ins_id i = k"
      and ids: "distinct_on ins_id (installations db)"
  proof -
    have "\<exists>j \<in> set (installations (revoke_installation_rows k t db)). ins_route j = x \<and> ins_revoked_at j = None"
      if x: "x \<in> hkeys rs" "x \<noteq> ins_route i" for x
    proof -
      from r x(1) obtain j where j: "j \<in> set (installations db)" "ins_route j = x" "ins_revoked_at j = None"
        by (auto simp: routes_ok_def)
      with x(2) have "ins_id j \<noteq> k" using distinct_on_inj [OF ids j(1) i(1)] i(2) by auto
      with j show ?thesis
        by (auto simp: revoke_installation_rows_def update_where_def intro!: bexI [of _ j] image_eqI [of _ _ j])
    qed
    with r show ?thesis by (auto simp: routes_ok_def hmap_simps)
  qed
  show "bootstrap_ok (revoke_installation_rows k t db) \<longleftrightarrow> bootstrap_ok db"
    by (simp add: bootstrap_ok_def claimed_def revoke_installation_rows_def)
qed

lemma set_connected_ok:
  "creds_ok (set_connected k t db) \<longleftrightarrow> creds_ok db"
  "routes_ok (set_connected k t db) rs \<longleftrightarrow> routes_ok db rs"
  "bootstrap_ok (set_connected k t db) \<longleftrightarrow> bootstrap_ok db"
proof -
  have same: "ins_id (if b then i\<lparr>ins_connected_at := t\<rparr> else i) = ins_id i"
    "ins_route (if b then i\<lparr>ins_connected_at := t\<rparr> else i) = ins_route i"
    "ins_revoked_at (if b then i\<lparr>ins_connected_at := t\<rparr> else i) = ins_revoked_at i" for b i
    by simp_all
  show "creds_ok (set_connected k t db) \<longleftrightarrow> creds_ok db"
    "routes_ok (set_connected k t db) rs \<longleftrightarrow> routes_ok db rs"
    "bootstrap_ok (set_connected k t db) \<longleftrightarrow> bootstrap_ok db"
    by (simp_all add: creds_ok_def routes_ok_def bootstrap_ok_def claimed_def set_connected_def
        update_where_def same del: if_image_distrib)
qed

section \<open>Every section keeps the invariant and moves forward\<close>

definition good_step :: "cloud_state \<Rightarrow> cloud_state \<Rightarrow> bool" where
  "good_step st st' \<longleftrightarrow> (cloud_inv st \<longrightarrow> cloud_inv st' \<and> cloud_below st st')"

lemma good_refl [simp]: "good_step st st"
  by (simp add: good_step_def cloud_below_def)

lemma good_same:
  "cs_db st' = cs_db st \<Longrightarrow> relays st' = relays st \<Longrightarrow> good_step st st'"
  by (simp add: good_step_def cloud_inv_def cloud_below_def)

lemma in_tx_cases:
  assumes "in_tx body st = (r, st')"
  obtains (refused) f where "r = Inl f" and "cs_db st' = cs_db st" and "relays st' = relays st"
      and "f = Panicked \<or> st' = st"
  | (committed) a db' where "r = Inr a" and "\<not> poisoned st" and "body (cs_db st) = Inr (a, db')"
      and "st' = st\<lparr>cs_db := db'\<rparr>"
  using assms by (auto simp: in_tx_def lock_def split: if_splits sum.splits failure.splits)

lemma good_commit:
  assumes "db_step (cs_db st) db'"
    and "db_ok (cs_db st) \<Longrightarrow> creds_ok (cs_db st) \<Longrightarrow> creds_ok db'"
    and "db_ok (cs_db st) \<Longrightarrow> routes_ok (cs_db st) (relays st) \<Longrightarrow> routes_ok db' (relays st')"
    and "db_ok (cs_db st) \<Longrightarrow> bootstrap_ok (cs_db st) \<Longrightarrow> bootstrap_ok db'" and "cs_db st' = db'"
  shows "good_step st st'"
  using assms by (auto simp: good_step_def cloud_inv_def cloud_below_def db_step_def)

lemma answered_snd [simp]: "snd (answered g rs) = snd rs"
  by (auto simp: answered_def split: prod.splits sum.splits)

lemma good_tx:
  assumes "\<And>a db'. body (cs_db st) = Inr (a, db') \<Longrightarrow> db_step (cs_db st) db' \<and> authority_kept (cs_db st) db'"
  shows "good_step st (snd (in_tx body st))"
proof (cases "in_tx body st")
  case (Pair r st')
  then show ?thesis
  proof (cases rule: in_tx_cases)
    case (committed a db')
    with assms [OF committed(3)] Pair show ?thesis by (auto intro!: good_commit simp: kept_ok)
  qed (simp add: Pair good_same)
qed

lemma claim_good: "good_step st (snd (claim_admitted lib cfg d r st))"
proof (cases "in_tx (claim_tx lib d r) st")
  case (Pair a st1)
  then show ?thesis
  proof (cases rule: in_tx_cases)
    case (refused f)
    with Pair show ?thesis by (simp add: claim_admitted_def good_same)
  next
    case (committed p db')
    with Pair have "cs_db (snd (claim_admitted lib cfg d r st)) = db'"
      "relays (snd (claim_admitted lib cfg d r st)) = relays st"
      by (auto simp: claim_admitted_def split: prod.splits)
    note rows = this
    show ?thesis
      by (rule good_commit [of st db']) (simp_all add: rows claim_tx_step [OF committed(3)]
          claim_tx_ok [OF committed(3)])
  qed
qed

lemma logout_good: "good_step st (snd (logout_as lib cfg d hs p st))"
proof -
  have "good_step st (st\<lparr>cs_db := revoke_session_row acc th t (cs_db st)\<rparr>)" for acc th t
    by (rule good_commit [OF update_step(4)])
      (simp_all add: creds_ok_def routes_ok_def bootstrap_ok_def claimed_def revoke_session_row_def)
  then show ?thesis by (auto simp: logout_as_def lock_def tx_defs split: sum.splits)
qed

lemma workspace_good: "good_step st (snd (create_workspace_as lib d r p st))"
  by (auto simp: create_workspace_as_def split: sum.splits intro!: good_tx
      dest: workspace_tx_step workspace_tx_keeps)

lemma bind_good: "good_step st (snd (bind_installation_as lib d w r p st))"
  by (auto simp: bind_installation_as_def split: option.splits intro!: good_tx dest: bind_tx_step bind_tx_keeps)

lemma catalog_good: "good_step st (snd (put_catalog_as lib d r k st))"
  by (auto simp: put_catalog_as_def split: sum.splits intro!: good_tx dest: catalog_tx_step catalog_tx_keeps)

lemma registration_good: "good_step st (snd (register_installation_as lib d r p st))"
proof -
  have "good_step st (snd (in_tx (installation_tx lib d r tk acc) st))" for tk acc
  proof (cases "in_tx (installation_tx lib d r tk acc) st")
    case (Pair x st')
    then show ?thesis
    proof (cases rule: in_tx_cases)
      case (committed a db')
      show ?thesis
        by (rule good_commit [of st db']) (simp_all add: Pair committed(4)
            installation_tx_step [OF committed(3)] installation_tx_ok [OF committed(3)])
    qed (simp add: Pair good_same)
  qed
  then show ?thesis by (auto simp: register_installation_as_def split: sum.splits prod.splits)
qed

lemma revoke_tx_ok:
  assumes "revoke_tx lib d acc k db = Inr (s, db')" and ok: "db_ok db"
  shows "creds_ok db \<Longrightarrow> creds_ok db'" and "routes_ok db rs \<Longrightarrow> routes_ok db' (hdel (isum_route s) rs)"
    and "bootstrap_ok db' \<longleftrightarrow> bootstrap_ok db"
proof -
  from assms(1) obtain s0 e where s0: "installation_by_id lib db k = Inr s0" "isum_route s = isum_route s0"
    and db': "db' = (revoke_installation_rows k (now d) db)\<lparr>audit_log :=
       audit_log (revoke_installation_rows k (now d) db) @ [e]\<rparr>"
    by (auto elim!: revoke_tx_cases dest!: audit_rows)
  from s0 obtain i where i: "i \<in> set (installations db)" "ins_id i = k" "ins_route i = isum_route s"
    by (auto elim!: installation_by_id_row)
  have d: "distinct_on ins_route (installations db)" "distinct_on ins_id (installations db)"
    using ok by (simp_all add: db_ok_def)
  note r = revoke_rows_ok [OF d(1), where k = k and t = "now d"]
  show "creds_ok db \<Longrightarrow> creds_ok db'" using r(1) by (simp add: db' creds_ok_def)
  show "routes_ok db rs \<Longrightarrow> routes_ok db' (hdel (isum_route s) rs)"
    using r(2) [OF _ i(1) d(2) i(2)] i(3) by (simp add: db' routes_ok_def)
  show "bootstrap_ok db' \<longleftrightarrow> bootstrap_ok db" using r(3) by (simp add: db' bootstrap_ok_def claimed_def)
qed

lemma revocation_good: "good_step st (snd (revoke_installation_as lib d k p st))"
proof (cases "in_tx (revoke_tx lib d (up_account p) k) st")
  case (Pair x st')
  then show ?thesis
  proof (cases rule: in_tx_cases)
    case (refused f)
    with Pair show ?thesis by (simp add: revoke_installation_as_def good_same)
  next
    case (committed s db')
    note ok = revoke_tx_ok [OF committed(3)]
    from Pair committed have "snd (revoke_installation_as lib d k p st) =
        st\<lparr>cs_db := db', relays := hdel (isum_route s) (relays st)\<rparr>"
      by (simp add: revoke_installation_as_def)
    then show ?thesis
      by (intro good_commit [of st db']) (simp_all add: ok revoke_tx_step [OF committed(3)])
  qed
qed

lemma routes_ok_insert:
  "routes_ok db rs \<Longrightarrow> i \<in> set (installations db) \<Longrightarrow> ins_revoked_at i = None \<Longrightarrow>
     routes_ok db (hput (ins_route i) sid rs)"
  by (auto simp: routes_ok_def hmap_simps)

lemma relay_up_good: "good_step st (snd (register_relay_if_active d k sid st))"
proof -
  have "good_step st (st\<lparr>cs_db := set_connected k t (cs_db st), relays := hput (ins_route i) sid (relays st)\<rparr>)"
    if "i \<in> set (installations (cs_db st))" "ins_revoked_at i = None" for i t
    by (rule good_commit [OF update_step(6)]) (use that in \<open>simp_all add: set_connected_ok routes_ok_insert\<close>)
  then show ?thesis
    by (auto simp: register_relay_if_active_def lock_def split: sum.splits option.splits dest!: find_SomeD)
qed

lemma relay_down_good: "good_step st (snd (relay_remove k route sid st))"
  by (auto simp: relay_remove_def good_step_def cloud_inv_def cloud_below_def routes_ok_def hmap_simps)

lemma relay_clear_good: "good_step st (snd (relay_clear k st))"
proof -
  have "good_step st (st\<lparr>closing := ks, cs_db := set_connected k None (cs_db st)\<rparr>)" for ks
    by (rule good_commit [OF update_step(6)]) (simp_all add: set_connected_ok)
  then show ?thesis
    by (auto simp: relay_clear_def lock_def good_same Let_def)
qed

lemma cloud_step_good: "good_step st (snd (cloud_step lib cfg st ev))"
  by (cases ev) (simp_all add: cloud_step_def claim_good logout_good workspace_good registration_good
      bind_good revocation_good catalog_good relay_up_good relay_down_good relay_clear_good)

text \<open>A service opened on an empty store, with what \<open>settings\<close> its opening wrote.\<close>

definition cloud_start :: "(string \<times> string) list \<Rightarrow> cloud_state" where
  "cloud_start kvs = \<lparr>cs_db = empty_db\<lparr>settings := kvs\<rparr>, poisoned = False, relays = [],
     closing = [], bootstrap_file = None\<rparr>"

lemma start_inv: "cloud_inv (cloud_start kvs)"
  by (simp add: cloud_inv_def cloud_start_def empty_db_def db_ok_def db_simps creds_ok_def routes_ok_def
      bootstrap_ok_def hmap_simps)

interpretation cloud: growing_machine "cloud_step lib cfg" "cloud_start kvs" cloud_inv cloud_below
  for lib cfg kvs
proof unfold_locales
  show "cloud_inv (cloud_start kvs)" by (rule start_inv)
  show "cloud_inv (snd (cloud_step lib cfg st ev))" if "cloud_inv st" for st ev
    using cloud_step_good [of st lib cfg ev] that by (simp add: good_step_def)
  show "cloud_below st st" for st by (simp add: cloud_below_def)
  show "cloud_below s u" if "cloud_below s t" "cloud_below t u" for s t u
    using that by (auto simp: cloud_below_def intro: db_below_trans)
  show "cloud_below st (snd (cloud_step lib cfg st ev))" if "cloud_inv st" for st ev
    using cloud_step_good [of st lib cfg ev] that by (simp add: good_step_def)
qed

end
