(* ===== verification/Cloud_Authority.thy ===== *)
theory Cloud_Authority
  imports Cloud_History
begin

text \<open>
  The properties of the cloud service: one bootstrap, sound tables and routes in every
  interleaving, nothing undone, final revocation, exact replacement of a catalog, and what each
  request of the router needs to change anything and can change at all.
\<close>

section \<open>Bootstrap\<close>

primrec claim_answer :: "answer \<Rightarrow> bool" where
  "claim_answer (Inl f) = False"
| "claim_answer (Inr r) = (case r of BootstrapClaimed a csrf ck \<Rightarrow> True | _ \<Rightarrow> False)"

lemma answered_claim:
  "(\<And>a b. g a = Inr b \<Longrightarrow> \<not> claim_answer (Inr b)) \<Longrightarrow> \<not> claim_answer (fst (answered g rs))"
proof (cases rs)
  case (Pair r s)
  assume g: "\<And>a b. g a = Inr b \<Longrightarrow> \<not> claim_answer (Inr b)"
  show ?thesis
  proof (cases r)
    case (Inr a)
    with g [of a] Pair show ?thesis by (cases "g a") (simp_all add: answered_def)
  qed (simp add: answered_def Pair)
qed

lemma other_sections_claim:
  "\<not> claim_answer (fst (logout_as lib cfg d hs p st))"
  "\<not> claim_answer (fst (create_workspace_as lib d wr p st))"
  "\<not> claim_answer (fst (register_installation_as lib d ir p st))"
  "\<not> claim_answer (fst (bind_installation_as lib d w br p st))"
  "\<not> claim_answer (fst (revoke_installation_as lib d k p st))"
  "\<not> claim_answer (fst (put_catalog_as lib d cr k st))"
  "\<not> claim_answer (fst (register_relay_if_active d k sid st))"
  "\<not> claim_answer (fst (relay_remove k route sid st))"
  "\<not> claim_answer (fst (relay_clear k st))"
  by (auto simp: logout_as_def create_workspace_as_def register_installation_as_def bind_installation_as_def
      revoke_installation_as_def put_catalog_as_def register_relay_if_active_def relay_remove_def
      relay_clear_def tx_defs split: sum.splits option.splits prod.splits intro!: answered_claim)

lemma claim_answer_account:
  assumes "claim_answer (fst (cloud_step lib cfg st ev))"
  shows "length (accounts (cs_db (snd (cloud_step lib cfg st ev)))) = Suc (length (accounts (cs_db st)))"
proof (cases ev)
  case (Claiming d r)
  show ?thesis
  proof (cases "in_tx (claim_tx lib d r) st")
    case (Pair a st1)
    then show ?thesis
    proof (cases rule: in_tx_cases)
      case (refused f)
      with assms Claiming Pair show ?thesis by (simp add: cloud_step_def claim_admitted_def)
    next
      case (committed p db')
      with claim_tx_rows(3) [OF committed(3)] Pair Claiming show ?thesis
        by (auto simp: cloud_step_def claim_admitted_def split: prod.splits)
    qed
  qed
qed (use assms in \<open>simp_all add: cloud_step_def other_sections_claim\<close>)

lemma claims_counted:
  "cloud_inv st \<Longrightarrow>
     length (filter claim_answer (answers (cloud_step lib cfg) st es)) + length (accounts (cs_db st))
     \<le> length (accounts (cs_db (run_steps (cloud_step lib cfg) st es)))"
proof (induction es arbitrary: st)
  case (Cons ev es)
  let ?st = "snd (cloud_step lib cfg st ev)"
  have ok: "cloud_inv ?st" "cloud_below st ?st"
    using cloud_step_good [of st lib cfg ev] Cons.prems by (simp_all add: good_step_def)
  then have "length (accounts (cs_db st)) \<le> length (accounts (cs_db ?st))"
    by (auto simp: cloud_below_def db_below_def dest: prefix_length_le)
  with Cons.IH [OF ok(1)] claim_answer_account [of lib cfg st ev] show ?case by auto
qed simp

text \<open>
  C27: however the critical sections interleave, the bootstrap credential is redeemed at most once:
  at most one claim is answered with an account and a session, and at most one account ever
  exists.
\<close>

theorem bootstrap_claimed_once:
  "length (filter claim_answer (answers (cloud_step lib cfg) (cloud_start kvs) es)) \<le> 1
   \<and> length (accounts (cs_db (run_steps (cloud_step lib cfg) (cloud_start kvs) es))) \<le> 1"
proof -
  have "cloud_inv (run_steps (cloud_step lib cfg) (cloud_start kvs) es)"
    by (rule cloud.inv_reachable)
  then have "length (accounts (cs_db (run_steps (cloud_step lib cfg) (cloud_start kvs) es))) \<le> 1"
    by (simp add: cloud_inv_def bootstrap_ok_def)
  with claims_counted [OF start_inv, of lib cfg kvs es] show ?thesis by simp
qed

section \<open>Every interleaving\<close>

text \<open>
  C7: in every interleaving of the service's critical sections the tables satisfy the schema's
  uniqueness and reference constraints, a connector credential is in force exactly when its
  installation is, and every live relay route belongs to an installation that is not revoked.
\<close>

theorem cloud_tables_sound:
  "let t = run_steps (cloud_step lib cfg) (cloud_start kvs) es in
     db_ok (cs_db t) \<and> creds_ok (cs_db t) \<and> routes_ok (cs_db t) (relays t)"
  using cloud.inv_reachable [of lib cfg kvs es] by (simp add: Let_def cloud_inv_def)

text \<open>
  Nothing is undone.  From any moment of a run to any later one, the bootstrap stays claimed,
  accounts, workspaces, memberships and the audit log only get longer, sessions, installations and
  credentials keep their identity and stay revoked, and no binding's catalog revision decreases.
\<close>

theorem cloud_history_only_grows:
  "db_below (cs_db (run_steps (cloud_step lib cfg) (cloud_start kvs) xs))
     (cs_db (run_steps (cloud_step lib cfg) (cloud_start kvs) (xs @ ys)))"
  using cloud.below_prefix [OF start_inv] by (simp add: cloud_below_def)

section \<open>Revocation\<close>

lemma revoked_blocked:
  assumes inv: "cloud_inv st" and i: "i \<in> set (installations (cs_db st))" "ins_id i = k" "ins_revoked_at i \<noteq> None"
  shows "connector lib hs st \<noteq> Inr k"
    and "fst (register_relay_if_active d k sid st) = Inr (RelayRegistered None) \<or> poisoned st"
    and "{j \<in> set (installations (cs_db st)). ins_id j = k \<and> ins_route j \<in> hkeys (relays st)} = {}"
proof -
  have ids: "distinct_on ins_id (installations (cs_db st))" "distinct_on ins_route (installations (cs_db st))"
    using inv by (simp_all add: cloud_inv_def db_ok_def)
  have only: "j = i" if "j \<in> set (installations (cs_db st))" "ins_id j = k" for j
    using distinct_on_inj [OF ids(1) that(1) i(1)] that(2) i(2) by simp
  show "connector lib hs st \<noteq> Inr k"
    using only i(3) by (auto simp: connector_def find_credential_def active_installation_def lock_def tx_defs
        list_ex_iff dest!: find_SomeD split: if_splits)
  have none: "find (\<lambda>i. ins_id i = k \<and> ins_revoked_at i = None \<and> P i) (installations (cs_db st)) = None" for P
    using only i(3) by (auto simp: find_None_iff)
  show "fst (register_relay_if_active d k sid st) = Inr (RelayRegistered None) \<or> poisoned st"
    by (simp add: register_relay_if_active_def lock_def none)
  show "{j \<in> set (installations (cs_db st)). ins_id j = k \<and> ins_route j \<in> hkeys (relays st)} = {}"
  proof -
    have False if j: "j \<in> set (installations (cs_db st))" "ins_id j = k" "ins_route j \<in> hkeys (relays st)" for j
    proof -
      from j(3) inv obtain x where x: "x \<in> set (installations (cs_db st))" "ins_route x = ins_route j"
          "ins_revoked_at x = None"
        by (auto simp: cloud_inv_def routes_ok_def)
      with distinct_on_inj [OF ids(2) x(1) j(1)] only [OF j(1,2)] i(3) show False by simp
    qed
    then show ?thesis by blast
  qed
qed

lemma revoked_stays:
  assumes "cloud_inv st" and "i \<in> set (installations (cs_db st))" "ins_revoked_at i \<noteq> None"
  shows "\<exists>j \<in> set (installations (cs_db (run_steps (cloud_step lib cfg) st es))).
     ins_id j = ins_id i \<and> ins_revoked_at j \<noteq> None"
proof -
  have "evolves installation_after (installations (cs_db st))
     (installations (cs_db (run_steps (cloud_step lib cfg) st es)))"
    using cloud.below_run [OF assms(1), of lib cfg es] by (simp add: cloud_below_def db_below_def)
  from evolves_mem [OF this assms(2)] obtain j where j: "j \<in> set (installations (cs_db (run_steps (cloud_step lib cfg) st es)))"
    and "installation_after i j" by blast
  moreover from this(2) have "ins_id j = ins_id i"
    unfolding installation_after_def by (metis installation.select_convs(1) installation.surjective
        installation.update_convs(7,8))
  ultimately show ?thesis using assms(3) by (auto simp: installation_after_def)
qed

lemma revocation_marks:
  assumes "revoke_installation_as lib d k p st = (Inr a, st')"
  shows "\<exists>i \<in> set (installations (cs_db st')). ins_id i = k \<and> ins_revoked_at i \<noteq> None"
proof (cases "in_tx (revoke_tx lib d (up_account p) k) st")
  case (Pair x st1)
  then show ?thesis
  proof (cases rule: in_tx_cases)
    case (refused f)
    with assms Pair show ?thesis by (simp add: revoke_installation_as_def)
  next
    case (committed s db')
    with assms Pair have st': "cs_db st' = db'" by (auto simp: revoke_installation_as_def)
    from committed(3) obtain i e where i: "i \<in> set (installations (cs_db st))" "ins_id i = k"
      and db': "db' = (revoke_installation_rows k (now d) (cs_db st))\<lparr>audit_log :=
         audit_log (revoke_installation_rows k (now d) (cs_db st)) @ [e]\<rparr>"
      by (auto elim!: revoke_tx_cases dest!: audit_rows)
    from i have "i\<lparr>ins_revoked_at := Some (now d)\<rparr> \<in> set (installations db')"
      by (auto simp: db' revoke_installation_rows_def update_where_def intro!: image_eqI [of _ _ i])
    with i(2) show ?thesis unfolding st' by (intro bexI) auto
  qed
qed

text \<open>
  C26: revocation is final.  After an installation was revoked, and whatever critical sections run
  afterwards: no request authenticates as that installation, with any headers; its relay task is
  refused registration; and none of its routes is live.
\<close>

theorem revocation_is_final:
  assumes "cloud_inv st" and "revoke_installation_as lib d k p st = (Inr a, st')"
    and "t = run_steps (cloud_step lib cfg) st' es"
  shows "connector lib' hs t \<noteq> Inr k
    \<and> (fst (register_relay_if_active d' k sid t) = Inr (RelayRegistered None) \<or> poisoned t)
    \<and> {j \<in> set (installations (cs_db t)). ins_id j = k \<and> ins_route j \<in> hkeys (relays t)} = {}"
proof -
  have inv': "cloud_inv st'"
    using revocation_good [of st lib d k p] assms(1,2) by (simp add: good_step_def)
  then have inv: "cloud_inv t" unfolding assms(3) by (rule cloud.inv_run)
  from revocation_marks [OF assms(2)] revoked_stays [OF inv', of _ lib cfg es]
  obtain i where "i \<in> set (installations (cs_db t))" "ins_id i = k" "ins_revoked_at i \<noteq> None"
    unfolding assms(3) by metis
  from revoked_blocked [OF inv this] show ?thesis by simp
qed

section \<open>A small service\<close>

text \<open>
  A concrete library and state: one account with one session, a workspace, and an installation
  with its credential, bound to the workspace.  Identifiers are decimal numbers and the hash is
  the identity.
\<close>

definition sample_cloud :: cloud_lib where
  "sample_cloud = \<lparr>header_name_from = (\<lambda>s. Some s), header_value_ok = (\<lambda>s. True),
     header_value_str = Some, status_code_ok = (\<lambda>s. True), sha_hex = (\<lambda>s. s), b64url = (\<lambda>bs. replicate 43 (CHR ''z'')),
     uuid_text = (\<lambda>u. show_nat (unat u)),
     uuid_of = (\<lambda>s. Some (word_of_nat (foldl (\<lambda>n c. 10 * n + (ord c - 48)) 0 s)))\<rparr>"

definition sample_config :: cloud_config where
  "sample_config = \<lparr>public_origin = ''http://cloud.test''\<rparr>"

definition sample_draws :: draws where
  "sample_draws = \<lparr>auth_now = 10, now = 11, session_now = 12, audit_now = 13, new_id = 21, second_id = 22,
     audit_id = 23, token_public = replicate 8 1, token_secret = replicate 32 2,
     csrf_public = replicate 8 3, csrf_secret = replicate 32 4, route_bytes = replicate 12 5, file_ok = True\<rparr>"

definition sample_proof :: string where
  "sample_proof = replicate 32 (CHR ''p'')"

definition sample_db :: cloud_db where
  "sample_db = \<lparr>settings = [(''bootstrap_claimed'', ''1'')],
     accounts = [\<lparr>acc_id = ''1'', acc_handle = ''owner'', acc_display_name = ''O'', acc_created_at = 0,
        acc_disabled_at = None\<rparr>],
     sessions = [\<lparr>ses_id = ''5'', ses_account = ''1'', ses_token_hash = ''tok'', ses_csrf_hash = ''csrf'',
        ses_created_at = 0, ses_expires_at = 100, ses_revoked_at = None\<rparr>],
     workspaces = [\<lparr>ws_id = ''3'', ws_namespace = ''space'', ws_display_name = ''W'', ws_owner = ''1'',
        ws_created_at = 0\<rparr>],
     memberships = [\<lparr>mem_workspace = ''3'', mem_account = ''1'', mem_role = ''owner''\<rparr>],
     installations = [\<lparr>ins_id = ''2'', ins_owner = ''1'', ins_local_server = ''9'', ins_route = ''route'',
        ins_label = ''laptop'', ins_created_at = 0, ins_connected_at = None, ins_revoked_at = None\<rparr>],
     credentials = [\<lparr>cred_id = ''6'', cred_installation = ''2'', cred_public_id = replicate 16 (CHR ''a''),
        cred_secret_hash = sample_proof, cred_created_at = 0, cred_revoked_at = None\<rparr>],
     bindings = [\<lparr>bnd_id = ''4'', bnd_workspace = ''3'', bnd_installation = ''2'', bnd_local_workspace = ''8'',
        bnd_revision = 1\<rparr>],
     catalog = [], audit_log = []\<rparr>"

definition sample_state :: cloud_state where
  "sample_state = \<lparr>cs_db = sample_db, poisoned = False, relays = [(''route'', 7)], closing = [],
     bootstrap_file = None\<rparr>"

definition sample_user :: user_principal where
  "sample_user = \<lparr>up_account = ''1'', up_csrf_hash = ''csrf''\<rparr>"

lemma sample_inv: "cloud_inv sample_state"
  by (simp add: cloud_inv_def sample_state_def sample_db_def db_ok_def distinct_on_def refers_def creds_ok_def
      routes_ok_def bootstrap_ok_def claimed_def hmap_ok_def hkeys_def)

lemma sample_revocation:
  "revoke_installation_as sample_cloud sample_draws ''2'' sample_user sample_state =
     (Inr (InstallationRevoked \<lparr>isum_id = 2, isum_local_server = 9, isum_route = ''route'', isum_owner = 1,
        isum_label = InstallationLabel ''laptop'', isum_public_id = replicate 16 (CHR ''a''),
        isum_state = LinkRevoked, isum_connected_at = None, isum_created_at = 0, isum_revoked_at = Some 11\<rparr>),
      snd (revoke_installation_as sample_cloud sample_draws ''2'' sample_user sample_state))"
  by code_simp

theorem revocation_is_final_witness:
  "connector sample_cloud [] (run_steps (cloud_step sample_cloud sample_config)
      (snd (revoke_installation_as sample_cloud sample_draws ''2'' sample_user sample_state)) [])
     \<noteq> Inr ''2''"
  using revocation_is_final [where lib' = sample_cloud and hs = "[]" and d' = sample_draws and sid = 1
      and cfg = sample_config and es = "[]", OF sample_inv sample_revocation refl] by blast

section \<open>Presence\<close>

text \<open>
  The registry's lock is released before the database learns that a relay task has ended.  In
  this run the connector reconnects between the two: its new route stays live, but the late update
  clears \<open>connected_at\<close>, and the installation is listed as disconnected from then on.
\<close>

theorem reconnect_loses_presence:
  "let t = run_steps (cloud_step sample_cloud sample_config) sample_state
        [RelayDown ''2'' ''route'' 7, RelayUp sample_draws ''2'' 8, RelayClear ''2''] in
     hget (relays t) ''route'' = Some 8 \<and> closing t = []
     \<and> map_err (\<lambda>_. ()) (rbind (installation_by_id sample_cloud (cs_db t) ''2'') (\<lambda>s. Inr (isum_state s)))
       = Inr LinkDisconnected"
  by code_simp

section \<open>What a catalog upload does\<close>

text \<open>
  C34: an accepted catalog upload replaces exactly the rows of its binding.  The binding belonged
  to the connector's installation, which was not revoked; its rows become the uploaded projects in
  order, at the uploaded revision, which is larger than the previous one; the rows of every other
  binding, and every other binding, stay as they were.
\<close>

theorem catalog_replaced_exactly:
  assumes "db_ok (cs_db st)" and "put_catalog_as lib d r k st = (Inr a, st')"
  shows "let b = uuid_text lib (creq_binding r); n = uint (creq_revision r); db = cs_db st; db' = cs_db st' in
      filter (\<lambda>c. cat_binding c = b) (catalog db') = map (catalog_row_of lib (creq_binding r) n) (creq_projects r)
    \<and> filter (\<lambda>c. cat_binding c \<noteq> b) (catalog db') = filter (\<lambda>c. cat_binding c \<noteq> b) (catalog db)
    \<and> filter (\<lambda>x. bnd_id x \<noteq> b) (bindings db') = filter (\<lambda>x. bnd_id x \<noteq> b) (bindings db)
    \<and> (\<exists>x. filter (\<lambda>x. bnd_id x = b) (bindings db) = [x] \<and> bnd_installation x = k
         \<and> bnd_revision x < n \<and> n < 2 ^ 63
         \<and> filter (\<lambda>x. bnd_id x = b) (bindings db') = [x\<lparr>bnd_revision := n\<rparr>])
    \<and> active_installation db k"
proof -
  let ?b = "uuid_text lib (creq_binding r)" and ?n = "uint (creq_revision r)"
  from assms(2) obtain u db' where tx: "catalog_tx lib d k r (cs_db st) = Inr (u, db')" and st': "cs_db st' = db'"
    by (auto simp: put_catalog_as_def answered_def split: sum.splits prod.splits elim!: in_tx_cases)
  from tx show ?thesis
  proof (cases rule: catalog_tx_cases)
    case (1 x db1)
    from replace_catalog_rows [OF 1(7)] audit_rows [OF 1(8)] obtain e where
      db': "db' = (cs_db st)\<lparr>catalog := filter (\<lambda>c. cat_binding c \<noteq> ?b) (catalog (cs_db st))
          @ map (catalog_row_of lib (creq_binding r) ?n) (creq_projects r),
        bindings := update_where (\<lambda>c. bnd_id c = ?b) (\<lambda>c. c\<lparr>bnd_revision := ?n\<rparr>) (bindings (cs_db st)),
        audit_log := audit_log (cs_db st) @ [e]\<rparr>" by auto
    have mine: "filter (\<lambda>c. cat_binding c = ?b) (map (catalog_row_of lib (creq_binding r) ?n) ps)
        = map (catalog_row_of lib (creq_binding r) ?n) ps"
      "filter (\<lambda>c. cat_binding c \<noteq> ?b) (map (catalog_row_of lib (creq_binding r) ?n) ps) = []" for ps
      by (induction ps) (simp_all add: catalog_row_of_def)
    have ids: "distinct_on bnd_id (bindings (cs_db st))" using assms(1) by (simp add: db_ok_def)
    have one: "filter (\<lambda>y. bnd_id y = ?b) (bindings (cs_db st)) = [x]"
      using filter_unique_key [OF ids 1(1)] 1(2) by simp
    have upd: "filter (\<lambda>y. bnd_id y \<noteq> ?b) (update_where (\<lambda>c. bnd_id c = ?b) f xs) = filter (\<lambda>y. bnd_id y \<noteq> ?b) xs"
      "filter (\<lambda>y. bnd_id y = ?b) (update_where (\<lambda>c. bnd_id c = ?b) f xs) = map f (filter (\<lambda>y. bnd_id y = ?b) xs)"
      if "\<And>y. bnd_id (f y) = bnd_id y" for f xs
      by (induction xs) (simp_all add: update_where_def that)
    show ?thesis unfolding Let_def st'
      using 1 one by (simp add: db' mine upd)
  qed
qed

definition sample_catalog :: catalog_request where
  "sample_catalog = \<lparr>creq_binding = 4, creq_revision = 2, creq_projects =
     [\<lparr>pin_local = 30, pin_slug = ProjectSlug ''demo'', pin_name = ''Demo'', pin_description = [],
       pin_default_branch = ''main'', pin_head_sha = ''abc'', pin_updated_at = 3\<rparr>]\<rparr>"

lemma sample_upload:
  "put_catalog_as sample_cloud sample_draws sample_catalog ''2'' sample_state =
     (Inr (CatalogAccepted 4 2 1), snd (put_catalog_as sample_cloud sample_draws sample_catalog ''2'' sample_state))"
  by code_simp

theorem catalog_replaced_exactly_witness:
  "filter (\<lambda>c. cat_binding c = uuid_text sample_cloud (creq_binding sample_catalog))
     (catalog (cs_db (snd (put_catalog_as sample_cloud sample_draws sample_catalog ''2'' sample_state))))
   = map (catalog_row_of sample_cloud (creq_binding sample_catalog) (uint (creq_revision sample_catalog)))
       (creq_projects sample_catalog)"
  using catalog_replaced_exactly [OF sample_inv [unfolded cloud_inv_def, THEN conjunct1] sample_upload, unfolded Let_def]
  by blast

section \<open>What a request needs\<close>

text \<open>
  Each request is refused or answered without touching the state, or it is one critical section.
\<close>

lemma with_user_cases:
  assumes "with_user lib cfg d hs k st = (r, st')"
  obtains (refused) e where "r = Inl (Refused e)" and "st' = st"
  | (admitted) p where "user lib cfg d hs True st = Inr p" and "k p st = (r, st')"
  using assms by (auto simp: with_user_def split: sum.splits)

text \<open>
  A request of the router is authentication followed by at most one critical section, so every
  run of requests, in any interleaving of their sections, is a run of the machine \<open>cloud_step\<close>.
\<close>

theorem request_is_one_section:
  "snd (serve lib cfg d hs st rq) = st \<or> (\<exists>ev. serve lib cfg d hs st rq = cloud_step lib cfg st ev)"
proof -
  have user: "snd (with_user lib cfg d hs k st) = st \<or> (\<exists>ev. with_user lib cfg d hs k st = cloud_step lib cfg st ev)"
    if "\<And>p. k p st = cloud_step lib cfg st (ev p)" for k ev
    using that by (auto simp: with_user_def split: sum.splits)
  show ?thesis
  proof (cases rq)
    case (PostClaim b r)
    have "claim_admitted lib cfg d r st = cloud_step lib cfg st (Claiming d r)" by (simp add: cloud_step_def)
    then show ?thesis by (auto simp: PostClaim serve_def claim_bootstrap_def split: sum.splits)
  next
    case DeleteSession
    then show ?thesis by (simp add: serve_def) (rule user [where ev = "LoggingOut d hs"], simp add: cloud_step_def)
  next
    case (PostWorkspaces r)
    then show ?thesis
      by (simp add: serve_def) (rule user [where ev = "CreatingWorkspace d r"], simp add: cloud_step_def)
  next
    case (PostInstallations r)
    then show ?thesis by (simp add: serve_def) (rule user [where ev = "Registering d r"], simp add: cloud_step_def)
  next
    case (PostBinding w r)
    then show ?thesis by (simp add: serve_def) (rule user [where ev = "Binding d w r"], simp add: cloud_step_def)
  next
    case (DeleteInstallation k)
    then show ?thesis by (simp add: serve_def) (rule user [where ev = "Revoking d k"], simp add: cloud_step_def)
  next
    case (PutInstallationCatalog k r)
    have "put_catalog_as lib d r c st = cloud_step lib cfg st (PuttingCatalog d r c)" for c
      by (simp add: cloud_step_def)
    then show ?thesis by (auto simp: PutInstallationCatalog serve_def put_catalog_def split: sum.splits)
  qed (simp_all add: serve_def)
qed

text \<open>The credentials a request must carry to change the database.\<close>

definition session_proof :: "cloud_lib \<Rightarrow> cloud_config \<Rightarrow> draws \<Rightarrow> headers \<Rightarrow> cloud_db \<Rightarrow> session \<Rightarrow> bool" where
  "session_proof lib cfg d hs db s \<longleftrightarrow> s \<in> set (sessions db)
     \<and> map_option (sha_hex lib) (cookie lib hs (session_cookie_name cfg)) = Some (ses_token_hash s)
     \<and> ses_revoked_at s = None \<and> auth_now d < ses_expires_at s \<and> active_account db (ses_account s)
     \<and> header_get lib ''origin'' hs = Some (public_origin cfg)
     \<and> map_option (sha_hex lib) (cookie lib hs (csrf_cookie_name cfg)) = Some (ses_csrf_hash s)
     \<and> header_get lib ''x-c6-csrf'' hs = cookie lib hs (csrf_cookie_name cfg)"

definition connector_proof :: "cloud_lib \<Rightarrow> headers \<Rightarrow> cloud_db \<Rightarrow> string \<Rightarrow> bool" where
  "connector_proof lib hs db k \<longleftrightarrow> (\<exists>tk c. header_get lib ''authorization'' hs = Some (''Bearer '' @ render_token tk)
     \<and> token_class tk = Connector \<and> c \<in> set (credentials db) \<and> cred_public_id c = public_id tk
     \<and> cred_secret_hash c = sha_hex lib (proof_text tk) \<and> cred_revoked_at c = None
     \<and> cred_installation c = k \<and> active_installation db k)"

definition authorised :: "cloud_lib \<Rightarrow> cloud_config \<Rightarrow> draws \<Rightarrow> headers \<Rightarrow> cloud_db \<Rightarrow> cloud_request \<Rightarrow> bool" where
  "authorised lib cfg d hs db rq = (case rq of
      PostClaim loopback r \<Rightarrow> loopback \<and> header_get lib ''origin'' hs = Some (public_origin cfg) \<and> \<not> claimed db
        \<and> token_class (claim_token r) = Bootstrap
        \<and> hget (settings db) ''bootstrap_hash'' = Some (sha_hex lib (render_token (claim_token r)))
    | DeleteSession \<Rightarrow> (\<exists>s. session_proof lib cfg d hs db s)
    | PostWorkspaces r \<Rightarrow> (\<exists>s. session_proof lib cfg d hs db s)
    | PostInstallations r \<Rightarrow> (\<exists>s. session_proof lib cfg d hs db s)
    | PostBinding w r \<Rightarrow> (\<exists>s. session_proof lib cfg d hs db s \<and> owns_workspace db w (ses_account s))
    | DeleteInstallation k \<Rightarrow> (\<exists>s i. session_proof lib cfg d hs db s \<and> i \<in> set (installations db)
        \<and> ins_id i = k \<and> ins_owner i = ses_account s)
    | PutInstallationCatalog k r \<Rightarrow> connector_proof lib hs db k
    | _ \<Rightarrow> False)"

lemma user_proof:
  assumes "user lib cfg d hs True st = Inr p"
  shows "\<exists>s. session_proof lib cfg d hs (cs_db st) s \<and> up_account p = ses_account s \<and> up_csrf_hash p = ses_csrf_hash s"
  using assms by (auto simp: user_def check_csrf_def require_origin_def find_session_def lock_def session_proof_def tx_defs
      split: if_splits dest!: find_SomeD)

lemma connector_proof_of:
  assumes "connector lib hs st = Inr k"
  shows "connector_proof lib hs (cs_db st) k"
  using assms by (auto simp: connector_def connector_proof_def find_credential_def lock_def tx_defs parse_token_iff
      strip_prefix_Some split: if_splits option.splits bind_splits dest!: find_SomeD)

lemma in_tx_changed:
  assumes "cs_db (snd (in_tx body st)) \<noteq> cs_db st"
  obtains a db' where "body (cs_db st) = Inr (a, db')"
  using assms by (cases "in_tx body st") (auto elim!: in_tx_cases)

lemma with_user_changed:
  assumes "cs_db (snd (with_user lib cfg d hs k st)) \<noteq> cs_db st"
  obtains p s where "session_proof lib cfg d hs (cs_db st) s" and "up_account p = ses_account s"
    and "cs_db (snd (k p st)) \<noteq> cs_db st"
  using assms user_proof [of lib cfg d hs st] by (auto simp: with_user_def split: sum.splits)

lemma claim_changed:
  assumes "cs_db (snd (claim_bootstrap lib cfg d loopback hs r st)) \<noteq> cs_db st"
  shows "authorised lib cfg d hs (cs_db st) (PostClaim loopback r)"
proof -
  from assms have pre: "loopback" "header_get lib ''origin'' hs = Some (public_origin cfg)"
    and "cs_db (snd (claim_admitted lib cfg d r st)) \<noteq> cs_db st"
    by (auto simp: claim_bootstrap_def require_origin_def tx_defs split: sum.splits)
  then have "cs_db (snd (in_tx (claim_tx lib d r) st)) \<noteq> cs_db st"
    by (auto simp: claim_admitted_def split: prod.splits sum.splits)
  then obtain a db' where "claim_tx lib d r (cs_db st) = Inr (a, db')" by (rule in_tx_changed)
  with pre show ?thesis by (auto elim!: claim_tx_cases simp: authorised_def claimed_def)
qed

lemma revoke_changed:
  assumes "cs_db (snd (revoke_installation_as lib d k p st)) \<noteq> cs_db st"
  shows "\<exists>i \<in> set (installations (cs_db st)). ins_id i = k \<and> ins_owner i = up_account p"
proof -
  from assms have "cs_db (snd (in_tx (revoke_tx lib d (up_account p) k) st)) \<noteq> cs_db st"
    by (auto simp: revoke_installation_as_def split: prod.splits sum.splits)
  then show ?thesis by (auto elim!: in_tx_changed revoke_tx_cases)
qed

lemma bind_changed:
  assumes "cs_db (snd (bind_installation_as lib d w r p st)) \<noteq> cs_db st"
  shows "owns_workspace (cs_db st) w (up_account p)"
proof -
  from assms have "cs_db (snd (in_tx (bind_tx lib d (up_account p) w r) st)) \<noteq> cs_db st"
    by (auto simp: bind_installation_as_def split: option.splits)
  then show ?thesis by (auto elim!: in_tx_changed bind_tx_cases)
qed

text \<open>
  C3: a request changes the database only if it is authorised: a claim from loopback with the
  right origin and the unredeemed bootstrap token; a mutation by a browser with the cookie of a
  live session of an active account, the right origin, and a CSRF cookie that hashes to the
  session's verifier and is repeated in the header, and for a binding or a revocation also
  ownership; a catalog upload with the unrevoked connector credential of that very installation.
\<close>

theorem only_authorised_requests_change:
  assumes "cs_db (snd (serve lib cfg d hs st rq)) \<noteq> cs_db st"
  shows "authorised lib cfg d hs (cs_db st) rq"
proof (cases rq)
  case (PostClaim b r)
  with assms show ?thesis by (simp add: serve_def claim_changed)
next
  case DeleteSession
  with assms show ?thesis by (auto simp: serve_def authorised_def elim!: with_user_changed)
next
  case (PostWorkspaces r)
  with assms show ?thesis by (auto simp: serve_def authorised_def elim!: with_user_changed)
next
  case (PostInstallations r)
  with assms show ?thesis by (auto simp: serve_def authorised_def elim!: with_user_changed)
next
  case (PostBinding w r)
  with assms show ?thesis
    by (auto simp: serve_def authorised_def elim!: with_user_changed dest!: bind_changed)
next
  case (DeleteInstallation k)
  with assms show ?thesis
    by (auto simp: serve_def authorised_def elim!: with_user_changed dest!: revoke_changed) blast
next
  case (PutInstallationCatalog k r)
  with assms connector_proof_of [of lib hs st k] show ?thesis
    by (auto simp: serve_def authorised_def put_catalog_def tx_defs split: sum.splits)
qed (use assms in \<open>simp_all add: serve_def\<close>)

definition sample_headers :: headers where
  "sample_headers = [(''cookie'', ''c6_cloud_session=tok; c6_cloud_csrf=csrf''),
     (''origin'', ''http://cloud.test''), (''x-c6-csrf'', ''csrf'')]"

lemma sample_changes:
  "cs_db (snd (serve sample_cloud sample_config sample_draws sample_headers sample_state (DeleteInstallation ''2'')))
     \<noteq> cs_db sample_state"
  by code_simp

theorem only_authorised_requests_change_witness:
  "authorised sample_cloud sample_config sample_draws sample_headers (cs_db sample_state) (DeleteInstallation ''2'')"
  by (rule only_authorised_requests_change [OF sample_changes])

section \<open>Refusals\<close>

text \<open>A refusal with a status other than 500 comes before the commit.\<close>

lemma internal_status [simp]: "err_status api_internal = 500"
  by (simp add: api_internal_def)

lemma in_tx_refused:
  "in_tx body st = (Inl (Refused e), st') \<Longrightarrow> st' = st"
  by (erule in_tx_cases) auto

lemma answered_refused:
  assumes "answered g (in_tx body st) = (Inl (Refused e), st')" and "err_status e \<noteq> 500"
    and "\<And>a e. g a = Inl e \<Longrightarrow> e = api_internal"
  shows "st' = st"
proof (cases "in_tx body st")
  case (Pair r s)
  show ?thesis
  proof (cases r)
    case (Inl f)
    with Pair assms(1) show ?thesis by (auto simp: answered_def dest: in_tx_refused)
  next
    case (Inr a)
    with Pair assms(1) have "g a = Inl e" by (cases "g a") (auto simp: answered_def)
    with assms(2) assms(3) [of a e] show ?thesis by simp
  qed
qed

lemma parse_uuid_error: "parse_uuid lib s = Inl e \<Longrightarrow> e = api_internal"
  by (cases "uuid_of lib s") (auto simp: parse_uuid_def)

lemma session_response_error: "session_response lib cfg a b = Inl e \<Longrightarrow> e = api_internal"
  by (auto simp: session_response_def fail_if_def split: if_splits)

lemma claim_refused:
  assumes "claim_admitted lib cfg d r st = (Inl (Refused e), st')" and "err_status e \<noteq> 500"
  shows "st' = st"
proof (cases "in_tx (claim_tx lib d r) st")
  case (Pair x s)
  show ?thesis
  proof (cases x)
    case (Inl f)
    with Pair assms(1) show ?thesis by (auto simp: claim_admitted_def dest: in_tx_refused)
  next
    case (Inr p)
    with Pair assms(1) have "e = api_internal"
      by (auto simp: claim_admitted_def map_err_Inl_iff rbind_Inl_iff split: prod.splits
          dest: session_response_error)
    with assms(2) show ?thesis by simp
  qed
qed

lemma section_refused:
  assumes "err_status e \<noteq> 500"
  shows "logout_as lib cfg d hs p st = (Inl (Refused e), st') \<Longrightarrow> st' = st"
    and "create_workspace_as lib d wr p st = (Inl (Refused e), st') \<Longrightarrow> st' = st"
    and "register_installation_as lib d ir p st = (Inl (Refused e), st') \<Longrightarrow> st' = st"
    and "bind_installation_as lib d w br p st = (Inl (Refused e), st') \<Longrightarrow> st' = st"
    and "revoke_installation_as lib d k p st = (Inl (Refused e), st') \<Longrightarrow> st' = st"
    and "put_catalog_as lib d cr k st = (Inl (Refused e), st') \<Longrightarrow> st' = st"
  using assms
  by (auto simp: logout_as_def create_workspace_as_def register_installation_as_def bind_installation_as_def
      revoke_installation_as_def put_catalog_as_def rbind_Inl_iff
      split: sum.splits option.splits prod.splits
      dest: in_tx_refused answered_refused parse_uuid_error elim!: answered_refused)

text \<open>
  A request that is refused with any status but 500 leaves the whole state as it was; a
  failed transaction is never half applied, and no refusal comes after a commit.
\<close>

theorem refusal_changes_nothing:
  assumes "serve lib cfg d hs st rq = (Inl (Refused e), st')" and "err_status e \<noteq> 500"
  shows "st' = st"
proof -
  have user: "st' = st" if "with_user lib cfg d hs k st = (Inl (Refused e), st')"
    and "\<And>p. k p st = (Inl (Refused e), st') \<Longrightarrow> st' = st" for k
    using that by (auto elim!: with_user_cases)
  note s = section_refused [OF assms(2)]
  show ?thesis
  proof (cases rq)
    case (PostClaim b r)
    with assms show ?thesis by (auto simp: serve_def claim_bootstrap_def split: sum.splits dest: claim_refused)
  next
    case (PutInstallationCatalog k r)
    with assms show ?thesis by (auto simp: serve_def put_catalog_def split: sum.splits dest: s(6))
  qed (use assms in \<open>auto simp: serve_def dest!: user dest: s\<close>)
qed

definition sample_rebinding :: cloud_request where
  "sample_rebinding = PostBinding ''3'' \<lparr>breq_installation = 2, breq_local_workspace = 8\<rparr>"

lemma sample_conflict:
  "serve sample_cloud sample_config sample_draws sample_headers sample_state sample_rebinding
     = (Inl (Refused (api_conflict ''identifier is already in use'')),
        snd (serve sample_cloud sample_config sample_draws sample_headers sample_state sample_rebinding))"
  "err_status (api_conflict ''identifier is already in use'') \<noteq> 500"
  by code_simp (simp add: api_conflict_def)

theorem refusal_changes_nothing_witness:
  "snd (serve sample_cloud sample_config sample_draws sample_headers sample_state sample_rebinding) = sample_state"
  by (rule refusal_changes_nothing [OF sample_conflict])

section \<open>Isolation of accounts\<close>

text \<open>What belongs to other accounts.\<close>

definition owner_of :: "cloud_db \<Rightarrow> string \<Rightarrow> string option" where
  "owner_of db k = map_option ins_owner (find (\<lambda>i. ins_id i = k) (installations db))"

definition foreign_view ::
  "string \<Rightarrow> cloud_db \<Rightarrow> account list \<times> session list \<times> workspace list \<times> membership list
     \<times> installation list \<times> credential list \<times> binding list \<times> catalog_row list" where
  "foreign_view acc db =
     (accounts db, filter (\<lambda>s. ses_account s \<noteq> acc) (sessions db),
      filter (\<lambda>w. ws_owner w \<noteq> acc) (workspaces db), filter (\<lambda>m. mem_account m \<noteq> acc) (memberships db),
      filter (\<lambda>i. ins_owner i \<noteq> acc) (installations db),
      filter (\<lambda>c. owner_of db (cred_installation c) \<noteq> Some acc) (credentials db),
      filter (\<lambda>b. owner_of db (bnd_installation b) \<noteq> Some acc) (bindings db), catalog db)"

lemma owner_of_mem: "distinct_on ins_id (installations db) \<Longrightarrow> i \<in> set (installations db) \<Longrightarrow>
    owner_of db (ins_id i) = Some (ins_owner i)"
proof -
  assume ids: "distinct_on ins_id (installations db)" and i: "i \<in> set (installations db)"
  then obtain j where j: "find (\<lambda>j. ins_id j = ins_id i) (installations db) = Some j"
    by (cases "find (\<lambda>j. ins_id j = ins_id i) (installations db)") (auto simp: find_None_iff)
  with find_SomeD [OF j] distinct_on_inj [OF ids _ i] show ?thesis by (auto simp: owner_of_def)
qed

lemma owner_update:
  "(\<And>i. ins_id (f i) = ins_id i \<and> ins_owner (f i) = ins_owner i) \<Longrightarrow>
     map_option ins_owner (find (\<lambda>i. ins_id i = k) (update_where p f xs))
       = map_option ins_owner (find (\<lambda>i. ins_id i = k) xs)"
  by (induction xs) (auto simp: update_where_def)

lemma logout_foreign: "foreign_view acc (revoke_session_row acc th t db) = foreign_view acc db"
  by (simp add: foreign_view_def revoke_session_row_def owner_of_def) (rule filter_update, simp)

lemma workspace_foreign:
  "workspace_tx lib d r acc db = Inr (a, db') \<Longrightarrow> foreign_view acc db' = foreign_view acc db"
  by (auto simp: workspace_tx_def tx_defs foreign_view_def owner_of_def dest!: insert_rows audit_rows)

lemma bind_foreign:
  assumes "bind_tx lib d acc w r db = Inr (a, db')" and ok: "db_ok db"
  shows "foreign_view acc db' = foreign_view acc db"
  using assms(1)
proof (cases rule: bind_tx_cases)
  case (1 i db1)
  have "owner_of db (ins_id i) = Some acc"
    using owner_of_mem [OF _ 1(1)] ok 1(3) by (simp add: db_ok_def)
  with insert_rows(7) [OF 1(5)] audit_rows [OF 1(6)] 1(2) show ?thesis
    by (auto simp: foreign_view_def owner_of_def)
qed

lemma installation_foreign:
  assumes "installation_tx lib d r tk acc db = Inr (a, db')" and ok: "db_ok db"
  shows "foreign_view acc db' = foreign_view acc db"
  using assms(1)
proof (cases rule: installation_tx_cases)
  case (1 db1 db2)
  let ?k = "uuid_text lib (new_id d)"
  have fresh: "find (\<lambda>i. ins_id i = ?k) (installations db) = None"
    using 1(1) by (auto simp: insert_installation_def db_insert_cases list_ex_iff find_None_iff)
  from insert_rows(5) [OF 1(1)] insert_rows(6) [OF 1(2)] audit_rows [OF 1(3)]
  obtain i c e where db': "db' = db\<lparr>installations := installations db @ [i], credentials := credentials db @ [c],
        audit_log := audit_log db @ [e]\<rparr>"
    and i: "ins_id i = ?k" "ins_owner i = acc" and c: "cred_installation c = ?k" by auto
  have own: "owner_of db' k = (if k = ?k then Some acc else owner_of db k)" for k
    using fresh i by (auto simp: owner_of_def db' find_append split: option.splits)
  have old: "cred_installation x \<noteq> ?k" if "x \<in> set (credentials db)" for x
    using fresh ok that by (auto simp: find_None_iff db_ok_def refers_def)
  have old_b: "bnd_installation x \<noteq> ?k" if "x \<in> set (bindings db)" for x
    using fresh ok that by (auto simp: find_None_iff db_ok_def refers_def)
  have cs: "filter (\<lambda>x. owner_of db' (cred_installation x) \<noteq> Some acc) (credentials db)
      = filter (\<lambda>x. owner_of db (cred_installation x) \<noteq> Some acc) (credentials db)"
    by (rule filter_cong) (auto simp: own old)
  have bs: "filter (\<lambda>x. owner_of db' (bnd_installation x) \<noteq> Some acc) (bindings db)
      = filter (\<lambda>x. owner_of db (bnd_installation x) \<noteq> Some acc) (bindings db)"
    by (rule filter_cong) (auto simp: own old_b)
  have "credentials db' = credentials db @ [c]" "bindings db' = bindings db" by (simp_all add: db')
  with cs bs show ?thesis
    by (simp add: foreign_view_def own c) (simp add: db' i)
qed

lemma revoke_foreign:
  assumes "revoke_tx lib d acc k db = Inr (s, db')" and ok: "db_ok db"
  shows "foreign_view acc db' = foreign_view acc db"
proof -
  from assms(1) obtain i e where i: "i \<in> set (installations db)" "ins_id i = k" "ins_owner i = acc"
    and db': "db' = (revoke_installation_rows k (now d) db)\<lparr>audit_log :=
       audit_log (revoke_installation_rows k (now d) db) @ [e]\<rparr>"
    by (auto elim!: revoke_tx_cases dest!: audit_rows)
  have ids: "distinct_on ins_id (installations db)" using ok by (simp add: db_ok_def)
  have mine: "ins_owner x = acc" if "x \<in> set (installations db)" "ins_id x = k" for x
    using distinct_on_inj [OF ids that(1) i(1)] that(2) i(2,3) by simp
  have owner: "owner_of db k = Some acc" using owner_of_mem [OF ids i(1)] i(2,3) by simp
  have own: "owner_of db' x = owner_of db x" for x
    by (simp add: db' revoke_installation_rows_def owner_of_def owner_update)
  have "filter (\<lambda>x. ins_owner x \<noteq> acc) (installations db') = filter (\<lambda>x. ins_owner x \<noteq> acc) (installations db)"
    by (simp add: db' revoke_installation_rows_def) (rule filter_update, simp add: mine)
  moreover have "filter (\<lambda>c. owner_of db (cred_installation c) \<noteq> Some acc) (credentials db')
      = filter (\<lambda>c. owner_of db (cred_installation c) \<noteq> Some acc) (credentials db)"
    by (simp add: db' revoke_installation_rows_def) (rule filter_update, simp add: owner)
  moreover have "accounts db' = accounts db" "sessions db' = sessions db" "workspaces db' = workspaces db"
    "memberships db' = memberships db" "bindings db' = bindings db" "catalog db' = catalog db"
    by (simp_all add: db' revoke_installation_rows_def)
  ultimately show ?thesis by (simp add: foreign_view_def own)
qed

text \<open>
  A request authenticated by a browser session changes nothing that belongs to another
  account: no account row, no session, workspace, membership or installation of others, no
  credential or binding of another account's installation, and no catalog.
\<close>

theorem sessions_touch_own_rows:
  assumes "db_ok (cs_db st)" and "user lib cfg d hs True st = Inr p"
    and "rq \<in> {DeleteSession, PostWorkspaces wr, PostInstallations ir, PostBinding w br, DeleteInstallation k}"
  shows "foreign_view (up_account p) (cs_db (snd (serve lib cfg d hs st rq))) = foreign_view (up_account p) (cs_db st)"
proof -
  let ?a = "up_account p"
  have tx: "foreign_view ?a (cs_db (snd (in_tx body st))) = foreign_view ?a (cs_db st)"
    if "\<And>a db'. body (cs_db st) = Inr (a, db') \<Longrightarrow> foreign_view ?a db' = foreign_view ?a (cs_db st)"
    for body :: "cloud_db \<Rightarrow> failure + ('x \<times> cloud_db)"
    using that by (cases "in_tx body st") (auto elim!: in_tx_cases)
  note kept = tx [OF workspace_foreign [of lib d wr]] tx [OF bind_foreign [OF _ assms(1), of lib d ?a w br]]
  have registered: "foreign_view ?a (cs_db (snd (in_tx (installation_tx lib d ir tk ?a) st)))
      = foreign_view ?a (cs_db st)" for tk
    by (rule tx) (rule installation_foreign [OF _ assms(1)])
  have revoke: "foreign_view ?a (cs_db (snd (revoke_installation_as lib d k p st))) = foreign_view ?a (cs_db st)"
    using tx [of "revoke_tx lib d ?a k"] revoke_foreign [OF _ assms(1)]
    by (auto simp: revoke_installation_as_def split: prod.splits sum.splits)
  from assms(3) show ?thesis
    by (auto simp: serve_def with_user_def assms(2) revoke kept registered logout_as_def lock_def logout_foreign
        create_workspace_as_def register_installation_as_def bind_installation_as_def tx_defs
        split: sum.splits option.splits prod.splits)
qed

lemma sample_user_ok: "user sample_cloud sample_config sample_draws sample_headers True sample_state = Inr sample_user"
  by code_simp

theorem sessions_touch_own_rows_witness:
  "foreign_view ''1'' (cs_db (snd (serve sample_cloud sample_config sample_draws sample_headers sample_state
      (DeleteInstallation ''2'')))) = foreign_view ''1'' (cs_db sample_state)"
  using sessions_touch_own_rows [OF sample_inv [unfolded cloud_inv_def, THEN conjunct1] sample_user_ok,
      where rq = "DeleteInstallation ''2''" and k = "''2''"] by (simp add: sample_user_def)

end
