(* ===== verification/Cloud_Login.thy ===== *)
theory Cloud_Login
  imports Cloud_Authority
begin

text \<open>
  The credentials the cloud service hands out are accepted when they come back: the session of a
  bootstrap claim through the cookies a browser returns, and the token of a registered
  installation through the bearer header its connector sends.
\<close>

section \<open>Cookies survive the round trip\<close>

lemma base64url_plain: "is_base64url s \<Longrightarrow> plain s"
  unfolding plain_def is_base64url_def list_all_iff by (fastforce simp: char_simps)

lemma token_plain:
  assumes "parse_token v = Inr t"
  shows "plain v"
proof -
  have "is_base64url (class_prefix (token_class t))"
    by (cases "token_class t") (simp_all add: is_base64url_def char_simps)
  then have "is_base64url v"
    using assms by (simp add: parse_token_iff render_token_def token_ok_def is_base64url_def char_simps)
  then show ?thesis by (rule base64url_plain)
qed

lemma cookie_names_plain:
  "plain (session_cookie_name cfg)" "plain (csrf_cookie_name cfg)"
  "CHR ''='' \<notin> set (session_cookie_name cfg)" "CHR ''='' \<notin> set (csrf_cookie_name cfg)"
  "session_cookie_name cfg \<noteq> csrf_cookie_name cfg"
  by (simp_all add: session_cookie_name_def csrf_cookie_name_def plain_def)

lemma browser_session:
  assumes "plain token" and "plain csrf" and "session_response lib cfg token csrf = Inr cookies"
  shows "cookie_pairs (browser_cookies cookies)
    = [(session_cookie_name cfg, token), (csrf_cookie_name cfg, csrf)]"
proof -
  have "cookies = [session_cookie cfg token, csrf_cookie cfg csrf]"
    using assms(3) by (auto simp: session_response_def tx_defs)
  moreover have "cookie_pair (session_cookie cfg token) = session_cookie_name cfg @ CHR ''='' # token"
    "cookie_pair (csrf_cookie cfg csrf) = csrf_cookie_name cfg @ CHR ''='' # csrf"
    using cookie_pair_of [OF cookie_names_plain(1) assms(1)] cookie_pair_of [OF cookie_names_plain(2) assms(2)]
    by (simp_all add: session_cookie_def csrf_cookie_def)
  ultimately show ?thesis
    using cookie_pairs_two [OF cookie_names_plain(1,2) assms(1,2) cookie_names_plain(3,4)] by simp
qed

section \<open>The session of a claim\<close>

lemma issued_parses: "issued lib cls pb sb = Inr v \<Longrightarrow> \<exists>t. parse_token v = Inr t"
  by (auto simp: issued_def issue_token_def Let_def ok_or_Inr_iff split: sum.splits)

lemma create_session_cases:
  assumes "create_session lib d acc db = Inr ((token, csrf), db')"
  obtains s where "db' = db\<lparr>sessions := sessions db @ [s]\<rparr>" and "ses_account s = acc"
    and "ses_token_hash s = sha_hex lib token" and "ses_csrf_hash s = sha_hex lib csrf"
    and "ses_revoked_at s = None" and "ses_expires_at s = session_now d + session_hours * hour"
    and "\<forall>x \<in> set (sessions db). ses_token_hash x \<noteq> sha_hex lib token"
    and "plain token" and "plain csrf"
proof -
  from assms have "insert_session \<lparr>ses_id = uuid_text lib (second_id d), ses_account = acc,
          ses_token_hash = sha_hex lib token, ses_csrf_hash = sha_hex lib csrf,
          ses_created_at = session_now d, ses_expires_at = session_now d + session_hours * hour,
          ses_revoked_at = None\<rparr> db = Inr db'" (is "insert_session ?s db = _")
    and "plain token" "plain csrf"
    by (auto simp: create_session_def tx_defs dest: issued_parses token_plain)
  with that [of ?s] insert_rows(2) [OF this(1)] show thesis
    by (auto simp: insert_session_def db_insert_cases list_ex_iff)
qed

text \<open>
  The session a bootstrap claim answers with works.  A browser that keeps the two cookies of
  the answer and sends them back, with the service's origin and the CSRF token of the answer in
  the header, is authenticated for mutations as the new account, until 30 days have passed.
\<close>

theorem claimed_session_authenticates:
  assumes "claim_admitted lib cfg d r st = (Inr (BootstrapClaimed a csrf cookies), st')"
    and "hs = [(''cookie'', browser_cookies cookies), (''origin'', public_origin cfg), (''x-c6-csrf'', csrf)]"
    and "header_value_str lib (browser_cookies cookies) = Some (browser_cookies cookies)"
    and "header_value_str lib (public_origin cfg) = Some (public_origin cfg)"
    and "header_value_str lib csrf = Some csrf"
    and "auth_now d' < session_now d + 30 * 24 * hour"
  shows "\<exists>p. user lib cfg d' hs True st' = Inr p \<and> up_account p = uuid_text lib (asum_id a)"
proof -
  let ?acc = "uuid_text lib (new_id d)"
  from assms(1) obtain token db' where st': "st' = st\<lparr>cs_db := db', bootstrap_file :=
        if file_ok d then None else bootstrap_file st\<rparr>"
    and live: "\<not> poisoned st" and tx: "claim_tx lib d r (cs_db st) = Inr ((token, csrf), db')"
    and resp: "session_response lib cfg token csrf = Inr cookies" and a: "asum_id a = new_id d"
    by (auto simp: claim_admitted_def tx_defs split: prod.splits sum.splits elim!: in_tx_cases)
  from tx obtain s where s: "ses_account s = ?acc" "ses_token_hash s = sha_hex lib token"
      "ses_csrf_hash s = sha_hex lib csrf" "ses_revoked_at s = None"
      "ses_expires_at s = session_now d + session_hours * hour"
    and db': "sessions db' = sessions (cs_db st) @ [s]" and active: "active_account db' ?acc"
    and fresh: "\<forall>x \<in> set (sessions (cs_db st)). ses_token_hash x \<noteq> sha_hex lib token"
    and plain: "plain token" "plain csrf"
  proof (cases rule: claim_tx_cases)
    case (1 db1 db2)
    note acc = insert_rows(1) [OF 1(4)]
    from 1(5) show ?thesis
    proof (cases rule: create_session_cases)
      case s: (1 s)
      from audit_rows [OF 1(6)] obtain e where e: "db' = db2\<lparr>audit_log := audit_log db2 @ [e]\<rparr>" by blast
      show ?thesis
        by (rule that [of s]) (use s acc in \<open>simp_all add: e put_setting_def delete_setting_def active_account_def\<close>)
    qed
  qed
  have find: "find_session db' (sha_hex lib token) (auth_now d') = Some s"
    using fresh s assms(6) active
    by (auto simp: find_session_def db' find_append find_None_iff session_hours_def split: option.splits
        dest: find_SomeD)
  have cookies: "cookie lib hs (session_cookie_name cfg) = Some token" "cookie lib hs (csrf_cookie_name cfg) = Some csrf"
    using browser_session [OF plain resp] cookie_names_plain(5) [of cfg]
    by (simp_all add: cookie_def assms(2,3) List.map_filter_simps)
  have "header_get lib ''origin'' hs = Some (public_origin cfg)" "header_get lib ''x-c6-csrf'' hs = Some csrf"
    by (simp_all add: header_get_def assms(2,4,5))
  with cookies find s live show ?thesis
    by (simp add: user_def lock_def st' check_csrf_def require_origin_def a)
qed

definition sample_claim :: claim_request where
  "sample_claim = \<lparr>claim_token = \<lparr>token_class = Bootstrap, public_id = replicate 16 (CHR ''a''),
      proof_text = replicate 32 (CHR ''b'')\<rparr>,
     claim_handle = AccountHandle ''owner'', claim_display_name = ''Owner''\<rparr>"

definition unclaimed :: cloud_state where
  "unclaimed = cloud_start [(''bootstrap_hash'', render_token (claim_token sample_claim))]"

definition claimed_account :: account_summary where
  "claimed_account = \<lparr>asum_id = 21, asum_handle = AccountHandle ''owner'', asum_display_name = ''Owner'',
     asum_created_at = 11, asum_disabled_at = None\<rparr>"

definition claimed_csrf :: string where
  "claimed_csrf = ''c6f_v1_0303030303030303_'' @ replicate 43 (CHR ''z'')"

definition claimed_token :: string where
  "claimed_token = ''c6s_v1_0101010101010101_'' @ replicate 43 (CHR ''z'')"

definition claimed_cookies :: "string list" where
  "claimed_cookies = [session_cookie sample_config claimed_token, csrf_cookie sample_config claimed_csrf]"

lemma sample_claim_tx:
  "fst (in_tx (claim_tx sample_cloud sample_draws sample_claim) unclaimed) = Inr (claimed_token, claimed_csrf)"
  "is_ok (parse_token claimed_csrf)"
  by code_simp+

lemma sample_claimed_answer:
  "fst (claim_admitted sample_cloud sample_config sample_draws sample_claim unclaimed)
     = Inr (BootstrapClaimed claimed_account claimed_csrf claimed_cookies)"
proof -
  have "session_response sample_cloud sample_config claimed_token claimed_csrf = Inr claimed_cookies"
    by (simp add: session_response_def claimed_cookies_def sample_cloud_def)
  with sample_claim_tx show ?thesis
    by (auto simp: claim_admitted_def is_ok_iff claimed_account_def sample_draws_def sample_claim_def
        split: prod.split)
qed

lemma sample_claimed:
  "claim_admitted sample_cloud sample_config sample_draws sample_claim unclaimed
     = (Inr (BootstrapClaimed claimed_account claimed_csrf claimed_cookies),
        snd (claim_admitted sample_cloud sample_config sample_draws sample_claim unclaimed))"
  by (simp only: sample_claimed_answer [symmetric] prod.collapse)

theorem claimed_session_authenticates_witness:
  "\<exists>p. user sample_cloud sample_config sample_draws
      [(''cookie'', browser_cookies claimed_cookies), (''origin'', public_origin sample_config), (''x-c6-csrf'', claimed_csrf)]
      True (snd (claim_admitted sample_cloud sample_config sample_draws sample_claim unclaimed)) = Inr p
    \<and> up_account p = uuid_text sample_cloud (asum_id claimed_account)"
  by (rule claimed_session_authenticates [OF sample_claimed refl])
    (simp_all add: sample_cloud_def sample_draws_def hour_def)

section \<open>The credential of an installation\<close>

text \<open>
  The connector token that registering an installation answers with, sent as a bearer
  credential, authenticates as exactly that installation.
\<close>

theorem registered_connector_authenticates:
  assumes "db_ok (cs_db st)"
    and "register_installation_as lib d r p st = (Inr (InstallationRegistered s token), st')"
    and "header_get lib ''authorization'' hs = Some (''Bearer '' @ token)"
  shows "connector lib hs st' = Inr (uuid_text lib (isum_id s))"
proof -
  let ?k = "uuid_text lib (new_id d)"
  from assms(2) obtain tk db' where st': "st' = st\<lparr>cs_db := db'\<rparr>" and live: "\<not> poisoned st"
    and tk: "parse_token token = Inr tk" and s: "isum_id s = new_id d"
    and issued: "issued lib Connector (token_public d) (token_secret d) = Inr token"
    and tx: "installation_tx lib d r tk (up_account p) (cs_db st) = Inr ((), db')"
    by (auto simp: register_installation_as_def answered_def tx_defs split: prod.splits sum.splits
        elim!: in_tx_cases)
  from issued have "\<exists>u. token = class_prefix Connector @ u"
    by (auto simp: issued_def issue_token_def Let_def ok_or_Inr_iff split: sum.splits simp del: class_prefix.simps)
  moreover from tk have "\<exists>u. token = class_prefix (token_class tk) @ u"
    by (auto simp: parse_token_iff render_token_def)
  ultimately have cls: "token_class tk = Connector" using class_prefix_append_eq by metis
  from tx show ?thesis
  proof (cases rule: installation_tx_cases)
    case (1 db1 db2)
    note i = insert_rows(5) [OF 1(1)] and c = insert_rows(6) [OF 1(2)]
    from audit_rows [OF 1(3)] obtain e where db': "db' = db2\<lparr>audit_log := audit_log db2 @ [e]\<rparr>" by blast
    have active: "active_installation db' ?k" by (simp add: active_installation_def db' c i)
    have "\<forall>x \<in> set (credentials (cs_db st)). cred_public_id x \<noteq> public_id tk"
      using 1(2) i by (auto simp: insert_credential_def db_insert_cases list_ex_iff)
    then have "find_credential db' (public_id tk) = Some \<lparr>cred_id = uuid_text lib (second_id d),
        cred_installation = ?k, cred_public_id = public_id tk, cred_secret_hash = sha_hex lib (proof_text tk),
        cred_created_at = now d, cred_revoked_at = None\<rparr>"
      using active by (auto simp: find_credential_def db' c i find_append find_None_iff split: option.splits
          dest: find_SomeD)
    with assms(3) tk cls live show ?thesis by (simp add: connector_def lock_def st' s)
  qed
qed

definition desk_installation :: installation_summary where
  "desk_installation = \<lparr>isum_id = 21, isum_local_server = 50, isum_route = replicate 43 (CHR ''z''),
     isum_owner = 1, isum_label = InstallationLabel ''desk'', isum_public_id = ''0101010101010101'',
     isum_state = LinkDisconnected, isum_connected_at = None, isum_created_at = 11, isum_revoked_at = None\<rparr>"

lemma sample_registered:
  "register_installation_as sample_cloud sample_draws \<lparr>ireq_local_server = 50, ireq_label = InstallationLabel ''desk''\<rparr>
       sample_user sample_state
     = (Inr (InstallationRegistered desk_installation
          (''c6x_v1_0101010101010101_'' @ replicate 43 (CHR ''z''))),
        snd (register_installation_as sample_cloud sample_draws
          \<lparr>ireq_local_server = 50, ireq_label = InstallationLabel ''desk''\<rparr> sample_user sample_state))"
  by code_simp

theorem registered_connector_authenticates_witness:
  "connector sample_cloud
      [(''authorization'', ''Bearer '' @ ''c6x_v1_0101010101010101_'' @ replicate 43 (CHR ''z''))]
      (snd (register_installation_as sample_cloud sample_draws
          \<lparr>ireq_local_server = 50, ireq_label = InstallationLabel ''desk''\<rparr> sample_user sample_state))
   = Inr (uuid_text sample_cloud (isum_id desk_installation))"
  by (rule registered_connector_authenticates [OF sample_inv [unfolded cloud_inv_def, THEN conjunct1] sample_registered])
    (simp add: header_get_def, simp add: sample_cloud_def)

end
