(* ===== verification/Connector.thy ===== *)
theory Connector
  imports Cloud_Relay
begin

text \<open>
  The connector, \<^verbatim>\<open>crates/c6-connector/src\<close>: the fixed-upstream proxy (\<open>proxy.rs\<close>), the
  control-frame codec guard (\<open>protocol.rs\<close>), and the session loop with its pending, active and
  cancelled requests and the reconnecting driver (\<open>runtime.rs\<close>).  The URL parser and the HTTP
  client are parameters; a spawned worker is an entry of \<open>spawned\<close>, and its answer arrives as an
  event of its own.
\<close>

section \<open>The proxy to the fixed upstream\<close>

datatype proxy_error = InvalidRequest | Unavailable | ProxyTimeout | ResponseTooLarge

record proxy_request =
  pq_method :: string
  pq_target :: string
  pq_headers :: "header_field list"
  pq_body :: bytes

record url =
  url_text :: string
  url_scheme :: string
  url_host :: "string option"
  url_port :: "nat option"
  url_username :: string
  url_password :: "string option"

record upstream_reply =
  up_status :: u16
  up_content_length :: "nat option"
  up_headers :: "(string \<times> string) list"
  up_body :: "bool + bytes"

text \<open>\<open>Inl t\<close> is a client error, \<open>t\<close> telling whether it was a timeout.\<close>

record network =
  parse_url :: "string \<Rightarrow> url option"
  send_request_to :: "string \<Rightarrow> url \<Rightarrow> (string \<times> string) list \<Rightarrow> bytes \<Rightarrow> bool + upstream_reply"

definition proxy_method :: "string \<Rightarrow> proxy_error + string" where
  "proxy_method value =
     (if value \<in> set [''GET'', ''HEAD'', ''POST'', ''PUT'', ''PATCH'', ''DELETE'', ''OPTIONS'']
      then Inr value else Inl InvalidRequest)"

definition trim_end_slashes :: "string \<Rightarrow> string" where
  "trim_end_slashes s = rev (dropWhile (\<lambda>c. c = CHR ''/'') (rev s))"

definition target_url :: "network \<Rightarrow> url \<Rightarrow> string \<Rightarrow> proxy_error + url" where
  "target_url net origin tgt =
     (if \<not> prefix ''/'' tgt \<or> prefix ''//'' tgt \<or> CHR ''#'' \<in> set tgt
         \<or> list_ex ascii_control tgt
      then Inl InvalidRequest
      else case parse_url net (trim_end_slashes (url_text origin) @ tgt) of
          None \<Rightarrow> Inl InvalidRequest
        | Some u \<Rightarrow>
            if url_scheme u \<noteq> url_scheme origin \<or> url_host u \<noteq> url_host origin
               \<or> url_port u \<noteq> url_port origin \<or> url_username u \<noteq> [] \<or> url_password u \<noteq> None
            then Inl InvalidRequest else Inr u)"

definition blocked_header :: "string \<Rightarrow> bool" where
  "blocked_header name \<longleftrightarrow>
     name \<in> set [''connection'', ''keep-alive'', ''proxy-authenticate'', ''proxy-authorization'',
       ''te'', ''trailer'', ''transfer-encoding'', ''upgrade'', ''host'', ''content-length'',
       ''forwarded'', ''x-forwarded-for'', ''x-forwarded-host'', ''x-forwarded-proto'', ''x-real-ip'',
       ''x-c6-route'', ''x-c6-installation'', ''x-cresix-route'', ''x-cresix-installation'']
     \<or> prefix ''x-c6-relay-'' name"

primrec filter_request_headers ::
  "http_lib \<Rightarrow> header_field list \<Rightarrow> proxy_error + (string \<times> string) list" where
  "filter_request_headers lib [] = Inr []"
| "filter_request_headers lib (f # fs) =
     rbind (ok_or InvalidRequest (header_name_from lib (header_name f))) (\<lambda>name.
       if blocked_header name then filter_request_headers lib fs
       else if \<not> header_value_ok lib (header_value f) then Inl InvalidRequest
       else rbind (filter_request_headers lib fs) (\<lambda>out. Inr ((name, header_value f) # out)))"

definition upstream_headers :: "http_lib \<Rightarrow> (string \<times> string) list \<Rightarrow> header_field list" where
  "upstream_headers lib hs =
     [\<lparr>header_name = fst nv, header_value = v\<rparr>. nv \<leftarrow> hs, \<not> blocked_header (fst nv),
        v \<leftarrow> (case header_value_str lib (snd nv) of Some v \<Rightarrow> [v] | None \<Rightarrow> [])]"

definition classify_reqwest :: "bool \<Rightarrow> proxy_error" where
  "classify_reqwest is_timeout = (if is_timeout then ProxyTimeout else Unavailable)"

definition upstream_execute ::
  "http_lib \<Rightarrow> network \<Rightarrow> url \<Rightarrow> proxy_request \<Rightarrow> proxy_error + proxy_result" where
  "upstream_execute lib net origin rq =
     rbind (proxy_method (pq_method rq)) (\<lambda>method.
     rbind (target_url net origin (pq_target rq)) (\<lambda>u.
     rbind (filter_request_headers lib (pq_headers rq)) (\<lambda>headers.
     rbind (map_err classify_reqwest (send_request_to net method u headers (pq_body rq))) (\<lambda>resp.
     if (case up_content_length resp of Some n \<Rightarrow> max_response_body_bytes < n | None \<Rightarrow> False)
     then Inl ResponseTooLarge
     else rbind (map_err classify_reqwest (up_body resp)) (\<lambda>body.
       if max_response_body_bytes < length body then Inl ResponseTooLarge
       else Inr \<lparr>result_status = up_status resp,
                 result_headers = upstream_headers lib (up_headers resp), result_body = body\<rparr>)))))"

section \<open>The session loop\<close>

datatype runtime_error = AuthenticationRejected | RtProtocol | RtTransport | RtConfiguration

datatype loop_exit = SessionClosed | SessionFailed runtime_error

record pending_request =
  pr_method :: string
  pr_target :: string
  pr_headers :: "header_field list"
  pr_body :: bytes
  pr_deadline :: u64
  pr_rejected :: bool

text \<open>The link of the connector with the maps of \<open>run_session\<close> and the workers it spawned.\<close>

record connector = link +
  pending :: "(uuid \<times> pending_request) list"
  active :: "uuid list"
  cancelled :: "uuid list"
  spawned :: "(uuid \<times> nat \<times> proxy_request) list"

record connector_config =
  max_in_flight :: nat
  request_timeout_ms :: nat

definition conn_errs :: "loop_exit send_errors" where
  "conn_errs = \<lparr>err_rejected = SessionFailed RtProtocol, err_encoding = SessionFailed RtProtocol,
     err_transport = SessionFailed RtTransport\<rparr>"

definition decode_control :: "codec \<Rightarrow> string \<Rightarrow> relay_error + control_frame" where
  "decode_control c text =
     (if 64 * 1024 < length text then Inl HeadersTooLarge
      else ok_or IllegalTransition (from_json c text))"

definition send_failure ::
  "codec \<Rightarrow> uuid \<Rightarrow> relay_failure_code \<Rightarrow> string \<Rightarrow> (connector, loop_exit, unit) io" where
  "send_failure c rid code msg =
     send_control c conn_errs
       (RequestFailed \<lparr>failed_id = rid, failure_code = code, failure_message = msg\<rparr>)"

definition send_response :: "codec \<Rightarrow> uuid \<Rightarrow> proxy_result \<Rightarrow> (connector, loop_exit, unit) io" where
  "send_response c rid r =
     io_then (send_control c conn_errs (ResponseStart (result_start rid r)))
    (io_then (send_chunks conn_errs ResponseChunk rid 0 (chunks max_body_chunk_bytes (result_body r)))
       (send_control c conn_errs (ResponseEnd rid)))"

primrec failure_code_of :: "proxy_error \<Rightarrow> relay_failure_code" where
  "failure_code_of InvalidRequest = Protocol"
| "failure_code_of Unavailable = BadGateway"
| "failure_code_of ResponseTooLarge = BadGateway"
| "failure_code_of ProxyTimeout = Timeout"

definition on_request_start ::
  "connector_config \<Rightarrow> request_start \<Rightarrow> (connector, loop_exit, unit) io" where
  "on_request_start cfg f k =
     (if hget (pending k) (start_id f) \<noteq> None then (Inl (SessionFailed RtProtocol), k)
      else (Inr (), k\<lparr>pending := hput (start_id f)
             \<lparr>pr_method = method_str (start_method f), pr_target = target f,
              pr_headers = start_headers f, pr_body = [], pr_deadline = deadline_unix_ms f,
              pr_rejected = max_in_flight cfg \<le> length (pending k) + length (active k)\<rparr> (pending k)\<rparr>))"

definition on_request_end ::
  "codec \<Rightarrow> connector_config \<Rightarrow> u64 \<Rightarrow> uuid \<Rightarrow> (connector, loop_exit, unit) io" where
  "on_request_end c cfg now rid k =
     (if rid \<in> set (cancelled k) then (Inr (), k\<lparr>cancelled := removeAll rid (cancelled k)\<rparr>)
      else case hget (pending k) rid of
          None \<Rightarrow> (Inl (SessionFailed RtProtocol), k)
        | Some rq \<Rightarrow>
            (let k' = k\<lparr>pending := hdel rid (pending k)\<rparr> in
             if pr_rejected rq
             then send_failure c rid BadGateway ''connector concurrency limit reached'' k'
             else if unat (pr_deadline rq) \<le> unat now
             then send_failure c rid Timeout ''request deadline expired'' k'
             else (Inr (), k'\<lparr>active := List.insert rid (active k'),
                     spawned := spawned k' @ [(rid,
                        min (unat (pr_deadline rq) - unat now) (request_timeout_ms cfg),
                        \<lparr>pq_method = pr_method rq, pq_target = pr_target rq,
                         pq_headers = pr_headers rq, pq_body = pr_body rq\<rparr>)]\<rparr>)))"

definition on_cancel :: "uuid \<Rightarrow> (connector, loop_exit, unit) io" where
  "on_cancel rid k =
     (let k' = k\<lparr>pending := hdel rid (pending k)\<rparr> in
      if hget (pending k) rid = None \<and> rid \<in> set (active k)
      then (Inr (), k'\<lparr>cancelled := List.insert rid (cancelled k)\<rparr>) else (Inr (), k'))"

definition on_text ::
  "codec \<Rightarrow> connector_config \<Rightarrow> u64 \<Rightarrow> string \<Rightarrow> (connector, loop_exit, unit) io" where
  "on_text c cfg now text k =
     (case decode_control c text of
        Inl _ \<Rightarrow> (Inl (SessionFailed RtProtocol), k)
      | Inr frame \<Rightarrow>
          (case observe_control (protocol k) frame of
             (Inl _, p) \<Rightarrow> (Inl (SessionFailed RtProtocol), k\<lparr>protocol := p\<rparr>)
           | (Inr _, p) \<Rightarrow>
               (let k' = k\<lparr>protocol := p\<rparr> in
                case frame of
                  RequestStart f \<Rightarrow> on_request_start cfg f k'
                | RequestEnd rid \<Rightarrow> on_request_end c cfg now rid k'
                | Cancel rid \<Rightarrow> on_cancel rid k'
                | Ping n \<Rightarrow> send_control c conn_errs (Pong n) k'
                | Pong n \<Rightarrow> (Inr (), k')
                | _ \<Rightarrow> (Inl (SessionFailed RtProtocol), k'))))"

definition on_binary :: "bytes \<Rightarrow> (connector, loop_exit, unit) io" where
  "on_binary bs k =
     (case body_decode bs of
        Inl _ \<Rightarrow> (Inl (SessionFailed RtProtocol), k)
      | Inr f \<Rightarrow>
          (case observe_body (protocol k) f of
             (Inl _, p) \<Rightarrow> (Inl (SessionFailed RtProtocol), k\<lparr>protocol := p\<rparr>)
           | (Inr _, p) \<Rightarrow>
               (let k' = k\<lparr>protocol := p\<rparr> in
                if body_kind f \<noteq> RequestChunk then (Inl (SessionFailed RtProtocol), k')
                else case hget (pending k) (body_id f) of
                    None \<Rightarrow> (Inl (SessionFailed RtProtocol), k')
                  | Some rq \<Rightarrow> (Inr (), k'\<lparr>pending := hput (body_id f)
                       (rq\<lparr>pr_body := pr_body rq @ payload f\<rparr>) (pending k)\<rparr>))))"

text \<open>What the \<open>select!\<close> of the loop hands to a turn, with the clock's reading.\<close>

datatype conn_event =
    Incoming u64 "(unit + ws_message) option"
  | Finished uuid "proxy_error + proxy_result"

definition on_finished ::
  "codec \<Rightarrow> uuid \<Rightarrow> proxy_error + proxy_result \<Rightarrow> (connector, loop_exit, unit) io" where
  "on_finished c rid r k =
     (let k' = k\<lparr>active := removeAll rid (active k)\<rparr> in
      if rid \<in> set (cancelled k) then (Inr (), k'\<lparr>cancelled := removeAll rid (cancelled k)\<rparr>)
      else case r of
          Inr resp \<Rightarrow> send_response c rid resp k'
        | Inl e \<Rightarrow> send_failure c rid (failure_code_of e) ''local C6 request failed'' k')"

definition conn_step ::
  "codec \<Rightarrow> connector_config \<Rightarrow> conn_event \<Rightarrow> (connector, loop_exit, unit) io" where
  "conn_step c cfg ev =
     (case ev of
        Incoming now None \<Rightarrow> io_fail (SessionFailed RtTransport)
      | Incoming now (Some (Inl _)) \<Rightarrow> io_fail (SessionFailed RtTransport)
      | Incoming now (Some (Inr m)) \<Rightarrow>
          (case m of
             WsText text \<Rightarrow> on_text c cfg now text
           | WsBinary bs \<Rightarrow> on_binary bs
           | WsPing bs \<Rightarrow> ws_send (SessionFailed RtTransport) (WsPong bs)
           | WsPong _ \<Rightarrow> io_return ()
           | WsClose \<Rightarrow> io_fail SessionClosed)
      | Finished rid r \<Rightarrow> on_finished c rid r)"

text \<open>
  The handshake at the start of \<open>run_session\<close>: send the hello, take one message, which must be
  the \<open>ServerReady\<close> of the configured installation.
\<close>

definition session_handshake ::
  "codec \<Rightarrow> string \<Rightarrow> uuid \<Rightarrow> (connector, loop_exit, unit) io" where
  "session_handshake c tok inst =
     io_then (send_control c conn_errs
         (ClientHello \<lparr>protocol_version = relay_protocol_version, connector_token = tok\<rparr>))
       (\<lambda>k. case inbox k of
           [] \<Rightarrow> (Inl (SessionFailed RtTransport), k)
         | Inl _ # ms \<Rightarrow> (Inl (SessionFailed RtTransport), k\<lparr>inbox := ms\<rparr>)
         | Inr (WsText text) # ms \<Rightarrow>
             (case decode_control c text of
                Inl _ \<Rightarrow> (Inl (SessionFailed RtProtocol), k\<lparr>inbox := ms\<rparr>)
              | Inr frame \<Rightarrow>
                  (case observe_control (protocol k) frame of
                     (Inl _, p) \<Rightarrow> (Inl (SessionFailed RtProtocol), k\<lparr>inbox := ms, protocol := p\<rparr>)
                   | (Inr _, p) \<Rightarrow>
                       (let k' = k\<lparr>inbox := ms, protocol := p\<rparr> in
                        case frame of
                          ServerReady ready \<Rightarrow>
                            if installation_id ready \<noteq> inst then (Inl (SessionFailed RtProtocol), k')
                            else (Inr (), k'\<lparr>pending := [], active := [], cancelled := [], spawned := []\<rparr>)
                        | _ \<Rightarrow> (Inl (SessionFailed RtProtocol), k'))))
         | _ # ms \<Rightarrow> (Inl (SessionFailed RtProtocol), k\<lparr>inbox := ms\<rparr>))"

section \<open>Reconnecting\<close>

definition max_reconnect_delay :: nat where
  "max_reconnect_delay = 60 * 1000"

text \<open>
  \<open>run_reconnecting\<close> over the outcomes of its sessions: the sleeps in milliseconds (\<open>jitter\<close> is
  the random draw from \<open>0..=upper / 4\<close>) and the error it returns, if it does.
\<close>

primrec run_reconnecting ::
  "nat \<Rightarrow> (nat \<Rightarrow> nat \<Rightarrow> nat) \<Rightarrow> nat \<Rightarrow> loop_exit list \<Rightarrow> nat list \<times> runtime_error option" where
  "run_reconnecting delay jitter i [] = ([], None)"
| "run_reconnecting delay jitter i (out # outs) =
     (if out = SessionClosed \<or> out = SessionFailed RtTransport
      then let upper = max delay 1;
               pause = delay + jitter i (upper div 4);
               (ps, res) = run_reconnecting (min (delay * 2) max_reconnect_delay) jitter (Suc i) outs
           in (pause # ps, res)
      else case out of SessionFailed e \<Rightarrow> ([], Some e) | SessionClosed \<Rightarrow> ([], None))"

section \<open>The proxy never leaves its origin\<close>

definition on_origin :: "url \<Rightarrow> url \<Rightarrow> bool" where
  "on_origin origin u \<longleftrightarrow> url_scheme u = url_scheme origin \<and> url_host u = url_host origin
     \<and> url_port u = url_port origin \<and> url_username u = [] \<and> url_password u = None"

lemma target_url_on_origin: "target_url net origin t = Inr u \<Longrightarrow> on_origin origin u"
  by (auto simp: target_url_def on_origin_def split: if_splits option.splits)

lemma target_url_cong: "parse_url net = parse_url net' \<Longrightarrow> target_url net = target_url net'"
  by (simp add: target_url_def fun_eq_iff)

lemma filter_request_headers_clean:
  "filter_request_headers lib fs = Inr hs \<Longrightarrow> list_all (\<lambda>h. \<not> blocked_header (fst h)) hs"
  by (induction fs arbitrary: hs) (auto simp: result_simps split: if_splits)

text \<open>
  The connector calls nothing but its fixed upstream: what a relayed request does and
  answers depends only on the client's behaviour for URLs of the configured scheme, host and port
  without user information, for the seven allowed methods and with no routing, forwarding or
  hop-by-hop header.  Any two networks that agree there are indistinguishable to it.
\<close>

theorem proxy_only_calls_origin:
  assumes "parse_url net = parse_url net'"
    and "\<And>m u hs b. on_origin origin u \<Longrightarrow> m \<in> set relay_methods
       \<Longrightarrow> list_all (\<lambda>h. \<not> blocked_header (fst h)) hs
       \<Longrightarrow> send_request_to net m u hs b = send_request_to net' m u hs b"
  shows "upstream_execute lib net origin rq = upstream_execute lib net' origin rq"
proof (cases "proxy_method (pq_method rq)")
  case (Inl e)
  then show ?thesis by (simp add: upstream_execute_def)
next
  case (Inr m)
  then have m: "m \<in> set relay_methods"
    by (auto simp: proxy_method_def relay_methods_def split: if_splits)
  show ?thesis
  proof (cases "target_url net' origin (pq_target rq)")
    case (Inl e)
    then show ?thesis by (simp add: upstream_execute_def target_url_cong [OF assms(1)])
  next
    case (Inr u)
    show ?thesis
    proof (cases "filter_request_headers lib (pq_headers rq)")
      case (Inl e)
      then show ?thesis by (simp add: upstream_execute_def target_url_cong [OF assms(1)])
    next
      case (Inr hs)
      have "send_request_to net m u hs (pq_body rq) = send_request_to net' m u hs (pq_body rq)"
        using assms(2) target_url_on_origin [OF \<open>target_url net' origin (pq_target rq) = Inr u\<close>] m
          filter_request_headers_clean [OF Inr] by blast
      then show ?thesis
        using Inr \<open>proxy_method (pq_method rq) = Inr m\<close> \<open>target_url net' origin (pq_target rq) = Inr u\<close>
        by (simp add: upstream_execute_def target_url_cong [OF assms(1)])
    qed
  qed
qed

definition local_origin :: url where
  "local_origin = \<lparr>url_text = ''http://127.0.0.1:8787/'', url_scheme = ''http'', url_host = Some ''127.0.0.1'',
     url_port = Some 8787, url_username = [], url_password = None\<rparr>"

text \<open>A network that answers everywhere, and the one in which only the origin answers.\<close>

definition open_network :: network where
  "open_network = \<lparr>parse_url = (\<lambda>s. if prefix ''http://127.0.0.1:8787/'' s
       then Some (local_origin\<lparr>url_text := s\<rparr>) else None),
     send_request_to = (\<lambda>m u hs b. Inr \<lparr>up_status = 200, up_content_length = None, up_headers = [], up_body = Inr []\<rparr>)\<rparr>"

definition closed_network :: network where
  "closed_network = open_network\<lparr>send_request_to := (\<lambda>m u hs b.
     if on_origin local_origin u then send_request_to open_network m u hs b else Inl False)\<rparr>"

theorem proxy_only_calls_origin_witness:
  "upstream_execute ascii_http open_network local_origin
      \<lparr>pq_method = ''GET'', pq_target = ''/api'', pq_headers = [], pq_body = []\<rparr>
   = upstream_execute ascii_http closed_network local_origin
      \<lparr>pq_method = ''GET'', pq_target = ''/api'', pq_headers = [], pq_body = []\<rparr>"
  by (rule proxy_only_calls_origin) (simp_all add: closed_network_def)

section \<open>Accepted frames\<close>

lemma accepted_start:
  "observe_control s (RequestStart f) = (Inr u, p) \<Longrightarrow>
     handshake s = Ready \<and> start_id f \<notin> set (seen_request_ids s) \<and> request_start_validate f = Inr ()
     \<and> p = s\<lparr>seen_request_ids := start_id f # seen_request_ids s,
             flows := hput (start_id f) (RequestBody 0 0) (flows s)\<rparr>"
  by (auto simp: observe_control_def observe_request_start_def split: if_splits sum.splits)

lemma accepted_end:
  "observe_control s (RequestEnd rid) = (Inr u, p) \<Longrightarrow>
     handshake s = Ready \<and> (\<exists>n b. hget (flows s) rid = Some (RequestBody n b))
     \<and> p = s\<lparr>flows := hput rid AwaitingResponse (flows s)\<rparr>"
  by (auto simp: observe_control_def observe_request_end_def split: if_splits option.splits flow_state.splits)

lemma accepted_cancel:
  "observe_control s (Cancel rid) = (Inr u, p) \<Longrightarrow>
     handshake s = Ready \<and> hget (flows s) rid \<noteq> None \<and> p = s\<lparr>flows := hdel rid (flows s)\<rparr>"
  by (auto simp: observe_control_def observe_cancel_def split: if_splits option.splits)

lemma accepted_failed:
  "observe_control s (RequestFailed f) = (Inr u, p) \<Longrightarrow>
     handshake s = Ready \<and> hget (flows s) (failed_id f) \<noteq> None
     \<and> p = s\<lparr>flows := hdel (failed_id f) (flows s)\<rparr>"
  by (auto simp: observe_control_def observe_request_failed_def observe_cancel_def
      split: if_splits option.splits)

lemma accepted_response_start:
  "observe_control s (ResponseStart f) = (Inr u, p) \<Longrightarrow>
     handshake s = Ready \<and> hget (flows s) (response_id f) = Some AwaitingResponse
     \<and> p = s\<lparr>flows := hput (response_id f) (ResponseBody 0 0) (flows s)\<rparr>"
  by (auto simp: observe_control_def observe_response_start_def split: if_splits option.splits sum.splits)

lemma accepted_response_end:
  "observe_control s (ResponseEnd rid) = (Inr u, p) \<Longrightarrow>
     handshake s = Ready \<and> p = s\<lparr>flows := hdel rid (flows s)\<rparr>"
  by (auto simp: observe_control_def observe_response_end_def
      split: if_splits option.splits flow_state.splits)

lemma accepted_ping:
  "observe_control s (Ping n) = (Inr u, p) \<Longrightarrow> p = s"
  "observe_control s (Pong n) = (Inr u, p) \<Longrightarrow> p = s"
  by (auto simp: observe_control_def split: if_splits)

lemma accepted_chunk:
  assumes "observe_body s f = (Inr u, p)"
  shows "handshake s = Ready
    \<and> (body_kind f = RequestChunk \<longrightarrow> (\<exists>n m b. hget (flows s) (body_id f) = Some (RequestBody n b)
         \<and> p = s\<lparr>flows := hput (body_id f) (RequestBody m (b + length (payload f))) (flows s)\<rparr>))
    \<and> (body_kind f = ResponseChunk \<longrightarrow> (\<exists>n m b. hget (flows s) (body_id f) = Some (ResponseBody n b)
         \<and> p = s\<lparr>flows := hput (body_id f) (ResponseBody m (b + length (payload f))) (flows s)\<rparr>))"
  using assms account_chunk_refines [OF _ limits_small(1)] account_chunk_refines [OF _ limits_small(2)]
  by (fastforce simp: observe_body_def split: if_splits option.splits flow_state.splits body_kind.splits)

lemma send_control_Inr:
  assumes "send_control c errs f l = (Inr u, l')"
  obtains p t where "observe_control (protocol l) f = (Inr (), p)" "to_json c f = Some t"
    "l' = l\<lparr>sent := sent l @ [WsText t], budget := budget l - 1, protocol := p\<rparr>"
  using assms by (auto simp: send_control_def ws_send_def split: prod.splits sum.splits option.splits if_splits)

section \<open>The bookkeeping of the loop\<close>

definition live_pending :: "(uuid \<times> pending_request) list \<Rightarrow> nat" where
  "live_pending m = length (filter (\<lambda>e. \<not> pr_rejected (snd e)) m)"

text \<open>How the three maps must agree with the validator's flow of one identifier.\<close>

fun request_ok :: "flow_state option \<Rightarrow> pending_request option \<Rightarrow> bool \<Rightarrow> bool \<Rightarrow> bool" where
  "request_ok None pr act can = (pr = None \<and> (act \<longrightarrow> can))"
| "request_ok (Some (RequestBody n b)) pr act can =
     ((case pr of Some rq \<Rightarrow> length (pr_body rq) = b | None \<Rightarrow> False) \<and> \<not> act)"
| "request_ok (Some AwaitingResponse) pr act can = (pr = None \<and> act \<and> \<not> can)"
| "request_ok (Some (ResponseBody n b)) pr act can = False"

definition conn_ok :: "connector_config \<Rightarrow> connector \<Rightarrow> bool" where
  "conn_ok cfg k \<longleftrightarrow> session_ok (protocol k) \<and> handshake (protocol k) = Ready
     \<and> hmap_ok (pending k) \<and> distinct (active k) \<and> distinct (cancelled k)
     \<and> set (cancelled k) \<subseteq> set (active k) \<and> set (active k) \<subseteq> set (seen_request_ids (protocol k))
     \<and> live_pending (pending k) + length (active k) \<le> max_in_flight cfg
     \<and> (\<forall>rid. request_ok (hget (flows (protocol k)) rid) (hget (pending k) rid)
               (rid \<in> set (active k)) (rid \<in> set (cancelled k)))"

lemma conn_okD:
  assumes "conn_ok cfg k"
  shows "request_ok (hget (flows (protocol k)) rid) (hget (pending k) rid)
               (rid \<in> set (active k)) (rid \<in> set (cancelled k))"
  using assms by (simp add: conn_ok_def)

lemma live_put_fresh:
  "hget m rid = None \<Longrightarrow> live_pending (hput rid rq m) = live_pending m + (if pr_rejected rq then 0 else 1)"
  by (induction m) (auto simp: live_pending_def split: if_splits)

lemma live_put_same:
  "hget m rid = Some rq \<Longrightarrow> pr_rejected rq' = pr_rejected rq \<Longrightarrow> live_pending (hput rid rq' m) = live_pending m"
  by (induction m) (auto simp: live_pending_def split: if_splits)

lemma live_del_le: "live_pending (hdel rid m) \<le> live_pending m"
  by (induction m) (auto simp: live_pending_def AList.delete_eq)

lemma live_del_live:
  "hget m rid = Some rq \<Longrightarrow> \<not> pr_rejected rq \<Longrightarrow> live_pending (hdel rid m) < live_pending m"
proof (induction m)
  case Nil
  then show ?case by simp
next
  case (Cons e m)
  show ?case
  proof (cases "fst e = rid")
    case True
    with Cons.prems live_del_le [of rid m] show ?thesis
      by (cases e) (simp add: live_pending_def)
  next
    case False
    with Cons show ?thesis by (cases e) (simp add: live_pending_def)
  qed
qed

lemma live_pending_le: "live_pending m \<le> length m"
  by (simp add: live_pending_def)

lemma removeAll_distinct_length:
  "distinct xs \<Longrightarrow> length (removeAll x xs) = (if x \<in> set xs then length xs - 1 else length xs)"
  by (simp add: distinct_remove1_removeAll [symmetric] length_remove1)

text \<open>Closing the flow of a request that is in neither map any more.\<close>

lemma conn_ok_close:
  assumes "conn_ok cfg k"
  shows "conn_ok cfg (k\<lparr>sent := ms, budget := n,
     protocol := (protocol k)\<lparr>flows := hdel rid (flows (protocol k))\<rparr>,
     pending := hdel rid (pending k), active := removeAll rid (active k),
     cancelled := removeAll rid (cancelled k)\<rparr>)"
proof -
  have "live_pending (pending k) + length (active k) \<le> max_in_flight cfg"
    using assms by (simp add: conn_ok_def)
  then have "live_pending (hdel rid (pending k)) + length (removeAll rid (active k)) \<le> max_in_flight cfg"
    using live_del_le [of rid "pending k"] length_removeAll_less_eq [of rid "active k"] by linarith
  moreover have "distinct (removeAll rid (active k))" "distinct (removeAll rid (cancelled k))"
    using assms by (simp_all add: conn_ok_def distinct_removeAll)
  ultimately show ?thesis
    using assms by (auto simp: conn_ok_def hmap_simps intro: session_ok_del)
qed

lemma hdel_fresh: "hget m rid = None \<Longrightarrow> hdel rid m = m"
  by (induction m) (auto split: if_splits)

lemma conn_start_ok:
  assumes "conn_ok cfg k" and "observe_control (protocol k) (RequestStart f) = (Inr (), p)"
    and "on_request_start cfg f (k\<lparr>protocol := p\<rparr>) = (Inr (), k')"
  shows "conn_ok cfg k'"
proof -
  note acc = accepted_start [OF assms(2)]
  have sok: "session_ok p" using observe_control_ok [of "protocol k" "RequestStart f"] assms(1,2) by (simp add: conn_ok_def)
  let ?rid = "start_id f"
  have fresh: "?rid \<notin> set (active k)" "?rid \<notin> set (cancelled k)"
    using acc assms(1) by (auto simp: conn_ok_def)
  have none: "hget (pending k) ?rid = None"
    using assms(3) by (auto simp: on_request_start_def split: if_splits)
  let ?rq = "\<lparr>pr_method = method_str (start_method f), pr_target = target f,
              pr_headers = start_headers f, pr_body = [], pr_deadline = deadline_unix_ms f,
              pr_rejected = max_in_flight cfg \<le> length (pending k) + length (active k)\<rparr>"
  have k': "k' = k\<lparr>protocol := p, pending := hput ?rid ?rq (pending k)\<rparr>"
    using assms(3) none by (simp add: on_request_start_def)
  have "live_pending (hput ?rid ?rq (pending k)) + length (active k) \<le> max_in_flight cfg"
    using live_put_fresh [OF none, of ?rq] assms(1) live_pending_le [of "pending k"]
    by (auto simp: conn_ok_def)
  then show ?thesis
    using assms(1) acc sok fresh unfolding k' by (auto simp: conn_ok_def hmap_simps)
qed

lemma send_failure_ok:
  assumes "send_failure c rid code msg k = (Inr (), k')" and "conn_ok cfg k0"
    and "k = k0\<lparr>protocol := (protocol k0)\<lparr>flows := fl\<rparr>, pending := hdel rid (pending k0),
            active := removeAll rid (active k0)\<rparr>"
    and "hdel rid fl = hdel rid (flows (protocol k0))" and "rid \<notin> set (cancelled k0)"
  shows "conn_ok cfg k'"
proof -
  obtain p t where p: "observe_control (protocol k) (RequestFailed \<lparr>failed_id = rid, failure_code = code, failure_message = msg\<rparr>) = (Inr (), p)"
    and k': "k' = k\<lparr>sent := sent k @ [WsText t], budget := budget k - 1, protocol := p\<rparr>"
    using assms(1) unfolding send_failure_def by (rule send_control_Inr)
  have "p = (protocol k0)\<lparr>flows := hdel rid (flows (protocol k0))\<rparr>"
    using accepted_failed [OF p] assms(3,4) by simp
  moreover have "removeAll rid (cancelled k0) = cancelled k0" using assms(5) by simp
  ultimately have "k' = k0\<lparr>sent := sent k0 @ [WsText t], budget := budget k0 - 1,
     protocol := (protocol k0)\<lparr>flows := hdel rid (flows (protocol k0))\<rparr>,
     pending := hdel rid (pending k0), active := removeAll rid (active k0),
     cancelled := removeAll rid (cancelled k0)\<rparr>"
    using k' assms(3) by (cases k0) simp
  with conn_ok_close [OF assms(2)] show ?thesis by simp
qed

lemma conn_end_ok:
  assumes ok: "conn_ok cfg k" and obs: "observe_control (protocol k) (RequestEnd rid) = (Inr (), p)"
    and step: "on_request_end c cfg now rid (k\<lparr>protocol := p\<rparr>) = (Inr (), k')"
  shows "conn_ok cfg k'"
proof -
  obtain n b where fl: "hget (flows (protocol k)) rid = Some (RequestBody n b)"
    and p: "p = (protocol k)\<lparr>flows := hput rid AwaitingResponse (flows (protocol k))\<rparr>"
    using accepted_end [OF obs] by blast
  have sok: "session_ok p" using observe_control_ok [of "protocol k" "RequestEnd rid"] ok obs by (simp add: conn_ok_def)
  obtain rq where rq: "hget (pending k) rid = Some rq" and act: "rid \<notin> set (active k)"
    using conn_okD [OF ok, of rid] fl by (auto split: option.splits)
  have can: "rid \<notin> set (cancelled k)" using act ok by (auto simp: conn_ok_def)
  let ?k1 = "k\<lparr>protocol := p, pending := hdel rid (pending k)\<rparr>"
  have k1: "?k1 = k\<lparr>protocol := (protocol k)\<lparr>flows := hput rid AwaitingResponse (flows (protocol k))\<rparr>,
      pending := hdel rid (pending k), active := removeAll rid (active k)\<rparr>"
    using act p by (cases k) simp
  consider code msg where "send_failure c rid code msg ?k1 = (Inr (), k')"
    | rest where "k' = ?k1\<lparr>active := List.insert rid (active k), spawned := rest\<rparr>" "\<not> pr_rejected rq"
    using step rq can by (auto simp: on_request_end_def Let_def split: if_splits)
  then show ?thesis
  proof cases
    case 1
    show ?thesis
      by (rule send_failure_ok [OF 1 ok k1]) (simp_all add: can AList.delete_update_same)
  next
    case 2
    have seen: "rid \<in> set (seen_request_ids (protocol k))"
      using session_ok_flow_seen [OF _ fl] ok by (simp add: conn_ok_def)
    have "live_pending (hdel rid (pending k)) + length (List.insert rid (active k)) \<le> max_in_flight cfg"
      using live_del_live [OF rq 2(2)] act ok by (simp add: conn_ok_def)
    then show ?thesis
      using ok sok seen act can unfolding 2(1) p by (auto simp: conn_ok_def hmap_simps)
  qed
qed

lemma conn_cancel_ok:
  assumes ok: "conn_ok cfg k" and obs: "observe_control (protocol k) (Cancel rid) = (Inr (), p)"
    and step: "on_cancel rid (k\<lparr>protocol := p\<rparr>) = (Inr (), k')"
  shows "conn_ok cfg k'"
proof -
  have p: "p = (protocol k)\<lparr>flows := hdel rid (flows (protocol k))\<rparr>" and fl: "hget (flows (protocol k)) rid \<noteq> None"
    using accepted_cancel [OF obs] by auto
  have sok: "session_ok p" using observe_control_ok [of "protocol k" "Cancel rid"] ok obs by (simp add: conn_ok_def)
  have live: "live_pending (hdel rid (pending k)) + length (active k) \<le> max_in_flight cfg"
    using ok live_del_le [of rid "pending k"] by (simp add: conn_ok_def)
  obtain fs where fs: "hget (flows (protocol k)) rid = Some fs" using fl by blast
  show ?thesis
  proof (cases "hget (pending k) rid = None \<and> rid \<in> set (active k)")
    case True
    then have "k' = k\<lparr>protocol := p, pending := hdel rid (pending k), cancelled := List.insert rid (cancelled k)\<rparr>"
      using step by (simp add: on_cancel_def Let_def)
    with True ok sok live p show ?thesis by (auto simp: conn_ok_def hmap_simps)
  next
    case False
    then have k': "k' = k\<lparr>protocol := p, pending := hdel rid (pending k)\<rparr>"
      using step by (auto simp: on_cancel_def Let_def split: if_splits)
    have "rid \<notin> set (active k)"
      using False conn_okD [OF ok, of rid] fs by (cases fs) auto
    with ok sok live p show ?thesis unfolding k' by (auto simp: conn_ok_def hmap_simps)
  qed
qed

lemma conn_binary_ok:
  assumes ok: "conn_ok cfg k" and step: "on_binary bs k = (Inr (), k')"
  shows "conn_ok cfg k'"
proof -
  obtain f p rq where obs: "observe_body (protocol k) f = (Inr (), p)" and kind: "body_kind f = RequestChunk"
    and rq: "hget (pending k) (body_id f) = Some rq"
    and k': "k' = k\<lparr>protocol := p, pending := hput (body_id f) (rq\<lparr>pr_body := pr_body rq @ payload f\<rparr>) (pending k)\<rparr>"
    using step by (auto simp: on_binary_def Let_def split: sum.splits prod.splits if_splits option.splits)
  obtain n m b where fl: "hget (flows (protocol k)) (body_id f) = Some (RequestBody n b)"
    and p: "p = (protocol k)\<lparr>flows := hput (body_id f) (RequestBody m (b + length (payload f))) (flows (protocol k))\<rparr>"
    using accepted_chunk [OF obs] kind by blast
  have sok: "session_ok p" using observe_body_ok [of "protocol k" f] ok obs by (simp add: conn_ok_def)
  have here: "length (pr_body rq) = b" "body_id f \<notin> set (active k)"
    using conn_okD [OF ok, of "body_id f"] fl rq by auto
  have "live_pending (hput (body_id f) (rq\<lparr>pr_body := pr_body rq @ payload f\<rparr>) (pending k)) = live_pending (pending k)"
    by (rule live_put_same [OF rq]) simp
  with ok sok here show ?thesis unfolding k' p by (auto simp: conn_ok_def hmap_simps)
qed

lemma send_chunks_Inr:
  "send_chunks errs ResponseChunk rid n xs l = (Inr u, l') \<Longrightarrow>
   \<exists>ms bud fl. l' = l\<lparr>sent := ms, budget := bud, protocol := (protocol l)\<lparr>flows := fl\<rparr>\<rparr>
      \<and> hdel rid fl = hdel rid (flows (protocol l))"
proof (induction xs arbitrary: n l)
  case Nil
  then show ?case
    by (intro exI [of _ "sent l"] exI [of _ "budget l"] exI [of _ "flows (protocol l)"])
       (simp add: io_return_def)
next
  case (Cons x xs)
  obtain l1 where one: "send_chunk errs ResponseChunk rid n x l = (Inr (), l1)"
    and rest: "send_chunks errs ResponseChunk rid (Suc n) xs l1 = (Inr u, l')"
    using Cons.prems by (auto simp: io_bind_def split: prod.splits sum.splits)
  let ?f = "chunk_frame ResponseChunk rid n x"
  obtain p ms bud where obs: "observe_body (protocol l) ?f = (Inr (), p)"
    and l1: "l1 = l\<lparr>protocol := p, sent := ms, budget := bud\<rparr>"
    using one by (auto simp: send_chunk_def chunk_frame_def ws_send_def Let_def
        split: prod.splits sum.splits if_splits)
  obtain fs where p: "p = (protocol l)\<lparr>flows := hput rid fs (flows (protocol l))\<rparr>"
    using accepted_chunk [OF obs] by (auto simp: chunk_frame_def)
  obtain ms' bud' fl where l': "l' = l1\<lparr>sent := ms', budget := bud', protocol := (protocol l1)\<lparr>flows := fl\<rparr>\<rparr>"
    and fl: "hdel rid fl = hdel rid (flows (protocol l1))"
    using Cons.IH [OF rest] by blast
  show ?case
    by (intro exI [of _ ms'] exI [of _ bud'] exI [of _ fl])
       (use fl l' in \<open>simp add: l1 p AList.delete_update_same\<close>)
qed

lemma send_response_ok:
  assumes ok: "conn_ok cfg k0" and can: "rid \<notin> set (cancelled k0)"
    and send: "send_response c rid r (k0\<lparr>active := removeAll rid (active k0)\<rparr>) = (Inr (), k')"
  shows "conn_ok cfg k'"
proof -
  let ?k = "k0\<lparr>active := removeAll rid (active k0)\<rparr>"
  obtain k1 k2 where s1: "send_control c conn_errs (ResponseStart (result_start rid r)) ?k = (Inr (), k1)"
    and s2: "send_chunks conn_errs ResponseChunk rid 0 (chunks max_body_chunk_bytes (result_body r)) k1 = (Inr (), k2)"
    and s3: "send_control c conn_errs (ResponseEnd rid) k2 = (Inr (), k')"
    using send by (auto simp: send_response_def io_bind_def split: prod.splits sum.splits)
  obtain p1 t1 where obs1: "observe_control (protocol ?k) (ResponseStart (result_start rid r)) = (Inr (), p1)"
    and k1: "k1 = ?k\<lparr>sent := sent ?k @ [WsText t1], budget := budget ?k - 1, protocol := p1\<rparr>"
    using s1 by (rule send_control_Inr)
  have p1: "p1 = (protocol k0)\<lparr>flows := hput rid (ResponseBody 0 0) (flows (protocol k0))\<rparr>"
    and fl1: "hget (flows (protocol k0)) rid = Some AwaitingResponse"
    using accepted_response_start [OF obs1] by (simp_all add: result_start_def)
  obtain ms bud fl where k2: "k2 = k1\<lparr>sent := ms, budget := bud, protocol := (protocol k1)\<lparr>flows := fl\<rparr>\<rparr>"
    and fl: "hdel rid fl = hdel rid (flows (protocol k1))"
    using send_chunks_Inr [OF s2] by blast
  obtain p3 t3 where obs3: "observe_control (protocol k2) (ResponseEnd rid) = (Inr (), p3)"
    and k3: "k' = k2\<lparr>sent := sent k2 @ [WsText t3], budget := budget k2 - 1, protocol := p3\<rparr>"
    using s3 by (rule send_control_Inr)
  have p3: "p3 = (protocol k0)\<lparr>flows := hdel rid (flows (protocol k0))\<rparr>"
    using accepted_response_end [OF obs3] fl by (simp add: k2 k1 p1 AList.delete_update_same)
  have none: "hget (pending k0) rid = None"
    using conn_okD [OF ok, of rid] fl1 by simp
  have "k' = k0\<lparr>sent := sent k2 @ [WsText t3], budget := budget k2 - 1,
     protocol := (protocol k0)\<lparr>flows := hdel rid (flows (protocol k0))\<rparr>,
     pending := hdel rid (pending k0), active := removeAll rid (active k0),
     cancelled := removeAll rid (cancelled k0)\<rparr>"
    using can hdel_fresh [OF none] unfolding k3 k2 k1 p3 by (cases k0) simp
  with conn_ok_close [OF ok] show ?thesis by simp
qed

lemma conn_finished_ok:
  assumes ok: "conn_ok cfg k" and act: "rid \<in> set (active k)"
    and step: "on_finished c rid r k = (Inr (), k')"
  shows "conn_ok cfg k'"
proof (cases "rid \<in> set (cancelled k)")
  case True
  then have k': "k' = k\<lparr>active := removeAll rid (active k), cancelled := removeAll rid (cancelled k)\<rparr>"
    using step by (simp add: on_finished_def Let_def)
  have fl: "hget (flows (protocol k)) rid = None" and pe: "hget (pending k) rid = None"
    using conn_okD [OF ok, of rid] True act
    by (cases "hget (flows (protocol k)) rid"; cases "the (hget (flows (protocol k)) rid)"; auto)+
  have "k' = k\<lparr>sent := sent k, budget := budget k,
     protocol := (protocol k)\<lparr>flows := hdel rid (flows (protocol k))\<rparr>,
     pending := hdel rid (pending k), active := removeAll rid (active k),
     cancelled := removeAll rid (cancelled k)\<rparr>"
    unfolding k' hdel_fresh [OF fl] hdel_fresh [OF pe] by (cases k) simp
  with conn_ok_close [OF ok, where ms = "sent k" and n = "budget k" and rid = rid]
  show ?thesis by simp
next
  case False
  show ?thesis
  proof (cases r)
    case (Inr resp)
    with False step have "send_response c rid resp (k\<lparr>active := removeAll rid (active k)\<rparr>) = (Inr (), k')"
      by (simp add: on_finished_def Let_def)
    then show ?thesis by (rule send_response_ok [OF ok False])
  next
    case (Inl e)
    with False step have send: "send_failure c rid (failure_code_of e) ''local C6 request failed''
        (k\<lparr>active := removeAll rid (active k)\<rparr>) = (Inr (), k')"
      by (simp add: on_finished_def Let_def)
    then obtain p t where "observe_control (protocol k) (RequestFailed \<lparr>failed_id = rid,
          failure_code = failure_code_of e, failure_message = ''local C6 request failed''\<rparr>) = (Inr (), p)"
      unfolding send_failure_def by (auto elim!: send_control_Inr)
    from accepted_failed [OF this] have fl: "hget (flows (protocol k)) rid \<noteq> None" by simp
    from act conn_okD [OF ok, of rid] fl have "hget (pending k) rid = None"
      by (cases "the (hget (flows (protocol k)) rid)") auto
    then have "k\<lparr>active := removeAll rid (active k)\<rparr> = k\<lparr>protocol := (protocol k)\<lparr>flows := flows (protocol k)\<rparr>,
        pending := hdel rid (pending k), active := removeAll rid (active k)\<rparr>"
      by (cases k) (simp add: hdel_fresh)
    from send_failure_ok [OF send ok this] False show ?thesis by simp
  qed
qed

section \<open>The connector as a machine\<close>

text \<open>
  \<open>None\<close> is an ended session.  A worker answers once, for the request it was spawned for, so an
  answer for a request that is not active does not occur.
\<close>

definition conn_machine ::
  "codec \<Rightarrow> connector_config \<Rightarrow> connector option \<Rightarrow> conn_event \<Rightarrow> (loop_exit + unit) \<times> connector option" where
  "conn_machine c cfg so ev =
     (case so of
        None \<Rightarrow> (Inl SessionClosed, None)
      | Some k \<Rightarrow>
          if (case ev of Finished rid r \<Rightarrow> rid \<notin> set (active k) | Incoming _ _ \<Rightarrow> False)
          then (Inr (), Some k)
          else (case conn_step c cfg ev k of
              (Inl e, k') \<Rightarrow> (Inl e, None)
            | (Inr u, k') \<Rightarrow> (Inr (), Some k')))"

definition conn_init :: "nat \<Rightarrow> connector" where
  "conn_init b = \<lparr>inbox = [], sent = [], budget = b,
     protocol = \<lparr>handshake = Ready, flows = [], seen_request_ids = []\<rparr>,
     pending = [], active = [], cancelled = [], spawned = []\<rparr>"

definition conn_inv :: "connector_config \<Rightarrow> connector option \<Rightarrow> bool" where
  "conn_inv cfg so = (case so of None \<Rightarrow> True | Some k \<Rightarrow> conn_ok cfg k)"

lemma conn_ok_send: "conn_ok cfg k \<Longrightarrow> conn_ok cfg (k\<lparr>sent := ms, budget := n\<rparr>)"
  by (simp add: conn_ok_def)

lemma conn_text_ok:
  assumes ok: "conn_ok cfg k" and step: "on_text c cfg now txt k = (Inr (), k')"
  shows "conn_ok cfg k'"
proof -
  obtain frame p where obs: "observe_control (protocol k) frame = (Inr (), p)"
    and rest: "(let k' = k\<lparr>protocol := p\<rparr> in
                case frame of
                  RequestStart f \<Rightarrow> on_request_start cfg f k'
                | RequestEnd rid \<Rightarrow> on_request_end c cfg now rid k'
                | Cancel rid \<Rightarrow> on_cancel rid k'
                | Ping n \<Rightarrow> send_control c conn_errs (Pong n) k'
                | Pong n \<Rightarrow> (Inr (), k')
                | _ \<Rightarrow> (Inl (SessionFailed RtProtocol), k')) = (Inr (), k')"
    using step by (auto simp: on_text_def split: sum.splits prod.splits)
  show ?thesis
  proof (cases frame)
    case (RequestStart f)
    with obs rest show ?thesis by (intro conn_start_ok [OF ok, of f p k']) (simp_all add: Let_def)
  next
    case (RequestEnd rid)
    with obs rest show ?thesis by (intro conn_end_ok [OF ok, of rid p c now k']) (simp_all add: Let_def)
  next
    case (Cancel rid)
    with obs rest show ?thesis by (intro conn_cancel_ok [OF ok, of rid p k']) (simp_all add: Let_def)
  next
    case (Ping n)
    with obs have p: "p = protocol k" using accepted_ping(1) by blast
    from rest Ping have "send_control c conn_errs (Pong n) (k\<lparr>protocol := p\<rparr>) = (Inr (), k')"
      by (simp add: Let_def)
    then obtain q t where q: "observe_control (protocol (k\<lparr>protocol := p\<rparr>)) (Pong n) = (Inr (), q)"
      and k': "k' = (k\<lparr>protocol := p\<rparr>)\<lparr>sent := sent (k\<lparr>protocol := p\<rparr>) @ [WsText t],
         budget := budget (k\<lparr>protocol := p\<rparr>) - 1, protocol := q\<rparr>"
      by (rule send_control_Inr)
    have "q = protocol k" using accepted_ping(2) [OF q] p by simp
    with ok k' show ?thesis by (simp add: conn_ok_def)
  next
    case (Pong n)
    with obs rest have "k' = k" using accepted_ping(2) [of "protocol k" n "()" p] by (simp add: Let_def)
    with ok show ?thesis by simp
  qed (use rest in \<open>simp_all add: Let_def\<close>)
qed

lemma conn_machine_ok: "conn_inv cfg so \<Longrightarrow> conn_inv cfg (snd (conn_machine c cfg so ev))"
proof (cases so)
  case None
  then show ?thesis by (simp add: conn_machine_def conn_inv_def)
next
  case (Some k)
  assume "conn_inv cfg so"
  with Some have ok: "conn_ok cfg k" by (simp add: conn_inv_def)
  have step: "conn_ok cfg k'" if "conn_step c cfg ev k = (Inr (), k')"
    and enabled: "case ev of Finished rid r \<Rightarrow> rid \<in> set (active k) | Incoming _ _ \<Rightarrow> True" for k'
  proof (cases ev)
    case (Finished rid r)
    with that show ?thesis
      by (intro conn_finished_ok [OF ok, of rid c r k']) (simp_all add: conn_step_def)
  next
    case (Incoming now im)
    with that have "conn_step c cfg (Incoming now im) k = (Inr (), k')" by simp
    then consider tx where "on_text c cfg now tx k = (Inr (), k')"
      | bs where "on_binary bs k = (Inr (), k')"
      | "k' = k" | ms n where "k' = k\<lparr>sent := ms, budget := n\<rparr>"
      by (auto simp: conn_step_def io_fail_def io_return_def ws_send_def
          split: option.splits sum.splits ws_message.splits if_splits)
    then show ?thesis
      using ok by cases (auto intro: conn_text_ok conn_binary_ok conn_ok_send)
  qed
  show ?thesis
    using ok step by (auto simp: Some conn_machine_def conn_inv_def split: prod.splits sum.splits conn_event.splits)
qed

interpretation connector: guarded_machine "conn_machine c cfg" "Some (conn_init b)" "conn_inv cfg"
  for c cfg b
proof unfold_locales
  show "conn_inv cfg (Some (conn_init b))"
    by (simp add: conn_inv_def conn_ok_def conn_init_def session_ok_def hmap_simps live_pending_def)
  show "conn_inv cfg s \<Longrightarrow> conn_inv cfg (snd (conn_machine c cfg s e))" for s e
    by (rule conn_machine_ok)
qed

text \<open>
  C10: in every session of the connector, whatever the cloud sends and however the answers
  of its workers interleave: the workers and the admitted requests together never exceed the
  configured limit; a request is buffered exactly while its body is arriving, with exactly the
  bytes that were accepted, at most 16 MiB; and a worker whose answer is still wanted is running
  exactly for the requests that await a response.
\<close>

theorem connector_bookkeeping:
  "case run_steps (conn_machine c cfg) (Some (conn_init b)) evs of
     None \<Rightarrow> True
   | Some k \<Rightarrow>
       live_pending (pending k) + length (active k) \<le> max_in_flight cfg
       \<and> (\<forall>rid n. map_option (\<lambda>rq. length (pr_body rq)) (hget (pending k) rid) = Some n
             \<longleftrightarrow> (\<exists>q. hget (flows (protocol k)) rid = Some (RequestBody q n)))
       \<and> list_all (\<lambda>e. length (pr_body (snd e)) \<le> 16 * 1024 * 1024) (pending k)
       \<and> (\<forall>rid. rid \<in> set (active k) - set (cancelled k)
             \<longleftrightarrow> hget (flows (protocol k)) rid = Some AwaitingResponse)"
proof (cases "run_steps (conn_machine c cfg) (Some (conn_init b)) evs")
  case None
  then show ?thesis by simp
next
  case (Some k)
  have "conn_inv cfg (run_steps (conn_machine c cfg) (Some (conn_init b)) evs)"
    by (rule connector.inv_reachable)
  with Some have ok: "conn_ok cfg k" by (simp add: conn_inv_def)
  have buf: "map_option (\<lambda>rq. length (pr_body rq)) (hget (pending k) rid) = Some n
     \<longleftrightarrow> (\<exists>q. hget (flows (protocol k)) rid = Some (RequestBody q n))" for rid n
    using conn_okD [OF ok, of rid]
    by (cases "hget (flows (protocol k)) rid"; cases "the (hget (flows (protocol k)) rid)") (auto split: option.splits)
  have act: "rid \<in> set (active k) - set (cancelled k)
     \<longleftrightarrow> hget (flows (protocol k)) rid = Some AwaitingResponse" for rid
    using conn_okD [OF ok, of rid]
    by (cases "hget (flows (protocol k)) rid"; cases "the (hget (flows (protocol k)) rid)") auto
  have lim: "hget (flows (protocol k)) rid = Some (RequestBody q n) \<Longrightarrow> n \<le> 16 * 1024 * 1024" for rid n q
    using ok by (force simp: conn_ok_def session_ok_def max_request_body_bytes_def)
  have "list_all (\<lambda>e. length (pr_body (snd e)) \<le> 16 * 1024 * 1024) (pending k)"
  proof (clarsimp simp: list_all_iff)
    fix rid rq
    assume "(rid, rq) \<in> set (pending k)"
    then have "hget (pending k) rid = Some rq"
      using ok by (auto simp: conn_ok_def hmap_ok_def)
    with buf [of rid "length (pr_body rq)"] lim [of rid] show "length (pr_body rq) \<le> 16777216" by auto
  qed
  with ok buf act show ?thesis by (simp add: Some conn_ok_def)
qed

section \<open>Answering\<close>

lemma response_frames_length:
  "length (response_frames c rid r t1 t2) = 2 + length (chunks max_body_chunk_bytes (result_body r))"
  by (simp add: response_frames_def)

lemma send_response_delivers:
  assumes ready: "handshake (protocol k) = Ready"
    and flow: "hget (flows (protocol k)) rid = Some AwaitingResponse"
    and valid: "response_start_validate (result_start rid r) = Inr ()"
    and fits: "length (result_body r) \<le> max_response_body_bytes"
    and json: "to_json c (ResponseStart (result_start rid r)) = Some t1" "to_json c (ResponseEnd rid) = Some t2"
    and room: "length (response_frames c rid r t1 t2) \<le> budget k"
  shows "send_response c rid r k = (Inr (), k\<lparr>sent := sent k @ response_frames c rid r t1 t2,
     budget := budget k - length (response_frames c rid r t1 t2),
     protocol := (protocol k)\<lparr>flows := hdel rid (flows (protocol k))\<rparr>\<rparr>)"
proof -
  let ?xs = "chunks max_body_chunk_bytes (result_body r)"
  let ?p1 = "(protocol k)\<lparr>flows := hput rid (ResponseBody 0 0) (flows (protocol k))\<rparr>"
  let ?k1 = "k\<lparr>sent := sent k @ [WsText t1], budget := budget k - 1, protocol := ?p1\<rparr>"
  let ?p2 = "after_chunks (protocol ?k1) ResponseChunk rid 0 0 ?xs"
  let ?k2 = "?k1\<lparr>sent := sent ?k1 @ map (\<lambda>f. WsBinary (encoded f)) (chunk_frames ResponseChunk rid 0 ?xs),
       budget := budget ?k1 - length ?xs, protocol := ?p2\<rparr>"
  let ?p3 = "?p2\<lparr>flows := hdel rid (flows ?p2)\<rparr>"
  have room': "2 + length ?xs \<le> budget k" using room by (simp add: response_frames_length)
  have s1: "send_control c conn_errs (ResponseStart (result_start rid r)) k = (Inr (), ?k1)"
    using ready flow valid json(1) room'
    by (intro send_control_ok) (simp_all add: observe_control_def observe_response_start_def result_start_def)
  have s2: "send_chunks conn_errs ResponseChunk rid 0 ?xs ?k1 = (Inr (), ?k2)"
    by (rule send_chunks_ok)
       (use ready fits chunks_fit chunk_count [OF fits] room' in \<open>simp_all add: hmap_simps\<close>)
  have h2: "handshake ?p2 = Ready" "\<exists>m b. hget (flows ?p2) rid = Some (ResponseBody m b)"
    using ready by (auto simp: after_chunks_def hmap_simps)
  have obs3: "observe_control ?p2 (ResponseEnd rid) = (Inr (), ?p3)"
    using h2 by (auto simp: observe_control_def observe_response_end_def)
  have s3: "send_control c conn_errs (ResponseEnd rid) ?k2 =
     (Inr (), ?k2\<lparr>sent := sent ?k2 @ [WsText t2], budget := budget ?k2 - 1, protocol := ?p3\<rparr>)"
    by (rule send_control_ok) (use obs3 json(2) room' in simp_all)
  have p3: "?p3 = (protocol k)\<lparr>flows := hdel rid (flows (protocol k))\<rparr>"
    by (simp add: after_chunks_def AList.delete_update_same)
  have "send_response c rid r k =
     (Inr (), ?k2\<lparr>sent := sent ?k2 @ [WsText t2], budget := budget ?k2 - 1, protocol := ?p3\<rparr>)"
    by (simp only: send_response_def io_bind_def s1 s2 s3 prod.case sum.case)
  also have "?k2\<lparr>sent := sent ?k2 @ [WsText t2], budget := budget ?k2 - 1, protocol := ?p3\<rparr>
     = k\<lparr>sent := sent k @ response_frames c rid r t1 t2,
         budget := budget k - length (response_frames c rid r t1 t2), protocol := ?p3\<rparr>"
    by (simp add: response_frames_def)
  finally show ?thesis by (simp only: p3)
qed

lemma reached_flow:
  assumes "run_steps (conn_machine c cfg) (Some (conn_init b)) evs = Some k" and "rid \<in> set (active k)"
  shows "handshake (protocol k) = Ready" and "rid \<notin> set (cancelled k) \<Longrightarrow> hget (flows (protocol k)) rid = Some AwaitingResponse"
proof -
  have "conn_inv cfg (Some k)" using connector.inv_reachable [of cfg c b evs] assms(1) by simp
  then have ok: "conn_ok cfg k" by (simp add: conn_inv_def)
  then show "handshake (protocol k) = Ready" by (simp add: conn_ok_def)
  show "hget (flows (protocol k)) rid = Some AwaitingResponse" if "rid \<notin> set (cancelled k)"
    using conn_okD [OF ok, of rid] assms(2) that
    by (cases "hget (flows (protocol k)) rid"; cases "the (hget (flows (protocol k)) rid)") auto
qed

definition failure_frame :: "uuid \<Rightarrow> proxy_error \<Rightarrow> control_frame" where
  "failure_frame rid e = RequestFailed \<lparr>failed_id = rid, failure_code = failure_code_of e, failure_message = ''local C6 request failed''\<rparr>"

lemma send_failure_delivers:
  assumes "handshake (protocol k) = Ready" and "hget (flows (protocol k)) rid = Some AwaitingResponse"
    and "to_json c (failure_frame rid e) = Some t" and "0 < budget k"
  shows "send_failure c rid (failure_code_of e) ''local C6 request failed'' k = (Inr (), k\<lparr>sent := sent k @ [WsText t],
     budget := budget k - 1, protocol := (protocol k)\<lparr>flows := hdel rid (flows (protocol k))\<rparr>\<rparr>)"
proof -
  have "\<not> has_control ''local C6 request failed''" by code_simp
  then show ?thesis
    using assms unfolding send_failure_def failure_frame_def
    by (intro send_control_ok) (simp_all add: observe_control_def observe_request_failed_def observe_cancel_def)
qed

text \<open>
  C37: what becomes of a finished request, on a session that the loop can reach.  A request that was
  cancelled sends nothing and the loop goes on.  One still wanted is answered whole: with exactly
  the frames of its response when that fits the relay's contract, or with the one frame that tells
  its failure, provided the frames can be encoded and the socket still takes them.  A response whose
  header the contract refuses ends the session with a protocol error.
\<close>

theorem connector_answers_active:
  assumes "run_steps (conn_machine c cfg) (Some (conn_init b)) evs = Some k" and "rid \<in> set (active k)"
  shows "(rid \<in> set (cancelled k) \<longrightarrow>
       (\<exists>k'. conn_step c cfg (Finished rid r) k = (Inr (), k') \<and> rid \<notin> set (active k') \<and> sent k' = sent k))
    \<and> (\<forall>x t1 t2. rid \<notin> set (cancelled k) \<and> r = Inr x \<and> response_start_validate (result_start rid x) = Inr ()
         \<and> length (result_body x) \<le> 64 * 1024 * 1024
         \<and> to_json c (ResponseStart (result_start rid x)) = Some t1 \<and> to_json c (ResponseEnd rid) = Some t2
         \<and> length (response_frames c rid x t1 t2) \<le> budget k \<longrightarrow>
       (\<exists>k'. conn_step c cfg (Finished rid r) k = (Inr (), k') \<and> rid \<notin> set (active k')
          \<and> sent k' = sent k @ response_frames c rid x t1 t2))
    \<and> (\<forall>e t. rid \<notin> set (cancelled k) \<and> r = Inl e \<and> to_json c (failure_frame rid e) = Some t \<and> 0 < budget k \<longrightarrow>
       (\<exists>k'. conn_step c cfg (Finished rid r) k = (Inr (), k') \<and> rid \<notin> set (active k') \<and> sent k' = sent k @ [WsText t]))
    \<and> (\<forall>x e. rid \<notin> set (cancelled k) \<and> r = Inr x \<and> response_start_validate (result_start rid x) = Inl e \<longrightarrow>
       fst (conn_step c cfg (Finished rid r) k) = Inl (SessionFailed RtProtocol))"
proof (cases "rid \<in> set (cancelled k)")
  case True
  then show ?thesis by (simp add: conn_step_def on_finished_def Let_def)
next
  case False
  note ready = reached_flow(1) [OF assms] and flow = reached_flow(2) [OF assms False]
  let ?k = "k\<lparr>active := removeAll rid (active k)\<rparr>"
  have "\<exists>k'. send_response c rid x ?k = (Inr (), k') \<and> rid \<notin> set (active k') \<and> sent k' = sent k @ response_frames c rid x t1 t2"
    if "response_start_validate (result_start rid x) = Inr ()" "length (result_body x) \<le> 64 * 1024 * 1024"
      "to_json c (ResponseStart (result_start rid x)) = Some t1" "to_json c (ResponseEnd rid) = Some t2"
      "length (response_frames c rid x t1 t2) \<le> budget k" for x t1 t2
    using send_response_delivers [of ?k rid x c t1 t2] ready flow that by (simp add: relay_limits)
  moreover have "\<exists>k'. send_failure c rid (failure_code_of e) ''local C6 request failed'' ?k = (Inr (), k')
      \<and> rid \<notin> set (active k') \<and> sent k' = sent k @ [WsText t]"
    if "to_json c (failure_frame rid e) = Some t" "0 < budget k" for e t
    using send_failure_delivers [of ?k rid c e t] ready flow that by simp
  moreover have "fst (send_response c rid x ?k) = Inl (SessionFailed RtProtocol)"
    if "response_start_validate (result_start rid x) = Inl e" for x e
    using ready that
    by (simp add: send_response_def io_bind_def send_control_def conn_errs_def observe_control_def observe_response_start_def)
  ultimately show ?thesis using False by (auto simp: conn_step_def on_finished_def Let_def)
qed

text \<open>
  A response the relay's contract refuses (its headers exceed the relay's limits, or its
  status is above 599) does not become a failed request: it ends the session with a protocol error,
  and the reconnecting driver returns that error without another attempt, so one such answer of the
  local server stops the connector for good.
\<close>

theorem refused_response_stops_connector:
  assumes "run_steps (conn_machine c cfg) (Some (conn_init b)) evs = Some k"
    and "rid \<in> set (active k)" and "rid \<notin> set (cancelled k)"
    and "response_start_validate (result_start rid r) = Inl e"
  shows "fst (conn_step c cfg (Finished rid (Inr r)) k) = Inl (SessionFailed RtProtocol)
     \<and> run_reconnecting delay jitter i (SessionFailed RtProtocol # outs) = ([], Some RtProtocol)"
proof -
  have "conn_inv cfg (Some k)"
    using connector.inv_reachable [of cfg c b evs] assms(1) by simp
  then have ready: "handshake (protocol k) = Ready" by (simp add: conn_inv_def conn_ok_def)
  have "observe_control (protocol k) (ResponseStart (result_start rid r)) = (Inl e, protocol k)"
    using ready assms(4) by (simp add: observe_control_def observe_response_start_def)
  then show ?thesis
    using assms(3)
    by (simp add: conn_step_def on_finished_def Let_def send_response_def io_bind_def send_control_def conn_errs_def)
qed

section \<open>Receiving a request\<close>

abbreviation arrives :: "u64 \<Rightarrow> ws_message \<Rightarrow> conn_event" where
  "arrives now m \<equiv> Incoming now (Some (Inr m))"

lemma conn_machine_arrives:
  "conn_step c cfg (arrives now m) k = (Inr (), k') \<Longrightarrow>
     conn_machine c cfg (Some k) (arrives now m) = (Inr (), Some k')"
  by (simp add: conn_machine_def)

lemma receive_request_chunks:
  assumes "handshake (protocol k) = Ready"
    and "hget (flows (protocol k)) rid = Some (RequestBody (word_of_nat n) b)"
    and "hget (pending k) rid = Some rq"
    and "\<forall>x \<in> set xs. length x \<le> max_body_chunk_bytes"
    and "b + body_sum xs \<le> max_request_body_bytes" and "n + length xs < 2 ^ 32"
  shows "\<exists>pe. run_steps (conn_machine c cfg) (Some k)
       (map (\<lambda>f. arrives now (WsBinary (encoded f))) (chunk_frames RequestChunk rid n xs))
     = Some (k\<lparr>protocol := after_chunks (protocol k) RequestChunk rid n b xs, pending := pe\<rparr>)
     \<and> hget pe rid = Some (rq\<lparr>pr_body := pr_body rq @ concat xs\<rparr>)"
  using assms
proof (induction xs arbitrary: n b k rq)
  case Nil
  then show ?case by (intro exI [of _ "pending k"]) (simp add: after_chunks_def)
next
  case (Cons x xs)
  let ?f = "chunk_frame RequestChunk rid n x"
  let ?p = "(protocol k)\<lparr>flows := hput rid (flow_of RequestChunk (word_of_nat (Suc n)) (b + length x)) (flows (protocol k))\<rparr>"
  let ?rq = "rq\<lparr>pr_body := pr_body rq @ x\<rparr>"
  let ?k = "k\<lparr>protocol := ?p, pending := hput rid ?rq (pending k)\<rparr>"
  have obs: "observe_body (protocol k) ?f = (Inr (), ?p)"
    using Cons.prems by (intro observe_chunk) simp_all
  have dec: "body_decode (encoded ?f) = Inr ?f"
    using Cons.prems(4) by (intro decode_encoded) simp
  have fields: "body_kind ?f = RequestChunk" "body_id ?f = rid" "payload ?f = x"
    by (simp_all add: chunk_frame_def)
  have one: "conn_machine c cfg (Some k) (arrives now (WsBinary (encoded ?f))) = (Inr (), Some ?k)"
    using Cons.prems(3) by (intro conn_machine_arrives) (simp add: conn_step_def on_binary_def dec obs fields del: of_nat_Suc)
  obtain pe where pe: "run_steps (conn_machine c cfg) (Some ?k)
       (map (\<lambda>f. arrives now (WsBinary (encoded f))) (chunk_frames RequestChunk rid (Suc n) xs))
     = Some (?k\<lparr>protocol := after_chunks (protocol ?k) RequestChunk rid (Suc n) (b + length x) xs, pending := pe\<rparr>)"
     and get: "hget pe rid = Some (?rq\<lparr>pr_body := pr_body ?rq @ concat xs\<rparr>)"
    using Cons.IH [of ?k "Suc n" "b + length x" ?rq] Cons.prems by (auto simp: hmap_simps simp del: of_nat_Suc)
  have "run_steps (conn_machine c cfg) (Some k)
       (map (\<lambda>f. arrives now (WsBinary (encoded f))) (chunk_frames RequestChunk rid n (x # xs)))
     = Some (?k\<lparr>protocol := after_chunks (protocol ?k) RequestChunk rid (Suc n) (b + length x) xs, pending := pe\<rparr>)"
    using pe by (simp only: chunk_frames.simps list.map run_steps.simps one snd_conv)
  then show ?case
    using get after_chunks_Cons [where s = "protocol k" and rid = rid and kind = RequestChunk and n = n and b = b and x = x and xs = xs]
    by (intro exI [of _ pe]) (simp del: of_nat_Suc)
qed

definition request_of :: "request_start \<Rightarrow> bytes \<Rightarrow> proxy_request" where
  "request_of f body = \<lparr>pq_method = method_str (start_method f), pq_target = target f,
     pq_headers = start_headers f, pq_body = body\<rparr>"

lemma connector_receives:
  assumes ok: "conn_ok cfg k" and can: "can_open (protocol k) (start_id f)"
    and valid: "request_start_validate f = Inr ()" and fits: "length body \<le> max_request_body_bytes"
    and codec: "codec_ok c" and json: "to_json c (RequestStart f) = Some t1" "to_json c (RequestEnd (start_id f)) = Some t2"
    and short: "length t1 \<le> 64 * 1024" "length t2 \<le> 64 * 1024"
    and slots: "length (pending k) + length (active k) < max_in_flight cfg"
    and time: "unat now < unat (deadline_unix_ms f)"
  shows "\<exists>k'. run_steps (conn_machine c cfg) (Some k)
        (map (arrives now) (request_frames (start_id f) body t1 t2)) = Some k'
     \<and> spawned k' = spawned k @ [(start_id f,
          min (unat (deadline_unix_ms f) - unat now) (request_timeout_ms cfg), request_of f body)]
     \<and> start_id f \<in> set (active k') \<and> start_id f \<notin> set (cancelled k')
     \<and> sent k' = sent k \<and> budget k' = budget k"
proof -
  let ?rid = "start_id f" and ?xs = "chunks max_body_chunk_bytes body"
  let ?p1 = "(protocol k)\<lparr>seen_request_ids := ?rid # seen_request_ids (protocol k),
                flows := hput ?rid (RequestBody 0 0) (flows (protocol k))\<rparr>"
  let ?rq = "\<lparr>pr_method = method_str (start_method f), pr_target = target f,
              pr_headers = start_headers f, pr_body = [], pr_deadline = deadline_unix_ms f,
              pr_rejected = False\<rparr>"
  let ?k1 = "k\<lparr>protocol := ?p1, pending := hput ?rid ?rq (pending k)\<rparr>"
  have none: "hget (flows (protocol k)) ?rid = None" using can by (simp add: can_open_def hget_None_iff)
  have fresh: "hget (pending k) ?rid = None" "?rid \<notin> set (active k)" "?rid \<notin> set (cancelled k)"
    using conn_okD [OF ok, of ?rid] none can ok by (auto simp: can_open_def conn_ok_def)
  have dec: "decode_control c t1 = Inr (RequestStart f)" "decode_control c t2 = Inr (RequestEnd ?rid)"
    using codec json short by (auto simp: decode_control_def codec_ok_def)
  have s1: "conn_machine c cfg (Some k) (arrives now (WsText t1)) = (Inr (), Some ?k1)"
    using fresh slots
    by (intro conn_machine_arrives)
       (simp add: conn_step_def on_text_def dec observe_start_ok [OF can valid] on_request_start_def)
  obtain pe where s2: "run_steps (conn_machine c cfg) (Some ?k1)
       (map (\<lambda>f. arrives now (WsBinary (encoded f))) (chunk_frames RequestChunk ?rid 0 ?xs))
     = Some (?k1\<lparr>protocol := after_chunks (protocol ?k1) RequestChunk ?rid 0 0 ?xs, pending := pe\<rparr>)"
     and get: "hget pe ?rid = Some (?rq\<lparr>pr_body := pr_body ?rq @ concat ?xs\<rparr>)"
    using receive_request_chunks [of ?k1 ?rid 0 0 ?rq ?xs c cfg now] can fits chunks_fit request_chunk_count [OF fits]
    by (auto simp: can_open_def hmap_simps)
  let ?p2 = "after_chunks ?p1 RequestChunk ?rid 0 0 ?xs"
  let ?k2 = "?k1\<lparr>protocol := ?p2, pending := pe\<rparr>"
  let ?p3 = "?p2\<lparr>flows := hput ?rid AwaitingResponse (flows ?p2)\<rparr>"
  let ?k3 = "?k2\<lparr>protocol := ?p3, pending := hdel ?rid pe, active := List.insert ?rid (active k),
     spawned := spawned k @ [(?rid, min (unat (deadline_unix_ms f) - unat now) (request_timeout_ms cfg), request_of f body)]\<rparr>"
  have h2: "handshake ?p2 = Ready" "\<exists>m b. hget (flows ?p2) ?rid = Some (RequestBody m b)"
    using can by (auto simp: can_open_def after_chunks_def hmap_simps)
  have obs3: "observe_control ?p2 (RequestEnd ?rid) = (Inr (), ?p3)"
    using h2 by (auto simp: observe_control_def observe_request_end_def)
  have s3: "conn_machine c cfg (Some ?k2) (arrives now (WsText t2)) = (Inr (), Some ?k3)"
    using fresh get time
    by (intro conn_machine_arrives)
       (simp add: conn_step_def on_text_def dec obs3 on_request_end_def Let_def request_of_def)
  have frames: "map (arrives now) (request_frames ?rid body t1 t2) = arrives now (WsText t1) #
      map (\<lambda>f. arrives now (WsBinary (encoded f))) (chunk_frames RequestChunk ?rid 0 ?xs)
      @ [arrives now (WsText t2)]"
    by (simp add: request_frames_def)
  have "run_steps (conn_machine c cfg) (Some k) (map (arrives now) (request_frames ?rid body t1 t2)) = Some ?k3"
    using s2 s3 by (simp add: frames s1 run_steps_append)
  with fresh show ?thesis by (intro exI [of _ ?k3]) simp
qed

section \<open>Reconnecting\<close>

lemma run_reconnecting_pauses:
  assumes "\<And>i u. jitter i u \<le> u"
  shows "1000 \<le> delay \<Longrightarrow> delay \<le> max_reconnect_delay \<Longrightarrow>
    list_all (\<lambda>t. 1000 \<le> t \<and> t \<le> 75000) (fst (run_reconnecting delay jitter i outs))"
proof (induction outs arbitrary: delay i)
  case Nil
  then show ?case by simp
next
  case (Cons out outs)
  have "jitter i (max delay 1 div 4) \<le> max delay 1 div 4" by (rule assms)
  then have "delay + jitter i (max delay 1 div 4) \<le> 75000"
    using Cons.prems by (simp add: max_reconnect_delay_def max_def split: if_splits)
  moreover have "list_all (\<lambda>t. 1000 \<le> t \<and> t \<le> 75000)
      (fst (run_reconnecting (min (delay * 2) max_reconnect_delay) jitter (Suc i) outs))"
    by (rule Cons.IH) (use Cons.prems in \<open>auto simp: max_reconnect_delay_def\<close>)
  ultimately show ?case
    using Cons.prems by (auto simp: Let_def split: prod.splits loop_exit.splits)
qed

definition retried :: "loop_exit \<Rightarrow> bool" where
  "retried out \<longleftrightarrow> out = SessionClosed \<or> out = SessionFailed RtTransport"

text \<open>The first outcome the driver does not retry after, as its result.\<close>

fun first_fatal :: "loop_exit list \<Rightarrow> runtime_error option" where
  "first_fatal [] = None"
| "first_fatal (SessionClosed # outs) = first_fatal outs"
| "first_fatal (SessionFailed e # outs) = (if e = RtTransport then first_fatal outs else Some e)"

lemma run_reconnecting_result:
  "run_reconnecting delay jitter i outs = (ps, res) \<Longrightarrow>
     length ps = length (takeWhile retried outs)
     \<and> res = first_fatal outs"
proof (induction outs arbitrary: delay i ps res)
  case Nil
  then show ?case by simp
next
  case (Cons out outs)
  show ?case
  proof (cases "retried out")
    case True
    obtain ps' res' where rec: "run_reconnecting (min (delay * 2) max_reconnect_delay) jitter (Suc i) outs = (ps', res')"
      by fastforce
    with Cons.prems True have "ps = (delay + jitter i (max delay 1 div 4)) # ps'" "res = res'"
      by (auto simp: retried_def Let_def)
    with Cons.IH [OF rec] True show ?thesis by (cases out) (simp_all add: retried_def)
  next
    case False
    with Cons.prems show ?thesis by (cases out) (auto simp: retried_def)
  qed
qed

text \<open>
  The connector retries after a closed session or a transport failure and after nothing
  else: it pauses once per such session, at least one second and at most 75 seconds (the capped
  delay and a quarter of it as jitter), and the first other failure is returned.
\<close>

theorem reconnect_policy:
  assumes "\<And>i u. jitter i u \<le> u" and "run_reconnecting 1000 jitter i outs = (ps, res)"
  shows "list_all (\<lambda>t. 1000 \<le> t \<and> t \<le> 75000) ps
     \<and> length ps = length (takeWhile retried outs)
     \<and> res = first_fatal outs"
  using run_reconnecting_pauses [of jitter 1000 i outs] run_reconnecting_result [OF assms(2)] assms
  by (simp add: max_reconnect_delay_def)

theorem reconnect_policy_witness:
  "length (fst (run_reconnecting 1000 (\<lambda>i u. u div 2) 0
      [SessionClosed, SessionFailed RtTransport, SessionFailed RtProtocol, SessionClosed])) = 2"
proof -
  have run: "run_reconnecting 1000 (\<lambda>i u. u div 2) 0
      [SessionClosed, SessionFailed RtTransport, SessionFailed RtProtocol, SessionClosed] = ([1125, 2250], Some RtProtocol)"
    by (simp add: max_reconnect_delay_def)
  have "length [1125, 2250 :: nat] = length (takeWhile retried
      [SessionClosed, SessionFailed RtTransport, SessionFailed RtProtocol, SessionClosed])"
    using reconnect_policy [OF _ run] by simp
  then show ?thesis by (simp add: run)
qed

section \<open>A session of the connector, concretely\<close>

definition sample_config :: connector_config where
  "sample_config = \<lparr>max_in_flight = 4, request_timeout_ms = 30000\<rparr>"

definition sample_events :: "conn_event list" where
  "sample_events = map (arrives 0) (request_frames 9 (ex_body sample_exchange) ''a'' ''b'')"

lemma sample_session:
  "\<exists>k. run_steps (conn_machine sample_codec sample_config) (Some (conn_init 10)) sample_events = Some k
     \<and> 9 \<in> set (active k) \<and> 9 \<notin> set (cancelled k) \<and> sent k = [] \<and> budget k = 10"
proof -
  let ?f = "start_frame 9 1 (HttpMethod ''GET'') sample_exchange"
  have id: "start_id ?f = 9" by (simp add: start_frame_def)
  have "conn_ok sample_config (conn_init 10)"
    using connector.inv_init [of sample_config 10] by (simp add: conn_inv_def)
  moreover have "can_open (protocol (conn_init 10)) 9"
    by (simp add: can_open_def conn_init_def hmap_simps relay_limits)
  moreover have "request_start_validate ?f = Inr ()"
    using sample_start_valid by (simp add: start_frame_def sample_exchange_def sample_start_def)
  moreover have "codec_ok sample_codec" unfolding sample_codec_def by (rule table_codec_ok) simp
  ultimately show ?thesis
    using connector_receives [of sample_config "conn_init 10" ?f "ex_body sample_exchange" sample_codec "''a''" "''b''" 0]
    unfolding id sample_events_def
    by (auto simp: sample_codec_def table_codec_def conn_init_def sample_config_def start_frame_def
        sample_exchange_def relay_limits)
qed

theorem connector_answers_active_witness:
  "\<exists>k k'. run_steps (conn_machine sample_codec sample_config) (Some (conn_init 10)) sample_events = Some k
     \<and> conn_step sample_codec sample_config (Finished 9 (Inr sample_result)) k = (Inr (), k')
     \<and> sent k' = response_frames sample_codec 9 sample_result ''c'' ''d''"
proof -
  obtain k where k: "run_steps (conn_machine sample_codec sample_config) (Some (conn_init 10)) sample_events = Some k"
     and st: "9 \<in> set (active k)" "9 \<notin> set (cancelled k)" "sent k = []" "budget k = 10"
    using sample_session by blast
  have resp: "response_start_validate (result_start 9 sample_result) = Inr ()"
    by (simp add: response_start_validate_def result_start_def sample_result_def validate_headers_def)
  have room: "length (response_frames sample_codec 9 sample_result ''c'' ''d'') \<le> budget k"
    by (simp add: response_frames_length st sample_result_def chunks.simps relay_limits)
  have fits: "length (result_body sample_result) \<le> max_response_body_bytes"
    by (simp add: sample_result_def relay_limits)
  have json: "to_json sample_codec (ResponseStart (result_start 9 sample_result)) = Some ''c''"
      "to_json sample_codec (ResponseEnd 9) = Some ''d''"
    by (simp_all add: sample_codec_def table_codec_def)
  from connector_answers_active [OF k st(1), of "Inr sample_result"] resp fits json room st k show ?thesis
    by (auto simp: relay_limits)
qed

theorem refused_response_stops_connector_witness:
  "\<exists>k. run_steps (conn_machine sample_codec sample_config) (Some (conn_init 10)) sample_events = Some k
     \<and> fst (conn_step sample_codec sample_config
          (Finished 9 (Inr (sample_result\<lparr>result_status := 700\<rparr>))) k) = Inl (SessionFailed RtProtocol)"
proof -
  obtain k where k: "run_steps (conn_machine sample_codec sample_config) (Some (conn_init 10)) sample_events = Some k"
     and st: "9 \<in> set (active k)" "9 \<notin> set (cancelled k)"
    using sample_session by blast
  have "response_start_validate (result_start 9 (sample_result\<lparr>result_status := 700\<rparr>)) = Inl InvalidStatus"
    by (simp add: response_start_validate_def result_start_def)
  from refused_response_stops_connector [OF k st this] k show ?thesis by blast
qed

end
