(* ===== verification/Local_Files.thy ===== *)
theory Local_Files
  imports Prelude
begin

text \<open>
  Files as the local tools see them: the connector's configuration and credentials, the state of the
  command-line tools, the bootstrap token of the control plane.  A path is its text; a file has a
  kind, permission bits, an owner and a number of links.  Which calls the system refuses is fixed
  for the duration of an operation, so an operation is followed on every combination of failures;
  a crash is the case where every later call is refused.  \<open>mode_mask\<close> is the umask, \<open>part_written\<close>
  how much of a failing write reached the file.
\<close>

datatype file_kind = RegularFile | RealDirectory | SymbolicLink | SpecialFile

record local_file =
  lf_kind :: file_kind
  lf_mode :: u32
  lf_owner :: nat
  lf_links :: nat
  lf_data :: string

datatype local_call =
    LstatCall string | MetadataCall string | ReadCall string | CreateCall string | WriteCall string
  | SyncCall string | MoveCall string string | OpenDirCall string | SyncDirCall string
  | LinkCall string string | RemoveCall string | MakeDirsCall string | OpenLockCall string | ChmodCall string

type_synonym local_tree = "(string \<times> local_file) list"

record os =
  refused_call :: "local_call \<Rightarrow> bool"
  effective_user :: nat
  real_path :: "string \<Rightarrow> string option"
  mode_mask :: u32
  part_written :: "string \<Rightarrow> nat"

datatype os_error = OsMissing | OsExists | OsFailed

definition lstat :: "os \<Rightarrow> local_tree \<Rightarrow> string \<Rightarrow> os_error + local_file" where
  "lstat os fs p = (if refused_call os (LstatCall p) then Inl OsFailed else ok_or OsMissing (hget fs p))"

text \<open>\<open>mode & 0o077\<close>: something for the group or for others.\<close>

definition open_to_others :: "local_file \<Rightarrow> bool" where
  "open_to_others f \<longleftrightarrow> and (lf_mode f) 0x3F \<noteq> 0"

definition permission_bits :: "local_file \<Rightarrow> u32" where
  "permission_bits f = and (lf_mode f) 0x1FF"

end
