(* ===== verification/Git_Text.thy ===== *)
theory Git_Text
  imports Machines
begin

text \<open>
  \<^verbatim>\<open>crates/c6-git/src/lib.rs\<close>, the parts that only look at text: the errors, the limits, the
  validators of repository names, branches, paths, identities, messages and change sets, and the
  parsers of what git prints.  Bytes git prints and file contents are \<open>string\<close>, the list of their
  bytes; \<open>utf8\<close> checks that they are the UTF-8 of a text.
\<close>

section \<open>Data\<close>

datatype git_error =
    InvalidSlug string
  | InvalidRef string
  | InvalidPath string
  | InvalidMetadata string
  | AlreadyExists string
  | RepositoryMissing string
  | RevisionNotFound string
  | LimitExceeded string
  | ConcurrentUpdate
  | GitUnavailable
  | CommandFailed string
  | InvalidOutput string
  | GitIo

record git_limits =
  max_changes :: nat
  max_file_bytes :: nat
  max_total_bytes :: nat
  max_read_bytes :: nat
  max_log_entries :: nat

definition default_limits :: git_limits where
  "default_limits = \<lparr>max_changes = 100, max_file_bytes = 1048576, max_total_bytes = 10485760,
     max_read_bytes = 2097152, max_log_entries = 500\<rparr>"

record branch =
  branch_name :: string
  branch_oid :: string

record git_commit =
  commit_oid :: string
  parent_oids :: "string list"
  author_name :: string
  author_email :: string
  authored_at :: string
  commit_message :: string

datatype entry_kind = Blob | Tree | Commit

record tree_entry =
  entry_path :: string
  entry_oid :: string
  entry_kind_of :: entry_kind
  entry_size :: "nat option"

record commit_identity =
  ident_name :: string
  ident_email :: string

datatype file_change = Upsert string string | Delete string

datatype merge_result =
    AlreadyUpToDate string
  | FastForward string
  | Merged string
  | Conflicted "string list"

section \<open>Validators\<close>

abbreviation ends_with :: "string \<Rightarrow> string \<Rightarrow> bool" where
  "ends_with s t \<equiv> suffix t s"

definition validate_store_slug :: "string \<Rightarrow> git_error + unit" where
  "validate_store_slug s =
     (if 1 \<le> length s \<and> length s \<le> 64 \<and> ascii_alnum (hd s)
         \<and> list_all (\<lambda>c. ascii_alnum c \<or> c = CHR ''-'' \<or> c = CHR ''_'') s \<and> \<not> ends_with s ''.git''
      then Inr () else Inl (InvalidSlug s))"

text \<open>
  The characters a branch may not hold are ASCII, and no byte of another character is ASCII, so
  looking at bytes is looking at characters.
\<close>

definition branch_char_bad :: "char \<Rightarrow> bool" where
  "branch_char_bad c \<longleftrightarrow> ord c < 32 \<or> ord c = 127 \<or> c \<in> set '' ~^:?*['' \<or> c = CHR 0x5C"

definition validate_branch :: "string \<Rightarrow> git_error + unit" where
  "validate_branch b =
     fail_if (b = [] \<or> 255 < length b \<or> prefix ''-'' b \<or> prefix ''/'' b \<or> ends_with b ''/''
        \<or> ends_with b ''.'' \<or> contains_str ''..'' b \<or> contains_str [CHR ''@'', CHR 0x7B] b \<or> contains_str ''//'' b
        \<or> ends_with b ''.lock'' \<or> list_ex (prefix ''.'') (split_on (CHR ''/'') b)
        \<or> list_ex branch_char_bad b)
      (InvalidRef b)"

definition validate_ref :: "string \<Rightarrow> git_error + unit" where
  "validate_ref r = validate_branch r"

definition path_part_bad :: "string \<Rightarrow> bool" where
  "path_part_bad p \<longleftrightarrow> p = [] \<or> p = ''.'' \<or> p = ''..'' \<or> map to_lower p = ''.git''"

definition validate_repo_path :: "string \<Rightarrow> git_error + unit" where
  "validate_repo_path p =
     fail_if (p = [] \<or> 4096 < length p \<or> prefix ''/'' p \<or> prefix ''-'' p \<or> ends_with p ''/''
        \<or> CHR 0x5C \<in> set p \<or> list_ex (\<lambda>c. ord c = 0 \<or> ord c < 32 \<or> ord c = 127) p
        \<or> list_ex path_part_bad (split_on (CHR ''/'') p))
      (InvalidPath p)"

definition validate_commit_identity :: "commit_identity \<Rightarrow> git_error + unit" where
  "validate_commit_identity i =
     (let n = ident_name i; e = ident_email i in
      if (trim n \<noteq> [] \<and> length n \<le> 200
           \<and> \<not> list_ex (\<lambda>c. ord c = 0 \<or> ord c = 10 \<or> ord c = 13) n)
         \<and> (e \<noteq> [] \<and> length e \<le> 320 \<and> CHR ''@'' \<in> set e
           \<and> \<not> list_ex (\<lambda>c. ord c \<le> 32 \<or> ord c = 127 \<or> c = CHR ''<'' \<or> c = CHR ''>'') e)
      then Inr () else Inl (InvalidMetadata ''invalid author name or email''))"

definition validate_message :: "string \<Rightarrow> git_error + unit" where
  "validate_message m =
     fail_if (trim m = [] \<or> 65536 < length m \<or> CHR 0x00 \<in> set m) (InvalidMetadata ''invalid commit message'')"

primrec change_path :: "file_change \<Rightarrow> string" where
  "change_path (Upsert p c) = p"
| "change_path (Delete p) = p"

primrec change_size :: "file_change \<Rightarrow> nat" where
  "change_size (Upsert p c) = length c"
| "change_size (Delete p) = 0"

text \<open>The loop of \<open>validate_changes\<close>, with the running total and the paths seen.\<close>

primrec check_changes :: "git_limits \<Rightarrow> nat \<Rightarrow> string list \<Rightarrow> file_change list \<Rightarrow> git_error + nat" where
  "check_changes lim n seen [] = Inr n"
| "check_changes lim n seen (c # cs) =
     andThen (validate_repo_path (change_path c))
    (andThen (fail_if (change_path c \<in> set seen) (InvalidPath ''duplicate changed path''))
    (andThen (fail_if (max_file_bytes lim < change_size c) (LimitExceeded ''file change is too large''))
    (rbind (ok_or (LimitExceeded ''change size overflow'') (checked_add64 n (change_size c)))
       (\<lambda>n'. check_changes lim n' (change_path c # seen) cs))))"

definition validate_changes :: "git_limits \<Rightarrow> file_change list \<Rightarrow> git_error + unit" where
  "validate_changes lim cs =
     (if cs = [] \<or> max_changes lim < length cs then Inl (LimitExceeded ''invalid number of file changes'')
      else rbind (check_changes lim 0 [] cs) (\<lambda>n.
        fail_if (max_total_bytes lim < n) (LimitExceeded ''total change size is too large'')))"

definition is_oid :: "string \<Rightarrow> bool" where
  "is_oid v \<longleftrightarrow> (length v = 40 \<or> length v = 64) \<and> list_all ascii_hexdigit v"

section \<open>What git prints\<close>

text \<open>\<open>std::str::from_utf8\<close>: the well-formed byte sequences of the Unicode standard.\<close>

fun utf8_second :: "nat \<Rightarrow> char \<Rightarrow> bool" where
  "utf8_second n b \<longleftrightarrow> utf8_cont b
     \<and> (n = 224 \<longrightarrow> 160 \<le> ord b) \<and> (n = 237 \<longrightarrow> ord b \<le> 159)
     \<and> (n = 240 \<longrightarrow> 144 \<le> ord b) \<and> (n = 244 \<longrightarrow> ord b \<le> 143)"

fun utf8_valid :: "string \<Rightarrow> bool" where
  "utf8_valid [] = True"
| "utf8_valid (a # s) =
     (let n = ord a in
      if n < 128 then utf8_valid s
      else if 194 \<le> n \<and> n \<le> 223 then
        (case s of b # r \<Rightarrow> utf8_cont b \<and> utf8_valid r | _ \<Rightarrow> False)
      else if 224 \<le> n \<and> n \<le> 239 then
        (case s of b # c # r \<Rightarrow> utf8_second n b \<and> utf8_cont c \<and> utf8_valid r | _ \<Rightarrow> False)
      else if 240 \<le> n \<and> n \<le> 244 then
        (case s of b # c # d # r \<Rightarrow> utf8_second n b \<and> utf8_cont c \<and> utf8_cont d \<and> utf8_valid r | _ \<Rightarrow> False)
      else False)"

definition utf8 :: "string \<Rightarrow> git_error + string" where
  "utf8 b = (if utf8_valid b then Inr b else Inl (InvalidOutput ''git emitted non-UTF-8 metadata''))"

definition trim_ascii :: "string \<Rightarrow> string" where
  "trim_ascii b = rev (dropWhile ascii_ws (rev b))"

text \<open>\<open>splitn(n, c)\<close>.\<close>

fun splitn :: "nat \<Rightarrow> 'a \<Rightarrow> 'a list \<Rightarrow> 'a list list" where
  "splitn 0 c s = []"
| "splitn (Suc 0) c s = [s]"
| "splitn (Suc (Suc n)) c s =
     (case split_once c s of None \<Rightarrow> [s] | Some (p, q) \<Rightarrow> p # splitn (Suc n) c q)"

text \<open>\<open>str::parse::<u64>\<close>.\<close>

definition parse_u64 :: "string \<Rightarrow> nat option" where
  "parse_u64 s =
     (let d = (case s of c # t \<Rightarrow> if c = CHR ''+'' then t else s | [] \<Rightarrow> []) in
      if d \<noteq> [] \<and> list_all ascii_digit d \<and> read_nat d < 2 ^ 64 then Some (read_nat d) else None)"

definition parse_tree_record :: "string \<Rightarrow> git_error + tree_entry" where
  "parse_tree_record rec =
     rbind (ok_or (InvalidOutput ''tree record lacks path'') (split_once (CHR 0x09) rec)) (\<lambda>(h, p).
     rbind (utf8 h) (\<lambda>h. rbind (utf8 p) (\<lambda>path.
     case split_whitespace h of
       [mode, kind, oid, len] \<Rightarrow>
         rbind (if kind = ''blob'' then Inr Blob else if kind = ''tree'' then Inr Tree
             else if kind = ''commit'' then Inr Commit
             else Inl (InvalidOutput ''unknown tree entry type'')) (\<lambda>k.
         rbind (if len = ''-'' then Inr None
             else rbind (ok_or (InvalidOutput ''invalid tree size'') (parse_u64 len)) (\<lambda>n. Inr (Some n))) (\<lambda>sz.
         Inr \<lparr>entry_path = path, entry_oid = oid, entry_kind_of = k, entry_size = sz\<rparr>))
     | _ \<Rightarrow> Inl (InvalidOutput ''malformed tree record''))))"

definition parse_tree_entries :: "string \<Rightarrow> git_error + tree_entry list" where
  "parse_tree_entries b = map_res parse_tree_record (filter (\<lambda>r. r \<noteq> []) (split_on (CHR 0x00) b))"

definition parse_exact_tree_entry :: "string \<Rightarrow> string \<Rightarrow> git_error + tree_entry" where
  "parse_exact_tree_entry b path =
     rbind (parse_tree_entries b) (\<lambda>es. case es of
       [e] \<Rightarrow> if entry_path e = path then Inr e else Inl (InvalidOutput ''ambiguous tree path'')
     | [] \<Rightarrow> Inl (RepositoryMissing path)
     | _ \<Rightarrow> Inl (InvalidOutput ''ambiguous tree path''))"

definition parse_branch_line :: "string \<Rightarrow> git_error + branch" where
  "parse_branch_line line =
     (case splitn 2 (CHR 0x00) line of
        [n, v] \<Rightarrow> rbind (utf8 n) (\<lambda>n. rbind (utf8 v) (\<lambda>v. Inr \<lparr>branch_name = n, branch_oid = v\<rparr>))
      | _ \<Rightarrow> Inl (InvalidOutput ''malformed branch record''))"

definition output_lines :: "string \<Rightarrow> string list" where
  "output_lines b = filter (\<lambda>l. l \<noteq> []) (split_on (CHR 0x0A) b)"

definition parse_branches :: "string \<Rightarrow> git_error + branch list" where
  "parse_branches b = map_res parse_branch_line (output_lines b)"

definition parse_commit :: "string \<Rightarrow> git_error + git_commit" where
  "parse_commit b =
     (case splitn 6 (CHR 0x00) b of
        [h, ps, an, ae, t, m] \<Rightarrow>
          rbind (utf8 h) (\<lambda>h. rbind (utf8 ps) (\<lambda>ps. rbind (utf8 an) (\<lambda>an. rbind (utf8 ae) (\<lambda>ae.
          rbind (utf8 t) (\<lambda>t. rbind (utf8 m) (\<lambda>m.
          Inr \<lparr>commit_oid = h, parent_oids = split_whitespace ps, author_name = an, author_email = ae,
            authored_at = t, commit_message = rev (dropWhile (\<lambda>c. c = CHR 0x0A) (rev m))\<rparr>))))))
      | _ \<Rightarrow> Inl (InvalidOutput ''malformed commit record''))"

section \<open>Paths and branches stay where they belong\<close>

lemma split_on_Cons_empty: "hd (split_on c xs) = [] \<longleftrightarrow> xs = [] \<or> prefix [c] xs"
  by (cases xs) (auto split: list.splits)

lemma split_on_hd_tl: "[] \<notin> set (split_on c s) \<longleftrightarrow> hd (split_on c s) \<noteq> [] \<and> [] \<notin> set (tl (split_on c s))"
  by (cases "split_on c s") auto

lemma split_on_tl_iff: "[] \<notin> set (tl (split_on c s)) \<longleftrightarrow> \<not> suffix [c] s \<and> \<not> contains_str [c, c] s"
proof (induction s)
  case Nil
  then show ?case by simp
next
  case (Cons x xs)
  show ?case
  proof (cases "x = c")
    case True
    then have "[] \<notin> set (tl (split_on c (x # xs))) \<longleftrightarrow> (xs \<noteq> [] \<and> \<not> prefix [c] xs) \<and> [] \<notin> set (tl (split_on c xs))"
      using split_on_hd_tl [of c xs] split_on_Cons_empty [of c xs] by simp
    also have "\<dots> \<longleftrightarrow> \<not> suffix [c] (x # xs) \<and> \<not> contains_str [c, c] (x # xs)"
      unfolding Cons.IH using True by (auto simp: suffix_Cons)
    finally show ?thesis .
  next
    case False
    then have "tl (split_on c (x # xs)) = tl (split_on c xs)" by (simp split: list.splits)
    moreover have "suffix [c] (x # xs) \<longleftrightarrow> suffix [c] xs" using False by (auto simp: suffix_Cons)
    ultimately show ?thesis using Cons.IH False by simp
  qed
qed

lemma split_on_nonempty_iff:
  "[] \<notin> set (split_on c s) \<longleftrightarrow> s \<noteq> [] \<and> \<not> prefix [c] s \<and> \<not> suffix [c] s \<and> \<not> contains_str [c, c] s"
  unfolding split_on_hd_tl split_on_Cons_empty split_on_tl_iff by blast

text \<open>
  What an accepted branch is: a nonempty sequence of components separated by single slashes, none
  of them empty or starting with a dot, without the byte sequences git gives a meaning to.
\<close>

definition branch_ok :: "string \<Rightarrow> bool" where
  "branch_ok b \<longleftrightarrow> length b \<le> 255 \<and> list_all (\<lambda>c. \<not> branch_char_bad c) b \<and> \<not> prefix ''-'' b
     \<and> list_all (\<lambda>p. p \<noteq> [] \<and> \<not> prefix ''.'' p) (split_on (CHR ''/'') b)
     \<and> \<not> contains_str ''..'' b \<and> \<not> contains_str [CHR ''@'', CHR 0x7B] b \<and> \<not> suffix ''.'' b \<and> \<not> suffix ''.lock'' b"

lemma nonempty_pieces:
  "list_all (\<lambda>p. p \<noteq> []) (split_on (CHR ''/'') b) \<longleftrightarrow>
     b \<noteq> [] \<and> \<not> prefix ''/'' b \<and> \<not> suffix ''/'' b \<and> \<not> contains_str ''//'' b"
proof -
  have "list_all (\<lambda>p. p \<noteq> []) ps \<longleftrightarrow> [] \<notin> set ps" for ps :: "string list" by (auto simp: list_all_iff)
  then show ?thesis by (simp add: split_on_nonempty_iff)
qed

lemma list_all_and: "list_all (\<lambda>x. P x \<and> Q x) xs \<longleftrightarrow> list_all P xs \<and> list_all Q xs"
  by (auto simp: list_all_iff)

lemma list_ex_not: "list_ex P xs \<longleftrightarrow> \<not> list_all (\<lambda>x. \<not> P x) xs"
  by (auto simp: list_all_iff list_ex_iff)

lemma validate_branch_iff: "validate_branch b = Inr () \<longleftrightarrow> branch_ok b"
  unfolding validate_branch_def branch_ok_def fail_if_Inr_iff list_all_and nonempty_pieces list_ex_not not_less [symmetric]
  by satx

text \<open>How a file system reads a path from a directory: what \<open>..\<close> and the rest do.\<close>

fun walk :: "string list \<Rightarrow> string list \<Rightarrow> string list" where
  "walk d [] = d"
| "walk d (p # ps) = walk (if p = [] \<or> p = ''.'' then d else if p = ''..'' then butlast d else d @ [p]) ps"

lemma walk_plain:
  "list_all (\<lambda>p. p \<noteq> [] \<and> p \<noteq> ''.'' \<and> p \<noteq> ''..'') ps \<Longrightarrow> walk d ps = d @ ps"
  by (induction ps arbitrary: d) auto

definition repo_path_ok :: "string \<Rightarrow> bool" where
  "repo_path_ok p \<longleftrightarrow> length p \<le> 4096 \<and> \<not> prefix ''-'' p \<and> CHR 0x5C \<notin> set p
     \<and> list_all (\<lambda>c. \<not> ascii_control c) p \<and> list_all (\<lambda>q. \<not> path_part_bad q) (split_on (CHR ''/'') p)"

lemma validate_repo_path_iff: "validate_repo_path p = Inr () \<longleftrightarrow> repo_path_ok p"
proof -
  have ctl: "list_ex (\<lambda>c. ord c = 0 \<or> ord c < 32 \<or> ord c = 127) p \<longleftrightarrow> \<not> list_all (\<lambda>c. \<not> ascii_control c) p"
    by (fastforce simp: list_ex_iff list_all_iff ascii_control_def)
  have parts: "list_all (\<lambda>q. \<not> path_part_bad q) (split_on (CHR ''/'') p) \<Longrightarrow>
      p \<noteq> [] \<and> \<not> prefix ''/'' p \<and> \<not> suffix ''/'' p"
    using split_on_nonempty_iff [of "CHR ''/''" p] by (auto simp: list_all_iff path_part_bad_def)
  show ?thesis
    unfolding validate_repo_path_def repo_path_ok_def fail_if_Inr_iff ctl
    using parts by (auto simp: list_all_iff list_ex_iff)
qed

text \<open>
  Repository names cannot leave the place they are used in.  The path of an accepted file
  change, walked from any directory, ends below it at exactly its own components, none of them a
  \<open>.git\<close> directory in any case; and an accepted branch, as the reference \<open>refs/heads/branch\<close>,
  stays below \<open>refs/heads\<close> and can be read neither as an option nor as a revision expression.
\<close>

theorem accepted_names_stay_inside:
  assumes "validate_repo_path p = Inr ()" and "validate_branch b = Inr ()"
  shows "walk d (split_on (CHR ''/'') p) = d @ split_on (CHR ''/'') p
    \<and> ''.git'' \<notin> map to_lower ` set (split_on (CHR ''/'') p)
    \<and> walk d (split_on (CHR ''/'') (''refs/heads/'' @ b)) = d @ [''refs'', ''heads''] @ split_on (CHR ''/'') b
    \<and> \<not> prefix ''-'' p \<and> \<not> prefix ''-'' b \<and> \<not> contains_str ''..'' b \<and> CHR ''^'' \<notin> set b \<and> CHR '':'' \<notin> set b"
proof -
  have p: "list_all (\<lambda>q. \<not> path_part_bad q) (split_on (CHR ''/'') p)" "\<not> prefix ''-'' p"
    using assms(1) by (simp_all add: validate_repo_path_iff repo_path_ok_def)
  have parts: "list_all (\<lambda>q. q \<noteq> [] \<and> q \<noteq> ''.'' \<and> q \<noteq> ''..'') (split_on (CHR ''/'') p)"
    by (rule list.pred_mono_strong [OF p(1)]) (simp add: path_part_bad_def)
  have "map to_lower q \<noteq> ''.git''" if "q \<in> set (split_on (CHR ''/'') p)" for q
  proof -
    from p(1) that have "\<not> path_part_bad q" unfolding list_all_iff by (rule bspec)
    then show ?thesis unfolding path_part_bad_def by satx
  qed
  note not_git = this
  have git: "''.git'' \<notin> map to_lower ` set (split_on (CHR ''/'') p)"
  proof
    assume "''.git'' \<in> map to_lower ` set (split_on (CHR ''/'') p)"
    then obtain q where "''.git'' = map to_lower q" "q \<in> set (split_on (CHR ''/'') p)" by (rule imageE)
    then show False using not_git [of q] by simp
  qed
  have b: "branch_ok b" using assms(2) by (simp add: validate_branch_iff)
  then have words: "list_all (\<lambda>q. q \<noteq> [] \<and> \<not> prefix ''.'' q) (split_on (CHR ''/'') b)"
    and bad: "list_all (\<lambda>c. \<not> branch_char_bad c) b"
    and rest: "\<not> prefix ''-'' b" "\<not> contains_str ''..'' b"
    by (simp_all add: branch_ok_def)
  have words: "list_all (\<lambda>q. q \<noteq> [] \<and> q \<noteq> ''.'' \<and> q \<noteq> ''..'') (split_on (CHR ''/'') b)"
    by (rule list.pred_mono_strong [OF words]) auto
  have heads: "split_on (CHR ''/'') (''refs/heads/'' @ b) = [''refs'', ''heads''] @ split_on (CHR ''/'') b"
    using split_on_append_sep [of "CHR ''/''" "''refs''" "''heads/'' @ b"]
      split_on_append_sep [of "CHR ''/''" "''heads''" b] by simp
  have "walk d (split_on (CHR ''/'') (''refs/heads/'' @ b)) = d @ [''refs'', ''heads''] @ split_on (CHR ''/'') b"
    unfolding heads using walk_plain [OF words, of "d @ [''refs'', ''heads'']"] by simp
  moreover have "CHR ''^'' \<notin> set b" "CHR '':'' \<notin> set b"
    using bad by (auto simp: list_all_iff branch_char_bad_def)
  ultimately show ?thesis using walk_plain [OF parts, of d] git p(2) rest by blast
qed

theorem accepted_names_stay_inside_witness:
  "walk [''repo''] (split_on (CHR ''/'') ''src/main.rs'') = [''repo'', ''src'', ''main.rs'']
   \<and> walk [''repo''] (split_on (CHR ''/'') (''refs/heads/'' @ ''feature/x'')) = [''repo'', ''refs'', ''heads'', ''feature'', ''x'']"
proof -
  have p: "validate_repo_path ''src/main.rs'' = Inr ()" by code_simp
  have b: "validate_branch ''feature/x'' = Inr ()" by code_simp
  show ?thesis using accepted_names_stay_inside [OF p b, of "[''repo'']"] by simp
qed

section \<open>Change sets\<close>

definition changes_ok :: "git_limits \<Rightarrow> file_change list \<Rightarrow> bool" where
  "changes_ok lim cs \<longleftrightarrow> cs \<noteq> [] \<and> length cs \<le> max_changes lim
     \<and> list_all (\<lambda>c. repo_path_ok (change_path c) \<and> change_size c \<le> max_file_bytes lim) cs
     \<and> distinct (map change_path cs) \<and> sum_list (map change_size cs) \<le> max_total_bytes lim"

lemma check_changes_Inr:
  "check_changes lim n seen cs = Inr m \<longleftrightarrow>
     list_all (\<lambda>c. repo_path_ok (change_path c) \<and> change_size c \<le> max_file_bytes lim) cs
     \<and> distinct (map change_path cs) \<and> set (map change_path cs) \<inter> set seen = {}
     \<and> m = n + sum_list (map change_size cs) \<and> (cs = [] \<or> m < 2 ^ 64)"
proof (induction cs arbitrary: n seen)
  case Nil
  then show ?case by auto
next
  case (Cons c cs)
  show ?case
    by (auto simp: result_simps Cons.IH validate_repo_path_iff checked_add64_def not_less
        split: if_splits)
qed

text \<open>
  C38: the change set of a commit is checked exactly: it is accepted if and only if it has between
  one and 100 changes with valid, pairwise different paths, none larger than 1 MiB and 10 MiB in
  total, whatever the order of the checks and without the running total wrapping around.
\<close>

theorem validate_changes_exact:
  "validate_changes default_limits cs = Inr () \<longleftrightarrow> changes_ok default_limits cs"
  by (auto simp: validate_changes_def changes_ok_def result_simps check_changes_Inr not_less default_limits_def)

section \<open>Reading a tree listing\<close>

primrec kind_text :: "entry_kind \<Rightarrow> string" where
  "kind_text Blob = ''blob''"
| "kind_text Tree = ''tree''"
| "kind_text Commit = ''commit''"

text \<open>
  One record of \<open>git ls-tree -z -l\<close>: the mode, the kind, the object, the size right-aligned with
  blanks (a minus for what has none), a tab and the path, ended by a zero byte.
\<close>

definition render_entry :: "string \<Rightarrow> nat \<Rightarrow> tree_entry \<Rightarrow> string" where
  "render_entry mode pad e = mode @ CHR '' '' # kind_text (entry_kind_of e) @ CHR '' '' # entry_oid e
     @ CHR '' '' # replicate pad (CHR '' '')
     @ (case entry_size e of None \<Rightarrow> ''-'' | Some n \<Rightarrow> show_nat n) @ CHR 0x09 # entry_path e"

definition graphic :: "string \<Rightarrow> bool" where
  "graphic w \<longleftrightarrow> w \<noteq> [] \<and> list_all (\<lambda>c. 33 \<le> ord c \<and> ord c \<le> 126) w"

definition listed :: "string \<Rightarrow> tree_entry \<Rightarrow> bool" where
  "listed mode e \<longleftrightarrow> graphic mode \<and> graphic (entry_oid e) \<and> utf8_valid (entry_path e)
     \<and> CHR 0x00 \<notin> set (entry_path e) \<and> (case entry_size e of None \<Rightarrow> True | Some n \<Rightarrow> n < 2 ^ 64)"

lemma words_by_map: "words_by p (map f xs) = map (map f) (words_by (p \<circ> f) xs)"
  by (induction "p \<circ> f" xs rule: words_by.induct)
    (simp_all add: takeWhile_map dropWhile_map comp_def)

lemma words_by_word:
  assumes "w \<noteq> []" and "\<And>c. c \<in> set w \<Longrightarrow> \<not> p c" and "p x"
  shows "words_by p (w @ x # r) = w # words_by p r"
proof (cases w)
  case (Cons c cs)
  have "\<And>d. d \<in> set cs \<Longrightarrow> \<not> p d" using assms(2) Cons by simp
  then have "takeWhile (\<lambda>y. \<not> p y) (cs @ x # r) = cs" "dropWhile (\<lambda>y. \<not> p y) (cs @ x # r) = x # r"
    using assms(3) by (simp_all add: takeWhile_tail dropWhile_append3)
  then show ?thesis using assms(2,3) Cons by simp
qed (use assms in simp)

lemma words_by_last:
  assumes "w \<noteq> []" and "\<And>c. c \<in> set w \<Longrightarrow> \<not> p c"
  shows "words_by p w = [w]"
proof (cases w)
  case (Cons c cs)
  have "\<And>d. d \<in> set cs \<Longrightarrow> \<not> p d" using assms(2) Cons by simp
  then have "takeWhile (\<lambda>y. \<not> p y) cs = cs" "dropWhile (\<lambda>y. \<not> p y) cs = []"
    by (simp_all add: takeWhile_eq_all_conv dropWhile_eq_Nil_conv)
  note ends = this
  have "\<not> p c" using assms(2) Cons by simp
  then show ?thesis unfolding Cons words_by.simps ends by simp
qed (use assms in simp)

lemma words_by_blanks: "p x \<Longrightarrow> words_by p (replicate n x @ r) = words_by p r"
  by (induction n) auto

lemma split_whitespace_ascii:
  assumes "list_all (\<lambda>c. ord c < 128) s"
  shows "split_whitespace s = words_by (\<lambda>c. char_whitespace [c]) s"
proof -
  have "utf8_chars s = map (\<lambda>c. [c]) s" using assms by (intro utf8_chars_ascii) (simp add: list_all_iff)
  then show ?thesis by (simp add: split_whitespace_def words_by_map comp_def)
qed

lemma utf8_valid_ascii: "list_all (\<lambda>c. ord c < 128) s \<Longrightarrow> utf8_valid s"
  by (induction s) (simp_all add: Let_def)

lemma graphic_char: "graphic w \<Longrightarrow> c \<in> set w \<Longrightarrow> ord c < 128 \<and> ord c \<noteq> 9 \<and> ord c \<noteq> 0 \<and> \<not> char_whitespace [c]"
  by (auto simp: graphic_def list_all_iff char_whitespace_def)

lemma graphic_show_nat: "graphic (show_nat n)"
proof -
  have "show_nat n \<noteq> []" by (simp add: show_nat.simps [of n])
  then show ?thesis using show_nat_digits [of n] by (force simp: graphic_def list_all_iff)
qed

lemma parse_show_nat: "n < 2 ^ 64 \<Longrightarrow> parse_u64 (show_nat n) = Some n"
proof -
  assume n: "n < 2 ^ 64"
  obtain c t where ct: "show_nat n = c # t" using graphic_show_nat [of n] by (cases "show_nat n") (auto simp: graphic_def)
  have "48 \<le> ord c" using show_nat_digits [of n] ct by simp
  then have "c \<noteq> CHR ''+''" by auto
  moreover have "list_all ascii_digit (show_nat n)"
    using show_nat_digits [of n] by (simp add: list_all_iff ascii_digit_def)
  ultimately show ?thesis using n ct read_show_nat [of n] by (simp add: parse_u64_def)
qed

lemma show_nat_not_minus: "show_nat n \<noteq> ''-''"
proof
  assume "show_nat n = ''-''"
  then show False using show_nat_digits [of n] by simp
qed

lemma parse_tree_record_render:
  assumes "listed mode e"
  shows "parse_tree_record (render_entry mode pad e) = Inr e"
proof -
  let ?sz = "case entry_size e of None \<Rightarrow> ''-'' | Some n \<Rightarrow> show_nat n"
  let ?h = "mode @ CHR '' '' # kind_text (entry_kind_of e) @ CHR '' '' # entry_oid e
     @ CHR '' '' # replicate pad (CHR '' '') @ ?sz"
  have m: "graphic mode" "graphic (entry_oid e)" "utf8_valid (entry_path e)" using assms by (simp_all add: listed_def)
  have k: "graphic (kind_text (entry_kind_of e))" by (cases "entry_kind_of e") (simp_all add: graphic_def)
  have z: "graphic ?sz" by (cases "entry_size e") (simp_all add: graphic_show_nat, simp add: graphic_def)
  have ws: "char_whitespace [CHR '' '']" by (simp add: char_whitespace_def)
  have ascii: "list_all (\<lambda>c. ord c < 128) ?h"
    using graphic_char [OF m(1)] graphic_char [OF m(2)] graphic_char [OF k] graphic_char [OF z]
    by (auto simp: list_all_iff)
  have ne: "mode \<noteq> []" "kind_text (entry_kind_of e) \<noteq> []" "entry_oid e \<noteq> []" "?sz \<noteq> []"
    using m k z by (auto simp: graphic_def)
  have tab: "CHR 0x09 \<notin> set ?h"
    using graphic_char [OF m(1)] graphic_char [OF m(2)] graphic_char [OF k] graphic_char [OF z] by force
  have once: "split_once (CHR 0x09) (render_entry mode pad e) = Some (?h, entry_path e)"
    using tab by (simp add: split_once_Some render_entry_def)
  have words: "split_whitespace ?h = [mode, kind_text (entry_kind_of e), entry_oid e, ?sz]"
    unfolding split_whitespace_ascii [OF ascii]
    using graphic_char [OF m(1)] graphic_char [OF m(2)] graphic_char [OF k] graphic_char [OF z] ne ws
    by (simp add: words_by_word words_by_blanks words_by_last)
  have size: "(if ?sz = ''-'' then Inr None
      else rbind (ok_or (InvalidOutput ''invalid tree size'') (parse_u64 ?sz)) (\<lambda>n. Inr (Some n))) = Inr (entry_size e)"
    using assms by (cases "entry_size e") (simp_all add: listed_def show_nat_not_minus parse_show_nat)
  have kind: "(if kind_text k = ''blob'' then Inr Blob else if kind_text k = ''tree'' then Inr Tree
      else if kind_text k = ''commit'' then Inr Commit else Inl (InvalidOutput ''unknown tree entry type'')) = Inr k" for k
    by (cases k) simp_all
  from utf8_valid_ascii [OF ascii] show ?thesis
    unfolding parse_tree_record_def once by (simp only: words ok_or.simps rbind.simps prod.case utf8_def if_True
        m(3) list.case kind size) simp
qed

lemma render_no_zero: "listed mode e \<Longrightarrow> CHR 0x00 \<notin> set (render_entry mode pad e)"
proof -
  assume l: "listed mode e"
  have k: "graphic (kind_text (entry_kind_of e))" by (cases "entry_kind_of e") (simp_all add: graphic_def)
  have "graphic (case entry_size e of None \<Rightarrow> ''-'' | Some n \<Rightarrow> show_nat n)"
    by (cases "entry_size e") (simp_all add: graphic_show_nat, simp add: graphic_def)
  from graphic_char [OF this] graphic_char [OF k] l graphic_char [of mode] graphic_char [of "entry_oid e"]
  show ?thesis by (force simp: render_entry_def listed_def)
qed

text \<open>
  Reading back a listing.  The listing git prints for any sequence of entries, whatever the
  widths of its columns, is read as exactly those entries; and looking for one path in the listing
  of that path alone gives its entry.
\<close>

theorem tree_listing_roundtrip:
  assumes "list_all (\<lambda>(mode, pad, e). listed mode e) es"
  shows "parse_tree_entries (concat (map (\<lambda>(mode, pad, e). render_entry mode pad e @ [CHR 0x00]) es))
     = Inr (map (\<lambda>(mode, pad, e). e) es)"
  using assms
proof (induction es)
  case Nil
  then show ?case by (simp add: parse_tree_entries_def)
next
  case (Cons x es)
  obtain mode pad e where x: "x = (mode, pad, e)" by (cases x)
  with Cons.prems have l: "listed mode e" by simp
  have ne: "render_entry mode pad e \<noteq> []" by (simp add: render_entry_def)
  let ?rest = "concat (map (\<lambda>(mode, pad, e). render_entry mode pad e @ [CHR 0x00]) es)"
  have "split_on (CHR 0x00) (render_entry mode pad e @ CHR 0x00 # ?rest) = render_entry mode pad e # split_on (CHR 0x00) ?rest"
    by (rule split_on_append_sep [OF render_no_zero [OF l]])
  then show ?case
    using Cons.IH Cons.prems x ne by (simp add: parse_tree_entries_def parse_tree_record_render [OF l])
qed

theorem tree_listing_roundtrip_witness:
  "parse_tree_entries (''100644 blob e69de29      12'' @ [CHR 0x09] @ ''README.md'' @ [CHR 0x00])
     = Inr [\<lparr>entry_path = ''README.md'', entry_oid = ''e69de29'', entry_kind_of = Blob, entry_size = Some 12\<rparr>]"
proof -
  let ?e = "\<lparr>entry_path = ''README.md'', entry_oid = ''e69de29'', entry_kind_of = Blob, entry_size = Some 12\<rparr>"
  have l: "list_all (\<lambda>(mode, pad, e). listed mode e) [(''100644'', 5, ?e)]"
    by (simp add: listed_def graphic_def Let_def)
  have "show_nat 12 = ''12''" by code_simp
  then show ?thesis using tree_listing_roundtrip [OF l] by (simp add: render_entry_def numeral_eq_Suc)
qed

end
