(* ===== verification/Connector_Config.thy ===== *)
theory Connector_Config
  imports Connector Tokens Local_Files Git_Text
begin

text \<open>
  \<^verbatim>\<open>crates/c6-connector/src/config.rs\<close>: loading the connector's configuration and its two
  credentials.  TOML and URL parsing are parameters; a parsed URL has the parts the code looks at.
\<close>

section \<open>Values\<close>

record web_url = url +
  url_path :: string
  url_query :: "string option"
  url_fragment :: "string option"

type_synonym url_parser = "string \<Rightarrow> web_url option"

record connector_settings =
  set_cloud_origin :: string
  set_local_origin :: string
  set_installation :: uuid
  set_binding :: uuid
  set_workspace :: uuid
  set_cloud_credential :: string
  set_local_credential :: string
  set_insecure_cloud :: bool
  set_catalog_interval :: u64
  set_request_timeout :: u64
  set_max_in_flight :: u64

definition default_catalog_interval :: u64 where "default_catalog_interval = 60"
definition default_request_timeout :: u64 where "default_request_timeout = 30"
definition default_max_in_flight :: u64 where "default_max_in_flight = 32"

datatype config_error =
    NotRegularFile | UnsafePermissions | ConfigIo | InvalidConfig | InvalidCredential
  | CredentialMustBeSeparate | InvalidCloudOrigin | InvalidLocalOrigin | InvalidLimits

record loaded_config =
  lc_settings :: connector_settings
  lc_cloud_origin :: web_url
  lc_local_origin :: web_url
  lc_cloud_token :: string
  lc_local_token :: string

text \<open>\<open>max_config_bytes\<close> and the bounds of a credential.\<close>

definition max_config_bytes :: nat where "max_config_bytes = 64 * 1024"
definition max_credential_bytes :: nat where "max_credential_bytes = 4 * 1024"
definition min_credential_bytes :: nat where "min_credential_bytes = 32"

section \<open>Checks\<close>

definition validate_config_limits :: "connector_settings \<Rightarrow> config_error + unit" where
  "validate_config_limits s =
     fail_if (\<not> (10 \<le> set_catalog_interval s \<and> set_catalog_interval s \<le> 86400)
       \<or> \<not> (1 \<le> set_request_timeout s \<and> set_request_timeout s \<le> 120)
       \<or> \<not> (1 \<le> set_max_in_flight s \<and> set_max_in_flight s \<le> 32)) InvalidLimits"

definition parse_bare_origin :: "url_parser \<Rightarrow> string \<Rightarrow> web_url option" where
  "parse_bare_origin parse s = (case parse s of
      None \<Rightarrow> None
    | Some u \<Rightarrow> if url_username u \<noteq> [] \<or> url_password u \<noteq> None \<or> url_query u \<noteq> None \<or> url_fragment u \<noteq> None
          \<or> url_path u \<noteq> ''/'' \<or> url_host u = None then None else Some u)"

definition validate_cloud_origin :: "url_parser \<Rightarrow> string \<Rightarrow> bool \<Rightarrow> config_error + web_url" where
  "validate_cloud_origin parse s insecure =
     rbind (ok_or InvalidCloudOrigin (parse_bare_origin parse s)) (\<lambda>u.
       if url_scheme u = ''https''
         \<or> insecure \<and> url_scheme u = ''http'' \<and> url_host u \<in> {Some ''127.0.0.1'', Some ''::1''}
       then Inr u else Inl InvalidCloudOrigin)"

definition validate_local_origin :: "url_parser \<Rightarrow> string \<Rightarrow> config_error + web_url" where
  "validate_local_origin parse s =
     rbind (ok_or InvalidLocalOrigin (parse_bare_origin parse s)) (\<lambda>u.
       if url_scheme u \<noteq> ''http'' \<or> url_host u \<noteq> Some ''127.0.0.1'' \<or> url_port u = None \<or> url_port u = Some 0
       then Inl InvalidLocalOrigin else Inr u)"

definition ensure_owner_only :: "os \<Rightarrow> local_tree \<Rightarrow> string \<Rightarrow> config_error + unit" where
  "ensure_owner_only os fs p =
     rbind (map_err (\<lambda>_. ConfigIo) (lstat os fs p)) (\<lambda>f.
     andThen (fail_if (lf_kind f \<noteq> RegularFile \<or> lf_links f \<noteq> 1) NotRegularFile)
       (fail_if (open_to_others f) UnsafePermissions))"

text \<open>\<open>fs::metadata\<close> and \<open>fs::read_to_string\<close>, which follow a link: the path was a regular file before.\<close>

definition read_bounded_file :: "os \<Rightarrow> local_tree \<Rightarrow> string \<Rightarrow> nat \<Rightarrow> config_error + string" where
  "read_bounded_file os fs p m =
     rbind (ok_or ConfigIo (if refused_call os (MetadataCall p) then None else hget fs p)) (\<lambda>f.
     andThen (fail_if (m < length (lf_data f)) InvalidConfig)
       (if refused_call os (ReadCall p) \<or> \<not> utf8_valid (lf_data f) then Inl ConfigIo else Inr (lf_data f)))"

definition strip_end :: "char \<Rightarrow> string \<Rightarrow> string" where
  "strip_end c s = (if s \<noteq> [] \<and> last s = c then butlast s else s)"

definition credential_byte :: "char \<Rightarrow> bool" where
  "credential_byte c \<longleftrightarrow> 33 \<le> ord c \<and> ord c \<le> 126 \<and> c \<noteq> CHR 0x22 \<and> c \<noteq> CHR 0x5C"

definition load_credential :: "os \<Rightarrow> local_tree \<Rightarrow> string \<Rightarrow> config_error + string" where
  "load_credential os fs p =
     andThen (ensure_owner_only os fs p)
    (rbind (map_err (\<lambda>_. InvalidCredential) (read_bounded_file os fs p max_credential_bytes)) (\<lambda>v.
     let v = strip_end (CHR 0x0D) (strip_end (CHR 0x0A) v) in
     if length v < min_credential_bytes \<or> max_credential_bytes < length v \<or> \<not> list_all credential_byte v
     then Inl InvalidCredential else Inr v))"

definition same_file :: "os \<Rightarrow> string \<Rightarrow> string \<Rightarrow> bool" where
  "same_file os p q = (case (real_path os p, real_path os q) of (Some a, Some b) \<Rightarrow> a = b | _ \<Rightarrow> p = q)"

text \<open>\<open>LoadedConfig::load\<close>.\<close>

definition load_config ::
  "(string \<Rightarrow> connector_settings option) \<Rightarrow> url_parser \<Rightarrow> os \<Rightarrow> local_tree \<Rightarrow> string \<Rightarrow> config_error + loaded_config" where
  "load_config toml parse os fs p =
     andThen (ensure_owner_only os fs p)
    (rbind (read_bounded_file os fs p max_config_bytes) (\<lambda>raw.
     rbind (ok_or InvalidConfig (toml raw)) (\<lambda>s.
     andThen (validate_config_limits s)
    (rbind (validate_cloud_origin parse (set_cloud_origin s) (set_insecure_cloud s)) (\<lambda>cloud.
     rbind (validate_local_origin parse (set_local_origin s)) (\<lambda>local.
     rbind (load_credential os fs (set_cloud_credential s)) (\<lambda>ct.
     rbind (map_err (\<lambda>_. InvalidCredential) (parse_token ct)) (\<lambda>t.
     andThen (fail_if (token_class t \<noteq> token_class.Connector) InvalidCredential)
    (rbind (load_credential os fs (set_local_credential s)) (\<lambda>lt.
     andThen (fail_if (same_file os p (set_cloud_credential s) \<or> same_file os p (set_local_credential s))
        CredentialMustBeSeparate)
       (Inr \<lparr>lc_settings = s, lc_cloud_origin = cloud, lc_local_origin = local, lc_cloud_token = ct,
          lc_local_token = lt\<rparr>)))))))))))"

text \<open>What the runtime takes from it.\<close>

definition runtime_config :: "loaded_config \<Rightarrow> connector_config" where
  "runtime_config c = \<lparr>max_in_flight = unat (set_max_in_flight (lc_settings c)),
     request_timeout_ms = 1000 * unat (set_request_timeout (lc_settings c))\<rparr>"

section \<open>What a loaded configuration is\<close>

definition private_file :: "local_tree \<Rightarrow> string \<Rightarrow> bool" where
  "private_file fs p \<longleftrightarrow> (case hget fs p of None \<Rightarrow> False
     | Some f \<Rightarrow> lf_kind f = RegularFile \<and> lf_links f = 1 \<and> \<not> open_to_others f)"

definition bare_origin :: "web_url \<Rightarrow> bool" where
  "bare_origin u \<longleftrightarrow> url_username u = [] \<and> url_password u = None \<and> url_query u = None \<and> url_fragment u = None
     \<and> url_path u = ''/'' \<and> url_host u \<noteq> None"

definition encrypted_or_loopback :: "bool \<Rightarrow> web_url \<Rightarrow> bool" where
  "encrypted_or_loopback insecure u \<longleftrightarrow> url_scheme u = ''https''
     \<or> insecure \<and> url_scheme u = ''http'' \<and> url_host u \<in> {Some ''127.0.0.1'', Some ''::1''}"

definition local_upstream :: "web_url \<Rightarrow> bool" where
  "local_upstream u \<longleftrightarrow> url_scheme u = ''http'' \<and> url_host u = Some ''127.0.0.1''
     \<and> (\<exists>n. url_port u = Some (Suc n))"

definition credential_ok :: "string \<Rightarrow> bool" where
  "credential_ok v \<longleftrightarrow> min_credential_bytes \<le> length v \<and> length v \<le> max_credential_bytes \<and> list_all credential_byte v"

lemma fail_if_ok [simp]: "fail_if b e = Inr u \<longleftrightarrow> \<not> b"
  by (simp add: fail_if_def)

lemma bare_origin_iff: "parse_bare_origin parse s = Some u \<longleftrightarrow> parse s = Some u \<and> bare_origin u"
  by (auto simp: parse_bare_origin_def bare_origin_def split: option.splits)

lemma cloud_origin_iff:
  "validate_cloud_origin parse s b = Inr u \<longleftrightarrow> parse s = Some u \<and> bare_origin u \<and> encrypted_or_loopback b u"
  by (auto simp: validate_cloud_origin_def encrypted_or_loopback_def bare_origin_iff rbind_Inr_iff ok_or_Inr_iff
      split: if_splits)

lemma local_origin_iff:
  "validate_local_origin parse s = Inr u \<longleftrightarrow> parse s = Some u \<and> bare_origin u \<and> local_upstream u"
  by (auto simp: validate_local_origin_def local_upstream_def bare_origin_iff rbind_Inr_iff ok_or_Inr_iff gr0_conv_Suc
      split: if_splits)

lemma owner_only_file: "ensure_owner_only os fs p = Inr u \<Longrightarrow> private_file fs p"
  by (auto simp: ensure_owner_only_def lstat_def private_file_def rbind_Inr_iff map_err_Inr_iff ok_or_Inr_iff
      split: if_splits)

lemma load_credential_ok:
  "load_credential os fs p = Inr v \<Longrightarrow> private_file fs p \<and> credential_ok v"
  by (auto simp: load_credential_def credential_ok_def rbind_Inr_iff Let_def split: if_splits dest: owner_only_file)

definition config_ok :: "os \<Rightarrow> local_tree \<Rightarrow> string \<Rightarrow> loaded_config \<Rightarrow> bool" where
  "config_ok os fs p c \<longleftrightarrow> (let s = lc_settings c in
     10 \<le> set_catalog_interval s \<and> set_catalog_interval s \<le> 86400
     \<and> 1 \<le> set_request_timeout s \<and> set_request_timeout s \<le> 120
     \<and> 1 \<le> set_max_in_flight s \<and> set_max_in_flight s \<le> 32
     \<and> bare_origin (lc_cloud_origin c) \<and> encrypted_or_loopback (set_insecure_cloud s) (lc_cloud_origin c)
     \<and> bare_origin (lc_local_origin c) \<and> local_upstream (lc_local_origin c)
     \<and> list_all (private_file fs) [p, set_cloud_credential s, set_local_credential s]
     \<and> list_all credential_ok [lc_cloud_token c, lc_local_token c]
     \<and> \<not> same_file os p (set_cloud_credential s) \<and> \<not> same_file os p (set_local_credential s)
     \<and> (case parse_token (lc_cloud_token c) of Inl _ \<Rightarrow> False | Inr t \<Rightarrow> token_class t = token_class.Connector))"

definition requests_at_work :: "connector option \<Rightarrow> nat" where
  "requests_at_work so = (case so of None \<Rightarrow> 0 | Some k \<Rightarrow> live_pending (pending k) + length (active k))"

lemma at_work_limit: "requests_at_work (run_steps (conn_machine codec cfg) (Some (conn_init b)) evs) \<le> max_in_flight cfg"
  using connector.inv_reachable [of cfg codec b evs]
  by (auto simp: requests_at_work_def conn_inv_def conn_ok_def split: option.split)

text \<open>
  C20: a configuration that loads is well-formed: its limits are in range, the cloud is reached over
  TLS or, if that was asked for, over loopback, the local server is a literal loopback origin with a
  port, neither address carries credentials, a path, a query or a fragment, the configuration and
  each credential come from regular files that only their owner can read, no credential comes from
  the configuration file, and the cloud credential is a connector token.  A connector that runs with
  it never works on more requests at once than the configuration says, which is at most 32.
\<close>

theorem loaded_config_well_formed:
  assumes "load_config toml parse os fs p = Inr c"
  shows "config_ok os fs p c
    \<and> requests_at_work (run_steps (conn_machine codec (runtime_config c)) (Some (conn_init b)) evs)
        \<le> unat (set_max_in_flight (lc_settings c))
    \<and> unat (set_max_in_flight (lc_settings c)) \<le> 32"
proof (intro conjI)
  from assms show "config_ok os fs p c"
    by (auto simp: load_config_def config_ok_def Let_def rbind_Inr_iff ok_or_Inr_iff map_err_Inr_iff
        validate_config_limits_def cloud_origin_iff local_origin_iff dest: owner_only_file load_credential_ok)
  then show "unat (set_max_in_flight (lc_settings c)) \<le> 32" by (simp add: config_ok_def Let_def word_le_nat_alt)
  show "requests_at_work (run_steps (conn_machine codec (runtime_config c)) (Some (conn_init b)) evs)
      \<le> unat (set_max_in_flight (lc_settings c))"
    using at_work_limit [of codec "runtime_config c" b evs] by (simp add: runtime_config_def)
qed

text \<open>
  The host text of a URL keeps an IPv6 address in brackets, so the second loopback address that
  \<open>validate_cloud_origin\<close> names is never the host of a parsed URL.
\<close>

lemma bracketed_loopback_refused:
  assumes "parse s = Some u" and "url_scheme u = ''http''" and "url_host u = Some ''[::1]''"
  shows "validate_cloud_origin parse s True = Inl InvalidCloudOrigin"
  using assms by (simp add: validate_cloud_origin_def parse_bare_origin_def)

section \<open>One configuration\<close>

definition desk_settings :: connector_settings where
  "desk_settings = \<lparr>set_cloud_origin = ''https://c'', set_local_origin = ''http://127.0.0.1:8787'',
     set_installation = 1, set_binding = 2, set_workspace = 3, set_cloud_credential = ''/k/cloud'',
     set_local_credential = ''/k/local'', set_insecure_cloud = False, set_catalog_interval = 60,
     set_request_timeout = 30, set_max_in_flight = 32\<rparr>"

definition desk_url :: "string \<Rightarrow> string \<Rightarrow> nat option \<Rightarrow> web_url" where
  "desk_url scheme host port = \<lparr>url_text = scheme @ ''://'' @ host, url_scheme = scheme, url_host = Some host, url_port = port,
     url_username = [], url_password = None, url_path = ''/'', url_query = None, url_fragment = None\<rparr>"

definition desk_urls :: url_parser where
  "desk_urls s = (if s = ''https://c'' then Some (desk_url ''https'' ''c'' None)
     else if s = ''http://127.0.0.1:8787'' then Some (desk_url ''http'' ''127.0.0.1'' (Some 8787)) else None)"

definition owner_file :: "string \<Rightarrow> local_file" where
  "owner_file v = \<lparr>lf_kind = RegularFile, lf_mode = 0x180, lf_owner = 1000, lf_links = 1, lf_data = v\<rparr>"

definition desk_cloud_token :: string where
  "desk_cloud_token = ''c6x_v1_'' @ replicate 16 (CHR ''A'') @ ''_'' @ replicate 32 (CHR ''B'')"

definition desk_files :: local_tree where
  "desk_files = [(''/k/c.toml'', owner_file ''c''), (''/k/cloud'', owner_file (desk_cloud_token @ [CHR 0x0A])),
     (''/k/local'', owner_file (replicate 32 (CHR ''l'')))]"

definition desk_os :: os where
  "desk_os = \<lparr>refused_call = (\<lambda>_. False), effective_user = 1000, real_path = Some, mode_mask = 0x12,
     part_written = (\<lambda>_. 0)\<rparr>"

definition desk_loaded :: loaded_config where
  "desk_loaded = \<lparr>lc_settings = desk_settings, lc_cloud_origin = desk_url ''https'' ''c'' None,
     lc_local_origin = desk_url ''http'' ''127.0.0.1'' (Some 8787), lc_cloud_token = desk_cloud_token,
     lc_local_token = replicate 32 (CHR ''l'')\<rparr>"

lemmas desk_defs = desk_os_def desk_files_def owner_file_def desk_settings_def desk_urls_def desk_url_def

lemma desk_files_private:
  "ensure_owner_only desk_os desk_files ''/k/c.toml'' = Inr ()"
  "ensure_owner_only desk_os desk_files ''/k/cloud'' = Inr ()"
  "ensure_owner_only desk_os desk_files ''/k/local'' = Inr ()"
  by (simp_all add: ensure_owner_only_def lstat_def open_to_others_def desk_defs)

lemma desk_texts: "utf8_valid (desk_cloud_token @ [CHR 0x0A])" "utf8_valid (replicate 32 (CHR ''l''))"
  by code_simp+

lemma strip_end_simps: "strip_end c (s @ [d]) = (if c = d then s else s @ [d])"
  by (auto simp: strip_end_def)

lemma desk_cloud_end: "strip_end (CHR 0x0D) desk_cloud_token = desk_cloud_token"
  by (simp add: desk_cloud_token_def strip_end_def last_append)

lemma desk_credentials:
  "load_credential desk_os desk_files ''/k/cloud'' = Inr desk_cloud_token"
  "load_credential desk_os desk_files ''/k/local'' = Inr (replicate 32 (CHR ''l''))"
proof -
  have "read_bounded_file desk_os desk_files ''/k/cloud'' max_credential_bytes = Inr (desk_cloud_token @ [CHR 0x0A])"
    "read_bounded_file desk_os desk_files ''/k/local'' max_credential_bytes = Inr (replicate 32 (CHR ''l''))"
    by (simp_all add: read_bounded_file_def max_credential_bytes_def desk_os_def desk_files_def owner_file_def desk_texts)
      (simp add: desk_cloud_token_def)
  moreover have "length desk_cloud_token = 56" "list_all credential_byte desk_cloud_token"
    "list_all credential_byte (replicate 32 (CHR ''l''))"
    "strip_end (CHR 0x0D) (strip_end (CHR 0x0A) (replicate 32 (CHR ''l''))) = replicate 32 (CHR ''l'')"
    by (simp_all add: desk_cloud_token_def list_all_iff credential_byte_def strip_end_def)
  ultimately show "load_credential desk_os desk_files ''/k/cloud'' = Inr desk_cloud_token"
    "load_credential desk_os desk_files ''/k/local'' = Inr (replicate 32 (CHR ''l''))"
    by (simp_all add: load_credential_def Let_def desk_files_private strip_end_simps desk_cloud_end
        max_credential_bytes_def min_credential_bytes_def)
qed

lemma desk_token: "parse_token desk_cloud_token
    = Inr \<lparr>token_class = token_class.Connector, public_id = replicate 16 (CHR ''A''), proof_text = replicate 32 (CHR ''B'')\<rparr>"
  by (simp add: parse_token_iff render_token_def token_ok_def desk_cloud_token_def is_base64url_def list_all_length
      ascii_alnum_def ascii_lower_def ascii_upper_def ascii_digit_def)

lemma desk_parts:
  "read_bounded_file desk_os desk_files ''/k/c.toml'' max_config_bytes = Inr ''c''"
  "validate_config_limits desk_settings = Inr ()"
  "validate_cloud_origin desk_urls ''https://c'' False = Inr (desk_url ''https'' ''c'' None)"
  "validate_local_origin desk_urls ''http://127.0.0.1:8787'' = Inr (desk_url ''http'' ''127.0.0.1'' (Some 8787))"
  "\<not> same_file desk_os ''/k/c.toml'' ''/k/cloud''" "\<not> same_file desk_os ''/k/c.toml'' ''/k/local''"
  by (simp_all add: read_bounded_file_def max_config_bytes_def validate_config_limits_def validate_cloud_origin_def
      validate_local_origin_def parse_bare_origin_def same_file_def desk_defs)

lemma desk_fields:
  "set_cloud_origin desk_settings = ''https://c''" "set_local_origin desk_settings = ''http://127.0.0.1:8787''"
  "set_insecure_cloud desk_settings = False" "set_cloud_credential desk_settings = ''/k/cloud''"
  "set_local_credential desk_settings = ''/k/local''"
  by (simp_all add: desk_settings_def)

lemma desk_loads:
  "load_config (\<lambda>raw. if raw = ''c'' then Some desk_settings else None) desk_urls desk_os desk_files ''/k/c.toml'' = Inr desk_loaded"
  by (simp add: load_config_def desk_files_private desk_parts desk_fields desk_credentials desk_token desk_loaded_def)

theorem loaded_config_well_formed_witness:
  "config_ok desk_os desk_files ''/k/c.toml'' desk_loaded
   \<and> requests_at_work (run_steps (conn_machine sample_codec (runtime_config desk_loaded)) (Some (conn_init 10)) sample_events)
       \<le> unat (set_max_in_flight (lc_settings desk_loaded))"
  using loaded_config_well_formed [OF desk_loads, of sample_codec 10 sample_events] by blast

text \<open>Nothing asks for two credential files: one file with a connector token serves as both.\<close>

lemma credentials_may_share_a_file:
  "is_ok (load_config (\<lambda>raw. if raw = ''c'' then Some (desk_settings\<lparr>set_local_credential := ''/k/cloud''\<rparr>) else None)
     desk_urls desk_os desk_files ''/k/c.toml'')"
proof -
  have "validate_config_limits (desk_settings\<lparr>set_local_credential := ''/k/cloud''\<rparr>) = Inr ()"
    using desk_parts(2) by (simp add: validate_config_limits_def)
  then show ?thesis
    by (simp add: load_config_def desk_files_private desk_parts desk_fields desk_credentials desk_token)
qed

end
