(* ===== verification/Cli_Contracts.thy ===== *)
theory Cli_Contracts
  imports Permissions
begin

text \<open>
  The wire types of \<^verbatim>\<open>crates/c6-core/src/api.rs\<close> that the local tools read: the error envelope,
  \<open>whoami\<close>, the project list and a project's remote.  Times are in milliseconds.
\<close>

datatype wire_error_code =
    BadRequest | Unauthenticated | Forbidden | NotFound | Conflict | RateLimited | NotImplemented | Internal

record error_envelope =
  env_code :: wire_error_code
  env_message :: string
  env_request :: "string option"

record status_info =
  sst_claimed :: bool
  sst_id :: uuid
  sst_name :: string

record server_summary =
  ssum_id :: uuid
  ssum_name :: string

record user_summary =
  usum_id :: uuid
  usum_name :: string

record cli_workspace =
  cws_id :: uuid
  cws_slug :: string
  cws_name :: string
  cws_role :: role

record who_am_i =
  who_server :: server_summary
  who_user :: user_summary
  who_workspaces :: "cli_workspace list"

record project_summary =
  psum_id :: uuid
  psum_workspace :: uuid
  psum_slug :: string
  psum_name :: string
  psum_description :: string
  psum_branch :: string
  psum_head :: string
  psum_published :: "string option"
  psum_role :: role
  psum_updated :: int

record transport_capabilities =
  can_fetch :: bool
  can_push :: bool

record remote_info =
  rem_project :: uuid
  rem_clone_url :: string
  rem_capabilities :: transport_capabilities

end
