(* ===== verification/Connector_Catalog.thy ===== *)
theory Connector_Catalog
  imports Connector_Config Cloud_Contracts Identifiers Cli_Contracts
begin

text \<open>
  \<^verbatim>\<open>crates/c6-connector/src/catalog.rs\<close> and the part of \<^verbatim>\<open>main.rs\<close> that drives it: reading the
  projects of the local server, building the snapshot, publishing it to the cloud, at start-up and
  then periodically.  The two HTTP peers and JSON are parameters; the last revision is a counter of
  the process.
\<close>

section \<open>Values\<close>

datatype catalog_error =
    LocalAuthenticationRejected | CloudAuthenticationRejected | InvalidLocalCatalog | CatProtocol
  | CatTransport | CatRejected

definition is_authentication_rejection :: "catalog_error \<Rightarrow> bool" where
  "is_authentication_rejection e \<longleftrightarrow> e \<in> {LocalAuthenticationRejected, CloudAuthenticationRejected}"

record catalog_accepted =
  acc_binding :: uuid
  acc_revision :: u64
  acc_projects :: nat

text \<open>What comes back of a request: nothing, or a status, the announced length and the body.\<close>

record peer_reply =
  peer_status :: nat
  peer_length :: "nat option"
  peer_body :: "string option"

definition max_local_response_bytes :: nat where
  "max_local_response_bytes = 4 * 1024 * 1024"

definition decode_bounded :: "(string \<Rightarrow> 'a option) \<Rightarrow> peer_reply \<Rightarrow> catalog_error + 'a" where
  "decode_bounded json r =
     (if (case peer_length r of None \<Rightarrow> False | Some n \<Rightarrow> max_local_response_bytes < n) then Inl CatProtocol
      else case peer_body r of
          None \<Rightarrow> Inl CatTransport
        | Some b \<Rightarrow> if max_local_response_bytes < length b then Inl CatProtocol else ok_or CatProtocol (json b))"

definition rejected_status :: "nat \<Rightarrow> bool" where
  "rejected_status n \<longleftrightarrow> n = 401 \<or> n = 403"

definition success_status :: "nat \<Rightarrow> bool" where
  "success_status n \<longleftrightarrow> 200 \<le> n \<and> n < 300"

section \<open>The snapshot\<close>

definition project_input_of :: "project_summary \<Rightarrow> catalog_error + project_input" where
  "project_input_of p =
     rbind (map_err (\<lambda>_. InvalidLocalCatalog) (project_slug_new (psum_slug p))) (\<lambda>slug.
     let r = \<lparr>pin_local = psum_id p, pin_slug = slug, pin_name = psum_name p, pin_description = psum_description p,
         pin_default_branch = psum_branch p, pin_head_sha = psum_head p, pin_updated_at = psum_updated p\<rparr> in
     andThen (map_err (\<lambda>_. InvalidLocalCatalog) (project_validate r)) (Inr r))"

text \<open>
  \<open>fetch_update\<close> stores the next revision and answers with the one it replaced.  \<open>clock\<close> is the
  time in milliseconds, cut off at the largest \<open>u64\<close>.
\<close>

definition next_revision :: "nat \<Rightarrow> u64 \<Rightarrow> u64 \<times> u64" where
  "next_revision clock lst =
     (lst, max (max (word_of_nat (min clock (2 ^ 64 - 1))) (if lst = -1 then -1 else lst + 1)) 1)"

definition snapshot_request ::
  "connector_settings \<Rightarrow> nat \<Rightarrow> project_summary list \<Rightarrow> u64 \<Rightarrow> (catalog_error + catalog_request) \<times> u64" where
  "snapshot_request s clock ps lst =
     (case map_res project_input_of (filter (\<lambda>p. psum_workspace p = set_workspace s) ps) of
        Inl e \<Rightarrow> (Inl e, lst)
      | Inr rows \<Rightarrow>
          (let (rev, lst') = next_revision clock lst;
               r = \<lparr>creq_binding = set_binding s, creq_revision = rev, creq_projects = rows\<rparr> in
           (andThen (map_err (\<lambda>_. InvalidLocalCatalog) (catalog_validate r)) (Inr r), lst')))"

section \<open>Publishing\<close>

text \<open>
  One attempt: the clock, what the local server answers and what the cloud answers to an upload.
  \<open>client_ready\<close> is the outcome of building the HTTP client and of joining the two addresses.
\<close>

record attempt =
  at_clock :: nat
  client_ready :: bool
  local_url_ok :: bool
  cloud_url_ok :: bool
  local_answer :: "peer_reply option"
  cloud_answer :: "catalog_request \<Rightarrow> peer_reply option"

record catalog_json =
  read_projects :: "string \<Rightarrow> project_summary list option"
  read_accepted :: "string \<Rightarrow> catalog_accepted option"
  read_cloud_error :: "string \<Rightarrow> unit option"

record publisher =
  last_revision :: u64
  uploads :: "catalog_request list"

definition local_projects :: "catalog_json \<Rightarrow> attempt \<Rightarrow> catalog_error + project_summary list" where
  "local_projects J a =
     andThen (fail_if (\<not> client_ready a) CatTransport)
    (andThen (fail_if (\<not> local_url_ok a) CatProtocol)
    (rbind (ok_or CatTransport (local_answer a)) (\<lambda>r.
     andThen (fail_if (rejected_status (peer_status r)) LocalAuthenticationRejected)
    (andThen (fail_if (\<not> success_status (peer_status r)) CatRejected)
       (decode_bounded (read_projects J) r)))))"

definition cloud_verdict ::
  "catalog_json \<Rightarrow> connector_settings \<Rightarrow> catalog_request \<Rightarrow> peer_reply option \<Rightarrow> catalog_error + catalog_accepted" where
  "cloud_verdict J s q r =
     rbind (ok_or CatTransport r) (\<lambda>r.
     andThen (fail_if (rejected_status (peer_status r)) CloudAuthenticationRejected)
    (if \<not> success_status (peer_status r)
     then rbind (map_err (\<lambda>_. CatRejected) (decode_bounded (read_cloud_error J) r)) (\<lambda>_. Inl CatRejected)
     else rbind (decode_bounded (read_accepted J) r) (\<lambda>acc.
       if acc_binding acc \<noteq> set_binding s \<or> acc_revision acc \<noteq> creq_revision q then Inl CatProtocol else Inr acc)))"

definition publish_snapshot ::
  "catalog_json \<Rightarrow> connector_settings \<Rightarrow> attempt \<Rightarrow> publisher \<Rightarrow> (catalog_error + catalog_accepted) \<times> publisher" where
  "publish_snapshot J s a w =
     (case local_projects J a of
        Inl e \<Rightarrow> (Inl e, w)
      | Inr ps \<Rightarrow>
          (case snapshot_request s (at_clock a) ps (last_revision w) of
             (Inl e, lst) \<Rightarrow> (Inl e, w\<lparr>last_revision := lst\<rparr>)
           | (Inr q, lst) \<Rightarrow>
               if \<not> cloud_url_ok a then (Inl CatProtocol, w\<lparr>last_revision := lst\<rparr>)
               else (cloud_verdict J s q (cloud_answer a q), w\<lparr>last_revision := lst, uploads := uploads w @ [q]\<rparr>)))"

text \<open>\<open>run_periodic\<close> on the attempts of its ticks: only a rejected credential ends the loop.\<close>

primrec run_periodic ::
  "catalog_json \<Rightarrow> connector_settings \<Rightarrow> attempt list \<Rightarrow> publisher \<Rightarrow> catalog_error option \<times> publisher" where
  "run_periodic J s [] w = (None, w)"
| "run_periodic J s (a # as) w =
     (case publish_snapshot J s a w of
        (Inl e, w') \<Rightarrow> if is_authentication_rejection e then (Some e, w') else run_periodic J s as w'
      | (Inr _, w') \<Rightarrow> run_periodic J s as w')"

text \<open>\<open>main\<close>: one publication at start-up, whose other failures are only logged, then the loop.\<close>

definition run_catalog ::
  "catalog_json \<Rightarrow> connector_settings \<Rightarrow> attempt \<Rightarrow> attempt list \<Rightarrow> catalog_error option \<times> publisher" where
  "run_catalog J s first ticks =
     (case publish_snapshot J s first \<lparr>last_revision = 0, uploads = []\<rparr> of
        (Inl e, w) \<Rightarrow> if is_authentication_rejection e then (Some e, w) else run_periodic J s ticks w
      | (Inr _, w) \<Rightarrow> run_periodic J s ticks w)"

section \<open>What is uploaded\<close>

definition shared_projects :: "connector_settings \<Rightarrow> project_summary list \<Rightarrow> project_summary list" where
  "shared_projects s ps = filter (\<lambda>p. psum_workspace p = set_workspace s) ps"

text \<open>The row of an upload tells of a project exactly what the local server said of it.\<close>

definition tells_of :: "project_summary \<Rightarrow> project_input \<Rightarrow> bool" where
  "tells_of p r \<longleftrightarrow> pin_local r = psum_id p \<and> pin_slug r = ProjectSlug (psum_slug p) \<and> pin_name r = psum_name p
     \<and> pin_description r = psum_description p \<and> pin_default_branch r = psum_branch p \<and> pin_head_sha r = psum_head p
     \<and> pin_updated_at r = psum_updated p"

definition upload_ok :: "catalog_json \<Rightarrow> connector_settings \<Rightarrow> attempt list \<Rightarrow> catalog_request \<Rightarrow> bool" where
  "upload_ok J s as q \<longleftrightarrow> catalog_validate q = Inr () \<and> creq_binding q = set_binding s
     \<and> list_ex (\<lambda>a. case local_projects J a of Inl _ \<Rightarrow> False
         | Inr ps \<Rightarrow> list_all2 tells_of (shared_projects s ps) (creq_projects q)) as"

text \<open>
  The invariant of the process: uploaded revisions grow, and all lie below the counter unless they
  have reached the largest \<open>u64\<close>.
\<close>

definition revisions_of :: "publisher \<Rightarrow> u64 list" where
  "revisions_of w = map creq_revision (filter (\<lambda>q. creq_revision q \<noteq> -1) (uploads w))"

definition publisher_inv :: "publisher \<Rightarrow> bool" where
  "publisher_inv w \<longleftrightarrow> sorted_wrt (<) (revisions_of w) \<and> list_all (\<lambda>r. r < last_revision w) (revisions_of w)"

lemma word_below_next:
  fixes x :: u64
  assumes "x \<noteq> -1"
  shows "x < x + 1"
proof -
  have "unat x \<noteq> 2 ^ 64 - 1" using assms by (simp add: word_unat_eq_iff unsigned_minus_1_eq_mask mask_eq_exp_minus_1)
  moreover have "unat x < 2 ^ 64" using unsigned_less [of x] by simp
  ultimately show ?thesis by (simp add: word_less_nat_alt unat_word_ariths)
qed

lemma next_revision_grows:
  assumes "next_revision clock lst = (r, lst')"
  shows "r = lst" and "lst = -1 \<Longrightarrow> lst' = -1" and "lst \<noteq> -1 \<Longrightarrow> lst < lst'"
proof -
  have l: "r = lst" "lst' = max (max (word_of_nat (min clock (2 ^ 64 - 1))) (if lst = -1 then -1 else lst + 1)) 1"
    using assms [unfolded next_revision_def] by blast+
  show "r = lst" by (rule l)
  show "lst' = -1" if "lst = -1"
    using l that by (simp add: max_def word_order.extremum_unique)
  show "lst < lst'" if "lst \<noteq> -1"
    using word_below_next [OF that] that l by (simp add: less_max_iff_disj)
qed

definition later_revision :: "u64 \<Rightarrow> u64 \<Rightarrow> bool" where
  "later_revision a b \<longleftrightarrow> (if a = -1 then b = -1 else a < b)"

lemma snapshot_request_revision:
  "snapshot_request s clock ps lst = (r, lst') \<Longrightarrow> lst' = lst \<or> later_revision lst lst'"
  by (auto simp: snapshot_request_def later_revision_def Let_def split: sum.splits prod.splits dest: next_revision_grows)

lemma snapshot_request_ok:
  assumes "snapshot_request s clock ps lst = (Inr q, lst')"
  shows "creq_revision q = lst" and "later_revision lst lst'" and "catalog_validate q = Inr ()"
    and "creq_binding q = set_binding s" and "list_all2 tells_of (shared_projects s ps) (creq_projects q)"
proof -
  obtain rows where rows: "map_res project_input_of (shared_projects s ps) = Inr rows"
    and q: "q = \<lparr>creq_binding = set_binding s, creq_revision = lst, creq_projects = rows\<rparr>"
    and v: "catalog_validate q = Inr ()" and n: "next_revision clock lst = (lst, lst')"
    using assms
    by (auto simp: snapshot_request_def shared_projects_def Let_def rbind_Inr_iff map_err_Inr_iff split: sum.splits prod.splits
        dest: next_revision_grows)
  show "creq_revision q = lst" "creq_binding q = set_binding s" using q by simp_all
  show "later_revision lst lst'" using next_revision_grows [OF n] by (simp add: later_revision_def)
  show "catalog_validate q = Inr ()" by (rule v)
  have "tells_of p r" if "project_input_of p = Inr r" for p r
    using that by (auto simp: project_input_of_def tells_of_def Let_def result_simps)
  then show "list_all2 tells_of (shared_projects s ps) (creq_projects q)"
    using rows q by (auto simp: map_res_Inr_iff intro: list_all2_mono)
qed

lemma publish_step:
  assumes "publish_snapshot J s a w = (r, w')"
  obtains "uploads w' = uploads w" and "last_revision w' = last_revision w \<or> later_revision (last_revision w) (last_revision w')"
  | q where "uploads w' = uploads w @ [q]" and "creq_revision q = last_revision w"
      and "later_revision (last_revision w) (last_revision w')" and "upload_ok J s [a] q"
proof (cases "local_projects J a")
  case (Inl e)
  with assms have "w' = w" by (simp add: publish_snapshot_def)
  then show ?thesis by (intro that(1)) simp_all
next
  case (Inr ps)
  obtain x lst where x: "snapshot_request s (at_clock a) ps (last_revision w) = (x, lst)" by fastforce
  show ?thesis
  proof (cases x)
    case (Inl e)
    with assms Inr x have "w' = w\<lparr>last_revision := lst\<rparr>" by (simp add: publish_snapshot_def)
    then show ?thesis using snapshot_request_revision [OF x] by (intro that(1)) simp_all
  next
    case q: (Inr q)
    note ok = snapshot_request_ok [OF x [unfolded q]]
    show ?thesis
    proof (cases "cloud_url_ok a")
      case True
      with assms Inr x q have "w' = w\<lparr>last_revision := lst, uploads := uploads w @ [q]\<rparr>"
        by (simp add: publish_snapshot_def)
      with ok Inr show ?thesis by (intro that(2) [of q]) (simp_all add: upload_ok_def)
    next
      case False
      with assms Inr x q have "w' = w\<lparr>last_revision := lst\<rparr>" by (simp add: publish_snapshot_def)
      with ok show ?thesis by (intro that(1)) simp_all
    qed
  qed
qed

definition publisher_ok :: "catalog_json \<Rightarrow> connector_settings \<Rightarrow> attempt list \<Rightarrow> publisher \<Rightarrow> bool" where
  "publisher_ok J s as w \<longleftrightarrow> publisher_inv w \<and> list_all (upload_ok J s as) (uploads w)"

lemma upload_ok_more: "upload_ok J s as q \<Longrightarrow> set as \<subseteq> set bs \<Longrightarrow> upload_ok J s bs q"
  by (fastforce simp: upload_ok_def list_ex_iff)

lemma publisher_inv_later:
  "publisher_inv w \<Longrightarrow> uploads w' = uploads w \<Longrightarrow> last_revision w' = last_revision w \<or> later_revision (last_revision w) (last_revision w')
   \<Longrightarrow> publisher_inv w'"
  by (auto simp: publisher_inv_def revisions_of_def later_revision_def list_all_iff split: if_splits)

lemma publisher_inv_upload:
  "publisher_inv w \<Longrightarrow> uploads w' = uploads w @ [q] \<Longrightarrow> creq_revision q = last_revision w
   \<Longrightarrow> later_revision (last_revision w) (last_revision w') \<Longrightarrow> publisher_inv w'"
  by (auto simp: publisher_inv_def revisions_of_def later_revision_def list_all_iff sorted_wrt_append split: if_splits)

lemma publish_keeps:
  assumes "publisher_ok J s bs w" and "publish_snapshot J s a w = (r, w')"
  shows "publisher_ok J s (a # bs) w'"
  using assms(2)
proof (cases rule: publish_step)
  case 1
  with assms(1) show ?thesis
    by (auto simp: publisher_ok_def list_all_iff intro: publisher_inv_later upload_ok_more)
next
  case (2 q)
  with assms(1) show ?thesis
    by (auto simp: publisher_ok_def list_all_iff intro: publisher_inv_upload upload_ok_more)
qed

lemma run_periodic_keeps:
  "publisher_ok J s bs w \<Longrightarrow> publisher_ok J s (rev as @ bs) (snd (run_periodic J s as w))"
proof (induction as arbitrary: bs w)
  case (Cons a as)
  obtain r w' where p: "publish_snapshot J s a w = (r, w')" by fastforce
  note k = publish_keeps [OF Cons.prems p]
  have "publisher_ok J s (rev (a # as) @ bs) w'"
    using k by (auto simp: publisher_ok_def list_all_iff intro: upload_ok_more)
  with Cons.IH [OF k] p show ?case by (simp split: sum.split)
qed simp

lemma run_catalog_ok: "publisher_ok J s (rev as @ [a]) (snd (run_catalog J s a as))"
proof -
  obtain r w where p: "publish_snapshot J s a \<lparr>last_revision = 0, uploads = []\<rparr> = (r, w)" by fastforce
  have "publisher_ok J s [] \<lparr>last_revision = 0, uploads = []\<rparr>"
    by (simp add: publisher_ok_def publisher_inv_def revisions_of_def)
  note k = publish_keeps [OF this p]
  then have "publisher_ok J s (rev as @ [a]) w"
    by (auto simp: publisher_ok_def list_all_iff intro: upload_ok_more)
  with run_periodic_keeps [OF k] p show ?thesis by (simp add: run_catalog_def split: sum.split)
qed

text \<open>
  C30: whatever the clock, the local server and the cloud do, the snapshots that a connector uploads
  over its life have strictly growing revisions (until the counter has reached the largest \<open>u64\<close>),
  and each one passes the cloud's own validation, names the configured binding and lists exactly the
  projects of the configured workspace in one answer of the local server, as that answer had them:
  projects of other workspaces never leave the machine.
\<close>

theorem uploads_valid_and_growing:
  "sorted_wrt (<) (revisions_of (snd (run_catalog J s a as)))
   \<and> list_all (upload_ok J s (a # as)) (uploads (snd (run_catalog J s a as)))"
  using run_catalog_ok [of J s as a]
  by (auto simp: publisher_ok_def publisher_inv_def list_all_iff intro: upload_ok_more)

section \<open>Snapshots that are not uploaded\<close>

lemma zero_revision_refused:
  "\<exists>lst'. snapshot_request s clock ps 0 = (Inl InvalidLocalCatalog, lst')
     \<or> (\<exists>e. map_res project_input_of (shared_projects s ps) = Inl e \<and> snapshot_request s clock ps 0 = (Inl e, lst'))"
  by (auto simp: snapshot_request_def shared_projects_def Let_def next_revision_def catalog_validate_def split: sum.split)

text \<open>
  The publication at start-up never reaches the cloud: the counter answers with the value it
  replaced, so the first snapshot has revision zero, which its own validation refuses.
\<close>

theorem first_snapshot_refused:
  "\<not> is_ok (fst (publish_snapshot J s a \<lparr>last_revision = 0, uploads = []\<rparr>))
   \<and> uploads (snd (publish_snapshot J s a \<lparr>last_revision = 0, uploads = []\<rparr>)) = []"
proof (cases "local_projects J a")
  case (Inr ps)
  obtain e lst where "snapshot_request s (at_clock a) ps 0 = (Inl e, lst)"
    using zero_revision_refused [of s "at_clock a" ps] by blast
  with Inr show ?thesis by (simp add: publish_snapshot_def)
qed (simp add: publish_snapshot_def)

lemma map_res_Inl: "map_res f xs = Inl e \<Longrightarrow> \<exists>x. f x = Inl e"
  by (induction xs) (auto simp: rbind_def split: sum.splits)

lemma project_input_of_error: "project_input_of p = Inl e \<Longrightarrow> e = InvalidLocalCatalog"
  by (auto simp: project_input_of_def Let_def rbind_def map_err_def split: sum.splits)

lemma project_input_of_bounded:
  assumes "project_input_of p = Inr r"
  shows "bounded 0 max_project_description_len (psum_description p)"
proof -
  have "project_validate r = Inr ()" and "pin_description r = psum_description p"
    using assms by (auto simp: project_input_of_def Let_def rbind_Inr_iff map_err_Inr_iff)
  then show ?thesis by (simp add: project_validate_iff)
qed

lemma unpublishable_rows:
  assumes "p \<in> set ps" and "\<not> bounded 0 max_project_description_len (psum_description p)"
  shows "map_res project_input_of ps = Inl InvalidLocalCatalog"
proof (cases "map_res project_input_of ps")
  case (Inl e)
  from map_res_Inl [OF Inl] obtain x where "project_input_of x = Inl e" by (elim exE)
  with Inl show ?thesis by (simp add: project_input_of_error)
next
  case (Inr rows)
  obtain i where i: "i < length ps" "ps ! i = p" using assms(1) by (auto simp: in_set_conv_nth)
  from Inr have "list_all2 (\<lambda>x y. project_input_of x = Inr y) ps rows" by (rule map_res_Inr_iff [THEN iffD1])
  from list_all2_nthD [OF this i(1)] have "project_input_of p = Inr (rows ! i)" using i by simp
  from project_input_of_bounded [OF this] assms(2) show ?thesis by contradiction
qed

text \<open>
  One project of the workspace whose description the cloud would refuse (the local server takes
  line breaks and up to 4096 bytes, the cloud neither) stops every publication: nothing is uploaded,
  and the state of the publisher does not change, so later attempts fail as well.
\<close>

theorem one_description_blocks_catalog:
  assumes "local_projects J a = Inr ps" and "p \<in> set ps" and "psum_workspace p = set_workspace s"
    and "\<not> bounded 0 max_project_description_len (psum_description p)"
  shows "publish_snapshot J s a w = (Inl InvalidLocalCatalog, w)"
proof -
  have "map_res project_input_of (shared_projects s ps) = Inl InvalidLocalCatalog"
    using assms by (intro unpublishable_rows [of p]) (simp_all add: shared_projects_def)
  with assms(1) show ?thesis by (simp add: publish_snapshot_def snapshot_request_def shared_projects_def)
qed

text \<open>A project described in two lines.\<close>

definition two_line_project :: project_summary where
  "two_line_project = \<lparr>psum_id = 7, psum_workspace = 3, psum_slug = ''demo'', psum_name = ''Demo'',
     psum_description = [CHR ''a'', CHR 0x0A, CHR ''b''], psum_branch = ''main'', psum_head = ''abcdef'', psum_published = None,
     psum_role = Owner, psum_updated = 5\<rparr>"

definition desk_json :: catalog_json where
  "desk_json = \<lparr>read_projects = (\<lambda>_. Some [two_line_project]), read_accepted = (\<lambda>_. None), read_cloud_error = (\<lambda>_. None)\<rparr>"

definition desk_attempt :: attempt where
  "desk_attempt = \<lparr>at_clock = 1000, client_ready = True, local_url_ok = True, cloud_url_ok = True,
     local_answer = Some \<lparr>peer_status = 200, peer_length = None, peer_body = Some ''x''\<rparr>, cloud_answer = (\<lambda>_. None)\<rparr>"

lemma two_lines_control: "has_control [CHR ''a'', CHR 0x0A, CHR ''b'']"
  by code_simp

theorem one_description_blocks_catalog_witness:
  "publish_snapshot desk_json desk_settings desk_attempt \<lparr>last_revision = 9, uploads = []\<rparr>
     = (Inl InvalidLocalCatalog, \<lparr>last_revision = 9, uploads = []\<rparr>)"
proof (rule one_description_blocks_catalog)
  show "local_projects desk_json desk_attempt = Inr [two_line_project]"
    by (simp add: local_projects_def desk_json_def desk_attempt_def rejected_status_def success_status_def
        decode_bounded_def max_local_response_bytes_def)
  show "two_line_project \<in> set [two_line_project]" by simp
  show "psum_workspace two_line_project = set_workspace desk_settings"
    by (simp add: two_line_project_def desk_settings_def)
  show "\<not> bounded 0 max_project_description_len (psum_description two_line_project)"
    by (simp add: bounded_def two_line_project_def two_lines_control)
qed

end
