(* ===== verification/Server_Store.thy ===== *)
theory Server_Store
  imports Permissions Scheduler Tables
begin

text \<open>
  The durable state of \<^verbatim>\<open>crates/c6-server/src/main.rs\<close>: the tables of \<open>migrate\<close> as lists of rows in
  insertion order and the statements that add rows, with the PRIMARY KEY, UNIQUE, CHECK and
  REFERENCES constraints of the schema as their conditions (\<open>foreign_keys\<close> is on).  Identifiers
  are the texts of UUIDs; stored times are \<open>to_rfc3339\<close> texts in UTC, whose text order is the order
  of time, and are integers here.  Only settings are ever deleted.
\<close>

record peer =
  usr_id :: string
  usr_name :: string
  usr_revoked :: "instant option"

record device =
  dev_id :: string
  dev_user :: string
  dev_label :: string
  dev_key :: string
  dev_created :: instant
  dev_revoked :: "instant option"

record login =
  lg_id :: string
  lg_user :: string
  lg_device :: "string option"
  lg_token_hash :: string
  lg_csrf_hash :: string
  lg_created :: instant
  lg_expires :: instant
  lg_revoked :: "instant option"

record invite =
  ivt_id :: string
  ivt_token_hash :: string
  ivt_role :: string
  ivt_space :: "string option"
  ivt_creator :: string
  ivt_created :: instant
  ivt_expires :: instant
  ivt_redeemed :: "instant option"
  ivt_redeemer :: "string option"

record space =
  spc_id :: string
  spc_slug :: string
  spc_name :: string
  spc_created :: instant

record member =
  mbr_space :: string
  mbr_user :: string
  mbr_role :: string

record project =
  prj_id :: string
  prj_space :: string
  prj_slug :: string
  prj_name :: string
  prj_description :: string
  prj_branch :: string
  prj_head :: string
  prj_published :: "string option"
  prj_created :: instant
  prj_updated :: instant

record pull =
  pull_id :: string
  pull_project :: string
  pull_number :: int
  pull_title :: string
  pull_body :: string
  pull_source :: string
  pull_target :: string
  pull_author :: string
  pull_status :: string
  pull_created :: instant
  pull_updated :: instant

record deployment =
  dep_id :: string
  dep_project :: string
  dep_revision :: string
  dep_environment :: string
  dep_status :: string
  dep_creator :: string
  dep_created :: instant

record job_run =
  jr_id :: string
  jr_project :: string
  jr_job :: string
  jr_kind :: string
  jr_revision :: string
  jr_status :: string
  jr_trigger :: string
  jr_created :: instant

record schedule_row =
  scd_id :: string
  scd_project :: string
  scd_job :: string
  scd_cron :: string
  scd_timezone :: string
  scd_concurrency :: string
  scd_enabled :: bool
  scd_creator :: string
  scd_created :: instant

record secret_meta =
  sec_id :: string
  sec_project :: string
  sec_name :: string
  sec_creator :: string
  sec_created :: instant

record server_event =
  sev_id :: string
  sev_actor :: "string option"
  sev_action :: string
  sev_target_type :: string
  sev_target :: "string option"
  sev_created :: instant

record api_key =
  key_id :: string
  key_public :: string
  key_verifier :: string
  key_user :: string
  key_device :: "string option"
  key_label :: string
  key_type :: string
  key_scopes :: string
  key_space :: "string option"
  key_project :: "string option"
  key_created :: instant
  key_expires :: instant
  key_used :: "instant option"
  key_revoked :: "instant option"

record server_db =
  db_settings :: "(string \<times> string) list"
  peers :: "peer list"
  devices :: "device list"
  logins :: "login list"
  invites :: "invite list"
  spaces :: "space list"
  members :: "member list"
  projects :: "project list"
  pulls :: "pull list"
  deployments :: "deployment list"
  job_runs :: "job_run list"
  schedule_rows :: "schedule_row list"
  secret_metas :: "secret_meta list"
  server_events :: "server_event list"
  api_keys :: "api_key list"

definition empty_server_db :: server_db where
  "empty_server_db = \<lparr>db_settings = [], peers = [], devices = [], logins = [], invites = [], spaces = [],
     members = [], projects = [], pulls = [], deployments = [], job_runs = [], schedule_rows = [],
     secret_metas = [], server_events = [], api_keys = []\<rparr>"

text \<open>A column that may be NULL refers only when it is not.\<close>

definition refers_opt :: "('r \<Rightarrow> 'k option) \<Rightarrow> 'r list \<Rightarrow> ('s \<Rightarrow> 'k) \<Rightarrow> 's list \<Rightarrow> bool" where
  "refers_opt f rs g ss \<longleftrightarrow> (\<forall>r \<in> set rs. case f r of None \<Rightarrow> True | Some k \<Rightarrow> k \<in> g ` set ss)"

abbreviation has :: "('r \<Rightarrow> 'k) \<Rightarrow> 'k \<Rightarrow> 'r list \<Rightarrow> bool" where
  "has f k rs \<equiv> list_ex (\<lambda>r. f r = k) rs"

abbreviation has_opt :: "('r \<Rightarrow> 'k) \<Rightarrow> 'k option \<Rightarrow> 'r list \<Rightarrow> bool" where
  "has_opt f k rs \<equiv> (case k of None \<Rightarrow> True | Some x \<Rightarrow> list_ex (\<lambda>r. f r = x) rs)"

section \<open>Statements\<close>

definition srv_map_conflict :: "sql_error \<Rightarrow> server_error" where
  "srv_map_conflict e = (case e of
      UniqueViolation \<Rightarrow> ConflictError ''resource already exists''
    | OtherViolation \<Rightarrow> InternalError ''sqlite'')"

definition insert_setting :: "string \<Rightarrow> string \<Rightarrow> server_db \<Rightarrow> sql_error + server_db" where
  "insert_setting k v db =
     (if hget (db_settings db) k \<noteq> None then Inl UniqueViolation
      else Inr (db\<lparr>db_settings := hput k v (db_settings db)\<rparr>))"

definition drop_setting :: "string \<Rightarrow> server_db \<Rightarrow> server_db" where
  "drop_setting k db = db\<lparr>db_settings := hdel k (db_settings db)\<rparr>"

definition insert_peer :: "peer \<Rightarrow> server_db \<Rightarrow> sql_error + server_db" where
  "insert_peer u db =
     (if has usr_id (usr_id u) (peers db) then Inl UniqueViolation
      else Inr (db\<lparr>peers := peers db @ [u]\<rparr>))"

definition insert_device :: "device \<Rightarrow> server_db \<Rightarrow> sql_error + server_db" where
  "insert_device d db =
     (if has dev_id (dev_id d) (devices db) \<or> has dev_key (dev_key d) (devices db) then Inl UniqueViolation
      else if \<not> has usr_id (dev_user d) (peers db) then Inl OtherViolation
      else Inr (db\<lparr>devices := devices db @ [d]\<rparr>))"

definition insert_login :: "login \<Rightarrow> server_db \<Rightarrow> sql_error + server_db" where
  "insert_login s db =
     (if has lg_id (lg_id s) (logins db) \<or> has lg_token_hash (lg_token_hash s) (logins db) then Inl UniqueViolation
      else if \<not> has usr_id (lg_user s) (peers db) \<or> \<not> has_opt dev_id (lg_device s) (devices db) then Inl OtherViolation
      else Inr (db\<lparr>logins := logins db @ [s]\<rparr>))"

definition insert_invite :: "invite \<Rightarrow> server_db \<Rightarrow> sql_error + server_db" where
  "insert_invite i db =
     (if has ivt_id (ivt_id i) (invites db) \<or> has ivt_token_hash (ivt_token_hash i) (invites db) then Inl UniqueViolation
      else if \<not> has usr_id (ivt_creator i) (peers db) then Inl OtherViolation
      else Inr (db\<lparr>invites := invites db @ [i]\<rparr>))"

definition insert_space :: "space \<Rightarrow> server_db \<Rightarrow> sql_error + server_db" where
  "insert_space w db =
     (if has spc_id (spc_id w) (spaces db) \<or> has spc_slug (spc_slug w) (spaces db) then Inl UniqueViolation
      else Inr (db\<lparr>spaces := spaces db @ [w]\<rparr>))"

definition insert_member :: "member \<Rightarrow> server_db \<Rightarrow> sql_error + server_db" where
  "insert_member m db =
     (if has (\<lambda>r. (mbr_space r, mbr_user r)) (mbr_space m, mbr_user m) (members db) then Inl UniqueViolation
      else if \<not> has spc_id (mbr_space m) (spaces db) \<or> \<not> has usr_id (mbr_user m) (peers db) then Inl OtherViolation
      else Inr (db\<lparr>members := members db @ [m]\<rparr>))"

definition insert_project :: "project \<Rightarrow> server_db \<Rightarrow> sql_error + server_db" where
  "insert_project p db =
     (if has prj_id (prj_id p) (projects db)
         \<or> has (\<lambda>r. (prj_space r, prj_slug r)) (prj_space p, prj_slug p) (projects db) then Inl UniqueViolation
      else if \<not> has spc_id (prj_space p) (spaces db) then Inl OtherViolation
      else Inr (db\<lparr>projects := projects db @ [p]\<rparr>))"

definition insert_pull :: "pull \<Rightarrow> server_db \<Rightarrow> sql_error + server_db" where
  "insert_pull p db =
     (if has pull_id (pull_id p) (pulls db)
         \<or> has (\<lambda>r. (pull_project r, pull_number r)) (pull_project p, pull_number p) (pulls db) then Inl UniqueViolation
      else if \<not> has prj_id (pull_project p) (projects db) \<or> \<not> has usr_id (pull_author p) (peers db) then Inl OtherViolation
      else Inr (db\<lparr>pulls := pulls db @ [p]\<rparr>))"

definition insert_deployment :: "deployment \<Rightarrow> server_db \<Rightarrow> sql_error + server_db" where
  "insert_deployment d db =
     (if has dep_id (dep_id d) (deployments db) then Inl UniqueViolation
      else if \<not> has prj_id (dep_project d) (projects db) \<or> \<not> has usr_id (dep_creator d) (peers db) then Inl OtherViolation
      else Inr (db\<lparr>deployments := deployments db @ [d]\<rparr>))"

definition insert_run :: "job_run \<Rightarrow> server_db \<Rightarrow> sql_error + server_db" where
  "insert_run r db =
     (if has jr_id (jr_id r) (job_runs db) then Inl UniqueViolation
      else if \<not> has prj_id (jr_project r) (projects db) \<or> \<not> has usr_id (jr_trigger r) (peers db) then Inl OtherViolation
      else Inr (db\<lparr>job_runs := job_runs db @ [r]\<rparr>))"

definition insert_schedule :: "schedule_row \<Rightarrow> server_db \<Rightarrow> sql_error + server_db" where
  "insert_schedule s db =
     (if has scd_id (scd_id s) (schedule_rows db) then Inl UniqueViolation
      else if \<not> has prj_id (scd_project s) (projects db) \<or> \<not> has usr_id (scd_creator s) (peers db) then Inl OtherViolation
      else Inr (db\<lparr>schedule_rows := schedule_rows db @ [s]\<rparr>))"

definition insert_secret :: "secret_meta \<Rightarrow> server_db \<Rightarrow> sql_error + server_db" where
  "insert_secret s db =
     (if has sec_id (sec_id s) (secret_metas db)
         \<or> has (\<lambda>r. (sec_project r, sec_name r)) (sec_project s, sec_name s) (secret_metas db) then Inl UniqueViolation
      else if \<not> has prj_id (sec_project s) (projects db) \<or> \<not> has usr_id (sec_creator s) (peers db) then Inl OtherViolation
      else Inr (db\<lparr>secret_metas := secret_metas db @ [s]\<rparr>))"

definition insert_server_event :: "server_event \<Rightarrow> server_db \<Rightarrow> sql_error + server_db" where
  "insert_server_event e db =
     (if has sev_id (sev_id e) (server_events db) then Inl UniqueViolation
      else Inr (db\<lparr>server_events := server_events db @ [e]\<rparr>))"

text \<open>The CHECK constraints of \<open>credentials\<close>.\<close>

definition key_checked :: "api_key \<Rightarrow> bool" where
  "key_checked k \<longleftrightarrow> key_type k \<in> {''cli'', ''git''}
     \<and> 1 \<le> length (utf8_chars (key_label k)) \<and> length (utf8_chars (key_label k)) \<le> 80
     \<and> (key_project k = None \<or> key_space k \<noteq> None)"

definition insert_key :: "api_key \<Rightarrow> server_db \<Rightarrow> sql_error + server_db" where
  "insert_key k db =
     (if \<not> key_checked k then Inl OtherViolation
      else if has key_id (key_id k) (api_keys db) \<or> has key_public (key_public k) (api_keys db) then Inl UniqueViolation
      else if \<not> has usr_id (key_user k) (peers db) \<or> \<not> has_opt dev_id (key_device k) (devices db)
           \<or> \<not> has_opt spc_id (key_space k) (spaces db) \<or> \<not> has_opt prj_id (key_project k) (projects db)
        then Inl OtherViolation
      else Inr (db\<lparr>api_keys := api_keys db @ [k]\<rparr>))"

end
