(* ===== verification/Git_Http.thy ===== *)
theory Git_Http
  imports Git_Text
begin

text \<open>
  \<^verbatim>\<open>crates/c6-git/src/smart_http.rs\<close>: the read-only smart-HTTP adapter.  Its checks, the
  environment of the child process, the bounded readers, the loop that waits for the child and the
  parser of the CGI response are definitions; the child process is a parameter, the observations
  the adapter makes of it.
\<close>

section \<open>Limits and errors\<close>

record smart_limits =
  max_request_bytes :: nat
  max_response_bytes :: nat
  max_cgi_header_bytes :: nat
  max_stderr_bytes :: nat
  max_git_protocol_bytes :: nat
  advertisement_timeout :: nat
  upload_pack_timeout :: nat

text \<open>Durations count milliseconds.\<close>

definition default_smart_limits :: smart_limits where
  "default_smart_limits = \<lparr>max_request_bytes = 16 * 1024 * 1024, max_response_bytes = 64 * 1024 * 1024,
     max_cgi_header_bytes = 32 * 1024, max_stderr_bytes = 16 * 1024, max_git_protocol_bytes = 256,
     advertisement_timeout = 30 * 1000, upload_pack_timeout = 10 * 60 * 1000\<rparr>"

datatype smart_error =
    SmartInvalidRequest string
  | RequestTooLarge
  | SmartResponseTooLarge
  | SmartTimeout
  | SmartUnavailable
  | BackendFailed
  | SmartInvalidResponse
  | InvalidRepository

record smart_response =
  smart_status :: nat
  smart_headers :: "(string \<times> string) list"
  smart_body :: string

definition advertisement_query :: string where
  "advertisement_query = ''service=git-upload-pack''"
definition upload_pack_request :: string where
  "upload_pack_request = ''application/x-git-upload-pack-request''"
definition upload_pack_advertisement :: string where
  "upload_pack_advertisement = ''application/x-git-upload-pack-advertisement''"
definition upload_pack_result :: string where
  "upload_pack_result = ''application/x-git-upload-pack-result''"

definition validate_limits :: "smart_limits \<Rightarrow> smart_error + unit" where
  "validate_limits l =
     fail_if (max_request_bytes l = 0 \<or> max_response_bytes l = 0 \<or> max_cgi_header_bytes l < 128
        \<or> 1024 * 1024 < max_cgi_header_bytes l \<or> max_stderr_bytes l = 0 \<or> max_git_protocol_bytes l = 0
        \<or> 4096 < max_git_protocol_bytes l \<or> advertisement_timeout l = 0 \<or> upload_pack_timeout l = 0)
      (SmartInvalidRequest ''unsafe smart HTTP limits'')"

definition validate_actor :: "string \<Rightarrow> smart_error + unit" where
  "validate_actor a =
     fail_if (a = [] \<or> 128 < length a
        \<or> \<not> list_all (\<lambda>c. ascii_alnum c \<or> c = CHR ''-'' \<or> c = CHR ''_'') a)
      (SmartInvalidRequest ''invalid actor identifier'')"

definition validate_git_protocol :: "string option \<Rightarrow> nat \<Rightarrow> smart_error + unit" where
  "validate_git_protocol p m =
     (case p of None \<Rightarrow> Inr ()
      | Some v \<Rightarrow>
          if m < length v then Inl (SmartInvalidRequest ''Git-Protocol is too large'')
          else if v \<noteq> ''version=1'' \<and> v \<noteq> ''version=2''
          then Inl (SmartInvalidRequest ''unsupported Git-Protocol'')
          else Inr ())"

text \<open>
  An opened repository, and what \<open>validate_repository\<close> finds when it looks again: that its path is
  still the canonical path of a real directory, in the directory \<open>rp_root\<close> under the name \<open>rp_name\<close>.
\<close>

record repository_path =
  rp_real :: bool
  rp_root :: string
  rp_name :: string

definition strip_suffix :: "string \<Rightarrow> string \<Rightarrow> string option" where
  "strip_suffix t s = (if suffix t s then Some (take (length s - length t) s) else None)"

definition validate_repository :: "repository_path \<Rightarrow> smart_error + string \<times> string" where
  "validate_repository r =
     andThen (fail_if (\<not> rp_real r) InvalidRepository)
    (rbind (ok_or InvalidRepository (strip_suffix ''.git'' (rp_name r))) (\<lambda>key.
     andThen (map_err (\<lambda>_. InvalidRepository) (validate_store_slug key))
       (Inr (rp_root r, rp_name r))))"

section \<open>The CGI response\<close>

text \<open>The position of the first occurrence of a nonempty byte string.\<close>

fun position_of :: "string \<Rightarrow> string \<Rightarrow> nat option" where
  "position_of p [] = None"
| "position_of p (c # s) = (if prefix p (c # s) then Some 0 else map_option Suc (position_of p s))"

text \<open>\<open>str::lines\<close>: a line ends with a line feed, and a carriage return before it goes too.\<close>

function text_lines :: "string \<Rightarrow> string list" where
  "text_lines s =
     (case split_once (CHR 0x0A) s of
        None \<Rightarrow> if s = [] then [] else [s]
      | Some (l, r) \<Rightarrow>
          (if l \<noteq> [] \<and> last l = CHR 0x0D then butlast l else l) # text_lines r)"
  by pat_completeness auto
termination
  by (relation "measure length") (auto simp: split_once_Some)

declare text_lines.simps [simp del]

definition blank :: "char \<Rightarrow> bool" where
  "blank c \<longleftrightarrow> c = CHR '' '' \<or> c = CHR 0x09"

definition trim_blanks :: "string \<Rightarrow> string" where
  "trim_blanks s = rev (dropWhile blank (rev (dropWhile blank s)))"

definition parse_u16 :: "string \<Rightarrow> nat option" where
  "parse_u16 s = (case parse_u64 s of Some n \<Rightarrow> if n < 2 ^ 16 then Some n else None | None \<Rightarrow> None)"

record cgi_state =
  cgi_status :: nat
  saw_status :: bool
  saw_content_type :: bool
  cgi_headers :: "(string \<times> string) list"

definition cgi_line :: "string \<Rightarrow> cgi_state \<Rightarrow> string \<Rightarrow> smart_error + cgi_state" where
  "cgi_line expected st line =
     (if line = [] \<or> blank (hd line) \<or> CHR 0x00 \<in> set line then Inl SmartInvalidResponse
      else rbind (ok_or SmartInvalidResponse (split_once (CHR '':'') line)) (\<lambda>(name, raw).
        let value = trim_blanks raw; n = map to_lower name;
            add = (\<lambda>h. Inr (st\<lparr>cgi_headers := cgi_headers st @ [(h, value)]\<rparr>)) in
        if value = [] \<or> list_ex ascii_control value then Inl SmartInvalidResponse
        else if n = ''status'' then
          (if saw_status st then Inl SmartInvalidResponse
           else rbind (ok_or SmartInvalidResponse
               (case words_by ascii_ws value of [] \<Rightarrow> None | w # _ \<Rightarrow> parse_u16 w)) (\<lambda>code.
             if 200 \<le> code \<and> code \<le> 599 then Inr (st\<lparr>cgi_status := code, saw_status := True\<rparr>)
             else Inl SmartInvalidResponse))
        else if n = ''content-type'' then
          (if saw_content_type st \<or> value \<noteq> expected then Inl SmartInvalidResponse
           else Inr (st\<lparr>saw_content_type := True,
               cgi_headers := cgi_headers st @ [(''Content-Type'', value)]\<rparr>))
        else if n = ''cache-control'' then add ''Cache-Control''
        else if n = ''expires'' then add ''Expires''
        else if n = ''pragma'' then add ''Pragma''
        else Inr st))"

primrec cgi_lines :: "string \<Rightarrow> cgi_state \<Rightarrow> string list \<Rightarrow> smart_error + cgi_state" where
  "cgi_lines expected st [] = Inr st"
| "cgi_lines expected st (l # ls) = rbind (cgi_line expected st l) (\<lambda>st'. cgi_lines expected st' ls)"

definition cgi_separator :: "string \<Rightarrow> (nat \<times> nat) option" where
  "cgi_separator b =
     (case position_of [CHR 0x0D, CHR 0x0A, CHR 0x0D, CHR 0x0A] b of
        Some n \<Rightarrow> Some (n, 4)
      | None \<Rightarrow> map_option (\<lambda>n. (n, 2)) (position_of [CHR 0x0A, CHR 0x0A] b))"

definition parse_cgi_response :: "string \<Rightarrow> nat \<Rightarrow> nat \<Rightarrow> string \<Rightarrow> smart_error + smart_response" where
  "parse_cgi_response b max_header max_body expected =
     rbind (ok_or SmartInvalidResponse (cgi_separator b)) (\<lambda>(n, k).
     if max_header < sat_add64 n k then Inl SmartInvalidResponse
     else let body = drop (n + k) b in
       if max_body < length body then Inl SmartResponseTooLarge
       else if \<not> utf8_valid (take n b) then Inl SmartInvalidResponse
       else rbind (cgi_lines expected
           \<lparr>cgi_status = 200, saw_status = False, saw_content_type = False, cgi_headers = []\<rparr>
           (text_lines (take n b))) (\<lambda>st.
         if \<not> saw_content_type st then Inl SmartInvalidResponse
         else Inr \<lparr>smart_status = cgi_status st, smart_headers = cgi_headers st, smart_body = body\<rparr>))"

section \<open>The child process\<close>

text \<open>
  \<open>read_bounded\<close> on the chunks a pipe yields (\<open>Inl\<close> a read error; the end of the list or an empty
  chunk is the end of the stream), with the bytes kept so far and the overflow flag.
\<close>

fun read_bounded :: "nat \<Rightarrow> string \<Rightarrow> bool \<Rightarrow> (unit + string) list \<Rightarrow> (smart_error + string) \<times> bool" where
  "read_bounded limit acc over [] = (Inr acc, over)"
| "read_bounded limit acc over (Inl _ # cs) = (Inl BackendFailed, over)"
| "read_bounded limit acc over (Inr c # cs) =
     (if c = [] then (Inr acc, over)
      else if limit < sat_add64 (length acc) (length c) then read_bounded limit acc True cs
      else if \<not> over then read_bounded limit (acc @ c) over cs
      else read_bounded limit acc over cs)"

text \<open>
  What joining a reader yields.  The reader returns once its pipe ends; a pipe that some process
  keeps open without writing holds it for ever (\<open>None\<close>).
\<close>

record pipe =
  pipe_chunks :: "(unit + string) list"
  pipe_closes :: bool

definition pipe_ends :: "pipe \<Rightarrow> bool" where
  "pipe_ends p \<longleftrightarrow> pipe_closes p \<or> list_ex (\<lambda>c. c = Inl () \<or> c = Inr []) (pipe_chunks p)"

definition join_reader :: "nat \<Rightarrow> pipe \<Rightarrow> (smart_error + string) option" where
  "join_reader limit p = (if pipe_ends p then Some (fst (read_bounded limit [] False (pipe_chunks p))) else None)"

datatype wait_result = Exited bool | StillRunning | WaitFailed

text \<open>One turn of the loop: the flag it reads, what \<open>try_wait\<close> says, and the time that has passed.\<close>

record poll =
  sees_overflow :: bool
  waited :: wait_result
  elapsed :: nat

partial_function (option) wait_child :: "nat \<Rightarrow> (nat \<Rightarrow> poll) \<Rightarrow> nat \<Rightarrow> (smart_error + bool) option" where
  "wait_child timeout polls i =
     (if sees_overflow (polls i) then Some (Inl SmartResponseTooLarge)
      else case waited (polls i) of
          Exited ok \<Rightarrow> Some (Inr ok)
        | StillRunning \<Rightarrow>
            if elapsed (polls i) < timeout then wait_child timeout polls (Suc i)
            else Some (Inl SmartTimeout)
        | WaitFailed \<Rightarrow> Some (Inl BackendFailed))"

text \<open>\<open>stdin_written\<close> is whether the whole input could be written, \<open>None\<close> when the write never returns.\<close>

record child =
  child_stdout :: pipe
  child_stderr :: pipe
  stdin_written :: "bool option"
  polls_of :: "nat \<Rightarrow> poll"

record smart_request =
  sr_method :: string
  sr_path_suffix :: string
  sr_query :: string
  sr_content_type :: "string option"
  sr_git_protocol :: "string option"
  sr_actor :: string
  sr_body :: string
  sr_expected :: string
  sr_timeout :: nat

record smart_backend =
  git_executable :: string
  child_path :: string
  smart_limits_of :: smart_limits

text \<open>
  The world of one execution: the private home directory (\<open>None\<close> when it cannot be made) and the
  child started with a command line, an environment and an input (\<open>None\<close> when it cannot be).
\<close>

record smart_world =
  private_home :: "string option"
  spawn :: "string list \<Rightarrow> (string \<times> string) list \<Rightarrow> string \<Rightarrow> child option"

definition child_environment ::
  "smart_backend \<Rightarrow> string \<Rightarrow> string \<Rightarrow> string \<Rightarrow> smart_request \<Rightarrow> (string \<times> string) list" where
  "child_environment be home root name rq =
     [(''PATH'', child_path be), (''HOME'', home), (''LANG'', ''C''), (''LC_ALL'', ''C''),
      (''GIT_CONFIG_NOSYSTEM'', ''1''), (''GIT_CONFIG_GLOBAL'', home @ ''/gitconfig''),
      (''GIT_ATTR_NOSYSTEM'', ''1''), (''GIT_PROJECT_ROOT'', root), (''GIT_HTTP_EXPORT_ALL'', ''1''),
      (''GIT_CONFIG_COUNT'', ''1''), (''GIT_CONFIG_KEY_0'', ''http.getanyfile''),
      (''GIT_CONFIG_VALUE_0'', ''false''), (''REQUEST_METHOD'', sr_method rq),
      (''PATH_INFO'', ''/'' @ name @ sr_path_suffix rq), (''QUERY_STRING'', sr_query rq),
      (''REMOTE_USER'', sr_actor rq), (''CONTENT_LENGTH'', show_nat (length (sr_body rq)))]
     @ (case sr_content_type rq of None \<Rightarrow> [] | Some t \<Rightarrow> [(''CONTENT_TYPE'', t)])
     @ (case sr_git_protocol rq of None \<Rightarrow> [] | Some p \<Rightarrow> [(''HTTP_GIT_PROTOCOL'', p)])"

text \<open>After the child: the writer and the readers are joined in turn, then the parser has its say.\<close>

definition collect_child :: "smart_limits \<Rightarrow> smart_request \<Rightarrow> child \<Rightarrow> (smart_error + smart_response) option" where
  "collect_child lim rq ch =
     (case checked_add64 (max_response_bytes lim) (max_cgi_header_bytes lim) of
        None \<Rightarrow> Some (Inl SmartResponseTooLarge)
      | Some limit \<Rightarrow>
          Option.bind (wait_child (sr_timeout rq) (polls_of ch) 0) (\<lambda>status.
          Option.bind (stdin_written ch) (\<lambda>written.
          Option.bind (join_reader limit (child_stdout ch)) (\<lambda>read. case read of Inl e \<Rightarrow> Some (Inl e) | Inr out \<Rightarrow>
          map_option (\<lambda>err.
            rbind err (\<lambda>_.
            rbind status (\<lambda>ok.
            if \<not> written \<or> \<not> ok then Inl BackendFailed
            else parse_cgi_response out (max_cgi_header_bytes lim) (max_response_bytes lim) (sr_expected rq))))
          (join_reader (max_stderr_bytes lim) (child_stderr ch))))))"

definition smart_execute ::
  "smart_world \<Rightarrow> smart_backend \<Rightarrow> repository_path \<Rightarrow> smart_request \<Rightarrow> (smart_error + smart_response) option" where
  "smart_execute w be r rq =
     (case andThen (validate_actor (sr_actor rq))
          (andThen (validate_git_protocol (sr_git_protocol rq) (max_git_protocol_bytes (smart_limits_of be)))
          (rbind (validate_repository r) (\<lambda>(root, name).
           rbind (ok_or SmartUnavailable (private_home w)) (\<lambda>home.
           ok_or SmartUnavailable (spawn w [git_executable be, ''http-backend'']
              (child_environment be home root name rq) (sr_body rq)))))) of
        Inl e \<Rightarrow> Some (Inl e)
      | Inr ch \<Rightarrow> collect_child (smart_limits_of be) rq ch)"

definition advertise ::
  "smart_world \<Rightarrow> smart_backend \<Rightarrow> repository_path \<Rightarrow> string \<Rightarrow> string option \<Rightarrow> string
     \<Rightarrow> (smart_error + smart_response) option" where
  "advertise w be r raw_query protocol actor =
     (if raw_query \<noteq> advertisement_query
      then Some (Inl (SmartInvalidRequest ''expected exactly service=git-upload-pack''))
      else smart_execute w be r \<lparr>sr_method = ''GET'', sr_path_suffix = ''/info/refs'',
        sr_query = advertisement_query, sr_content_type = None, sr_git_protocol = protocol,
        sr_actor = actor, sr_body = [], sr_expected = upload_pack_advertisement,
        sr_timeout = advertisement_timeout (smart_limits_of be)\<rparr>)"

definition upload_pack ::
  "smart_world \<Rightarrow> smart_backend \<Rightarrow> repository_path \<Rightarrow> string option \<Rightarrow> string option \<Rightarrow> string option \<Rightarrow> string
     \<Rightarrow> string \<Rightarrow> (smart_error + smart_response) option" where
  "upload_pack w be r raw_query content_type protocol actor body =
     (if (case raw_query of None \<Rightarrow> False | Some q \<Rightarrow> q \<noteq> [])
      then Some (Inl (SmartInvalidRequest ''upload-pack does not accept a query''))
      else if content_type \<noteq> Some upload_pack_request
      then Some (Inl (SmartInvalidRequest ''invalid upload-pack content type''))
      else if max_request_bytes (smart_limits_of be) < length body then Some (Inl RequestTooLarge)
      else smart_execute w be r \<lparr>sr_method = ''POST'', sr_path_suffix = ''/git-upload-pack'',
        sr_query = [], sr_content_type = content_type, sr_git_protocol = protocol,
        sr_actor = actor, sr_body = body, sr_expected = upload_pack_result,
        sr_timeout = upload_pack_timeout (smart_limits_of be)\<rparr>)"

section \<open>The wait ends\<close>

text \<open>Every turn of the loop sleeps for five milliseconds, so the time it sees advances by that.\<close>

definition ticking :: "(nat \<Rightarrow> poll) \<Rightarrow> bool" where
  "ticking polls \<longleftrightarrow> (\<forall>i. elapsed (polls i) + 5 \<le> elapsed (polls (Suc i)))"

text \<open>The loop with a number of turns given.\<close>

primrec wait_turns :: "nat \<Rightarrow> nat \<Rightarrow> (nat \<Rightarrow> poll) \<Rightarrow> nat \<Rightarrow> (smart_error + bool) option" where
  "wait_turns 0 timeout polls i = None"
| "wait_turns (Suc k) timeout polls i =
     (if sees_overflow (polls i) then Some (Inl SmartResponseTooLarge)
      else case waited (polls i) of
          Exited ok \<Rightarrow> Some (Inr ok)
        | StillRunning \<Rightarrow>
            if elapsed (polls i) < timeout then wait_turns k timeout polls (Suc i)
            else Some (Inl SmartTimeout)
        | WaitFailed \<Rightarrow> Some (Inl BackendFailed))"

lemma wait_turns_child: "wait_turns k timeout polls i = Some x \<Longrightarrow> wait_child timeout polls i = Some x"
proof (induction k arbitrary: i)
  case (Suc k)
  then show ?case by (subst wait_child.simps) (auto split: if_splits wait_result.splits)
qed simp

lemma wait_turns_enough:
  assumes "ticking polls" and "timeout < elapsed (polls i) + 5 * k"
  shows "\<exists>x. wait_turns (Suc k) timeout polls i = Some x"
  using assms(2)
proof (induction k arbitrary: i)
  case (Suc k)
  have "elapsed (polls i) + 5 \<le> elapsed (polls (Suc i))" using assms(1) by (simp add: ticking_def)
  with Suc.prems have "timeout < elapsed (polls (Suc i)) + 5 * k" by simp
  from Suc.IH [OF this] show ?case
    by (subst wait_turns.simps(2)) (auto simp del: wait_turns.simps split: wait_result.split)
qed (auto split: wait_result.split)

lemma wait_child_returns:
  assumes "ticking polls"
  obtains x where "wait_turns (timeout div 5 + 2) timeout polls 0 = Some x" and "wait_child timeout polls 0 = Some x"
proof -
  have "timeout < elapsed (polls 0) + 5 * (timeout div 5 + 1)" by simp
  from wait_turns_enough [OF assms this] obtain x where "wait_turns (timeout div 5 + 2) timeout polls 0 = Some x" by auto
  with wait_turns_child show thesis by (blast intro: that)
qed

text \<open>
  What the adapter needs of the system so as to return: the loop's clock advances, and once the child
  is gone its input pipe is broken and its output pipes close, no other process holding them.
\<close>

definition lets_go :: "child \<Rightarrow> bool" where
  "lets_go ch \<longleftrightarrow> ticking (polls_of ch) \<and> stdin_written ch \<noteq> None \<and> pipe_ends (child_stdout ch) \<and> pipe_ends (child_stderr ch)"

lemma collect_returns:
  assumes "lets_go ch"
  shows "\<exists>x. collect_child lim rq ch = Some x"
proof -
  from assms obtain x where "wait_child (sr_timeout rq) (polls_of ch) 0 = Some x"
    unfolding lets_go_def by (metis wait_child_returns)
  with assms show ?thesis
    by (auto simp: collect_child_def lets_go_def join_reader_def split: option.split sum.split)
qed

lemma smart_execute_returns:
  assumes "\<forall>argv env inp ch. spawn w argv env inp = Some ch \<longrightarrow> lets_go ch"
  shows "\<exists>x. smart_execute w be r rq = Some x"
  using collect_returns
  by (auto simp: smart_execute_def rbind_Inr_iff result_simps split: sum.splits prod.splits dest!: assms [rule_format])

text \<open>
  C28: a Git request ends.  When the loop's clock advances with every turn and the pipes of a child
  that is gone are closed, both endpoints of the adapter return whatever else the child does, and
  the loop that waits decides within \<open>timeout / 5 + 2\<close> turns of five milliseconds: a child that
  neither exits nor fails is killed at its timeout.
\<close>

theorem smart_http_returns:
  assumes "\<forall>argv env inp ch. spawn w argv env inp = Some ch \<longrightarrow> lets_go ch"
  shows "\<exists>x y. advertise w be r q p a = Some x \<and> upload_pack w be r q' ct p a body = Some y
     \<and> (spawn w argv env inp = Some ch \<longrightarrow> (\<exists>z. wait_turns (timeout div 5 + 2) timeout (polls_of ch) 0 = Some z
           \<and> wait_child timeout (polls_of ch) 0 = Some z))"
proof -
  have "\<exists>x. advertise w be r q p a = Some x"
    using smart_execute_returns [OF assms] by (simp add: advertise_def)
  moreover have "\<exists>y. upload_pack w be r q' ct p a body = Some y"
    using smart_execute_returns [OF assms] by (simp add: upload_pack_def)
  moreover have "\<exists>z. wait_turns (timeout div 5 + 2) timeout (polls_of ch) 0 = Some z \<and> wait_child timeout (polls_of ch) 0 = Some z"
    if "spawn w argv env inp = Some ch"
    using assms that unfolding lets_go_def by (metis wait_child_returns)
  ultimately show ?thesis by blast
qed

text \<open>A backend whose child never exits and never writes.\<close>

definition quiet_pipe :: pipe where
  "quiet_pipe = \<lparr>pipe_chunks = [], pipe_closes = True\<rparr>"

definition silent_child :: child where
  "silent_child = \<lparr>child_stdout = quiet_pipe, child_stderr = quiet_pipe, stdin_written = Some True,
     polls_of = (\<lambda>i. \<lparr>sees_overflow = False, waited = StillRunning, elapsed = 5 * i\<rparr>)\<rparr>"

definition silent_world :: smart_world where
  "silent_world = \<lparr>private_home = Some ''/tmp/home'', spawn = (\<lambda>argv env inp. Some silent_child)\<rparr>"

definition plain_backend :: smart_backend where
  "plain_backend = \<lparr>git_executable = ''/usr/bin/git'', child_path = ''/usr/bin'', smart_limits_of = default_smart_limits\<rparr>"

definition plain_path :: repository_path where
  "plain_path = \<lparr>rp_real = True, rp_root = ''/data'', rp_name = ''a.git''\<rparr>"

theorem smart_http_returns_witness:
  "\<exists>x y. advertise silent_world plain_backend plain_path advertisement_query None ''user'' = Some x
     \<and> upload_pack silent_world plain_backend plain_path None (Some upload_pack_request) None ''user'' ''0000'' = Some y"
proof -
  have "\<forall>argv env inp ch. spawn silent_world argv env inp = Some ch \<longrightarrow> lets_go ch"
    by (auto simp: silent_world_def silent_child_def lets_go_def ticking_def pipe_ends_def quiet_pipe_def)
  from smart_http_returns [OF this] show ?thesis by blast
qed

text \<open>
  The timeout bounds the wait and not the request: when a process that outlives the killed child
  keeps its standard output open, the endpoint never returns.
\<close>

definition held_world :: smart_world where
  "held_world = \<lparr>private_home = Some ''/tmp/home'',
     spawn = (\<lambda>argv env inp. Some (silent_child\<lparr>child_stdout := \<lparr>pipe_chunks = [], pipe_closes = False\<rparr>\<rparr>))\<rparr>"

lemma wait_turns_silent:
  "wait_turns k t (polls_of silent_child) i = Some x \<Longrightarrow> x = Inl SmartTimeout"
  by (induction k arbitrary: i) (auto simp: silent_child_def split: if_splits)

theorem held_pipe_blocks_request:
  "wait_child t (polls_of silent_child) 0 = Some (Inl SmartTimeout)
   \<and> advertise held_world plain_backend plain_path advertisement_query None ''user'' = None"
proof -
  have "ticking (polls_of silent_child)" by (simp add: ticking_def silent_child_def)
  then have w: "wait_child t (polls_of silent_child) 0 = Some (Inl SmartTimeout)" for t
    by (rule wait_child_returns [where timeout = t]) (metis wait_turns_silent)
  moreover have "validate_repository plain_path = Inr (''/data'', ''a.git'')" by code_simp
  moreover have "validate_actor ''user'' = Inr ()" by code_simp
  moreover have "\<not> pipe_ends \<lparr>pipe_chunks = [], pipe_closes = False\<rparr>" by (simp add: pipe_ends_def)
  ultimately show ?thesis
    by (simp add: advertise_def smart_execute_def validate_git_protocol_def held_world_def plain_backend_def collect_child_def
        default_smart_limits_def checked_add64_def join_reader_def)
qed

section \<open>What a parsed response can hold\<close>

definition passed_headers :: "string list" where
  "passed_headers = [''Content-Type'', ''Cache-Control'', ''Expires'', ''Pragma'']"

definition cgi_ok :: "string \<Rightarrow> cgi_state \<Rightarrow> bool" where
  "cgi_ok expected st \<longleftrightarrow> 200 \<le> cgi_status st \<and> cgi_status st \<le> 599
     \<and> list_all (\<lambda>(n, v). n \<in> set passed_headers \<and> v \<noteq> [] \<and> list_all (\<lambda>c. \<not> ascii_control c) v) (cgi_headers st)
     \<and> filter (\<lambda>h. fst h = ''Content-Type'') (cgi_headers st)
         = (if saw_content_type st then [(''Content-Type'', expected)] else [])"

lemma cgi_line_ok:
  assumes "cgi_line expected st line = Inr st'" and "cgi_ok expected st"
  shows "cgi_ok expected st'"
proof -
  from assms(1) obtain name raw where v: "trim_blanks raw \<noteq> []" "list_all (\<lambda>c. \<not> ascii_control c) (trim_blanks raw)"
    and st': "st' = st \<or> (\<exists>h. h \<in> {''Cache-Control'', ''Expires'', ''Pragma''} \<and>
          st' = st\<lparr>cgi_headers := cgi_headers st @ [(h, trim_blanks raw)]\<rparr>)
      \<or> (\<exists>code. 200 \<le> code \<and> code \<le> 599 \<and> st' = st\<lparr>cgi_status := code, saw_status := True\<rparr>)
      \<or> (\<not> saw_content_type st \<and> trim_blanks raw = expected \<and>
          st' = st\<lparr>saw_content_type := True, cgi_headers := cgi_headers st @ [(''Content-Type'', trim_blanks raw)]\<rparr>)"
    by (auto simp: cgi_line_def result_simps Let_def list_ex_iff list_all_iff split: if_splits)
  from st' show ?thesis
    using assms(2) v by (elim disjE exE conjE) (auto simp: cgi_ok_def passed_headers_def)
qed

lemma cgi_lines_ok:
  "cgi_lines expected st ls = Inr st' \<Longrightarrow> cgi_ok expected st \<Longrightarrow> cgi_ok expected st'"
  by (induction ls arbitrary: st) (auto simp: rbind_Inr_iff dest: cgi_line_ok)

lemma position_of_bound: "position_of p b = Some n \<Longrightarrow> n + length p \<le> length b"
  by (induction b arbitrary: n) (auto split: if_splits dest: prefix_length_le)

lemma separator_bound: "cgi_separator b = Some (n, k) \<Longrightarrow> n + k \<le> length b"
  by (auto simp: cgi_separator_def split: option.splits dest!: position_of_bound)

lemma parse_cgi_response_parts:
  assumes "parse_cgi_response b mh mb expected = Inr r"
  obtains h where "b = h @ smart_body r" and "sat_add64 (length h) 0 \<le> mh" and "length (smart_body r) \<le> mb"
    and "200 \<le> smart_status r" and "smart_status r \<le> 599"
    and "list_all (\<lambda>(n, v). n \<in> set passed_headers \<and> v \<noteq> [] \<and> list_all (\<lambda>c. \<not> ascii_control c) v) (smart_headers r)"
    and "filter (\<lambda>h. fst h = ''Content-Type'') (smart_headers r) = [(''Content-Type'', expected)]"
proof -
  from assms obtain n k st where sep: "cgi_separator b = Some (n, k)" and sat: "sat_add64 n k \<le> mh"
    and body: "smart_body r = drop (n + k) b" "length (smart_body r) \<le> mb"
    and lines: "cgi_lines expected \<lparr>cgi_status = 200, saw_status = False, saw_content_type = False, cgi_headers = []\<rparr>
        (text_lines (take n b)) = Inr st" "saw_content_type st"
    and r: "smart_status r = cgi_status st" "smart_headers r = cgi_headers st"
    by (auto simp: parse_cgi_response_def result_simps Let_def not_less split: if_splits prod.splits)
  have "cgi_ok expected st"
    by (rule cgi_lines_ok [OF lines(1)]) (simp add: cgi_ok_def)
  with lines(2) r have ok: "200 \<le> smart_status r" "smart_status r \<le> 599"
    "list_all (\<lambda>(n, v). n \<in> set passed_headers \<and> v \<noteq> [] \<and> list_all (\<lambda>c. \<not> ascii_control c) v) (smart_headers r)"
    "filter (\<lambda>h. fst h = ''Content-Type'') (smart_headers r) = [(''Content-Type'', expected)]"
    by (simp_all add: cgi_ok_def)
  have b: "b = take (n + k) b @ smart_body r" by (simp add: body)
  have len: "length (take (n + k) b) = n + k" using separator_bound [OF sep] by simp
  show thesis
    by (rule that [of "take (n + k) b"]) (use b len sat body ok in \<open>simp_all add: sat_add64_def\<close>)
qed

section \<open>What a successful answer is\<close>

lemma read_bounded_stuck:
  "list_all (\<lambda>c. c \<noteq> [] \<and> length c \<le> 16384) ds \<Longrightarrow> fst (read_bounded limit acc True (map Inr ds)) = Inr acc"
  by (induction ds) simp_all

lemma read_bounded_over:
  "list_all (\<lambda>c. c \<noteq> [] \<and> length c \<le> 16384) cs \<Longrightarrow> limit < 2 ^ 63 \<Longrightarrow> length acc \<le> limit \<Longrightarrow>
     (over \<Longrightarrow> limit < length acc + 16384) \<Longrightarrow>
     fst (read_bounded limit acc over (map Inr cs)) = Inr out \<Longrightarrow>
     out = acc @ (if over then [] else concat cs)
     \<or> (limit < length out + 16384 \<and> length out \<le> limit \<and> prefix out (acc @ concat cs))"
proof (induction cs arbitrary: acc over)
  case Nil
  then show ?case by auto
next
  case (Cons c cs)
  have c: "c \<noteq> []" "length c \<le> 16384" and rest: "list_all (\<lambda>c. c \<noteq> [] \<and> length c \<le> 16384) cs"
    using Cons.prems(1) by simp_all
  show ?case
  proof (cases "limit < sat_add64 (length acc) (length c)")
    case True
    then have big: "limit < length acc + 16384" using c(2) by (simp add: sat_add64_def)
    have "fst (read_bounded limit acc True (map Inr cs)) = Inr out" using Cons.prems(5) True c(1) by simp
    then have "out = acc" using read_bounded_stuck [OF rest, of limit acc] by simp
    then show ?thesis using big Cons.prems(3) by simp
  next
    case False
    show ?thesis
    proof (cases over)
      case True
      have "out = acc" using read_bounded_stuck [OF Cons.prems(1), of limit acc] Cons.prems(5) True by simp
      then show ?thesis using True by simp
    next
      case notover: False
      have "sat_add64 (length acc) (length c) \<le> limit" using False by simp
      then have fits: "length acc + length c \<le> limit"
        using Cons.prems(2) by (simp add: sat_add64_def min_def split: if_splits)
      have "fst (read_bounded limit (acc @ c) False (map Inr cs)) = Inr out"
        using Cons.prems(5) False notover c(1) by simp
      from Cons.IH [OF rest Cons.prems(2) _ _ this] fits notover show ?thesis by simp
    qed
  qed
qed

text \<open>A child whose output arrives in chunks as the reader asks for them, to its end.\<close>

definition prints :: "child \<Rightarrow> string list \<Rightarrow> bool" where
  "prints ch cs \<longleftrightarrow> pipe_chunks (child_stdout ch) = map Inr cs \<and> list_all (\<lambda>c. c \<noteq> [] \<and> length c \<le> 16384) cs"

lemma collect_parts:
  assumes "collect_child default_smart_limits rq ch = Some (Inr r)" and "prints ch cs"
  shows "200 \<le> smart_status r \<and> smart_status r \<le> 599
    \<and> set (map fst (smart_headers r)) \<subseteq> {''Content-Type'', ''Cache-Control'', ''Expires'', ''Pragma''}
    \<and> filter (\<lambda>h. fst h = ''Content-Type'') (smart_headers r) = [(''Content-Type'', sr_expected rq)]
    \<and> list_all (\<lambda>h. list_all (\<lambda>c. \<not> ascii_control c) (snd h)) (smart_headers r)
    \<and> length (smart_body r) \<le> 64 * 1024 * 1024
    \<and> (\<exists>h. concat cs = h @ smart_body r \<and> length h \<le> 32 * 1024
        \<or> prefix (h @ smart_body r) (concat cs) \<and> 16 * 1024 < length h \<and> length h \<le> 32 * 1024)"
proof -
  note cs = assms(2) [unfolded prints_def]
  define limit :: nat where "limit = 64 * 1024 * 1024 + 32 * 1024"
  have lim: "checked_add64 (64 * 1024 * 1024) (32 * 1024) = Some limit"
    by (simp add: checked_add64_def limit_def)
  from assms(1) cs obtain out where out: "fst (read_bounded limit [] False (map Inr cs)) = Inr out"
    and parse: "parse_cgi_response out (32 * 1024) (64 * 1024 * 1024) (sr_expected rq) = Inr r"
  proof -
    note run = assms(1) [unfolded collect_child_def default_smart_limits_def smart_limits.select_convs lim option.case]
    from run obtain read where read: "join_reader limit (child_stdout ch) = Some read"
      by (auto simp: bind_eq_Some_conv)
    moreover obtain out where out: "read = Inr out"
      using run read by (cases read) (auto simp: bind_eq_Some_conv)
    moreover from run read out have "parse_cgi_response out (32 * 1024) (64 * 1024 * 1024) (sr_expected rq) = Inr r"
      by (auto simp del: parse_cgi_response_def simp: bind_eq_Some_conv result_simps split: if_splits)
    ultimately show thesis using that cs by (auto simp: join_reader_def split: if_splits)
  qed
  from parse obtain h where h: "out = h @ smart_body r" and mh: "sat_add64 (length h) 0 \<le> 32 * 1024"
    and body: "length (smart_body r) \<le> 64 * 1024 * 1024"
    and ok: "200 \<le> smart_status r" "smart_status r \<le> 599"
      "list_all (\<lambda>(n, v). n \<in> set passed_headers \<and> v \<noteq> [] \<and> list_all (\<lambda>c. \<not> ascii_control c) v) (smart_headers r)"
      "filter (\<lambda>h. fst h = ''Content-Type'') (smart_headers r) = [(''Content-Type'', sr_expected rq)]"
    by (rule parse_cgi_response_parts)
  have mh': "length h \<le> 32 * 1024" using mh by (simp add: sat_add64_def min_def split: if_splits)
  have "out = concat cs \<or> (limit < length out + 16384 \<and> length out \<le> limit \<and> prefix out (concat cs))"
    using read_bounded_over [OF cs [THEN conjunct2], of limit "[]" False out] out by (simp add: limit_def)
  then have "concat cs = h @ smart_body r \<and> length h \<le> 32 * 1024
      \<or> prefix (h @ smart_body r) (concat cs) \<and> 16 * 1024 < length h \<and> length h \<le> 32 * 1024"
  proof
    assume "limit < length out + 16384 \<and> length out \<le> limit \<and> prefix out (concat cs)"
    then have "16 * 1024 < length h" using h body by (simp add: limit_def)
    then show ?thesis using \<open>limit < length out + 16384 \<and> length out \<le> limit \<and> prefix out (concat cs)\<close> h mh' by simp
  qed (use h mh' in simp)
  moreover have "set (map fst (smart_headers r)) \<subseteq> {''Content-Type'', ''Cache-Control'', ''Expires'', ''Pragma''}"
  proof -
    have "set (map fst (smart_headers r)) \<subseteq> set passed_headers" using ok(3) by (auto simp: list_all_iff)
    then show ?thesis by (simp only: passed_headers_def list.set)
  qed
  moreover have "list_all (\<lambda>h. list_all (\<lambda>c. \<not> ascii_control c) (snd h)) (smart_headers r)"
    using ok(3) by (auto simp: list_all_iff)
  ultimately show ?thesis using ok body by blast
qed

text \<open>
  C29: a successful Git answer comes from the one confined child of its request and is all of it.
  With the default limits, the child is \<^verbatim>\<open>git http-backend\<close> run with exactly the listed variables:
  the configured path, a private home with its own Git configuration and no system configuration or
  attributes, the store root and the name of the validated repository as the only project, the
  actor, the method, the query, the checked protocol version and plain file access turned off; its
  input is the body of the request.  The answer has a status between 200 and 599, exactly one content
  type, the one the endpoint expects, no other headers than three cache headers, no control
  character in a header and a body of at most 64 MiB, which is everything the child printed after
  its header, unless that header is longer than 16 KiB: the overflow of the output can then go
  unseen when the child exits first.
\<close>

theorem smart_answer_confined:
  assumes "smart_execute w be r rq = Some (Inr x)" and "smart_limits_of be = default_smart_limits"
    and "\<forall>argv env inp ch. spawn w argv env inp = Some ch \<longrightarrow> (\<exists>cs. prints ch cs)"
  shows "\<exists>key home env ch cs. spawn w [git_executable be, ''http-backend''] env (sr_body rq) = Some ch \<and> prints ch cs
    \<and> rp_real r \<and> rp_name r = key @ ''.git'' \<and> validate_store_slug key = Inr () \<and> private_home w = Some home
    \<and> distinct (map fst env)
    \<and> set env = {(''PATH'', child_path be), (''HOME'', home), (''LANG'', ''C''), (''LC_ALL'', ''C''),
        (''GIT_CONFIG_NOSYSTEM'', ''1''), (''GIT_CONFIG_GLOBAL'', home @ ''/gitconfig''), (''GIT_ATTR_NOSYSTEM'', ''1''),
        (''GIT_PROJECT_ROOT'', rp_root r), (''GIT_HTTP_EXPORT_ALL'', ''1''), (''GIT_CONFIG_COUNT'', ''1''),
        (''GIT_CONFIG_KEY_0'', ''http.getanyfile''), (''GIT_CONFIG_VALUE_0'', ''false''), (''REQUEST_METHOD'', sr_method rq),
        (''PATH_INFO'', ''/'' @ key @ ''.git'' @ sr_path_suffix rq), (''QUERY_STRING'', sr_query rq),
        (''REMOTE_USER'', sr_actor rq), (''CONTENT_LENGTH'', show_nat (length (sr_body rq)))}
      \<union> Pair ''CONTENT_TYPE'' ` set_option (sr_content_type rq) \<union> Pair ''HTTP_GIT_PROTOCOL'' ` set_option (sr_git_protocol rq)
    \<and> sr_git_protocol rq \<in> {None, Some ''version=1'', Some ''version=2''}
    \<and> 200 \<le> smart_status x \<and> smart_status x \<le> 599
    \<and> set (map fst (smart_headers x)) \<subseteq> {''Content-Type'', ''Cache-Control'', ''Expires'', ''Pragma''}
    \<and> filter (\<lambda>h. fst h = ''Content-Type'') (smart_headers x) = [(''Content-Type'', sr_expected rq)]
    \<and> list_all (\<lambda>h. list_all (\<lambda>c. \<not> ascii_control c) (snd h)) (smart_headers x)
    \<and> length (smart_body x) \<le> 64 * 1024 * 1024
    \<and> (\<exists>h. concat cs = h @ smart_body x \<and> length h \<le> 32 * 1024
        \<or> prefix (h @ smart_body x) (concat cs) \<and> 16 * 1024 < length h \<and> length h \<le> 32 * 1024)"
proof -
  from assms(1) obtain root name home ch where vr: "validate_repository r = Inr (root, name)" and home: "private_home w = Some home"
    and ch: "spawn w [git_executable be, ''http-backend''] (child_environment be home root name rq) (sr_body rq) = Some ch"
    and gp: "validate_git_protocol (sr_git_protocol rq) (max_git_protocol_bytes (smart_limits_of be)) = Inr ()"
    and run: "collect_child (smart_limits_of be) rq ch = Some (Inr x)"
    by (auto simp: smart_execute_def result_simps split: sum.splits)
  from vr have key: "rp_real r" "root = rp_root r" "name = rp_name r" "suffix ''.git'' (rp_name r)"
    "validate_store_slug (take (length (rp_name r) - length ''.git'') (rp_name r)) = Inr ()"
    by (auto simp: validate_repository_def result_simps strip_suffix_def split: if_splits)
  from key(4) obtain key where name: "rp_name r = key @ ''.git''" by (auto simp: suffix_def)
  with key(5) have slug: "validate_store_slug key = Inr ()" by simp
  from assms(3) ch obtain cs where cs: "prints ch cs" by blast
  define env where "env = child_environment be home root name rq"
  have keys: "distinct (map fst env)" by (simp add: env_def child_environment_def split: option.split)
  have env: "set env = {(''PATH'', child_path be), (''HOME'', home), (''LANG'', ''C''), (''LC_ALL'', ''C''),
        (''GIT_CONFIG_NOSYSTEM'', ''1''), (''GIT_CONFIG_GLOBAL'', home @ ''/gitconfig''), (''GIT_ATTR_NOSYSTEM'', ''1''),
        (''GIT_PROJECT_ROOT'', rp_root r), (''GIT_HTTP_EXPORT_ALL'', ''1''), (''GIT_CONFIG_COUNT'', ''1''),
        (''GIT_CONFIG_KEY_0'', ''http.getanyfile''), (''GIT_CONFIG_VALUE_0'', ''false''), (''REQUEST_METHOD'', sr_method rq),
        (''PATH_INFO'', ''/'' @ key @ ''.git'' @ sr_path_suffix rq), (''QUERY_STRING'', sr_query rq),
        (''REMOTE_USER'', sr_actor rq), (''CONTENT_LENGTH'', show_nat (length (sr_body rq)))}
      \<union> Pair ''CONTENT_TYPE'' ` set_option (sr_content_type rq) \<union> Pair ''HTTP_GIT_PROTOCOL'' ` set_option (sr_git_protocol rq)"
    unfolding env_def child_environment_def key(2,3) \<open>rp_name r = key @ ''.git''\<close> append_assoc set_append list.set Un_assoc
    by (cases "sr_content_type rq"; cases "sr_git_protocol rq") (simp_all only: option.case option.set list.set image_insert image_empty)
  have proto: "sr_git_protocol rq \<in> {None, Some ''version=1'', Some ''version=2''}"
    using gp by (auto simp: validate_git_protocol_def split: option.splits if_splits)
  note ch' = ch [folded env_def] and parts = collect_parts [OF run [unfolded assms(2)] cs]
  show ?thesis
    by (intro exI [of _ key] exI [of _ home] exI [of _ env] exI [of _ ch] exI [of _ cs])
      ((rule conjI, fact)+, fact parts)
qed

definition sample_request :: smart_request where
  "sample_request = \<lparr>sr_method = ''GET'', sr_path_suffix = ''/info/refs'', sr_query = advertisement_query,
     sr_content_type = None, sr_git_protocol = None, sr_actor = ''user'', sr_body = [],
     sr_expected = upload_pack_advertisement, sr_timeout = 30000\<rparr>"

definition sample_output :: string where
  "sample_output = ''Expires: never'' @ [CHR 0x0D, CHR 0x0A] @ ''Content-Type: '' @ upload_pack_advertisement
     @ [CHR 0x0D, CHR 0x0A, CHR 0x0D, CHR 0x0A] @ ''0000''"

definition sample_child :: child where
  "sample_child = \<lparr>child_stdout = \<lparr>pipe_chunks = map Inr [sample_output], pipe_closes = True\<rparr>, child_stderr = quiet_pipe, stdin_written = Some True,
     polls_of = (\<lambda>i. \<lparr>sees_overflow = False, waited = Exited True, elapsed = 0\<rparr>)\<rparr>"

definition sample_world :: smart_world where
  "sample_world = \<lparr>private_home = Some ''/tmp/home'', spawn = (\<lambda>argv env inp. Some sample_child)\<rparr>"

theorem smart_answer_confined_witness:
  "\<exists>x. smart_execute sample_world plain_backend plain_path sample_request = Some (Inr x)
     \<and> smart_body x = ''0000'' \<and> smart_status x \<le> 599 \<and> length (smart_body x) \<le> 64 * 1024 * 1024"
proof -
  let ?r = "\<lparr>smart_status = 200, smart_headers = [(''Expires'', ''never''), (''Content-Type'', upload_pack_advertisement)],
      smart_body = ''0000''\<rparr>"
  obtain n st where sep: "cgi_separator sample_output = Some (n, 4)" "n = 73"
    and header: "utf8_valid (take n sample_output)" "drop (n + 4) sample_output = ''0000''"
    and lines: "cgi_lines upload_pack_advertisement
        \<lparr>cgi_status = 200, saw_status = False, saw_content_type = False, cgi_headers = []\<rparr>
        (text_lines (take n sample_output)) = Inr st"
      "saw_content_type st" "cgi_status st = 200"
      "cgi_headers st = [(''Expires'', ''never''), (''Content-Type'', upload_pack_advertisement)]"
  proof
    show "cgi_separator sample_output = Some (73, 4)" by code_simp
    show "utf8_valid (take 73 sample_output)" by code_simp
    show "drop (73 + 4) sample_output = ''0000''" by code_simp
    show "cgi_lines upload_pack_advertisement
        \<lparr>cgi_status = 200, saw_status = False, saw_content_type = False, cgi_headers = []\<rparr>
        (text_lines (take 73 sample_output)) = Inr \<lparr>cgi_status = 200, saw_status = False, saw_content_type = True,
          cgi_headers = [(''Expires'', ''never''), (''Content-Type'', upload_pack_advertisement)]\<rparr>" by code_simp
  qed simp_all
  have parse: "parse_cgi_response sample_output (32 * 1024) (64 * 1024 * 1024) upload_pack_advertisement = Inr ?r"
    using sep header lines by (simp add: parse_cgi_response_def sat_add64_def)
  have "length sample_output \<le> 64 * 1024 * 1024 + 32 * 1024"
    by (simp add: sample_output_def upload_pack_advertisement_def)
  then have read: "fst (read_bounded (64 * 1024 * 1024 + 32 * 1024) [] False [Inr sample_output]) = Inr sample_output"
    by (simp add: sample_output_def sat_add64_def)
  have "collect_child default_smart_limits sample_request sample_child = Some (Inr ?r)"
    using parse read
    by (simp add: collect_child_def default_smart_limits_def sample_request_def sample_child_def checked_add64_def
        wait_child.simps join_reader_def pipe_ends_def quiet_pipe_def)
  moreover have "validate_repository plain_path = Inr (''/data'', ''a.git'')" by code_simp
  moreover have "validate_actor ''user'' = Inr ()" by code_simp
  ultimately have run: "smart_execute sample_world plain_backend plain_path sample_request = Some (Inr ?r)"
    by (simp add: smart_execute_def sample_world_def plain_backend_def validate_git_protocol_def) (simp add: sample_request_def)
  have "prints sample_child [sample_output]"
    by (simp add: prints_def sample_child_def sample_output_def upload_pack_advertisement_def)
  then have "\<forall>argv env inp ch. spawn sample_world argv env inp = Some ch \<longrightarrow> (\<exists>cs. prints ch cs)"
    by (auto simp: sample_world_def)
  from smart_answer_confined [OF run _ this] run show ?thesis by (fastforce simp: plain_backend_def)
qed

end
