(* ===== verification/Git_Interface.thy ===== *)
theory Git_Interface
  imports Git_Http
begin

text \<open>
  What the control plane asks of the git store: the operations it calls, each from the state of the
  store to an answer and the next state, and the contract they keep about which repositories exist.
  \<open>git_erase\<close> is the file-system part of \<open>cleanup_new_repository\<close> of
  \<^verbatim>\<open>crates/c6-server/src/main.rs\<close>; \<open>git_path\<close> is what \<open>validate_repository\<close> would find.
\<close>

type_synonym path = "string list"

record repository =
  rep_path :: path
  rep_limits :: git_limits
  oid_len :: nat

type_synonym ('g, 'a) git_io = "'g \<Rightarrow> (git_error + 'a) \<times> 'g"

record 'g git_ops =
  git_create :: "string \<Rightarrow> ('g, repository) git_io"
  git_open :: "string \<Rightarrow> ('g, repository) git_io"
  git_list_branches :: "repository \<Rightarrow> ('g, branch list) git_io"
  git_list_commits :: "repository \<Rightarrow> string \<Rightarrow> nat \<Rightarrow> ('g, git_commit list) git_io"
  git_list_tree :: "repository \<Rightarrow> string \<Rightarrow> bool \<Rightarrow> ('g, tree_entry list) git_io"
  git_read_file :: "repository \<Rightarrow> string \<Rightarrow> string \<Rightarrow> ('g, string) git_io"
  git_commit_changes :: "repository \<Rightarrow> string \<Rightarrow> string option \<Rightarrow> file_change list \<Rightarrow> string \<Rightarrow> commit_identity
     \<Rightarrow> ('g, string) git_io"
  git_erase :: "string \<Rightarrow> ('g, unit) git_io"
  git_path :: "repository \<Rightarrow> 'g \<Rightarrow> repository_path"

locale git_store =
  fixes ops :: "'g git_ops"
    and repos :: "'g \<Rightarrow> string set"
  assumes create_ok: "git_create ops k g = (Inr rep, g') \<Longrightarrow> k \<notin> repos g \<and> repos g' = insert k (repos g)"
    and create_failed: "git_create ops k g = (Inl e, g') \<Longrightarrow> repos g \<subseteq> repos g' \<and> repos g' \<subseteq> insert k (repos g)"
    and open_keeps: "repos (snd (git_open ops k g)) = repos g"
    and open_known: "git_open ops k g = (Inr rep, g') \<Longrightarrow> k \<in> repos g"
    and branches_keep: "repos (snd (git_list_branches ops rep g)) = repos g"
    and commits_keep: "repos (snd (git_list_commits ops rep r n g)) = repos g"
    and tree_keeps: "repos (snd (git_list_tree ops rep r b g)) = repos g"
    and read_keeps: "repos (snd (git_read_file ops rep r p g)) = repos g"
    and change_keeps: "repos (snd (git_commit_changes ops rep br s cs m i g)) = repos g"
    and erase_ok: "git_erase ops k g = (Inr (), g') \<Longrightarrow> repos g' = repos g - {k}"
    and erase_failed: "git_erase ops k g = (Inl e, g') \<Longrightarrow> repos g - {k} \<subseteq> repos g' \<and> repos g' \<subseteq> repos g"
begin

end

end
