(* ===== verification/Server_Auth.thy ===== *)
theory Server_Auth
  imports Server_Store Git_Interface Cookies Manifest
begin

text \<open>
  \<^verbatim>\<open>crates/c6-server/src/main.rs\<close>: the state behind the handlers and the decisions that guard them.
  The two authentication surfaces are the browser session (cookie, and the CSRF proof for changes)
  and the opaque credential (\<open>Bearer\<close> for the API, \<open>Basic\<close> for Git); then the roles, the
  origin checks and the Git endpoints.  The hash, base64, UUID and header codecs, serde's JSON of
  scopes, the TOML reader and the schedule calendar are fields of \<open>server_env\<close>; clock readings,
  fresh identifiers and random bytes come with each request in \<open>fresh\<close>.
\<close>

section \<open>State\<close>

record ('g, 'tz, 'cron) server_env =
  hash_hex :: "string \<Rightarrow> string"
  url64 :: "bytes \<Rightarrow> string"
  unurl64 :: "string \<Rightarrow> bytes option"
  unbase64 :: "string \<Rightarrow> string option"
  id_text :: "uuid \<Rightarrow> string"
  id_of :: "string \<Rightarrow> uuid option"
  header_text :: "string \<Rightarrow> string option"
  header_ok :: "string \<Rightarrow> bool"
  scopes_json :: "credential_scope list \<Rightarrow> string"
  scopes_of :: "string \<Rightarrow> credential_scope list option"
  toml :: "string \<Rightarrow> string + project_manifest"
  cal :: "('tz, 'cron) calendar"
  git :: "'g git_ops"
  base_url :: string
  secure :: bool
  git_http :: "smart_backend option"

record 'g server_state =
  sdb :: server_db
  lock_poisoned :: bool
  gits :: 'g
  token_file :: bool

record fresh =
  t_auth :: instant
  t_used :: instant
  t_now :: instant
  t_later :: instant
  t_login :: instant
  t_event :: instant
  id_a :: string
  id_b :: string
  id_login :: string
  id_event :: string
  rnd_a :: bytes
  rnd_b :: bytes
  rnd_public :: bytes
  unlink_ok :: bool

type_synonym header_list = "(string \<times> string) list"

datatype server_failure = Refuse server_error | Panic

text \<open>
  The payload of \<open>InternalError\<close> is only logged; the answer is always the same.  The names are kept
  where the source writes one.
\<close>

abbreviation internal :: server_error where
  "internal \<equiv> InternalError ''internal server error''"

definition locked :: "'g server_state \<Rightarrow> server_error + server_db" where
  "locked st = (if lock_poisoned st then Inl internal else Inr (sdb st))"

text \<open>A transaction that ends in an error is rolled back.\<close>

definition transact :: "(server_db \<Rightarrow> server_error + ('a \<times> server_db)) \<Rightarrow> 'g server_state
     \<Rightarrow> (server_error + 'a) \<times> 'g server_state" where
  "transact body st =
     (case rbind (locked st) body of
        Inl e \<Rightarrow> (Inl e, st)
      | Inr (a, db) \<Rightarrow> (Inr a, st\<lparr>sdb := db\<rparr>))"

definition server_setting :: "server_db \<Rightarrow> string \<Rightarrow> string option" where
  "server_setting db k = hget (db_settings db) k"

abbreviation stored :: "sql_error + 'a \<Rightarrow> server_error + 'a" where
  "stored \<equiv> map_err (\<lambda>_. internal)"

abbreviation stored_unique :: "sql_error + 'a \<Rightarrow> server_error + 'a" where
  "stored_unique \<equiv> map_err srv_map_conflict"

definition record_event ::
  "fresh \<Rightarrow> string \<Rightarrow> string \<Rightarrow> string \<Rightarrow> string option \<Rightarrow> server_db \<Rightarrow> server_error + server_db" where
  "record_event d actor action target_type tgt db =
     stored (insert_server_event \<lparr>sev_id = id_event d, sev_actor = Some actor, sev_action = action,
       sev_target_type = target_type, sev_target = tgt, sev_created = t_event d\<rparr> db)"

section \<open>Texts\<close>

definition nonempty :: "string \<Rightarrow> string \<Rightarrow> nat \<Rightarrow> server_error + unit" where
  "nonempty name v m =
     fail_if (trim v = [] \<or> m < length v) (BadRequest (name @ '' must be 1-'' @ show_nat m @ '' characters''))"

definition validate_slug_text :: "string \<Rightarrow> server_error + unit" where
  "validate_slug_text s =
     (if 2 \<le> length s \<and> length s \<le> 63
         \<and> list_all (\<lambda>c. ascii_lower c \<or> ascii_digit c \<or> c = CHR ''-'') s
         \<and> \<not> prefix ''-'' s \<and> \<not> suffix ''-'' s
      then Inr () else Inl (BadRequest ''slug must be 2-63 lowercase letters, digits, or hyphens''))"

definition validate_identity :: "string \<Rightarrow> string \<Rightarrow> string \<Rightarrow> server_error + unit" where
  "validate_identity name label key =
     andThen (nonempty ''displayName'' name 120)
    (andThen (nonempty ''deviceLabel'' label 120)
       (fail_if (length key < 32 \<or> 8192 < length key) (BadRequest ''publicKey must be 32-8192 characters'')))"

definition validate_secret_text :: "string \<Rightarrow> server_error + unit" where
  "validate_secret_text s =
     (if length s \<le> 128 \<and> s \<noteq> [] \<and> list_all (\<lambda>c. ascii_upper c \<or> ascii_digit c \<or> c = CHR ''_'') s
      then Inr () else Inl (BadRequest ''secret name must contain only A-Z, 0-9, and underscore''))"

definition validate_credential_label :: "string \<Rightarrow> server_error + unit" where
  "validate_credential_label s =
     andThen (nonempty ''label'' s 80)
       (if list_all (\<lambda>ch. \<not> char_control ch) (utf8_chars s) then Inr ()
        else Inl (BadRequest ''label must contain printable characters''))"

text \<open>Constant-time comparison: the differences of the bytes are accumulated, then compared with zero.\<close>

definition secure_eq :: "string \<Rightarrow> string \<Rightarrow> bool" where
  "secure_eq a b =
     (if length a \<noteq> length b then False
      else fold (\<lambda>(x, y) d. or d (xor x y))
        (zip (map (\<lambda>c. word_of_nat (ord c) :: u8) a) (map (\<lambda>c. word_of_nat (ord c)) b)) 0 = 0)"

section \<open>Cookies\<close>

definition srv_header :: "('g, 'tz, 'cron) server_env \<Rightarrow> string \<Rightarrow> header_list \<Rightarrow> string option" where
  "srv_header E name hs = Option.bind (map_of hs name) (header_text E)"

definition srv_cookie :: "('g, 'tz, 'cron) server_env \<Rightarrow> header_list \<Rightarrow> string \<Rightarrow> string option" where
  "srv_cookie E hs name =
     Option.bind (srv_header E ''cookie'' hs) (\<lambda>v.
       find_map (\<lambda>kv. if fst kv = name then Some (snd kv) else None) (cookie_pairs v))"

definition login_hours :: int where "login_hours = 24 * 30"

definition srv_second :: instant where "srv_second = 10 ^ 9"

definition secure_suffix :: "('g, 'tz, 'cron) server_env \<Rightarrow> string" where
  "secure_suffix E = (if secure E then ''; Secure'' else [])"

definition login_cookie :: "('g, 'tz, 'cron) server_env \<Rightarrow> string \<Rightarrow> string" where
  "login_cookie E v = ''c6_session='' @ v @ ''; Path=/; HttpOnly; SameSite=Strict; Max-Age=''
     @ show_nat (nat (login_hours * 3600)) @ secure_suffix E"

definition proof_cookie :: "('g, 'tz, 'cron) server_env \<Rightarrow> string \<Rightarrow> string" where
  "proof_cookie E v = ''c6_csrf='' @ v @ ''; Path=/; SameSite=Strict; Max-Age=''
     @ show_nat (nat (login_hours * 3600)) @ secure_suffix E"

definition append_session_cookies ::
  "('g, 'tz, 'cron) server_env \<Rightarrow> string \<Rightarrow> string \<Rightarrow> server_failure + string list" where
  "append_session_cookies E token csrf =
     (if header_ok E (login_cookie E token) \<and> header_ok E (proof_cookie E csrf)
      then Inr [login_cookie E token, proof_cookie E csrf] else Inl Panic)"

section \<open>Browser sessions\<close>

record principal =
  pr_user :: string
  pr_name :: string
  pr_login :: string
  pr_csrf_hash :: string
  pr_device :: "string option"

text \<open>
  The join of the query: the user's row, and the device's when there is one (\<open>LEFT JOIN\<close>).
\<close>

definition find_peer :: "server_db \<Rightarrow> string \<Rightarrow> peer option" where
  "find_peer db u = find (\<lambda>r. usr_id r = u) (peers db)"

definition find_device :: "server_db \<Rightarrow> string option \<Rightarrow> device option" where
  "find_device db k = Option.bind k (\<lambda>x. find (\<lambda>r. dev_id r = x) (devices db))"

definition peer_live :: "server_db \<Rightarrow> string \<Rightarrow> bool" where
  "peer_live db u = (case find_peer db u of None \<Rightarrow> False | Some r \<Rightarrow> usr_revoked r = None)"

definition login_live :: "server_db \<Rightarrow> instant \<Rightarrow> login \<Rightarrow> bool" where
  "login_live db t s \<longleftrightarrow> lg_revoked s = None \<and> peer_live db (lg_user s)
     \<and> (case find_device db (lg_device s) of None \<Rightarrow> True | Some r \<Rightarrow> dev_revoked r = None)
     \<and> t < lg_expires s"

definition find_login :: "server_db \<Rightarrow> string \<Rightarrow> instant \<Rightarrow> login option" where
  "find_login db th t = find (\<lambda>s. lg_token_hash s = th \<and> login_live db t s) (logins db)"

definition principal_of :: "server_db \<Rightarrow> login \<Rightarrow> principal" where
  "principal_of db s = \<lparr>pr_user = lg_user s,
     pr_name = (case find_peer db (lg_user s) of None \<Rightarrow> [] | Some r \<Rightarrow> usr_name r),
     pr_login = lg_id s, pr_csrf_hash = lg_csrf_hash s, pr_device = lg_device s\<rparr>"

definition check_proof ::
  "('g, 'tz, 'cron) server_env \<Rightarrow> header_list \<Rightarrow> principal \<Rightarrow> server_error + unit" where
  "check_proof E hs p =
     rbind (ok_or (Forbidden ''missing CSRF token'') (srv_header E ''x-c6-csrf'' hs)) (\<lambda>supplied.
     rbind (ok_or (Forbidden ''missing CSRF cookie'') (srv_cookie E hs ''c6_csrf'')) (\<lambda>c.
     fail_if (\<not> secure_eq supplied c \<or> \<not> secure_eq (pr_csrf_hash p) (hash_hex E supplied))
       (Forbidden ''invalid CSRF token'')))"

definition authenticate ::
  "('g, 'tz, 'cron) server_env \<Rightarrow> fresh \<Rightarrow> header_list \<Rightarrow> bool \<Rightarrow> 'g server_state \<Rightarrow> server_error + principal" where
  "authenticate E d hs csrf st =
     andThen (fail_if (map_of hs ''authorization'' \<noteq> None) Unauthenticated)
    (rbind (ok_or Unauthenticated (srv_cookie E hs ''c6_session'')) (\<lambda>token.
     rbind (locked st) (\<lambda>db.
     rbind (ok_or Unauthenticated (find_login db (hash_hex E token) (t_auth d))) (\<lambda>s.
     let p = principal_of db s in
     if csrf then andThen (check_proof E hs p) (Inr p) else Inr p))))"

section \<open>Opaque credentials\<close>

record token_principal =
  tp_user :: string
  tp_name :: string
  tp_space :: "string option"
  tp_project :: "string option"

definition parse_opaque_token ::
  "('g, 'tz, 'cron) server_env \<Rightarrow> string \<Rightarrow> credential_type \<Rightarrow> server_error + string" where
  "parse_opaque_token E token ty =
     (if 256 < length token \<or> list_ex ascii_ws token then Inl Unauthenticated
      else rbind (ok_or Unauthenticated (strip_prefix (token_prefix ty @ ''_'') token)) (\<lambda>r.
        if length r \<noteq> 60 \<or> r ! 16 \<noteq> CHR ''_'' then Inl Unauthenticated
        else let public = take 16 r; proof_part = drop 17 r in
          if length public \<noteq> 16 \<or> length proof_part \<noteq> 43
             \<or> (case unurl64 E public of None \<Rightarrow> True | Some bs \<Rightarrow> length bs \<noteq> 12)
             \<or> (case unurl64 E proof_part of None \<Rightarrow> True | Some bs \<Rightarrow> length bs \<noteq> 32)
          then Inl Unauthenticated else Inr public))"

definition key_live :: "server_db \<Rightarrow> instant \<Rightarrow> api_key \<Rightarrow> bool" where
  "key_live db t k \<longleftrightarrow> key_revoked k = None \<and> t < key_expires k \<and> peer_live db (key_user k)
     \<and> (key_device k = None
        \<or> (case find_device db (key_device k) of None \<Rightarrow> False | Some r \<Rightarrow> dev_revoked r = None))"

definition find_key :: "server_db \<Rightarrow> string \<Rightarrow> credential_type \<Rightarrow> instant \<Rightarrow> api_key option" where
  "find_key db public ty t =
     find (\<lambda>k. key_public k = public \<and> key_type k = credential_type_as_str ty \<and> key_live db t k) (api_keys db)"

definition touch_key :: "string \<Rightarrow> instant \<Rightarrow> server_db \<Rightarrow> server_db" where
  "touch_key kid t db = db\<lparr>api_keys := update_where (\<lambda>k. key_id k = kid) (\<lambda>k. k\<lparr>key_used := Some t\<rparr>) (api_keys db)\<rparr>"

text \<open>Looking the credential up and stamping its use, under one lock.\<close>

definition use_key ::
  "('g, 'tz, 'cron) server_env \<Rightarrow> fresh \<Rightarrow> string \<Rightarrow> credential_type \<Rightarrow> credential_scope \<Rightarrow> string
     \<Rightarrow> server_db \<Rightarrow> server_error + (token_principal \<times> server_db)" where
  "use_key E d token ty scope public db =
     rbind (ok_or Unauthenticated (find_key db public ty (t_auth d))) (\<lambda>k.
     andThen (fail_if (\<not> secure_eq (key_verifier k) (hash_hex E token)) Unauthenticated)
    (rbind (ok_or internal (scopes_of E (key_scopes k))) (\<lambda>scopes.
     andThen (fail_if (scope \<notin> set scopes) (Forbidden ''credential scope does not allow this operation''))
       (Inr (\<lparr>tp_user = key_user k,
           tp_name = (case find_peer db (key_user k) of None \<Rightarrow> [] | Some r \<Rightarrow> usr_name r),
           tp_space = key_space k, tp_project = key_project k\<rparr>, touch_key (key_id k) (t_used d) db)))))"

definition authenticate_opaque_token ::
  "('g, 'tz, 'cron) server_env \<Rightarrow> fresh \<Rightarrow> string \<Rightarrow> credential_type \<Rightarrow> credential_scope \<Rightarrow> 'g server_state
     \<Rightarrow> (server_error + token_principal) \<times> 'g server_state" where
  "authenticate_opaque_token E d token ty scope st =
     (case parse_opaque_token E token ty of
        Inl e \<Rightarrow> (Inl e, st)
      | Inr public \<Rightarrow> transact (use_key E d token ty scope public) st)"

definition trim_slashes :: "string \<Rightarrow> string" where
  "trim_slashes s = rev (dropWhile (\<lambda>c. c = CHR ''/'') (rev s))"

definition validate_optional_origin :: "('g, 'tz, 'cron) server_env \<Rightarrow> header_list \<Rightarrow> server_error + unit" where
  "validate_optional_origin E hs =
     (case map_of hs ''origin'' of
        None \<Rightarrow> Inr ()
      | Some v \<Rightarrow>
          rbind (ok_or (Forbidden ''invalid Origin header'') (header_text E v)) (\<lambda>origin.
          fail_if (trim_slashes origin \<noteq> base_url E) (Forbidden ''cross-origin request rejected'')))"

text \<open>The values of a header that may come more than once.\<close>

definition header_values :: "string \<Rightarrow> header_list \<Rightarrow> string list" where
  "header_values name hs = map snd (filter (\<lambda>h. fst h = name) hs)"

definition authenticate_bearer ::
  "('g, 'tz, 'cron) server_env \<Rightarrow> fresh \<Rightarrow> header_list \<Rightarrow> credential_scope \<Rightarrow> 'g server_state
     \<Rightarrow> (server_error + token_principal) \<times> 'g server_state" where
  "authenticate_bearer E d hs scope st =
     (case andThen (fail_if (srv_cookie E hs ''c6_session'' \<noteq> None) Unauthenticated)
          (andThen (validate_optional_origin E hs)
          (case header_values ''authorization'' hs of
             [v] \<Rightarrow> rbind (ok_or Unauthenticated (header_text E v)) (\<lambda>a.
                 ok_or Unauthenticated (strip_prefix ''Bearer '' a))
           | _ \<Rightarrow> Inl Unauthenticated)) of
        Inl e \<Rightarrow> (Inl e, st)
      | Inr token \<Rightarrow> authenticate_opaque_token E d token Cli scope st)"

section \<open>Roles\<close>

definition member_role :: "server_db \<Rightarrow> string \<Rightarrow> string \<Rightarrow> string option" where
  "member_role db ws u = map_option mbr_role (find (\<lambda>m. mbr_space m = ws \<and> mbr_user m = u) (members db))"

definition require_global_owner :: "principal \<Rightarrow> 'g server_state \<Rightarrow> server_error + unit" where
  "require_global_owner p st =
     rbind (locked st) (\<lambda>db.
       if server_setting db ''server_owner_id'' = Some (pr_user p) then Inr ()
       else Inl (Forbidden ''server administrator required''))"

definition require_role :: "principal \<Rightarrow> string \<Rightarrow> string \<Rightarrow> 'g server_state \<Rightarrow> server_error + unit" where
  "require_role p ws required st =
     rbind (locked st) (\<lambda>db. require_role_tx (member_role db ws (pr_user p)) required)"

definition find_project :: "server_db \<Rightarrow> string \<Rightarrow> project option" where
  "find_project db k = find (\<lambda>p. prj_id p = k) (projects db)"

definition project_workspace :: "string \<Rightarrow> 'g server_state \<Rightarrow> server_error + string" where
  "project_workspace k st =
     rbind (locked st) (\<lambda>db. ok_or (NotFoundError ''project'') (map_option prj_space (find_project db k)))"

definition membership_role :: "string \<Rightarrow> string \<Rightarrow> 'g server_state \<Rightarrow> server_error + string" where
  "membership_role u ws st = rbind (locked st) (\<lambda>db. ok_or internal (member_role db ws u))"

definition project_head :: "string \<Rightarrow> 'g server_state \<Rightarrow> server_error + string" where
  "project_head k st = rbind (locked st) (\<lambda>db. ok_or internal (map_option prj_head (find_project db k)))"

definition project_auth ::
  "('g, 'tz, 'cron) server_env \<Rightarrow> fresh \<Rightarrow> header_list \<Rightarrow> string \<Rightarrow> string \<Rightarrow> bool \<Rightarrow> 'g server_state
     \<Rightarrow> server_error + principal" where
  "project_auth E d hs k required csrf st =
     rbind (authenticate E d hs csrf st) (\<lambda>p.
     rbind (project_workspace k st) (\<lambda>ws.
     andThen (require_role p ws required st) (Inr p)))"

end
