(* ===== verification/Server_Api.thy ===== *)
theory Server_Api
  imports Server_Auth "HOL-Library.Char_ord" "HOL-Library.List_Lexorder"
begin

text \<open>
  \<^verbatim>\<open>crates/c6-server/src/main.rs\<close>: the handlers of identity and access (claim, invitations, browser
  sessions, peers, devices, credentials, the audit log).  Each handler is its authentication
  followed by a section \<open>*_as\<close> that takes the principal; the change a section makes is a
  transaction \<open>*_tx\<close> on the database.  Rows with equal sort keys keep their table order, which is
  one of the orders the queries allow; the JSON details of audit events are left out.
\<close>

section \<open>Replies\<close>

datatype server_reply =
    Healthy
  | StatusReply string bool
  | SessionStarted string string string instant "string list"
  | InviteCreated string string instant string
  | SessionRenewed string string "(string \<times> string \<times> string \<times> string) list" bool instant "string list"
  | LoggedOut "string list"
  | InviteList "(string \<times> string \<times> string option \<times> instant \<times> instant option) list"
  | PeerList "(string \<times> string \<times> instant option) list"
  | DeviceList "(string \<times> string \<times> instant \<times> instant option) list"
  | SessionList "(string \<times> string option \<times> instant \<times> instant \<times> instant option) list"
  | NoContent
  | CredentialCreated string string "credential_scope list" instant instant string
  | CredentialList "(string \<times> string \<times> credential_type \<times> credential_scope list \<times> string option
       \<times> string option \<times> instant \<times> instant \<times> instant option \<times> instant option) list"
  | WhoAmI string string string "(string \<times> string \<times> string \<times> string) list"
  | ManifestChecked "manifest_error + project_manifest"
  | AuditList "(string \<times> string option \<times> string \<times> string \<times> string option \<times> instant) list"
  | WorkspaceList "(string \<times> string \<times> string \<times> string) list"
  | WorkspaceReply string string string
  | ProjectList "(project \<times> role) list"
  | ProjectReply project string
  | RemoteReply string string bool
  | NotImplemented string
  | PullCreated pull
  | PullList "pull list"
  | DeploymentCreated deployment
  | DeploymentList "deployment list"
  | RunCreated job_run
  | RunList "job_run list"
  | ScheduleCreated schedule_row instant
  | ScheduleList "schedule_row list"
  | SecretCreated secret_meta
  | SecretList "secret_meta list"
  | Branches "branch list"
  | Commits string "git_commit list"
  | TreeEntries string "tree_entry list"
  | FileBytes string

type_synonym 'g reply = "(server_failure + server_reply) \<times> 'g server_state"

definition reply_with ::
  "('a \<Rightarrow> server_failure + server_reply) \<Rightarrow> (server_error + 'a) \<times> 'g server_state \<Rightarrow> 'g reply" where
  "reply_with k rs = (case rs of
       (Inl e, st) \<Rightarrow> (Inl (Refuse e), st)
     | (Inr a, st) \<Rightarrow> (k a, st))"

definition refused :: "server_error + server_reply \<Rightarrow> server_failure + server_reply" where
  "refused = map_err Refuse"

definition as_user ::
  "('g, 'tz, 'cron) server_env \<Rightarrow> fresh \<Rightarrow> header_list \<Rightarrow> bool \<Rightarrow> (principal \<Rightarrow> 'g server_state \<Rightarrow> 'g reply)
     \<Rightarrow> 'g server_state \<Rightarrow> 'g reply" where
  "as_user E d hs csrf k st =
     (case authenticate E d hs csrf st of Inl e \<Rightarrow> (Inl (Refuse e), st) | Inr p \<Rightarrow> k p st)"

definition as_owner ::
  "('g, 'tz, 'cron) server_env \<Rightarrow> fresh \<Rightarrow> header_list \<Rightarrow> bool \<Rightarrow> (principal \<Rightarrow> 'g server_state \<Rightarrow> 'g reply)
     \<Rightarrow> 'g server_state \<Rightarrow> 'g reply" where
  "as_owner E d hs csrf k = as_user E d hs csrf (\<lambda>p st.
     case require_global_owner p st of Inl e \<Rightarrow> (Inl (Refuse e), st) | Inr _ \<Rightarrow> k p st)"

section \<open>Status\<close>

definition health :: "'g server_state \<Rightarrow> server_failure + server_reply" where
  "health st = refused (rbind (locked st) (\<lambda>_. Inr Healthy))"

definition server_status :: "'g server_state \<Rightarrow> server_failure + server_reply" where
  "server_status st = refused (rbind (locked st) (\<lambda>db.
     rbind (ok_or internal (server_setting db ''server_id'')) (\<lambda>k.
     Inr (StatusReply k (list_ex (\<lambda>u. usr_revoked u = None) (peers db))))))"

section \<open>Claiming the server\<close>

record bootstrap_request =
  bt_token :: string
  bt_name :: string
  bt_label :: string
  bt_key :: string

definition issue_session ::
  "('g, 'tz, 'cron) server_env \<Rightarrow> fresh \<Rightarrow> string \<Rightarrow> string \<Rightarrow> server_db
     \<Rightarrow> server_error + ((string \<times> string \<times> instant) \<times> server_db)" where
  "issue_session E d u dev db =
     (let token = url64 E (rnd_a d); csrf = url64 E (rnd_b d);
          expires = t_login d + login_hours * 3600 * srv_second in
      rbind (stored (insert_login \<lparr>lg_id = id_login d, lg_user = u, lg_device = Some dev,
          lg_token_hash = hash_hex E token, lg_csrf_hash = hash_hex E csrf, lg_created = t_login d,
          lg_expires = expires, lg_revoked = None\<rparr> db)) (\<lambda>db.
      Inr ((token, csrf, expires), db)))"

definition server_claim_tx ::
  "('g, 'tz, 'cron) server_env \<Rightarrow> fresh \<Rightarrow> bootstrap_request \<Rightarrow> server_db
     \<Rightarrow> server_error + ((string \<times> string \<times> instant) \<times> server_db)" where
  "server_claim_tx E d r db =
     (if peers db \<noteq> [] then Inl (ConflictError ''server already claimed'')
      else rbind (ok_or internal (server_setting db ''bootstrap_hash'')) (\<lambda>expected.
        andThen (fail_if (\<not> secure_eq expected (hash_hex E (bt_token r))) (Forbidden ''invalid bootstrap token''))
       (rbind (stored (insert_peer \<lparr>usr_id = id_a d, usr_name = bt_name r, usr_revoked = None\<rparr> db)) (\<lambda>db.
        rbind (stored (insert_setting ''server_owner_id'' (id_a d) db)) (\<lambda>db.
        rbind (stored_unique (insert_device \<lparr>dev_id = id_b d, dev_user = id_a d, dev_label = bt_label r,
           dev_key = bt_key r, dev_created = t_now d, dev_revoked = None\<rparr> db)) (\<lambda>db.
        rbind (record_event d (id_a d) ''server.claim'' ''server'' None (drop_setting ''bootstrap_hash'' db)) (\<lambda>db.
        issue_session E d (id_a d) (id_b d) db)))))))"

text \<open>
  The answer is built while the database guard is alive, so a panic there poisons the lock.
\<close>

definition session_reply ::
  "('g, 'tz, 'cron) server_env \<Rightarrow> string \<Rightarrow> string \<Rightarrow> (string \<times> string \<times> instant) \<Rightarrow> 'g server_state \<Rightarrow> 'g reply" where
  "session_reply E u name issued st =
     (let (token, csrf, expires) = issued in
      case append_session_cookies E token csrf of
        Inl f \<Rightarrow> (Inl f, st\<lparr>lock_poisoned := True\<rparr>)
      | Inr cookies \<Rightarrow> (Inr (SessionStarted u name csrf expires cookies), st))"

definition server_claim ::
  "('g, 'tz, 'cron) server_env \<Rightarrow> fresh \<Rightarrow> bootstrap_request \<Rightarrow> 'g server_state \<Rightarrow> 'g reply" where
  "server_claim E d r st =
     (case validate_identity (bt_name r) (bt_label r) (bt_key r) of
        Inl e \<Rightarrow> (Inl (Refuse e), st)
      | Inr _ \<Rightarrow>
          (case transact (server_claim_tx E d r) st of
             (Inl e, st) \<Rightarrow> (Inl (Refuse e), st)
           | (Inr issued, st) \<Rightarrow>
               session_reply E (id_a d) (bt_name r) issued
                 (st\<lparr>token_file := token_file st \<and> \<not> unlink_ok d\<rparr>)))"

section \<open>Invitations\<close>

record invite_request =
  iv_role :: string
  iv_minutes :: "int option"
  iv_space :: "string option"

definition create_invite_tx ::
  "('g, 'tz, 'cron) server_env \<Rightarrow> fresh \<Rightarrow> invite_request \<Rightarrow> int \<Rightarrow> string \<Rightarrow> server_db
     \<Rightarrow> server_error + (instant \<times> server_db)" where
  "create_invite_tx E d r minutes u db =
     andThen (case iv_space r of None \<Rightarrow> Inr () | Some ws \<Rightarrow> require_role_tx (member_role db ws u) ''owner'')
    (let expires = t_now d + minutes * 60 * srv_second in
     rbind (stored (insert_invite \<lparr>ivt_id = id_a d, ivt_token_hash = hash_hex E (url64 E (rnd_a d)),
        ivt_role = iv_role r, ivt_space = iv_space r, ivt_creator = u, ivt_created = t_now d,
        ivt_expires = expires, ivt_redeemed = None, ivt_redeemer = None\<rparr> db)) (\<lambda>db.
     rbind (record_event d u ''invite.create'' ''invite'' (Some (id_a d)) db) (\<lambda>db.
     Inr (expires, db))))"

definition create_invite_as ::
  "('g, 'tz, 'cron) server_env \<Rightarrow> fresh \<Rightarrow> invite_request \<Rightarrow> principal \<Rightarrow> 'g server_state \<Rightarrow> 'g reply" where
  "create_invite_as E d r p st =
     (let minutes = (case iv_minutes r of None \<Rightarrow> 30 | Some m \<Rightarrow> m); token = url64 E (rnd_a d) in
      case andThen (validate_role (iv_role r))
          (fail_if (minutes < 1 \<or> 10080 < minutes) (BadRequest ''expiresInMinutes must be between 1 and 10080'')) of
        Inl e \<Rightarrow> (Inl (Refuse e), st)
      | Inr _ \<Rightarrow>
          reply_with (\<lambda>expires. Inr (InviteCreated (id_a d) token expires (base_url E @ ''/join#token='' @ token)))
            (transact (create_invite_tx E d r minutes (pr_user p)) st))"

definition mark_redeemed :: "string \<Rightarrow> instant \<Rightarrow> string \<Rightarrow> server_db \<Rightarrow> server_db" where
  "mark_redeemed k t u db = db\<lparr>invites := update_where (\<lambda>i. ivt_id i = k \<and> ivt_redeemed i = None)
     (\<lambda>i. i\<lparr>ivt_redeemed := Some t, ivt_redeemer := Some u\<rparr>) (invites db)\<rparr>"

definition redeem_tx ::
  "('g, 'tz, 'cron) server_env \<Rightarrow> fresh \<Rightarrow> bootstrap_request \<Rightarrow> server_db
     \<Rightarrow> server_error + ((string \<times> string \<times> instant) \<times> server_db)" where
  "redeem_tx E d r db =
     rbind (ok_or (Forbidden ''invalid invitation'')
        (find (\<lambda>i. ivt_token_hash i = hash_hex E (bt_token r)) (invites db))) (\<lambda>i.
     andThen (fail_if (ivt_redeemed i \<noteq> None) (ConflictError ''invitation already redeemed''))
    (andThen (fail_if (ivt_expires i \<le> t_auth d) (Forbidden ''invitation expired''))
    (rbind (stored (insert_peer \<lparr>usr_id = id_a d, usr_name = bt_name r, usr_revoked = None\<rparr> db)) (\<lambda>db.
     rbind (stored_unique (insert_device \<lparr>dev_id = id_b d, dev_user = id_a d, dev_label = bt_label r,
        dev_key = bt_key r, dev_created = t_now d, dev_revoked = None\<rparr> db)) (\<lambda>db.
     rbind (case ivt_space i of None \<Rightarrow> Inr db
        | Some ws \<Rightarrow> stored (insert_member \<lparr>mbr_space = ws, mbr_user = id_a d, mbr_role = ivt_role i\<rparr> db)) (\<lambda>db.
     if length (filter (\<lambda>j. ivt_id j = ivt_id i \<and> ivt_redeemed j = None) (invites db)) \<noteq> 1
     then Inl (ConflictError ''invitation already redeemed'')
     else rbind (record_event d (id_a d) ''invite.redeem'' ''invite'' (Some (ivt_id i))
            (mark_redeemed (ivt_id i) (t_now d) (id_a d) db)) (\<lambda>db.
          issue_session E d (id_a d) (id_b d) db)))))))"

definition redeem_invite ::
  "('g, 'tz, 'cron) server_env \<Rightarrow> fresh \<Rightarrow> bootstrap_request \<Rightarrow> 'g server_state \<Rightarrow> 'g reply" where
  "redeem_invite E d r st =
     (case validate_identity (bt_name r) (bt_label r) (bt_key r) of
        Inl e \<Rightarrow> (Inl (Refuse e), st)
      | Inr _ \<Rightarrow>
          (case transact (redeem_tx E d r) st of
             (Inl e, st) \<Rightarrow> (Inl (Refuse e), st)
           | (Inr issued, st) \<Rightarrow> session_reply E (id_a d) (bt_name r) issued st))"

definition list_invites_as :: "principal \<Rightarrow> 'g server_state \<Rightarrow> 'g reply" where
  "list_invites_as p st = (refused (rbind (locked st) (\<lambda>db. Inr (InviteList
     (map (\<lambda>i. (ivt_id i, ivt_role i, ivt_space i, ivt_expires i, ivt_redeemed i))
        (sort_key (\<lambda>i. - ivt_created i) (invites db)))))), st)"

section \<open>Browser sessions\<close>

text \<open>The workspaces of a user, by name.\<close>

definition workspaces_of :: "server_db \<Rightarrow> string \<Rightarrow> (string \<times> string \<times> string \<times> string) list" where
  "workspaces_of db u = map (\<lambda>(w, m). (spc_id w, spc_slug w, spc_name w, mbr_role m))
     (sort_key (\<lambda>(w, m). spc_name w)
       [(w, m). w \<leftarrow> spaces db, m \<leftarrow> members db, mbr_space m = spc_id w, mbr_user m = u])"

definition device_usable :: "server_db \<Rightarrow> string option \<Rightarrow> bool" where
  "device_usable db k = (case k of None \<Rightarrow> True
     | Some x \<Rightarrow> list_ex (\<lambda>r. dev_id r = x \<and> dev_revoked r = None) (devices db))"

definition renewable :: "server_db \<Rightarrow> string \<Rightarrow> string \<Rightarrow> string \<Rightarrow> instant \<Rightarrow> login \<Rightarrow> bool" where
  "renewable db k th ch t s \<longleftrightarrow> lg_id s = k \<and> lg_token_hash s = th \<and> lg_csrf_hash s = ch
     \<and> lg_revoked s = None \<and> t < lg_expires s
     \<and> list_ex (\<lambda>u. usr_id u = lg_user s \<and> usr_revoked u = None) (peers db)
     \<and> device_usable db (lg_device s)"

definition renew_tx ::
  "('g, 'tz, 'cron) server_env \<Rightarrow> fresh \<Rightarrow> string \<Rightarrow> string \<Rightarrow> principal \<Rightarrow> server_db
     \<Rightarrow> server_error + (((string \<times> string \<times> string \<times> string) list \<times> bool \<times> instant) \<times> server_db)" where
  "renew_tx E d token csrf p db =
     (let expires = t_later d + login_hours * 3600 * srv_second;
          row = renewable db (pr_login p) (hash_hex E token) (hash_hex E csrf) (t_now d) in
      if length (filter row (logins db)) \<noteq> 1 then Inl Unauthenticated
      else let db' = db\<lparr>logins := update_where row (\<lambda>s. s\<lparr>lg_expires := expires\<rparr>) (logins db)\<rparr> in
        Inr ((workspaces_of db' (pr_user p), server_setting db' ''server_owner_id'' = Some (pr_user p), expires), db'))"

definition renew_session_as ::
  "('g, 'tz, 'cron) server_env \<Rightarrow> fresh \<Rightarrow> string \<Rightarrow> string \<Rightarrow> principal \<Rightarrow> 'g server_state \<Rightarrow> 'g reply" where
  "renew_session_as E d token csrf p st =
     (if \<not> secure_eq (pr_csrf_hash p) (hash_hex E csrf) then (Inl (Refuse Unauthenticated), st)
      else case transact (renew_tx E d token csrf p) st of
          (Inl e, st) \<Rightarrow> (Inl (Refuse e), st)
        | (Inr (ws, admin, expires), st) \<Rightarrow>
            (case append_session_cookies E token csrf of
               Inl f \<Rightarrow> (Inl f, st\<lparr>lock_poisoned := True\<rparr>)
             | Inr cookies \<Rightarrow> (Inr (SessionRenewed (pr_user p) (pr_name p) ws admin expires cookies), st)))"

definition session_get ::
  "('g, 'tz, 'cron) server_env \<Rightarrow> fresh \<Rightarrow> header_list \<Rightarrow> 'g server_state \<Rightarrow> 'g reply" where
  "session_get E d hs st =
     (case rbind (ok_or Unauthenticated (srv_cookie E hs ''c6_session'')) (\<lambda>token.
           rbind (ok_or Unauthenticated (srv_cookie E hs ''c6_csrf'')) (\<lambda>csrf. Inr (token, csrf))) of
        Inl e \<Rightarrow> (Inl (Refuse e), st)
      | Inr (token, csrf) \<Rightarrow> as_user E d hs False (renew_session_as E d token csrf) st)"

definition revoke_logins :: "(login \<Rightarrow> bool) \<Rightarrow> instant \<Rightarrow> server_db \<Rightarrow> server_db" where
  "revoke_logins P t db = db\<lparr>logins := update_where P (\<lambda>s. s\<lparr>lg_revoked := Some t\<rparr>) (logins db)\<rparr>"

definition server_logout_tx :: "fresh \<Rightarrow> principal \<Rightarrow> server_db \<Rightarrow> server_error + (unit \<times> server_db)" where
  "server_logout_tx d p db =
     rbind (record_event d (pr_user p) ''session.logout'' ''session'' (Some (pr_login p))
       (revoke_logins (\<lambda>s. lg_id s = pr_login p) (t_now d) db)) (\<lambda>db. Inr ((), db))"

definition cleared_cookies :: "('g, 'tz, 'cron) server_env \<Rightarrow> string list" where
  "cleared_cookies E = [''c6_session=; Path=/; HttpOnly; SameSite=Strict; Max-Age=0'' @ secure_suffix E,
     ''c6_csrf=; Path=/; SameSite=Strict; Max-Age=0'' @ secure_suffix E]"

definition server_logout_as ::
  "('g, 'tz, 'cron) server_env \<Rightarrow> fresh \<Rightarrow> principal \<Rightarrow> 'g server_state \<Rightarrow> 'g reply" where
  "server_logout_as E d p st =
     (case transact (server_logout_tx d p) st of
        (Inl e, st) \<Rightarrow> (Inl (Refuse e), st)
      | (Inr _, st) \<Rightarrow>
          if list_all (header_ok E) (cleared_cookies E) then (Inr (LoggedOut (cleared_cookies E)), st)
          else (Inl Panic, st\<lparr>lock_poisoned := True\<rparr>))"

definition list_sessions_as :: "principal \<Rightarrow> 'g server_state \<Rightarrow> 'g reply" where
  "list_sessions_as p st = (refused (rbind (locked st) (\<lambda>db. Inr (SessionList
     (map (\<lambda>s. (lg_id s, lg_device s, lg_created s, lg_expires s, lg_revoked s))
        (sort_key (\<lambda>s. - lg_created s) (filter (\<lambda>s. lg_user s = pr_user p) (logins db))))))), st)"

definition revoke_session_tx :: "fresh \<Rightarrow> string \<Rightarrow> principal \<Rightarrow> server_db \<Rightarrow> server_error + (unit \<times> server_db)" where
  "revoke_session_tx d k p db =
     (let row = (\<lambda>s. lg_id s = k \<and> lg_user s = pr_user p \<and> lg_revoked s = None) in
      if \<not> list_ex row (logins db) then Inl (NotFoundError ''session'')
      else rbind (record_event d (pr_user p) ''session.revoke'' ''session'' (Some k)
             (revoke_logins row (t_now d) db)) (\<lambda>db. Inr ((), db)))"

definition revoke_session_as :: "fresh \<Rightarrow> string \<Rightarrow> principal \<Rightarrow> 'g server_state \<Rightarrow> 'g reply" where
  "revoke_session_as d k p st = reply_with (\<lambda>_. Inr NoContent) (transact (revoke_session_tx d k p) st)"

section \<open>Peers and devices\<close>

definition list_peers_as :: "principal \<Rightarrow> 'g server_state \<Rightarrow> 'g reply" where
  "list_peers_as p st = (refused (rbind (locked st) (\<lambda>db. Inr (PeerList
     (map (\<lambda>u. (usr_id u, usr_name u, usr_revoked u)) (sort_key usr_name (peers db)))))), st)"

definition revoke_peer_tx :: "fresh \<Rightarrow> string \<Rightarrow> principal \<Rightarrow> server_db \<Rightarrow> server_error + (unit \<times> server_db)" where
  "revoke_peer_tx d k p db =
     (let row = (\<lambda>u. usr_id u = k \<and> usr_revoked u = None) in
      if \<not> list_ex row (peers db) then Inl (NotFoundError ''peer'')
      else let db' = db\<lparr>peers := update_where row (\<lambda>u. u\<lparr>usr_revoked := Some (t_now d)\<rparr>) (peers db)\<rparr> in
        rbind (record_event d (pr_user p) ''peer.revoke'' ''peer'' (Some k)
          (revoke_logins (\<lambda>s. lg_user s = k \<and> lg_revoked s = None) (t_later d) db')) (\<lambda>db. Inr ((), db)))"

definition revoke_peer_as :: "fresh \<Rightarrow> string \<Rightarrow> principal \<Rightarrow> 'g server_state \<Rightarrow> 'g reply" where
  "revoke_peer_as d k p st =
     (if pr_user p = k then (Inl (Refuse (BadRequest ''cannot revoke your own peer'')), st)
      else reply_with (\<lambda>_. Inr NoContent) (transact (revoke_peer_tx d k p) st))"

definition list_devices_as :: "principal \<Rightarrow> 'g server_state \<Rightarrow> 'g reply" where
  "list_devices_as p st = (refused (rbind (locked st) (\<lambda>db. Inr (DeviceList
     (map (\<lambda>r. (dev_id r, dev_label r, dev_created r, dev_revoked r))
        (sort_key (\<lambda>r. - dev_created r) (filter (\<lambda>r. dev_user r = pr_user p) (devices db))))))), st)"

definition revoke_device_tx :: "fresh \<Rightarrow> string \<Rightarrow> principal \<Rightarrow> server_db \<Rightarrow> server_error + (unit \<times> server_db)" where
  "revoke_device_tx d k p db =
     (let row = (\<lambda>r. dev_id r = k \<and> dev_user r = pr_user p \<and> dev_revoked r = None) in
      if \<not> list_ex row (devices db) then Inl (NotFoundError ''device'')
      else let db' = db\<lparr>devices := update_where row (\<lambda>r. r\<lparr>dev_revoked := Some (t_now d)\<rparr>) (devices db)\<rparr> in
        rbind (record_event d (pr_user p) ''device.revoke'' ''device'' (Some k)
          (revoke_logins (\<lambda>s. lg_device s = Some k) (t_later d) db')) (\<lambda>db. Inr ((), db)))"

definition revoke_device_as :: "fresh \<Rightarrow> string \<Rightarrow> principal \<Rightarrow> 'g server_state \<Rightarrow> 'g reply" where
  "revoke_device_as d k p st = reply_with (\<lambda>_. Inr NoContent) (transact (revoke_device_tx d k p) st)"

section \<open>Credentials\<close>

record restriction =
  rst_space :: "uuid option"
  rst_project :: "uuid option"

record key_request =
  kr_type :: credential_type
  kr_label :: string
  kr_scopes :: "credential_scope list"
  kr_restriction :: "restriction option"
  kr_expires :: "instant option"

text \<open>\<open>sort\<close> and \<open>dedup\<close> in the derived order of the scopes.\<close>

definition sorted_scopes :: "credential_scope list \<Rightarrow> credential_scope list" where
  "sorted_scopes ss = filter (\<lambda>s. s \<in> set ss) [ApiRead, ApiWrite, GitRead, GitWrite]"

definition validate_credential_restriction ::
  "('g, 'tz, 'cron) server_env \<Rightarrow> string \<Rightarrow> restriction option \<Rightarrow> 'g server_state
     \<Rightarrow> server_error + (string option \<times> string option)" where
  "validate_credential_restriction E u r st =
     (case r of
        None \<Rightarrow> Inr (None, None)
      | Some r \<Rightarrow>
          if rst_space r = None \<and> rst_project r = None
          then Inl (BadRequest ''restriction must select a workspace or project'')
          else rbind (locked st) (\<lambda>db.
            rbind (case rst_project r of
                None \<Rightarrow>
                  (case rst_space r of
                     None \<Rightarrow> Inl internal
                   | Some w \<Rightarrow> andThen (require_role_tx (member_role db (id_text E w) u) ''reader'') (Inr (id_text E w)))
              | Some k \<Rightarrow>
                  rbind (ok_or (NotFoundError ''project'')
                    (Option.bind (find_project db (id_text E k)) (\<lambda>p.
                       map_option (\<lambda>_. prj_space p) (member_role db (prj_space p) u)))) (\<lambda>actual.
                  andThen (fail_if (case rst_space r of None \<Rightarrow> False | Some w \<Rightarrow> id_text E w \<noteq> actual)
                     (BadRequest ''project is not in the restricted workspace''))
                  (andThen (require_role_tx (member_role db actual u) ''reader'') (Inr actual)))) (\<lambda>ws.
            Inr (Some ws, map_option (id_text E) (rst_project r)))))"

definition day :: instant where "day = 24 * 3600 * srv_second"

definition create_key_tx ::
  "('g, 'tz, 'cron) server_env \<Rightarrow> fresh \<Rightarrow> key_request \<Rightarrow> string \<Rightarrow> instant \<Rightarrow> (string option \<times> string option)
     \<Rightarrow> principal \<Rightarrow> server_db \<Rightarrow> server_error + (unit \<times> server_db)" where
  "create_key_tx E d r token expires confined p db =
     rbind (stored (insert_key \<lparr>key_id = id_a d, key_public = url64 E (rnd_public d),
        key_verifier = hash_hex E token, key_user = pr_user p, key_device = pr_device p,
        key_label = kr_label r, key_type = credential_type_as_str (kr_type r),
        key_scopes = scopes_json E (sorted_scopes (kr_scopes r)), key_space = fst confined,
        key_project = snd confined, key_created = t_now d, key_expires = expires,
        key_used = None, key_revoked = None\<rparr> db)) (\<lambda>db.
     rbind (record_event d (pr_user p) ''credential.create'' ''credential'' (Some (id_a d)) db) (\<lambda>db. Inr ((), db)))"

definition create_credential_as ::
  "('g, 'tz, 'cron) server_env \<Rightarrow> fresh \<Rightarrow> key_request \<Rightarrow> principal \<Rightarrow> 'g server_state \<Rightarrow> 'g reply" where
  "create_credential_as E d r p st =
     (let scopes = sorted_scopes (kr_scopes r);
          expires = (case kr_expires r of None \<Rightarrow> t_now d + 30 * day | Some t \<Rightarrow> t);
          token = token_prefix (kr_type r) @ ''_'' @ url64 E (rnd_public d) @ ''_'' @ url64 E (rnd_a d) in
      case andThen (fail_if (case pr_device p of None \<Rightarrow> False | Some k \<Rightarrow> id_of E k = None) internal)
          (andThen (fail_if (id_of E (pr_user p) = None) internal)
          (andThen (validate_credential_label (kr_label r))
          (andThen (fail_if (scopes = [] \<or> list_ex (\<lambda>s. s \<notin> set (allowed_scopes (kr_type r))) scopes
               \<or> (kr_type r = Git \<and> GitWrite \<in> set scopes)) (BadRequest ''at least one valid scope is required''))
          (andThen (fail_if (expires \<le> t_now d \<or> t_now d + 90 * day < expires)
               (BadRequest ''expiresAt must be in the future and no more than 90 days away''))
            (validate_credential_restriction E (pr_user p) (kr_restriction r) st))))) of
        Inl e \<Rightarrow> (Inl (Refuse e), st)
      | Inr confined \<Rightarrow>
          reply_with (\<lambda>_. Inr (CredentialCreated (id_a d) (kr_label r) scopes (t_now d) expires token))
            (transact (create_key_tx E d r token expires confined p) st))"

definition key_metadata ::
  "('g, 'tz, 'cron) server_env \<Rightarrow> principal \<Rightarrow> api_key \<Rightarrow> server_error
     + (string \<times> string \<times> credential_type \<times> credential_scope list \<times> string option
       \<times> string option \<times> instant \<times> instant \<times> instant option \<times> instant option)" where
  "key_metadata E p k =
     rbind (ok_or internal (scopes_of E (key_scopes k))) (\<lambda>scopes.
     rbind (map_err (\<lambda>_. internal) (credential_type_from_str (key_type k))) (\<lambda>ty.
     andThen (fail_if (id_of E (key_id k) = None \<or> id_of E (pr_user p) = None
        \<or> (case key_device k of None \<Rightarrow> False | Some x \<Rightarrow> id_of E x = None)
        \<or> (case key_space k of None \<Rightarrow> False
           | Some w \<Rightarrow> id_of E w = None \<or> (case key_project k of None \<Rightarrow> False | Some x \<Rightarrow> id_of E x = None))) internal)
     (Inr (key_id k, key_label k, ty, scopes, key_space k, (if key_space k = None then None else key_project k),
        key_created k, key_expires k, key_used k, key_revoked k))))"

definition list_credentials_as ::
  "('g, 'tz, 'cron) server_env \<Rightarrow> principal \<Rightarrow> 'g server_state \<Rightarrow> 'g reply" where
  "list_credentials_as E p st = (refused (rbind (locked st) (\<lambda>db.
     rbind (map_res (key_metadata E p)
        (take 200 (sort_key (\<lambda>k. - key_created k) (filter (\<lambda>k. key_user k = pr_user p) (api_keys db))))) (\<lambda>ks.
     Inr (CredentialList ks)))), st)"

definition revoke_key_tx :: "fresh \<Rightarrow> string \<Rightarrow> principal \<Rightarrow> server_db \<Rightarrow> server_error + (unit \<times> server_db)" where
  "revoke_key_tx d k p db =
     (let row = (\<lambda>r. key_id r = k \<and> key_user r = pr_user p \<and> key_revoked r = None) in
      if \<not> list_ex (\<lambda>r. key_id r = k \<and> key_user r = pr_user p) (api_keys db) then Inl (NotFoundError ''credential'')
      else let db' = db\<lparr>api_keys := update_where row (\<lambda>r. r\<lparr>key_revoked := Some (t_now d)\<rparr>) (api_keys db)\<rparr> in
        if list_ex row (api_keys db)
        then rbind (record_event d (pr_user p) ''credential.revoke'' ''credential'' (Some k) db') (\<lambda>db. Inr ((), db))
        else Inr ((), db'))"

definition revoke_credential_as :: "fresh \<Rightarrow> string \<Rightarrow> principal \<Rightarrow> 'g server_state \<Rightarrow> 'g reply" where
  "revoke_credential_as d k p st = reply_with (\<lambda>_. Inr NoContent) (transact (revoke_key_tx d k p) st)"

text \<open>\<open>cli_whoami\<close>: the answer a credential gets, limited to the workspace it is confined to.\<close>

definition whoami_reply :: "token_principal \<Rightarrow> 'g server_state \<Rightarrow> server_failure + server_reply" where
  "whoami_reply p st = refused (rbind (locked st) (\<lambda>db.
     rbind (ok_or internal (server_setting db ''server_id'')) (\<lambda>k.
     Inr (WhoAmI k (tp_user p) (tp_name p)
       (case tp_space p of
          None \<Rightarrow> workspaces_of db (tp_user p)
        | Some ws \<Rightarrow> filter (\<lambda>(i, _). i = ws) (workspaces_of db (tp_user p)))))))"

definition cli_whoami ::
  "('g, 'tz, 'cron) server_env \<Rightarrow> fresh \<Rightarrow> header_list \<Rightarrow> 'g server_state \<Rightarrow> 'g reply" where
  "cli_whoami E d hs st =
     (case authenticate_bearer E d hs ApiRead st of
        (Inl e, st) \<Rightarrow> (Inl (Refuse e), st)
      | (Inr p, st) \<Rightarrow> (whoami_reply p st, st))"

section \<open>Manifest validation and the audit log\<close>

definition manifest_as :: "('g, 'tz, 'cron) server_env \<Rightarrow> string \<Rightarrow> principal \<Rightarrow> 'g server_state \<Rightarrow> 'g reply" where
  "manifest_as E source p st =
     (Inr (ManifestChecked (parse_manifest (toml E) source)), st)"

definition list_audit_as :: "principal \<Rightarrow> 'g server_state \<Rightarrow> 'g reply" where
  "list_audit_as p st = (refused (rbind (locked st) (\<lambda>db. Inr (AuditList
     (map (\<lambda>e. (sev_id e, sev_actor e, sev_action e, sev_target_type e, sev_target e, sev_created e))
        (take 500 (sort_key (\<lambda>e. - sev_created e) (server_events db))))))), st)"

end
