(* ===== verification/Server_Projects.thy ===== *)
theory Server_Projects
  imports Server_Api
begin

text \<open>
  \<^verbatim>\<open>crates/c6-server/src/main.rs\<close>: workspaces, projects and what hangs off them (pull requests,
  deployments, runs, schedules, secrets), the reads of a repository, the Git endpoints, and the
  routes of \<open>app\<close> with the origin check in front of them.
\<close>

section \<open>Errors of the git store\<close>

definition map_git :: "git_error \<Rightarrow> server_error" where
  "map_git e = (case e of
      RepositoryMissing _ \<Rightarrow> NotFoundError ''repository revision''
    | RevisionNotFound _ \<Rightarrow> NotFoundError ''repository revision''
    | InvalidRef b \<Rightarrow> BadRequest (''invalid branch or revision: '' @ b)
    | InvalidPath p \<Rightarrow> BadRequest (''invalid repository path: '' @ p)
    | LimitExceeded m \<Rightarrow> BadRequest (''operation exceeds configured limit: '' @ m)
    | _ \<Rightarrow> internal)"

text \<open>A call of the git store, which no lock protects.\<close>

definition on_git :: "('g, 'a) git_io \<Rightarrow> 'g server_state \<Rightarrow> (server_error + 'a) \<times> 'g server_state" where
  "on_git op st = (let (r, g) = op (gits st) in (map_err map_git r, st\<lparr>gits := g\<rparr>))"

section \<open>Workspaces\<close>

definition server_workspaces_as :: "principal \<Rightarrow> 'g server_state \<Rightarrow> 'g reply" where
  "server_workspaces_as p st =
     (refused (rbind (locked st) (\<lambda>db. Inr (WorkspaceList (workspaces_of db (pr_user p))))), st)"

definition create_space_tx ::
  "fresh \<Rightarrow> string \<Rightarrow> string \<Rightarrow> principal \<Rightarrow> server_db \<Rightarrow> server_error + (unit \<times> server_db)" where
  "create_space_tx d slug name p db =
     rbind (stored_unique (insert_space \<lparr>spc_id = id_a d, spc_slug = slug, spc_name = name, spc_created = t_now d\<rparr> db)) (\<lambda>db.
     rbind (stored (insert_member \<lparr>mbr_space = id_a d, mbr_user = pr_user p, mbr_role = ''owner''\<rparr> db)) (\<lambda>db.
     rbind (record_event d (pr_user p) ''workspace.create'' ''workspace'' (Some (id_a d)) db) (\<lambda>db. Inr ((), db))))"

definition server_create_workspace_as ::
  "fresh \<Rightarrow> string \<Rightarrow> string \<Rightarrow> principal \<Rightarrow> 'g server_state \<Rightarrow> 'g reply" where
  "server_create_workspace_as d slug name p st =
     (case andThen (validate_slug_text slug) (nonempty ''name'' name 120) of
        Inl e \<Rightarrow> (Inl (Refuse e), st)
      | Inr _ \<Rightarrow> reply_with (\<lambda>_. Inr (WorkspaceReply (id_a d) slug name)) (transact (create_space_tx d slug name p) st))"

definition update_space_tx ::
  "fresh \<Rightarrow> string \<Rightarrow> string \<Rightarrow> string \<Rightarrow> principal \<Rightarrow> server_db \<Rightarrow> server_error + (unit \<times> server_db)" where
  "update_space_tx d k slug name p db =
     (if \<not> has spc_id k (spaces db) then Inl (NotFoundError ''workspace'')
      else if list_ex (\<lambda>w. spc_id w \<noteq> k \<and> spc_slug w = slug) (spaces db)
      then Inl (srv_map_conflict UniqueViolation)
      else rbind (record_event d (pr_user p) ''workspace.update'' ''workspace'' (Some k)
        (db\<lparr>spaces := update_where (\<lambda>w. spc_id w = k) (\<lambda>w. w\<lparr>spc_slug := slug, spc_name := name\<rparr>) (spaces db)\<rparr>))
        (\<lambda>db. Inr ((), db)))"

definition update_workspace_as ::
  "fresh \<Rightarrow> string \<Rightarrow> string \<Rightarrow> string \<Rightarrow> principal \<Rightarrow> 'g server_state \<Rightarrow> 'g reply" where
  "update_workspace_as d k slug name p st =
     (case andThen (validate_slug_text slug) (andThen (nonempty ''name'' name 120)
          (require_role p k ''owner'' st)) of
        Inl e \<Rightarrow> (Inl (Refuse e), st)
      | Inr _ \<Rightarrow> reply_with (\<lambda>_. Inr (WorkspaceReply k slug name)) (transact (update_space_tx d k slug name p) st))"

definition delete_workspace_as :: "string \<Rightarrow> principal \<Rightarrow> 'g server_state \<Rightarrow> 'g reply" where
  "delete_workspace_as k p st =
     (case require_role p k ''owner'' st of
        Inl e \<Rightarrow> (Inl (Refuse e), st)
      | Inr _ \<Rightarrow> (Inr (NotImplemented ''workspace deletion is disabled until repository erasure is transactional''), st))"

section \<open>Projects\<close>

record project_request =
  pq_space :: string
  pq_slug :: string
  pq_name :: string
  pq_description :: string
  pq_branch :: string

definition validate_project :: "project_request \<Rightarrow> server_error + unit" where
  "validate_project r =
     andThen (validate_slug_text (pq_slug r))
    (andThen (nonempty ''name'' (pq_name r) 120)
    (andThen (fail_if (4096 < length (pq_description r)) (BadRequest ''description exceeds 4096 bytes''))
       (map_err map_git (validate_branch (pq_branch r)))))"

definition cli_projects :: "server_db \<Rightarrow> string \<Rightarrow> (project \<Rightarrow> bool) \<Rightarrow> (project \<times> member) list" where
  "cli_projects db u keep =
     sort_key (\<lambda>(p, m). - prj_updated p)
       [(p, m). p \<leftarrow> projects db, keep p, m \<leftarrow> members db, mbr_space m = prj_space p, mbr_user m = u]"

definition query_cli_projects ::
  "('g, 'tz, 'cron) server_env \<Rightarrow> (project \<times> member) list \<Rightarrow> server_error + (project \<times> role) list" where
  "query_cli_projects E rows =
     map_res (\<lambda>(p, m). andThen (fail_if (id_of E (prj_id p) = None \<or> id_of E (prj_space p) = None) internal)
        (rbind (parse_core_role (mbr_role m)) (\<lambda>r. Inr (p, r)))) rows"

text \<open>The projects a caller sees: those of its workspaces, cut down to what a credential is confined to.\<close>

definition projects_reply ::
  "('g, 'tz, 'cron) server_env \<Rightarrow> string \<Rightarrow> string option \<Rightarrow> string option \<Rightarrow> 'g server_state
     \<Rightarrow> server_failure + server_reply" where
  "projects_reply E u ws prj st =
     refused (rbind (locked st) (\<lambda>db.
       rbind (query_cli_projects E (cli_projects db u
          (\<lambda>p. case prj of Some k \<Rightarrow> prj_id p = k
             | None \<Rightarrow> (case ws of Some w \<Rightarrow> prj_space p = w | None \<Rightarrow> True)))) (\<lambda>ps.
       Inr (ProjectList ps))))"

definition list_projects ::
  "('g, 'tz, 'cron) server_env \<Rightarrow> fresh \<Rightarrow> header_list \<Rightarrow> 'g server_state \<Rightarrow> 'g reply" where
  "list_projects E d hs st =
     (if map_of hs ''authorization'' \<noteq> None
      then (case authenticate_bearer E d hs ApiRead st of
          (Inl e, st) \<Rightarrow> (Inl (Refuse e), st)
        | (Inr p, st) \<Rightarrow> (projects_reply E (tp_user p) (tp_space p) (tp_project p) st, st))
      else as_user E d hs False (\<lambda>p st. (projects_reply E (pr_user p) None None st, st)) st)"

definition readme_text :: "project_request \<Rightarrow> string" where
  "readme_text r = ''# '' @ pq_name r @ [CHR 0x0A, CHR 0x0A] @ pq_description r @ [CHR 0x0A]"

definition manifest_text :: string where
  "manifest_text = ''version = 1'' @ [CHR 0x0A, CHR 0x0A] @ ''[build]'' @ [CHR 0x0A]
     @ ''strategy = '' @ [CHR 0x22] @ ''auto'' @ [CHR 0x22] @ [CHR 0x0A]"

definition initial_commit ::
  "('g, 'tz, 'cron) server_env \<Rightarrow> repository \<Rightarrow> project_request \<Rightarrow> ('g, string) git_io" where
  "initial_commit E rep r = git_commit_changes (git E) rep (pq_branch r) None
     [Upsert ''README.md'' (readme_text r), Upsert ''c6.toml'' manifest_text]
     ''Initialize C6 project'' \<lparr>ident_name = ''C6'', ident_email = ''c6@localhost''\<rparr>"

definition create_project_tx ::
  "fresh \<Rightarrow> project_request \<Rightarrow> string \<Rightarrow> principal \<Rightarrow> server_db \<Rightarrow> server_error + (unit \<times> server_db)" where
  "create_project_tx d r head p db =
     rbind (stored_unique (insert_project \<lparr>prj_id = id_a d, prj_space = pq_space r, prj_slug = pq_slug r,
        prj_name = pq_name r, prj_description = pq_description r, prj_branch = pq_branch r, prj_head = head,
        prj_published = None, prj_created = t_now d, prj_updated = t_now d\<rparr> db)) (\<lambda>db.
     rbind (record_event d (pr_user p) ''project.create'' ''project'' (Some (id_a d)) db) (\<lambda>db. Inr ((), db)))"

text \<open>
  \<open>cleanup_new_repository\<close> parses the identifier before it touches the file system; its own error
  replaces the one that made it necessary.
\<close>

definition cleanup_new_repository ::
  "('g, 'tz, 'cron) server_env \<Rightarrow> string \<Rightarrow> server_error \<Rightarrow> 'g server_state \<Rightarrow> 'g reply" where
  "cleanup_new_repository E k cause st =
     (if id_of E k = None then (Inl (Refuse internal), st)
      else case git_erase (git E) k (gits st) of
          (Inl e, g) \<Rightarrow> (Inl (Refuse internal), st\<lparr>gits := g\<rparr>)
        | (Inr _, g) \<Rightarrow> (Inl (Refuse cause), st\<lparr>gits := g\<rparr>))"

definition create_project_as ::
  "('g, 'tz, 'cron) server_env \<Rightarrow> fresh \<Rightarrow> project_request \<Rightarrow> principal \<Rightarrow> 'g server_state \<Rightarrow> 'g reply" where
  "create_project_as E d r p st =
     (case andThen (require_role p (pq_space r) ''maintainer'' st)
          (andThen (validate_project r) (membership_role (pr_user p) (pq_space r) st)) of
        Inl e \<Rightarrow> (Inl (Refuse e), st)
      | Inr caller \<Rightarrow>
          (case on_git (git_create (git E) (id_a d)) st of
             (Inl e, st) \<Rightarrow> (Inl (Refuse e), st)
           | (Inr rep, st) \<Rightarrow>
               (case on_git (initial_commit E rep r) st of
                  (Inl e, st) \<Rightarrow> cleanup_new_repository E (id_a d) e st
                | (Inr head, st) \<Rightarrow>
                    (case transact (create_project_tx d r head p) st of
                       (Inl e, st) \<Rightarrow> cleanup_new_repository E (id_a d) e st
                     | (Inr _, st) \<Rightarrow>
                         (Inr (ProjectReply \<lparr>prj_id = id_a d, prj_space = pq_space r, prj_slug = pq_slug r,
                            prj_name = pq_name r, prj_description = pq_description r, prj_branch = pq_branch r,
                            prj_head = head, prj_published = None, prj_created = t_now d, prj_updated = t_now d\<rparr>
                            caller), st)))))"

definition get_project_as :: "string \<Rightarrow> principal \<Rightarrow> 'g server_state \<Rightarrow> 'g reply" where
  "get_project_as k p st = (refused (rbind (locked st) (\<lambda>db.
     rbind (ok_or (NotFoundError ''project'') (Option.bind (find_project db k) (\<lambda>r.
        map_option (\<lambda>m. (r, m)) (member_role db (prj_space r) (pr_user p))))) (\<lambda>(r, m).
     Inr (ProjectReply r m)))), st)"

definition update_project_tx ::
  "fresh \<Rightarrow> string \<Rightarrow> project_request \<Rightarrow> principal \<Rightarrow> server_db \<Rightarrow> server_error + (unit \<times> server_db)" where
  "update_project_tx d k r p db =
     (if list_ex (\<lambda>x. prj_id x \<noteq> k \<and> prj_slug x = pq_slug r
           \<and> list_ex (\<lambda>y. prj_id y = k \<and> prj_space y = prj_space x) (projects db)) (projects db)
      then Inl (srv_map_conflict UniqueViolation)
      else rbind (record_event d (pr_user p) ''project.update'' ''project'' (Some k)
        (db\<lparr>projects := update_where (\<lambda>x. prj_id x = k) (\<lambda>x. x\<lparr>prj_slug := pq_slug r, prj_name := pq_name r,
           prj_description := pq_description r, prj_branch := pq_branch r, prj_updated := t_now d\<rparr>) (projects db)\<rparr>))
        (\<lambda>db. Inr ((), db)))"

text \<open>The branches of an opened repository.\<close>

definition opened_branches ::
  "('g, 'tz, 'cron) server_env \<Rightarrow> string \<Rightarrow> 'g server_state \<Rightarrow> (server_error + branch list) \<times> 'g server_state" where
  "opened_branches E k = st_then (on_git (git_open (git E) k)) (\<lambda>rep. on_git (git_list_branches (git E) rep))"

text \<open>\<open>update_project\<close> answers with \<open>get_project\<close>, which authenticates the request again.\<close>

definition update_project_as ::
  "('g, 'tz, 'cron) server_env \<Rightarrow> fresh \<Rightarrow> header_list \<Rightarrow> string \<Rightarrow> project_request \<Rightarrow> principal
     \<Rightarrow> 'g server_state \<Rightarrow> 'g reply" where
  "update_project_as E d hs k r p st =
     (case rbind (project_workspace k st) (\<lambda>ws.
           andThen (require_role p ws ''maintainer'' st)
          (andThen (validate_project r)
             (fail_if (pq_space r \<noteq> ws) (BadRequest ''project cannot move workspaces'')))) of
        Inl e \<Rightarrow> (Inl (Refuse e), st)
      | Inr _ \<Rightarrow>
          (case st_then (opened_branches E k) (\<lambda>bs.
              st_then (st_check (\<lambda>_. fail_if (\<not> list_ex (\<lambda>b. branch_name b = pq_branch r) bs)
                 (BadRequest ''defaultBranch does not exist''))) (\<lambda>_.
              transact (update_project_tx d k r p))) st of
             (Inl e, st) \<Rightarrow> (Inl (Refuse e), st)
           | (Inr _, st) \<Rightarrow> as_user E d hs False (get_project_as k) st))"

definition delete_project_as :: "string \<Rightarrow> principal \<Rightarrow> 'g server_state \<Rightarrow> 'g reply" where
  "delete_project_as k p st =
     (case rbind (project_workspace k st) (\<lambda>ws. require_role p ws ''owner'' st) of
        Inl e \<Rightarrow> (Inl (Refuse e), st)
      | Inr _ \<Rightarrow> (Inr (NotImplemented ''project deletion is disabled until repository erasure is transactional''), st))"

section \<open>The remote of a project\<close>

definition confined :: "string option \<Rightarrow> string option \<Rightarrow> string \<Rightarrow> string \<Rightarrow> bool" where
  "confined rs rp ws prj \<longleftrightarrow> (rs \<noteq> None \<and> rs \<noteq> Some ws) \<or> (rp \<noteq> None \<and> rp \<noteq> Some prj)"

definition remote_reply ::
  "('g, 'tz, 'cron) server_env \<Rightarrow> string \<Rightarrow> string \<Rightarrow> string option \<Rightarrow> string option \<Rightarrow> 'g server_state
     \<Rightarrow> server_failure + server_reply" where
  "remote_reply E k u rs rp st =
     refused (rbind (locked st) (\<lambda>db.
       rbind (ok_or (NotFoundError ''project'') (Option.bind (find_project db k) (\<lambda>p.
          Option.bind (find (\<lambda>w. spc_id w = prj_space p) (spaces db)) (\<lambda>w.
          Option.bind (member_role db (spc_id w) u) (\<lambda>role.
            if 1 \<le> role_rank role then Some (p, w) else None))))) (\<lambda>(p, w).
       andThen (fail_if (confined rs rp (spc_id w) k) (NotFoundError ''project''))
      (andThen (fail_if (id_of E k = None) internal)
       (Inr (RemoteReply k (base_url E @ ''/git/'' @ spc_slug w @ ''/'' @ prj_slug p @ ''.git'') (git_http E \<noteq> None)))))))"

definition project_remote ::
  "('g, 'tz, 'cron) server_env \<Rightarrow> fresh \<Rightarrow> header_list \<Rightarrow> string \<Rightarrow> 'g server_state \<Rightarrow> 'g reply" where
  "project_remote E d hs k st =
     (if map_of hs ''authorization'' \<noteq> None
      then (case authenticate_bearer E d hs ApiRead st of
          (Inl e, st) \<Rightarrow> (Inl (Refuse e), st)
        | (Inr p, st) \<Rightarrow> (remote_reply E k (tp_user p) (tp_space p) (tp_project p) st, st))
      else as_user E d hs False (\<lambda>p st. (remote_reply E k (pr_user p) None None st, st)) st)"

end
