(* ===== verification/Server_Routes.thy ===== *)
theory Server_Routes
  imports Server_Projects
begin

text \<open>
  \<^verbatim>\<open>crates/c6-server/src/main.rs\<close>: pull requests, deployments, runs, schedules and secrets of a
  project, the reads of its repository, the Git endpoints, and the routes of \<open>app\<close> with the origin
  check in front of them.
\<close>

section \<open>Pull requests\<close>

record pull_input =
  pi_title :: string
  pi_body :: string
  pi_source :: string
  pi_target :: string

text \<open>\<open>COALESCE(MAX(number), 0) + 1\<close>.\<close>

definition next_number :: "server_db \<Rightarrow> string \<Rightarrow> int" where
  "next_number db k =
     (case map pull_number (filter (\<lambda>p. pull_project p = k) (pulls db)) of
        [] \<Rightarrow> 0 | n # ns \<Rightarrow> fold max ns n) + 1"

definition create_pull_tx ::
  "fresh \<Rightarrow> string \<Rightarrow> pull_input \<Rightarrow> string \<Rightarrow> server_db \<Rightarrow> server_error + (pull \<times> server_db)" where
  "create_pull_tx d k i u db =
     (let row = \<lparr>pull_id = id_a d, pull_project = k, pull_number = next_number db k, pull_title = pi_title i,
         pull_body = pi_body i, pull_source = pi_source i, pull_target = pi_target i, pull_author = u,
         pull_status = ''open'', pull_created = t_now d, pull_updated = t_now d\<rparr> in
      rbind (stored (insert_pull row db)) (\<lambda>db.
      rbind (record_event d u ''pull_request.create'' ''pull_request'' (Some (id_a d)) db) (\<lambda>db. Inr (row, db))))"

definition create_pull_as ::
  "('g, 'tz, 'cron) server_env \<Rightarrow> fresh \<Rightarrow> string \<Rightarrow> pull_input \<Rightarrow> principal \<Rightarrow> 'g server_state \<Rightarrow> 'g reply" where
  "create_pull_as E d k i p st =
     reply_with (\<lambda>row. Inr (PullCreated row))
      (st_then (st_check (\<lambda>_. andThen (nonempty ''title'' (pi_title i) 240)
          (andThen (fail_if (32 * 1024 < length (pi_body i)) (BadRequest ''pull request body exceeds 32768 bytes''))
          (andThen (map_err map_git (validate_branch (pi_source i)))
             (map_err map_git (validate_branch (pi_target i))))))) (\<lambda>_.
       st_then (opened_branches E k) (\<lambda>bs.
       st_then (st_check (\<lambda>_. fail_if (\<not> list_ex (\<lambda>b. branch_name b = pi_source i) bs
            \<or> \<not> list_ex (\<lambda>b. branch_name b = pi_target i) bs) (BadRequest ''pull request branches must exist''))) (\<lambda>_.
       transact (create_pull_tx d k i (pr_user p))))) st)"

text \<open>\<open>project_list\<close> bounds every listing at 200 rows.\<close>

definition project_list ::
  "(server_db \<Rightarrow> 'r list) \<Rightarrow> ('r list \<Rightarrow> server_reply) \<Rightarrow> principal \<Rightarrow> 'g server_state \<Rightarrow> 'g reply" where
  "project_list rows mk p st = (refused (rbind (locked st) (\<lambda>db. Inr (mk (take 200 (rows db))))), st)"

definition list_pulls :: "string \<Rightarrow> principal \<Rightarrow> 'g server_state \<Rightarrow> 'g reply" where
  "list_pulls k = project_list (\<lambda>db. sort_key (\<lambda>p. - pull_number p) (filter (\<lambda>p. pull_project p = k) (pulls db))) PullList"

section \<open>Deployments, runs, schedules, secrets\<close>

text \<open>\<open>validate_revision_exists\<close>.\<close>

definition full_object_id :: "string \<Rightarrow> bool" where
  "full_object_id s \<longleftrightarrow> (length s = 40 \<or> length s = 64) \<and> list_all lower_hex s"

definition validate_revision_exists ::
  "('g, 'tz, 'cron) server_env \<Rightarrow> string \<Rightarrow> string \<Rightarrow> 'g server_state \<Rightarrow> (server_error + unit) \<times> 'g server_state" where
  "validate_revision_exists E k sha =
     st_then (st_check (\<lambda>_. fail_if (\<not> full_object_id sha)
        (BadRequest ''revisionSha must be a full lowercase Git object ID''))) (\<lambda>_.
     st_then (on_git (git_open (git E) k)) (\<lambda>rep.
     st_then (on_git (git_list_commits (git E) rep sha 1)) (\<lambda>_. st_check (\<lambda>_. Inr ()))))"

definition create_deployment_tx ::
  "fresh \<Rightarrow> string \<Rightarrow> string \<Rightarrow> string \<Rightarrow> string \<Rightarrow> server_db \<Rightarrow> server_error + (deployment \<times> server_db)" where
  "create_deployment_tx d k sha env u db =
     (let row = \<lparr>dep_id = id_a d, dep_project = k, dep_revision = sha, dep_environment = env,
         dep_status = ''recorded'', dep_creator = u, dep_created = t_now d\<rparr> in
      rbind (stored (insert_deployment row db)) (\<lambda>db.
      rbind (record_event d u ''deployment.create'' ''deployment'' (Some (id_a d)) db) (\<lambda>db. Inr (row, db))))"

definition create_deployment_as ::
  "('g, 'tz, 'cron) server_env \<Rightarrow> fresh \<Rightarrow> string \<Rightarrow> string \<Rightarrow> string \<Rightarrow> principal \<Rightarrow> 'g server_state \<Rightarrow> 'g reply" where
  "create_deployment_as E d k sha env p st =
     reply_with (\<lambda>row. Inr (DeploymentCreated row))
      (st_then (st_check (\<lambda>_. andThen (nonempty ''revisionSha'' sha 128)
          (fail_if (env \<noteq> ''production'' \<and> env \<noteq> ''preview'') (BadRequest ''invalid environment'')))) (\<lambda>_.
       st_then (validate_revision_exists E k sha) (\<lambda>_.
       transact (create_deployment_tx d k sha env (pr_user p)))) st)"

definition list_deployments :: "string \<Rightarrow> principal \<Rightarrow> 'g server_state \<Rightarrow> 'g reply" where
  "list_deployments k = project_list
     (\<lambda>db. sort_key (\<lambda>r. - dep_created r) (filter (\<lambda>r. dep_project r = k) (deployments db))) DeploymentList"

record run_input =
  ri_job :: string
  ri_kind :: string
  ri_revision :: "string option"

definition create_run_tx ::
  "fresh \<Rightarrow> string \<Rightarrow> run_input \<Rightarrow> string \<Rightarrow> string \<Rightarrow> server_db \<Rightarrow> server_error + (job_run \<times> server_db)" where
  "create_run_tx d k i sha u db =
     (let row = \<lparr>jr_id = id_a d, jr_project = k, jr_job = ri_job i, jr_kind = ri_kind i, jr_revision = sha,
         jr_status = ''recorded'', jr_trigger = u, jr_created = t_now d\<rparr> in
      rbind (stored (insert_run row db)) (\<lambda>db.
      rbind (record_event d u ''run.record'' ''run'' (Some (id_a d)) db) (\<lambda>db. Inr (row, db))))"

definition create_run_as ::
  "('g, 'tz, 'cron) server_env \<Rightarrow> fresh \<Rightarrow> string \<Rightarrow> run_input \<Rightarrow> principal \<Rightarrow> 'g server_state \<Rightarrow> 'g reply" where
  "create_run_as E d k i p st =
     reply_with (\<lambda>row. Inr (RunCreated row))
      (st_then (st_check (\<lambda>s. andThen (fail_if (ri_kind i \<notin> {''command'', ''cron'', ''agent''}) (BadRequest ''invalid run kind''))
          (andThen (nonempty ''job'' (ri_job i) 120)
             (case ri_revision i of Some sha \<Rightarrow> Inr sha | None \<Rightarrow> project_head k s)))) (\<lambda>sha.
       st_then (validate_revision_exists E k sha) (\<lambda>_.
       transact (create_run_tx d k i sha (pr_user p)))) st)"

definition list_runs :: "string \<Rightarrow> principal \<Rightarrow> 'g server_state \<Rightarrow> 'g reply" where
  "list_runs k = project_list
     (\<lambda>db. sort_key (\<lambda>r. - jr_created r) (filter (\<lambda>r. jr_project r = k) (job_runs db))) RunList"

record schedule_input =
  si_job :: string
  si_cron :: string
  si_timezone :: string
  si_concurrency :: string
  si_enabled :: bool

definition schedule_error_text :: "schedule_error \<Rightarrow> string" where
  "schedule_error_text e = (case e of
      EmptyId \<Rightarrow> ''schedule id must not be empty''
    | InvalidFieldCount n \<Rightarrow> ''cron expression must contain exactly five fields, got '' @ show_nat n
    | schedule_error.InvalidCron m \<Rightarrow> ''invalid cron expression: '' @ m
    | InvalidTimezone z \<Rightarrow> ''unknown IANA timezone: '' @ z
    | _ \<Rightarrow> ''schedule has no future occurrence'')"

definition create_schedule_tx ::
  "fresh \<Rightarrow> string \<Rightarrow> schedule_input \<Rightarrow> string \<Rightarrow> server_db \<Rightarrow> server_error + (schedule_row \<times> server_db)" where
  "create_schedule_tx d k i u db =
     (let row = \<lparr>scd_id = id_a d, scd_project = k, scd_job = si_job i, scd_cron = si_cron i,
         scd_timezone = si_timezone i, scd_concurrency = si_concurrency i, scd_enabled = si_enabled i,
         scd_creator = u, scd_created = t_now d\<rparr> in
      rbind (stored (insert_schedule row db)) (\<lambda>db.
      rbind (record_event d u ''schedule.create'' ''schedule'' (Some (id_a d)) db) (\<lambda>db. Inr (row, db))))"

definition create_schedule_as ::
  "('g, 'tz, 'cron) server_env \<Rightarrow> fresh \<Rightarrow> string \<Rightarrow> schedule_input \<Rightarrow> principal \<Rightarrow> 'g server_state \<Rightarrow> 'g reply" where
  "create_schedule_as E d k i p st =
     reply_with (\<lambda>(row, t). Inr (ScheduleCreated row t))
      (st_then (st_check (\<lambda>_. andThen (nonempty ''job'' (si_job i) 120)
          (andThen (nonempty ''cron'' (si_cron i) 256)
          (andThen (nonempty ''timezone'' (si_timezone i) 128)
          (andThen (fail_if (si_concurrency i \<noteq> ''forbid'') (BadRequest ''only forbid concurrency is available in this release''))
             (map_err (\<lambda>e. BadRequest (schedule_error_text e))
               (rbind (validated_schedule_new (cal E) \<lparr>schedule_id = id_a d, cron = si_cron i,
                   timezone = si_timezone i, missed_policy = RunOnce\<rparr>)
                 (\<lambda>v. next_after (cal E) v (t_later d))))))))) (\<lambda>t.
       st_then (transact (create_schedule_tx d k i (pr_user p))) (\<lambda>row. st_check (\<lambda>_. Inr (row, t)))) st)"

definition list_schedules :: "string \<Rightarrow> principal \<Rightarrow> 'g server_state \<Rightarrow> 'g reply" where
  "list_schedules k = project_list
     (\<lambda>db. sort_key (\<lambda>r. - scd_created r) (filter (\<lambda>r. scd_project r = k) (schedule_rows db))) ScheduleList"

definition create_secret_tx ::
  "fresh \<Rightarrow> string \<Rightarrow> string \<Rightarrow> string \<Rightarrow> server_db \<Rightarrow> server_error + (secret_meta \<times> server_db)" where
  "create_secret_tx d k name u db =
     (let row = \<lparr>sec_id = id_a d, sec_project = k, sec_name = name, sec_creator = u, sec_created = t_now d\<rparr> in
      rbind (stored_unique (insert_secret row db)) (\<lambda>db.
      rbind (record_event d u ''secret_metadata.create'' ''secret_metadata'' (Some (id_a d)) db) (\<lambda>db. Inr (row, db))))"

definition create_secret_as ::
  "fresh \<Rightarrow> string \<Rightarrow> string \<Rightarrow> principal \<Rightarrow> 'g server_state \<Rightarrow> 'g reply" where
  "create_secret_as d k name p st =
     reply_with (\<lambda>row. Inr (SecretCreated row))
      (st_then (st_check (\<lambda>_. validate_secret_text name)) (\<lambda>_. transact (create_secret_tx d k name (pr_user p))) st)"

definition list_secrets :: "string \<Rightarrow> principal \<Rightarrow> 'g server_state \<Rightarrow> 'g reply" where
  "list_secrets k = project_list
     (\<lambda>db. sort_key sec_name (filter (\<lambda>r. sec_project r = k) (secret_metas db))) SecretList"

section \<open>Reading a repository\<close>

definition repository_read ::
  "('g, 'tz, 'cron) server_env \<Rightarrow> string \<Rightarrow> (repository \<Rightarrow> ('g, 'a) git_io) \<Rightarrow> ('a \<Rightarrow> server_reply) \<Rightarrow> principal \<Rightarrow> 'g server_state \<Rightarrow> 'g reply" where
  "repository_read E k op mk p st =
     reply_with (\<lambda>a. Inr (mk a)) (st_then (on_git (git_open (git E) k)) (\<lambda>rep. on_git (op rep)) st)"

definition git_branches ::
  "('g, 'tz, 'cron) server_env \<Rightarrow> string \<Rightarrow> principal \<Rightarrow> 'g server_state \<Rightarrow> 'g reply" where
  "git_branches E k = repository_read E k (git_list_branches (git E)) Branches"

definition git_commits ::
  "('g, 'tz, 'cron) server_env \<Rightarrow> string \<Rightarrow> string \<Rightarrow> nat option \<Rightarrow> principal \<Rightarrow> 'g server_state \<Rightarrow> 'g reply" where
  "git_commits E k sha n =
     repository_read E k (\<lambda>rep. git_list_commits (git E) rep sha (case n of None \<Rightarrow> 50 | Some m \<Rightarrow> m)) (Commits sha)"

definition git_tree ::
  "('g, 'tz, 'cron) server_env \<Rightarrow> string \<Rightarrow> string \<Rightarrow> bool option \<Rightarrow> principal \<Rightarrow> 'g server_state \<Rightarrow> 'g reply" where
  "git_tree E k sha b =
     repository_read E k (\<lambda>rep. git_list_tree (git E) rep sha (case b of None \<Rightarrow> False | Some x \<Rightarrow> x)) (TreeEntries sha)"

definition git_file ::
  "('g, 'tz, 'cron) server_env \<Rightarrow> string \<Rightarrow> string \<Rightarrow> string \<Rightarrow> principal \<Rightarrow> 'g server_state \<Rightarrow> 'g reply" where
  "git_file E k sha path = repository_read E k (\<lambda>rep. git_read_file (git E) rep sha path) FileBytes"

section \<open>Git endpoints\<close>

datatype git_http_error = GitHttpError nat string

definition git_unauthenticated :: git_http_error where
  "git_unauthenticated = GitHttpError 401 ''authentication required''"

definition project_not_found :: git_http_error where
  "project_not_found = GitHttpError 404 ''project not found''"

definition git_failed :: git_http_error where
  "git_failed = GitHttpError 500 ''Git request failed''"

text \<open>The token of a \<open>Basic\<close> header with the fixed user name.\<close>

definition basic_token :: "('g, 'tz, 'cron) server_env \<Rightarrow> header_list \<Rightarrow> string option" where
  "basic_token E hs =
     (case header_values ''authorization'' hs of
        [v] \<Rightarrow> Option.bind (header_text E v) (\<lambda>a.
          if 1024 < length a then None
          else Option.bind (strip_prefix ''Basic '' a) (\<lambda>enc.
            Option.bind (unbase64 E enc) (\<lambda>dec.
            if \<not> utf8_valid dec then None
            else Option.bind (split_once (CHR '':'') dec) (\<lambda>(name, token).
              if name \<noteq> ''c6'' \<or> CHR '':'' \<in> set token then None else Some token))))
      | _ \<Rightarrow> None)"

definition authenticate_git ::
  "('g, 'tz, 'cron) server_env \<Rightarrow> fresh \<Rightarrow> header_list \<Rightarrow> 'g server_state
     \<Rightarrow> (git_http_error + token_principal) \<times> 'g server_state" where
  "authenticate_git E d hs st =
     (if srv_cookie E hs ''c6_session'' \<noteq> None then (Inl git_unauthenticated, st)
      else case basic_token E hs of
          None \<Rightarrow> (Inl git_unauthenticated, st)
        | Some token \<Rightarrow>
            (case authenticate_opaque_token E d token Git GitRead st of
               (Inl e, st) \<Rightarrow> (Inl (case e of Forbidden _ \<Rightarrow> GitHttpError 403 ''Git access forbidden''
                  | _ \<Rightarrow> git_unauthenticated), st)
             | (Inr p, st) \<Rightarrow> (Inr p, st)))"

definition git_project_slug :: "string \<Rightarrow> git_http_error + string" where
  "git_project_slug name =
     (case strip_suffix ''.git'' name of
        None \<Rightarrow> Inl project_not_found
      | Some s \<Rightarrow> if s = [] then Inl project_not_found else Inr s)"

text \<open>The query of \<open>authorize_git_project\<close> finds at most one project; its checks come in this order.\<close>

definition git_project ::
  "server_db \<Rightarrow> token_principal \<Rightarrow> string \<Rightarrow> string \<Rightarrow> string \<Rightarrow> git_http_error + string" where
  "git_project db p ws slug required =
     rbind (ok_or project_not_found (Option.bind (find (\<lambda>w. spc_slug w = ws) (spaces db)) (\<lambda>w.
        map_option (\<lambda>x. (x, w)) (find (\<lambda>x. prj_space x = spc_id w \<and> prj_slug x = slug) (projects db))))) (\<lambda>(x, w).
     rbind (ok_or project_not_found (member_role db (spc_id w) (tp_user p))) (\<lambda>role.
     andThen (fail_if (confined (tp_space p) (tp_project p) (spc_id w) (prj_id x)) project_not_found)
    (andThen (fail_if (role_rank role < role_rank required) (GitHttpError 403 ''Git access forbidden''))
       (Inr (prj_id x)))))"

definition authorize_git_project ::
  "('g, 'tz, 'cron) server_env \<Rightarrow> token_principal \<Rightarrow> string \<Rightarrow> string \<Rightarrow> string \<Rightarrow> 'g server_state
     \<Rightarrow> (git_http_error + string \<times> repository) \<times> 'g server_state" where
  "authorize_git_project E p ws slug required st =
     (case andThen (map_err (\<lambda>_. project_not_found) (validate_slug_text ws))
          (andThen (map_err (\<lambda>_. project_not_found) (validate_slug_text slug))
          (rbind (map_err (\<lambda>_. git_failed) (locked st)) (\<lambda>db. git_project db p ws slug required))) of
        Inl e \<Rightarrow> (Inl e, st)
      | Inr k \<Rightarrow>
          (case git_open (git E) k (gits st) of
             (Inl e, g) \<Rightarrow> (Inl project_not_found, st\<lparr>gits := g\<rparr>)
           | (Inr rep, g) \<Rightarrow> (Inr (k, rep), st\<lparr>gits := g\<rparr>)))"

definition git_protocol_header ::
  "('g, 'tz, 'cron) server_env \<Rightarrow> header_list \<Rightarrow> git_http_error + string option" where
  "git_protocol_header E hs =
     (case header_values ''git-protocol'' hs of
        [] \<Rightarrow> Inr None
      | [v] \<Rightarrow> rbind (ok_or (GitHttpError 400 ''invalid Git-Protocol header'') (header_text E v)) (\<lambda>p. Inr (Some p))
      | _ \<Rightarrow> Inl (GitHttpError 400 ''invalid Git-Protocol header''))"

primrec map_smart_http_error :: "smart_error \<Rightarrow> git_http_error" where
  "map_smart_http_error (SmartInvalidRequest m) = GitHttpError 400 ''invalid Git request''"
| "map_smart_http_error RequestTooLarge = GitHttpError 413 ''Git request too large''"
| "map_smart_http_error SmartResponseTooLarge = git_failed"
| "map_smart_http_error SmartTimeout = GitHttpError 504 ''Git request timed out''"
| "map_smart_http_error SmartUnavailable = GitHttpError 503 ''Git transport unavailable''"
| "map_smart_http_error BackendFailed = git_failed"
| "map_smart_http_error SmartInvalidResponse = git_failed"
| "map_smart_http_error InvalidRepository = project_not_found"

text \<open>
  The headers a parsed answer passes on have fixed names, and \<open>HeaderValue::try_from\<close> is
  \<open>header_ok\<close>.  Inserting a header replaces the one of the same name.
\<close>

definition header_insert :: "string \<times> string \<Rightarrow> header_list \<Rightarrow> header_list" where
  "header_insert h hs = filter (\<lambda>k. fst k \<noteq> fst h) hs @ [h]"

definition smart_http_response ::
  "('g, 'tz, 'cron) server_env \<Rightarrow> smart_response \<Rightarrow> git_http_error + smart_response" where
  "smart_http_response E r =
     (if list_all (\<lambda>h. header_ok E (snd h)) (smart_headers r)
      then Inr (r\<lparr>smart_headers := fold header_insert (smart_headers r) []\<rparr>)
      else Inl (GitHttpError 500 ''invalid Git response''))"

text \<open>What comes before the backend is the same for both endpoints.\<close>

definition git_admitted ::
  "('g, 'tz, 'cron) server_env \<Rightarrow> fresh \<Rightarrow> header_list \<Rightarrow> string \<Rightarrow> string \<Rightarrow> 'g server_state
     \<Rightarrow> (git_http_error + (smart_backend \<times> string option \<times> string \<times> string \<times> repository)) \<times> 'g server_state" where
  "git_admitted E d hs ws name =
     st_then (authenticate_git E d hs) (\<lambda>p.
     st_then (st_check (\<lambda>_. git_project_slug name)) (\<lambda>slug.
     st_then (authorize_git_project E p ws slug ''reader'') (\<lambda>(k, rep).
     st_check (\<lambda>_. rbind (ok_or (GitHttpError 503 ''Git transport unavailable'') (git_http E)) (\<lambda>be.
        rbind (git_protocol_header E hs) (\<lambda>protocol. Inr (be, protocol, tp_user p, k, rep)))))))"

definition git_info_refs ::
  "('g, 'tz, 'cron) server_env \<Rightarrow> smart_world \<Rightarrow> fresh \<Rightarrow> header_list \<Rightarrow> string \<Rightarrow> string \<Rightarrow> string option
     \<Rightarrow> 'g server_state \<Rightarrow> (git_http_error + smart_response) option \<times> 'g server_state" where
  "git_info_refs E w d hs ws name query st =
     (case git_admitted E d hs ws name st of
        (Inl e, st) \<Rightarrow> (Some (Inl e), st)
      | (Inr (be, protocol, u, k, rep), st) \<Rightarrow>
          (case query of
             None \<Rightarrow> (Some (Inl (GitHttpError 400 ''missing Git service query'')), st)
           | Some q \<Rightarrow>
               (map_option (\<lambda>r. rbind (map_err map_smart_http_error r) (smart_http_response E))
                  (advertise w be (git_path (git E) rep (gits st)) q protocol u), st)))"

definition git_upload_pack ::
  "('g, 'tz, 'cron) server_env \<Rightarrow> smart_world \<Rightarrow> fresh \<Rightarrow> header_list \<Rightarrow> string \<Rightarrow> string \<Rightarrow> string option \<Rightarrow> string
     \<Rightarrow> 'g server_state \<Rightarrow> (git_http_error + smart_response) option \<times> 'g server_state" where
  "git_upload_pack E w d hs ws name query body st =
     (case git_admitted E d hs ws name st of
        (Inl e, st) \<Rightarrow> (Some (Inl e), st)
      | (Inr (be, protocol, u, k, rep), st) \<Rightarrow>
          (map_option (\<lambda>r. rbind (map_err map_smart_http_error r) (smart_http_response E))
             (upload_pack w be (git_path (git E) rep (gits st)) query (srv_header E ''content-type'' hs)
                protocol u body), st))"

section \<open>Routes\<close>

datatype server_request =
    GetHealth | GetServerStatus
  | PostBootstrapClaim bootstrap_request
  | PostRedeem bootstrap_request
  | PostValidateManifest string
  | GetBrowserSession | DeleteBrowserSession
  | GetInvites | PostInvites invite_request
  | GetPeers | DeletePeer string
  | GetDevices | DeleteDevice string
  | GetSessions | DeleteSessionRow string
  | GetCredentials | PostCredentials key_request | DeleteCredential string
  | GetWhoAmI
  | GetSpaces | PostSpaces string string | PutSpace string string string | DeleteSpace string
  | GetProjects | PostProjects project_request
  | GetProject string | PutProject string project_request | DeleteProject string
  | GetRemote string
  | GetPulls string | PostPulls string pull_input
  | GetDeployments string | PostDeployments string string string
  | GetRuns string | PostRuns string run_input
  | GetSchedules string | PostSchedules string schedule_input
  | GetSecrets string | PostSecrets string string | PutSecretValue string
  | GetBranches string | GetCommits string string "nat option"
  | GetTree string string "bool option" | GetFile string string string
  | GetAudit

definition is_get :: "server_request \<Rightarrow> bool" where
  "is_get rq = (case rq of
      PostBootstrapClaim _ \<Rightarrow> False
    | PostRedeem _ \<Rightarrow> False
    | PostValidateManifest _ \<Rightarrow> False
    | DeleteBrowserSession \<Rightarrow> False
    | PostInvites _ \<Rightarrow> False
    | DeletePeer _ \<Rightarrow> False
    | DeleteDevice _ \<Rightarrow> False
    | DeleteSessionRow _ \<Rightarrow> False
    | PostCredentials _ \<Rightarrow> False
    | DeleteCredential _ \<Rightarrow> False
    | PostSpaces _ _ \<Rightarrow> False
    | PutSpace _ _ _ \<Rightarrow> False
    | DeleteSpace _ \<Rightarrow> False
    | PostProjects _ \<Rightarrow> False
    | PutProject _ _ \<Rightarrow> False
    | DeleteProject _ \<Rightarrow> False
    | PostPulls _ _ \<Rightarrow> False
    | PostDeployments _ _ _ \<Rightarrow> False
    | PostRuns _ _ \<Rightarrow> False
    | PostSchedules _ _ \<Rightarrow> False
    | PostSecrets _ _ \<Rightarrow> False
    | PutSecretValue _ \<Rightarrow> False
    | _ \<Rightarrow> True)"

text \<open>The middleware \<open>same_origin\<close>; the routes modelled use GET and the unsafe methods.\<close>

definition same_origin ::
  "('g, 'tz, 'cron) server_env \<Rightarrow> header_list \<Rightarrow> bool \<Rightarrow> server_error + unit" where
  "same_origin E hs safe =
     (if (case srv_header E ''authorization'' hs of None \<Rightarrow> False | Some v \<Rightarrow> prefix ''Bearer '' v)
      then validate_optional_origin E hs
      else if safe then Inr ()
      else rbind (ok_or (Forbidden ''Origin header required for unsafe requests'') (srv_header E ''origin'' hs)) (\<lambda>origin.
        andThen (fail_if (trim_slashes origin \<noteq> base_url E) (Forbidden ''cross-origin request rejected''))
          (fail_if (case srv_header E ''sec-fetch-site'' hs of None \<Rightarrow> False
              | Some v \<Rightarrow> v \<notin> {''same-origin'', ''same-site'', ''none''}) (Forbidden ''cross-site request rejected''))))"

definition as_member ::
  "('g, 'tz, 'cron) server_env \<Rightarrow> fresh \<Rightarrow> header_list \<Rightarrow> string \<Rightarrow> string \<Rightarrow> bool
     \<Rightarrow> (principal \<Rightarrow> 'g server_state \<Rightarrow> 'g reply) \<Rightarrow> 'g server_state \<Rightarrow> 'g reply" where
  "as_member E d hs k required csrf f st =
     (case project_auth E d hs k required csrf st of Inl e \<Rightarrow> (Inl (Refuse e), st) | Inr p \<Rightarrow> f p st)"

definition dispatch ::
  "('g, 'tz, 'cron) server_env \<Rightarrow> fresh \<Rightarrow> header_list \<Rightarrow> server_request \<Rightarrow> 'g server_state \<Rightarrow> 'g reply" where
  "dispatch E d hs rq st = (case rq of
      GetHealth \<Rightarrow> (health st, st)
    | GetServerStatus \<Rightarrow> (server_status st, st)
    | PostBootstrapClaim r \<Rightarrow> server_claim E d r st
    | PostRedeem r \<Rightarrow> redeem_invite E d r st
    | PostValidateManifest s \<Rightarrow> as_user E d hs False (manifest_as E s) st
    | GetBrowserSession \<Rightarrow> session_get E d hs st
    | DeleteBrowserSession \<Rightarrow> as_user E d hs True (server_logout_as E d) st
    | GetInvites \<Rightarrow> as_owner E d hs False list_invites_as st
    | PostInvites r \<Rightarrow> as_owner E d hs True (create_invite_as E d r) st
    | GetPeers \<Rightarrow> as_owner E d hs False list_peers_as st
    | DeletePeer k \<Rightarrow> as_owner E d hs True (revoke_peer_as d k) st
    | GetDevices \<Rightarrow> as_user E d hs False list_devices_as st
    | DeleteDevice k \<Rightarrow> as_user E d hs True (revoke_device_as d k) st
    | GetSessions \<Rightarrow> as_user E d hs False list_sessions_as st
    | DeleteSessionRow k \<Rightarrow> as_user E d hs True (revoke_session_as d k) st
    | GetCredentials \<Rightarrow> as_user E d hs False (list_credentials_as E) st
    | PostCredentials r \<Rightarrow> as_user E d hs True (create_credential_as E d r) st
    | DeleteCredential k \<Rightarrow> as_user E d hs True (revoke_credential_as d k) st
    | GetWhoAmI \<Rightarrow> cli_whoami E d hs st
    | GetSpaces \<Rightarrow> as_user E d hs False server_workspaces_as st
    | PostSpaces s n \<Rightarrow> as_owner E d hs True (server_create_workspace_as d s n) st
    | PutSpace k s n \<Rightarrow> as_user E d hs True (update_workspace_as d k s n) st
    | DeleteSpace k \<Rightarrow> as_user E d hs True (delete_workspace_as k) st
    | GetProjects \<Rightarrow> list_projects E d hs st
    | PostProjects r \<Rightarrow> as_user E d hs True (create_project_as E d r) st
    | GetProject k \<Rightarrow> as_user E d hs False (get_project_as k) st
    | PutProject k r \<Rightarrow> as_user E d hs True (update_project_as E d hs k r) st
    | DeleteProject k \<Rightarrow> as_user E d hs True (delete_project_as k) st
    | GetRemote k \<Rightarrow> project_remote E d hs k st
    | GetPulls k \<Rightarrow> as_member E d hs k ''reader'' False (list_pulls k) st
    | PostPulls k i \<Rightarrow> as_member E d hs k ''contributor'' True (create_pull_as E d k i) st
    | GetDeployments k \<Rightarrow> as_member E d hs k ''reader'' False (list_deployments k) st
    | PostDeployments k r e \<Rightarrow> as_member E d hs k ''maintainer'' True (create_deployment_as E d k r e) st
    | GetRuns k \<Rightarrow> as_member E d hs k ''reader'' False (list_runs k) st
    | PostRuns k i \<Rightarrow> as_member E d hs k ''runner'' True (create_run_as E d k i) st
    | GetSchedules k \<Rightarrow> as_member E d hs k ''reader'' False (list_schedules k) st
    | PostSchedules k i \<Rightarrow> as_member E d hs k ''maintainer'' True (create_schedule_as E d k i) st
    | GetSecrets k \<Rightarrow> as_member E d hs k ''maintainer'' False (list_secrets k) st
    | PostSecrets k n \<Rightarrow> as_member E d hs k ''maintainer'' True (create_secret_as d k n) st
    | PutSecretValue k \<Rightarrow> as_member E d hs k ''maintainer'' True
        (\<lambda>_ st. (Inr (NotImplemented ''secret value storage is not available in this release''), st)) st
    | GetBranches k \<Rightarrow> as_member E d hs k ''reader'' False (git_branches E k) st
    | GetCommits k r n \<Rightarrow> as_member E d hs k ''reader'' False (git_commits E k r n) st
    | GetTree k r b \<Rightarrow> as_member E d hs k ''reader'' False (git_tree E k r b) st
    | GetFile k r p \<Rightarrow> as_member E d hs k ''reader'' False (git_file E k r p) st
    | GetAudit \<Rightarrow> as_owner E d hs False list_audit_as st)"

definition respond ::
  "('g, 'tz, 'cron) server_env \<Rightarrow> fresh \<Rightarrow> header_list \<Rightarrow> server_request \<Rightarrow> 'g server_state \<Rightarrow> 'g reply" where
  "respond E d hs rq st =
     (case same_origin E hs (is_get rq) of
        Inl e \<Rightarrow> (Inl (Refuse e), st)
      | Inr _ \<Rightarrow> dispatch E d hs rq st)"

end
