(* ===== verification/Server_History.thy ===== *)
theory Server_History
  imports Server_Routes "HOL-Library.Multiset"
begin

text \<open>
  The control plane in every interleaving of its transactions: what each statement does to the
  schema and to the order \<open>srv_below\<close> (rows are only added, revocations and redemptions are final,
  nothing changes its owner), the facts the schema does not state (one owner, one account per
  redeemed invitation, valid roles, gap-free pull request numbers), and the machine whose events
  are the transactions, interpreted as a \<open>growing_machine\<close>.
\<close>

section \<open>The schema as a predicate\<close>

lemma refers_opt_simps:
  "refers_opt f [] g ss"
  "refers_opt f (rs @ [r]) g ss \<longleftrightarrow> refers_opt f rs g ss \<and> (case f r of None \<Rightarrow> True | Some k \<Rightarrow> k \<in> g ` set ss)"
  "refers_opt f rs g ss \<Longrightarrow> refers_opt f rs g (ss @ [s])"
  by (auto simp: refers_opt_def split: option.splits)

lemma refers_opt_image:
  "refers_opt f rs g ss \<longleftrightarrow> (\<forall>x \<in> f ` set rs. case x of None \<Rightarrow> True | Some k \<Rightarrow> k \<in> g ` set ss)"
  by (simp add: refers_opt_def)

lemma refers_opt_update:
  "(\<And>r. f (h r) = f r) \<Longrightarrow> refers_opt f (update_where p h rs) g ss \<longleftrightarrow> refers_opt f rs g ss"
  unfolding refers_opt_image by (simp only: image_update)

lemma refers_opt_update_target:
  "(\<And>s. g (h s) = g s) \<Longrightarrow> refers_opt f rs g (update_where p h ss) \<longleftrightarrow> refers_opt f rs g ss"
  unfolding refers_opt_image by (simp only: image_update)

lemmas [db_simps] = refers_opt_simps refers_opt_update refers_opt_update_target

definition schema_ok :: "server_db \<Rightarrow> bool" where
  "schema_ok db \<longleftrightarrow>
     distinct_on usr_id (peers db)
     \<and> distinct_on dev_id (devices db) \<and> distinct_on dev_key (devices db)
     \<and> distinct_on lg_id (logins db) \<and> distinct_on lg_token_hash (logins db)
     \<and> distinct_on ivt_id (invites db) \<and> distinct_on ivt_token_hash (invites db)
     \<and> distinct_on spc_id (spaces db) \<and> distinct_on spc_slug (spaces db)
     \<and> distinct_on (\<lambda>m. (mbr_space m, mbr_user m)) (members db)
     \<and> distinct_on prj_id (projects db) \<and> distinct_on (\<lambda>p. (prj_space p, prj_slug p)) (projects db)
     \<and> distinct_on pull_id (pulls db) \<and> distinct_on (\<lambda>p. (pull_project p, pull_number p)) (pulls db)
     \<and> distinct_on dep_id (deployments db) \<and> distinct_on jr_id (job_runs db)
     \<and> distinct_on scd_id (schedule_rows db)
     \<and> distinct_on sec_id (secret_metas db) \<and> distinct_on (\<lambda>s. (sec_project s, sec_name s)) (secret_metas db)
     \<and> distinct_on sev_id (server_events db)
     \<and> distinct_on key_id (api_keys db) \<and> distinct_on key_public (api_keys db)
     \<and> list_all key_checked (api_keys db)
     \<and> refers dev_user (devices db) usr_id (peers db)
     \<and> refers lg_user (logins db) usr_id (peers db) \<and> refers_opt lg_device (logins db) dev_id (devices db)
     \<and> refers ivt_creator (invites db) usr_id (peers db)
     \<and> refers mbr_space (members db) spc_id (spaces db) \<and> refers mbr_user (members db) usr_id (peers db)
     \<and> refers prj_space (projects db) spc_id (spaces db)
     \<and> refers pull_project (pulls db) prj_id (projects db) \<and> refers pull_author (pulls db) usr_id (peers db)
     \<and> refers dep_project (deployments db) prj_id (projects db) \<and> refers dep_creator (deployments db) usr_id (peers db)
     \<and> refers jr_project (job_runs db) prj_id (projects db) \<and> refers jr_trigger (job_runs db) usr_id (peers db)
     \<and> refers scd_project (schedule_rows db) prj_id (projects db) \<and> refers scd_creator (schedule_rows db) usr_id (peers db)
     \<and> refers sec_project (secret_metas db) prj_id (projects db) \<and> refers sec_creator (secret_metas db) usr_id (peers db)
     \<and> refers key_user (api_keys db) usr_id (peers db) \<and> refers_opt key_device (api_keys db) dev_id (devices db)
     \<and> refers_opt key_space (api_keys db) spc_id (spaces db)
     \<and> refers_opt key_project (api_keys db) prj_id (projects db)"

section \<open>What only moves forward\<close>

definition peer_after :: "peer \<Rightarrow> peer \<Rightarrow> bool" where
  "peer_after u v \<longleftrightarrow> v = u\<lparr>usr_revoked := usr_revoked v\<rparr> \<and> (usr_revoked u \<noteq> None \<longrightarrow> usr_revoked v \<noteq> None)"

definition device_after :: "device \<Rightarrow> device \<Rightarrow> bool" where
  "device_after u v \<longleftrightarrow> v = u\<lparr>dev_revoked := dev_revoked v\<rparr> \<and> (dev_revoked u \<noteq> None \<longrightarrow> dev_revoked v \<noteq> None)"

definition login_after :: "login \<Rightarrow> login \<Rightarrow> bool" where
  "login_after u v \<longleftrightarrow> v = u\<lparr>lg_expires := lg_expires v, lg_revoked := lg_revoked v\<rparr>
     \<and> (lg_revoked u \<noteq> None \<longrightarrow> lg_revoked v \<noteq> None)"

definition invite_after :: "invite \<Rightarrow> invite \<Rightarrow> bool" where
  "invite_after u v \<longleftrightarrow> v = u\<lparr>ivt_redeemed := ivt_redeemed v, ivt_redeemer := ivt_redeemer v\<rparr>
     \<and> (ivt_redeemed u \<noteq> None \<longrightarrow> v = u)"

definition space_after :: "space \<Rightarrow> space \<Rightarrow> bool" where
  "space_after u v \<longleftrightarrow> v = u\<lparr>spc_slug := spc_slug v, spc_name := spc_name v\<rparr>"

definition project_after :: "project \<Rightarrow> project \<Rightarrow> bool" where
  "project_after u v \<longleftrightarrow> v = u\<lparr>prj_slug := prj_slug v, prj_name := prj_name v, prj_description := prj_description v,
     prj_branch := prj_branch v, prj_updated := prj_updated v\<rparr>"

definition key_after :: "api_key \<Rightarrow> api_key \<Rightarrow> bool" where
  "key_after u v \<longleftrightarrow> v = u\<lparr>key_used := key_used v, key_revoked := key_revoked v\<rparr>
     \<and> (key_revoked u \<noteq> None \<longrightarrow> key_revoked v = key_revoked u)"

lemmas after_defs = peer_after_def device_after_def login_after_def invite_after_def space_after_def
  project_after_def key_after_def

lemma after_refl [simp]:
  "peer_after u u" "device_after v v" "login_after w w" "invite_after i i" "space_after s s"
  "project_after p p" "key_after k k"
  by (simp_all add: after_defs)

lemma peer_after_trans: "peer_after a b \<Longrightarrow> peer_after b c \<Longrightarrow> peer_after a c"
  by (cases a; cases b; cases c) (auto simp: peer_after_def)

lemma device_after_trans: "device_after a b \<Longrightarrow> device_after b c \<Longrightarrow> device_after a c"
  by (cases a; cases b; cases c) (auto simp: device_after_def)

lemma login_after_trans: "login_after a b \<Longrightarrow> login_after b c \<Longrightarrow> login_after a c"
  by (cases a; cases b; cases c) (auto simp: login_after_def)

lemma invite_after_trans: "invite_after a b \<Longrightarrow> invite_after b c \<Longrightarrow> invite_after a c"
  by (cases a; cases b; cases c) (auto simp: invite_after_def)

lemma space_after_trans: "space_after a b \<Longrightarrow> space_after b c \<Longrightarrow> space_after a c"
  by (cases a; cases b; cases c) (auto simp: space_after_def)

lemma project_after_trans: "project_after a b \<Longrightarrow> project_after b c \<Longrightarrow> project_after a c"
  by (cases a; cases b; cases c) (auto simp: project_after_def)

lemma key_after_trans: "key_after a b \<Longrightarrow> key_after b c \<Longrightarrow> key_after a c"
  by (cases a; cases b; cases c) (auto simp: key_after_def)

definition srv_below :: "server_db \<Rightarrow> server_db \<Rightarrow> bool" where
  "srv_below db db' \<longleftrightarrow>
     (server_setting db ''server_owner_id'' \<noteq> None \<longrightarrow>
        server_setting db' ''server_owner_id'' = server_setting db ''server_owner_id'')
     \<and> evolves peer_after (peers db) (peers db') \<and> evolves device_after (devices db) (devices db')
     \<and> evolves login_after (logins db) (logins db') \<and> evolves invite_after (invites db) (invites db')
     \<and> evolves space_after (spaces db) (spaces db') \<and> evolves project_after (projects db) (projects db')
     \<and> evolves key_after (api_keys db) (api_keys db')
     \<and> prefix (members db) (members db') \<and> prefix (pulls db) (pulls db')
     \<and> prefix (deployments db) (deployments db') \<and> prefix (job_runs db) (job_runs db')
     \<and> prefix (schedule_rows db) (schedule_rows db') \<and> prefix (secret_metas db) (secret_metas db')
     \<and> prefix (server_events db) (server_events db')"

lemma srv_below_refl [simp]: "srv_below db db"
  by (simp add: srv_below_def evolves_refl)

lemma srv_below_trans:
  assumes "srv_below a b" and "srv_below b c"
  shows "srv_below a c"
  unfolding srv_below_def
proof (intro conjI)
  note ab = assms [unfolded srv_below_def]
  show "server_setting a ''server_owner_id'' \<noteq> None \<longrightarrow>
      server_setting c ''server_owner_id'' = server_setting a ''server_owner_id''" using ab by metis
  show "evolves peer_after (peers a) (peers c)"
    by (rule evolves_trans [where ys = "peers b", OF peer_after_trans]) (use ab in simp_all)
  show "evolves device_after (devices a) (devices c)"
    by (rule evolves_trans [where ys = "devices b", OF device_after_trans]) (use ab in simp_all)
  show "evolves login_after (logins a) (logins c)"
    by (rule evolves_trans [where ys = "logins b", OF login_after_trans]) (use ab in simp_all)
  show "evolves invite_after (invites a) (invites c)"
    by (rule evolves_trans [where ys = "invites b", OF invite_after_trans]) (use ab in simp_all)
  show "evolves space_after (spaces a) (spaces c)"
    by (rule evolves_trans [where ys = "spaces b", OF space_after_trans]) (use ab in simp_all)
  show "evolves project_after (projects a) (projects c)"
    by (rule evolves_trans [where ys = "projects b", OF project_after_trans]) (use ab in simp_all)
  show "evolves key_after (api_keys a) (api_keys c)"
    by (rule evolves_trans [where ys = "api_keys b", OF key_after_trans]) (use ab in simp_all)
  show "prefix (members a) (members c)"
    by (rule prefix_order.trans [of _ "members b"]) (use ab in simp_all)
  show "prefix (pulls a) (pulls c)"
    by (rule prefix_order.trans [of _ "pulls b"]) (use ab in simp_all)
  show "prefix (deployments a) (deployments c)"
    by (rule prefix_order.trans [of _ "deployments b"]) (use ab in simp_all)
  show "prefix (job_runs a) (job_runs c)"
    by (rule prefix_order.trans [of _ "job_runs b"]) (use ab in simp_all)
  show "prefix (schedule_rows a) (schedule_rows c)"
    by (rule prefix_order.trans [of _ "schedule_rows b"]) (use ab in simp_all)
  show "prefix (secret_metas a) (secret_metas c)"
    by (rule prefix_order.trans [of _ "secret_metas b"]) (use ab in simp_all)
  show "prefix (server_events a) (server_events c)"
    by (rule prefix_order.trans [of _ "server_events b"]) (use ab in simp_all)
qed

section \<open>Every statement keeps the schema and moves forward\<close>

definition stmt :: "server_db \<Rightarrow> server_db \<Rightarrow> bool" where
  "stmt db db' \<longleftrightarrow> (schema_ok db \<longrightarrow> schema_ok db') \<and> srv_below db db'"

lemma stmt_refl [simp]: "stmt db db"
  by (simp add: stmt_def)

lemma stmt_trans: "stmt a b \<Longrightarrow> stmt b c \<Longrightarrow> stmt a c"
  by (auto simp: stmt_def intro: srv_below_trans)

text \<open>Statements that touch one table say nothing of the others.\<close>

lemmas evolves_simps = evolves_refl evolves_append evolves_update

lemmas insert_defs = insert_setting_def insert_peer_def insert_device_def insert_login_def insert_invite_def insert_space_def insert_member_def insert_project_def insert_pull_def insert_deployment_def insert_run_def insert_schedule_def insert_secret_def insert_server_event_def insert_key_def

lemma srv_insert_below:
  "insert_setting k v db = Inr db' \<Longrightarrow> srv_below db db'"
  "insert_peer u db = Inr db' \<Longrightarrow> srv_below db db'"
  "insert_device dv db = Inr db' \<Longrightarrow> srv_below db db'"
  "insert_login lg db = Inr db' \<Longrightarrow> srv_below db db'"
  "insert_invite iv db = Inr db' \<Longrightarrow> srv_below db db'"
  "insert_space w db = Inr db' \<Longrightarrow> srv_below db db'"
  "insert_member m db = Inr db' \<Longrightarrow> srv_below db db'"
  "insert_project pj db = Inr db' \<Longrightarrow> srv_below db db'"
  "insert_pull pl db = Inr db' \<Longrightarrow> srv_below db db'"
  "insert_deployment dp db = Inr db' \<Longrightarrow> srv_below db db'"
  "insert_run jr db = Inr db' \<Longrightarrow> srv_below db db'"
  "insert_schedule sc db = Inr db' \<Longrightarrow> srv_below db db'"
  "insert_secret se db = Inr db' \<Longrightarrow> srv_below db db'"
  "insert_server_event ev db = Inr db' \<Longrightarrow> srv_below db db'"
  "insert_key ky db = Inr db' \<Longrightarrow> srv_below db db'"
  by (auto simp: insert_defs db_insert_cases srv_below_def evolves_simps server_setting_def hmap_simps
      split: if_splits)

lemma has_rows:
  "distinct_on f (rs @ [r]) \<longleftrightarrow> distinct_on f rs \<and> \<not> has f (f r) rs"
  "refers f (rs @ [r]) g ss \<longleftrightarrow> refers f rs g ss \<and> has g (f r) ss"
  "refers_opt h (rs @ [r]) k ts \<longleftrightarrow> refers_opt h rs k ts \<and> has_opt k (h r) ts"
  by (auto simp: db_simps list_ex_iff eq_commute [of "g _"] split: option.splits)

lemmas schema_simps = has_rows refers_simps(3) refers_opt_simps(3)

text \<open>The conditions of an insertion are exactly what the schema asks of the new row.\<close>

lemma insert_schema:
  "insert_setting k v db = Inr db' \<Longrightarrow> schema_ok db \<Longrightarrow> schema_ok db'"
  "insert_peer u db = Inr db' \<Longrightarrow> schema_ok db \<Longrightarrow> schema_ok db'"
  "insert_device dv db = Inr db' \<Longrightarrow> schema_ok db \<Longrightarrow> schema_ok db'"
  "insert_login lg db = Inr db' \<Longrightarrow> schema_ok db \<Longrightarrow> schema_ok db'"
  "insert_invite iv db = Inr db' \<Longrightarrow> schema_ok db \<Longrightarrow> schema_ok db'"
  "insert_space w db = Inr db' \<Longrightarrow> schema_ok db \<Longrightarrow> schema_ok db'"
  "insert_member m db = Inr db' \<Longrightarrow> schema_ok db \<Longrightarrow> schema_ok db'"
  "insert_project pj db = Inr db' \<Longrightarrow> schema_ok db \<Longrightarrow> schema_ok db'"
  "insert_pull pl db = Inr db' \<Longrightarrow> schema_ok db \<Longrightarrow> schema_ok db'"
  "insert_deployment dp db = Inr db' \<Longrightarrow> schema_ok db \<Longrightarrow> schema_ok db'"
  "insert_run jr db = Inr db' \<Longrightarrow> schema_ok db \<Longrightarrow> schema_ok db'"
  "insert_schedule sc db = Inr db' \<Longrightarrow> schema_ok db \<Longrightarrow> schema_ok db'"
  "insert_secret se db = Inr db' \<Longrightarrow> schema_ok db \<Longrightarrow> schema_ok db'"
  "insert_server_event ev db = Inr db' \<Longrightarrow> schema_ok db \<Longrightarrow> schema_ok db'"
  "insert_key ky db = Inr db' \<Longrightarrow> schema_ok db \<Longrightarrow> schema_ok db'"
  by (clarsimp simp: insert_defs split: if_splits; simp add: schema_ok_def schema_simps)+

lemma insert_stmt:
  "insert_setting k v db = Inr db' \<Longrightarrow> stmt db db'"
  "insert_peer u db = Inr db' \<Longrightarrow> stmt db db'"
  "insert_device dv db = Inr db' \<Longrightarrow> stmt db db'"
  "insert_login lg db = Inr db' \<Longrightarrow> stmt db db'"
  "insert_invite iv db = Inr db' \<Longrightarrow> stmt db db'"
  "insert_space w db = Inr db' \<Longrightarrow> stmt db db'"
  "insert_member m db = Inr db' \<Longrightarrow> stmt db db'"
  "insert_project pj db = Inr db' \<Longrightarrow> stmt db db'"
  "insert_pull pl db = Inr db' \<Longrightarrow> stmt db db'"
  "insert_deployment dp db = Inr db' \<Longrightarrow> stmt db db'"
  "insert_run jr db = Inr db' \<Longrightarrow> stmt db db'"
  "insert_schedule sc db = Inr db' \<Longrightarrow> stmt db db'"
  "insert_secret se db = Inr db' \<Longrightarrow> stmt db db'"
  "insert_server_event ev db = Inr db' \<Longrightarrow> stmt db db'"
  "insert_key ky db = Inr db' \<Longrightarrow> stmt db db'"
  by (simp_all add: stmt_def srv_insert_below insert_schema)


section \<open>Updates in place\<close>

lemma distinct_update_key:
  assumes ids: "distinct_on i rs" and old: "distinct_on f rs" and keep: "\<And>r. i (h r) = i r"
    and new: "\<And>r x. r \<in> set rs \<Longrightarrow> x \<in> set rs \<Longrightarrow> i r \<noteq> k \<Longrightarrow> i x = k \<Longrightarrow> f r \<noteq> f (h x)"
  shows "distinct_on f (update_where (\<lambda>r. i r = k) h rs)"
  unfolding distinct_on_def distinct_map
proof (intro conjI inj_onI)
  have d: "distinct (map i rs)" using ids by (simp add: distinct_on_def)
  have "map i (update_where (\<lambda>r. i r = k) h rs) = map i rs" by (rule map_update) (rule keep)
  with d show "distinct (update_where (\<lambda>r. i r = k) h rs)" by (metis distinct_map)
  fix a b
  assume a: "a \<in> set (update_where (\<lambda>r. i r = k) h rs)" and b: "b \<in> set (update_where (\<lambda>r. i r = k) h rs)"
    and eq: "f a = f b"
  from a b obtain x y where x: "x \<in> set rs" "a = (if i x = k then h x else x)"
    and y: "y \<in> set rs" "b = (if i y = k then h y else y)"
    by (auto simp: update_where_def)
  show "a = b"
  proof (cases "i x = k"; cases "i y = k")
    assume "i x = k" "i y = k"
    with x y distinct_on_inj [OF ids x(1) y(1)] show ?thesis by simp
  next
    assume "i x = k" "i y \<noteq> k"
    with x y eq new [OF y(1) x(1)] show ?thesis by simp
  next
    assume "i x \<noteq> k" "i y = k"
    with x y eq new [OF x(1) y(1)] show ?thesis by simp
  next
    assume "i x \<noteq> k" "i y \<noteq> k"
    with x y eq distinct_on_inj [OF old x(1) y(1)] show ?thesis by simp
  qed
qed

lemma drop_stmt: "k \<noteq> ''server_owner_id'' \<Longrightarrow> stmt db (drop_setting k db)"
  by (simp add: stmt_def drop_setting_def schema_ok_def srv_below_def server_setting_def hmap_simps evolves_simps)

lemma mark_redeemed_stmt: "stmt db (mark_redeemed k t u db)"
  by (auto simp: stmt_def mark_redeemed_def schema_ok_def db_simps srv_below_def server_setting_def
      evolves_refl invite_after_def intro!: evolves_update)

lemma revoke_logins_stmt: "stmt db (revoke_logins P t db)"
  by (simp add: stmt_def revoke_logins_def schema_ok_def db_simps srv_below_def server_setting_def
      evolves_simps login_after_def)

lemma list_all_update: "(\<And>r. Q (h r) = Q r) \<Longrightarrow> list_all Q (update_where p h rs) = list_all Q rs"
  by (induction rs) (auto simp: update_where_def)

lemma key_checked_simps:
  "key_checked (r\<lparr>key_used := t\<rparr>) = key_checked r" "key_checked (r\<lparr>key_revoked := t\<rparr>) = key_checked r"
  by (simp_all add: key_checked_def)

lemma touch_key_stmt: "stmt db (touch_key k t db)"
  by (simp add: stmt_def touch_key_def schema_ok_def db_simps srv_below_def server_setting_def
      list_all_update key_checked_simps evolves_simps key_after_def)

lemma revoke_row_stmt:
  "stmt db (db\<lparr>peers := update_where P (\<lambda>u. u\<lparr>usr_revoked := Some t\<rparr>) (peers db)\<rparr>)"
  "stmt db (db\<lparr>devices := update_where Q (\<lambda>r. r\<lparr>dev_revoked := Some t\<rparr>) (devices db)\<rparr>)"
  by (simp_all add: stmt_def schema_ok_def db_simps srv_below_def server_setting_def
      evolves_simps peer_after_def device_after_def)

lemma revoke_key_stmt:
  "(\<And>r. P r \<Longrightarrow> key_revoked r = None) \<Longrightarrow>
     stmt db (db\<lparr>api_keys := update_where P (\<lambda>r. r\<lparr>key_revoked := Some t\<rparr>) (api_keys db)\<rparr>)"
  by (auto simp: stmt_def schema_ok_def db_simps srv_below_def server_setting_def
      list_all_update key_checked_simps evolves_refl key_after_def intro!: evolves_update)

lemma extend_logins_stmt:
  "stmt db (db\<lparr>logins := update_where P (\<lambda>s. s\<lparr>lg_expires := t\<rparr>) (logins db)\<rparr>)"
  by (simp add: stmt_def schema_ok_def db_simps srv_below_def server_setting_def evolves_simps login_after_def)

text \<open>Renaming keeps the names unique when the statement's own check passed.\<close>

lemma rename_space_stmt:
  assumes "\<not> list_ex (\<lambda>w. spc_id w \<noteq> k \<and> spc_slug w = slug) (spaces db)"
  shows "stmt db (db\<lparr>spaces := update_where (\<lambda>w. spc_id w = k)
     (\<lambda>w. w\<lparr>spc_slug := slug, spc_name := name\<rparr>) (spaces db)\<rparr>)" (is "stmt db ?d")
proof -
  have "distinct_on spc_slug (spaces ?d)" if "schema_ok db"
    using that assms by (auto simp: schema_ok_def list_ex_iff intro!: distinct_update_key)
  then have "schema_ok db \<longrightarrow> schema_ok ?d" by (auto simp: schema_ok_def db_simps)
  then show ?thesis
    by (simp add: stmt_def srv_below_def server_setting_def evolves_simps space_after_def)
qed

lemma rename_project_stmt:
  assumes "\<not> list_ex (\<lambda>x. prj_id x \<noteq> k \<and> prj_slug x = slug
     \<and> list_ex (\<lambda>y. prj_id y = k \<and> prj_space y = prj_space x) (projects db)) (projects db)"
  shows "stmt db (db\<lparr>projects := update_where (\<lambda>x. prj_id x = k)
     (\<lambda>x. x\<lparr>prj_slug := slug, prj_name := name, prj_description := descr, prj_branch := br,
        prj_updated := t\<rparr>) (projects db)\<rparr>)" (is "stmt db ?d")
proof -
  have "distinct_on (\<lambda>p. (prj_space p, prj_slug p)) (projects ?d)" if "schema_ok db"
  proof -
    have "prj_slug r \<noteq> slug" if "r \<in> set (projects db)" "x \<in> set (projects db)" "prj_id r \<noteq> k"
      "prj_id x = k" "prj_space r = prj_space x" for r x
    proof
      assume "prj_slug r = slug"
      then have "list_ex (\<lambda>x. prj_id x \<noteq> k \<and> prj_slug x = slug
          \<and> list_ex (\<lambda>y. prj_id y = k \<and> prj_space y = prj_space x) (projects db)) (projects db)"
        unfolding list_ex_iff using that
        by (intro bexI [of _ r] conjI bexI [of _ x]) (simp_all only: simp_thms)
      with assms show False by simp
    qed
    then show ?thesis using that by (auto simp: schema_ok_def intro!: distinct_update_key)
  qed
  then have "schema_ok db \<longrightarrow> schema_ok ?d" by (auto simp: schema_ok_def db_simps)
  then show ?thesis
    by (simp add: stmt_def srv_below_def server_setting_def evolves_simps project_after_def)
qed


section \<open>Every transaction\<close>

lemmas tx_simps = rbind_Inr_iff map_err_Inr_iff ok_or_Inr_iff fail_if_Inr_iff Let_def

lemma record_event_stmt: "record_event d u a ty tgt db = Inr db' \<Longrightarrow> stmt db db'"
  by (auto simp: record_event_def tx_simps intro: insert_stmt)

lemma issue_session_stmt: "issue_session E d u dv db = Inr (x, db') \<Longrightarrow> stmt db db'"
  by (auto simp: issue_session_def tx_simps intro: insert_stmt)

lemmas stmt_intros = insert_stmt record_event_stmt issue_session_stmt

lemma drop_hash_stmt: "stmt db (drop_setting ''bootstrap_hash'' db)"
  by (rule drop_stmt) simp

lemma server_claim_stmt: "server_claim_tx E d r db = Inr (x, db') \<Longrightarrow> stmt db db'"
  by (auto simp: server_claim_tx_def tx_simps split: if_splits dest!: stmt_intros)
    (meson stmt_trans drop_hash_stmt)

lemma create_invite_stmt: "create_invite_tx E d r n u db = Inr (x, db') \<Longrightarrow> stmt db db'"
  by (auto simp: create_invite_tx_def tx_simps dest!: stmt_intros) (meson stmt_trans)+

lemma redeem_stmt: "redeem_tx E d r db = Inr (x, db') \<Longrightarrow> stmt db db'"
  by (auto simp: redeem_tx_def tx_simps split: if_splits option.splits dest!: stmt_intros)
    (meson stmt_trans mark_redeemed_stmt)+

lemma renew_stmt: "renew_tx E d token csrf p db = Inr (x, db') \<Longrightarrow> stmt db db'"
  by (auto simp: renew_tx_def tx_simps extend_logins_stmt split: if_splits)

lemma server_logout_stmt: "server_logout_tx d p db = Inr (x, db') \<Longrightarrow> stmt db db'"
  by (auto simp: server_logout_tx_def tx_simps dest!: stmt_intros) (meson stmt_trans revoke_logins_stmt)

lemma revoke_session_stmt: "revoke_session_tx d k p db = Inr (x, db') \<Longrightarrow> stmt db db'"
  by (auto simp: revoke_session_tx_def tx_simps split: if_splits dest!: stmt_intros)
    (meson stmt_trans revoke_logins_stmt)

lemma revoke_peer_stmt: "revoke_peer_tx d k p db = Inr (x, db') \<Longrightarrow> stmt db db'"
  by (auto simp: revoke_peer_tx_def tx_simps split: if_splits dest!: stmt_intros)
    (rule stmt_trans [OF revoke_row_stmt(1)], rule stmt_trans [OF revoke_logins_stmt])

lemma revoke_device_stmt: "revoke_device_tx d k p db = Inr (x, db') \<Longrightarrow> stmt db db'"
  by (auto simp: revoke_device_tx_def tx_simps split: if_splits dest!: stmt_intros)
    (rule stmt_trans [OF revoke_row_stmt(2)], rule stmt_trans [OF revoke_logins_stmt])

lemma create_key_stmt: "create_key_tx E d r tk ex cf p db = Inr (x, db') \<Longrightarrow> stmt db db'"
  by (auto simp: create_key_tx_def tx_simps dest!: stmt_intros) (meson stmt_trans)

lemma revoke_key_tx_stmt: "revoke_key_tx d k p db = Inr (x, db') \<Longrightarrow> stmt db db'"
proof -
  have s: "stmt db (db\<lparr>api_keys := update_where (\<lambda>r. key_id r = k \<and> key_user r = pr_user p \<and> key_revoked r = None)
      (\<lambda>r. r\<lparr>key_revoked := Some (t_now d)\<rparr>) (api_keys db)\<rparr>)"
    by (rule revoke_key_stmt) simp
  then show "revoke_key_tx d k p db = Inr (x, db') \<Longrightarrow> stmt db db'"
    by (auto simp: revoke_key_tx_def tx_simps split: if_splits dest!: stmt_intros intro: stmt_trans)
qed

lemma use_key_stmt: "use_key E d token ty sc pub db = Inr (x, db') \<Longrightarrow> stmt db db'"
  by (auto simp: use_key_def tx_simps touch_key_stmt)

lemma create_space_stmt: "create_space_tx d slug name p db = Inr (x, db') \<Longrightarrow> stmt db db'"
  by (auto simp: create_space_tx_def tx_simps dest!: stmt_intros) (meson stmt_trans)

lemma update_space_stmt: "update_space_tx d k slug name p db = Inr (x, db') \<Longrightarrow> stmt db db'"
  by (auto simp: update_space_tx_def tx_simps split: if_splits dest!: stmt_intros)
    (rule stmt_trans, erule rename_space_stmt)

lemma create_project_stmt: "create_project_tx d r sha p db = Inr (x, db') \<Longrightarrow> stmt db db'"
  by (auto simp: create_project_tx_def tx_simps dest!: stmt_intros) (meson stmt_trans)

lemma update_project_stmt: "update_project_tx d k r p db = Inr (x, db') \<Longrightarrow> stmt db db'"
  by (auto simp: update_project_tx_def tx_simps split: if_splits dest!: stmt_intros)
    (rule stmt_trans, erule rename_project_stmt)

lemma create_row_stmt:
  "create_pull_tx d k pin u db = Inr (x1, db') \<Longrightarrow> stmt db db'"
  "create_deployment_tx d k sha env u db = Inr (x2, db') \<Longrightarrow> stmt db db'"
  "create_run_tx d k rin sha u db = Inr (x3, db') \<Longrightarrow> stmt db db'"
  "create_schedule_tx d k sinp u db = Inr (x4, db') \<Longrightarrow> stmt db db'"
  "create_secret_tx d k nm u db = Inr (x5, db') \<Longrightarrow> stmt db db'"
  by (auto simp: create_pull_tx_def create_deployment_tx_def create_run_tx_def create_schedule_tx_def
      create_secret_tx_def tx_simps dest!: stmt_intros) (meson stmt_trans)+

lemmas tx_stmt = server_claim_stmt create_invite_stmt redeem_stmt renew_stmt server_logout_stmt
  revoke_session_stmt revoke_peer_stmt revoke_device_stmt create_key_stmt revoke_key_tx_stmt use_key_stmt
  create_space_stmt update_space_stmt create_project_stmt update_project_stmt create_row_stmt


section \<open>What the schema does not state\<close>

definition owner_ok :: "server_db \<Rightarrow> bool" where
  "owner_ok db \<longleftrightarrow> server_setting db ''server_owner_id'' =
     (case peers db of [] \<Rightarrow> None | u # _ \<Rightarrow> Some (usr_id u))"

definition redeemed :: "invite list \<Rightarrow> invite list" where
  "redeemed = filter (\<lambda>i. ivt_redeemed i \<noteq> None)"

text \<open>Every account but the first came from one redeemed invitation, and every redemption made one.\<close>

definition accounts_ok :: "server_db \<Rightarrow> bool" where
  "accounts_ok db \<longleftrightarrow> mset (map (\<lambda>u. Some (usr_id u)) (tl (peers db))) = mset (map ivt_redeemer (redeemed (invites db)))"

definition valid_role :: "string \<Rightarrow> bool" where
  "valid_role r \<longleftrightarrow> validate_role r = Inr ()"

definition roles_ok :: "server_db \<Rightarrow> bool" where
  "roles_ok db \<longleftrightarrow> list_all (\<lambda>m. valid_role (mbr_role m)) (members db)
     \<and> list_all (\<lambda>i. valid_role (ivt_role i)) (invites db)"

definition pull_numbers :: "server_db \<Rightarrow> string \<Rightarrow> int list" where
  "pull_numbers db k = map pull_number (filter (\<lambda>p. pull_project p = k) (pulls db))"

definition numbered :: "int list \<Rightarrow> bool" where
  "numbered ns \<longleftrightarrow> ns = map int [1..<Suc (length ns)]"

definition pulls_ok :: "server_db \<Rightarrow> bool" where
  "pulls_ok db \<longleftrightarrow> (\<forall>k. numbered (pull_numbers db k))"

text \<open>The sessions of a revoked account or device are revoked; a session's device is its user's.\<close>

definition access_ok :: "server_db \<Rightarrow> bool" where
  "access_ok db \<longleftrightarrow>
     (\<forall>s \<in> set (logins db). \<forall>u \<in> set (peers db). lg_user s = usr_id u \<longrightarrow> usr_revoked u \<noteq> None \<longrightarrow> lg_revoked s \<noteq> None)
     \<and> (\<forall>s \<in> set (logins db). \<forall>v \<in> set (devices db). lg_device s = Some (dev_id v) \<longrightarrow>
          dev_user v = lg_user s \<and> (dev_revoked v \<noteq> None \<longrightarrow> lg_revoked s \<noteq> None))"

definition server_inv :: "server_db \<Rightarrow> bool" where
  "server_inv db \<longleftrightarrow> schema_ok db \<and> owner_ok db \<and> accounts_ok db \<and> roles_ok db \<and> pulls_ok db \<and> access_ok db"

text \<open>What these facts read of a database.\<close>

definition same_core :: "server_db \<Rightarrow> server_db \<Rightarrow> bool" where
  "same_core db db' \<longleftrightarrow> db_settings db' = db_settings db \<and> peers db' = peers db \<and> devices db' = devices db
     \<and> logins db' = logins db \<and> invites db' = invites db \<and> members db' = members db \<and> pulls db' = pulls db"

lemma same_facts:
  "db_settings db' = db_settings db \<Longrightarrow> peers db' = peers db \<Longrightarrow> owner_ok db' = owner_ok db"
  "peers db' = peers db \<Longrightarrow> invites db' = invites db \<Longrightarrow> accounts_ok db' = accounts_ok db"
  "members db' = members db \<Longrightarrow> invites db' = invites db \<Longrightarrow> roles_ok db' = roles_ok db"
  "pulls db' = pulls db \<Longrightarrow> pulls_ok db' = pulls_ok db"
  "logins db' = logins db \<Longrightarrow> peers db' = peers db \<Longrightarrow> devices db' = devices db \<Longrightarrow> access_ok db' = access_ok db"
  by (simp_all add: owner_ok_def accounts_ok_def roles_ok_def pulls_ok_def pull_numbers_def access_ok_def
      server_setting_def)

definition good :: "server_db \<Rightarrow> server_db \<Rightarrow> bool" where
  "good db db' \<longleftrightarrow> (server_inv db \<longrightarrow> server_inv db' \<and> srv_below db db')"

lemma srv_good_refl [simp]: "good db db"
  by (simp add: good_def)

lemma good_core: "stmt db db' \<Longrightarrow> same_core db db' \<Longrightarrow> good db db'"
  using same_facts [of db' db] unfolding good_def server_inv_def stmt_def same_core_def by (elim conjE) simp

lemma good_stmt:
  assumes "stmt db db'"
    and "server_inv db \<Longrightarrow> owner_ok db'" and "server_inv db \<Longrightarrow> accounts_ok db'"
    and "server_inv db \<Longrightarrow> roles_ok db'" and "server_inv db \<Longrightarrow> pulls_ok db'"
    and "server_inv db \<Longrightarrow> access_ok db'"
  shows "good db db'"
  using assms by (auto simp: good_def server_inv_def stmt_def)

lemma srv_insert_rows:
  "insert_peer u db = Inr db' \<Longrightarrow> db' = db\<lparr>peers := peers db @ [u]\<rparr> \<and> \<not> has usr_id (usr_id u) (peers db)"
  "insert_setting k v db = Inr db' \<Longrightarrow> db' = db\<lparr>db_settings := hput k v (db_settings db)\<rparr>"
  "insert_device dv db = Inr db' \<Longrightarrow> db' = db\<lparr>devices := devices db @ [dv]\<rparr> \<and> \<not> has dev_id (dev_id dv) (devices db)"
  "insert_login lg db = Inr db' \<Longrightarrow> db' = db\<lparr>logins := logins db @ [lg]\<rparr>"
  "insert_invite iv db = Inr db' \<Longrightarrow> db' = db\<lparr>invites := invites db @ [iv]\<rparr>"
  "insert_space w db = Inr db' \<Longrightarrow> db' = db\<lparr>spaces := spaces db @ [w]\<rparr>"
  "insert_member m db = Inr db' \<Longrightarrow> db' = db\<lparr>members := members db @ [m]\<rparr>"
  "insert_project pj db = Inr db' \<Longrightarrow> db' = db\<lparr>projects := projects db @ [pj]\<rparr>"
  "insert_pull pl db = Inr db' \<Longrightarrow> db' = db\<lparr>pulls := pulls db @ [pl]\<rparr>"
  "insert_deployment dp db = Inr db' \<Longrightarrow> db' = db\<lparr>deployments := deployments db @ [dp]\<rparr>"
  "insert_run jr db = Inr db' \<Longrightarrow> db' = db\<lparr>job_runs := job_runs db @ [jr]\<rparr>"
  "insert_schedule sc db = Inr db' \<Longrightarrow> db' = db\<lparr>schedule_rows := schedule_rows db @ [sc]\<rparr>"
  "insert_secret se db = Inr db' \<Longrightarrow> db' = db\<lparr>secret_metas := secret_metas db @ [se]\<rparr>"
  "insert_key ky db = Inr db' \<Longrightarrow> db' = db\<lparr>api_keys := api_keys db @ [ky]\<rparr>"
  by (auto simp: insert_defs split: if_splits)

lemma event_rows: "record_event d u a ty tgt db = Inr db' \<Longrightarrow> \<exists>e. db' = db\<lparr>server_events := server_events db @ [e]\<rparr>"
  by (auto simp: record_event_def insert_server_event_def tx_simps split: if_splits)

lemma key_tx_core:
  "create_key_tx E d r tk ex cf p db = Inr (x1, db') \<Longrightarrow> same_core db db'"
  "revoke_key_tx d k p db = Inr (x2, db') \<Longrightarrow> same_core db db'"
  "use_key E d token ty sc pub db = Inr (x3, db') \<Longrightarrow> same_core db db'"
  by (auto simp: same_core_def create_key_tx_def revoke_key_tx_def use_key_def touch_key_def tx_simps
      split: if_splits dest!: srv_insert_rows event_rows)

lemma project_tx_core:
  "update_space_tx d k slug name p db = Inr (x1, db') \<Longrightarrow> same_core db db'"
  "create_project_tx d r sha p db = Inr (x2, db') \<Longrightarrow> same_core db db'"
  "update_project_tx d k r p db = Inr (x3, db') \<Longrightarrow> same_core db db'"
  by (auto simp: same_core_def update_space_tx_def create_project_tx_def update_project_tx_def tx_simps
      split: if_splits dest!: srv_insert_rows event_rows)

lemma row_tx_core:
  "create_deployment_tx d k sha env u db = Inr (x2, db') \<Longrightarrow> same_core db db'"
  "create_run_tx d k rin sha u db = Inr (x3, db') \<Longrightarrow> same_core db db'"
  "create_schedule_tx d k sinp u db = Inr (x4, db') \<Longrightarrow> same_core db db'"
  "create_secret_tx d k nm u db = Inr (x5, db') \<Longrightarrow> same_core db db'"
  by (auto simp: same_core_def create_deployment_tx_def create_run_tx_def create_schedule_tx_def
      create_secret_tx_def tx_simps dest!: srv_insert_rows event_rows)


section \<open>The transactions that touch them\<close>

lemma good_create_space: "create_space_tx d slug name p db = Inr (x, db') \<Longrightarrow> good db db'"
proof -
  assume tx: "create_space_tx d slug name p db = Inr (x, db')"
  then obtain m e where db': "db' = db\<lparr>spaces := spaces db', members := members db @ [m], server_events := e\<rparr>"
    and m: "mbr_role m = ''owner''"
    by (auto simp: create_space_tx_def tx_simps dest!: srv_insert_rows event_rows)
  have "valid_role ''owner''" by (simp add: valid_role_def validate_role_def)
  then have "roles_ok db'" if "roles_ok db" using that m by (subst db') (simp add: roles_ok_def)
  moreover have "pulls db' = pulls db" "logins db' = logins db" "peers db' = peers db" "devices db' = devices db"
    "db_settings db' = db_settings db" "invites db' = invites db"
    by (subst db', simp)+
  ultimately show ?thesis using same_facts [of db' db] create_space_stmt [OF tx]
    by (intro good_stmt) (simp_all add: server_inv_def)
qed

lemma next_number_numbered:
  assumes "numbered (pull_numbers db k)"
  shows "next_number db k = int (Suc (length (pull_numbers db k)))"
proof (cases "pull_numbers db k")
  case Nil
  then show ?thesis by (simp add: next_number_def pull_numbers_def)
next
  case (Cons n ns)
  let ?l = "length (pull_numbers db k)"
  have "fold max ns n = Max (set (pull_numbers db k))" by (simp only: Cons Max.set_eq_fold)
  also have "set (pull_numbers db k) = int ` {1..<Suc ?l}"
    using assms unfolding numbered_def by (metis list.set_map set_upt)
  also have "Max (int ` {1..<Suc ?l}) = int ?l"
    by (rule Max_eqI) (auto simp: Cons intro!: image_eqI [of _ _ ?l])
  finally show ?thesis using Cons by (simp add: next_number_def flip: pull_numbers_def)
qed

lemma numbered_append: "numbered ns \<Longrightarrow> numbered (ns @ [int (Suc (length ns))])"
  by (simp add: numbered_def)

lemma good_create_pull: "create_pull_tx d k i u db = Inr (x, db') \<Longrightarrow> good db db'"
proof -
  assume tx: "create_pull_tx d k i u db = Inr (x, db')"
  then obtain q e where db': "db' = db\<lparr>pulls := pulls db @ [q], server_events := e\<rparr>"
    and q: "pull_project q = k" "pull_number q = next_number db k"
    by (auto simp: create_pull_tx_def tx_simps dest!: srv_insert_rows event_rows)
  have "numbered (pull_numbers db' j)" if ok: "pulls_ok db" for j
  proof -
    have n: "numbered (pull_numbers db j)" using ok by (simp add: pulls_ok_def)
    show ?thesis
    proof (cases "j = k")
      case True
      with n have "pull_numbers db' j = pull_numbers db j @ [int (Suc (length (pull_numbers db j)))]"
        using q next_number_numbered [of db k] by (simp add: db' pull_numbers_def)
      with n show ?thesis by (simp only: numbered_append)
    next
      case False
      with q n show ?thesis by (simp add: db' pull_numbers_def)
    qed
  qed
  then have "pulls_ok db'" if "pulls_ok db" using that by (simp add: pulls_ok_def)
  then show ?thesis using same_facts [of db' db] create_row_stmt(1) [OF tx]
    by (intro good_stmt) (simp_all add: server_inv_def db')
qed

lemma redeemed_append [simp]: "redeemed (xs @ [i]) = redeemed xs @ (if ivt_redeemed i = None then [] else [i])"
  by (simp add: redeemed_def)

lemma good_create_invite:
  "create_invite_tx E d r n u db = Inr (x, db') \<Longrightarrow> valid_role (iv_role r) \<Longrightarrow> good db db'"
proof -
  assume tx: "create_invite_tx E d r n u db = Inr (x, db')" and v: "valid_role (iv_role r)"
  from tx obtain i e where db': "db' = db\<lparr>invites := invites db @ [i], server_events := e\<rparr>"
    and i: "ivt_role i = iv_role r" "ivt_redeemed i = None"
    by (auto simp: create_invite_tx_def tx_simps dest!: srv_insert_rows event_rows)
  from i v have "roles_ok db'" "accounts_ok db'" if "roles_ok db" "accounts_ok db"
    using that by (simp_all add: db' roles_ok_def accounts_ok_def)
  then show ?thesis using same_facts [of db' db] create_invite_stmt [OF tx]
    by (intro good_stmt) (simp_all add: server_inv_def db')
qed


lemma access_update_logins:
  assumes "access_ok db"
    and "\<And>s. lg_user (h s) = lg_user s" and "\<And>s. lg_device (h s) = lg_device s"
    and "\<And>s. lg_revoked s \<noteq> None \<Longrightarrow> lg_revoked (h s) \<noteq> None"
  shows "access_ok (db\<lparr>logins := update_where P h (logins db)\<rparr>)"
  using assms unfolding access_ok_def by (fastforce simp: update_where_def)

lemma good_update_logins:
  assumes "stmt db db'" and "db' = db\<lparr>logins := update_where P h (logins db), server_events := e\<rparr>"
    and "\<And>s. lg_user (h s) = lg_user s" and "\<And>s. lg_device (h s) = lg_device s"
    and "\<And>s. lg_revoked s \<noteq> None \<Longrightarrow> lg_revoked (h s) \<noteq> None"
  shows "good db db'"
proof -
  have "access_ok db'" if "access_ok db"
    using access_update_logins [OF that assms(3-5), of P] by (simp add: assms(2) access_ok_def)
  then show ?thesis using same_facts [of db' db] assms(1)
    by (intro good_stmt) (simp_all add: server_inv_def assms(2))
qed

lemma good_renew: "renew_tx E d token csrf p db = Inr (x, db') \<Longrightarrow> good db db'"
proof (rule good_update_logins)
  assume tx: "renew_tx E d token csrf p db = Inr (x, db')"
  then show "stmt db db'" by (rule renew_stmt)
  from tx show "db' = db\<lparr>logins := update_where (renewable db (pr_login p) (hash_hex E token) (hash_hex E csrf) (t_now d))
      (\<lambda>s. s\<lparr>lg_expires := t_later d + login_hours * 3600 * srv_second\<rparr>) (logins db), server_events := server_events db\<rparr>"
    by (auto simp: renew_tx_def tx_simps split: if_splits)
qed simp_all

lemma good_logout: "server_logout_tx d p db = Inr (x, db') \<Longrightarrow> good db db'"
proof -
  assume tx: "server_logout_tx d p db = Inr (x, db')"
  then obtain e where "db' = db\<lparr>logins := update_where (\<lambda>s. lg_id s = pr_login p) (\<lambda>s. s\<lparr>lg_revoked := Some (t_now d)\<rparr>) (logins db),
      server_events := e\<rparr>"
    by (auto simp: server_logout_tx_def revoke_logins_def tx_simps dest!: event_rows)
  then show "good db db'" by (rule good_update_logins [OF server_logout_stmt [OF tx]]) simp_all
qed

lemma good_revoke_session: "revoke_session_tx d k p db = Inr (x, db') \<Longrightarrow> good db db'"
proof -
  assume tx: "revoke_session_tx d k p db = Inr (x, db')"
  then obtain e where "db' = db\<lparr>logins := update_where (\<lambda>s. lg_id s = k \<and> lg_user s = pr_user p \<and> lg_revoked s = None)
      (\<lambda>s. s\<lparr>lg_revoked := Some (t_now d)\<rparr>) (logins db), server_events := e\<rparr>"
    by (auto simp: revoke_session_tx_def revoke_logins_def tx_simps split: if_splits dest!: event_rows)
  then show "good db db'" by (rule good_update_logins [OF revoke_session_stmt [OF tx]]) simp_all
qed

lemma update_where_Nil [simp]: "update_where p f [] = []"
  by (simp add: update_where_def)

lemma update_where_Cons [simp]: "update_where p f (x # xs) = (if p x then f x else x) # update_where p f xs"
  by (simp add: update_where_def)

text \<open>Revoking accounts keeps who they are.\<close>

lemma owner_accounts_ids:
  assumes "map usr_id us = map usr_id (peers db)"
  shows "owner_ok (db\<lparr>peers := us\<rparr>) = owner_ok db" and "accounts_ok (db\<lparr>peers := us\<rparr>) = accounts_ok db"
proof -
  show "owner_ok (db\<lparr>peers := us\<rparr>) = owner_ok db"
    using assms by (cases us; cases "peers db") (auto simp: owner_ok_def server_setting_def)
  have "map (\<lambda>u. Some (usr_id u)) (tl us) = map Some (map usr_id (tl us))" for us :: "peer list" by simp
  moreover have "map usr_id (tl us) = map usr_id (tl (peers db))" using assms by (metis map_tl)
  ultimately have "map (\<lambda>u. Some (usr_id u)) (tl us) = map (\<lambda>u. Some (usr_id u)) (tl (peers db))" by metis
  then show "accounts_ok (db\<lparr>peers := us\<rparr>) = accounts_ok db" by (simp add: accounts_ok_def)
qed

lemma good_revoke_peer: "revoke_peer_tx d k p db = Inr (x, db') \<Longrightarrow> good db db'"
proof -
  assume tx: "revoke_peer_tx d k p db = Inr (x, db')"
  define us where "us = update_where (\<lambda>u. usr_id u = k \<and> usr_revoked u = None) (\<lambda>u. u\<lparr>usr_revoked := Some (t_now d)\<rparr>) (peers db)"
  define ss where "ss = update_where (\<lambda>s. lg_user s = k \<and> lg_revoked s = None) (\<lambda>s. s\<lparr>lg_revoked := Some (t_later d)\<rparr>) (logins db)"
  from tx obtain e where db': "db' = db\<lparr>peers := us, logins := ss, server_events := e\<rparr>"
    by (auto simp: revoke_peer_tx_def revoke_logins_def us_def ss_def tx_simps split: if_splits dest!: event_rows)
  have ids: "map usr_id us = map usr_id (peers db)" unfolding us_def by (rule map_update) simp
  have "access_ok db'" if "access_ok db"
    using that unfolding access_ok_def db' us_def ss_def by (fastforce simp: update_where_def)
  moreover have "owner_ok db' = owner_ok db" "accounts_ok db' = accounts_ok db"
    using owner_accounts_ids [OF ids] by (simp_all add: db' owner_ok_def accounts_ok_def server_setting_def)
  ultimately show ?thesis using same_facts(3,4) [of db' db] revoke_peer_stmt [OF tx]
    by (intro good_stmt) (simp_all add: server_inv_def db')
qed

lemma good_revoke_device: "revoke_device_tx d k p db = Inr (x, db') \<Longrightarrow> good db db'"
proof -
  assume tx: "revoke_device_tx d k p db = Inr (x, db')"
  define vs where "vs = update_where (\<lambda>r. dev_id r = k \<and> dev_user r = pr_user p \<and> dev_revoked r = None)
     (\<lambda>r. r\<lparr>dev_revoked := Some (t_now d)\<rparr>) (devices db)"
  define ss where "ss = update_where (\<lambda>s. lg_device s = Some k) (\<lambda>s. s\<lparr>lg_revoked := Some (t_later d)\<rparr>) (logins db)"
  from tx obtain e where db': "db' = db\<lparr>devices := vs, logins := ss, server_events := e\<rparr>"
    by (auto simp: revoke_device_tx_def revoke_logins_def vs_def ss_def tx_simps split: if_splits dest!: event_rows)
  have "access_ok db'" if "access_ok db"
    using that unfolding access_ok_def db' vs_def ss_def by (fastforce simp: update_where_def)
  then show ?thesis using same_facts(1-4) [of db' db] revoke_device_stmt [OF tx]
    by (intro good_stmt) (simp_all add: server_inv_def db')
qed


lemma refers_Nil [simp]: "refers f rs g [] \<longleftrightarrow> rs = []"
  by (auto simp: refers_def)

lemma no_peers: "schema_ok db \<Longrightarrow> peers db = [] \<Longrightarrow> invites db = [] \<and> devices db = [] \<and> logins db = []"
  by (simp add: schema_ok_def)

lemma issue_session_rows:
  "issue_session E d u dv db = Inr (x, db') \<Longrightarrow>
     \<exists>s. db' = db\<lparr>logins := logins db @ [s]\<rparr> \<and> lg_user s = u \<and> lg_device s = Some dv \<and> lg_revoked s = None"
  by (auto simp: issue_session_def tx_simps dest!: srv_insert_rows)

lemma server_claim_rows:
  assumes "server_claim_tx E d r db = Inr (x, db')"
  obtains kvs v s e where "peers db = []"
    and "db' = db\<lparr>db_settings := kvs, peers := [\<lparr>usr_id = id_a d, usr_name = bt_name r, usr_revoked = None\<rparr>],
      devices := devices db @ [v], server_events := e, logins := logins db @ [s]\<rparr>"
    and "hget kvs ''server_owner_id'' = Some (id_a d)" and "dev_user v = id_a d" and "dev_id v = id_b d"
    and "dev_revoked v = None" and "lg_user s = id_a d" and "lg_device s = Some (id_b d)" and "lg_revoked s = None"
proof -
  let ?v = "\<lparr>dev_id = id_b d, dev_user = id_a d, dev_label = bt_label r, dev_key = bt_key r,
     dev_created = t_now d, dev_revoked = None\<rparr>"
  let ?kvs = "hdel ''bootstrap_hash'' (hput ''server_owner_id'' (id_a d) (db_settings db))"
  from assms obtain db1 db2 db3 db4 where none: "peers db = []"
    and s1: "insert_peer \<lparr>usr_id = id_a d, usr_name = bt_name r, usr_revoked = None\<rparr> db = Inr db1"
    and s2: "insert_setting ''server_owner_id'' (id_a d) db1 = Inr db2"
    and s3: "insert_device ?v db2 = Inr db3"
    and s4: "record_event d (id_a d) ''server.claim'' ''server'' None (drop_setting ''bootstrap_hash'' db3) = Inr db4"
    and s5: "issue_session E d (id_a d) (id_b d) db4 = Inr (x, db')"
    by (auto simp: server_claim_tx_def tx_simps split: if_splits)
  from event_rows [OF s4] issue_session_rows [OF s5] obtain e s where
    db4: "db4 = (drop_setting ''bootstrap_hash'' db3)\<lparr>server_events := e\<rparr>" "db' = db4\<lparr>logins := logins db4 @ [s]\<rparr>"
    and s: "lg_user s = id_a d" "lg_device s = Some (id_b d)" "lg_revoked s = None"
    by metis
  have db': "db' = db\<lparr>db_settings := ?kvs, peers := [\<lparr>usr_id = id_a d, usr_name = bt_name r, usr_revoked = None\<rparr>],
      devices := devices db @ [?v], server_events := e, logins := logins db @ [s]\<rparr>"
    using srv_insert_rows(1) [OF s1] srv_insert_rows(2) [OF s2] srv_insert_rows(3) [OF s3] none
    by (simp add: db4 drop_setting_def)
  have "hget ?kvs ''server_owner_id'' = Some (id_a d)" by (simp add: hmap_simps)
  from that [OF none db' this] s show thesis by simp
qed

lemma good_claim: "server_claim_tx E d r db = Inr (x, db') \<Longrightarrow> good db db'"
proof -
  assume tx: "server_claim_tx E d r db = Inr (x, db')"
  from tx show ?thesis
  proof (cases rule: server_claim_rows)
    case (1 kvs v s e)
    show ?thesis
    proof (rule good_stmt [OF server_claim_stmt [OF tx]])
      assume inv: "server_inv db"
      then have "schema_ok db" by (simp add: server_inv_def)
      note none = no_peers [OF this 1(1)]
      show "owner_ok db'" using 1 by (simp add: owner_ok_def server_setting_def)
      show "accounts_ok db'" using none by (simp add: 1(2) accounts_ok_def redeemed_def)
      show "access_ok db'" using none 1(4-) by (simp add: 1(2) access_ok_def)
      show "roles_ok db'" "pulls_ok db'"
        using inv same_facts(3,4) [of db' db] by (simp_all add: server_inv_def 1(2))
    qed
  qed
qed

lemma redeemed_update:
  assumes "\<And>i. P i \<Longrightarrow> ivt_redeemed i = None"
  shows "mset (map ivt_redeemer (redeemed (update_where P (\<lambda>i. i\<lparr>ivt_redeemed := Some t, ivt_redeemer := Some u\<rparr>) xs)))
     = replicate_mset (length (filter P xs)) (Some u) + mset (map ivt_redeemer (redeemed xs))"
  using assms by (induction xs) (auto simp: redeemed_def)

lemma redeem_rows:
  assumes "redeem_tx E d r db = Inr (x, db')"
  obtains i m v s e where "i \<in> set (invites db)" and "ivt_token_hash i = hash_hex E (bt_token r)"
    and "ivt_redeemed i = None" and "t_auth d < ivt_expires i"
    and "length (filter (\<lambda>j. ivt_id j = ivt_id i \<and> ivt_redeemed j = None) (invites db)) = 1"
    and "\<not> has usr_id (id_a d) (peers db)" and "\<not> has dev_id (id_b d) (devices db)"
    and "db' = db\<lparr>peers := peers db @ [\<lparr>usr_id = id_a d, usr_name = bt_name r, usr_revoked = None\<rparr>],
      devices := devices db @ [v], members := members db @ m,
      invites := update_where (\<lambda>j. ivt_id j = ivt_id i \<and> ivt_redeemed j = None)
        (\<lambda>i. i\<lparr>ivt_redeemed := Some (t_now d), ivt_redeemer := Some (id_a d)\<rparr>) (invites db),
      server_events := e, logins := logins db @ [s]\<rparr>"
    and "m = (case ivt_space i of None \<Rightarrow> [] | Some ws \<Rightarrow> [\<lparr>mbr_space = ws, mbr_user = id_a d, mbr_role = ivt_role i\<rparr>])"
    and "dev_user v = id_a d" and "dev_id v = id_b d" and "dev_revoked v = None"
    and "lg_user s = id_a d" and "lg_device s = Some (id_b d)" and "lg_revoked s = None"
proof -
  from assms obtain i db1 db2 db3 db4 where
    i: "i \<in> set (invites db)" "ivt_token_hash i = hash_hex E (bt_token r)" "ivt_redeemed i = None" "t_auth d < ivt_expires i"
    and s1: "insert_peer \<lparr>usr_id = id_a d, usr_name = bt_name r, usr_revoked = None\<rparr> db = Inr db1"
    and s2: "insert_device \<lparr>dev_id = id_b d, dev_user = id_a d, dev_label = bt_label r,
        dev_key = bt_key r, dev_created = t_now d, dev_revoked = None\<rparr> db1 = Inr db2"
    and s3: "(case ivt_space i of None \<Rightarrow> Inr db2
        | Some ws \<Rightarrow> insert_member \<lparr>mbr_space = ws, mbr_user = id_a d, mbr_role = ivt_role i\<rparr> db2) = Inr db3"
    and n: "length (filter (\<lambda>j. ivt_id j = ivt_id i \<and> ivt_redeemed j = None) (invites db3)) = 1"
    and s4: "record_event d (id_a d) ''invite.redeem'' ''invite'' (Some (ivt_id i))
            (mark_redeemed (ivt_id i) (t_now d) (id_a d) db3) = Inr db4"
    and s5: "issue_session E d (id_a d) (id_b d) db4 = Inr (x, db')"
    by (auto simp: redeem_tx_def tx_simps not_le split: if_splits option.splits dest!: find_SomeD)
  let ?m = "case ivt_space i of None \<Rightarrow> [] | Some ws \<Rightarrow> [\<lparr>mbr_space = ws, mbr_user = id_a d, mbr_role = ivt_role i\<rparr>]"
  note r1 = srv_insert_rows(1) [OF s1] and r2 = srv_insert_rows(3) [OF s2]
  have r3: "db3 = db2\<lparr>members := members db2 @ ?m\<rparr>"
    using s3 by (auto split: option.splits dest!: srv_insert_rows)
  from event_rows [OF s4] issue_session_rows [OF s5] obtain e s where
    db': "db4 = (mark_redeemed (ivt_id i) (t_now d) (id_a d) db3)\<lparr>server_events := e\<rparr>"
      "db' = db4\<lparr>logins := logins db4 @ [s]\<rparr>" "lg_user s = id_a d" "lg_device s = Some (id_b d)" "lg_revoked s = None"
    by metis
  show thesis
    by (rule that [where i = i and m = ?m and e = e and s = s
          and v = "\<lparr>dev_id = id_b d, dev_user = id_a d, dev_label = bt_label r, dev_key = bt_key r,
            dev_created = t_now d, dev_revoked = None\<rparr>"])
      (use i n r1 r2 db' in \<open>simp_all add: r3 mark_redeemed_def\<close>)
qed

lemma good_redeem: "redeem_tx E d r db = Inr (x, db') \<Longrightarrow> good db db'"
proof -
  assume tx: "redeem_tx E d r db = Inr (x, db')"
  from tx show ?thesis
  proof (cases rule: redeem_rows)
    case (1 i m v s e)
    show ?thesis
    proof (rule good_stmt [OF redeem_stmt [OF tx]])
      assume inv: "server_inv db"
      then have sch: "schema_ok db" by (simp add: server_inv_def)
      with 1(1) have ne: "peers db \<noteq> []" by (auto dest: no_peers)
      then obtain w us where us: "peers db = w # us" by (cases "peers db") auto
      from inv show "owner_ok db'" by (simp add: server_inv_def 1(8) owner_ok_def server_setting_def us)
      have "accounts_ok db" using inv by (simp add: server_inv_def)
      then show "accounts_ok db'"
        unfolding accounts_ok_def 1(8) using redeemed_update [of "\<lambda>j. ivt_id j = ivt_id i \<and> ivt_redeemed j = None"] 1(5)
        by (simp add: us)
      have "list_all (\<lambda>i. valid_role (ivt_role i)) (update_where P (\<lambda>i. i\<lparr>ivt_redeemed := t, ivt_redeemer := u\<rparr>) xs)
          = list_all (\<lambda>i. valid_role (ivt_role i)) xs" for P t u and xs :: "invite list"
        by (rule list_all_update) simp
      moreover have "list_all (\<lambda>m. valid_role (mbr_role m)) m"
        using inv 1(1) by (auto simp: 1(9) server_inv_def roles_ok_def list_all_iff split: option.splits)
      ultimately show "roles_ok db'" using inv unfolding server_inv_def roles_ok_def 1(8) by simp
      from inv show "pulls_ok db'" using same_facts(4) [of db' db] by (simp add: server_inv_def 1(8))
      have "lg_user x \<in> usr_id ` set (peers db)" "refers_opt lg_device (logins db) dev_id (devices db)"
        if "x \<in> set (logins db)" for x
        using sch that by (auto simp: schema_ok_def refers_def)
      then have old: "lg_user x \<noteq> id_a d" "lg_device x \<noteq> Some (id_b d)" if "x \<in> set (logins db)" for x
        using that 1(6,7) by (fastforce simp: refers_opt_def list_ex_iff)+
      show "access_ok db'"
        using inv old 1(6,7,10-) by (auto simp: server_inv_def access_ok_def 1(8) list_ex_iff)
    qed
  qed
qed


section \<open>The machine\<close>

text \<open>
  The transactions, with the arguments the handlers give them.  A request runs at most one of them
  (\<open>Server_Authority.request_is_one_transaction\<close>), so every interleaving of requests is a sequence
  of them.  The principal, the confinement and the repository head are arbitrary: the handlers have
  read them earlier, under another acquisition of the lock.
\<close>

datatype server_tx =
    TClaim fresh bootstrap_request
  | TRedeem fresh bootstrap_request
  | TInvite fresh invite_request int string
  | TRenew fresh string string principal
  | TLogout fresh principal
  | TRevokeSession fresh string principal
  | TRevokePeer fresh string principal
  | TRevokeDevice fresh string principal
  | TCreateKey fresh key_request string instant "string option \<times> string option" principal
  | TRevokeKey fresh string principal
  | TUseKey fresh string credential_type credential_scope string
  | TCreateSpace fresh string string principal
  | TUpdateSpace fresh string string string principal
  | TCreateProject fresh project_request string principal
  | TUpdateProject fresh string project_request principal
  | TPull fresh string pull_input string
  | TDeployment fresh string string string string
  | TRun fresh string run_input string string
  | TSchedule fresh string schedule_input string
  | TSecret fresh string string string

definition commit :: "(server_db \<Rightarrow> server_error + ('a \<times> server_db)) \<Rightarrow> server_db \<Rightarrow> (server_error + unit) \<times> server_db" where
  "commit body db = (case body db of Inl e \<Rightarrow> (Inl e, db) | Inr (_, db') \<Rightarrow> (Inr (), db'))"

definition server_step ::
  "('g, 'tz, 'cron) server_env \<Rightarrow> server_db \<Rightarrow> server_tx \<Rightarrow> (server_error + unit) \<times> server_db" where
  "server_step E db tx = (case tx of
      TClaim d r \<Rightarrow> commit (server_claim_tx E d r) db
    | TRedeem d r \<Rightarrow> commit (redeem_tx E d r) db
    | TInvite d r n u \<Rightarrow> commit (\<lambda>db. andThen (validate_role (iv_role r)) (create_invite_tx E d r n u db)) db
    | TRenew d tk csrf p \<Rightarrow> commit (renew_tx E d tk csrf p) db
    | TLogout d p \<Rightarrow> commit (server_logout_tx d p) db
    | TRevokeSession d k p \<Rightarrow> commit (revoke_session_tx d k p) db
    | TRevokePeer d k p \<Rightarrow> commit (revoke_peer_tx d k p) db
    | TRevokeDevice d k p \<Rightarrow> commit (revoke_device_tx d k p) db
    | TCreateKey d r tk ex cf p \<Rightarrow> commit (create_key_tx E d r tk ex cf p) db
    | TRevokeKey d k p \<Rightarrow> commit (revoke_key_tx d k p) db
    | TUseKey d tk ty sc pub \<Rightarrow> commit (use_key E d tk ty sc pub) db
    | TCreateSpace d slug name p \<Rightarrow> commit (create_space_tx d slug name p) db
    | TUpdateSpace d k slug name p \<Rightarrow> commit (update_space_tx d k slug name p) db
    | TCreateProject d r sha p \<Rightarrow> commit (create_project_tx d r sha p) db
    | TUpdateProject d k r p \<Rightarrow> commit (update_project_tx d k r p) db
    | TPull d k i u \<Rightarrow> commit (create_pull_tx d k i u) db
    | TDeployment d k sha env u \<Rightarrow> commit (create_deployment_tx d k sha env u) db
    | TRun d k i sha u \<Rightarrow> commit (create_run_tx d k i sha u) db
    | TSchedule d k i u \<Rightarrow> commit (create_schedule_tx d k i u) db
    | TSecret d k n u \<Rightarrow> commit (create_secret_tx d k n u) db)"

lemma srv_good_commit: "(\<And>x db'. body db = Inr (x, db') \<Longrightarrow> good db db') \<Longrightarrow> good db (snd (commit body db))"
  by (auto simp: commit_def split: sum.splits prod.splits)

lemma good_invite:
  "andThen (validate_role (iv_role r)) (create_invite_tx E d r n u db) = Inr (x, db') \<Longrightarrow> good db db'"
  by (auto simp: rbind_Inr_iff valid_role_def intro: good_create_invite)

lemmas good_core_tx = good_core [OF create_key_stmt key_tx_core(1)] good_core [OF revoke_key_tx_stmt key_tx_core(2)]
  good_core [OF use_key_stmt key_tx_core(3)] good_core [OF update_space_stmt project_tx_core(1)]
  good_core [OF create_project_stmt project_tx_core(2)] good_core [OF update_project_stmt project_tx_core(3)]
  good_core [OF create_row_stmt(2) row_tx_core(1)] good_core [OF create_row_stmt(3) row_tx_core(2)]
  good_core [OF create_row_stmt(4) row_tx_core(3)] good_core [OF create_row_stmt(5) row_tx_core(4)]

lemmas srv_good_tx = good_claim good_redeem good_invite good_renew good_logout good_revoke_session
  good_revoke_peer good_revoke_device good_create_space good_create_pull good_core_tx

lemma server_step_good: "good db (snd (server_step E db tx))"
  by (cases tx) (simp_all only: server_step_def server_tx.case, (rule srv_good_commit, rule srv_good_tx; assumption)+)

text \<open>What \<open>migrate\<close> and \<open>ensure_bootstrap\<close> leave: settings without an owner and no rows.\<close>

definition server_start :: "(string \<times> string) list \<Rightarrow> server_db" where
  "server_start kvs = empty_server_db\<lparr>db_settings := hdel ''server_owner_id'' kvs\<rparr>"

lemma server_start_inv: "server_inv (server_start kvs)"
  by (simp add: server_start_def empty_server_db_def server_inv_def schema_ok_def db_simps owner_ok_def
      server_setting_def hmap_simps accounts_ok_def redeemed_def roles_ok_def pulls_ok_def numbered_def
      pull_numbers_def access_ok_def)

interpretation server: growing_machine "server_step E" "server_start kvs" server_inv srv_below
  for E kvs
proof unfold_locales
  show "server_inv (server_start kvs)" by (rule server_start_inv)
  show "server_inv (snd (server_step E db tx))" if "server_inv db" for db tx
    using server_step_good [of db E tx] that by (simp add: good_def)
  show "srv_below db db" for db by simp
  show "srv_below a c" if "srv_below a b" "srv_below b c" for a b c
    using that by (rule srv_below_trans)
  show "srv_below db (snd (server_step E db tx))" if "server_inv db" for db tx
    using server_step_good [of db E tx] that by (simp add: good_def)
qed

end
