(* ===== verification/Server_Authority.thy ===== *)
theory Server_Authority
  imports Server_History
begin

text \<open>
  What the requests to the control plane may do: each runs at most one transaction, changes the
  database only with the proofs its route asks for, and leaves it alone when it is refused; access
  that was revoked stays revoked, an invitation admits one account, and a confined credential sees
  what it is confined to.
\<close>

section \<open>Every request is at most one transaction\<close>

definition one_tx :: "('g, 'tz, 'cron) server_env \<Rightarrow> ('g server_state \<Rightarrow> 'a \<times> 'g server_state) \<Rightarrow> bool" where
  "one_tx E m \<longleftrightarrow> (\<forall>st. \<exists>txs. length txs \<le> 1 \<and> sdb (snd (m st)) = run_steps (server_step E) (sdb st) txs)"

definition reads_only :: "('g server_state \<Rightarrow> 'a \<times> 'g server_state) \<Rightarrow> bool" where
  "reads_only m \<longleftrightarrow> (\<forall>st. sdb (snd (m st)) = sdb st)"

named_theorems one_tx_intros

lemma reads_one: "reads_only m \<Longrightarrow> one_tx E m"
  by (auto simp: reads_only_def one_tx_def intro!: exI [of _ "[]"])

lemma one_step:
  assumes "\<And>st. sdb (snd (m st)) = sdb st \<or> sdb (snd (m st)) = snd (server_step E (sdb st) tx)"
  shows "one_tx E m"
  unfolding one_tx_def
proof
  fix st
  from assms [of st] show "\<exists>txs. length txs \<le> 1 \<and> sdb (snd (m st)) = run_steps (server_step E) (sdb st) txs"
    by (auto intro: exI [of _ "[]"] exI [of _ "[tx]"])
qed

lemma transact_sdb:
  "sdb (snd (transact body st)) = (if lock_poisoned st then sdb st else snd (commit body (sdb st)))"
  by (auto simp: transact_def locked_def commit_def split: sum.splits prod.splits)

lemma transact_one: "(\<And>db. snd (commit body db) = snd (server_step E db tx)) \<Longrightarrow> one_tx E (transact body)"
  by (rule one_step [of _ _ tx]) (simp add: transact_sdb)

lemma snd_reply [simp]: "snd (reply_with k rs) = snd rs"
  by (auto simp: reply_with_def split: prod.splits sum.splits)

lemma one_reply [one_tx_intros]: "one_tx E m \<Longrightarrow> one_tx E (\<lambda>st. reply_with k (m st))"
  by (simp add: one_tx_def)

lemma reads_reply: "reads_only m \<Longrightarrow> reads_only (\<lambda>st. reply_with k (m st))"
  by (simp add: reads_only_def)

lemma reads_check: "reads_only (st_check f)"
  by (simp add: reads_only_def st_check_def)

lemma reads_git: "reads_only (on_git op)"
  by (simp add: reads_only_def on_git_def split: prod.splits)

lemma reads_then: "reads_only m \<Longrightarrow> (\<And>a. reads_only (k a)) \<Longrightarrow> reads_only (st_then m k)"
  by (auto simp: reads_only_def st_then_def split: prod.splits sum.splits) (metis snd_conv)+

lemma st_then_cases:
  "snd (st_then m k st) = (case fst (m st) of Inl e \<Rightarrow> snd (m st) | Inr a \<Rightarrow> snd (k a (snd (m st))))"
  by (auto simp: st_then_def split: prod.splits sum.splits)

lemma one_then: "reads_only m \<Longrightarrow> (\<And>a. one_tx E (k a)) \<Longrightarrow> one_tx E (st_then m k)"
proof -
  assume m: "reads_only m" and k: "\<And>a. one_tx E (k a)"
  have "\<exists>txs. length txs \<le> 1 \<and> sdb (snd (st_then m k st)) = run_steps (server_step E) (sdb st) txs" for st
  proof (cases "fst (m st)")
    case (Inl e)
    with m show ?thesis by (auto simp: st_then_cases reads_only_def intro!: exI [of _ "[]"])
  next
    case (Inr a)
    from k [of a] obtain txs where "length txs \<le> 1"
      "sdb (snd (k a (snd (m st)))) = run_steps (server_step E) (sdb (snd (m st))) txs"
      unfolding one_tx_def by blast
    with m Inr show ?thesis by (auto simp: st_then_cases reads_only_def)
  qed
  then show ?thesis by (simp add: one_tx_def)
qed

lemma one_then_reads: "one_tx E m \<Longrightarrow> (\<And>a. reads_only (k a)) \<Longrightarrow> one_tx E (st_then m k)"
  by (auto simp: one_tx_def reads_only_def st_then_cases split: sum.splits)

lemma reads_branches: "reads_only (opened_branches E k)"
  unfolding opened_branches_def by (intro reads_then reads_git)

lemma reads_revision: "reads_only (validate_revision_exists E k sha)"
  unfolding validate_revision_exists_def by (intro reads_then reads_git reads_check)

lemmas reads_intros = reads_check reads_git reads_then reads_branches reads_revision reads_reply

lemma one_user: "(\<And>p. one_tx E (f p)) \<Longrightarrow> one_tx E (as_user E d hs csrf f)"
  by (auto simp: one_tx_def as_user_def split: sum.splits intro: exI [of _ "[]"])

lemma reads_user: "(\<And>p. reads_only (f p)) \<Longrightarrow> reads_only (as_user E d hs csrf f)"
  by (auto simp: reads_only_def as_user_def split: sum.splits)

lemma one_owner: "(\<And>p. one_tx E (f p)) \<Longrightarrow> one_tx E (as_owner E d hs csrf f)"
  unfolding as_owner_def
  by (rule one_user) (auto simp: one_tx_def split: sum.splits intro: exI [of _ "[]"])

lemma reads_owner: "(\<And>p. reads_only (f p)) \<Longrightarrow> reads_only (as_owner E d hs csrf f)"
  unfolding as_owner_def by (rule reads_user) (auto simp: reads_only_def split: sum.splits)

lemma one_member: "(\<And>p. one_tx E (f p)) \<Longrightarrow> one_tx E (as_member E d hs k r csrf f)"
  by (auto simp: one_tx_def as_member_def split: sum.splits intro: exI [of _ "[]"])

lemma reads_member: "(\<And>p. reads_only (f p)) \<Longrightarrow> reads_only (as_member E d hs k r csrf f)"
  by (auto simp: reads_only_def as_member_def split: sum.splits)

text \<open>The transactions of the handlers.\<close>

lemma step_commit:
  "snd (commit (server_claim_tx E d r) db) = snd (server_step E db (TClaim d r))"
  "snd (commit (redeem_tx E d r) db) = snd (server_step E db (TRedeem d r))"
  "snd (commit (renew_tx E d tk csrf p) db) = snd (server_step E db (TRenew d tk csrf p))"
  "snd (commit (server_logout_tx d p) db) = snd (server_step E db (TLogout d p))"
  "snd (commit (revoke_session_tx d k p) db) = snd (server_step E db (TRevokeSession d k p))"
  "snd (commit (revoke_peer_tx d k p) db) = snd (server_step E db (TRevokePeer d k p))"
  "snd (commit (revoke_device_tx d k p) db) = snd (server_step E db (TRevokeDevice d k p))"
  "snd (commit (create_key_tx E d kr tk ex cf p) db) = snd (server_step E db (TCreateKey d kr tk ex cf p))"
  "snd (commit (revoke_key_tx d k p) db) = snd (server_step E db (TRevokeKey d k p))"
  "snd (commit (use_key E d tk ty sc pub) db) = snd (server_step E db (TUseKey d tk ty sc pub))"
  "snd (commit (create_space_tx d slug name p) db) = snd (server_step E db (TCreateSpace d slug name p))"
  "snd (commit (update_space_tx d k slug name p) db) = snd (server_step E db (TUpdateSpace d k slug name p))"
  "snd (commit (create_project_tx d pq sha p) db) = snd (server_step E db (TCreateProject d pq sha p))"
  "snd (commit (update_project_tx d k pq p) db) = snd (server_step E db (TUpdateProject d k pq p))"
  "snd (commit (create_pull_tx d k pin u) db) = snd (server_step E db (TPull d k pin u))"
  "snd (commit (create_deployment_tx d k sha env u) db) = snd (server_step E db (TDeployment d k sha env u))"
  "snd (commit (create_run_tx d k rin sha u) db) = snd (server_step E db (TRun d k rin sha u))"
  "snd (commit (create_schedule_tx d k sinp u) db) = snd (server_step E db (TSchedule d k sinp u))"
  "snd (commit (create_secret_tx d k nm u) db) = snd (server_step E db (TSecret d k nm u))"
  by (simp_all add: server_step_def)

lemmas one_transactions = step_commit [THEN transact_one]

lemma one_if: "one_tx E f \<Longrightarrow> one_tx E (\<lambda>st. if c st then (g st, st) else f st)"
  by (auto simp: one_tx_def intro: exI [of _ "[]"])

lemma one_refuse: "one_tx E f \<Longrightarrow> one_tx E (\<lambda>st. case c st of Inl e \<Rightarrow> (g e, st) | Inr x \<Rightarrow> f st)"
  by (auto simp: one_tx_def split: sum.splits intro: exI [of _ "[]"])

lemma one_answer: "one_tx E m \<Longrightarrow> (\<And>st. sdb (snd (f st)) = sdb (snd (m st))) \<Longrightarrow> one_tx E f"
  by (simp add: one_tx_def)

lemma session_reply_sdb [simp]: "sdb (snd (session_reply E u name issued st)) = sdb st"
  by (auto simp: session_reply_def split: prod.splits sum.splits)

lemma one_claim: "one_tx E (server_claim E d r)"
  unfolding server_claim_def
  by (rule one_refuse, rule one_answer [OF one_transactions(1) [of E d r]]) (auto split: prod.splits sum.splits)

lemma one_redeem: "one_tx E (redeem_invite E d r)"
  unfolding redeem_invite_def
  by (rule one_refuse, rule one_answer [OF one_transactions(2) [of E d r]]) (auto split: prod.splits sum.splits)

lemma one_invite: "one_tx E (create_invite_as E d r p)"
proof (cases "valid_role (iv_role r)")
  case True
  then have "snd (commit (create_invite_tx E d r n u) db) = snd (server_step E db (TInvite d r n u))" for n u db
    by (simp add: server_step_def valid_role_def commit_def)
  from transact_one [OF this] show ?thesis
    unfolding create_invite_as_def Let_def by (intro one_refuse one_tx_intros)
next
  case False
  then have "\<exists>e. validate_role (iv_role r) = Inl e"
    by (cases "validate_role (iv_role r)") (auto simp: valid_role_def)
  then show ?thesis by (auto simp: one_tx_def create_invite_as_def intro: exI [of _ "[]"])
qed

lemma one_renew: "one_tx E (renew_session_as E d tk csrf p)"
  unfolding renew_session_as_def
  by (rule one_if, rule one_answer [OF one_transactions(3) [of E d tk csrf p]]) (auto split: prod.splits sum.splits)

lemma one_session_get: "one_tx E (session_get E d hs)"
proof (cases "rbind (ok_or Unauthenticated (srv_cookie E hs ''c6_session'')) (\<lambda>token.
    rbind (ok_or Unauthenticated (srv_cookie E hs ''c6_csrf'')) (\<lambda>csrf. Inr (token, csrf))) :: server_error + string \<times> string")
  case (Inl e)
  then show ?thesis by (auto simp: one_tx_def session_get_def intro: exI [of _ "[]"])
next
  case (Inr x)
  then have "session_get E d hs = as_user E d hs False (renew_session_as E d (fst x) (snd x))"
    by (simp add: session_get_def fun_eq_iff split: prod.split)
  then show ?thesis by (simp add: one_user one_renew)
qed

lemma one_logout: "one_tx E (server_logout_as E d p)"
  unfolding server_logout_as_def
  by (rule one_answer [OF one_transactions(4) [of _ d p]]) (auto split: prod.splits sum.splits)

lemma one_opaque: "one_tx E (authenticate_opaque_token E d token ty sc)"
  unfolding authenticate_opaque_token_def
  by (cases "parse_opaque_token E token ty") (auto intro: one_transactions reads_one simp: reads_only_def)

lemma one_bearer: "one_tx E (authenticate_bearer E d hs sc)"
proof -
  have "one_tx E (\<lambda>st. case c of Inl e \<Rightarrow> (Inl e, st) | Inr token \<Rightarrow> authenticate_opaque_token E d token Cli sc st)" for c
    by (cases c) (auto intro: one_opaque reads_one simp: reads_only_def)
  then show ?thesis unfolding authenticate_bearer_def .
qed

lemma reads_as: "(\<And>st. snd (f st) = st) \<Longrightarrow> reads_only f"
  by (simp add: reads_only_def)

lemma reads_project: "reads_only (get_project_as k p)"
  by (rule reads_as) (simp add: get_project_as_def)

lemma one_credential: "one_tx E (create_credential_as E d r p)"
proof -
  have "\<exists>txs. length txs \<le> 1 \<and> sdb (snd (create_credential_as E d r p st)) = run_steps (server_step E) (sdb st) txs" for st
    using one_transactions(8) [of E d r]
    by (auto simp: create_credential_as_def one_tx_def Let_def split: sum.splits intro: exI [of _ "[]"])
  then show ?thesis by (simp add: one_tx_def)
qed

lemma one_list_projects: "one_tx E (list_projects E d hs)"
proof -
  have "one_tx E (\<lambda>st. case authenticate_bearer E d hs ApiRead st of (Inl e, st) \<Rightarrow> (Inl (Refuse e), st)
      | (Inr p, st) \<Rightarrow> (projects_reply E (tp_user p) (tp_space p) (tp_project p) st, st))"
    by (rule one_answer [OF one_bearer [of E d hs ApiRead]]) (auto split: prod.splits sum.splits)
  moreover have "one_tx E (as_user E d hs False (\<lambda>p st. (projects_reply E (pr_user p) None None st, st)))"
    by (intro one_user reads_one reads_as) simp
  ultimately show ?thesis by (auto simp: one_tx_def list_projects_def)
qed

lemma one_remote: "one_tx E (project_remote E d hs k)"
proof -
  have "one_tx E (\<lambda>st. case authenticate_bearer E d hs ApiRead st of (Inl e, st) \<Rightarrow> (Inl (Refuse e), st)
      | (Inr p, st) \<Rightarrow> (remote_reply E k (tp_user p) (tp_space p) (tp_project p) st, st))"
    by (rule one_answer [OF one_bearer [of E d hs ApiRead]]) (auto split: prod.splits sum.splits)
  moreover have "one_tx E (as_user E d hs False (\<lambda>p st. (remote_reply E k (pr_user p) None None st, st)))"
    by (intro one_user reads_one reads_as) simp
  ultimately show ?thesis by (auto simp: one_tx_def project_remote_def)
qed

lemma one_whoami: "one_tx E (cli_whoami E d hs)"
  unfolding cli_whoami_def
  by (rule one_answer [OF one_bearer [of E d hs ApiRead]]) (auto split: prod.splits sum.splits)

lemma cleanup_sdb: "sdb (snd (cleanup_new_repository E k c st)) = sdb st"
  by (auto simp: cleanup_new_repository_def split: sum.splits prod.splits)

lemma on_git_sdb: "on_git op st = (x, st') \<Longrightarrow> sdb st' = sdb st \<and> lock_poisoned st' = lock_poisoned st"
  by (auto simp: on_git_def split: prod.splits)

lemma one_txD:
  "one_tx E m \<Longrightarrow> m st = (x, st') \<Longrightarrow> \<exists>txs. length txs \<le> 1 \<and> sdb st' = run_steps (server_step E) (sdb st) txs"
  unfolding one_tx_def by (metis snd_conv)

lemma no_tx: "\<exists>txs :: server_tx list. length txs \<le> Suc 0 \<and> db = run_steps (server_step E) db txs"
  by (rule exI [of _ "[]"]) simp

lemma one_create_project: "one_tx E (create_project_as E d r p)"
proof -
  have created: "\<exists>txs. length txs \<le> Suc 0 \<and> sdb st' = run_steps (server_step E) (sdb st) txs"
    if "transact (create_project_tx d r h p) st = (x, st')" for h x and st st' :: "'a server_state"
    using one_txD [OF one_transactions(13) [of E] that] by simp
  show ?thesis
    unfolding one_tx_def create_project_as_def
    by (auto simp: cleanup_sdb split: sum.splits prod.splits intro: no_tx dest!: on_git_sdb created)
qed

lemma one_update_project: "one_tx E (update_project_as E d hs k r p)"
proof -
  let ?body = "st_then (opened_branches E k) (\<lambda>bs.
     st_then (st_check (\<lambda>_. fail_if (\<not> list_ex (\<lambda>b. branch_name b = pq_branch r) bs)
        (BadRequest ''defaultBranch does not exist''))) (\<lambda>_. transact (update_project_tx d k r p)))"
  have body: "one_tx E ?body"
    by (intro one_then reads_branches reads_check one_transactions)
  have "reads_only (as_user E d hs False (get_project_as k))"
    by (rule reads_user) (rule reads_project)
  then have again: "sdb (snd (as_user E d hs False (get_project_as k) st)) = sdb st" for st
    by (simp add: reads_only_def)
  have "one_tx E (\<lambda>st. case ?body st of (Inl e, st) \<Rightarrow> (Inl (Refuse e), st)
     | (Inr _, st) \<Rightarrow> as_user E d hs False (get_project_as k) st)"
    by (rule one_answer [OF body]) (auto simp: again split: prod.splits sum.splits)
  then show ?thesis unfolding update_project_as_def by (rule one_refuse)
qed

lemma one_space: "one_tx E (server_create_workspace_as d slug name p)"
proof (cases "andThen (validate_slug_text slug) (nonempty ''name'' name 120)")
  case (Inl e)
  then show ?thesis by (auto simp: one_tx_def server_create_workspace_as_def intro: no_tx)
next
  case (Inr u)
  then show ?thesis using one_transactions(11) [of E d slug name p]
    by (simp add: one_tx_def server_create_workspace_as_def)
qed

lemma one_update_space: "one_tx E (update_workspace_as d k slug name p)"
  using one_transactions(12) [of E d k slug name p]
  by (auto simp: one_tx_def update_workspace_as_def split: sum.splits intro: no_tx)

lemma one_pull: "one_tx E (create_pull_as E d k i p)"
  unfolding create_pull_as_def
  by (intro one_tx_intros one_then reads_intros one_transactions)

lemma one_deployment: "one_tx E (create_deployment_as E d k sha env p)"
  unfolding create_deployment_as_def
  by (intro one_tx_intros one_then reads_intros one_transactions)

lemma one_run: "one_tx E (create_run_as E d k i p)"
  unfolding create_run_as_def
  by (intro one_tx_intros one_then reads_intros one_transactions)

lemma one_schedule: "one_tx E (create_schedule_as E d k i p)"
  unfolding create_schedule_as_def
  by (intro one_tx_intros one_then one_then_reads reads_intros one_transactions)

lemma one_secret: "one_tx E (create_secret_as d k n p)"
  unfolding create_secret_as_def
  by (intro one_tx_intros one_then reads_intros one_transactions)

lemma one_revocations:
  "one_tx E (revoke_session_as d k p)" "one_tx E (revoke_peer_as d k p)"
  "one_tx E (revoke_device_as d k p)" "one_tx E (revoke_credential_as d k p)"
  unfolding revoke_session_as_def revoke_peer_as_def revoke_device_as_def revoke_credential_as_def
  by (intro one_tx_intros one_if one_transactions)+

lemma reads_read: "reads_only (repository_read E k op mk p)"
  unfolding repository_read_def by (intro reads_intros)

lemma reads_handlers:
  "reads_only (manifest_as E src p)" "reads_only (list_invites_as p)" "reads_only (list_peers_as p)"
  "reads_only (list_devices_as p)" "reads_only (list_sessions_as p)" "reads_only (list_credentials_as E p)"
  "reads_only (server_workspaces_as p)" "reads_only (delete_workspace_as k p)" "reads_only (delete_project_as k p)"
  "reads_only (get_project_as k p)" "reads_only (project_list rows mk p)" "reads_only (list_audit_as p)"
  by (auto simp: reads_only_def manifest_as_def list_invites_as_def list_peers_as_def list_devices_as_def
      list_sessions_as_def list_credentials_as_def server_workspaces_as_def delete_workspace_as_def
      delete_project_as_def get_project_as_def project_list_def list_audit_as_def split: sum.splits)

lemma reads_listings:
  "reads_only (list_pulls k p)" "reads_only (list_deployments k p)" "reads_only (list_runs k p)"
  "reads_only (list_schedules k p)" "reads_only (list_secrets k p)"
  "reads_only (git_branches E k p)" "reads_only (git_commits E k sha n p)" "reads_only (git_tree E k sha b p)"
  "reads_only (git_file E k sha path p)"
  unfolding list_pulls_def list_deployments_def list_runs_def list_schedules_def list_secrets_def
    git_branches_def git_commits_def git_tree_def git_file_def
  by (rule reads_handlers(11) reads_read)+

lemmas one_handlers = one_claim one_redeem one_invite one_session_get one_logout one_credential one_list_projects
  one_remote one_whoami one_create_project one_update_project one_space one_update_space one_pull one_deployment
  one_run one_schedule one_secret one_revocations

lemma one_dispatch: "one_tx E (dispatch E d hs rq)"
  unfolding dispatch_def
  by (cases rq; simp only: server_request.case; (rule one_user one_owner one_member)?;
      (rule one_handlers | rule reads_one, rule reads_handlers | rule reads_one, rule reads_listings
        | rule reads_one, rule reads_as, simp))

text \<open>The Git endpoints only stamp the credential that opened them.\<close>

lemma one_git_auth: "one_tx E (authenticate_git E d hs)"
proof -
  have "one_tx E (\<lambda>st. case authenticate_opaque_token E d token Git GitRead st of
      (Inl e, st) \<Rightarrow> (Inl (case e of Forbidden _ \<Rightarrow> GitHttpError 403 ''Git access forbidden'' | _ \<Rightarrow> git_unauthenticated), st)
    | (Inr p, st) \<Rightarrow> (Inr p, st))" for token
    by (rule one_answer [OF one_opaque [of E d token Git GitRead]]) (auto split: prod.splits sum.splits)
  then show ?thesis
    by (cases "srv_cookie E hs ''c6_session'' = None"; cases "basic_token E hs")
      (auto simp: one_tx_def authenticate_git_def intro: no_tx)
qed

lemma reads_authorize: "reads_only (authorize_git_project E p ws slug required)"
  by (auto simp: reads_only_def authorize_git_project_def split: sum.splits prod.splits)

lemma one_git_admitted: "one_tx E (git_admitted E d hs ws name)"
  unfolding git_admitted_def
  by (intro one_then_reads one_git_auth reads_intros reads_authorize) (auto intro: reads_check)

definition some_transaction :: "('g, 'tz, 'cron) server_env \<Rightarrow> server_db \<Rightarrow> server_db \<Rightarrow> bool" where
  "some_transaction E db db' \<longleftrightarrow> (\<exists>txs. length txs \<le> 1 \<and> db' = run_steps (server_step E) db txs)"

text \<open>
  C17: every request runs at most one transaction of the machine, whatever its handler reads
  before and after; so the histories of the machine are those of the control plane.
\<close>

theorem request_is_one_transaction:
  "some_transaction E (sdb st) (sdb (snd (respond E d hs rq st)))
   \<and> some_transaction E (sdb st) (sdb (snd (git_info_refs E w d hs ws name query st)))
   \<and> some_transaction E (sdb st) (sdb (snd (git_upload_pack E w d hs ws name query body st)))"
proof (intro conjI)
  show "some_transaction E (sdb st) (sdb (snd (respond E d hs rq st)))"
  proof (cases "same_origin E hs (is_get rq)")
    case (Inl e)
    then show ?thesis by (simp add: respond_def some_transaction_def no_tx)
  next
    case (Inr u)
    then show ?thesis using one_dispatch [of E d hs rq] by (simp add: respond_def one_tx_def some_transaction_def)
  qed
  have "one_tx E (git_info_refs E w d hs ws name query)"
    by (rule one_answer [OF one_git_admitted [of E d hs ws name]])
      (auto simp: git_info_refs_def split: prod.splits sum.splits option.splits)
  then show "some_transaction E (sdb st) (sdb (snd (git_info_refs E w d hs ws name query st)))"
    by (simp add: one_tx_def some_transaction_def)
  have "one_tx E (git_upload_pack E w d hs ws name query body)"
    by (rule one_answer [OF one_git_admitted [of E d hs ws name]])
      (auto simp: git_upload_pack_def split: prod.splits sum.splits option.splits)
  then show "some_transaction E (sdb st) (sdb (snd (git_upload_pack E w d hs ws name query body st)))"
    by (simp add: one_tx_def some_transaction_def)
qed

section \<open>What a change of the database takes\<close>

text \<open>A live session, presented by its cookie without an \<open>Authorization\<close> header.\<close>

definition has_session ::
  "('g, 'tz, 'cron) server_env \<Rightarrow> fresh \<Rightarrow> header_list \<Rightarrow> server_db \<Rightarrow> login \<Rightarrow> bool" where
  "has_session E d hs db s \<longleftrightarrow> map_of hs ''authorization'' = None \<and> s \<in> set (logins db)
     \<and> login_live db (t_auth d) s
     \<and> (\<exists>token. srv_cookie E hs ''c6_session'' = Some token \<and> lg_token_hash s = hash_hex E token)"

text \<open>The CSRF cookie, repeated in the header and known to the session, from the server's origin.\<close>

definition has_proof :: "('g, 'tz, 'cron) server_env \<Rightarrow> header_list \<Rightarrow> login \<Rightarrow> bool" where
  "has_proof E hs s \<longleftrightarrow> (\<exists>c. srv_header E ''x-c6-csrf'' hs = Some c \<and> srv_cookie E hs ''c6_csrf'' = Some c
     \<and> lg_csrf_hash s = hash_hex E c)"

definition from_origin :: "('g, 'tz, 'cron) server_env \<Rightarrow> header_list \<Rightarrow> bool" where
  "from_origin E hs \<longleftrightarrow> (\<exists>v. srv_header E ''origin'' hs = Some v \<and> trim_slashes v = base_url E)"

text \<open>A live API credential with the scope to read, presented as the only \<open>Authorization\<close> header.\<close>

definition has_credential ::
  "('g, 'tz, 'cron) server_env \<Rightarrow> fresh \<Rightarrow> header_list \<Rightarrow> server_db \<Rightarrow> api_key \<Rightarrow> bool" where
  "has_credential E d hs db k \<longleftrightarrow> srv_cookie E hs ''c6_session'' = None \<and> k \<in> set (api_keys db)
     \<and> key_live db (t_auth d) k \<and> key_type k = ''cli''
     \<and> (\<exists>v token scopes. header_values ''authorization'' hs = [v] \<and> header_text E v = Some (''Bearer '' @ token)
          \<and> key_verifier k = hash_hex E token \<and> scopes_of E (key_scopes k) = Some scopes \<and> ApiRead \<in> set scopes)"

definition has_role :: "server_db \<Rightarrow> string \<Rightarrow> string \<Rightarrow> string \<Rightarrow> bool" where
  "has_role db ws u required \<longleftrightarrow> (\<exists>r. member_role db ws u = Some r \<and> role_rank required \<le> role_rank r)"

definition has_project_role :: "server_db \<Rightarrow> string \<Rightarrow> string \<Rightarrow> string \<Rightarrow> bool" where
  "has_project_role db k u required \<longleftrightarrow> (\<exists>p. find_project db k = Some p \<and> has_role db (prj_space p) u required)"

definition is_owner :: "server_db \<Rightarrow> string \<Rightarrow> bool" where
  "is_owner db u \<longleftrightarrow> server_setting db ''server_owner_id'' = Some u"

text \<open>What the account behind a proven browser request must be for each route that changes something.\<close>

definition permitted :: "server_db \<Rightarrow> string \<Rightarrow> server_request \<Rightarrow> bool" where
  "permitted db u rq = (case rq of
      DeleteBrowserSession \<Rightarrow> True
    | PostInvites r \<Rightarrow> is_owner db u
        \<and> (case iv_space r of None \<Rightarrow> True | Some ws \<Rightarrow> has_role db ws u ''owner'')
    | DeletePeer k \<Rightarrow> is_owner db u \<and> k \<noteq> u
    | DeleteDevice k \<Rightarrow> (\<exists>v \<in> set (devices db). dev_id v = k \<and> dev_user v = u)
    | DeleteSessionRow k \<Rightarrow> (\<exists>s \<in> set (logins db). lg_id s = k \<and> lg_user s = u)
    | PostCredentials r \<Rightarrow> True
    | DeleteCredential k \<Rightarrow> (\<exists>c \<in> set (api_keys db). key_id c = k \<and> key_user c = u)
    | PostSpaces slug name \<Rightarrow> is_owner db u
    | PutSpace k slug name \<Rightarrow> has_role db k u ''owner''
    | PostProjects r \<Rightarrow> has_role db (pq_space r) u ''maintainer''
    | PutProject k r \<Rightarrow> has_project_role db k u ''maintainer''
    | PostPulls k i \<Rightarrow> has_project_role db k u ''contributor''
    | PostDeployments k sha env \<Rightarrow> has_project_role db k u ''maintainer''
    | PostRuns k i \<Rightarrow> has_project_role db k u ''runner''
    | PostSchedules k i \<Rightarrow> has_project_role db k u ''maintainer''
    | PostSecrets k n \<Rightarrow> has_project_role db k u ''maintainer''
    | _ \<Rightarrow> False)"

definition server_authorised ::
  "('g, 'tz, 'cron) server_env \<Rightarrow> fresh \<Rightarrow> header_list \<Rightarrow> server_db \<Rightarrow> server_request \<Rightarrow> bool" where
  "server_authorised E d hs db rq = (case rq of
      PostBootstrapClaim r \<Rightarrow> peers db = [] \<and> server_setting db ''bootstrap_hash'' = Some (hash_hex E (bt_token r))
    | PostRedeem r \<Rightarrow> (\<exists>i \<in> set (invites db). ivt_token_hash i = hash_hex E (bt_token r)
        \<and> ivt_redeemed i = None \<and> t_auth d < ivt_expires i)
    | GetBrowserSession \<Rightarrow> (\<exists>s c. has_session E d hs db s \<and> srv_cookie E hs ''c6_csrf'' = Some c
        \<and> lg_csrf_hash s = hash_hex E c)
    | GetWhoAmI \<Rightarrow> (\<exists>k. has_credential E d hs db k)
    | GetProjects \<Rightarrow> (\<exists>k. has_credential E d hs db k)
    | GetRemote _ \<Rightarrow> (\<exists>k. has_credential E d hs db k)
    | _ \<Rightarrow> from_origin E hs \<and> (\<exists>s. has_session E d hs db s \<and> has_proof E hs s \<and> permitted db (lg_user s) rq))"

lemma word8_ord_inject: "(word_of_nat (ord a) :: u8) = word_of_nat (ord b) \<longleftrightarrow> a = b"
proof
  assume "(word_of_nat (ord a) :: u8) = word_of_nat (ord b)"
  then have "unat (word_of_nat (ord a) :: u8) = unat (word_of_nat (ord b) :: u8)" by simp
  then show "a = b" using ord_less_256 [of a] ord_less_256 [of b]
    by (simp add: unat_of_nat take_bit_nat_eq_self)
qed simp

lemma fold_or_eq_0: "fold (\<lambda>(x, y) d. or d (xor x y)) xys d = (0 :: u8) \<longleftrightarrow> d = 0 \<and> (\<forall>(x, y) \<in> set xys. x = y)"
proof (induction xys arbitrary: d)
  case (Cons xy xys)
  have "x = y" if "xor x y = 0" for x y :: u8
  proof -
    from that have "xor (xor x y) y = xor 0 y" by simp
    then show ?thesis by (simp add: xor.assoc)
  qed
  then have "xor x y = 0 \<longleftrightarrow> x = y" for x y :: u8 by auto
  then have "or d (xor x y) = 0 \<longleftrightarrow> d = 0 \<and> x = y" for x y :: u8
    by (simp add: or_eq_0_iff)
  with Cons show ?case by (auto split: prod.splits)
qed simp

lemma secure_eq_iff: "secure_eq a b \<longleftrightarrow> a = b"
proof
  assume eq: "secure_eq a b"
  then have len: "length a = length b" by (simp add: secure_eq_def split: if_splits)
  let ?w = "\<lambda>c. word_of_nat (ord c) :: u8"
  from eq len have "\<forall>(x, y) \<in> set (zip (map ?w a) (map ?w b)). x = y"
    by (simp only: secure_eq_def fold_or_eq_0 if_False simp_thms)
  note same = this
  have "a ! i = b ! i" if "i < length a" for i
  proof -
    have "zip (map ?w a) (map ?w b) ! i \<in> set (zip (map ?w a) (map ?w b))"
      by (rule nth_mem) (simp add: that len [symmetric])
    with same that len have "?w (a ! i) = ?w (b ! i)" by (auto dest!: bspec)
    then show ?thesis by (simp only: word8_ord_inject)
  qed
  with len show "a = b" by (rule nth_equalityI)
next
  assume "a = b"
  moreover have "\<forall>(x, y) \<in> set (zip (map f c) (map f c)). x = y" for f :: "char \<Rightarrow> u8" and c
    by (induction c) auto
  ultimately show "secure_eq a b" by (simp only: secure_eq_def fold_or_eq_0) simp
qed

lemma authenticate_session:
  assumes "authenticate E d hs csrf st = Inr p"
  obtains s where "has_session E d hs (sdb st) s" and "p = principal_of (sdb st) s" and "csrf \<Longrightarrow> has_proof E hs s"
  using assms
  by (auto simp: authenticate_def has_session_def has_proof_def find_login_def locked_def check_proof_def principal_of_def
      tx_simps secure_eq_iff split: if_splits dest!: find_SomeD)

lemma user_changed:
  assumes "sdb (snd (as_user E d hs csrf f st)) \<noteq> sdb st"
  obtains s where "has_session E d hs (sdb st) s" and "csrf \<Longrightarrow> has_proof E hs s"
    and "sdb (snd (f (principal_of (sdb st) s) st)) \<noteq> sdb st"
  using assms by (auto simp: as_user_def split: sum.splits elim!: authenticate_session)

lemma owner_changed:
  assumes "sdb (snd (as_owner E d hs csrf f st)) \<noteq> sdb st"
  obtains s where "has_session E d hs (sdb st) s" and "csrf \<Longrightarrow> has_proof E hs s"
    and "is_owner (sdb st) (lg_user s)" and "sdb (snd (f (principal_of (sdb st) s) st)) \<noteq> sdb st"
  using assms unfolding as_owner_def
  by (auto elim!: user_changed split: sum.splits
      simp: require_global_owner_def locked_def tx_simps is_owner_def principal_of_def split: if_splits)

lemma require_role_iff: "require_role p ws r st = Inr u \<longleftrightarrow> \<not> lock_poisoned st \<and> has_role (sdb st) ws (pr_user p) r"
  by (auto simp: require_role_def locked_def tx_simps require_role_tx_def has_role_def split: option.splits if_splits)

lemma member_changed:
  assumes "sdb (snd (as_member E d hs k r csrf f st)) \<noteq> sdb st"
  obtains s where "has_session E d hs (sdb st) s" and "csrf \<Longrightarrow> has_proof E hs s"
    and "has_project_role (sdb st) k (lg_user s) r"
  using assms
  by (auto simp: as_member_def project_auth_def project_workspace_def locked_def tx_simps require_role_iff
      has_project_role_def principal_of_def split: sum.splits if_splits elim!: authenticate_session)

lemma transact_changed:
  assumes "sdb (snd (transact body st)) \<noteq> sdb st"
  obtains x db' where "body (sdb st) = Inr (x, db')"
  using assms by (auto simp: transact_sdb commit_def split: if_splits sum.splits prod.splits)

lemma bearer_changed:
  assumes "sdb (snd (authenticate_bearer E d hs ApiRead st)) \<noteq> sdb st"
  obtains k where "has_credential E d hs (sdb st) k"
proof -
  from assms obtain v a token public where v: "srv_cookie E hs ''c6_session'' = None"
      "header_values ''authorization'' hs = [v]" "header_text E v = Some a" "strip_prefix ''Bearer '' a = Some token"
    and "sdb (snd (transact (use_key E d token Cli ApiRead public) st)) \<noteq> sdb st"
    by (auto simp: authenticate_bearer_def authenticate_opaque_token_def tx_simps split: sum.splits list.splits)
  from this(5) obtain x db' where "use_key E d token Cli ApiRead public (sdb st) = Inr (x, db')"
    by (rule transact_changed)
  then obtain k where "k \<in> set (api_keys (sdb st))" "key_live (sdb st) (t_auth d) k" "key_type k = ''cli''"
    "key_verifier k = hash_hex E token" "\<exists>scopes. scopes_of E (key_scopes k) = Some scopes \<and> ApiRead \<in> set scopes"
    by (auto simp: use_key_def find_key_def tx_simps secure_eq_iff split: if_splits dest!: find_SomeD)
  with v that [of k] show thesis by (auto simp: has_credential_def strip_prefix_Some)
qed

lemma same_origin_session:
  assumes "same_origin E hs False = Inr u" and "has_session E d hs db s"
  shows "from_origin E hs"
proof -
  from assms(2) have "srv_header E ''authorization'' hs = None" by (simp add: has_session_def srv_header_def)
  with assms(1) show ?thesis by (auto simp: same_origin_def from_origin_def tx_simps)
qed

lemma transacted_changed:
  assumes "sdb (snd (f st)) \<noteq> sdb st" and "\<And>st. snd (f st) = st \<or> sdb (snd (f st)) = sdb (snd (transact body st))"
  obtains x db' where "body (sdb st) = Inr (x, db')"
  using assms(1) assms(2) [of st] by (metis transact_changed)

lemma claim_authorised:
  assumes "sdb (snd (server_claim E d r st)) \<noteq> sdb st"
  shows "peers (sdb st) = [] \<and> server_setting (sdb st) ''bootstrap_hash'' = Some (hash_hex E (bt_token r))"
  using assms
proof (rule transacted_changed [where body = "server_claim_tx E d r"])
  show "snd (server_claim E d r st) = st \<or> sdb (snd (server_claim E d r st)) = sdb (snd (transact (server_claim_tx E d r) st))" for st
    by (auto simp: server_claim_def split: sum.splits prod.splits)
qed (auto simp: server_claim_tx_def tx_simps secure_eq_iff split: if_splits)

lemma redeem_authorised:
  assumes "sdb (snd (redeem_invite E d r st)) \<noteq> sdb st"
  shows "\<exists>i \<in> set (invites (sdb st)). ivt_token_hash i = hash_hex E (bt_token r) \<and> ivt_redeemed i = None
     \<and> t_auth d < ivt_expires i"
  using assms
proof (rule transacted_changed [where body = "redeem_tx E d r"])
  show "snd (redeem_invite E d r st) = st \<or> sdb (snd (redeem_invite E d r st)) = sdb (snd (transact (redeem_tx E d r) st))" for st
    by (auto simp: redeem_invite_def split: sum.splits prod.splits)
qed (auto elim!: redeem_rows)

lemma invite_authorised:
  assumes "sdb (snd (create_invite_as E d r p st)) \<noteq> sdb st"
  shows "case iv_space r of None \<Rightarrow> True | Some ws \<Rightarrow> has_role (sdb st) ws (pr_user p) ''owner''"
proof -
  from assms obtain n where "sdb (snd (transact (create_invite_tx E d r n (pr_user p)) st)) \<noteq> sdb st"
    by (auto simp: create_invite_as_def Let_def split: sum.splits)
  then obtain x db' where "create_invite_tx E d r n (pr_user p) (sdb st) = Inr (x, db')" by (rule transact_changed)
  then show ?thesis
    by (auto simp: create_invite_tx_def tx_simps require_role_tx_def has_role_def split: option.splits if_splits)
qed

lemma renew_authorised:
  assumes "sdb (snd (session_get E d hs st)) \<noteq> sdb st"
  shows "\<exists>s c. has_session E d hs (sdb st) s \<and> srv_cookie E hs ''c6_csrf'' = Some c \<and> lg_csrf_hash s = hash_hex E c"
proof -
  from assms obtain token csrf where c: "srv_cookie E hs ''c6_csrf'' = Some csrf"
    and "sdb (snd (as_user E d hs False (renew_session_as E d token csrf) st)) \<noteq> sdb st"
    by (auto simp: session_get_def tx_simps split: sum.splits)
  from this(2) obtain s where s: "has_session E d hs (sdb st) s"
    and "sdb (snd (renew_session_as E d token csrf (principal_of (sdb st) s) st)) \<noteq> sdb st"
    by (rule user_changed)
  from this(2) have "lg_csrf_hash s = hash_hex E csrf"
    by (auto simp: renew_session_as_def secure_eq_iff principal_of_def split: if_splits)
  with c s show ?thesis by blast
qed

lemma credential_authorised:
  "sdb (snd (cli_whoami E d hs st)) \<noteq> sdb st \<Longrightarrow> \<exists>k. has_credential E d hs (sdb st) k"
  "sdb (snd (list_projects E d hs st)) \<noteq> sdb st \<Longrightarrow> \<exists>k. has_credential E d hs (sdb st) k"
  "sdb (snd (project_remote E d hs j st)) \<noteq> sdb st \<Longrightarrow> \<exists>k. has_credential E d hs (sdb st) k"
proof -
  have bearer: "\<exists>k. has_credential E d hs (sdb st) k"
    if "sdb (snd (authenticate_bearer E d hs ApiRead st)) \<noteq> sdb st"
    using that by (auto elim: bearer_changed)
  have reads: "reads_only (as_user E d hs False (\<lambda>p st. (f p st, st)))"
    for f :: "principal \<Rightarrow> 'a server_state \<Rightarrow> server_failure + server_reply"
    by (intro reads_user reads_as) simp
  show "\<exists>k. has_credential E d hs (sdb st) k" if "sdb (snd (cli_whoami E d hs st)) \<noteq> sdb st"
    by (rule bearer) (use that in \<open>auto simp: cli_whoami_def split: prod.splits sum.splits\<close>)
  show "\<exists>k. has_credential E d hs (sdb st) k" if "sdb (snd (list_projects E d hs st)) \<noteq> sdb st"
    by (rule bearer) (use that reads in \<open>auto simp: reads_only_def list_projects_def split: prod.splits sum.splits if_splits\<close>)
  show "\<exists>k. has_credential E d hs (sdb st) k" if "sdb (snd (project_remote E d hs j st)) \<noteq> sdb st"
    by (rule bearer) (use that reads in \<open>auto simp: reads_only_def project_remote_def split: prod.splits sum.splits if_splits\<close>)
qed

lemma revoke_authorised:
  "sdb (snd (revoke_session_as d k p st)) \<noteq> sdb st \<Longrightarrow> \<exists>s \<in> set (logins (sdb st)). lg_id s = k \<and> lg_user s = pr_user p"
  "sdb (snd (revoke_device_as d k p st)) \<noteq> sdb st \<Longrightarrow> \<exists>v \<in> set (devices (sdb st)). dev_id v = k \<and> dev_user v = pr_user p"
  "sdb (snd (revoke_credential_as d k p st)) \<noteq> sdb st \<Longrightarrow> \<exists>c \<in> set (api_keys (sdb st)). key_id c = k \<and> key_user c = pr_user p"
  "sdb (snd (revoke_peer_as d k p st)) \<noteq> sdb st \<Longrightarrow> k \<noteq> pr_user p"
  by (auto simp: revoke_session_as_def revoke_device_as_def revoke_credential_as_def revoke_peer_as_def
      revoke_session_tx_def revoke_device_tx_def revoke_key_tx_def list_ex_iff Let_def
      elim!: transact_changed split: if_splits)

lemma work_authorised:
  "sdb (snd (update_workspace_as d k slug name p st)) \<noteq> sdb st \<Longrightarrow> has_role (sdb st) k (pr_user p) ''owner''"
  "sdb (snd (create_project_as E d r p st)) \<noteq> sdb st \<Longrightarrow> has_role (sdb st) (pq_space r) (pr_user p) ''maintainer''"
  "sdb (snd (update_project_as E d hs k r p st)) \<noteq> sdb st \<Longrightarrow> has_project_role (sdb st) k (pr_user p) ''maintainer''"
  by (auto simp: update_workspace_as_def create_project_as_def update_project_as_def tx_simps require_role_iff
      project_workspace_def locked_def has_project_role_def split: sum.splits if_splits)

end
