(* ===== verification/Server_Desk.thy ===== *)
theory Server_Desk
  imports Server_Authority
begin

text \<open>
  A control plane to evaluate: a server whose store of repositories is a list of names, with codecs
  and hashes that compute, after its owner has claimed it and made a workspace, a project and a Git
  credential.
\<close>

definition desk_repository :: "string \<Rightarrow> repository" where
  "desk_repository k = \<lparr>rep_path = [''repos'', k @ ''.git''], rep_limits = \<lparr>max_changes = 1, max_file_bytes = 1, max_total_bytes = 1,
     max_read_bytes = 1, max_log_entries = 1\<rparr>, oid_len = 4\<rparr>"

definition desk_git :: "string list git_ops" where
  "desk_git = \<lparr>git_create = (\<lambda>k g. if k \<in> set g then (Inl (AlreadyExists k), g) else (Inr (desk_repository k), k # g)),
     git_open = (\<lambda>k g. if k \<in> set g then (Inr (desk_repository k), g) else (Inl (RepositoryMissing k), g)),
     git_list_branches = (\<lambda>k g. (Inr [], g)), git_list_commits = (\<lambda>k r n g. (Inr [], g)),
     git_list_tree = (\<lambda>k r b g. (Inr [], g)), git_read_file = (\<lambda>k r q g. (Inr [], g)),
     git_commit_changes = (\<lambda>k br e cs m i g. (Inr ''c0ffee'', g)),
     git_erase = (\<lambda>k g. (Inr (), filter (\<lambda>x. x \<noteq> k) g)), git_path = (\<lambda>rep g. \<lparr>rp_real = True, rp_root = ''/repos'', rp_name = last (rep_path rep)\<rparr>)\<rparr>"

definition desk_url64 :: "bytes \<Rightarrow> string" where
  "desk_url64 bs = map (\<lambda>b. char_of (unat b)) bs @ replicate ((length bs + 2) div 3) (CHR ''A'')"

definition desk_server :: "(string list, unit, unit) server_env" where
  "desk_server = \<lparr>hash_hex = (\<lambda>s. CHR ''h'' # s), url64 = desk_url64,
     unurl64 = (\<lambda>s. Some (map (\<lambda>c. of_nat (of_char c)) (take (3 * length s div 4) s))),
     unbase64 = Some, id_text = (\<lambda>u. show_nat (unat u)), id_of = (\<lambda>s. Some 0),
     header_text = Some, header_ok = (\<lambda>s. True),
     scopes_json = map (\<lambda>s. case s of ApiRead \<Rightarrow> CHR ''r'' | ApiWrite \<Rightarrow> CHR ''w'' | GitRead \<Rightarrow> CHR ''g'' | GitWrite \<Rightarrow> CHR ''p''),
     scopes_of = (\<lambda>s. Some (map (\<lambda>c. if c = CHR ''r'' then ApiRead else if c = CHR ''w'' then ApiWrite
        else if c = CHR ''g'' then GitRead else GitWrite) s)),
     toml = (\<lambda>s. Inl ''none''), cal = hourly, git = desk_git, base_url = ''https://desk'',
     secure = True, git_http = None\<rparr>"

definition desk_fresh :: fresh where
  "desk_fresh = \<lparr>t_auth = 1, t_used = 2, t_now = 3, t_later = 4, t_login = 5, t_event = 6, id_a = ''u1'', id_b = ''d1'',
     id_login = ''s1'', id_event = ''e1'', rnd_a = replicate 32 97, rnd_b = replicate 32 98,
     rnd_public = replicate 12 99, unlink_ok = True\<rparr>"

definition desk_claim :: bootstrap_request where
  "desk_claim = \<lparr>bt_token = ''t'', bt_name = ''Ada'', bt_label = ''desk'', bt_key = replicate 32 (CHR ''k'')\<rparr>"

definition desk_empty :: "string list server_state" where
  "desk_empty = \<lparr>sdb = server_start [(''server_id'', ''srv''), (''bootstrap_hash'', ''ht'')], lock_poisoned = False,
     gits = [], token_file = True\<rparr>"

definition desk_session :: string where
  "desk_session = replicate 32 (CHR ''a'') @ replicate 11 (CHR ''A'')"

definition desk_csrf :: string where
  "desk_csrf = replicate 32 (CHR ''b'') @ replicate 11 (CHR ''A'')"

definition desk_browser :: header_list where
  "desk_browser = [(''cookie'', ''c6_session='' @ desk_session @ ''; c6_csrf='' @ desk_csrf),
     (''x-c6-csrf'', desk_csrf), (''origin'', ''https://desk/'')]"

definition desk_db :: server_db where
  "desk_db = \<lparr>db_settings = [(''server_id'', ''srv''), (''server_owner_id'', ''u1'')],
     peers = [\<lparr>usr_id = ''u1'', usr_name = ''Ada'', usr_revoked = None\<rparr>],
     devices = [\<lparr>dev_id = ''d1'', dev_user = ''u1'', dev_label = ''desk'', dev_key = replicate 32 (CHR ''k''),
       dev_created = 3, dev_revoked = None\<rparr>],
     logins = [\<lparr>lg_id = ''s1'', lg_user = ''u1'', lg_device = Some ''d1'', lg_token_hash = CHR ''h'' # desk_session,
       lg_csrf_hash = CHR ''h'' # desk_csrf, lg_created = 5, lg_expires = 5 + 2592000 * 10 ^ 9, lg_revoked = None\<rparr>],
     invites = [], spaces = [], members = [], projects = [], pulls = [], deployments = [], job_runs = [],
     schedule_rows = [], secret_metas = [], server_events = [\<lparr>sev_id = ''e1'', sev_actor = Some ''u1'',
       sev_action = ''server.claim'', sev_target_type = ''server'', sev_target = None, sev_created = 6\<rparr>], api_keys = []\<rparr>"

lemma desk_tx: "server_claim_tx desk_server desk_fresh desk_claim (sdb desk_empty)
    = Inr ((desk_session, desk_csrf, 5 + 2592000 * 10 ^ 9), desk_db)"
  by code_simp

definition desk_state :: "string list server_state" where
  "desk_state = \<lparr>sdb = desk_db, lock_poisoned = False, gits = [], token_file = False\<rparr>"

definition desk_later :: fresh where
  "desk_later = desk_fresh\<lparr>id_a := ''k1'', id_event := ''e2''\<rparr>"

definition desk_owner :: principal where
  "desk_owner = \<lparr>pr_user = ''u1'', pr_name = ''Ada'', pr_login = ''s1'', pr_csrf_hash = CHR ''h'' # desk_csrf,
     pr_device = Some ''d1''\<rparr>"

lemma desk_identity: "validate_identity ''Ada'' ''desk'' (replicate 32 (CHR ''k'')) = Inr ()"
  by code_simp

lemma desk_answer:
  "server_claim desk_server desk_fresh desk_claim desk_empty
     = (Inr (SessionStarted ''u1'' ''Ada'' desk_csrf (5 + 2592000 * 10 ^ 9)
          [login_cookie desk_server desk_session, proof_cookie desk_server desk_csrf]), desk_state)"
proof -
  have "\<not> lock_poisoned desk_empty" "gits desk_empty = []" "token_file desk_empty" by (simp_all add: desk_empty_def)
  moreover have "bt_name desk_claim = ''Ada''" "bt_label desk_claim = ''desk''" "bt_key desk_claim = replicate 32 (CHR ''k'')"
    "id_a desk_fresh = ''u1''" "unlink_ok desk_fresh" "header_ok desk_server c" for c
    by (simp_all add: desk_claim_def desk_fresh_def desk_server_def)
  ultimately show ?thesis
    by (simp add: server_claim_def desk_identity transact_def locked_def desk_tx session_reply_def
        append_session_cookies_def desk_state_def)
qed

lemma desk_authenticated: "authenticate desk_server desk_later desk_browser True desk_state = Inr desk_owner"
  by code_simp

lemma desk_logout:
  "sdb (snd (respond desk_server desk_later desk_browser DeleteBrowserSession desk_state)) \<noteq> sdb desk_state"
  by code_simp


section \<open>A workspace, a project and a credential\<close>

definition desk_key_request :: key_request where
  "desk_key_request = \<lparr>kr_type = Git, kr_label = ''laptop'', kr_scopes = [GitRead], kr_restriction = None, kr_expires = None\<rparr>"

definition desk_token :: string where
  "desk_token = ''c6g_v1_'' @ replicate 12 (CHR ''c'') @ ''AAAA_'' @ desk_session"

definition desk_keyed :: "string list server_state" where
  "desk_keyed = snd (create_credential_as desk_server desk_later desk_key_request desk_owner desk_state)"

lemma desk_credential:
  "create_credential_as desk_server desk_later desk_key_request desk_owner desk_state
     = (Inr (CredentialCreated ''k1'' ''laptop'' [GitRead] 3 (3 + 30 * day) desk_token), desk_keyed)"
  by code_simp

definition desk_project :: project_request where
  "desk_project = \<lparr>pq_space = ''w1'', pq_slug = ''app'', pq_name = ''App'', pq_description = [], pq_branch = ''main''\<rparr>"

definition desk_txs :: "server_tx list" where
  "desk_txs = [TClaim desk_fresh desk_claim,
     TCreateSpace (desk_fresh\<lparr>id_a := ''w1'', id_event := ''e2''\<rparr>) ''team'' ''Team'' desk_owner,
     TCreateProject (desk_fresh\<lparr>id_a := ''p1'', id_event := ''e3''\<rparr>) desk_project ''c0ffee'' desk_owner,
     TCreateKey (desk_fresh\<lparr>id_a := ''k1'', id_event := ''e4''\<rparr>) desk_key_request desk_token (3 + 30 * day) (None, None) desk_owner]"

definition desk_full :: server_db where
  "desk_full = desk_db\<lparr>spaces := [\<lparr>spc_id = ''w1'', spc_slug = ''team'', spc_name = ''Team'', spc_created = 3\<rparr>],
     members := [\<lparr>mbr_space = ''w1'', mbr_user = ''u1'', mbr_role = ''owner''\<rparr>],
     projects := [\<lparr>prj_id = ''p1'', prj_space = ''w1'', prj_slug = ''app'', prj_name = ''App'', prj_description = [],
       prj_branch = ''main'', prj_head = ''c0ffee'', prj_published = None, prj_created = 3, prj_updated = 3\<rparr>],
     server_events := [
       \<lparr>sev_id = ''e1'', sev_actor = Some ''u1'', sev_action = ''server.claim'', sev_target_type = ''server'',
         sev_target = None, sev_created = 6\<rparr>,
       \<lparr>sev_id = ''e2'', sev_actor = Some ''u1'', sev_action = ''workspace.create'', sev_target_type = ''workspace'',
         sev_target = Some ''w1'', sev_created = 6\<rparr>,
       \<lparr>sev_id = ''e3'', sev_actor = Some ''u1'', sev_action = ''project.create'', sev_target_type = ''project'',
         sev_target = Some ''p1'', sev_created = 6\<rparr>,
       \<lparr>sev_id = ''e4'', sev_actor = Some ''u1'', sev_action = ''credential.create'', sev_target_type = ''credential'',
         sev_target = Some ''k1'', sev_created = 6\<rparr>],
     api_keys := [\<lparr>key_id = ''k1'', key_public = replicate 12 (CHR ''c'') @ ''AAAA'', key_verifier = CHR ''h'' # desk_token,
       key_user = ''u1'', key_device = Some ''d1'', key_label = ''laptop'', key_type = ''git'', key_scopes = ''g'',
       key_space = None, key_project = None, key_created = 3, key_expires = 3 + 30 * day, key_used = None,
       key_revoked = None\<rparr>]\<rparr>"

lemma desk_claim_history:
  "run_steps (server_step desk_server) (server_start [(''server_id'', ''srv''), (''bootstrap_hash'', ''ht'')]) [hd desk_txs] = desk_db"
  using desk_tx by (simp add: desk_txs_def server_step_def commit_def desk_empty_def)

lemma desk_rest: "run_steps (server_step desk_server) desk_db (tl desk_txs) = desk_full"
  by code_simp

lemma desk_inv: "server_inv desk_db"
  by (subst desk_claim_history [symmetric]) (rule server.inv_reachable)

definition desk_forge :: "(string list, unit, unit) server_env" where
  "desk_forge = desk_server\<lparr>git_http := Some \<lparr>git_executable = ''/usr/bin/git'', child_path = ''/usr/bin'',
     smart_limits_of = \<lparr>max_request_bytes = 8, max_response_bytes = 8, max_cgi_header_bytes = 8,
       max_stderr_bytes = 8, max_git_protocol_bytes = 8, advertisement_timeout = 1, upload_pack_timeout = 1\<rparr>\<rparr>\<rparr>"

definition desk_clone :: header_list where
  "desk_clone = [(''authorization'', ''Basic c6:'' @ desk_token)]"

lemma desk_admitted:
  "fst (git_admitted desk_forge desk_fresh desk_clone ''team'' ''app.git''
     \<lparr>sdb = desk_full, lock_poisoned = False, gits = [''p1''], token_file = False\<rparr>)
   = Inr (the (git_http desk_forge), None, ''u1'', ''p1'', desk_repository ''p1'')"
  by code_simp

lemma desk_key_found: "find_key desk_full (replicate 12 (CHR ''c'') @ ''AAAA'') Git 1 = Some (last (api_keys desk_full))"
  by code_simp


lemma desk_url64s: "url64 desk_server (rnd_a desk_fresh) = desk_session" "url64 desk_server (rnd_b desk_fresh) = desk_csrf"
  by code_simp+

lemma desk_plain: "plain desk_session" "plain desk_csrf"
  by (simp_all add: plain_def desk_session_def desk_csrf_def)

lemma desk_byte: "(of_nat (of_char (char_of (unat b))) :: u8) = b"
proof -
  have "unat b < 256" using unsigned_less [of b] by simp
  then show ?thesis by simp
qed

lemma desk_bytes:
  "unurl64 desk_server (url64 desk_server (rnd_a desk_later)) = Some (rnd_a desk_later)"
  "unurl64 desk_server (url64 desk_server (rnd_public desk_later)) = Some (rnd_public desk_later)"
  "length (url64 desk_server (rnd_a desk_later)) = 43" "length (url64 desk_server (rnd_public desk_later)) = 16"
  "\<not> list_ex ascii_ws (url64 desk_server (rnd_a desk_later))" "\<not> list_ex ascii_ws (url64 desk_server (rnd_public desk_later))"
  "length (rnd_a desk_later) = 32" "length (rnd_public desk_later) = 12"
  using desk_byte
  by (simp_all add: desk_server_def desk_url64_def desk_later_def desk_fresh_def list_ex_iff ascii_ws_def comp_def)

lemma desk_codec: "scopes_of desk_server (scopes_json desk_server [GitRead]) = Some [GitRead]" "t_auth desk_later = 1"
  by code_simp+

end
