(* ===== verification/Server_Claims.thy ===== *)
theory Server_Claims
  imports Server_Desk
begin

text \<open>
  What the control plane promises: changes need the proofs of their route, the tables stay sound
  and only grow, access that was revoked stays revoked, entry is once per invitation, and what is
  issued is accepted.
\<close>

section \<open>Authorised changes\<close>

lemma user_authorised:
  assumes "same_origin E hs False = Inr u"
    and "sdb (snd (as_user E d hs True f st)) \<noteq> sdb st"
    and "\<And>s. sdb (snd (f (principal_of (sdb st) s) st)) \<noteq> sdb st \<Longrightarrow> permitted (sdb st) (lg_user s) rq"
  shows "from_origin E hs \<and> (\<exists>s. has_session E d hs (sdb st) s \<and> has_proof E hs s \<and> permitted (sdb st) (lg_user s) rq)"
  using assms(2)
proof (rule user_changed)
  fix s
  assume "has_session E d hs (sdb st) s" and "True \<Longrightarrow> has_proof E hs s"
    and "sdb (snd (f (principal_of (sdb st) s) st)) \<noteq> sdb st"
  with same_origin_session [OF assms(1)] assms(3) show ?thesis by blast
qed

lemma owner_authorised:
  assumes "same_origin E hs False = Inr u"
    and "sdb (snd (as_owner E d hs True f st)) \<noteq> sdb st"
    and "\<And>s. is_owner (sdb st) (lg_user s) \<Longrightarrow> sdb (snd (f (principal_of (sdb st) s) st)) \<noteq> sdb st
      \<Longrightarrow> permitted (sdb st) (lg_user s) rq"
  shows "from_origin E hs \<and> (\<exists>s. has_session E d hs (sdb st) s \<and> has_proof E hs s \<and> permitted (sdb st) (lg_user s) rq)"
  using assms(2)
proof (rule owner_changed)
  fix s
  assume "has_session E d hs (sdb st) s" and "True \<Longrightarrow> has_proof E hs s" and "is_owner (sdb st) (lg_user s)"
    and "sdb (snd (f (principal_of (sdb st) s) st)) \<noteq> sdb st"
  with same_origin_session [OF assms(1)] assms(3) show ?thesis by blast
qed

lemma member_authorised:
  assumes "same_origin E hs False = Inr u"
    and "sdb (snd (as_member E d hs k r True f st)) \<noteq> sdb st"
    and "\<And>s :: login. has_project_role (sdb st) k (lg_user s) r \<Longrightarrow> permitted (sdb st) (lg_user s) rq"
  shows "from_origin E hs \<and> (\<exists>s. has_session E d hs (sdb st) s \<and> has_proof E hs s \<and> permitted (sdb st) (lg_user s) rq)"
  using assms(2)
proof (rule member_changed)
  fix s
  assume s: "has_session E d hs (sdb st) s" "True \<Longrightarrow> has_proof E hs s" and r: "has_project_role (sdb st) k (lg_user s) r"
  from same_origin_session [OF assms(1) s(1)] s assms(3) [OF r] show ?thesis by blast
qed

lemma pr_user_of [simp]: "pr_user (principal_of db s) = lg_user s"
  by (simp add: principal_of_def)

lemma reads_same: "reads_only m \<Longrightarrow> sdb (snd (m st)) = sdb st"
  by (simp add: reads_only_def)

lemmas quiet = reads_handlers [THEN reads_user, THEN reads_same] reads_handlers [THEN reads_owner, THEN reads_same]
  reads_handlers [THEN reads_member, THEN reads_same] reads_listings [THEN reads_member, THEN reads_same]

text \<open>
  C2: a request changes the database only with what its route asks for: the bootstrap token of an
  unclaimed server, an open invitation, a session with its proof cookie, a credential, or, for
  every other route, the server's origin, a live session with its CSRF proof and the role the
  change needs.
\<close>

theorem server_only_authorised_requests_change:
  assumes "sdb (snd (respond E d hs rq st)) \<noteq> sdb st"
  shows "server_authorised E d hs (sdb st) rq"
proof -
  from assms obtain u where o: "same_origin E hs (is_get rq) = Inr u"
    and changed: "sdb (snd (dispatch E d hs rq st)) \<noteq> sdb st"
    by (auto simp: respond_def split: sum.splits)
  note work = changed [unfolded dispatch_def]
  let ?browser = "from_origin E hs \<and> (\<exists>s. has_session E d hs (sdb st) s \<and> has_proof E hs s
    \<and> permitted (sdb st) (lg_user s) rq)"
  show ?thesis
  proof (cases rq)
    case (PostBootstrapClaim r)
    with work claim_authorised [of E d r st] show ?thesis by (simp add: server_authorised_def)
  next
    case (PostRedeem r)
    with work redeem_authorised [of E d r st] show ?thesis by (simp add: server_authorised_def)
  next
    case GetBrowserSession
    with work renew_authorised [of E d hs st] show ?thesis by (simp add: server_authorised_def)
  next
    case GetWhoAmI
    with work credential_authorised(1) [of E d hs st] show ?thesis by (simp add: server_authorised_def)
  next
    case GetProjects
    with work credential_authorised(2) [of E d hs st] show ?thesis by (simp add: server_authorised_def)
  next
    case (GetRemote k)
    with work credential_authorised(3) [of E d hs k st] show ?thesis by (simp add: server_authorised_def)
  next
    case DeleteBrowserSession
    have ?browser
      by (rule user_authorised [where f = "server_logout_as E d"])
        (use o work DeleteBrowserSession in \<open>auto simp: is_get_def permitted_def\<close>)
    with DeleteBrowserSession show ?thesis by (simp add: server_authorised_def)
  next
    case (PostInvites r)
    have ?browser
      by (rule owner_authorised [where f = "create_invite_as E d r"])
        (use o work PostInvites in \<open>auto simp: is_get_def permitted_def split: option.splits dest!: invite_authorised\<close>)
    with PostInvites show ?thesis by (simp add: server_authorised_def)
  next
    case (DeletePeer k)
    have ?browser
      by (rule owner_authorised [where f = "revoke_peer_as d k"])
        (use o work DeletePeer in \<open>auto simp: is_get_def permitted_def dest!: revoke_authorised\<close>)
    with DeletePeer show ?thesis by (simp add: server_authorised_def)
  next
    case (DeleteDevice k)
    have ?browser
      by (rule user_authorised [where f = "revoke_device_as d k"])
        (use o work DeleteDevice in \<open>auto simp: is_get_def permitted_def dest!: revoke_authorised\<close>)
    with DeleteDevice show ?thesis by (simp add: server_authorised_def)
  next
    case (DeleteSessionRow k)
    have ?browser
      by (rule user_authorised [where f = "revoke_session_as d k"])
        (use o work DeleteSessionRow in \<open>auto simp: is_get_def permitted_def dest!: revoke_authorised\<close>)
    with DeleteSessionRow show ?thesis by (simp add: server_authorised_def)
  next
    case (PostCredentials r)
    have ?browser
      by (rule user_authorised [where f = "create_credential_as E d r"])
        (use o work PostCredentials in \<open>auto simp: is_get_def permitted_def\<close>)
    with PostCredentials show ?thesis by (simp add: server_authorised_def)
  next
    case (DeleteCredential k)
    have ?browser
      by (rule user_authorised [where f = "revoke_credential_as d k"])
        (use o work DeleteCredential in \<open>auto simp: is_get_def permitted_def dest!: revoke_authorised\<close>)
    with DeleteCredential show ?thesis by (simp add: server_authorised_def)
  next
    case (PostSpaces slug name)
    have ?browser
      by (rule owner_authorised [where f = "server_create_workspace_as d slug name"])
        (use o work PostSpaces in \<open>auto simp: is_get_def permitted_def\<close>)
    with PostSpaces show ?thesis by (simp add: server_authorised_def)
  next
    case (PutSpace k slug name)
    have ?browser
      by (rule user_authorised [where f = "update_workspace_as d k slug name"])
        (use o work PutSpace in \<open>auto simp: is_get_def permitted_def dest!: work_authorised\<close>)
    with PutSpace show ?thesis by (simp add: server_authorised_def)
  next
    case (PostProjects r)
    have ?browser
      by (rule user_authorised [where f = "create_project_as E d r"])
        (use o work PostProjects in \<open>auto simp: is_get_def permitted_def dest!: work_authorised\<close>)
    with PostProjects show ?thesis by (simp add: server_authorised_def)
  next
    case (PutProject k r)
    have ?browser
      by (rule user_authorised [where f = "update_project_as E d hs k r"])
        (use o work PutProject in \<open>auto simp: is_get_def permitted_def dest!: work_authorised\<close>)
    with PutProject show ?thesis by (simp add: server_authorised_def)
  next
    case (PostPulls k i)
    have ?browser
      by (rule member_authorised [where f = "create_pull_as E d k i"])
        (use o work PostPulls in \<open>auto simp: is_get_def permitted_def\<close>)
    with PostPulls show ?thesis by (simp add: server_authorised_def)
  next
    case (PostDeployments k r e)
    have ?browser
      by (rule member_authorised [where f = "create_deployment_as E d k r e"])
        (use o work PostDeployments in \<open>auto simp: is_get_def permitted_def\<close>)
    with PostDeployments show ?thesis by (simp add: server_authorised_def)
  next
    case (PostRuns k i)
    have ?browser
      by (rule member_authorised [where f = "create_run_as E d k i"])
        (use o work PostRuns in \<open>auto simp: is_get_def permitted_def\<close>)
    with PostRuns show ?thesis by (simp add: server_authorised_def)
  next
    case (PostSchedules k i)
    have ?browser
      by (rule member_authorised [where f = "create_schedule_as E d k i"])
        (use o work PostSchedules in \<open>auto simp: is_get_def permitted_def\<close>)
    with PostSchedules show ?thesis by (simp add: server_authorised_def)
  next
    case (PostSecrets k n)
    have ?browser
      by (rule member_authorised [where f = "create_secret_as d k n"])
        (use o work PostSecrets in \<open>auto simp: is_get_def permitted_def\<close>)
    with PostSecrets show ?thesis by (simp add: server_authorised_def)
  qed (use work in \<open>simp_all add: quiet reads_member [THEN reads_same] reads_only_def\<close>)
qed

theorem server_only_authorised_requests_change_witness:
  "server_authorised desk_server desk_later desk_browser (sdb desk_state) DeleteBrowserSession"
  by (rule server_only_authorised_requests_change [OF desk_logout])

section \<open>Sound tables that only grow\<close>

text \<open>
  C4: in every history of the control plane, whatever the transactions and their order, the tables
  keep the constraints of the schema, the owner is the first account, every other account came from
  one redeemed invitation, roles are the five of the ladder, the pull requests of a project are
  numbered 1, 2, 3, \<open>\<dots>\<close>, and the sessions of revoked accounts and devices are revoked.
\<close>

theorem server_tables_sound: "server_inv (run_steps (server_step E) (server_start kvs) txs)"
  by (rule server.inv_reachable)

text \<open>
  C24: whatever comes later, the owner stays, rows are only added, revocations and redemptions are
  never undone, and memberships, pull requests, deployments, runs, schedules, secret names and
  audit events never change.
\<close>

theorem server_history_only_grows:
  "srv_below (run_steps (server_step E) (server_start kvs) txs)
     (run_steps (server_step E) (server_start kvs) (txs @ later))"
  by (rule server.below_prefix) (rule server_start_inv)

section \<open>Revocation is final\<close>

definition revoked_peers :: "server_db \<Rightarrow> string list" where
  "revoked_peers db = map usr_id (filter (\<lambda>u. usr_revoked u \<noteq> None) (peers db))"

definition revoked_devices :: "server_db \<Rightarrow> string list" where
  "revoked_devices db = map dev_id (filter (\<lambda>v. dev_revoked v \<noteq> None) (devices db))"

definition revoked_logins :: "server_db \<Rightarrow> string list" where
  "revoked_logins db = map lg_id (filter (\<lambda>s. lg_revoked s \<noteq> None) (logins db))"

definition revoked_keys :: "server_db \<Rightarrow> string list" where
  "revoked_keys db = map key_id (filter (\<lambda>k. key_revoked k \<noteq> None) (api_keys db))"

lemma evolves_marked:
  assumes "evolves R xs ys" and "\<And>x y. R x y \<Longrightarrow> f y = f x \<and> (m x \<noteq> None \<longrightarrow> m y \<noteq> None)"
  shows "set (map f (filter (\<lambda>x. m x \<noteq> None) xs)) \<subseteq> set (map f (filter (\<lambda>x. m x \<noteq> None) ys))"
proof
  fix k
  assume "k \<in> set (map f (filter (\<lambda>x. m x \<noteq> None) xs))"
  then obtain x where x: "x \<in> set xs" "m x \<noteq> None" "k = f x" by auto
  with evolves_mem [OF assms(1)] obtain y where "y \<in> set ys" "R x y" by blast
  with assms(2) [of x y] x show "k \<in> set (map f (filter (\<lambda>x. m x \<noteq> None) ys))"
    by (auto intro!: image_eqI [of _ _ y])
qed

lemma after_marks:
  "peer_after u u' \<Longrightarrow> usr_id u' = usr_id u \<and> (usr_revoked u \<noteq> None \<longrightarrow> usr_revoked u' \<noteq> None)"
  "device_after v v' \<Longrightarrow> dev_id v' = dev_id v \<and> (dev_revoked v \<noteq> None \<longrightarrow> dev_revoked v' \<noteq> None)"
  "login_after s s' \<Longrightarrow> lg_id s' = lg_id s \<and> (lg_revoked s \<noteq> None \<longrightarrow> lg_revoked s' \<noteq> None)"
  "key_after k k' \<Longrightarrow> key_id k' = key_id k \<and> (key_revoked k \<noteq> None \<longrightarrow> key_revoked k' \<noteq> None)"
proof -
  show "peer_after u u' \<Longrightarrow> usr_id u' = usr_id u \<and> (usr_revoked u \<noteq> None \<longrightarrow> usr_revoked u' \<noteq> None)"
    by (cases u; cases u') (auto simp: peer_after_def)
  show "device_after v v' \<Longrightarrow> dev_id v' = dev_id v \<and> (dev_revoked v \<noteq> None \<longrightarrow> dev_revoked v' \<noteq> None)"
    by (cases v; cases v') (auto simp: device_after_def)
  show "login_after s s' \<Longrightarrow> lg_id s' = lg_id s \<and> (lg_revoked s \<noteq> None \<longrightarrow> lg_revoked s' \<noteq> None)"
    by (cases s; cases s') (auto simp: login_after_def)
  show "key_after k k' \<Longrightarrow> key_id k' = key_id k \<and> (key_revoked k \<noteq> None \<longrightarrow> key_revoked k' \<noteq> None)"
    by (cases k; cases k') (auto simp: key_after_def)
qed

lemma revoked_stay:
  assumes "srv_below db db'"
  shows "set (revoked_peers db) \<subseteq> set (revoked_peers db')" "set (revoked_devices db) \<subseteq> set (revoked_devices db')"
    "set (revoked_logins db) \<subseteq> set (revoked_logins db')" "set (revoked_keys db) \<subseteq> set (revoked_keys db')"
  unfolding revoked_peers_def revoked_devices_def revoked_logins_def revoked_keys_def
  by (rule evolves_marked [OF _ after_marks(1)] evolves_marked [OF _ after_marks(2)]
        evolves_marked [OF _ after_marks(3)] evolves_marked [OF _ after_marks(4)];
      use assms in \<open>simp add: srv_below_def\<close>)+

lemma schema_ids:
  assumes "schema_ok db"
  shows "distinct_on usr_id (peers db)" "distinct_on dev_id (devices db)" "distinct_on lg_id (logins db)"
    "distinct_on key_id (api_keys db)" "distinct_on ivt_token_hash (invites db)"
  using assms by (simp_all add: schema_ok_def)

lemma unmarked:
  assumes "distinct_on f xs" and "x \<in> set xs" and "m x = None"
  shows "f x \<notin> set (map f (filter (\<lambda>x. m x \<noteq> None) xs))"
proof
  assume "f x \<in> set (map f (filter (\<lambda>x. m x \<noteq> None) xs))"
  then obtain y where "y \<in> set xs" "m y \<noteq> None" "f x = f y" by auto
  with distinct_on_inj [OF assms(1,2)] have "y = x" by metis
  with \<open>m y \<noteq> None\<close> assms(3) show False by simp
qed

lemma peer_live_not_revoked:
  assumes "schema_ok db" and "peer_live db u"
  shows "u \<notin> set (revoked_peers db)"
proof -
  from assms(2) obtain r where "find_peer db u = Some r" "usr_revoked r = None"
    by (auto simp: peer_live_def split: option.splits)
  then show ?thesis using unmarked [OF schema_ids(1) [OF assms(1)], of r usr_revoked]
    by (auto simp: find_peer_def revoked_peers_def dest!: find_SomeD)
qed

lemma device_live_not_revoked:
  assumes "schema_ok db" and "case find_device db (Some v) of None \<Rightarrow> True | Some r \<Rightarrow> dev_revoked r = None"
  shows "v \<notin> set (revoked_devices db)"
proof (cases "find_device db (Some v)")
  case None
  then show ?thesis by (auto simp: find_device_def find_None_iff revoked_devices_def)
next
  case (Some r)
  with assms(2) unmarked [OF schema_ids(2) [OF assms(1)], of r dev_revoked] show ?thesis
    by (auto simp: find_device_def revoked_devices_def dest!: find_SomeD)
qed

lemma login_live_not_revoked:
  assumes "schema_ok db" and "s \<in> set (logins db)" and "login_live db t s"
  shows "lg_id s \<notin> set (revoked_logins db)" "lg_user s \<notin> set (revoked_peers db)"
    "lg_device s \<notin> Some ` set (revoked_devices db)"
proof -
  show "lg_id s \<notin> set (revoked_logins db)"
    unfolding revoked_logins_def
    by (rule unmarked [OF schema_ids(3) [OF assms(1)] assms(2)]) (use assms(3) in \<open>simp add: login_live_def\<close>)
  show "lg_user s \<notin> set (revoked_peers db)"
    by (rule peer_live_not_revoked) (use assms in \<open>simp_all add: login_live_def\<close>)
  show "lg_device s \<notin> Some ` set (revoked_devices db)"
    using device_live_not_revoked [OF assms(1)] assms(3) by (cases "lg_device s") (auto simp: login_live_def)
qed

lemma key_live_not_revoked:
  assumes "schema_ok db" and "k \<in> set (api_keys db)" and "key_live db t k"
  shows "key_id k \<notin> set (revoked_keys db)" "key_user k \<notin> set (revoked_peers db)"
    "key_device k \<notin> Some ` set (revoked_devices db)"
proof -
  show "key_id k \<notin> set (revoked_keys db)"
    unfolding revoked_keys_def
    by (rule unmarked [OF schema_ids(4) [OF assms(1)] assms(2)]) (use assms(3) in \<open>simp add: key_live_def\<close>)
  show "key_user k \<notin> set (revoked_peers db)"
    by (rule peer_live_not_revoked) (use assms in \<open>simp_all add: key_live_def\<close>)
  show "key_device k \<notin> Some ` set (revoked_devices db)"
    using device_live_not_revoked [OF assms(1)] assms(3)
    by (cases "key_device k") (auto simp: key_live_def split: option.splits)
qed

lemma after_reachable:
  assumes "db = run_steps (server_step E) (server_start kvs) txs"
    and "db' = run_steps (server_step E) db later"
  shows "schema_ok db'" and "srv_below db db'"
proof -
  have "server_inv db" using assms(1) by (simp add: server.inv_reachable)
  then have "server_inv db'" "srv_below db db'" using assms(2) by (simp_all add: server.inv_run server.below_run)
  then show "schema_ok db'" "srv_below db db'" by (simp_all add: server_inv_def)
qed

text \<open>
  C23: once an account, a device or a session is revoked, no later request authenticates with a
  session of that account, on that device or with that session.
\<close>

theorem revoked_sessions_stay_out:
  assumes "db = run_steps (server_step E) (server_start kvs) txs"
    and "sdb st = run_steps (server_step E) db later"
    and "authenticate E d hs csrf st = Inr p"
  shows "pr_user p \<notin> set (revoked_peers db) \<and> pr_device p \<notin> Some ` set (revoked_devices db)
     \<and> pr_login p \<notin> set (revoked_logins db)"
proof -
  note after = after_reachable [OF assms(1,2)]
  from assms(3) obtain s where "s \<in> set (logins (sdb st))" "login_live (sdb st) (t_auth d) s"
    and p: "p = principal_of (sdb st) s"
    by (rule authenticate_session) (auto simp: has_session_def)
  from login_live_not_revoked [OF after(1) this(1,2)] revoked_stay [OF after(2)] show ?thesis
    by (auto simp: p principal_of_def)
qed

theorem revoked_sessions_stay_out_witness:
  "pr_user desk_owner \<notin> set (revoked_peers desk_db) \<and> pr_device desk_owner \<notin> Some ` set (revoked_devices desk_db)
     \<and> pr_login desk_owner \<notin> set (revoked_logins desk_db)"
  by (rule revoked_sessions_stay_out [OF desk_claim_history [symmetric] _ desk_authenticated, of "[]"])
    (simp add: desk_state_def)

text \<open>
  Once an account, a device or a credential is revoked, no later request of the API or of Git
  is accepted with a credential of that account, of that device or with that credential.
\<close>

theorem revoked_credentials_stay_out:
  assumes "db = run_steps (server_step E) (server_start kvs) txs"
    and "db' = run_steps (server_step E) db later"
    and "find_key db' public ty t = Some k"
  shows "key_user k \<notin> set (revoked_peers db) \<and> key_device k \<notin> Some ` set (revoked_devices db)
     \<and> key_id k \<notin> set (revoked_keys db)"
proof -
  note after = after_reachable [OF assms(1,2)]
  from assms(3) have "k \<in> set (api_keys db')" "key_live db' t k"
    by (auto simp: find_key_def dest!: find_SomeD)
  from key_live_not_revoked [OF after(1) this] revoked_stay [OF after(2)] show ?thesis by auto
qed

theorem revoked_credentials_stay_out_witness:
  "key_user (last (api_keys desk_full)) \<notin> set (revoked_peers desk_db)
     \<and> key_device (last (api_keys desk_full)) \<notin> Some ` set (revoked_devices desk_db)
     \<and> key_id (last (api_keys desk_full)) \<notin> set (revoked_keys desk_db)"
  by (rule revoked_credentials_stay_out [OF desk_claim_history [symmetric] desk_rest [symmetric] desk_key_found])

section \<open>Entry\<close>

text \<open>The claim, and the invitation each accepted redemption used.\<close>

definition entry_of ::
  "('g, 'tz, 'cron) server_env \<Rightarrow> server_tx \<Rightarrow> server_error + unit \<Rightarrow> string option list" where
  "entry_of E tx a = (case a of Inl _ \<Rightarrow> [] | Inr _ \<Rightarrow> (case tx of
      TClaim d r \<Rightarrow> [None]
    | TRedeem d r \<Rightarrow> [Some (hash_hex E (bt_token r))]
    | _ \<Rightarrow> []))"

definition entries :: "('g, 'tz, 'cron) server_env \<Rightarrow> server_db \<Rightarrow> server_tx list \<Rightarrow> string option list" where
  "entries E db txs = concat (map2 (entry_of E) txs (answers (server_step E) db txs))"

definition entry_used :: "server_db \<Rightarrow> string option \<Rightarrow> bool" where
  "entry_used db e = (case e of None \<Rightarrow> peers db \<noteq> []
     | Some h \<Rightarrow> (\<exists>i \<in> set (invites db). ivt_token_hash i = h \<and> ivt_redeemed i \<noteq> None))"

lemma entry_used_stays:
  assumes "srv_below db db'" and "entry_used db e"
  shows "entry_used db' e"
proof (cases e)
  case None
  with assms show ?thesis by (auto simp: entry_used_def srv_below_def evolves_def)
next
  case (Some h)
  with assms(2) obtain i where "i \<in> set (invites db)" "ivt_token_hash i = h" "ivt_redeemed i \<noteq> None"
    by (auto simp: entry_used_def)
  moreover from this(1) assms(1) obtain j where "j \<in> set (invites db')" "invite_after i j"
    by (auto simp: srv_below_def dest: evolves_mem)
  ultimately show ?thesis using Some by (auto simp: entry_used_def invite_after_def)
qed

lemma commit_accepted: "commit body db = (Inr u, db') \<Longrightarrow> \<exists>x. body db = Inr (x, db')"
  by (auto simp: commit_def split: sum.splits prod.splits)

lemma entry_of_iff:
  "e \<in> set (entry_of E tx a) \<longleftrightarrow> a = Inr () \<and> ((\<exists>d r. tx = TClaim d r \<and> e = None)
     \<or> (\<exists>d r. tx = TRedeem d r \<and> e = Some (hash_hex E (bt_token r))))"
  by (cases a; cases tx) (auto simp: entry_of_def)

lemma entry_step:
  assumes "server_inv db" and "e \<in> set (entry_of E tx (fst (server_step E db tx)))"
  shows "\<not> entry_used db e" and "entry_used (snd (server_step E db tx)) e"
proof -
  obtain a db' where s: "server_step E db tx = (a, db')" by (cases "server_step E db tx")
  from assms(2) s have e: "e \<in> set (entry_of E tx a)" by simp
  from e s consider (claim) d r x where "tx = TClaim d r" "e = None" "server_claim_tx E d r db = Inr (x, db')"
    | (redeem) d r x where "tx = TRedeem d r" "e = Some (hash_hex E (bt_token r))" "redeem_tx E d r db = Inr (x, db')"
    unfolding entry_of_iff server_step_def by (auto dest!: commit_accepted)
  then have "\<not> entry_used db e \<and> entry_used db' e"
  proof cases
    case claim
    from claim(3) show ?thesis by (rule server_claim_rows) (simp add: claim(2) entry_used_def)
  next
    case redeem
    from redeem(3) show ?thesis
    proof (rule redeem_rows)
      fix i m v s' ev
      assume i: "i \<in> set (invites db)" "ivt_token_hash i = hash_hex E (bt_token r)" "ivt_redeemed i = None"
        and db': "db' = db\<lparr>peers := peers db @ [\<lparr>usr_id = id_a d, usr_name = bt_name r, usr_revoked = None\<rparr>],
          devices := devices db @ [v], members := members db @ m,
          invites := update_where (\<lambda>j. ivt_id j = ivt_id i \<and> ivt_redeemed j = None)
            (\<lambda>i. i\<lparr>ivt_redeemed := Some (t_now d), ivt_redeemer := Some (id_a d)\<rparr>) (invites db),
          server_events := ev, logins := logins db @ [s']\<rparr>"
      have "distinct_on ivt_token_hash (invites db)"
        using assms(1) schema_ids(5) by (simp add: server_inv_def)
      with i have "\<not> entry_used db e" by (auto simp: redeem(2) entry_used_def dest: distinct_on_inj)
      moreover have "i\<lparr>ivt_redeemed := Some (t_now d), ivt_redeemer := Some (id_a d)\<rparr> \<in> set (invites db')"
        using i by (simp add: db' update_where_def image_iff) (rule disjI1, rule bexI [of _ i], simp_all)
      then have "\<exists>j \<in> set (invites db'). ivt_token_hash j = hash_hex E (bt_token r) \<and> ivt_redeemed j \<noteq> None"
        by (rule bexI [rotated]) (simp add: i(2))
      then have "entry_used db' e" by (simp add: redeem(2) entry_used_def)
      ultimately show ?thesis by blast
    qed
  qed
  with s show "\<not> entry_used db e" "entry_used (snd (server_step E db tx)) e" by simp_all
qed

lemma entry_of_once: "distinct (entry_of E tx a)"
  by (cases a; cases tx) (simp_all add: entry_of_def)

lemma entries_Cons:
  "entries E db (tx # txs) = entry_of E tx (fst (server_step E db tx)) @ entries E (snd (server_step E db tx)) txs"
  by (simp add: entries_def)

lemma entries_new:
  "server_inv db \<Longrightarrow> distinct (entries E db txs) \<and> (\<forall>e \<in> set (entries E db txs). \<not> entry_used db e)"
proof (induction txs arbitrary: db)
  case Nil
  show ?case by (simp add: entries_def)
next
  case (Cons tx txs)
  let ?db = "snd (server_step E db tx)"
  have "server_inv ?db" and below: "srv_below db ?db"
    using server_step_good [of db E tx] Cons.prems by (simp_all add: good_def)
  note rest = Cons.IH [OF this(1)] and new = entry_step [OF Cons.prems]
  from rest new(2) have "set (entry_of E tx (fst (server_step E db tx))) \<inter> set (entries E ?db txs) = {}" by blast
  with rest new(1) below show ?case by (auto simp: entries_Cons entry_of_once dest: entry_used_stays)
qed

text \<open>
  C13: over any history the server is claimed at most once, and each invitation, known by the hash
  of its token, lets in at most one account.
\<close>

theorem entry_at_most_once: "distinct (entries E (server_start kvs) txs)"
  using entries_new [OF server_start_inv] by blast


section \<open>What is issued is accepted\<close>

lemma issue_session_login:
  assumes "issue_session E d u dv db = Inr (x, db')"
  shows "\<exists>s. x = (url64 E (rnd_a d), url64 E (rnd_b d), lg_expires s) \<and> logins db' = logins db @ [s] \<and> lg_user s = u
     \<and> lg_token_hash s = hash_hex E (url64 E (rnd_a d)) \<and> lg_csrf_hash s = hash_hex E (url64 E (rnd_b d))
     \<and> (\<forall>y \<in> set (logins db). lg_token_hash y \<noteq> hash_hex E (url64 E (rnd_a d)))"
  using assms
  by (auto simp: issue_session_def insert_login_def db_insert_cases list_ex_iff tx_simps)

lemma stores_logins:
  "insert_peer u db = Inr db' \<Longrightarrow> logins db' = logins db"
  "insert_setting k v db = Inr db' \<Longrightarrow> logins db' = logins db"
  "insert_device v' db = Inr db' \<Longrightarrow> logins db' = logins db"
  "insert_member m db = Inr db' \<Longrightarrow> logins db' = logins db"
  "record_event d actor a ty tgt db = Inr db' \<Longrightarrow> logins db' = logins db"
  by (auto simp: insert_peer_def insert_setting_def insert_device_def insert_member_def db_insert_cases
      dest: event_rows split: if_splits)

lemma claim_login:
  assumes "server_claim_tx E d r db = Inr (x, db')"
  shows "\<exists>s. x = (url64 E (rnd_a d), url64 E (rnd_b d), lg_expires s) \<and> logins db' = logins db @ [s] \<and> lg_user s = id_a d
     \<and> lg_token_hash s = hash_hex E (url64 E (rnd_a d)) \<and> lg_csrf_hash s = hash_hex E (url64 E (rnd_b d))
     \<and> (\<forall>y \<in> set (logins db). lg_token_hash y \<noteq> hash_hex E (url64 E (rnd_a d)))"
  using assms
  by (auto simp: server_claim_tx_def drop_setting_def tx_simps split: if_splits
      dest!: stores_logins issue_session_login)

lemma redeem_login:
  assumes "redeem_tx E d r db = Inr (x, db')"
  shows "\<exists>s. x = (url64 E (rnd_a d), url64 E (rnd_b d), lg_expires s) \<and> logins db' = logins db @ [s] \<and> lg_user s = id_a d
     \<and> lg_token_hash s = hash_hex E (url64 E (rnd_a d)) \<and> lg_csrf_hash s = hash_hex E (url64 E (rnd_b d))
     \<and> (\<forall>y \<in> set (logins db). lg_token_hash y \<noteq> hash_hex E (url64 E (rnd_a d)))"
  using assms
  by (auto simp: redeem_tx_def mark_redeemed_def tx_simps split: if_splits option.splits
      dest!: stores_logins issue_session_login)

lemma server_cookies:
  assumes "append_session_cookies E token csrf = Inr cookies" and "plain token" and "plain csrf"
    and "srv_header E ''cookie'' hs = Some (browser_cookies cookies)"
  shows "srv_cookie E hs ''c6_session'' = Some token" and "srv_cookie E hs ''c6_csrf'' = Some csrf"
proof -
  have plains: "plain ''c6_session''" "plain ''c6_csrf''" "CHR ''='' \<notin> set ''c6_session''" "CHR ''='' \<notin> set ''c6_csrf''"
    by (simp_all add: plain_def)
  from assms(1) have "cookies = [login_cookie E token, proof_cookie E csrf]"
    by (auto simp: append_session_cookies_def split: if_splits)
  moreover have "cookie_pair (login_cookie E token) = ''c6_session'' @ CHR ''='' # token"
    using cookie_pair_of [OF plains(1) assms(2)] by (simp add: login_cookie_def)
  moreover have "cookie_pair (proof_cookie E csrf) = ''c6_csrf'' @ CHR ''='' # csrf"
    using cookie_pair_of [OF plains(2) assms(3)] by (simp add: proof_cookie_def)
  ultimately have "cookie_pairs (browser_cookies cookies) = [(''c6_session'', token), (''c6_csrf'', csrf)]"
    using cookie_pairs_two [OF plains(1,2) assms(2,3) plains(3,4)] by simp
  then show "srv_cookie E hs ''c6_session'' = Some token" "srv_cookie E hs ''c6_csrf'' = Some csrf"
    by (simp_all add: srv_cookie_def assms(4))
qed

text \<open>A table to which the account, its device and its session were just added.\<close>

lemma fresh_login_live:
  assumes "peers db' = us @ [\<lparr>usr_id = lg_user s, usr_name = n, usr_revoked = None\<rparr>]" and "\<not> has usr_id (lg_user s) us"
    and "access_ok db'" and "schema_ok db'" and "s \<in> set (logins db')" and "lg_revoked s = None" and "t < lg_expires s"
  shows "login_live db' t s" and "principal_of db' s = \<lparr>pr_user = lg_user s, pr_name = n, pr_login = lg_id s,
     pr_csrf_hash = lg_csrf_hash s, pr_device = lg_device s\<rparr>"
proof -
  have "find (\<lambda>r. usr_id r = lg_user s) us = None" using assms(2) by (auto simp: find_None_iff list_ex_iff)
  then have peer: "find_peer db' (lg_user s) = Some \<lparr>usr_id = lg_user s, usr_name = n, usr_revoked = None\<rparr>"
    by (simp add: find_peer_def assms(1) find_append)
  have "dev_revoked v = None" if "find_device db' (lg_device s) = Some v" for v
    using that assms(3,5,6) by (auto simp: find_device_def access_ok_def split: option.splits bind_splits dest!: find_SomeD)
  with peer assms(6,7) show "login_live db' t s"
    by (auto simp: login_live_def peer_live_def split: option.splits)
  from peer show "principal_of db' s = \<lparr>pr_user = lg_user s, pr_name = n, pr_login = lg_id s,
     pr_csrf_hash = lg_csrf_hash s, pr_device = lg_device s\<rparr>"
    by (simp add: principal_of_def)
qed

lemma entered_session:
  assumes "server_inv db" and "server_claim_tx E d r db = Inr (x, db') \<or> redeem_tx E d r db = Inr (x, db')"
  obtains s where "x = (url64 E (rnd_a d), url64 E (rnd_b d), lg_expires s)"
    and "\<And>t. t < lg_expires s \<Longrightarrow> find_login db' (hash_hex E (url64 E (rnd_a d))) t = Some s"
    and "lg_csrf_hash s = hash_hex E (url64 E (rnd_b d))"
    and "pr_user (principal_of db' s) = id_a d" and "pr_name (principal_of db' s) = bt_name r"
proof -
  from assms(2) obtain s where x: "x = (url64 E (rnd_a d), url64 E (rnd_b d), lg_expires s)"
    and new: "logins db' = logins db @ [s]" and u: "lg_user s = id_a d"
    and th: "lg_token_hash s = hash_hex E (url64 E (rnd_a d))" and ch: "lg_csrf_hash s = hash_hex E (url64 E (rnd_b d))"
    and unused: "\<forall>y \<in> set (logins db). lg_token_hash y \<noteq> hash_hex E (url64 E (rnd_a d))"
    using claim_login redeem_login by metis
  have rows: "lg_revoked s = None \<and> \<not> has usr_id (lg_user s) (peers db)
      \<and> peers db' = peers db @ [\<lparr>usr_id = lg_user s, usr_name = bt_name r, usr_revoked = None\<rparr>]"
    using assms(2)
  proof
    assume "server_claim_tx E d r db = Inr (x, db')"
    then show ?thesis by (rule server_claim_rows) (use new u in simp)
  next
    assume "redeem_tx E d r db = Inr (x, db')"
    then show ?thesis by (rule redeem_rows) (use new u in simp)
  qed
  have "good db db'" using assms(2) by (elim disjE) (erule good_claim, erule good_redeem)
  with assms(1) have "server_inv db'" by (simp add: good_def)
  then have inv: "access_ok db'" "schema_ok db'" by (simp_all add: server_inv_def)
  have "s \<in> set (logins db')" by (simp add: new)
  with fresh_login_live [of db' "peers db" s "bt_name r"] rows inv
  have live: "t < lg_expires s \<Longrightarrow> login_live db' t s" for t by simp
  have p: "pr_user (principal_of db' s) = id_a d" "pr_name (principal_of db' s) = bt_name r"
    using rows u by (auto simp: principal_of_def find_peer_def find_append find_None_iff list_ex_iff split: option.splits dest!: find_SomeD)
  have "find_login db' (hash_hex E (url64 E (rnd_a d))) t = Some s" if "t < lg_expires s" for t
    using live [OF that] th unused
    by (auto simp: find_login_def new find_append find_None_iff split: option.splits dest!: find_SomeD)
  from that [OF x this ch p] show thesis .
qed

lemma session_started:
  "server_claim E d r st = (Inr (SessionStarted u name csrf expires cookies), st') \<Longrightarrow>
     \<exists>token. server_claim_tx E d r (sdb st) = Inr ((token, csrf, expires), sdb st')
       \<and> append_session_cookies E token csrf = Inr cookies \<and> u = id_a d \<and> name = bt_name r \<and> \<not> lock_poisoned st'"
  "redeem_invite E d r st = (Inr (SessionStarted u name csrf expires cookies), st') \<Longrightarrow>
     \<exists>token. redeem_tx E d r (sdb st) = Inr ((token, csrf, expires), sdb st')
       \<and> append_session_cookies E token csrf = Inr cookies \<and> u = id_a d \<and> name = bt_name r \<and> \<not> lock_poisoned st'"
  by (auto simp: server_claim_def redeem_invite_def session_reply_def transact_def locked_def tx_simps
      split: sum.splits prod.splits if_splits)

text \<open>
  C32: the session a claim or a redemption answers with works.  A browser that sends back the two
  cookies of the answer, and the CSRF token of the answer in the header, is authenticated for
  changes as the account that was made, until the session expires.
\<close>

theorem entry_session_authenticates:
  assumes "server_inv (sdb st)"
    and "(Inr (SessionStarted u name csrf expires cookies), st') \<in> {server_claim E d r st, redeem_invite E d r st}"
    and "plain (url64 E (rnd_a d))" and "plain (url64 E (rnd_b d))"
    and "srv_header E ''cookie'' hs = Some (browser_cookies cookies)"
    and "srv_header E ''x-c6-csrf'' hs = Some csrf" and "map_of hs ''authorization'' = None"
    and "t_auth d' < expires"
  shows "\<exists>p. authenticate E d' hs True st' = Inr p \<and> pr_user p = u \<and> pr_name p = name"
proof -
  from assms(2) obtain token db' where tx: "server_claim_tx E d r (sdb st) = Inr ((token, csrf, expires), db')
      \<or> redeem_tx E d r (sdb st) = Inr ((token, csrf, expires), db')"
    and cookies: "append_session_cookies E token csrf = Inr cookies"
    and st': "u = id_a d" "name = bt_name r" "sdb st' = db'" "\<not> lock_poisoned st'"
    by (auto dest!: session_started simp: eq_commute [of "(_, _)"])
  from entered_session [OF assms(1) tx] obtain s where "token = url64 E (rnd_a d)" "csrf = url64 E (rnd_b d)"
    "expires = lg_expires s" and find: "\<And>t. t < lg_expires s \<Longrightarrow> find_login db' (hash_hex E (url64 E (rnd_a d))) t = Some s"
    and ch: "lg_csrf_hash s = hash_hex E (url64 E (rnd_b d))"
    and p: "pr_user (principal_of db' s) = id_a d" "pr_name (principal_of db' s) = bt_name r"
    by (metis prod.inject)
  note x = this(1-3)
  have hdrs: "srv_cookie E hs ''c6_session'' = Some (url64 E (rnd_a d))" "srv_cookie E hs ''c6_csrf'' = Some (url64 E (rnd_b d))"
    using server_cookies [OF cookies _ _ assms(5)] assms(3,4) by (simp_all add: x)
  have "find_login db' (hash_hex E (url64 E (rnd_a d))) (t_auth d') = Some s" using find assms(8) x by simp
  moreover have "pr_csrf_hash (principal_of db' s) = hash_hex E (url64 E (rnd_b d))"
    by (simp add: principal_of_def ch)
  ultimately have "authenticate E d' hs True st' = Inr (principal_of db' s)"
    using hdrs st' assms(6,7) x(2)
    by (simp add: authenticate_def locked_def check_proof_def secure_eq_iff Let_def)
  with p st' show ?thesis by simp
qed

theorem entry_session_authenticates_witness:
  "\<exists>p. authenticate desk_server desk_later
      [(''cookie'', browser_cookies [login_cookie desk_server desk_session, proof_cookie desk_server desk_csrf]),
       (''x-c6-csrf'', desk_csrf)] True desk_state = Inr p \<and> pr_user p = ''u1'' \<and> pr_name p = ''Ada''"
proof (rule entry_session_authenticates [where st = desk_empty and d = desk_fresh and r = desk_claim])
  show "server_inv (sdb desk_empty)" by (simp add: desk_empty_def server_start_inv)
  show "(Inr (SessionStarted ''u1'' ''Ada'' desk_csrf (5 + 2592000 * 10 ^ 9)
        [login_cookie desk_server desk_session, proof_cookie desk_server desk_csrf]), desk_state)
      \<in> {server_claim desk_server desk_fresh desk_claim desk_empty, redeem_invite desk_server desk_fresh desk_claim desk_empty}"
    by (simp add: desk_answer)
qed (simp_all only: desk_url64s desk_plain, simp_all add: srv_header_def desk_server_def desk_later_def desk_fresh_def desk_session_def desk_csrf_def)

section \<open>Credentials that were issued\<close>

text \<open>What \<open>URL_SAFE_NO_PAD\<close> does with given bytes.\<close>

definition url64_ok :: "('g, 'tz, 'cron) server_env \<Rightarrow> bytes \<Rightarrow> bool" where
  "url64_ok E bs \<longleftrightarrow> unurl64 E (url64 E bs) = Some bs \<and> length (url64 E bs) = (4 * length bs + 2) div 3
     \<and> \<not> list_ex ascii_ws (url64 E bs)"

lemma issued_token_parses:
  assumes "url64_ok E pub" and "url64_ok E proof" and "length pub = 12" and "length proof = 32"
  shows "parse_opaque_token E (token_prefix ty @ ''_'' @ url64 E pub @ ''_'' @ url64 E proof) ty = Inr (url64 E pub)"
proof -
  let ?r = "url64 E pub @ ''_'' @ url64 E proof"
  have "length (url64 E pub) = 16" "length (url64 E proof) = 43" using assms by (simp_all add: url64_ok_def)
  note len = this
  have "\<not> list_ex ascii_ws ((token_prefix ty @ ''_'') @ ?r)"
    using assms by (cases ty) (simp_all add: url64_ok_def ascii_ws_def)
  moreover have "\<not> 256 < length ((token_prefix ty @ ''_'') @ ?r)" by (cases ty) (simp_all add: len)
  moreover have "strip_prefix (token_prefix ty @ ''_'') ((token_prefix ty @ ''_'') @ ?r) = Some ?r"
    by (simp only: strip_prefix_Some)
  ultimately have "parse_opaque_token E ((token_prefix ty @ ''_'') @ ?r) ty = Inr (url64 E pub)"
    using assms unfolding parse_opaque_token_def
    by (simp only: if_False simp_thms ok_or.simps rbind.simps) (simp add: len nth_append url64_ok_def Let_def)
  then show ?thesis by simp
qed

lemma key_made:
  assumes "create_key_tx E d r token expires cf p db = Inr (x, db')"
  shows "\<exists>k. api_keys db' = api_keys db @ [k] \<and> peers db' = peers db \<and> devices db' = devices db
     \<and> (\<forall>j \<in> set (api_keys db). key_public j \<noteq> url64 E (rnd_public d))
     \<and> key_public k = url64 E (rnd_public d) \<and> key_verifier k = hash_hex E token \<and> key_user k = pr_user p
     \<and> key_device k = pr_device p \<and> key_type k = credential_type_as_str (kr_type r)
     \<and> key_scopes k = scopes_json E (sorted_scopes (kr_scopes r)) \<and> (key_space k, key_project k) = cf
     \<and> key_expires k = expires \<and> key_revoked k = None"
  using assms
  by (auto simp: create_key_tx_def insert_key_def list_ex_iff tx_simps split: if_splits dest!: event_rows)

lemma answered_tx:
  assumes "reply_with (\<lambda>_. Inr a) (transact body st) = (Inr b, st')"
  shows "a = b \<and> \<not> lock_poisoned st' \<and> (\<exists>x. body (sdb st) = Inr (x, sdb st'))"
  using assms by (auto simp: reply_with_def transact_def locked_def split: sum.splits prod.splits if_splits)

lemma credential_created:
  assumes "create_credential_as E d r p st = (Inr (CredentialCreated k label scopes created expires token), st')"
  shows "scopes = sorted_scopes (kr_scopes r) \<and> \<not> lock_poisoned st'
     \<and> token = token_prefix (kr_type r) @ ''_'' @ url64 E (rnd_public d) @ ''_'' @ url64 E (rnd_a d)
     \<and> (\<exists>cf. validate_credential_restriction E (pr_user p) (kr_restriction r) st = Inr cf
          \<and> create_key_tx E d r token expires cf p (sdb st) = Inr ((), sdb st'))"
proof -
  let ?token = "token_prefix (kr_type r) @ ''_'' @ url64 E (rnd_public d) @ ''_'' @ url64 E (rnd_a d)"
  let ?expires = "case kr_expires r of None \<Rightarrow> t_now d + 30 * day | Some t \<Rightarrow> t"
  let ?answer = "CredentialCreated (id_a d) (kr_label r) (sorted_scopes (kr_scopes r)) (t_now d) ?expires ?token"
  let ?go = "\<lambda>cf. reply_with (\<lambda>_. Inr ?answer) (transact (create_key_tx E d r ?token ?expires cf p) st)"
  have checked: "\<exists>cf. validate_credential_restriction E (pr_user p) (kr_restriction r) st = Inr cf \<and> ?go cf = (Inr a, st')"
    if "(case andThen c1 (andThen c2 (andThen c3 (andThen c4 (andThen c5
        (validate_credential_restriction E (pr_user p) (kr_restriction r) st))))) of
          Inl e \<Rightarrow> (Inl (Refuse e), st) | Inr cf \<Rightarrow> ?go cf) = (Inr a, st')" for c1 c2 c3 c4 c5 a
    using that by (auto simp: rbind_Inr_iff simp del: fst_conv split: sum.splits)
  from assms obtain cf where cf: "validate_credential_restriction E (pr_user p) (kr_restriction r) st = Inr cf"
    and ok: "?go cf = (Inr (CredentialCreated k label scopes created expires token), st')"
    unfolding create_credential_as_def Let_def by (blast dest: checked)
  from answered_tx [OF ok] cf show ?thesis by auto
qed

lemma session_account_live:
  assumes "schema_ok db" and "s \<in> set (logins db)" and "login_live db t s"
  shows "peer_live db (lg_user s)"
    and "lg_device s \<noteq> None \<Longrightarrow> \<exists>v. find_device db (lg_device s) = Some v \<and> dev_revoked v = None"
proof -
  show "peer_live db (lg_user s)" using assms(3) by (simp add: login_live_def)
  assume "lg_device s \<noteq> None"
  then obtain x where x: "lg_device s = Some x" by blast
  have "refers_opt lg_device (logins db) dev_id (devices db)" using assms(1) by (simp add: schema_ok_def)
  with assms(2) x have "x \<in> dev_id ` set (devices db)" by (fastforce simp: refers_opt_def)
  then obtain v where "find_device db (lg_device s) = Some v"
    by (cases "find_device db (lg_device s)") (auto simp: x find_device_def find_None_iff)
  with assms(3) show "\<exists>v. find_device db (lg_device s) = Some v \<and> dev_revoked v = None"
    by (simp add: login_live_def)
qed

text \<open>
  The token a created credential answers with is accepted, for exactly the scopes of the
  answer, as the account that created it and confined to what the request selected, until it
  expires.
\<close>

theorem issued_credential_authenticates:
  assumes "server_inv (sdb st)" and "authenticate E d hs True st = Inr p"
    and "create_credential_as E d r p st = (Inr (CredentialCreated k label scopes created expires token), st')"
    and "url64_ok E (rnd_public d)" and "url64_ok E (rnd_a d)" and "length (rnd_public d) = 12" and "length (rnd_a d) = 32"
    and "scopes_of E (scopes_json E scopes) = Some scopes"
    and "t_auth d' < expires"
  shows "\<exists>q. validate_credential_restriction E (pr_user p) (kr_restriction r) st = Inr (tp_space q, tp_project q)
     \<and> tp_user q = pr_user p \<and> tp_name q = pr_name p
     \<and> fst (authenticate_opaque_token E d' token (kr_type r) sc st')
       = (if sc \<in> set scopes then Inr q else Inl (Forbidden ''credential scope does not allow this operation''))"
proof -
  from assms(2) obtain s where s: "s \<in> set (logins (sdb st))" "login_live (sdb st) (t_auth d) s"
    and p: "p = principal_of (sdb st) s"
    by (rule authenticate_session) (auto simp: has_session_def)
  from credential_created [OF assms(3)] obtain cf where conf: "validate_credential_restriction E (pr_user p) (kr_restriction r) st = Inr cf"
    and tx: "create_key_tx E d r token expires cf p (sdb st) = Inr ((), sdb st')"
    and sc: "scopes = sorted_scopes (kr_scopes r)" and live: "\<not> lock_poisoned st'"
    and token: "token = token_prefix (kr_type r) @ ''_'' @ url64 E (rnd_public d) @ ''_'' @ url64 E (rnd_a d)"
    by blast
  from key_made [OF tx] obtain k where k: "api_keys (sdb st') = api_keys (sdb st) @ [k]" "peers (sdb st') = peers (sdb st)"
     "devices (sdb st') = devices (sdb st)" "\<forall>j \<in> set (api_keys (sdb st)). key_public j \<noteq> url64 E (rnd_public d)"
     "key_public k = url64 E (rnd_public d)" "key_verifier k = hash_hex E token" "key_user k = pr_user p"
     "key_device k = pr_device p" "key_type k = credential_type_as_str (kr_type r)"
     "key_scopes k = scopes_json E scopes" "(key_space k, key_project k) = cf"
     "key_expires k = expires" "key_revoked k = None"
    unfolding sc by blast
  have "schema_ok (sdb st)" using assms(1) by (simp add: server_inv_def)
  note acct = session_account_live [OF this s]
  have same: "find_peer (sdb st') = find_peer (sdb st)" "find_device (sdb st') = find_device (sdb st)"
    by (simp_all add: find_peer_def find_device_def k fun_eq_iff)
  have "key_live (sdb st') (t_auth d') k"
    using acct assms(9) k by (cases "lg_device s") (auto simp: key_live_def peer_live_def same p principal_of_def)
  then have find: "find_key (sdb st') (url64 E (rnd_public d)) (kr_type r) (t_auth d') = Some k"
    using k by (auto simp: find_key_def find_append find_None_iff split: option.splits dest!: find_SomeD)
  let ?q = "\<lparr>tp_user = pr_user p, tp_name = pr_name p, tp_space = key_space k, tp_project = key_project k\<rparr>"
  have "pr_name p = (case find_peer (sdb st') (pr_user p) of None \<Rightarrow> [] | Some u \<Rightarrow> usr_name u)"
    by (simp add: p principal_of_def same)
  then have "fst (authenticate_opaque_token E d' token (kr_type r) sc st')
      = (if sc \<in> set scopes then Inr ?q else Inl (Forbidden ''credential scope does not allow this operation''))"
    using issued_token_parses [OF assms(4-7), of "kr_type r"] find live k assms(8)
    by (simp add: token authenticate_opaque_token_def transact_def locked_def use_key_def secure_eq_iff)
  with conf k(11) show ?thesis by (intro exI [of _ ?q]) simp
qed

theorem issued_credential_authenticates_witness:
  "\<exists>q :: token_principal. validate_credential_restriction desk_server ''u1'' None desk_state = Inr (tp_space q, tp_project q)
     \<and> tp_user q = ''u1'' \<and> tp_name q = ''Ada''
     \<and> fst (authenticate_opaque_token desk_server desk_later desk_token Git GitWrite desk_keyed)
       = Inl (Forbidden ''credential scope does not allow this operation'')"
  using issued_credential_authenticates [OF _ desk_authenticated desk_credential, where d' = desk_later and sc = GitWrite]
    desk_inv desk_bytes
  by (simp add: desk_state_def desk_key_request_def desk_owner_def desk_codec url64_ok_def day_def srv_second_def)

section \<open>Who reads a repository over Git\<close>

definition git_credential ::
  "('g, 'tz, 'cron) server_env \<Rightarrow> fresh \<Rightarrow> header_list \<Rightarrow> server_db \<Rightarrow> api_key \<Rightarrow> bool" where
  "git_credential E d hs db k \<longleftrightarrow> srv_cookie E hs ''c6_session'' = None \<and> k \<in> set (api_keys db)
     \<and> key_live db (t_auth d) k \<and> key_type k = ''git''
     \<and> (\<exists>token scopes. basic_token E hs = Some token \<and> key_verifier k = hash_hex E token
          \<and> scopes_of E (key_scopes k) = Some scopes \<and> GitRead \<in> set scopes)"

definition key_reaches :: "api_key \<Rightarrow> project \<Rightarrow> bool" where
  "key_reaches k p \<longleftrightarrow> key_space k \<in> {None, Some (prj_space p)} \<and> key_project k \<in> {None, Some (prj_id p)}"

lemma touch_key_keeps [simp]:
  "spaces (touch_key k t db) = spaces db" "projects (touch_key k t db) = projects db" "members (touch_key k t db) = members db"
  by (simp_all add: touch_key_def)

lemma suffix_cut: "strip_suffix t s = Some r \<Longrightarrow> s = r @ t"
  by (auto simp: strip_suffix_def suffix_def split: if_splits)

lemma git_key_used:
  assumes "authenticate_git E d hs st = (Inr p, st')"
  obtains k where "git_credential E d hs (sdb st) k" and "tp_user p = key_user k" and "tp_space p = key_space k"
    and "tp_project p = key_project k" and "sdb st' = touch_key (key_id k) (t_used d) (sdb st)"
proof -
  from assms obtain token public where t: "srv_cookie E hs ''c6_session'' = None" "basic_token E hs = Some token"
    and tx: "transact (use_key E d token Git GitRead public) st = (Inr p, st')"
    by (auto simp: authenticate_git_def authenticate_opaque_token_def split: if_splits option.splits prod.splits sum.splits)
  from tx have "use_key E d token Git GitRead public (sdb st) = Inr (p, sdb st')"
    by (auto simp: transact_def locked_def split: sum.splits prod.splits if_splits)
  then obtain k scopes where k: "find_key (sdb st) public Git (t_auth d) = Some k" "key_verifier k = hash_hex E token"
     "scopes_of E (key_scopes k) = Some scopes" "GitRead \<in> set scopes" "sdb st' = touch_key (key_id k) (t_used d) (sdb st)"
     "tp_user p = key_user k" "tp_space p = key_space k" "tp_project p = key_project k"
    by (auto simp: use_key_def tx_simps secure_eq_iff)
  from k(1) have "k \<in> set (api_keys (sdb st))" "key_live (sdb st) (t_auth d) k" "key_type k = ''git''"
    by (auto simp: find_key_def dest!: find_SomeD)
  with t k have "git_credential E d hs (sdb st) k" by (auto simp: git_credential_def)
  from that [OF this k(6-8,5)] show thesis .
qed

lemma git_project_member:
  assumes "git_project db p ws slug required = Inr prj"
  obtains w x where "w \<in> set (spaces db)" and "x \<in> set (projects db)" and "spc_slug w = ws" and "prj_slug x = slug"
    and "spc_id w = prj_space x" and "prj_id x = prj" and "has_role db (prj_space x) (tp_user p) required"
    and "tp_space p \<in> {None, Some (prj_space x)}" and "tp_project p \<in> {None, Some prj}"
  using assms
  by (auto simp: git_project_def tx_simps bind_eq_Some_conv confined_def has_role_def not_less split: prod.splits
      dest!: find_SomeD)

lemma auth_gits: "authenticate_git E d hs st = (x, st') \<Longrightarrow> gits st' = gits st"
  by (auto simp: authenticate_git_def authenticate_opaque_token_def transact_def split: if_splits option.splits prod.splits sum.splits)

lemma admitted_is_authorised:
  assumes "git_admitted E d hs ws name st = (Inr (be, protocol, u, prj, rep), st')"
  obtains k p w where "git_credential E d hs (sdb st) k" and "key_user k = u" and "p \<in> set (projects (sdb st))" and "prj_id p = prj"
    and "w \<in> set (spaces (sdb st))" and "spc_id w = prj_space p" and "spc_slug w = ws" and "name = prj_slug p @ ''.git''"
    and "has_role (sdb st) (prj_space p) u ''reader''" and "key_reaches k p"
    and "git_http E = Some be" and "git_protocol_header E hs = Inr protocol"
    and "git_open (git E) prj (gits st) = (Inr rep, gits st')"
proof -
  from assms obtain p st1 slug where auth: "authenticate_git E d hs st = (Inr p, st1)"
    and slug: "git_project_slug name = Inr slug" and prj: "git_project (sdb st1) p ws slug ''reader'' = Inr prj"
    and u: "u = tp_user p" and be: "git_http E = Some be" "git_protocol_header E hs = Inr protocol"
    and op: "git_open (git E) prj (gits st1) = (Inr rep, gits st')"
    by (auto simp: git_admitted_def st_then_def st_check_def authorize_git_project_def locked_def tx_simps
        split: prod.splits sum.splits if_splits)
  from auth obtain k where k: "git_credential E d hs (sdb st) k" "tp_user p = key_user k" "tp_space p = key_space k"
    "tp_project p = key_project k" "sdb st1 = touch_key (key_id k) (t_used d) (sdb st)"
    by (rule git_key_used)
  from prj obtain w x where "w \<in> set (spaces (sdb st1))" "x \<in> set (projects (sdb st1))" "spc_slug w = ws" "prj_slug x = slug"
    "spc_id w = prj_space x" "prj_id x = prj" "has_role (sdb st1) (prj_space x) (tp_user p) ''reader''"
    "tp_space p \<in> {None, Some (prj_space x)}" "tp_project p \<in> {None, Some prj}"
    by (rule git_project_member)
  moreover have "name = slug @ ''.git''"
    using slug by (auto simp: git_project_slug_def split: option.splits if_splits dest!: suffix_cut)
  ultimately show thesis using k u be op auth_gits [OF auth]
    by (intro that [of k x w]) (simp_all add: key_reaches_def has_role_def member_role_def)
qed

text \<open>
  C22: a Git request is answered by the backend only for one who may read the project.  Either both
  endpoints refuse the request whatever the backend, the query and the body are, or the request
  presents, as its only \<open>Authorization\<close> header with the fixed user name, a live Git credential that
  may read, of a member that is at least a reader of the workspace the path names, for the project
  the path names, within what the credential is confined to; then what the endpoints answer is
  what the backend answers on the repository opened for that project, for the credential's user.
\<close>

theorem git_requests_are_authorised:
  "(\<exists>e. \<forall>w query body.
      fst (git_info_refs E w d hs ws name query st) = Some (Inl e) \<and> fst (git_upload_pack E w d hs ws name query body st) = Some (Inl e))
   \<or> (\<exists>k p s be protocol rep g.
      git_credential E d hs (sdb st) k \<and> p \<in> set (projects (sdb st)) \<and> s \<in> set (spaces (sdb st)) \<and> spc_id s = prj_space p
      \<and> spc_slug s = ws \<and> name = prj_slug p @ ''.git'' \<and> has_role (sdb st) (prj_space p) (key_user k) ''reader'' \<and> key_reaches k p
      \<and> git_http E = Some be \<and> git_protocol_header E hs = Inr protocol \<and> git_open (git E) (prj_id p) (gits st) = (Inr rep, g)
      \<and> (\<forall>w query body.
           fst (git_info_refs E w d hs ws name query st) =
             (case query of None \<Rightarrow> Some (Inl (GitHttpError 400 ''missing Git service query''))
              | Some q \<Rightarrow> map_option (\<lambda>r. rbind (map_err map_smart_http_error r) (smart_http_response E))
                  (advertise w be (git_path (git E) rep g) q protocol (key_user k)))
         \<and> fst (git_upload_pack E w d hs ws name query body st) =
             map_option (\<lambda>r. rbind (map_err map_smart_http_error r) (smart_http_response E))
               (upload_pack w be (git_path (git E) rep g) query (srv_header E ''content-type'' hs) protocol (key_user k) body)))"
proof (cases "git_admitted E d hs ws name st")
  case (Pair x st')
  show ?thesis
  proof (cases x)
    case (Inl e)
    with Pair show ?thesis by (intro disjI1 exI [of _ e]) (simp add: git_info_refs_def git_upload_pack_def)
  next
    case (Inr y)
    then obtain be protocol u prj rep where adm: "git_admitted E d hs ws name st = (Inr (be, protocol, u, prj, rep), st')"
      using Pair by (cases y) auto
    then obtain k p s where k: "git_credential E d hs (sdb st) k" "key_user k = u" and p: "p \<in> set (projects (sdb st))" "prj_id p = prj"
      "s \<in> set (spaces (sdb st))" "spc_id s = prj_space p" "spc_slug s = ws" "name = prj_slug p @ ''.git''"
      "has_role (sdb st) (prj_space p) u ''reader''" "key_reaches k p"
      and g: "git_http E = Some be" "git_protocol_header E hs = Inr protocol" "git_open (git E) prj (gits st) = (Inr rep, gits st')"
      by (rule admitted_is_authorised)
    have answers: "\<forall>w query body.
           fst (git_info_refs E w d hs ws name query st) =
             (case query of None \<Rightarrow> Some (Inl (GitHttpError 400 ''missing Git service query''))
              | Some q \<Rightarrow> map_option (\<lambda>r. rbind (map_err map_smart_http_error r) (smart_http_response E))
                  (advertise w be (git_path (git E) rep (gits st')) q protocol u))
         \<and> fst (git_upload_pack E w d hs ws name query body st) =
             map_option (\<lambda>r. rbind (map_err map_smart_http_error r) (smart_http_response E))
               (upload_pack w be (git_path (git E) rep (gits st')) query (srv_header E ''content-type'' hs) protocol u body)"
      by (simp add: git_info_refs_def git_upload_pack_def adm split: option.split)
    note user = k(2) [symmetric]
    show ?thesis
      by (rule disjI2, rule exI [of _ k], rule exI [of _ p], rule exI [of _ s], rule exI [of _ be], rule exI [of _ protocol],
          rule exI [of _ rep], rule exI [of _ "gits st'"])
        (intro conjI k(1) p(1) p(3-6) p(7) [unfolded user] p(8) g(1,2) g(3) [folded p(2)] answers [unfolded user])
  qed
qed

text \<open>A request that is served.\<close>

lemma clone_is_authorised:
  "\<exists>k p w. git_credential desk_forge desk_fresh desk_clone desk_full k \<and> key_user k = ''u1'' \<and> p \<in> set (projects desk_full)
     \<and> prj_id p = ''p1'' \<and> w \<in> set (spaces desk_full) \<and> spc_id w = prj_space p \<and> spc_slug w = ''team''
     \<and> ''app.git'' = prj_slug p @ ''.git'' \<and> has_role desk_full (prj_space p) ''u1'' ''reader'' \<and> key_reaches k p"
proof -
  obtain st' where "git_admitted desk_forge desk_fresh desk_clone ''team'' ''app.git''
      \<lparr>sdb = desk_full, lock_poisoned = False, gits = [''p1''], token_file = False\<rparr>
    = (Inr (the (git_http desk_forge), None, ''u1'', ''p1'', desk_repository ''p1''), st')"
    using desk_admitted by (metis prod.collapse)
  then show ?thesis by (rule admitted_is_authorised) auto
qed

end
