(* ===== verification/Server_Refusals.thy ===== *)
theory Server_Refusals
  imports Server_Desk
begin

text \<open>
  A request to the control plane that is refused leaves the database as it was, but for the stamp of
  a credential's last use.
\<close>

definition clean :: "('g server_state \<Rightarrow> (server_error + 'a) \<times> 'g server_state) \<Rightarrow> bool" where
  "clean m \<longleftrightarrow> (\<forall>st e st'. m st = (Inl e, st') \<longrightarrow> sdb st' = sdb st)"

definition refuses :: "('g server_state \<Rightarrow> 'g reply) \<Rightarrow> bool" where
  "refuses m \<longleftrightarrow> (\<forall>st e st'. m st = (Inl (Refuse e), st') \<longrightarrow> sdb st' = sdb st)"

lemma clean_reads: "reads_only m \<Longrightarrow> clean m"
  unfolding reads_only_def clean_def by (metis snd_conv)

lemma refuses_reads: "reads_only m \<Longrightarrow> refuses m"
  unfolding reads_only_def refuses_def by (metis snd_conv)

lemma clean_transact: "clean (transact body)"
  by (auto simp: clean_def transact_def locked_def split: sum.splits prod.splits if_splits)

lemma clean_then:
  assumes "reads_only m" and "\<And>a. clean (k a)"
  shows "clean (st_then m k)"
  unfolding clean_def
proof (intro allI impI)
  fix st e st'
  assume run: "st_then m k st = (Inl e, st')"
  obtain r st1 where m: "m st = (r, st1)" by fastforce
  with assms(1) have "sdb st1 = sdb st" unfolding reads_only_def by (metis snd_conv)
  with run m assms(2) show "sdb st' = sdb st"
    by (cases r) (auto simp: st_then_def clean_def)
qed

lemma clean_then_pure: "clean m \<Longrightarrow> (\<And>a st. \<exists>x. k a st = (Inr x, st)) \<Longrightarrow> clean (st_then m k)"
  by (auto simp: clean_def st_then_def split: prod.splits sum.splits) (metis Inl_Inr_False prod.inject)

lemma refuses_reply: "clean m \<Longrightarrow> (\<And>a. \<exists>r. k a = Inr r) \<Longrightarrow> refuses (\<lambda>st. reply_with k (m st))"
  by (auto simp: clean_def refuses_def reply_with_def split: prod.splits sum.splits) (metis Inl_Inr_False)

lemma refuses_user: "(\<And>p. refuses (f p)) \<Longrightarrow> refuses (as_user E d hs csrf f)"
  by (auto simp: refuses_def as_user_def split: sum.splits)

lemma refuses_owner: "(\<And>p. refuses (f p)) \<Longrightarrow> refuses (as_owner E d hs csrf f)"
  unfolding as_owner_def by (rule refuses_user) (auto simp: refuses_def split: sum.splits)

lemma refuses_member: "(\<And>p. refuses (f p)) \<Longrightarrow> refuses (as_member E d hs k r csrf f)"
  by (auto simp: refuses_def as_member_def split: sum.splits)

lemma refuses_checked: "(\<And>a. refuses (f a)) \<Longrightarrow> refuses (\<lambda>st. case c st of Inl e \<Rightarrow> (Inl (Refuse e), st) | Inr a \<Rightarrow> f a st)"
  by (auto simp: refuses_def split: sum.splits)

lemma refuses_if: "refuses f \<Longrightarrow> refuses (\<lambda>st. if c st then (Inl e, st) else f st)"
  by (auto simp: refuses_def)

lemma cookies_panic [simp]: "append_session_cookies E a b \<noteq> Inl (Refuse e)"
  by (simp add: append_session_cookies_def)

lemma refuses_entry: "refuses (server_claim E d r)" "refuses (redeem_invite E d r)"
  by (auto simp: refuses_def server_claim_def redeem_invite_def session_reply_def transact_def locked_def
      split: sum.splits prod.splits if_splits)

lemma refuses_session:
  "refuses (renew_session_as E d tk csrf p)" "refuses (server_logout_as E d p)"
  by (auto simp: refuses_def renew_session_as_def server_logout_as_def transact_def locked_def
      split: sum.splits prod.splits if_splits)

lemma refuses_session_get: "refuses (session_get E d hs)"
proof (cases "rbind (ok_or Unauthenticated (srv_cookie E hs ''c6_session'')) (\<lambda>token.
    rbind (ok_or Unauthenticated (srv_cookie E hs ''c6_csrf'')) (\<lambda>csrf. Inr (token, csrf))) :: server_error + string \<times> string")
  case (Inl e)
  then show ?thesis by (auto simp: refuses_def session_get_def)
next
  case (Inr x)
  then have "session_get E d hs = as_user E d hs False (renew_session_as E d (fst x) (snd x))"
    by (simp add: session_get_def fun_eq_iff split: prod.split)
  then show ?thesis by (simp add: refuses_user refuses_session)
qed

lemma refuses_revocations:
  "refuses (revoke_session_as d k p)" "refuses (revoke_peer_as d k p)"
  "refuses (revoke_device_as d k p)" "refuses (revoke_credential_as d k p)"
  unfolding revoke_session_as_def revoke_peer_as_def revoke_device_as_def revoke_credential_as_def
  by (intro refuses_if refuses_reply clean_transact; simp)+

lemma refuses_access:
  "refuses (create_invite_as E d r p)" "refuses (create_credential_as E d kr p)"
  "refuses (server_create_workspace_as d slug name p)" "refuses (update_workspace_as d k slug name p)"
  unfolding create_invite_as_def create_credential_as_def server_create_workspace_as_def update_workspace_as_def Let_def
  by (intro refuses_checked refuses_reply clean_transact; simp)+

lemma refuses_work:
  "refuses (create_pull_as E d k pin p)" "refuses (create_deployment_as E d k sha env p)"
  "refuses (create_run_as E d k rin p)" "refuses (create_secret_as d k n p)"
  unfolding create_pull_as_def create_deployment_as_def create_run_as_def create_secret_as_def
  by (intro refuses_reply clean_then clean_transact reads_intros; simp)+

lemma clean_kept: "clean (st_then (transact body) (\<lambda>row. st_check (\<lambda>_. Inr (row, t))))"
  by (rule clean_then_pure [OF clean_transact]) (simp add: st_check_def)

lemma refuses_schedule: "refuses (create_schedule_as E d k i p)"
  unfolding create_schedule_as_def
  by (rule refuses_reply, rule clean_then, rule reads_check, rule clean_kept) auto

lemma refuses_create_project: "refuses (create_project_as E d r p)"
  unfolding refuses_def
proof (intro allI impI)
  fix st e st'
  assume "create_project_as E d r p st = (Inl (Refuse e), st')"
  then show "sdb st' = sdb st"
    using cleanup_sdb [of E "id_a d"]
    by (auto simp: create_project_as_def transact_def locked_def dest!: on_git_sdb
        split: sum.splits prod.splits if_splits) (metis snd_conv)+
qed


text \<open>\<open>update_project\<close> authenticates again for its answer; nothing it needs has changed meanwhile.\<close>

lemma update_project_rows:
  assumes "update_project_tx d k r p db = Inr (x, db')"
  shows "logins db' = logins db" "peers db' = peers db" "devices db' = devices db" "members db' = members db"
    "map_option prj_space (find_project db' k) = map_option prj_space (find_project db k)"
proof -
  from assms obtain e where db': "db' = db\<lparr>projects := update_where (\<lambda>x. prj_id x = k) (\<lambda>x. x\<lparr>prj_slug := pq_slug r,
      prj_name := pq_name r, prj_description := pq_description r, prj_branch := pq_branch r, prj_updated := t_now d\<rparr>)
      (projects db), server_events := e\<rparr>"
    by (auto simp: update_project_tx_def tx_simps split: if_splits dest!: event_rows)
  show "logins db' = logins db" "peers db' = peers db" "devices db' = devices db" "members db' = members db"
    by (simp_all add: db')
  have "map_option prj_space (find (\<lambda>x. prj_id x = k) (update_where (\<lambda>x. prj_id x = k) h ps))
      = map_option prj_space (find (\<lambda>x. prj_id x = k) ps)"
    if "\<And>x. prj_id (h x) = prj_id x" "\<And>x. prj_space (h x) = prj_space x" for h and ps :: "project list"
    using that by (induction ps) auto
  then show "map_option prj_space (find_project db' k) = map_option prj_space (find_project db k)"
    by (simp add: find_project_def db')
qed

lemma authenticate_again:
  assumes "authenticate E d hs True st = Inr p"
    and "logins (sdb st') = logins (sdb st)" "peers (sdb st') = peers (sdb st)" "devices (sdb st') = devices (sdb st)"
    and "lock_poisoned st' = lock_poisoned st"
  shows "authenticate E d hs False st' = Inr p"
proof -
  have same: "find_peer (sdb st') = find_peer (sdb st)" "find_device (sdb st') = find_device (sdb st)"
    by (simp_all add: find_peer_def find_device_def assms fun_eq_iff)
  then have "login_live (sdb st') = login_live (sdb st)" "principal_of (sdb st') = principal_of (sdb st)"
    by (simp_all add: login_live_def peer_live_def principal_of_def fun_eq_iff)
  with assms show ?thesis
    by (auto simp: authenticate_def locked_def find_login_def tx_simps split: if_splits)
qed

lemma refuses_update_project:
  assumes "as_user E d hs True (update_project_as E d hs k r) st = (Inl (Refuse e), st')"
  shows "sdb st' = sdb st"
proof (cases "authenticate E d hs True st")
  case (Inl e')
  with assms show ?thesis by (simp add: as_user_def)
next
  case (Inr p)
  let ?body = "st_then (opened_branches E k) (\<lambda>bs.
     st_then (st_check (\<lambda>_. fail_if (\<not> list_ex (\<lambda>b. branch_name b = pq_branch r) bs)
        (BadRequest ''defaultBranch does not exist''))) (\<lambda>_. transact (update_project_tx d k r p)))"
  have run: "update_project_as E d hs k r p st = (Inl (Refuse e), st')" using assms Inr by (simp add: as_user_def)
  obtain x st1 where body: "?body st = (x, st1)" by fastforce
  show ?thesis
  proof (cases x)
    case (Inl e')
    have "clean ?body" by (intro clean_then reads_branches reads_check clean_transact)
    with body Inl have "sdb st1 = sdb st" by (simp add: clean_def)
    with run body Inl show ?thesis by (auto simp: update_project_as_def split: sum.splits)
  next
    case x: (Inr u)
    from body x obtain st2 where st2: "sdb st2 = sdb st" "lock_poisoned st2 = lock_poisoned st"
      and tx: "transact (update_project_tx d k r p) st2 = (Inr u, st1)"
      by (auto simp: st_then_def st_check_def opened_branches_def split: prod.splits sum.splits dest!: on_git_sdb)
    then have rows: "update_project_tx d k r p (sdb st) = Inr (u, sdb st1)" "lock_poisoned st1 = lock_poisoned st"
      by (auto simp: transact_def locked_def split: sum.splits prod.splits if_splits)
    note keep = update_project_rows [OF rows(1)]
    have again: "authenticate E d hs False st1 = Inr p"
      by (rule authenticate_again [OF Inr keep(1-3) rows(2)])
    show ?thesis
    proof (cases "rbind (project_workspace k st) (\<lambda>ws. andThen (require_role p ws ''maintainer'' st)
          (andThen (validate_project r) (fail_if (pq_space r \<noteq> ws) (BadRequest ''project cannot move workspaces''))))")
      case (Inl e'')
      with run show ?thesis by (simp add: update_project_as_def)
    next
      case ok: (Inr v)
      then obtain q where live: "\<not> lock_poisoned st" and q: "find_project (sdb st) k = Some q"
        and role: "has_role (sdb st) (prj_space q) (pr_user p) ''maintainer''"
        by (auto simp: tx_simps project_workspace_def locked_def require_role_iff split: if_splits)
      from keep(5) q obtain q' where "find_project (sdb st1) k = Some q'" "prj_space q' = prj_space q"
        by (cases "find_project (sdb st1) k") auto
      with role live rows(2) keep(4) have "\<exists>y. get_project_as k p st1 = (Inr y, st1)"
        by (auto simp: get_project_as_def refused_def locked_def has_role_def member_role_def)
      with run ok body x again show ?thesis by (simp add: update_project_as_def as_user_def)
    qed
  qed
qed

section \<open>Credentials are stamped\<close>

lemma bearer_stamps:
  assumes "authenticate_bearer E d hs ApiRead st = (x, st')"
  shows "sdb st' = sdb st \<or> (\<exists>k. has_credential E d hs (sdb st) k \<and> sdb st' = touch_key (key_id k) (t_used d) (sdb st))"
proof (cases "sdb st' = sdb st")
  case False
  with assms obtain v a token public where v: "srv_cookie E hs ''c6_session'' = None"
      "header_values ''authorization'' hs = [v]" "header_text E v = Some a" "strip_prefix ''Bearer '' a = Some token"
    and tx: "transact (use_key E d token Cli ApiRead public) st = (x, st')"
    by (auto simp: authenticate_bearer_def authenticate_opaque_token_def tx_simps split: sum.splits list.splits)
  from tx False obtain p where "use_key E d token Cli ApiRead public (sdb st) = Inr (p, sdb st')"
    by (auto simp: transact_def locked_def split: sum.splits prod.splits if_splits)
  then obtain k where "k \<in> set (api_keys (sdb st))" "key_live (sdb st) (t_auth d) k" "key_type k = ''cli''"
    "key_verifier k = hash_hex E token" "\<exists>scopes. scopes_of E (key_scopes k) = Some scopes \<and> ApiRead \<in> set scopes"
    "sdb st' = touch_key (key_id k) (t_used d) (sdb st)"
    by (auto simp: use_key_def find_key_def tx_simps secure_eq_iff split: if_splits dest!: find_SomeD)
  with v show ?thesis by (intro disjI2 exI [of _ k]) (auto simp: has_credential_def strip_prefix_Some)
qed simp

text \<open>
  C25: a refused request leaves every table as it was, but for the time of last use of a credential:
  the live one that the request itself presents as its bearer token.
\<close>

theorem refused_request_changes_nothing:
  assumes "respond E d hs rq st = (Inl (Refuse e), st')"
  shows "sdb st' = sdb st \<or> (\<exists>k. has_credential E d hs (sdb st) k \<and> sdb st' = touch_key (key_id k) (t_used d) (sdb st))"
proof (cases "same_origin E hs (is_get rq)")
  case (Inl e')
  with assms show ?thesis by (simp add: respond_def)
next
  case (Inr u)
  with assms have work: "dispatch E d hs rq st = (Inl (Refuse e), st')" by (simp add: respond_def)
  show ?thesis
  proof (cases "rq \<in> {GetWhoAmI, GetProjects} \<or> (\<exists>k. rq = GetRemote k)")
    case True
    with work show ?thesis
      by (auto simp: dispatch_def cli_whoami_def list_projects_def project_remote_def as_user_def
          split: prod.splits sum.splits if_splits dest!: bearer_stamps)
  next
    case False
    have "sdb st' = sdb st"
    proof (cases "\<exists>k r. rq = PutProject k r")
      case True
      with work show ?thesis by (auto simp: dispatch_def dest: refuses_update_project)
    next
      case other: False
      have "refuses (dispatch E d hs rq)"
        unfolding dispatch_def using False other
        apply (cases rq; simp only: server_request.case simp_thms)
        apply ((rule refuses_user refuses_owner refuses_member)?;
            (rule refuses_entry refuses_session refuses_session_get refuses_revocations refuses_access refuses_work
                refuses_schedule refuses_create_project
              | rule refuses_reads, rule reads_handlers | rule refuses_reads, rule reads_listings
              | rule refuses_reads, rule reads_as, simp | simp))+
        done
      with work show ?thesis by (simp add: refuses_def)
    qed
    then show ?thesis by blast
  qed
qed

theorem refused_request_changes_nothing_witness:
  "respond desk_server desk_fresh [] GetPeers desk_state = (Inl (Refuse Unauthenticated), desk_state)
   \<and> (sdb desk_state = sdb desk_state \<or> (\<exists>k. has_credential desk_server desk_fresh [] (sdb desk_state) k
        \<and> sdb desk_state = touch_key (key_id k) (t_used desk_fresh) (sdb desk_state)))"
proof -
  have "respond desk_server desk_fresh [] GetPeers desk_state = (Inl (Refuse Unauthenticated), desk_state)" by code_simp
  with refused_request_changes_nothing [OF this] show ?thesis by blast
qed

end
