(* ===== verification/Git_Repository.thy ===== *)
theory Git_Repository
  imports Git_Interface
begin

text \<open>
  \<^verbatim>\<open>crates/c6-git/src/lib.rs\<close>, the parts that act: the store of bare repositories (\<open>GitStore\<close>),
  staged deletion, and the operations of \<open>Repository\<close>, each a sequence of file-system calls and runs
  of the \<^verbatim>\<open>git\<close> program.  The file system keeps what the code looks at, the kind of the entry at each
  path; what lies inside a repository belongs to git and is part of an opaque world.  \<open>machine\<close> is
  that world: the program, what it leaves at the directory it is told to make, which file-system
  calls fail, which entries a recursive removal that fails has removed, and the names of temporary
  files.  \<open>commands\<close> records the runs of git and how they ended.
\<close>

section \<open>Files\<close>

datatype node = RealDir | PlainFile | SymLink "path option"

datatype fs_call =
    MakeDir path | LookAt path | Resolve path | RemoveTree path | RemoveDir path
  | Rename path path | TempDir path | TempFile | RemoveFile string

datatype io_kind = IoExists | IoMissing | IoOther

type_synonym tree = "(path \<times> node) list"

text \<open>A link keeps where following it ends.\<close>

definition resolve :: "tree \<Rightarrow> path \<Rightarrow> path option" where
  "resolve fs p = (case hget fs p of
      None \<Rightarrow> None
    | Some (SymLink q) \<Rightarrow> Option.bind q (\<lambda>q. if hget fs q \<in> {Some RealDir, Some PlainFile} then Some q else None)
    | Some _ \<Rightarrow> Some p)"

definition is_directory :: "tree \<Rightarrow> path \<Rightarrow> bool" where
  "is_directory fs p \<longleftrightarrow> Option.bind (resolve fs p) (hget fs) = Some RealDir"

definition make_dir :: "path \<Rightarrow> tree \<Rightarrow> io_kind + tree" where
  "make_dir p fs =
     (if hget fs p \<noteq> None then Inl IoExists
      else if hget fs (butlast p) \<noteq> Some RealDir then Inl IoMissing
      else Inr (hput p RealDir fs))"

definition remove_tree :: "path \<Rightarrow> tree \<Rightarrow> io_kind + tree" where
  "remove_tree p fs = (case hget fs p of
      None \<Rightarrow> Inl IoMissing
    | Some PlainFile \<Rightarrow> Inl IoOther
    | Some _ \<Rightarrow> Inr (filter (\<lambda>(q, _). \<not> prefix p q) fs))"

definition remove_dir :: "path \<Rightarrow> tree \<Rightarrow> io_kind + tree" where
  "remove_dir p fs =
     (if hget fs p = Some RealDir \<and> list_all (\<lambda>(q, _). \<not> strict_prefix p q) fs then Inr (hdel p fs) else Inl IoOther)"

definition rename :: "path \<Rightarrow> path \<Rightarrow> tree \<Rightarrow> io_kind + tree" where
  "rename p q fs =
     (if hget fs p = None then Inl IoMissing
      else if hget fs q \<noteq> None \<or> hget fs (butlast q) \<noteq> Some RealDir then Inl IoOther
      else Inr (map (\<lambda>(x, n). (if prefix p x then q @ drop (length p) x else x, n)) fs))"

definition path_text :: "path \<Rightarrow> string" where
  "path_text p = concat (map (\<lambda>c. CHR ''/'' # c) p)"

section \<open>The machine\<close>

record git_output =
  exit_code :: "int option"
  out :: string
  err :: string

datatype run_result = NoProgram | NotStarted | InputLost | Ran git_output

record git_call =
  call_argv :: "string list"
  call_env :: "(string \<times> string) list"
  call_input :: "string option"

record 'w machine =
  run_program :: "git_call \<Rightarrow> 'w \<Rightarrow> run_result \<times> 'w"
  leaves :: "git_call \<Rightarrow> 'w \<Rightarrow> node option \<Rightarrow> node option"
  fails :: "fs_call \<Rightarrow> 'w \<Rightarrow> bool"
  removed :: "path \<Rightarrow> 'w \<Rightarrow> path \<Rightarrow> bool"
  done_fs :: "fs_call \<Rightarrow> bool \<Rightarrow> 'w \<Rightarrow> 'w"
  temp_name :: "'w \<Rightarrow> string"
  index_file :: "'w \<Rightarrow> string"
  search_path :: "string option"

record 'w disk =
  files :: tree
  world :: 'w
  commands :: "(git_call \<times> run_result) list"

definition change_files ::
  "'w machine \<Rightarrow> fs_call \<Rightarrow> (tree \<Rightarrow> io_kind + tree) \<Rightarrow> 'w disk \<Rightarrow> (io_kind + unit) \<times> 'w disk" where
  "change_files M c f st =
     (case (if fails M c (world st) then Inl IoOther else f (files st)) of
        Inl k \<Rightarrow> (Inl k, st\<lparr>world := done_fs M c False (world st)\<rparr>)
      | Inr fs \<Rightarrow> (Inr (), st\<lparr>files := fs, world := done_fs M c True (world st)\<rparr>))"

text \<open>
  \<open>remove_dir_all\<close>.  When the system refuses one of its calls, what was removed before is gone: any
  entries, each with all that was below it.
\<close>

definition half_removed :: "path \<Rightarrow> (path \<Rightarrow> bool) \<Rightarrow> tree \<Rightarrow> tree" where
  "half_removed p gone fs =
     filter (\<lambda>(q, _). \<not> (prefix p q \<and> list_all (\<lambda>(x, _). prefix q x \<longrightarrow> gone x) fs)) fs"

definition remove_all :: "'w machine \<Rightarrow> path \<Rightarrow> 'w disk \<Rightarrow> (io_kind + unit) \<times> 'w disk" where
  "remove_all M p st =
     (if fails M (RemoveTree p) (world st)
      then (Inl IoOther, st\<lparr>files := half_removed p (removed M p (world st)) (files st),
          world := done_fs M (RemoveTree p) False (world st)\<rparr>)
      else change_files M (RemoveTree p) (remove_tree p) st)"

text \<open>\<open>symlink_metadata\<close>, \<open>canonicalize\<close> and \<open>exists\<close>.\<close>

definition look_at :: "'w machine \<Rightarrow> path \<Rightarrow> 'w disk \<Rightarrow> io_kind + node" where
  "look_at M p st =
     (if fails M (LookAt p) (world st) then Inl IoOther else ok_or IoMissing (hget (files st) p))"

definition canonicalize :: "'w machine \<Rightarrow> path \<Rightarrow> 'w disk \<Rightarrow> io_kind + path" where
  "canonicalize M p st =
     (if fails M (Resolve p) (world st) then Inl IoOther else ok_or IoMissing (resolve (files st) p))"

definition path_exists :: "'w machine \<Rightarrow> path \<Rightarrow> 'w disk \<Rightarrow> bool" where
  "path_exists M p st = is_ok (canonicalize M p st)"

abbreviation as_io :: "io_kind + 'a \<Rightarrow> git_error + 'a" where
  "as_io \<equiv> map_err (\<lambda>_. GitIo)"

definition io_step :: "('w disk \<Rightarrow> (io_kind + 'a) \<times> 'w disk) \<Rightarrow> 'w disk \<Rightarrow> (git_error + 'a) \<times> 'w disk" where
  "io_step m st = (case m st of (r, st) \<Rightarrow> (as_io r, st))"

section \<open>Running git\<close>

definition succeeded :: "git_output \<Rightarrow> bool" where
  "succeeded res \<longleftrightarrow> exit_code res = Some 0"

text \<open>\<open>String::from_utf8_lossy\<close>: each longest broken start of a character becomes U+FFFD.\<close>

definition replacement :: string where
  "replacement = [CHR 0xEF, CHR 0xBF, CHR 0xBD]"

fun lossy :: "string \<Rightarrow> string" where
  "lossy [] = []"
| "lossy (a # s) =
     (let n = ord a in
      if n < 128 then a # lossy s
      else if 194 \<le> n \<and> n \<le> 223 then
        (case s of
           b # r \<Rightarrow> if utf8_cont b then a # b # lossy r else replacement @ lossy s
         | _ \<Rightarrow> replacement)
      else if 224 \<le> n \<and> n \<le> 239 then
        (case s of
           b # r \<Rightarrow> if \<not> utf8_second n b then replacement @ lossy s
             else (case r of
                c # t \<Rightarrow> if utf8_cont c then a # b # c # lossy t else replacement @ lossy r
              | _ \<Rightarrow> replacement)
         | _ \<Rightarrow> replacement)
      else if 240 \<le> n \<and> n \<le> 244 then
        (case s of
           b # r \<Rightarrow> if \<not> utf8_second n b then replacement @ lossy s
             else (case r of
                c # t \<Rightarrow> if \<not> utf8_cont c then replacement @ lossy r
                  else (case t of
                     d # u \<Rightarrow> if utf8_cont d then a # b # c # d # lossy u else replacement @ lossy t
                   | _ \<Rightarrow> replacement)
              | _ \<Rightarrow> replacement)
         | _ \<Rightarrow> replacement)
      else replacement @ lossy s)"

definition command_error :: "git_output \<Rightarrow> git_error" where
  "command_error res = CommandFailed (concat (take 500 (utf8_chars (trim (lossy (err res))))))"

definition require_success :: "git_output \<Rightarrow> git_error + unit" where
  "require_success res = fail_if (\<not> succeeded res) (command_error res)"

definition git_environment :: "string option \<Rightarrow> (string \<times> string) list \<Rightarrow> (string \<times> string) list" where
  "git_environment spath extra =
     (case spath of None \<Rightarrow> [] | Some v \<Rightarrow> [(''PATH'', v)])
     @ [(''GIT_CONFIG_NOSYSTEM'', ''1''), (''GIT_CONFIG_GLOBAL'', ''/dev/null''),
        (''GIT_TERMINAL_PROMPT'', ''0''), (''LC_ALL'', ''C'')] @ extra"

definition git_command ::
  "'w machine \<Rightarrow> path option \<Rightarrow> string list \<Rightarrow> string option \<Rightarrow> (string \<times> string) list \<Rightarrow> git_call" where
  "git_command M dir args input extra = \<lparr>call_argv = ''git''
       # (case dir of None \<Rightarrow> [] | Some d \<Rightarrow> [''--git-dir'', path_text d]) @ args,
     call_env = git_environment (search_path M) extra, call_input = input\<rparr>"

definition run_git ::
  "'w machine \<Rightarrow> path option \<Rightarrow> string list \<Rightarrow> string option \<Rightarrow> (string \<times> string) list
     \<Rightarrow> 'w disk \<Rightarrow> (git_error + git_output) \<times> 'w disk" where
  "run_git M dir args input extra st =
     (let call = git_command M dir args input extra; (r, w) = run_program M call (world st);
          st' = st\<lparr>world := w, commands := commands st @ [(call, r)]\<rparr> in
      case r of
        NoProgram \<Rightarrow> (Inl GitUnavailable, st')
      | NotStarted \<Rightarrow> (Inl GitIo, st')
      | InputLost \<Rightarrow> (Inl GitIo, st')
      | Ran res \<Rightarrow> (Inr res, st'))"

text \<open>A run told to make a directory, which may leave something else there.\<close>

definition put_node :: "path \<Rightarrow> node option \<Rightarrow> tree \<Rightarrow> tree" where
  "put_node p n fs = (case n of None \<Rightarrow> hdel p fs | Some n \<Rightarrow> hput p n fs)"

definition run_git_making ::
  "'w machine \<Rightarrow> path \<Rightarrow> string list \<Rightarrow> 'w disk \<Rightarrow> (git_error + git_output) \<times> 'w disk" where
  "run_git_making M p args st =
     (case run_git M None args None [] st of
        (Inl e, st') \<Rightarrow> (Inl e, st')
      | (Inr res, st') \<Rightarrow> (Inr res, st'\<lparr>files := put_node p
           (leaves M (git_command M None args None []) (world st) (hget (files st') p)) (files st')\<rparr>))"

section \<open>The store\<close>

record git_root =
  store_root :: path
  store_limits :: git_limits

definition create_dir_all :: "path \<Rightarrow> tree \<Rightarrow> io_kind + tree" where
  "create_dir_all p fs = fold (\<lambda>q r. rbind r (\<lambda>fs. if is_directory fs q then Inr fs else make_dir q fs)) (prefixes p) (Inr fs)"

definition with_limits :: "'w machine \<Rightarrow> path \<Rightarrow> git_limits \<Rightarrow> 'w disk \<Rightarrow> (git_error + git_root) \<times> 'w disk" where
  "with_limits M p lim =
     st_then (io_step (change_files M (MakeDir p) (create_dir_all p))) (\<lambda>_.
     st_then (st_check (\<lambda>st. as_io (canonicalize M p st))) (\<lambda>root.
     st_check (\<lambda>st. if is_directory (files st) root
       then Inr \<lparr>store_root = root, store_limits = lim\<rparr>
       else Inl (InvalidPath ''store root is not a directory''))))"

definition new_store :: "'w machine \<Rightarrow> path \<Rightarrow> 'w disk \<Rightarrow> (git_error + git_root) \<times> 'w disk" where
  "new_store M p = with_limits M p default_limits"

definition repo_dir :: "git_root \<Rightarrow> string \<Rightarrow> path" where
  "repo_dir R slug = store_root R @ [slug @ ''.git'']"

definition object_length :: "string \<Rightarrow> git_error + nat" where
  "object_length b =
     (if trim_ascii b = ''sha1'' then Inr 40
      else if trim_ascii b = ''sha256'' then Inr 64
      else Inl (InvalidOutput ''unsupported Git object format''))"

text \<open>What \<open>open\<close> checks before it runs git.\<close>

definition real_repository :: "'w machine \<Rightarrow> git_root \<Rightarrow> string \<Rightarrow> 'w disk \<Rightarrow> git_error + path" where
  "real_repository M R slug st =
     andThen (validate_store_slug slug)
    (rbind (map_err (\<lambda>_. RepositoryMissing slug) (look_at M (repo_dir R slug) st)) (\<lambda>n.
     andThen (fail_if (n \<noteq> RealDir) (InvalidPath ''repository must be a real directory''))
    (rbind (as_io (canonicalize M (repo_dir R slug) st)) (\<lambda>p.
     andThen (fail_if (p = [] \<or> butlast p \<noteq> store_root R) (InvalidPath ''repository escaped store root''))
       (Inr p)))))"

definition open_repository ::
  "'w machine \<Rightarrow> git_root \<Rightarrow> string \<Rightarrow> 'w disk \<Rightarrow> (git_error + repository) \<times> 'w disk" where
  "open_repository M R slug =
     st_then (st_check (real_repository M R slug)) (\<lambda>p.
     st_then (run_git M (Some p) [''rev-parse'', ''--is-bare-repository''] None []) (\<lambda>probe.
     st_then (st_check (\<lambda>_. fail_if (\<not> succeeded probe \<or> trim_ascii (out probe) \<noteq> ''true'')
        (InvalidPath ''repository is not bare''))) (\<lambda>_.
     st_then (run_git M (Some p) [''rev-parse'', ''--show-object-format''] None []) (\<lambda>fmt.
     st_check (\<lambda>_. andThen (require_success fmt)
       (rbind (object_length (out fmt)) (\<lambda>n.
        Inr \<lparr>rep_path = p, rep_limits = store_limits R, oid_len = n\<rparr>)))))))"

text \<open>A failed run removes what it made, whatever comes of that, and answers with the run's error.\<close>

definition finish_making ::
  "'w machine \<Rightarrow> git_root \<Rightarrow> string \<Rightarrow> git_output \<Rightarrow> 'w disk \<Rightarrow> (git_error + repository) \<times> 'w disk" where
  "finish_making M R slug res st =
     (if \<not> succeeded res
      then (Inl (command_error res), snd (remove_all M (repo_dir R slug) st))
      else open_repository M R slug st)"

definition claim_directory :: "'w machine \<Rightarrow> git_root \<Rightarrow> string \<Rightarrow> 'w disk \<Rightarrow> (git_error + unit) \<times> 'w disk" where
  "claim_directory M R slug st =
     (case change_files M (MakeDir (repo_dir R slug)) (make_dir (repo_dir R slug)) st of
        (Inl IoExists, st) \<Rightarrow> (Inl (AlreadyExists slug), st)
      | (Inl _, st) \<Rightarrow> (Inl GitIo, st)
      | (Inr _, st) \<Rightarrow> (Inr (), st))"

definition create_repository ::
  "'w machine \<Rightarrow> git_root \<Rightarrow> string \<Rightarrow> 'w disk \<Rightarrow> (git_error + repository) \<times> 'w disk" where
  "create_repository M R slug =
     st_then (st_check (\<lambda>_. validate_store_slug slug)) (\<lambda>_.
     st_then (claim_directory M R slug) (\<lambda>_.
     st_then (run_git_making M (repo_dir R slug)
        [''init'', ''--bare'', ''--initial-branch=main'', path_text (repo_dir R slug)]) (\<lambda>res.
     finish_making M R slug res)))"

definition ensure_absent :: "'w machine \<Rightarrow> path \<Rightarrow> string \<Rightarrow> 'w disk \<Rightarrow> git_error + unit" where
  "ensure_absent M p slug st =
     (case look_at M p st of
        Inr _ \<Rightarrow> Inl (AlreadyExists slug)
      | Inl IoMissing \<Rightarrow> Inr ()
      | Inl _ \<Rightarrow> Inl GitIo)"

definition import_local ::
  "'w machine \<Rightarrow> git_root \<Rightarrow> string \<Rightarrow> path \<Rightarrow> 'w disk \<Rightarrow> (git_error + repository) \<times> 'w disk" where
  "import_local M R slug src =
     st_then (st_check (\<lambda>st. andThen (validate_store_slug slug)
       (rbind (map_err (\<lambda>_. InvalidPath ''import source does not exist'') (canonicalize M src st)) (\<lambda>p.
        andThen (fail_if (\<not> is_directory (files st) p) (InvalidPath ''import source is not a directory''))
       (andThen (ensure_absent M (repo_dir R slug) slug st) (Inr p)))))) (\<lambda>p.
     st_then (run_git_making M (repo_dir R slug)
        [''clone'', ''--bare'', ''--no-local'', ''--'', path_text p, path_text (repo_dir R slug)]) (\<lambda>res.
     finish_making M R slug res))"

section \<open>Deleting in two steps\<close>

record staged_deletion =
  sd_original :: path
  sd_tombstone :: path
  sd_staged :: path

definition stage_delete ::
  "'w machine \<Rightarrow> git_root \<Rightarrow> string \<Rightarrow> 'w disk \<Rightarrow> (git_error + staged_deletion) \<times> 'w disk" where
  "stage_delete M R slug =
     st_then (open_repository M R slug) (\<lambda>rep st.
       let tomb = store_root R @ [''.c6-delete-'' @ temp_name M (world st)]; staged = tomb @ [''repository.git''] in
       st_then (io_step (change_files M (TempDir tomb) (make_dir tomb))) (\<lambda>_ st.
         case change_files M (Rename (rep_path rep) staged) (rename (rep_path rep) staged) st of
           (Inl _, st) \<Rightarrow> (Inl GitIo, snd (change_files M (RemoveDir tomb) (remove_dir tomb) st))
         | (Inr _, st) \<Rightarrow> (Inr \<lparr>sd_original = rep_path rep, sd_tombstone = tomb, sd_staged = staged\<rparr>, st)) st)"

text \<open>\<open>Drop\<close> of a guard that was not completed.\<close>

definition drop_staged :: "'w machine \<Rightarrow> staged_deletion \<Rightarrow> 'w disk \<Rightarrow> 'w disk" where
  "drop_staged M g st =
     (if path_exists M (sd_staged g) st \<and> \<not> path_exists M (sd_original g) st
      then (case change_files M (Rename (sd_staged g) (sd_original g)) (rename (sd_staged g) (sd_original g)) st of
          (Inl _, st) \<Rightarrow> st
        | (Inr _, st) \<Rightarrow> snd (change_files M (RemoveDir (sd_tombstone g)) (remove_dir (sd_tombstone g)) st))
      else st)"

definition commit_staged :: "'w machine \<Rightarrow> staged_deletion \<Rightarrow> 'w disk \<Rightarrow> (git_error + unit) \<times> 'w disk" where
  "commit_staged M g st =
     (case remove_all M (sd_tombstone g) st of
        (Inl _, st) \<Rightarrow> (Inl GitIo, drop_staged M g st)
      | (Inr _, st) \<Rightarrow> (Inr (), st))"

definition restore_staged :: "'w machine \<Rightarrow> staged_deletion \<Rightarrow> 'w disk \<Rightarrow> (git_error + unit) \<times> 'w disk" where
  "restore_staged M g =
     st_then (st_check (\<lambda>st. fail_if (path_exists M (sd_original g) st) (AlreadyExists (path_text (sd_original g))))) (\<lambda>_.
     st_then (io_step (change_files M (Rename (sd_staged g) (sd_original g)) (rename (sd_staged g) (sd_original g)))) (\<lambda>_.
     io_step (change_files M (RemoveDir (sd_tombstone g)) (remove_dir (sd_tombstone g)))))"

definition rollback_staged :: "'w machine \<Rightarrow> staged_deletion \<Rightarrow> 'w disk \<Rightarrow> (git_error + unit) \<times> 'w disk" where
  "rollback_staged M g st =
     (case restore_staged M g st of
        (Inl e, st) \<Rightarrow> (Inl e, drop_staged M g st)
      | (Inr _, st) \<Rightarrow> (Inr (), st))"

definition delete_repository :: "'w machine \<Rightarrow> git_root \<Rightarrow> string \<Rightarrow> 'w disk \<Rightarrow> (git_error + unit) \<times> 'w disk" where
  "delete_repository M R slug = st_then (stage_delete M R slug) (commit_staged M)"

text \<open>
  The file-system part of \<open>cleanup_new_repository\<close> in \<^verbatim>\<open>crates/c6-server/src/main.rs\<close>.
\<close>

definition erase_repository :: "'w machine \<Rightarrow> git_root \<Rightarrow> string \<Rightarrow> 'w disk \<Rightarrow> (git_error + unit) \<times> 'w disk" where
  "erase_repository M R slug =
     st_then (st_check (\<lambda>st. rbind (as_io (look_at M (repo_dir R slug) st)) (\<lambda>n.
        andThen (fail_if (n \<noteq> RealDir) GitIo)
       (rbind (as_io (canonicalize M (repo_dir R slug) st)) (\<lambda>p.
        andThen (fail_if (p = [] \<or> butlast p \<noteq> store_root R) GitIo) (Inr p)))))) (\<lambda>p.
     io_step (remove_all M p))"

section \<open>Reading a repository\<close>

abbreviation git_in ::
  "'w machine \<Rightarrow> repository \<Rightarrow> string list \<Rightarrow> string option \<Rightarrow> (string \<times> string) list
     \<Rightarrow> 'w disk \<Rightarrow> (git_error + git_output) \<times> 'w disk" where
  "git_in M rep \<equiv> run_git M (Some (rep_path rep))"

text \<open>A run that must succeed.\<close>

definition git_ok ::
  "'w machine \<Rightarrow> repository \<Rightarrow> string list \<Rightarrow> string option \<Rightarrow> (string \<times> string) list
     \<Rightarrow> 'w disk \<Rightarrow> (git_error + git_output) \<times> 'w disk" where
  "git_ok M rep args input extra =
     st_then (git_in M rep args input extra) (\<lambda>res. st_check (\<lambda>_. andThen (require_success res) (Inr res)))"

definition list_branches :: "'w machine \<Rightarrow> repository \<Rightarrow> 'w disk \<Rightarrow> (git_error + branch list) \<times> 'w disk" where
  "list_branches M rep =
     st_then (git_ok M rep [''for-each-ref'', ''--format=%(refname:strip=2)%00%(objectname)'', ''refs/heads''] None [])
       (\<lambda>res. st_check (\<lambda>_. parse_branches (out res)))"

definition resolve_commit :: "'w machine \<Rightarrow> repository \<Rightarrow> string \<Rightarrow> 'w disk \<Rightarrow> (git_error + string) \<times> 'w disk" where
  "resolve_commit M rep revision =
     st_then (st_check (\<lambda>_. if is_oid revision then Inr (revision @ ''^{commit}'')
        else andThen (validate_branch revision) (Inr (''refs/heads/'' @ revision @ ''^{commit}'')))) (\<lambda>rev_spec.
     st_then (git_in M rep [''rev-parse'', ''--verify'', rev_spec] None []) (\<lambda>res.
     st_check (\<lambda>_. if \<not> succeeded res then Inl (RevisionNotFound revision) else utf8 (trim_ascii (out res)))))"

definition resolve_ref_optional ::
  "'w machine \<Rightarrow> repository \<Rightarrow> string \<Rightarrow> 'w disk \<Rightarrow> (git_error + string option) \<times> 'w disk" where
  "resolve_ref_optional M rep reference =
     st_then (git_in M rep [''rev-parse'', ''--verify'', ''--quiet'', reference] None []) (\<lambda>res.
     st_check (\<lambda>_. if succeeded res then rbind (utf8 (trim_ascii (out res))) (\<lambda>v. Inr (Some v))
       else if exit_code res = Some 1 then Inr None else Inl (command_error res)))"

definition is_ancestor ::
  "'w machine \<Rightarrow> repository \<Rightarrow> string \<Rightarrow> string \<Rightarrow> 'w disk \<Rightarrow> (git_error + bool) \<times> 'w disk" where
  "is_ancestor M rep ancestor descendant =
     st_then (git_in M rep [''merge-base'', ''--is-ancestor'', ancestor, descendant] None []) (\<lambda>res.
     st_check (\<lambda>_. if exit_code res = Some 0 then Inr True else if exit_code res = Some 1 then Inr False
       else Inl (command_error res)))"

definition read_commit :: "'w machine \<Rightarrow> repository \<Rightarrow> string \<Rightarrow> 'w disk \<Rightarrow> (git_error + git_commit) \<times> 'w disk" where
  "read_commit M rep oid =
     st_then (git_ok M rep [''show'', ''-s'', ''--format=%H%x00%P%x00%an%x00%ae%x00%aI%x00%B'', oid] None [])
       (\<lambda>res. st_check (\<lambda>_. parse_commit (out res)))"

primrec read_commits ::
  "'w machine \<Rightarrow> repository \<Rightarrow> string list \<Rightarrow> 'w disk \<Rightarrow> (git_error + git_commit list) \<times> 'w disk" where
  "read_commits M rep [] = st_check (\<lambda>_. Inr [])"
| "read_commits M rep (l # ls) =
     st_then (st_check (\<lambda>_. utf8 l)) (\<lambda>oid.
     st_then (read_commit M rep oid) (\<lambda>c.
     st_then (read_commits M rep ls) (\<lambda>cs. st_check (\<lambda>_. Inr (c # cs)))))"

definition list_commits ::
  "'w machine \<Rightarrow> repository \<Rightarrow> string \<Rightarrow> nat \<Rightarrow> 'w disk \<Rightarrow> (git_error + git_commit list) \<times> 'w disk" where
  "list_commits M rep revision n =
     st_then (st_check (\<lambda>_. fail_if (n = 0 \<or> max_log_entries (rep_limits rep) < n) (LimitExceeded ''invalid commit log limit''))) (\<lambda>_.
     st_then (resolve_commit M rep revision) (\<lambda>oid.
     st_then (git_ok M rep [''rev-list'', ''--max-count='' @ show_nat n, oid] None []) (\<lambda>res.
     read_commits M rep (output_lines (out res)))))"

definition list_tree ::
  "'w machine \<Rightarrow> repository \<Rightarrow> string \<Rightarrow> bool \<Rightarrow> 'w disk \<Rightarrow> (git_error + tree_entry list) \<times> 'w disk" where
  "list_tree M rep revision recursive =
     st_then (resolve_commit M rep revision) (\<lambda>oid.
     st_then (git_ok M rep ([''ls-tree'', ''-z'', ''-l''] @ (if recursive then [''-r''] else []) @ [oid]) None []) (\<lambda>res.
     st_check (\<lambda>_. parse_tree_entries (out res))))"

definition readable_blob :: "git_limits \<Rightarrow> string \<Rightarrow> string \<Rightarrow> git_error + string" where
  "readable_blob lim listing path =
     rbind (parse_exact_tree_entry listing path) (\<lambda>e.
     andThen (fail_if (entry_kind_of e \<noteq> Blob) (InvalidPath ''path is not a file''))
    (rbind (ok_or (InvalidOutput ''blob has no size'') (entry_size e)) (\<lambda>n.
     andThen (fail_if (max_read_bytes lim < n) (LimitExceeded ''file is too large to read'')) (Inr (entry_oid e)))))"

definition read_file :: "'w machine \<Rightarrow> repository \<Rightarrow> string \<Rightarrow> string \<Rightarrow> 'w disk \<Rightarrow> (git_error + string) \<times> 'w disk" where
  "read_file M rep revision path =
     st_then (st_check (\<lambda>_. validate_repo_path path)) (\<lambda>_.
     st_then (resolve_commit M rep revision) (\<lambda>oid.
     st_then (git_ok M rep [''ls-tree'', ''-z'', ''-l'', oid, ''--'', path] None []) (\<lambda>res.
     st_then (st_check (\<lambda>_. readable_blob (rep_limits rep) (out res) path)) (\<lambda>blob.
     st_then (git_ok M rep [''cat-file'', ''blob'', blob] None []) (\<lambda>res. st_check (\<lambda>_. Inr (out res)))))))"

section \<open>Changing a repository\<close>

definition identity_env :: "commit_identity \<Rightarrow> (string \<times> string) list" where
  "identity_env i = [(''GIT_AUTHOR_NAME'', ident_name i), (''GIT_AUTHOR_EMAIL'', ident_email i),
     (''GIT_COMMITTER_NAME'', ident_name i), (''GIT_COMMITTER_EMAIL'', ident_email i)]"

text \<open>
  The private index: a temporary file whose name is kept while the file itself is removed; the
  guard removes it again, whatever happened.
\<close>

definition with_index ::
  "'w machine \<Rightarrow> (string \<Rightarrow> 'w disk \<Rightarrow> (git_error + 'a) \<times> 'w disk) \<Rightarrow> 'w disk \<Rightarrow> (git_error + 'a) \<times> 'w disk" where
  "with_index M body st =
     (case io_step (change_files M TempFile Inr) st of
        (Inl e, st) \<Rightarrow> (Inl e, st)
      | (Inr _, st) \<Rightarrow>
          (let idx = index_file M (world st);
               (r, st) = st_then (io_step (change_files M (RemoveFile idx) Inr)) (\<lambda>_. body idx) st in
           (r, snd (change_files M (RemoveFile idx) Inr st))))"

definition apply_change ::
  "'w machine \<Rightarrow> repository \<Rightarrow> string \<Rightarrow> file_change \<Rightarrow> 'w disk \<Rightarrow> (git_error + unit) \<times> 'w disk" where
  "apply_change M rep idx c = (case c of
      Upsert path content \<Rightarrow>
        st_then (git_ok M rep [''hash-object'', ''-w'', ''--stdin''] (Some content) []) (\<lambda>res.
        st_then (st_check (\<lambda>_. utf8 (trim_ascii (out res)))) (\<lambda>blob.
        st_then (git_ok M rep [''update-index'', ''--add'', ''--cacheinfo'', ''100644,'' @ blob @ '','' @ path] None
            [(''GIT_INDEX_FILE'', idx)]) (\<lambda>_. st_check (\<lambda>_. Inr ()))))
    | Delete path \<Rightarrow>
        st_then (git_ok M rep [''update-index'', ''--index-info'']
            (Some (''0 '' @ replicate (oid_len rep) (CHR ''0'') @ [CHR 0x09] @ path @ [CHR 0x0A]))
            [(''GIT_INDEX_FILE'', idx)]) (\<lambda>_. st_check (\<lambda>_. Inr ())))"

primrec apply_changes ::
  "'w machine \<Rightarrow> repository \<Rightarrow> string \<Rightarrow> file_change list \<Rightarrow> 'w disk \<Rightarrow> (git_error + unit) \<times> 'w disk" where
  "apply_changes M rep idx [] = st_check (\<lambda>_. Inr ())"
| "apply_changes M rep idx (c # cs) =
     st_then (apply_change M rep idx c) (\<lambda>_. apply_changes M rep idx cs)"

text \<open>\<open>git update-ref <ref> <new> <old>\<close>.\<close>

definition atomic_update ::
  "'w machine \<Rightarrow> repository \<Rightarrow> string \<Rightarrow> string \<Rightarrow> string \<Rightarrow> 'w disk \<Rightarrow> (git_error + unit) \<times> 'w disk" where
  "atomic_update M rep reference new old =
     st_then (git_in M rep [''update-ref'', reference, new, old] None []) (\<lambda>res.
     st_check (\<lambda>_. if succeeded res then Inr ()
       else if contains_str ''cannot lock ref'' (lossy (err res)) then Inl ConcurrentUpdate
       else Inl (command_error res)))"

definition zero_oid :: "repository \<Rightarrow> string" where
  "zero_oid rep = replicate (oid_len rep) (CHR ''0'')"

text \<open>The tree of the changes and its commit.\<close>

definition commit_tree ::
  "'w machine \<Rightarrow> repository \<Rightarrow> string \<Rightarrow> string list \<Rightarrow> string \<Rightarrow> commit_identity
     \<Rightarrow> 'w disk \<Rightarrow> (git_error + string) \<times> 'w disk" where
  "commit_tree M rep tree parents message i =
     st_then (git_ok M rep ([''commit-tree'', tree] @ concat (map (\<lambda>p. [''-p'', p]) parents)) (Some message) (identity_env i)) (\<lambda>res.
     st_check (\<lambda>_. utf8 (trim_ascii (out res))))"

definition build_commit ::
  "'w machine \<Rightarrow> repository \<Rightarrow> string option \<Rightarrow> file_change list \<Rightarrow> string \<Rightarrow> commit_identity \<Rightarrow> string
     \<Rightarrow> 'w disk \<Rightarrow> (git_error + string) \<times> 'w disk" where
  "build_commit M rep parent cs message i idx =
     st_then (case parent of
         None \<Rightarrow> st_check (\<lambda>_. Inr ())
       | Some p \<Rightarrow> st_then (git_ok M rep [''read-tree'', p] None [(''GIT_INDEX_FILE'', idx)]) (\<lambda>_. st_check (\<lambda>_. Inr ()))) (\<lambda>_.
     st_then (apply_changes M rep idx cs) (\<lambda>_.
     st_then (git_ok M rep [''write-tree''] None [(''GIT_INDEX_FILE'', idx)]) (\<lambda>res.
     st_then (st_check (\<lambda>_. utf8 (trim_ascii (out res)))) (\<lambda>tree.
     commit_tree M rep tree (case parent of None \<Rightarrow> [] | Some p \<Rightarrow> [p]) message i))))"

definition branch_ref :: "string \<Rightarrow> string" where
  "branch_ref b = ''refs/heads/'' @ b"

definition commit_changes ::
  "'w machine \<Rightarrow> repository \<Rightarrow> string \<Rightarrow> string option \<Rightarrow> file_change list \<Rightarrow> string \<Rightarrow> commit_identity
     \<Rightarrow> 'w disk \<Rightarrow> (git_error + string) \<times> 'w disk" where
  "commit_changes M rep b start cs message i =
     st_then (st_check (\<lambda>_. andThen (validate_branch b) (andThen (validate_commit_identity i)
        (andThen (validate_message message) (validate_changes (rep_limits rep) cs))))) (\<lambda>_.
     st_then (resolve_ref_optional M rep (branch_ref b)) (\<lambda>current.
     st_then (case (current, start) of
         (Some oid, _) \<Rightarrow> st_check (\<lambda>_. Inr (Some oid))
       | (None, Some revision) \<Rightarrow> st_then (resolve_commit M rep revision) (\<lambda>oid. st_check (\<lambda>_. Inr (Some oid)))
       | (None, None) \<Rightarrow> st_check (\<lambda>_. Inr None)) (\<lambda>parent.
     with_index M (\<lambda>idx.
       st_then (build_commit M rep parent cs message i idx) (\<lambda>new.
       st_then (atomic_update M rep (branch_ref b) new (case current of Some oid \<Rightarrow> oid | None \<Rightarrow> zero_oid rep)) (\<lambda>_.
       st_check (\<lambda>_. Inr new)))))))"

definition merge_fields :: "git_output \<Rightarrow> string list" where
  "merge_fields res = filter (\<lambda>f. f \<noteq> []) (split_on (CHR 0x00) (out res))"

definition merge_trees ::
  "'w machine \<Rightarrow> repository \<Rightarrow> string \<Rightarrow> string \<Rightarrow> string \<Rightarrow> string \<Rightarrow> commit_identity
     \<Rightarrow> 'w disk \<Rightarrow> (git_error + merge_result) \<times> 'w disk" where
  "merge_trees M rep b target source message i =
     st_then (git_in M rep [''merge-tree'', ''--write-tree'', ''--name-only'', ''--no-messages'', ''-z'', target, source] None []) (\<lambda>res.
     if \<not> succeeded res
     then st_check (\<lambda>_. rbind (map_res utf8 (drop 1 (merge_fields res))) (\<lambda>ps. Inr (Conflicted ps)))
     else st_then (st_check (\<lambda>_. case merge_fields res of
         [] \<Rightarrow> Inl (InvalidOutput ''merge produced no tree'')
       | f # _ \<Rightarrow> utf8 f)) (\<lambda>tree.
     st_then (commit_tree M rep tree [target, source] message i) (\<lambda>merged.
     st_then (atomic_update M rep (branch_ref b) merged target) (\<lambda>_. st_check (\<lambda>_. Inr (Merged merged))))))"

definition merge_branch ::
  "'w machine \<Rightarrow> repository \<Rightarrow> string \<Rightarrow> string \<Rightarrow> string \<Rightarrow> commit_identity
     \<Rightarrow> 'w disk \<Rightarrow> (git_error + merge_result) \<times> 'w disk" where
  "merge_branch M rep b revision message i =
     st_then (st_check (\<lambda>_. andThen (validate_branch b) (andThen (validate_commit_identity i) (validate_message message)))) (\<lambda>_.
     st_then (resolve_ref_optional M rep (branch_ref b)) (\<lambda>found.
     st_then (st_check (\<lambda>_. ok_or (RevisionNotFound b) found)) (\<lambda>target.
     st_then (resolve_commit M rep revision) (\<lambda>source.
     st_then (is_ancestor M rep source target) (\<lambda>merged.
     if merged then st_check (\<lambda>_. Inr (AlreadyUpToDate target))
     else st_then (is_ancestor M rep target source) (\<lambda>ahead.
       if ahead
       then st_then (atomic_update M rep (branch_ref b) source target) (\<lambda>_. st_check (\<lambda>_. Inr (FastForward source)))
       else merge_trees M rep b target source message i))))))"

section \<open>The operations the control plane calls\<close>

definition disk_ops :: "'w machine \<Rightarrow> git_root \<Rightarrow> 'w disk git_ops" where
  "disk_ops M R = \<lparr>git_create = create_repository M R, git_open = open_repository M R,
     git_list_branches = list_branches M, git_list_commits = list_commits M, git_list_tree = list_tree M,
     git_read_file = read_file M, git_commit_changes = commit_changes M, git_erase = erase_repository M R,
     git_path = (\<lambda>rep st. \<lparr>rp_real = (hget (files st) (rep_path rep) = Some RealDir),
        rp_root = path_text (butlast (rep_path rep)), rp_name = last (rep_path rep)\<rparr>)\<rparr>"

definition disk_repositories :: "git_root \<Rightarrow> 'w disk \<Rightarrow> string set" where
  "disk_repositories R st = {k. hget (files st) (repo_dir R k) = Some RealDir}"

end
