(* ===== verification/Git_Store.thy ===== *)
theory Git_Store
  imports Git_Repository
begin

text \<open>
  What the store of repositories promises: it keeps the contract the control plane relies on, a
  staged deletion loses nothing, what runs inside a repository stays there, and a branch moves only
  by comparing and swapping.
\<close>

section \<open>What an operation does to the files\<close>

definition keeps_files :: "('w disk \<Rightarrow> (git_error + 'a) \<times> 'w disk) \<Rightarrow> bool" where
  "keeps_files m \<longleftrightarrow> (\<forall>st. files (snd (m st)) = files st)"

definition only_below :: "path \<Rightarrow> ('w disk \<Rightarrow> (git_error + 'a) \<times> 'w disk) \<Rightarrow> bool" where
  "only_below p m \<longleftrightarrow> (\<forall>st q. \<not> prefix p q \<longrightarrow> hget (files (snd (m st))) q = hget (files st) q)"

named_theorems file_intros

lemma st_then_snd:
  "snd (st_then m k st) = (case fst (m st) of Inl e \<Rightarrow> snd (m st) | Inr a \<Rightarrow> snd (k a (snd (m st))))"
  by (simp add: st_then_def split: prod.split sum.split)

lemma keeps_check [file_intros]: "keeps_files (st_check f)"
  by (simp add: keeps_files_def st_check_def)

lemma keeps_then [file_intros]: "keeps_files m \<Longrightarrow> (\<And>a. keeps_files (k a)) \<Longrightarrow> keeps_files (st_then m k)"
  by (simp add: keeps_files_def st_then_snd split: sum.split)

lemma run_git_files [simp]: "files (snd (run_git M dir args input extra st)) = files st"
  by (simp add: run_git_def Let_def split: prod.split run_result.split)

lemma keeps_run [file_intros]: "keeps_files (run_git M dir args input extra)"
  by (simp add: keeps_files_def)

lemma keeps_ok [file_intros]: "keeps_files (git_ok M rep args input extra)"
  unfolding git_ok_def by (intro file_intros)

lemma change_files_snd:
  "files (snd (change_files M c f st)) = (case fst (change_files M c f st) of Inl _ \<Rightarrow> files st
     | Inr _ \<Rightarrow> (case f (files st) of Inr fs \<Rightarrow> fs | Inl _ \<Rightarrow> files st))"
  by (auto simp: change_files_def split: sum.split)

lemma change_files_ok: "change_files M c f st = (Inr u, st') \<Longrightarrow> f (files st) = Inr (files st')"
  by (auto simp: change_files_def split: sum.splits if_splits)

lemma change_files_failed: "change_files M c f st = (Inl k, st') \<Longrightarrow> files st' = files st"
  by (auto simp: change_files_def split: sum.splits if_splits)

lemma change_files_same [simp]: "files (snd (change_files M c Inr st)) = files st"
  by (auto simp: change_files_def split: sum.split)

lemma io_step_snd [simp]: "snd (io_step m st) = snd (m st)"
  by (simp add: io_step_def split: prod.split)

lemma io_step_iff: "io_step m st = (Inr a, st') \<longleftrightarrow> m st = (Inr a, st')"
  by (auto simp: io_step_def map_err_Inr_iff split: prod.splits)

lemma keeps_io [file_intros]: "keeps_files (io_step (change_files M c Inr))"
  by (simp add: keeps_files_def)

lemma keeps_index [file_intros]:
  assumes "\<And>idx. keeps_files (body idx)"
  shows "keeps_files (with_index M body)"
proof -
  have "keeps_files (st_then (io_step (change_files M (RemoveFile idx) Inr)) (\<lambda>_. body idx))" for idx
    by (intro file_intros assms)
  then show ?thesis
    by (auto simp: keeps_files_def with_index_def Let_def split: prod.split sum.split)
      (metis change_files_same io_step_snd snd_conv)+
qed

lemma keeps_opt [file_intros]:
  "keeps_files f \<Longrightarrow> (\<And>x. keeps_files (g x)) \<Longrightarrow> keeps_files (case v of None \<Rightarrow> f | Some x \<Rightarrow> g x)"
  by (cases v) simp_all

lemma keeps_if [file_intros]: "keeps_files f \<Longrightarrow> keeps_files g \<Longrightarrow> keeps_files (if b then f else g)"
  by simp

lemma keeps_reads [file_intros]:
  "keeps_files (open_repository M R slug)" "keeps_files (list_branches M rep)" "keeps_files (resolve_commit M rep revision)"
  "keeps_files (resolve_ref_optional M rep reference)" "keeps_files (is_ancestor M rep a d)" "keeps_files (read_commit M rep oid)"
  "keeps_files (list_tree M rep revision recursive)" "keeps_files (read_file M rep revision path)"
  "keeps_files (atomic_update M rep reference new old)" "keeps_files (commit_tree M rep tree parents message i)"
  unfolding open_repository_def list_branches_def resolve_commit_def resolve_ref_optional_def is_ancestor_def
    read_commit_def list_tree_def read_file_def atomic_update_def commit_tree_def
  by (intro file_intros)+

lemma keeps_commits [file_intros]: "keeps_files (read_commits M rep ls)" "keeps_files (list_commits M rep revision n)"
proof -
  show c: "keeps_files (read_commits M rep ls)" for ls by (induction ls) (auto intro!: file_intros)
  show "keeps_files (list_commits M rep revision n)" unfolding list_commits_def by (intro file_intros c)
qed

lemma keeps_change [file_intros]: "keeps_files (apply_change M rep idx c)"
  unfolding apply_change_def by (cases c) (auto intro!: file_intros)

lemma keeps_changes [file_intros]: "keeps_files (apply_changes M rep idx cs)"
  by (induction cs) (auto intro!: file_intros)

lemma keeps_writes [file_intros]:
  "keeps_files (build_commit M rep parent cs message i idx)" "keeps_files (commit_changes M rep b start cs message i)"
  "keeps_files (merge_trees M rep b target source message i)" "keeps_files (merge_branch M rep b revision message i)"
proof -
  show c: "keeps_files (build_commit M rep parent cs message i idx)" for parent idx
    unfolding build_commit_def by (intro file_intros)
  show "keeps_files (commit_changes M rep b start cs message i)"
    unfolding commit_changes_def prod.case_distrib by (intro file_intros c) (auto intro!: file_intros c split: option.split)
  show m: "keeps_files (merge_trees M rep b target source message i)" for target source
    unfolding merge_trees_def by (intro file_intros)
  show "keeps_files (merge_branch M rep b revision message i)"
    unfolding merge_branch_def by (intro file_intros m)
qed


section \<open>The contract of the store\<close>

lemma hget_kept: "hget (filter (\<lambda>(q, _). P q) fs) q = (if P q then hget fs q else None)"
  by (induction fs) auto

lemma make_dir_iff: "make_dir p fs = Inr fs' \<longleftrightarrow> hget fs p = None \<and> hget fs (butlast p) = Some RealDir \<and> fs' = hput p RealDir fs"
  by (auto simp: make_dir_def)

lemma remove_tree_iff: "remove_tree p fs = Inr fs' \<longleftrightarrow> (\<exists>n. hget fs p = Some n \<and> n \<noteq> PlainFile)
     \<and> fs' = filter (\<lambda>(q, _). \<not> prefix p q) fs"
  by (auto simp: remove_tree_def split: option.splits node.splits)

lemma half_removed_conv:
  "\<exists>P. half_removed p gone fs = filter (\<lambda>(q, _). \<not> (prefix p q \<and> P q)) fs"
  unfolding half_removed_def by (rule exI) (rule refl)

lemma remove_all_files: "\<exists>P. files (snd (remove_all M p st)) = filter (\<lambda>(q, _). \<not> (prefix p q \<and> P q)) (files st)"
proof -
  have "\<exists>P. files st = filter (\<lambda>(q, _). \<not> (prefix p q \<and> P q)) (files st)"
    by (rule exI [of _ "\<lambda>_. False"]) simp
  moreover have "\<exists>P. filter (\<lambda>(q, _). \<not> prefix p q) (files st) = filter (\<lambda>(q, _). \<not> (prefix p q \<and> P q)) (files st)"
    by (rule exI [of _ "\<lambda>_. True"]) simp
  ultimately show ?thesis
    using half_removed_conv [of p "removed M p (world st)" "files st"]
    by (auto simp: remove_all_def change_files_def remove_tree_iff split: sum.split)
qed

lemma remove_all_ok: "remove_all M p st = (Inr (), st') \<Longrightarrow> remove_tree p (files st) = Inr (files st')"
  by (auto simp: remove_all_def dest!: change_files_ok split: if_splits)

lemma below_keeps [file_intros]: "keeps_files m \<Longrightarrow> only_below p m"
  by (simp add: keeps_files_def only_below_def)

lemma below_then: "only_below p m \<Longrightarrow> (\<And>a. only_below p (k a)) \<Longrightarrow> only_below p (st_then m k)"
  by (simp add: only_below_def st_then_snd split: sum.split)

lemma below_making: "only_below p (run_git_making M p args)"
  by (auto simp: only_below_def run_git_making_def put_node_def hmap_simps split: prod.split sum.split option.split)
    (metis run_git_files snd_conv)+

lemma repo_dir_inject [simp]: "repo_dir R j = repo_dir R k \<longleftrightarrow> j = k"
  by (simp add: repo_dir_def)

lemma repo_dir_prefix [simp]: "prefix (repo_dir R k) (repo_dir R j) \<longleftrightarrow> j = k"
  by (auto simp: repo_dir_def)

lemma below_finish: "only_below (repo_dir R slug) (finish_making M R slug res)"
proof -
  have "hget (files (snd (finish_making M R slug res st))) q = hget (files st) q" if q: "\<not> prefix (repo_dir R slug) q" for st q
  proof (cases "succeeded res")
    case True
    then show ?thesis using keeps_reads(1) [of M R slug] by (simp add: finish_making_def keeps_files_def)
  next
    case False
    with q show ?thesis
      using remove_all_files [of M "repo_dir R slug" st] by (auto simp: finish_making_def hget_kept)
  qed
  then show ?thesis by (simp add: only_below_def)
qed

lemma below_claim: "only_below (repo_dir R slug) (claim_directory M R slug)"
  by (auto simp: only_below_def claim_directory_def change_files_def make_dir_iff hmap_simps
      split: prod.split sum.splits io_kind.splits if_splits)

lemma below_create: "only_below (repo_dir R slug) (create_repository M R slug)"
  unfolding create_repository_def
  by (intro below_then below_keeps keeps_check below_claim below_making below_finish)

lemma below_import: "only_below (repo_dir R slug) (import_local M R slug src)"
  unfolding import_local_def by (intro below_then below_keeps keeps_check below_making below_finish)

lemma below_repositories:
  assumes "only_below (repo_dir R k) m"
  shows "disk_repositories R (snd (m st)) - {k} = disk_repositories R st - {k}"
  using assms by (auto simp: disk_repositories_def only_below_def)

lemma open_known:
  assumes "open_repository M R k st = (Inr rep, st')"
  shows "hget (files st) (repo_dir R k) = Some RealDir" and "rep_path rep = repo_dir R k"
proof -
  from assms obtain p where p: "real_repository M R k st = Inr p" and rep: "rep_path rep = p"
    by (auto simp: open_repository_def st_then_def st_check_def rbind_Inr_iff split: prod.splits sum.splits)
  from p show "hget (files st) (repo_dir R k) = Some RealDir"
    by (auto simp: real_repository_def look_at_def rbind_Inr_iff map_err_Inr_iff ok_or_Inr_iff fail_if_Inr_iff split: if_splits)
  with p show "rep_path rep = repo_dir R k"
    by (auto simp: rep real_repository_def canonicalize_def resolve_def rbind_Inr_iff map_err_Inr_iff ok_or_Inr_iff
        fail_if_Inr_iff split: if_splits)
qed

lemma open_same_files: "open_repository M R k st = (x, st') \<Longrightarrow> files st' = files st"
  using keeps_reads(1) [of M R k] unfolding keeps_files_def by (metis snd_conv)

lemma keeps_same: "keeps_files m \<Longrightarrow> files (snd (m st)) = files st"
  by (simp add: keeps_files_def)

lemma create_cases:
  assumes "create_repository M R k st = (x, st')"
  obtains (refused) e where "x = Inl e" and "files st' = files st"
    | (claimed) "hget (files st) (repo_dir R k) = None" and "\<And>rep. x = Inr rep \<Longrightarrow> hget (files st') (repo_dir R k) = Some RealDir"
proof -
  consider e where "create_repository M R k st = (Inl e, st)"
    | e st1 where "claim_directory M R k st = (Inl e, st1)" "create_repository M R k st = (Inl e, st1)"
    | st1 where "claim_directory M R k st = (Inr (), st1)"
        "create_repository M R k st = st_then (run_git_making M (repo_dir R k)
          [''init'', ''--bare'', ''--initial-branch=main'', path_text (repo_dir R k)]) (\<lambda>res. finish_making M R k res) st1"
  proof (cases "validate_store_slug k")
    case (Inl e)
    then have "create_repository M R k st = (Inl e, st)" by (simp add: create_repository_def st_then_def st_check_def)
    then show thesis by (rule that(1))
  next
    case (Inr u)
    obtain y st1 where c: "claim_directory M R k st = (y, st1)" by fastforce
    with Inr show thesis using that(2,3) by (cases y) (simp_all add: create_repository_def st_then_def st_check_def)
  qed
  then show thesis
  proof cases
    case (1 e)
    with assms have "x = Inl e" "files st' = files st" by simp_all
    then show thesis by (rule refused)
  next
    case 2
    then have "files st1 = files st"
      by (auto simp: claim_directory_def split: prod.splits sum.splits io_kind.splits dest: change_files_failed)
    with 2 assms refused show thesis by simp
  next
    case 3
    then have "hget (files st) (repo_dir R k) = None"
      by (auto simp: claim_directory_def make_dir_iff split: prod.splits sum.splits io_kind.splits dest!: change_files_ok)
    moreover have "hget (files st') (repo_dir R k) = Some RealDir" if "x = Inr rep" for rep
    proof -
      from 3(2) assms that obtain st2 where "open_repository M R k st2 = (Inr rep, st')"
        by (auto simp: st_then_def finish_making_def split: prod.splits sum.splits if_splits)
      then show ?thesis using open_known(1) open_same_files by metis
    qed
    ultimately show thesis by (rule claimed)
  qed
qed

lemma erase_cases:
  assumes "erase_repository M R k st = (x, st')"
  obtains (failed) e P where "x = Inl e" and "files st' = filter (\<lambda>(q, _). \<not> (prefix (repo_dir R k) q \<and> P q)) (files st)"
    | (erased) "x = Inr ()" and "files st' = filter (\<lambda>(q, _). \<not> prefix (repo_dir R k) q) (files st)"
proof -
  let ?check = "\<lambda>st. rbind (as_io (look_at M (repo_dir R k) st)) (\<lambda>n. andThen (fail_if (n \<noteq> RealDir) GitIo)
       (rbind (as_io (canonicalize M (repo_dir R k) st)) (\<lambda>p.
        andThen (fail_if (p = [] \<or> butlast p \<noteq> store_root R) GitIo) (Inr p))))"
  show thesis
  proof (cases "?check st")
    case (Inl e)
    with assms failed [where P = "\<lambda>_. False"] show thesis by (auto simp: erase_repository_def st_then_def st_check_def)
  next
    case (Inr p)
    then have p: "p = repo_dir R k"
      by (auto simp: look_at_def canonicalize_def resolve_def rbind_Inr_iff map_err_Inr_iff ok_or_Inr_iff fail_if_Inr_iff
          split: if_splits)
    with Inr assms have run: "io_step (remove_all M (repo_dir R k)) st = (x, st')"
      by (simp add: erase_repository_def st_then_def st_check_def)
    then obtain y where "remove_all M (repo_dir R k) st = (y, st')" and "x = as_io y"
      by (auto simp: io_step_def split: prod.splits)
    then show thesis using failed erased
      using remove_all_files [of M "repo_dir R k" st]
      by (cases y) (auto dest!: remove_all_ok simp: remove_tree_iff)
  qed
qed

interpretation disk: git_store "disk_ops M R" "disk_repositories R" for M R
proof unfold_locales
  fix k g rep g'
  assume "git_create (disk_ops M R) k g = (Inr rep, g')"
  then have run: "create_repository M R k g = (Inr rep, g')" by (simp add: disk_ops_def)
  with below_repositories [OF below_create [of R k M], of g] have "disk_repositories R g' - {k} = disk_repositories R g - {k}" by simp
  with run show "k \<notin> disk_repositories R g \<and> disk_repositories R g' = insert k (disk_repositories R g)"
    by (cases rule: create_cases) (auto simp: disk_repositories_def)
next
  fix k g e g'
  assume "git_create (disk_ops M R) k g = (Inl e, g')"
  then have run: "create_repository M R k g = (Inl e, g')" by (simp add: disk_ops_def)
  with below_repositories [OF below_create [of R k M], of g] have "disk_repositories R g' - {k} = disk_repositories R g - {k}" by simp
  with run show "disk_repositories R g \<subseteq> disk_repositories R g' \<and> disk_repositories R g' \<subseteq> insert k (disk_repositories R g)"
    by (cases rule: create_cases) (auto simp: disk_repositories_def)
next
  fix k g e g'
  assume "git_erase (disk_ops M R) k g = (Inl e, g')"
  then have "erase_repository M R k g = (Inl e, g')" by (simp add: disk_ops_def)
  then show "disk_repositories R g - {k} \<subseteq> disk_repositories R g' \<and> disk_repositories R g' \<subseteq> disk_repositories R g"
    by (cases rule: erase_cases) (auto simp: disk_repositories_def hget_kept split: if_splits)
next
  fix k g g'
  assume "git_erase (disk_ops M R) k g = (Inr (), g')"
  then have "erase_repository M R k g = (Inr (), g')" by (simp add: disk_ops_def)
  then show "disk_repositories R g' = disk_repositories R g - {k}"
    by (cases rule: erase_cases) (auto simp: disk_repositories_def hget_kept)
next
  fix k g rep g'
  assume "git_open (disk_ops M R) k g = (Inr rep, g')"
  then show "k \<in> disk_repositories R g" using open_known(1) by (simp add: disk_ops_def disk_repositories_def)
qed (simp_all add: disk_ops_def disk_repositories_def keeps_same [OF keeps_reads(1)] keeps_same [OF keeps_reads(2)]
    keeps_same [OF keeps_reads(7)] keeps_same [OF keeps_reads(8)] keeps_same [OF keeps_commits(2)] keeps_same [OF keeps_writes(2)])

end
