(* ===== verification/Server_Storage.thy ===== *)
theory Server_Storage
  imports Server_Authority Git_Store
begin

text \<open>
  The control plane and its git store together: every project row has its repository.  The handlers
  are followed over the contract \<open>git_store\<close> of \<^verbatim>\<open>Git_Interface\<close>, whatever provides it; the property
  at the end is the one for the store on disk.
\<close>

section \<open>The projects a transaction leaves\<close>

definition project_ids :: "server_db \<Rightarrow> string set" where
  "project_ids db = prj_id ` set (projects db)"

lemma project_ids_cong: "projects db' = projects db \<Longrightarrow> project_ids db' = project_ids db"
  by (simp add: project_ids_def)

lemma claim_projects: "server_claim_tx E d r db = Inr (x, db') \<Longrightarrow> projects db' = projects db"
  by (erule server_claim_rows) simp

lemma redeem_projects: "redeem_tx E d r db = Inr (x, db') \<Longrightarrow> projects db' = projects db"
  by (auto simp: redeem_tx_def mark_redeemed_def tx_simps split: if_splits option.splits
      dest!: srv_insert_rows event_rows issue_session_rows)

lemma other_projects:
  "create_invite_tx E d ir n u db = Inr (x1, db') \<Longrightarrow> projects db' = projects db"
  "renew_tx E d tk csrf p db = Inr (x2, db') \<Longrightarrow> projects db' = projects db"
  "server_logout_tx d p db = Inr (x3, db') \<Longrightarrow> projects db' = projects db"
  "revoke_session_tx d k p db = Inr (x4, db') \<Longrightarrow> projects db' = projects db"
  "revoke_peer_tx d k p db = Inr (x5, db') \<Longrightarrow> projects db' = projects db"
  "revoke_device_tx d k p db = Inr (x6, db') \<Longrightarrow> projects db' = projects db"
  "create_key_tx E d kr tk ex cf p db = Inr (x7, db') \<Longrightarrow> projects db' = projects db"
  "revoke_key_tx d k p db = Inr (x8, db') \<Longrightarrow> projects db' = projects db"
  "use_key E d tk ty sc pub db = Inr (x9, db') \<Longrightarrow> projects db' = projects db"
  "create_space_tx d slug name p db = Inr (y1, db') \<Longrightarrow> projects db' = projects db"
  "update_space_tx d k slug name p db = Inr (y2, db') \<Longrightarrow> projects db' = projects db"
  "create_pull_tx d k pin u db = Inr (y3, db') \<Longrightarrow> projects db' = projects db"
  "create_deployment_tx d k sha env u db = Inr (y4, db') \<Longrightarrow> projects db' = projects db"
  "create_run_tx d k rin sha u db = Inr (y5, db') \<Longrightarrow> projects db' = projects db"
  "create_schedule_tx d k sinp u db = Inr (y6, db') \<Longrightarrow> projects db' = projects db"
  "create_secret_tx d k nm u db = Inr (y7, db') \<Longrightarrow> projects db' = projects db"
  by (auto simp: create_invite_tx_def renew_tx_def server_logout_tx_def revoke_session_tx_def revoke_peer_tx_def
      revoke_device_tx_def create_key_tx_def revoke_key_tx_def use_key_def touch_key_def revoke_logins_def
      create_space_tx_def update_space_tx_def create_pull_tx_def create_deployment_tx_def create_run_tx_def
      create_schedule_tx_def create_secret_tx_def tx_simps
      split: if_splits dest!: srv_insert_rows event_rows)

lemma update_ids: "(\<And>x. prj_id (f x) = prj_id x) \<Longrightarrow> prj_id ` set (update_where P f xs) = prj_id ` set xs"
proof -
  assume "\<And>x. prj_id (f x) = prj_id x"
  then have "map prj_id (update_where P f xs) = map prj_id xs" by (simp add: update_where_def)
  then show ?thesis by (metis set_map)
qed

lemma update_project_ids:
  assumes "update_project_tx d k r p db = Inr (x, db')"
  shows "project_ids db' = project_ids db"
proof -
  from assms obtain f e where "projects db' = update_where (\<lambda>x. prj_id x = k) f (projects db)"
    and "\<And>x. prj_id (f x) = prj_id x"
    by (auto simp: update_project_tx_def tx_simps split: if_splits dest!: event_rows)
  then show ?thesis by (simp only: project_ids_def update_ids)
qed

lemma create_project_ids: "create_project_tx d r sha p db = Inr (x, db') \<Longrightarrow> project_ids db' = insert (id_a d) (project_ids db)"
  by (auto simp: create_project_tx_def project_ids_def tx_simps dest!: srv_insert_rows event_rows)

lemmas kept_ids = claim_projects [THEN project_ids_cong] redeem_projects [THEN project_ids_cong]
  other_projects [THEN project_ids_cong] update_project_ids

lemma transact_ids:
  assumes "\<And>db x db'. body db = Inr (x, db') \<Longrightarrow> project_ids db' = project_ids db"
  shows "project_ids (sdb (snd (transact body st))) = project_ids (sdb st)"
  using assms by (auto simp: transact_def locked_def split: sum.splits if_splits)

lemma transact_gits: "gits (snd (transact body st)) = gits st"
  by (auto simp: transact_def split: sum.split)

section \<open>Handlers that leave projects and repositories alone\<close>

context git_store begin

definition disk_settled :: "('g server_state \<Rightarrow> 'a \<times> 'g server_state) \<Rightarrow> bool" where
  "disk_settled m \<longleftrightarrow> (\<forall>st. project_ids (sdb (snd (m st))) = project_ids (sdb st)
     \<and> repos (gits (snd (m st))) = repos (gits st))"

lemma settled_transact:
  "(\<And>db x db'. body db = Inr (x, db') \<Longrightarrow> project_ids db' = project_ids db) \<Longrightarrow> disk_settled (transact body)"
  by (simp add: disk_settled_def transact_ids transact_gits)

lemma settled_git: "(\<And>g. repos (snd (op g)) = repos g) \<Longrightarrow> disk_settled (on_git op)"
  by (simp add: disk_settled_def on_git_def split: prod.split) (metis snd_conv)

lemma settled_check: "disk_settled (st_check f)"
  by (simp add: disk_settled_def st_check_def)

lemma settled_then: "disk_settled m \<Longrightarrow> (\<And>a. disk_settled (k a)) \<Longrightarrow> disk_settled (st_then m k)"
  by (simp add: disk_settled_def st_then_cases split: sum.split)

lemma settled_reply: "disk_settled m \<Longrightarrow> disk_settled (\<lambda>st. reply_with k (m st))"
  by (simp add: disk_settled_def)

lemma settled_as: "(\<And>st. snd (f st) = st) \<Longrightarrow> disk_settled f"
  by (simp add: disk_settled_def)

lemma disk_settled_step: "disk_settled m \<Longrightarrow> (\<And>st. snd (f st) = st \<or> snd (f st) = snd (m st)) \<Longrightarrow> disk_settled f"
  unfolding disk_settled_def by metis

lemma settled_refuse:
  "(\<And>x. disk_settled (f x)) \<Longrightarrow> disk_settled (\<lambda>st. case c st of Inl e \<Rightarrow> (g e, st) | Inr x \<Rightarrow> f x st)"
  by (auto simp: disk_settled_def split: sum.splits)

lemma settled_if: "disk_settled f \<Longrightarrow> disk_settled (\<lambda>st. if c st then (g st, st) else f st)"
  by (rule disk_settled_step) auto

lemma settled_user: "(\<And>p. disk_settled (f p)) \<Longrightarrow> disk_settled (as_user E d hs csrf f)"
  by (auto simp: disk_settled_def as_user_def split: sum.splits)

lemma settled_owner: "(\<And>p. disk_settled (f p)) \<Longrightarrow> disk_settled (as_owner E d hs csrf f)"
  unfolding as_owner_def by (rule settled_user) (auto simp: disk_settled_def split: sum.splits)

lemma settled_member: "(\<And>p. disk_settled (f p)) \<Longrightarrow> disk_settled (as_member E d hs k r csrf f)"
  by (auto simp: disk_settled_def as_member_def split: sum.splits)

lemmas settled_intros = settled_then settled_git settled_check settled_reply settled_refuse settled_if
  settled_user settled_owner settled_member

lemma settledD:
  "disk_settled m \<Longrightarrow> m st = (x, st') \<Longrightarrow> project_ids (sdb st') = project_ids (sdb st) \<and> repos (gits st') = repos (gits st)"
  unfolding disk_settled_def by (metis snd_conv)

lemma settled_tx:
  "disk_settled (transact (server_claim_tx E d r))" "disk_settled (transact (redeem_tx E d r))"
  "disk_settled (transact (create_invite_tx E d ir n u))" "disk_settled (transact (renew_tx E d tk csrf p))"
  "disk_settled (transact (server_logout_tx d p))" "disk_settled (transact (revoke_session_tx d k p))"
  "disk_settled (transact (revoke_peer_tx d k p))" "disk_settled (transact (revoke_device_tx d k p))"
  "disk_settled (transact (create_key_tx E d kr tk ex cf p))" "disk_settled (transact (revoke_key_tx d k p))"
  "disk_settled (transact (use_key E d tk ty sc pub))" "disk_settled (transact (create_space_tx d slug name p))"
  "disk_settled (transact (update_space_tx d k slug name p))" "disk_settled (transact (create_pull_tx d k pin u))"
  "disk_settled (transact (create_deployment_tx d k sha env u))" "disk_settled (transact (create_run_tx d k rin sha u))"
  "disk_settled (transact (create_schedule_tx d k sinp u))" "disk_settled (transact (create_secret_tx d k nm u))"
  "disk_settled (transact (update_project_tx d k pq p))"
  by (rule settled_transact, erule kept_ids)+

lemmas settled_splits = prod.splits sum.splits option.splits if_splits

lemma settled_claim: "disk_settled (server_claim E d r)"
  unfolding disk_settled_def by (auto simp: server_claim_def session_reply_def split: settled_splits dest!: settledD [OF settled_tx(1)])

lemma settled_redeem: "disk_settled (redeem_invite E d r)"
  unfolding disk_settled_def by (auto simp: redeem_invite_def session_reply_def split: settled_splits dest!: settledD [OF settled_tx(2)])

lemma settled_invite: "disk_settled (create_invite_as E d r p)"
  unfolding create_invite_as_def Let_def by (intro settled_refuse settled_reply settled_tx(3))

lemma settled_renew: "disk_settled (renew_session_as E d tk csrf p)"
  unfolding disk_settled_def by (auto simp: renew_session_as_def split: settled_splits dest!: settledD [OF settled_tx(4)])

lemma settled_session: "disk_settled (session_get E d hs)"
proof -
  have "disk_settled (\<lambda>st. case c of Inl e \<Rightarrow> (Inl (Refuse e), st)
      | Inr (token, csrf) \<Rightarrow> as_user E d hs False (renew_session_as E d token csrf) st)" for c
    by (cases c) (auto intro: settled_as settled_user settled_renew)
  then show ?thesis unfolding session_get_def .
qed

lemma settled_logout: "disk_settled (server_logout_as E d p)"
  unfolding disk_settled_def by (auto simp: server_logout_as_def split: settled_splits dest!: settledD [OF settled_tx(5)])

lemma settled_credential: "disk_settled (create_credential_as E d r p)"
  unfolding create_credential_as_def Let_def by (intro settled_refuse settled_reply settled_tx(9))

lemma settled_revocations:
  "disk_settled (revoke_session_as d k p)" "disk_settled (revoke_peer_as d k p)"
  "disk_settled (revoke_device_as d k p)" "disk_settled (revoke_credential_as d k p)"
  unfolding revoke_session_as_def revoke_peer_as_def revoke_device_as_def revoke_credential_as_def
  by (intro settled_if settled_reply settled_tx)+

lemma settled_opaque: "disk_settled (authenticate_opaque_token E d token ty sc)"
  unfolding authenticate_opaque_token_def by (intro settled_refuse settled_tx(11))

lemma settled_bearer: "disk_settled (authenticate_bearer E d hs sc)"
  unfolding authenticate_bearer_def by (intro settled_refuse settled_opaque)

lemma settled_tokens:
  "disk_settled (cli_whoami E d hs)" "disk_settled (list_projects E d hs)" "disk_settled (project_remote E d hs k)"
proof -
  note user = settled_user [OF settled_as, of "\<lambda>p st. (projects_reply E (pr_user p) None None st, st)"]
    settled_user [OF settled_as, of "\<lambda>p st. (remote_reply E k (pr_user p) None None st, st)"]
  show "disk_settled (cli_whoami E d hs)"
    unfolding disk_settled_def by (auto simp: cli_whoami_def split: settled_splits dest!: settledD [OF settled_bearer])
  show "disk_settled (list_projects E d hs)" "disk_settled (project_remote E d hs k)"
    using user [of E d hs False]
    by (auto simp: disk_settled_def list_projects_def project_remote_def split: settled_splits dest!: settledD [OF settled_bearer])
qed

lemma settled_spaces:
  "disk_settled (server_create_workspace_as d slug name p)" "disk_settled (update_workspace_as d k slug name p)"
  unfolding server_create_workspace_as_def update_workspace_as_def
  by (intro settled_refuse settled_reply settled_tx)+

lemma settled_reads:
  "disk_settled (manifest_as E src p)" "disk_settled (list_invites_as p)" "disk_settled (list_peers_as p)"
  "disk_settled (list_devices_as p)" "disk_settled (list_sessions_as p)" "disk_settled (list_credentials_as E p)"
  "disk_settled (server_workspaces_as p)" "disk_settled (delete_workspace_as k p)" "disk_settled (delete_project_as k p)"
  "disk_settled (get_project_as k p)" "disk_settled (project_list rows mk p)" "disk_settled (list_audit_as p)"
  by (auto simp: disk_settled_def manifest_as_def list_invites_as_def list_peers_as_def list_devices_as_def
      list_sessions_as_def list_credentials_as_def server_workspaces_as_def delete_workspace_as_def
      delete_project_as_def get_project_as_def project_list_def list_audit_as_def split: sum.splits)

lemma settled_listings:
  "disk_settled (list_pulls k p)" "disk_settled (list_deployments k p)" "disk_settled (list_runs k p)"
  "disk_settled (list_schedules k p)" "disk_settled (list_secrets k p)"
  unfolding list_pulls_def list_deployments_def list_runs_def list_schedules_def list_secrets_def
  by (rule settled_reads(11))+

text \<open>The handlers that read or extend a repository.\<close>

lemma settled_branches: "git E = ops \<Longrightarrow> disk_settled (opened_branches E k)"
  unfolding opened_branches_def by (simp add: settled_then settled_git open_keeps branches_keep)

lemma settled_revision: "git E = ops \<Longrightarrow> disk_settled (validate_revision_exists E k sha)"
  unfolding validate_revision_exists_def
  by (simp add: settled_then settled_git settled_check open_keeps commits_keep)

lemma settled_repository:
  assumes "git E = ops"
  shows "disk_settled (git_branches E k p)" "disk_settled (git_commits E k sha n p)" "disk_settled (git_tree E k sha b p)"
    "disk_settled (git_file E k sha path p)"
  using assms unfolding git_branches_def git_commits_def git_tree_def git_file_def repository_read_def
  by (simp_all add: settled_reply settled_then settled_git open_keeps branches_keep commits_keep tree_keeps read_keeps)

lemma settled_rows:
  assumes "git E = ops"
  shows "disk_settled (create_pull_as E d k pin p)" "disk_settled (create_deployment_as E d k sha env p)"
    "disk_settled (create_run_as E d k rin p)" "disk_settled (create_schedule_as E d k sinp p)" "disk_settled (create_secret_as d k nm p)"
  unfolding create_pull_as_def create_deployment_as_def create_run_as_def create_schedule_as_def create_secret_as_def
  by (intro settled_reply settled_then settled_check settled_branches [OF assms] settled_revision [OF assms] settled_tx)+

lemma settled_update_project:
  assumes "git E = ops"
  shows "disk_settled (update_project_as E d hs k r p)"
proof -
  let ?body = "st_then (opened_branches E k) (\<lambda>bs.
     st_then (st_check (\<lambda>_. fail_if (\<not> list_ex (\<lambda>b. branch_name b = pq_branch r) bs)
        (BadRequest ''defaultBranch does not exist''))) (\<lambda>_. transact (update_project_tx d k r p)))"
  have body: "disk_settled ?body" by (intro settled_then settled_check settled_branches [OF assms] settled_tx)
  have again: "disk_settled (as_user E d hs False (get_project_as k))" by (intro settled_user settled_reads)
  have "disk_settled (\<lambda>st. case ?body st of (Inl e, st) \<Rightarrow> (Inl (Refuse e), st)
     | (Inr _, st) \<Rightarrow> as_user E d hs False (get_project_as k) st)"
    using again unfolding disk_settled_def by (auto split: settled_splits dest!: settledD [OF body])
  then show ?thesis unfolding update_project_as_def by (rule settled_refuse)
qed

text \<open>Every request other than the creation of a project.\<close>

lemma settled_dispatch:
  assumes E: "git E = ops" and other: "\<And>r. rq \<noteq> PostProjects r"
  shows "disk_settled (dispatch E d hs rq)"
proof -
  note handlers = settled_claim settled_redeem settled_invite settled_session settled_logout settled_credential
    settled_revocations settled_tokens settled_spaces settled_reads settled_listings
    settled_repository [OF E] settled_rows [OF E] settled_update_project [OF E]
  from other show ?thesis
    unfolding dispatch_def
    by (cases rq; simp only: server_request.case)
      ((rule settled_user settled_owner settled_member)?, (rule handlers | rule settled_as, simp | simp))+
qed

section \<open>Creating a project\<close>

definition stored_projects :: "'g server_state \<Rightarrow> bool" where
  "stored_projects st \<longleftrightarrow> project_ids (sdb st) \<subseteq> repos (gits st)"

lemma settled_stored: "disk_settled m \<Longrightarrow> stored_projects st \<Longrightarrow> stored_projects (snd (m st))"
  by (simp add: disk_settled_def stored_projects_def)

lemma git_stored:
  "stored_projects st \<Longrightarrow> on_git op st = (x, st') \<Longrightarrow> repos (gits st) \<subseteq> repos (gits st') \<Longrightarrow> stored_projects st'"
  by (auto simp: stored_projects_def on_git_def Let_def split: prod.splits)

lemma git_run:
  assumes "on_git op st = (x, st')"
  obtains y g where "op (gits st) = (y, g)" and "x = map_err map_git y" and "st' = st\<lparr>gits := g\<rparr>"
  using assms by (cases "op (gits st)") (auto simp: on_git_def)

text \<open>Taking back a repository that no row names.\<close>

lemma cleanup_stored:
  assumes "git E = ops" and "stored_projects st" and "k \<notin> project_ids (sdb st)"
  shows "stored_projects (snd (cleanup_new_repository E k c st))"
proof (cases "git_erase ops k (gits st)")
  case (Pair x g)
  then have "repos (gits st) - {k} \<subseteq> repos g"
    by (cases x) (auto dest: erase_ok erase_failed)
  with assms Pair show ?thesis
    by (cases x) (auto simp: cleanup_new_repository_def stored_projects_def)
qed

lemma create_stored:
  assumes E: "git E = ops" and ok: "stored_projects st"
  shows "stored_projects (snd (create_project_as E d r p st))"
proof -
  have "stored_projects st'" if "cleanup_new_repository E (id_a d) c st1 = (x, st')" "stored_projects st1"
      "id_a d \<notin> project_ids (sdb st1)" for c st1 x st'
    using cleanup_stored [OF E that(2,3), of c] that(1) by simp
  note cleaned = this
  show ?thesis
  proof (cases "on_git (git_create (git E) (id_a d)) st")
    case (Pair x st1)
    then obtain y g where run: "git_create ops (id_a d) (gits st) = (y, g)" and x: "x = map_err map_git y"
      and st1: "st1 = st\<lparr>gits := g\<rparr>" using E by (auto elim: git_run)
    show ?thesis
    proof (cases y)
      case (Inl e)
      with run have "repos (gits st) \<subseteq> repos g" by (auto dest: create_failed)
      with ok Pair x Inl st1 show ?thesis
        by (auto simp: create_project_as_def stored_projects_def split: sum.split)
    next
      case (Inr rep)
      with run have new: "id_a d \<notin> repos (gits st)" and made: "repos g = insert (id_a d) (repos (gits st))"
        by (auto dest: create_ok)
      with ok have ok1: "stored_projects st1" and free: "id_a d \<notin> project_ids (sdb st1)" and there: "id_a d \<in> repos (gits st1)"
        by (auto simp: stored_projects_def st1)
      obtain z st2 where c: "on_git (initial_commit E rep r) st1 = (z, st2)" by fastforce
      then have ok2: "stored_projects st2" and free2: "id_a d \<notin> project_ids (sdb st2)" and there2: "id_a d \<in> repos (gits st2)"
        using settledD [OF settled_git, of "initial_commit E rep r" st1 z st2] ok1 free there
        by (auto simp: stored_projects_def initial_commit_def E change_keeps)
      have done_tx: "stored_projects st3 \<and> (\<exists>e. u = Inl e) \<longrightarrow> id_a d \<notin> project_ids (sdb st3)" "stored_projects st3"
        if "transact (create_project_tx d r h p) st2 = (u, st3)" for h u st3
        using that ok2 free2 there2
        by (auto simp: transact_def locked_def stored_projects_def split: sum.splits prod.splits if_splits dest!: create_project_ids)
      have "stored_projects (snd (create_project_as E d r p st))"
        if "andThen (require_role p (pq_space r) ''maintainer'' st)
          (andThen (validate_project r) (membership_role (pr_user p) (pq_space r) st)) = Inr caller" for caller
      proof (cases z)
        case (Inl e)
        with that Pair Inr x c show ?thesis
          using cleaned [OF prod.collapse [symmetric] ok2 free2, of e] by (simp add: create_project_as_def)
      next
        case (Inr head)
        obtain u st3 where t: "transact (create_project_tx d r head p) st2 = (u, st3)" by fastforce
        with that Pair x \<open>y = Inr rep\<close> c Inr done_tx [OF t] show ?thesis
          using cleaned [OF prod.collapse [symmetric], of st3]
          by (cases u) (simp_all add: create_project_as_def)
      qed
      moreover have "stored_projects (snd (create_project_as E d r p st))"
        if "andThen (require_role p (pq_space r) ''maintainer'' st)
          (andThen (validate_project r) (membership_role (pr_user p) (pq_space r) st)) = Inl e" for e
        using that ok by (simp add: create_project_as_def)
      ultimately show ?thesis
        by (cases "andThen (require_role p (pq_space r) ''maintainer'' st)
          (andThen (validate_project r) (membership_role (pr_user p) (pq_space r) st))") blast+
    qed
  qed
qed

lemma dispatch_stored:
  assumes E: "git E = ops" and ok: "stored_projects st"
  shows "stored_projects (snd (dispatch E d hs rq st))"
proof (cases "\<exists>r. rq = PostProjects r")
  case True
  then show ?thesis
    using create_stored [OF E ok] ok by (auto simp: dispatch_def as_user_def split: sum.split)
next
  case False
  then show ?thesis using settled_stored [OF settled_dispatch [OF E] ok] by blast
qed

lemma respond_stored: "git E = ops \<Longrightarrow> stored_projects st \<Longrightarrow> stored_projects (snd (respond E d hs rq st))"
  by (auto simp: respond_def dispatch_stored split: sum.split)

text \<open>The Git endpoints open a repository and leave the rest to the backend.\<close>

lemma settled_git_auth: "disk_settled (authenticate_git E d hs)"
  unfolding disk_settled_def by (auto simp: authenticate_git_def split: settled_splits dest!: settledD [OF settled_opaque])

lemma settled_authorize:
  assumes "git E = ops"
  shows "disk_settled (authorize_git_project E p ws slug required)"
proof -
  have "repos g' = repos g" if "git_open ops k g = (x, g')" for k g g' x
    using open_keeps [of k g] that by simp
  then show ?thesis unfolding disk_settled_def using assms
    by (auto simp: authorize_git_project_def split: settled_splits)
qed

lemma git_endpoints_stored:
  assumes "git E = ops" and "stored_projects st"
  shows "stored_projects (snd (git_info_refs E w d hs ws name query st))"
    and "stored_projects (snd (git_upload_pack E w d hs ws name query body st))"
proof -
  have admitted: "disk_settled (git_admitted E d hs ws name)"
    unfolding git_admitted_def
    by (intro settled_then settled_git_auth settled_check settled_authorize [OF assms(1)]) (auto intro: settled_check)
  have "disk_settled (git_info_refs E w d hs ws name query)" "disk_settled (git_upload_pack E w d hs ws name query body)"
    by (rule disk_settled_step [OF admitted];
        auto simp: git_info_refs_def git_upload_pack_def split: prod.splits sum.splits option.splits)+
  then show "stored_projects (snd (git_info_refs E w d hs ws name query st))"
    "stored_projects (snd (git_upload_pack E w d hs ws name query body st))"
    using settled_stored assms(2) by blast+
qed

end

section \<open>On disk\<close>

text \<open>What a server on disk is asked: requests to its API and to its Git endpoints.\<close>

datatype server_call =
    ApiCall fresh header_list server_request
  | GitInfoRefs smart_world fresh header_list string string "string option"
  | GitUploadPack smart_world fresh header_list string string "string option" string

definition serve_call :: "('g, 'tz, 'cron) server_env \<Rightarrow> server_call \<Rightarrow> 'g server_state \<Rightarrow> 'g server_state" where
  "serve_call E c st = (case c of
      ApiCall d hs rq \<Rightarrow> snd (respond E d hs rq st)
    | GitInfoRefs w d hs ws name query \<Rightarrow> snd (git_info_refs E w d hs ws name query st)
    | GitUploadPack w d hs ws name query body \<Rightarrow> snd (git_upload_pack E w d hs ws name query body st))"

lemma served_on_disk:
  assumes "git E = disk_ops M R" and "disk.stored_projects R st"
  shows "disk.stored_projects R (fold (serve_call E) cs st)"
  using assms(2)
proof (induction cs arbitrary: st)
  case (Cons c cs)
  have "disk.stored_projects R (serve_call E c st)"
    using Cons.prems disk.respond_stored [OF assms(1)] disk.git_endpoints_stored [OF assms(1)]
    by (cases c) (simp_all add: serve_call_def)
  then show ?case by (simp add: Cons.IH)
qed simp

text \<open>
  C9: whatever requests a control plane with its store on disk has served, in whatever order and
  with whatever failures of git or of the file system, each project it lists has its directory in
  the store: a project is entered only after its repository was made, and a repository is taken back
  only when no project was entered.
\<close>

theorem every_project_has_its_repository:
  "project_ids (sdb (fold (serve_call (E\<lparr>git := disk_ops M R\<rparr>)) cs (st\<lparr>sdb := server_start kvs\<rparr>)))
     \<subseteq> disk_repositories R (gits (fold (serve_call (E\<lparr>git := disk_ops M R\<rparr>)) cs (st\<lparr>sdb := server_start kvs\<rparr>)))"
proof -
  have "disk.stored_projects R (st\<lparr>sdb := server_start kvs\<rparr>)"
    by (simp add: disk.stored_projects_def project_ids_def server_start_def empty_server_db_def)
  then have "disk.stored_projects R (fold (serve_call (E\<lparr>git := disk_ops M R\<rparr>)) cs (st\<lparr>sdb := server_start kvs\<rparr>))"
    by (intro served_on_disk) simp_all
  then show ?thesis by (simp add: disk.stored_projects_def)
qed

end
