(* ===== verification/Server_Startup.thy ===== *)
theory Server_Startup
  imports Server_Desk Local_Files
begin

text \<open>
  The start of the control plane (\<^verbatim>\<open>crates/c6-server/src/main.rs\<close>, \<open>open_state\<close> and what it calls):
  the checks of the configuration, the data directory, the one-time token file, the first rows of
  the database and the owner of an old one.  Parsing a URI and opening the Git store are parameters.
\<close>

section \<open>Checks of the configuration\<close>

datatype ip_addr = IpV4 nat nat nat nat | IpV6 "u16 list"

fun is_loopback :: "ip_addr \<Rightarrow> bool" where
  "is_loopback (IpV4 a b c d) = (a = 127)"
| "is_loopback (IpV6 s) = (s = [0, 0, 0, 0, 0, 0, 0, 1])"

record parsed_uri =
  uri_scheme :: "string option"
  uri_authority :: "string option"
  uri_query :: "string option"
  uri_path :: string

definition parse_git_http_enabled :: "string option \<Rightarrow> string + bool" where
  "parse_git_http_enabled v =
     (if v \<in> {None, Some ''0'', Some ''false''} then Inr False
      else if v \<in> {Some ''1'', Some ''true''} then Inr True
      else Inl ''C6_GIT_HTTP_ENABLED must be exactly true, false, 1, or 0'')"

definition validate_exposure :: "ip_addr \<Rightarrow> bool \<Rightarrow> string + unit" where
  "validate_exposure bind insecure_http =
     fail_if (\<not> is_loopback bind \<and> \<not> insecure_http) (''refusing C6'' @ [char_of (39::nat)]
       @ ''s plaintext listener on non-loopback C6_BIND; bind loopback behind a reverse proxy or explicitly set C6_INSECURE_HTTP=1 for a trusted private/container hop'')"

definition validate_public_base_url :: "(string \<Rightarrow> parsed_uri option) \<Rightarrow> string \<Rightarrow> string + string" where
  "validate_public_base_url parse inp =
     andThen (fail_if (CHR ''#'' \<in> set inp) ''C6_PUBLIC_BASE_URL must not contain a fragment'')
    (andThen (fail_if (\<not> (prefix ''http://'' inp \<or> prefix ''https://'' inp))
        ''C6_PUBLIC_BASE_URL must use a lowercase http:// or https:// scheme'')
    (rbind (ok_or ''C6_PUBLIC_BASE_URL is malformed'' (parse inp)) (\<lambda>u.
     rbind (ok_or ''C6_PUBLIC_BASE_URL has no scheme'' (uri_scheme u)) (\<lambda>scheme.
     andThen (fail_if (scheme \<notin> {''http'', ''https''}) ''C6_PUBLIC_BASE_URL must use http or https'')
    (rbind (ok_or ''C6_PUBLIC_BASE_URL has no host'' (uri_authority u)) (\<lambda>authority.
     andThen (fail_if (CHR ''@'' \<in> set authority) ''C6_PUBLIC_BASE_URL must not contain credentials'')
    (andThen (fail_if (uri_query u \<noteq> None) ''C6_PUBLIC_BASE_URL must not contain a query'')
    (andThen (fail_if (uri_path u \<notin> {[], ''/''}) ''C6_PUBLIC_BASE_URL must be an origin without a path'')
       (Inr (rev (dropWhile (\<lambda>c. c = CHR ''/'') (rev inp))))))))))))"

section \<open>The data directory and the token file\<close>

type_synonym boot_io = "local_tree \<Rightarrow> (string + unit) \<times> local_tree"

definition plain_directory :: "os \<Rightarrow> local_file" where
  "plain_directory os = \<lparr>lf_kind = RealDirectory, lf_mode = and 0x1FF (not (mode_mask os)), lf_owner = effective_user os,
     lf_links = 2, lf_data = []\<rparr>"

definition set_mode :: "os \<Rightarrow> string \<Rightarrow> u32 \<Rightarrow> string \<Rightarrow> boot_io" where
  "set_mode os p m e fs = (case (if refused_call os (ChmodCall p) then None else hget fs p) of
      None \<Rightarrow> (Inl e, fs) | Some f \<Rightarrow> (Inr (), hput p (f\<lparr>lf_mode := m\<rparr>) fs))"

definition prepare_server_dir :: "os \<Rightarrow> string \<Rightarrow> boot_io" where
  "prepare_server_dir os p =
     st_then (\<lambda>fs. case lstat os fs p of
         Inr f \<Rightarrow> (fail_if (lf_kind f \<noteq> RealDirectory) ''C6_DATA_DIR must be a real directory, not a symlink or file'', fs)
       | Inl _ \<Rightarrow>
           if refused_call os (MakeDirsCall p) \<or> (case hget fs p of None \<Rightarrow> False | Some f \<Rightarrow> lf_kind f \<noteq> RealDirectory)
           then (Inl ''create C6 data directory'', fs)
           else (Inr (), if hget fs p = None then hput p (plain_directory os) fs else fs))
       (\<lambda>_. set_mode os p 0x1C0 ''secure C6_DATA_DIR permissions'')"

definition bootstrap_path :: "string \<Rightarrow> string" where
  "bootstrap_path dir = dir @ ''/bootstrap-token''"

definition validate_bootstrap_token :: "string \<Rightarrow> string + unit" where
  "validate_bootstrap_token t =
     fail_if (length t < 32 \<or> 256 < length t \<or> \<not> list_all (\<lambda>c. ascii_alnum c \<or> c = CHR ''-'' \<or> c = CHR ''_'') t)
       ''bootstrap token file contains an invalid token''"

definition token_text :: "string \<Rightarrow> string" where
  "token_text s = rev (dropWhile (\<lambda>c. c = CHR 0x0D \<or> c = CHR 0x0A) (rev s))"

definition private_file_of :: "os \<Rightarrow> string \<Rightarrow> local_file" where
  "private_file_of os b = \<lparr>lf_kind = RegularFile, lf_mode = and 0x180 (not (mode_mask os)),
     lf_owner = effective_user os, lf_links = 1, lf_data = b\<rparr>"

text \<open>A file that is not UTF-8 holds no valid token either.  The token and its line end are two writes; a failure of either leaves what was written so far.\<close>

definition write_bootstrap_token :: "os \<Rightarrow> string \<Rightarrow> string \<Rightarrow> boot_io" where
  "write_bootstrap_token os p token fs =
     (if refused_call os (CreateCall p) \<or> hget fs p \<noteq> None then (Inl ''create bootstrap token file'', fs)
      else if refused_call os (WriteCall p)
      then (Inl ''write bootstrap token file'', hput p (private_file_of os (take (part_written os p) token)) fs)
      else (fail_if (refused_call os (SyncCall p)) ''sync bootstrap token file'', hput p (private_file_of os (token @ [CHR 0x0A])) fs))"

definition load_or_create_bootstrap_token :: "os \<Rightarrow> string \<Rightarrow> string \<Rightarrow> local_tree \<Rightarrow> (string + string) \<times> local_tree" where
  "load_or_create_bootstrap_token os p random fs = (case lstat os fs p of
      Inr f \<Rightarrow>
        (andThen (fail_if (lf_kind f \<noteq> RegularFile) ''bootstrap token path must be a regular file'')
        (andThen (fail_if (permission_bits f \<noteq> 0x180) ''bootstrap token file must have mode 0600'')
        (andThen (fail_if (refused_call os (ReadCall p)) ''read existing bootstrap token file'')
        (let token = token_text (lf_data f) in
         andThen (validate_bootstrap_token token) (Inr token)))), fs)
    | Inl OsMissing \<Rightarrow> (case write_bootstrap_token os p random fs of
          (Inl e, fs) \<Rightarrow> (Inl e, fs) | (Inr _, fs) \<Rightarrow> (Inr random, fs))
    | Inl _ \<Rightarrow> (Inl ''inspect bootstrap token file'', fs))"

section \<open>The database\<close>

text \<open>What a start draws and is given; \<open>commit_ok\<close> is the outcome of its transaction.\<close>

record boot =
  bt_os :: os
  bt_supplied :: "string option"
  bt_random :: string
  bt_server_id :: string
  bt_commit_ok :: bool

definition boot_token :: "boot \<Rightarrow> string \<Rightarrow> local_tree \<Rightarrow> (string + string) \<times> local_tree" where
  "boot_token B dir fs = (case bt_supplied B of
      Some t \<Rightarrow> (andThen (validate_bootstrap_token t) (Inr t), fs)
    | None \<Rightarrow> load_or_create_bootstrap_token (bt_os B) (bootstrap_path dir) (bt_random B) fs)"

definition ensure_server ::
  "('g, 'tz, 'cron) server_env \<Rightarrow> boot \<Rightarrow> string \<Rightarrow> local_tree \<times> server_db \<Rightarrow> (string + unit) \<times> local_tree \<times> server_db" where
  "ensure_server E B dir w = (case w of (fs, db) \<Rightarrow>
     if server_setting db ''server_id'' \<noteq> None then (Inr (), fs, db)
     else case boot_token B dir fs of
         (Inl e, fs) \<Rightarrow> (Inl e, fs, db)
       | (Inr token, fs) \<Rightarrow>
           (case rbind (insert_setting ''server_id'' (bt_server_id B) db) (insert_setting ''bootstrap_hash'' (hash_hex E token)) of
              Inl _ \<Rightarrow> (Inl ''database'', fs, db)
            | Inr db' \<Rightarrow> if bt_commit_ok B then (Inr (), fs, db') else (Inl ''database'', fs, db)))"

text \<open>\<open>INSERT OR IGNORE\<close> of the first account that is not revoked.\<close>

definition backfill_server_owner :: "server_db \<Rightarrow> server_db" where
  "backfill_server_owner db = (case find (\<lambda>u. usr_revoked u = None) (peers db) of
      None \<Rightarrow> db
    | Some u \<Rightarrow> (case insert_setting ''server_owner_id'' (usr_id u) db of Inl _ \<Rightarrow> db | Inr db \<Rightarrow> db))"

text \<open>\<open>open_state_with_git_http\<close>, to the point where the database is ready.\<close>

definition open_server ::
  "('g, 'tz, 'cron) server_env \<Rightarrow> boot \<Rightarrow> string \<Rightarrow> local_tree \<times> server_db \<Rightarrow> (string + unit) \<times> local_tree \<times> server_db" where
  "open_server E B dir w = (case w of (fs, db) \<Rightarrow>
     (case prepare_server_dir (bt_os B) dir fs of
        (Inl e, fs) \<Rightarrow> (Inl e, fs, db)
      | (Inr _, fs) \<Rightarrow>
          (case ensure_server E B dir (fs, db) of
             (Inl e, fs, db) \<Rightarrow> (Inl e, fs, db)
           | (Inr u, fs, db) \<Rightarrow> (Inr u, fs, backfill_server_owner db))))"

section \<open>Any number of starts\<close>

text \<open>The token that an operator reads from the file.\<close>

definition token_of_file :: "string \<Rightarrow> local_tree \<Rightarrow> string option" where
  "token_of_file dir fs = map_option (\<lambda>f. token_text (lf_data f)) (hget fs (bootstrap_path dir))"

lemma prepare_keeps:
  "prepare_server_dir os p fs = (r, fs') \<Longrightarrow> q \<noteq> p \<Longrightarrow> hget fs' q = hget fs q"
  by (auto simp: prepare_server_dir_def st_then_def set_mode_def hmap_simps split: sum.splits if_splits option.splits)

lemma token_text_line: "validate_bootstrap_token t = Inr u \<Longrightarrow> token_text (t @ [CHR 0x0A]) = t"
proof -
  assume "validate_bootstrap_token t = Inr u"
  then have "length t \<noteq> 0" and ok: "list_all (\<lambda>c. ascii_alnum c \<or> c = CHR ''-'' \<or> c = CHR ''_'') t"
    by (auto simp: validate_bootstrap_token_def fail_if_def split: if_splits)
  then obtain s c where t: "t = s @ [c]" by (cases t rule: rev_cases) auto
  have "c \<noteq> CHR 0x0D \<and> c \<noteq> CHR 0x0A" using ok by (auto simp: t ascii_alnum_def char_simps)
  then show ?thesis by (simp add: t token_text_def)
qed

lemma loaded_token:
  assumes "load_or_create_bootstrap_token os p random fs = (Inr t, fs')" and "validate_bootstrap_token random = Inr ()"
  shows "validate_bootstrap_token t = Inr ()" and "map_option (\<lambda>f. token_text (lf_data f)) (hget fs' p) = Some t"
proof -
  have "validate_bootstrap_token t = Inr () \<and> map_option (\<lambda>f. token_text (lf_data f)) (hget fs' p) = Some t"
  proof (cases "hget fs p")
    case None
    with assms token_text_line [OF assms(2)] show ?thesis
      by (auto simp: load_or_create_bootstrap_token_def lstat_def write_bootstrap_token_def fail_if_def private_file_of_def hmap_simps
          split: if_splits prod.splits sum.splits)
  next
    case (Some f)
    with assms show ?thesis
      by (auto simp: load_or_create_bootstrap_token_def lstat_def Let_def rbind_Inr_iff split: if_splits)
  qed
  then show "validate_bootstrap_token t = Inr ()" and "map_option (\<lambda>f. token_text (lf_data f)) (hget fs' p) = Some t"
    by simp_all
qed

lemma backfill_unclaimed: "peers db = [] \<Longrightarrow> backfill_server_owner db = db"
  by (simp add: backfill_server_owner_def)

lemma backfill_owned: "server_inv db \<Longrightarrow> backfill_server_owner db = db"
  by (cases "peers db") (auto simp: backfill_server_owner_def server_inv_def owner_ok_def server_setting_def insert_setting_def split: option.split)

lemma start_of_known_server:
  assumes "server_inv db" and "server_setting db ''server_id'' \<noteq> None"
  shows "snd (snd (open_server E B dir (fs, db))) = db"
    and "hget (fst (snd (open_server E B dir (fs, db)))) (bootstrap_path dir) = hget fs (bootstrap_path dir)"
proof -
  obtain r fs1 where p: "prepare_server_dir (bt_os B) dir fs = (r, fs1)" by fastforce
  have "bootstrap_path dir \<noteq> dir" by (simp add: bootstrap_path_def)
  from prepare_keeps [OF p this] assms(2) p backfill_owned [OF assms(1)]
  show "snd (snd (open_server E B dir (fs, db))) = db"
    "hget (fst (snd (open_server E B dir (fs, db)))) (bootstrap_path dir) = hget fs (bootstrap_path dir)"
    by (cases r; auto simp: open_server_def ensure_server_def)+
qed

text \<open>
  A start of a server whose database holds the server's invariant changes nothing in a database
  that has an identity, and leaves the token file alone, so that restarting is harmless at any time,
  before and after the claim, and the owner is never recomputed.
\<close>

theorem restart_changes_nothing:
  assumes "server_inv db" and "server_setting db ''server_id'' \<noteq> None"
  shows "snd (snd (open_server E B dir (fs, db))) = db
    \<and> hget (fst (snd (open_server E B dir (fs, db)))) (bootstrap_path dir) = hget fs (bootstrap_path dir)"
  by (intro conjI start_of_known_server [OF assms])

text \<open>A new server, started any number of times; a start can fail or die at any of its calls.\<close>

definition starts ::
  "('g, 'tz, 'cron) server_env \<Rightarrow> string \<Rightarrow> boot list \<Rightarrow> local_tree \<times> server_db \<Rightarrow> local_tree \<times> server_db" where
  "starts E dir = fold (\<lambda>B w. snd (open_server E B dir w))"

definition self_made :: "boot \<Rightarrow> bool" where
  "self_made B \<longleftrightarrow> bt_supplied B = None \<and> validate_bootstrap_token (bt_random B) = Inr ()"

definition boot_ok :: "('g, 'tz, 'cron) server_env \<Rightarrow> string \<Rightarrow> local_tree \<times> server_db \<Rightarrow> bool" where
  "boot_ok E dir w \<longleftrightarrow> (case w of (fs, db) \<Rightarrow> db = server_start []
     \<or> (\<exists>sid token. db = server_start [(''server_id'', sid), (''bootstrap_hash'', hash_hex E token)] \<and> token_of_file dir fs = Some token))"

lemma boot_token_file:
  "self_made B \<Longrightarrow> boot_token B dir fs = (Inr t, fs') \<Longrightarrow> token_of_file dir fs' = Some t"
  by (auto simp: self_made_def boot_token_def token_of_file_def dest: loaded_token(2))

lemma start_keeps_ok:
  assumes "boot_ok E dir (fs, db)" and "self_made B"
  shows "boot_ok E dir (snd (open_server E B dir (fs, db)))"
proof -
  have n: "server_start [] = empty_server_db" by (simp add: server_start_def empty_server_db_def)
  from assms(1) consider "db = server_start []"
    | sid token where "db = server_start [(''server_id'', sid), (''bootstrap_hash'', hash_hex E token)]" "token_of_file dir fs = Some token"
    by (auto simp: boot_ok_def)
  then show ?thesis
  proof cases
    case 1
    obtain r fs' db' where o: "open_server E B dir (fs, db) = (r, fs', db')" by (metis prod_cases3)
    have e: "db_settings db = []" "peers db = []" "\<And>kvs. db\<lparr>db_settings := kvs\<rparr> = empty_server_db\<lparr>db_settings := kvs\<rparr>"
      using 1 by (simp_all add: server_start_def empty_server_db_def)
    have "db' = db \<or> (\<exists>fs1 token. boot_token B dir fs1 = (Inr token, fs')
        \<and> db' = db\<lparr>db_settings := [(''server_id'', bt_server_id B), (''bootstrap_hash'', hash_hex E token)]\<rparr>)"
      using o e(1,2)
      by (auto simp: open_server_def ensure_server_def server_setting_def insert_setting_def backfill_unclaimed
          split: sum.splits prod.splits if_splits)
    then show ?thesis
    proof
      assume "db' = db"
      with 1 o show ?thesis by (simp add: boot_ok_def)
    next
      assume "\<exists>fs1 token. boot_token B dir fs1 = (Inr token, fs')
        \<and> db' = db\<lparr>db_settings := [(''server_id'', bt_server_id B), (''bootstrap_hash'', hash_hex E token)]\<rparr>"
      then obtain fs1 token where t: "boot_token B dir fs1 = (Inr token, fs')"
        "db' = db\<lparr>db_settings := [(''server_id'', bt_server_id B), (''bootstrap_hash'', hash_hex E token)]\<rparr>" by blast
      have "db' = server_start [(''server_id'', bt_server_id B), (''bootstrap_hash'', hash_hex E token)]"
        using t(2) e(3) by (simp add: server_start_def)
      with boot_token_file [OF assms(2) t(1)] o show ?thesis by (auto simp: boot_ok_def)
    qed
  next
    case (2 sid token)
    have "server_inv db" using 2(1) server_start_inv by simp
    moreover have "server_setting db ''server_id'' \<noteq> None" using 2(1) by (simp add: server_start_def server_setting_def)
    moreover obtain fs2 db2 where o: "snd (open_server E B dir (fs, db)) = (fs2, db2)" by fastforce
    ultimately have "db2 = db" "token_of_file dir fs2 = Some token"
      using start_of_known_server [of db E B dir fs] 2(2) by (simp_all add: token_of_file_def)
    with 2(1) o show ?thesis by (auto simp: boot_ok_def)
  qed
qed

lemma starts_keep_ok:
  "boot_ok E dir w \<Longrightarrow> list_all self_made Bs \<Longrightarrow> boot_ok E dir (starts E dir Bs w)"
proof (induction Bs arbitrary: w)
  case (Cons B Bs)
  then have "boot_ok E dir (snd (open_server E B dir w))" by (cases w) (simp add: start_keeps_ok)
  with Cons show ?case by (simp add: starts_def)
qed (simp add: starts_def)

lemma first_claim_succeeds:
  assumes "db = server_start [(''server_id'', sid), (''bootstrap_hash'', hash_hex E (bt_token r))]"
  shows "is_ok (server_claim_tx E d r db)"
  using assms
  by (simp add: server_claim_tx_def server_start_def empty_server_db_def server_setting_def secure_eq_iff insert_defs
      record_event_def issue_session_def drop_setting_def Let_def fail_if_def)

text \<open>
  C21: however many starts of a new server have failed or died, at whichever call, once it has an
  identity the token in its token file is the one whose verifier the database holds: a claim with it
  succeeds.
\<close>

theorem token_file_claims_server:
  assumes "list_all self_made Bs" and "starts E dir Bs (fs, server_start []) = (fs', db)"
    and "server_setting db ''server_id'' \<noteq> None"
  shows "\<exists>token. token_of_file dir fs' = Some token
    \<and> is_ok (server_claim_tx E d \<lparr>bt_token = token, bt_name = name, bt_label = label, bt_key = key\<rparr> db)"
proof -
  have "boot_ok E dir (fs', db)" using starts_keep_ok [OF _ assms(1), of E dir "(fs, server_start [])"] assms(2) by (simp add: boot_ok_def)
  with assms(3) obtain sid token where t: "db = server_start [(''server_id'', sid), (''bootstrap_hash'', hash_hex E token)]"
    "token_of_file dir fs' = Some token"
    by (auto simp: boot_ok_def server_start_def server_setting_def empty_server_db_def)
  with first_claim_succeeds [of db sid E "\<lparr>bt_token = token, bt_name = name, bt_label = label, bt_key = key\<rparr>" d]
  show ?thesis by simp
qed

section \<open>Two starts\<close>

definition quiet_os :: os where
  "quiet_os = \<lparr>refused_call = (\<lambda>_. False), effective_user = 1000, real_path = Some, mode_mask = 0x12, part_written = (\<lambda>_. 0)\<rparr>"

text \<open>The first start writes the token and fails on the database; the second one draws another token.\<close>

definition dead_boot :: boot where
  "dead_boot = \<lparr>bt_os = quiet_os, bt_supplied = None, bt_random = replicate 32 (CHR ''a''), bt_server_id = ''s1'', bt_commit_ok = False\<rparr>"

definition live_boot :: boot where
  "live_boot = \<lparr>bt_os = quiet_os, bt_supplied = None, bt_random = replicate 32 (CHR ''b''), bt_server_id = ''s2'', bt_commit_ok = True\<rparr>"

theorem restart_changes_nothing_witness:
  "snd (snd (open_server desk_server live_boot ''/d'' ([], desk_db))) = desk_db
    \<and> hget (fst (snd (open_server desk_server live_boot ''/d'' ([], desk_db)))) (bootstrap_path ''/d'') = hget [] (bootstrap_path ''/d'')"
  by (rule restart_changes_nothing [OF desk_inv]) (simp add: desk_db_def server_setting_def)

lemma self_made_boots: "list_all self_made [dead_boot, live_boot]"
  by (simp add: self_made_def dead_boot_def live_boot_def validate_bootstrap_token_def fail_if_def list_all_iff ascii_alnum_def
      ascii_lower_def ascii_upper_def ascii_digit_def)

definition booted_tree :: local_tree where
  "booted_tree = [(''/d'', (plain_directory quiet_os)\<lparr>lf_mode := 0x1C0\<rparr>),
     (''/d/bootstrap-token'', private_file_of quiet_os (replicate 32 (CHR ''a'') @ [CHR 0x0A]))]"

definition booted_db :: server_db where
  "booted_db = server_start [(''server_id'', ''s2''), (''bootstrap_hash'', hash_hex desk_server (replicate 32 (CHR ''a'')))]"

lemma two_starts: "starts desk_server ''/d'' [dead_boot, live_boot] ([], server_start []) = (booted_tree, booted_db)"
proof -
  let ?t = "replicate 32 (CHR ''a'')"
  have v: "validate_bootstrap_token ?t = Inr ()" using self_made_boots by (simp add: self_made_def dead_boot_def)
  note t = token_text_line [OF v]
  have "snd (open_server desk_server dead_boot ''/d'' ([], server_start [])) = (booted_tree, server_start [])"
    by (simp add: open_server_def prepare_server_dir_def st_then_def lstat_def set_mode_def ensure_server_def boot_token_def
        load_or_create_bootstrap_token_def write_bootstrap_token_def dead_boot_def quiet_os_def bootstrap_path_def server_setting_def
        server_start_def empty_server_db_def insert_setting_def fail_if_def booted_tree_def)
  moreover have "snd (open_server desk_server live_boot ''/d'' (booted_tree, server_start [])) = (booted_tree, booted_db)"
    by (simp add: open_server_def prepare_server_dir_def st_then_def lstat_def set_mode_def ensure_server_def boot_token_def
        load_or_create_bootstrap_token_def live_boot_def quiet_os_def bootstrap_path_def server_setting_def plain_directory_def
        server_start_def empty_server_db_def insert_setting_def fail_if_def booted_tree_def booted_db_def private_file_of_def
        permission_bits_def t v backfill_server_owner_def)
  ultimately show ?thesis by (simp add: starts_def)
qed

theorem token_file_claims_server_witness:
  "\<exists>token. token_of_file ''/d'' booted_tree = Some token
    \<and> is_ok (server_claim_tx desk_server desk_fresh \<lparr>bt_token = token, bt_name = ''Ada'', bt_label = ''desk'', bt_key = ''k''\<rparr> booted_db)"
  by (rule token_file_claims_server [OF self_made_boots two_starts]) (simp add: booted_db_def server_start_def server_setting_def empty_server_db_def)

end
