(* ===== verification/Git_Safety.thy ===== *)
theory Git_Safety
  imports Git_Store
begin

text \<open>
  What runs inside a repository stays there, branches move only by comparing and swapping, and a
  staged deletion loses nothing.
\<close>

section \<open>The runs of an operation\<close>

definition issues :: "(git_call \<times> run_result \<Rightarrow> bool) \<Rightarrow> ('w disk \<Rightarrow> (git_error + 'a) \<times> 'w disk) \<Rightarrow> bool" where
  "issues P m \<longleftrightarrow> (\<forall>st. \<exists>cs. commands (snd (m st)) = commands st @ cs \<and> list_all P cs)"

named_theorems issue_intros

lemma issues_silent: "(\<And>st. commands (snd (m st)) = commands st) \<Longrightarrow> issues P m"
  by (simp add: issues_def)

lemma issues_check [issue_intros]: "issues P (st_check f)"
  by (rule issues_silent) (simp add: st_check_def)

lemma issues_then [issue_intros]:
  assumes "issues P m" and "\<And>a. issues P (k a)"
  shows "issues P (st_then m k)"
  unfolding issues_def
proof
  fix st
  from assms(1) obtain cs where cs: "commands (snd (m st)) = commands st @ cs" "list_all P cs"
    unfolding issues_def by blast
  show "\<exists>cs. commands (snd (st_then m k st)) = commands st @ cs \<and> list_all P cs"
  proof (cases "fst (m st)")
    case (Inl e)
    with cs show ?thesis by (simp add: st_then_snd)
  next
    case (Inr a)
    from assms(2) obtain ds where "commands (snd (k a (snd (m st)))) = commands (snd (m st)) @ ds" "list_all P ds"
      unfolding issues_def by blast
    with cs Inr show ?thesis by (simp add: st_then_snd)
  qed
qed

lemma run_git_commands:
  "\<exists>r. commands (snd (run_git M dir args input extra st)) = commands st @ [(git_command M dir args input extra, r)]"
  by (auto simp: run_git_def Let_def split: prod.split run_result.split)

lemma issues_run: "(\<And>r. P (git_command M dir args input extra, r)) \<Longrightarrow> issues P (run_git M dir args input extra)"
  unfolding issues_def by (metis run_git_commands list.pred_inject)

lemma issues_ok: "(\<And>r. P (git_command M (Some (rep_path rep)) args input extra, r)) \<Longrightarrow> issues P (git_ok M rep args input extra)"
  unfolding git_ok_def by (intro issue_intros issues_run)

lemma change_files_commands [simp]: "commands (snd (change_files M c f st)) = commands st"
  by (simp add: change_files_def split: sum.split)

lemma with_index_cases:
  obtains (failed) e where "fst (with_index M body st) = Inl e" and "commands (snd (with_index M body st)) = commands st"
  | (ran) idx st1 where "commands st1 = commands st" and "fst (with_index M body st) = fst (body idx st1)"
      and "commands (snd (with_index M body st)) = commands (snd (body idx st1))"
proof -
  obtain x st1 where t: "io_step (change_files M TempFile Inr) st = (x, st1)" by fastforce
  then have c1: "commands st1 = commands st" using change_files_commands by (metis io_step_snd snd_conv)
  show thesis
  proof (cases x)
    case (Inl e)
    with t c1 failed show thesis by (simp add: with_index_def)
  next
    case (Inr u)
    let ?idx = "index_file M (world st1)"
    obtain y st2 where r: "io_step (change_files M (RemoveFile ?idx) Inr) st1 = (y, st2)" by fastforce
    then have c2: "commands st2 = commands st" using change_files_commands c1 by (metis io_step_snd snd_conv)
    show thesis
    proof (cases y)
      case (Inl e)
      with t r Inr c2 failed show thesis by (simp add: with_index_def Let_def st_then_def)
    next
      case y: (Inr v)
      from ran [OF c2, of ?idx] show thesis
        using t r Inr y by (simp add: with_index_def Let_def st_then_def split: prod.split)
    qed
  qed
qed

lemma issues_index [issue_intros]:
  assumes "\<And>idx. issues P (body idx)"
  shows "issues P (with_index M body)"
  unfolding issues_def
proof
  fix st
  show "\<exists>cs. commands (snd (with_index M body st)) = commands st @ cs \<and> list_all P cs"
  proof (cases rule: with_index_cases [of M body st])
    case (failed e)
    then show ?thesis by simp
  next
    case (ran idx st1)
    with assms [of idx] show ?thesis unfolding issues_def by metis
  qed
qed

lemma issues_opt [issue_intros]:
  "issues P f \<Longrightarrow> (\<And>x. issues P (g x)) \<Longrightarrow> issues P (case v of None \<Rightarrow> f | Some x \<Rightarrow> g x)"
  by (cases v) simp_all

lemma issues_if [issue_intros]: "issues P f \<Longrightarrow> issues P g \<Longrightarrow> issues P (if b then f else g)"
  by simp

section \<open>Nothing leaves the repository\<close>

text \<open>
  The commands git is asked to run, each on the given directory, with a cleared environment.
\<close>

definition sub_commands :: "string list" where
  "sub_commands = [''for-each-ref'', ''rev-list'', ''ls-tree'', ''cat-file'', ''show'', ''rev-parse'', ''merge-base'',
     ''hash-object'', ''update-index'', ''read-tree'', ''write-tree'', ''commit-tree'', ''merge-tree'', ''update-ref'']"

definition confined_call :: "string option \<Rightarrow> repository \<Rightarrow> git_call \<times> run_result \<Rightarrow> bool" where
  "confined_call spath rep c \<longleftrightarrow> take 3 (call_argv (fst c)) = [''git'', ''--git-dir'', path_text (rep_path rep)]
     \<and> length (call_argv (fst c)) > 3 \<and> call_argv (fst c) ! 3 \<in> set sub_commands
     \<and> (\<exists>extra. call_env (fst c) = git_environment spath extra
          \<and> map fst extra \<in> {[], [''GIT_INDEX_FILE''], map fst (identity_env \<lparr>ident_name = [], ident_email = []\<rparr>)})"

lemma confined_command:
  "args \<noteq> [] \<Longrightarrow> hd args \<in> set sub_commands
     \<Longrightarrow> map fst extra \<in> {[], [''GIT_INDEX_FILE''], map fst (identity_env \<lparr>ident_name = [], ident_email = []\<rparr>)}
     \<Longrightarrow> confined_call (search_path M) rep (git_command M (Some (rep_path rep)) args input extra, r)"
  by (cases args) (auto simp: confined_call_def git_command_def)

lemma confined_runs:
  assumes "args \<noteq> []" and "hd args \<in> set sub_commands"
    and "map fst extra \<in> {[], [''GIT_INDEX_FILE''], map fst (identity_env \<lparr>ident_name = [], ident_email = []\<rparr>)}"
  shows "issues (confined_call (search_path M) rep) (run_git M (Some (rep_path rep)) args input extra)"
    and "issues (confined_call (search_path M) rep) (git_ok M rep args input extra)"
  by (rule issues_run issues_ok, rule confined_command [OF assms])+

lemma confined_reads:
  "issues (confined_call (search_path M) rep) (list_branches M rep)"
  "issues (confined_call (search_path M) rep) (resolve_commit M rep revision)"
  "issues (confined_call (search_path M) rep) (resolve_ref_optional M rep reference)"
  "issues (confined_call (search_path M) rep) (is_ancestor M rep a d)"
  "issues (confined_call (search_path M) rep) (read_commit M rep oid)"
  "issues (confined_call (search_path M) rep) (atomic_update M rep reference new old)"
  "issues (confined_call (search_path M) rep) (commit_tree M rep tree parents message i)"
  unfolding list_branches_def resolve_commit_def resolve_ref_optional_def is_ancestor_def
    read_commit_def atomic_update_def commit_tree_def
  by (intro issue_intros confined_runs; simp add: sub_commands_def identity_env_def)+

lemma confined_lists:
  "issues (confined_call (search_path M) rep) (list_tree M rep revision recursive)"
  "issues (confined_call (search_path M) rep) (read_file M rep revision path)"
  unfolding list_tree_def read_file_def
  by (intro issue_intros confined_reads confined_runs; simp add: sub_commands_def)+

lemma confined_commits:
  "issues (confined_call (search_path M) rep) (read_commits M rep ls)"
  "issues (confined_call (search_path M) rep) (list_commits M rep revision n)"
proof -
  show c: "issues (confined_call (search_path M) rep) (read_commits M rep ls)" for ls
    by (induction ls) (auto intro!: issue_intros confined_reads)
  show "issues (confined_call (search_path M) rep) (list_commits M rep revision n)"
    unfolding list_commits_def
    by (intro issue_intros confined_reads c confined_runs; simp add: sub_commands_def)
qed

lemma confined_changes: "issues (confined_call (search_path M) rep) (apply_changes M rep idx cs)"
proof (induction cs)
  case (Cons c cs)
  have "issues (confined_call (search_path M) rep) (apply_change M rep idx c)"
    unfolding apply_change_def
    by (cases c; simp only: file_change.case; intro issue_intros confined_runs; simp add: sub_commands_def)
  with Cons show ?case by (simp add: issue_intros)
qed (simp add: issue_intros)

lemma confined_build: "issues (confined_call (search_path M) rep) (build_commit M rep parent cs message i idx)"
  unfolding build_commit_def
  by (intro issue_intros confined_reads confined_changes confined_runs; simp add: sub_commands_def)

text \<open>
  C18: every operation on an opened repository runs git on that repository's directory only, with
  one of fourteen subcommands, in an environment that holds the search path, the four fixed
  settings and at most the private index or the author and committer.
\<close>

theorem repository_runs_confined:
  "issues (confined_call (search_path M) rep) (list_branches M rep)
   \<and> issues (confined_call (search_path M) rep) (list_commits M rep revision n)
   \<and> issues (confined_call (search_path M) rep) (list_tree M rep revision recursive)
   \<and> issues (confined_call (search_path M) rep) (read_file M rep revision path)
   \<and> issues (confined_call (search_path M) rep) (commit_changes M rep b start cs message i)
   \<and> issues (confined_call (search_path M) rep) (merge_branch M rep b revision message i)"
proof (intro conjI confined_reads confined_commits confined_lists)
  show "issues (confined_call (search_path M) rep) (commit_changes M rep b start cs message i)"
    unfolding commit_changes_def
    by (intro issue_intros confined_reads confined_build)
      (auto intro!: issue_intros confined_reads split: option.split)
  show "issues (confined_call (search_path M) rep) (merge_branch M rep b revision message i)"
    unfolding merge_branch_def merge_trees_def
    by (intro issue_intros confined_reads confined_runs; simp add: sub_commands_def)
qed


section \<open>Compare and swap\<close>

text \<open>The arguments of the runs of \<open>update-ref\<close> that succeeded.\<close>

definition is_move :: "git_call \<times> run_result \<Rightarrow> bool" where
  "is_move c \<longleftrightarrow> (case snd c of Ran res \<Rightarrow> succeeded res | _ \<Rightarrow> False) \<and> drop 3 (take 4 (call_argv (fst c))) = [''update-ref'']"

definition ref_moves :: "(git_call \<times> run_result) list \<Rightarrow> string list list" where
  "ref_moves cs = map (\<lambda>c. drop 4 (call_argv (fst c))) (filter is_move cs)"

definition moved :: "('w disk \<Rightarrow> 'r \<times> 'w disk) \<Rightarrow> 'w disk \<Rightarrow> string list list" where
  "moved m st = ref_moves (drop (length (commands st)) (commands (snd (m st))))"

text \<open>An operation that only adds runs, whose moves are those its answer tells.\<close>

definition moves_as :: "('a \<Rightarrow> string list list) \<Rightarrow> ('w disk \<Rightarrow> (git_error + 'a) \<times> 'w disk) \<Rightarrow> bool" where
  "moves_as f m \<longleftrightarrow> (\<forall>st. prefix (commands st) (commands (snd (m st)))
     \<and> moved m st = (case fst (m st) of Inl _ \<Rightarrow> [] | Inr a \<Rightarrow> f a))"

definition quiet :: "('w disk \<Rightarrow> (git_error + 'a) \<times> 'w disk) \<Rightarrow> bool" where
  "quiet m \<longleftrightarrow> issues (\<lambda>c. \<not> is_move c) m"

lemma quiet_moves: "quiet m \<Longrightarrow> prefix (commands st) (commands (snd (m st))) \<and> moved m st = []"
  unfolding quiet_def issues_def moved_def ref_moves_def
  by (metis append_eq_conv_conj filter_False list.pred_set list.simps(8) prefixI)

lemma quiet_as: "quiet m \<Longrightarrow> moves_as (\<lambda>_. []) m"
  by (auto simp: moves_as_def quiet_moves split: sum.split)

lemma moved_then:
  assumes "prefix (commands st) (commands (snd (m st)))"
    and "\<And>a. fst (m st) = Inr a \<Longrightarrow> prefix (commands (snd (m st))) (commands (snd (k a (snd (m st)))))"
  shows "moved (st_then m k) st = moved m st @ (case fst (m st) of Inl _ \<Rightarrow> [] | Inr a \<Rightarrow> moved (k a) (snd (m st)))"
proof (cases "fst (m st)")
  case (Inl e)
  then show ?thesis by (simp add: moved_def st_then_snd)
next
  case (Inr a)
  from assms(1) obtain cs where "commands (snd (m st)) = commands st @ cs" by (auto simp: prefix_def)
  moreover from assms(2) [OF Inr] obtain ds where "commands (snd (k a (snd (m st)))) = commands (snd (m st)) @ ds"
    by (auto simp: prefix_def)
  ultimately show ?thesis using Inr by (simp add: moved_def st_then_snd ref_moves_def)
qed

lemma fst_then: "fst (st_then m k st) = (case fst (m st) of Inl e \<Rightarrow> Inl e | Inr a \<Rightarrow> fst (k a (snd (m st))))"
  by (simp add: st_then_def split: prod.split sum.split)

lemma moves_then:
  fixes m :: "'w disk \<Rightarrow> (git_error + 'b) \<times> 'w disk"
  assumes "quiet m" and "\<And>a. moves_as f (k a)"
  shows "moves_as f (st_then m k)"
  unfolding moves_as_def
proof
  fix st :: "'w disk"
  note m = quiet_moves [OF assms(1), of st]
  have k: "prefix (commands (snd (m st))) (commands (snd (k a (snd (m st)))))
      \<and> moved (k a) (snd (m st)) = (case fst (k a (snd (m st))) of Inl _ \<Rightarrow> [] | Inr x \<Rightarrow> f x)" for a
    using assms(2) [of a] unfolding moves_as_def by blast
  have "moved (st_then m k) st = (case fst (m st) of Inl _ \<Rightarrow> [] | Inr a \<Rightarrow> moved (k a) (snd (m st)))"
    using moved_then [of st m k] m k by simp
  moreover have "prefix (commands st) (commands (snd (st_then m k st)))"
    using m k prefix_order.trans by (auto simp: st_then_snd split: sum.split)
  ultimately show "prefix (commands st) (commands (snd (st_then m k st)))
     \<and> moved (st_then m k) st = (case fst (st_then m k st) of Inl _ \<Rightarrow> [] | Inr a \<Rightarrow> f a)"
    using k by (simp add: fst_then split: sum.split)
qed

lemma moves_check: "(\<And>st a. g st = Inr a \<Longrightarrow> f a = []) \<Longrightarrow> moves_as f (st_check g)"
  by (auto simp: moves_as_def st_check_def moved_def ref_moves_def split: sum.split)

lemma moves_index:
  assumes "\<And>idx. moves_as f (body idx)"
  shows "moves_as f (with_index M body)"
  unfolding moves_as_def
proof
  fix st
  show "prefix (commands st) (commands (snd (with_index M body st)))
     \<and> moved (with_index M body) st = (case fst (with_index M body st) of Inl _ \<Rightarrow> [] | Inr a \<Rightarrow> f a)"
  proof (cases rule: with_index_cases [of M body st])
    case (failed e)
    then show ?thesis by (simp add: moved_def ref_moves_def)
  next
    case (ran idx st1)
    with assms [of idx, unfolded moves_as_def, rule_format, of st1] show ?thesis by (simp add: moved_def)
  qed
qed

lemma moves_update: "moves_as (\<lambda>_. [[reference, new, old]]) (atomic_update M rep reference new old)"
proof -
  let ?args = "[''update-ref'', reference, new, old]"
  let ?call = "git_command M (Some (rep_path rep)) ?args None []"
  have call: "is_move (?call, r) \<longleftrightarrow> (case r of Ran res \<Rightarrow> succeeded res | _ \<Rightarrow> False)"
    "drop 4 (call_argv ?call) = [reference, new, old]" for r
    by (simp_all add: is_move_def git_command_def)
  show ?thesis
    unfolding moves_as_def moved_def ref_moves_def atomic_update_def
    by (auto simp: st_then_def st_check_def run_git_def Let_def call split: prod.split run_result.split)
qed

lemma moves_answer:
  assumes "moves_as (\<lambda>_. f a) m"
  shows "moves_as f (st_then m (\<lambda>_. st_check (\<lambda>_. Inr a)))"
  unfolding moves_as_def
proof
  fix st
  note m = assms [unfolded moves_as_def, rule_format, of st]
  then have "prefix (commands st) (commands (snd (st_then m (\<lambda>_. st_check (\<lambda>_. Inr a)) st)))
     \<and> moved (st_then m (\<lambda>_. st_check (\<lambda>_. Inr a))) st = (case fst (m st) of Inl _ \<Rightarrow> [] | Inr _ \<Rightarrow> f a)"
    by (auto simp: st_then_snd st_check_def moved_def split: sum.splits)
  then show "prefix (commands st) (commands (snd (st_then m (\<lambda>_. st_check (\<lambda>_. Inr a)) st)))
     \<and> moved (st_then m (\<lambda>_. st_check (\<lambda>_. Inr a))) st
       = (case fst (st_then m (\<lambda>_. st_check (\<lambda>_. Inr a)) st) of Inl _ \<Rightarrow> [] | Inr a \<Rightarrow> f a)"
    by (simp add: fst_then st_check_def split: sum.split)
qed

lemma quiet_run:
  assumes "args \<noteq> []" and "hd args \<noteq> ''update-ref''"
  shows "quiet (run_git M (Some d) args input extra)"
proof -
  have "\<not> is_move (git_command M (Some d) args input extra, r)" for r
    using assms by (cases args) (simp_all add: is_move_def git_command_def)
  then show ?thesis unfolding quiet_def by (intro issues_run)
qed

lemma quiet_check: "quiet (st_check f)"
  by (simp add: quiet_def issue_intros)

lemma quiet_then: "quiet m \<Longrightarrow> (\<And>a. quiet (k a)) \<Longrightarrow> quiet (st_then m k)"
  by (simp add: quiet_def issue_intros)

lemma quiet_ok: "args \<noteq> [] \<Longrightarrow> hd args \<noteq> ''update-ref'' \<Longrightarrow> quiet (git_ok M rep args input extra)"
  unfolding git_ok_def by (intro quiet_then quiet_run quiet_check)

lemma quiet_reads:
  "quiet (resolve_commit M rep revision)" "quiet (resolve_ref_optional M rep reference)"
  "quiet (is_ancestor M rep a d)" "quiet (commit_tree M rep tree parents message i)"
  unfolding resolve_commit_def resolve_ref_optional_def is_ancestor_def commit_tree_def
  by (intro quiet_then quiet_run quiet_ok quiet_check; simp)+

lemma quiet_changes: "quiet (apply_changes M rep idx cs)"
proof (induction cs)
  case (Cons c cs)
  have "quiet (apply_change M rep idx c)"
    unfolding apply_change_def
    by (cases c; simp only: file_change.case; intro quiet_then quiet_ok quiet_check; simp)
  with Cons show ?case by (simp add: quiet_then)
qed (simp add: quiet_check)

lemma quiet_build: "quiet (build_commit M rep parent cs message i idx)"
proof -
  have "quiet (case parent of None \<Rightarrow> st_check (\<lambda>_. Inr ())
      | Some p \<Rightarrow> st_then (git_ok M rep [''read-tree'', p] None [(''GIT_INDEX_FILE'', idx)]) (\<lambda>_. st_check (\<lambda>_. Inr ())))"
    by (cases parent) (auto intro!: quiet_then quiet_ok quiet_check)
  then show ?thesis
    unfolding build_commit_def by (intro quiet_then quiet_reads quiet_changes quiet_ok quiet_check) simp_all
qed

lemma moved_after:
  assumes "quiet m" and "\<And>a. moves_as (f a) (k a)"
  shows "moved (st_then m k) st = (case fst (m st) of Inl _ \<Rightarrow> []
     | Inr a \<Rightarrow> (case fst (k a (snd (m st))) of Inl _ \<Rightarrow> [] | Inr x \<Rightarrow> f a x))"
  using moved_then [of st m k] quiet_moves [OF assms(1), of st] assms(2)
  by (simp add: moves_as_def split: sum.split)

lemma moved_looked:
  assumes "quiet m" and "\<And>c. moves_as (f c) (k c)"
  shows "case fst (st_then (st_check g) (\<lambda>_. st_then m k) st) of
      Inl _ \<Rightarrow> moved (st_then (st_check g) (\<lambda>_. st_then m k)) st = []
    | Inr x \<Rightarrow> \<exists>c. fst (m st) = Inr c \<and> moved (st_then (st_check g) (\<lambda>_. st_then m k)) st = f c x"
proof (cases "g st")
  case (Inl e)
  then show ?thesis by (simp add: fst_then st_check_def moved_def st_then_snd ref_moves_def)
next
  case (Inr u)
  then have "fst (st_then (st_check g) (\<lambda>_. st_then m k) st) = fst (st_then m k st)"
    "moved (st_then (st_check g) (\<lambda>_. st_then m k)) st = moved (st_then m k) st"
    by (simp_all add: fst_then st_check_def moved_def st_then_snd)
  then show ?thesis using moved_after [OF assms, where st = st]
    by (cases "fst (m st)") (simp_all add: fst_then split: sum.split)
qed

definition expected_value :: "repository \<Rightarrow> string option \<Rightarrow> string" where
  "expected_value rep current = (case current of Some oid \<Rightarrow> oid | None \<Rightarrow> zero_oid rep)"

lemma commit_after:
  "moves_as (\<lambda>new. [[branch_ref b, new, expected_value rep current]])
     (st_then (case (current, start) of
         (Some oid, _) \<Rightarrow> st_check (\<lambda>_. Inr (Some oid))
       | (None, Some revision) \<Rightarrow> st_then (resolve_commit M rep revision) (\<lambda>oid. st_check (\<lambda>_. Inr (Some oid)))
       | (None, None) \<Rightarrow> st_check (\<lambda>_. Inr None)) (\<lambda>parent.
     with_index M (\<lambda>idx.
       st_then (build_commit M rep parent cs message i idx) (\<lambda>new.
       st_then (atomic_update M rep (branch_ref b) new (case current of Some oid \<Rightarrow> oid | None \<Rightarrow> zero_oid rep)) (\<lambda>_.
       st_check (\<lambda>_. Inr new))))))"
proof (rule moves_then)
  show "quiet (case (current, start) of
         (Some oid, _) \<Rightarrow> st_check (\<lambda>_. Inr (Some oid))
       | (None, Some revision) \<Rightarrow> st_then (resolve_commit M rep revision) (\<lambda>oid. st_check (\<lambda>_. Inr (Some oid)))
       | (None, None) \<Rightarrow> st_check (\<lambda>_. Inr None))"
    by (auto intro!: quiet_then quiet_check quiet_reads split: option.split)
next
  fix parent
  show "moves_as (\<lambda>new. [[branch_ref b, new, expected_value rep current]])
     (with_index M (\<lambda>idx. st_then (build_commit M rep parent cs message i idx) (\<lambda>new.
       st_then (atomic_update M rep (branch_ref b) new (case current of Some oid \<Rightarrow> oid | None \<Rightarrow> zero_oid rep)) (\<lambda>_.
       st_check (\<lambda>_. Inr new)))))"
    unfolding expected_value_def by (intro moves_index moves_then quiet_build moves_answer moves_update)
qed

text \<open>What the branch pointed to when the operation looked.\<close>

definition branch_value :: "'w machine \<Rightarrow> repository \<Rightarrow> string \<Rightarrow> 'w disk \<Rightarrow> string" where
  "branch_value M rep b st = (case fst (resolve_ref_optional M rep (branch_ref b) st) of
      Inr current \<Rightarrow> expected_value rep current
    | Inl _ \<Rightarrow> [])"

text \<open>
  C5: a commit that is answered moved exactly the named branch, once, to the answered commit and
  only from the value it had when the operation looked (the zero object for a new branch); a commit
  that is refused, for whatever reason, moved nothing.
\<close>

theorem commit_moves_branch_by_cas:
  "moved (commit_changes M rep b start cs message i) st
     = (case fst (commit_changes M rep b start cs message i st) of
          Inl _ \<Rightarrow> [] | Inr new \<Rightarrow> [[branch_ref b, new, branch_value M rep b st]])"
proof -
  have "case fst (commit_changes M rep b start cs message i st) of
      Inl _ \<Rightarrow> moved (commit_changes M rep b start cs message i) st = []
    | Inr new \<Rightarrow> \<exists>c. fst (resolve_ref_optional M rep (branch_ref b) st) = Inr c
        \<and> moved (commit_changes M rep b start cs message i) st = [[branch_ref b, new, expected_value rep c]]"
    unfolding commit_changes_def by (rule moved_looked [OF quiet_reads(2) commit_after])
  then show ?thesis by (auto simp: branch_value_def split: sum.splits)
qed

section \<open>Merging\<close>

definition merge_moves :: "string \<Rightarrow> string \<Rightarrow> merge_result \<Rightarrow> string list list" where
  "merge_moves b target r = (case r of
      AlreadyUpToDate _ \<Rightarrow> []
    | FastForward oid \<Rightarrow> [[branch_ref b, oid, target]]
    | Merged oid \<Rightarrow> [[branch_ref b, oid, target]]
    | Conflicted _ \<Rightarrow> [])"

lemma moves_if: "moves_as f m \<Longrightarrow> moves_as f n \<Longrightarrow> moves_as f (if c then m else n)"
  by simp

lemma moves_merge_trees: "moves_as (merge_moves b target) (merge_trees M rep b target source message i)"
  unfolding merge_trees_def
proof (rule moves_then)
  show "quiet (run_git M (Some (rep_path rep)) [''merge-tree'', ''--write-tree'', ''--name-only'', ''--no-messages'', ''-z'',
      target, source] None [])"
    by (rule quiet_run) simp_all
next
  fix res
  have "moves_as (\<lambda>_. merge_moves b target (Merged oid)) (atomic_update M rep (branch_ref b) oid target)" for oid
    unfolding merge_moves_def by (simp add: moves_update)
  then have "moves_as (merge_moves b target)
      (st_then (st_check (\<lambda>_. case merge_fields res of [] \<Rightarrow> Inl (InvalidOutput ''merge produced no tree'') | f # _ \<Rightarrow> utf8 f)) (\<lambda>tree.
       st_then (commit_tree M rep tree [target, source] message i) (\<lambda>merged.
       st_then (atomic_update M rep (branch_ref b) merged target) (\<lambda>_. st_check (\<lambda>_. Inr (Merged merged))))))"
    by (intro moves_then [OF quiet_check] moves_then [OF quiet_reads(4)] moves_answer)
  moreover have "moves_as (merge_moves b target)
      (st_check (\<lambda>_. rbind (map_res utf8 (drop 1 (merge_fields res))) (\<lambda>ps. Inr (Conflicted ps))))"
    by (rule moves_check) (auto simp: merge_moves_def rbind_Inr_iff)
  ultimately show "moves_as (merge_moves b target)
      (if \<not> succeeded res
       then st_check (\<lambda>_. rbind (map_res utf8 (drop 1 (merge_fields res))) (\<lambda>ps. Inr (Conflicted ps)))
       else st_then (st_check (\<lambda>_. case merge_fields res of [] \<Rightarrow> Inl (InvalidOutput ''merge produced no tree'') | f # _ \<Rightarrow> utf8 f)) (\<lambda>tree.
         st_then (commit_tree M rep tree [target, source] message i) (\<lambda>merged.
         st_then (atomic_update M rep (branch_ref b) merged target) (\<lambda>_. st_check (\<lambda>_. Inr (Merged merged))))))"
    by (intro moves_if)
qed

lemma merge_after:
  "moves_as (merge_moves b target)
     (st_then (resolve_commit M rep revision) (\<lambda>source.
      st_then (is_ancestor M rep source target) (\<lambda>merged.
      if merged then st_check (\<lambda>_. Inr (AlreadyUpToDate target))
      else st_then (is_ancestor M rep target source) (\<lambda>ahead.
        if ahead
        then st_then (atomic_update M rep (branch_ref b) source target) (\<lambda>_. st_check (\<lambda>_. Inr (FastForward source)))
        else merge_trees M rep b target source message i))))"
proof (rule moves_then [OF quiet_reads(1)], rule moves_then [OF quiet_reads(3)], rule moves_if)
  show "moves_as (merge_moves b target) (st_check (\<lambda>_. Inr (AlreadyUpToDate target)))"
    by (rule moves_check) (auto simp: merge_moves_def)
next
  fix source
  have "moves_as (\<lambda>_. merge_moves b target (FastForward source)) (atomic_update M rep (branch_ref b) source target)"
    unfolding merge_moves_def by (simp add: moves_update)
  then show "moves_as (merge_moves b target)
      (st_then (is_ancestor M rep target source) (\<lambda>ahead.
        if ahead
        then st_then (atomic_update M rep (branch_ref b) source target) (\<lambda>_. st_check (\<lambda>_. Inr (FastForward source)))
        else merge_trees M rep b target source message i))"
    by (intro moves_then [OF quiet_reads(3)] moves_if moves_answer moves_merge_trees)
qed

text \<open>
  A merge moves the target branch at most once, from the value it had when the operation
  looked: to the merged revision on a fast-forward, to the answered merge commit on a merge, and not
  at all when it is up to date, conflicts or is refused.
\<close>

theorem merge_moves_branch_by_cas:
  "moved (merge_branch M rep b revision message i) st
     = (case fst (merge_branch M rep b revision message i st) of
          Inl _ \<Rightarrow> [] | Inr r \<Rightarrow> merge_moves b (branch_value M rep b st) r)"
proof -
  let ?rest = "\<lambda>found. st_then (st_check (\<lambda>_. ok_or (RevisionNotFound b) found)) (\<lambda>target.
     st_then (resolve_commit M rep revision) (\<lambda>source.
      st_then (is_ancestor M rep source target) (\<lambda>merged.
      if merged then st_check (\<lambda>_. Inr (AlreadyUpToDate target))
      else st_then (is_ancestor M rep target source) (\<lambda>ahead.
        if ahead
        then st_then (atomic_update M rep (branch_ref b) source target) (\<lambda>_. st_check (\<lambda>_. Inr (FastForward source)))
        else merge_trees M rep b target source message i))))"
  have rest: "moves_as (merge_moves b (expected_value rep found)) (?rest found)" for found
  proof (cases found)
    case None
    then show ?thesis by (simp add: moves_as_def st_then_def st_check_def moved_def ref_moves_def)
  next
    case (Some target)
    show ?thesis
      using merge_after [of b target M rep revision message i]
      by (simp add: Some expected_value_def moves_as_def st_then_def [where m = "st_check _"] st_check_def moved_def)
  qed
  have "case fst (merge_branch M rep b revision message i st) of
      Inl _ \<Rightarrow> moved (merge_branch M rep b revision message i) st = []
    | Inr r \<Rightarrow> \<exists>c. fst (resolve_ref_optional M rep (branch_ref b) st) = Inr c
        \<and> moved (merge_branch M rep b revision message i) st = merge_moves b (expected_value rep c) r"
    unfolding merge_branch_def by (rule moved_looked [OF quiet_reads(2) rest])
  then show ?thesis by (auto simp: branch_value_def split: sum.splits)
qed

end
