(* ===== verification/Git_Deletion.thy ===== *)
theory Git_Deletion
  imports Git_Store
begin

text \<open>
  Deleting in two steps: staging hides a repository, a completed deletion removes exactly it, and a
  deletion that is given up puts every file back.
\<close>

section \<open>Well-formed trees\<close>

definition tree_ok :: "tree \<Rightarrow> bool" where
  "tree_ok fs \<longleftrightarrow> hmap_ok fs
     \<and> list_all (\<lambda>(p, _). p = [] \<or> hget fs (butlast p) = Some RealDir) fs"

lemma key_above:
  assumes "tree_ok fs" and "q \<in> hkeys fs" and "prefix p q"
  shows "p \<in> hkeys fs"
  using assms(2,3)
proof (induction "length q" arbitrary: q rule: less_induct)
  case less
  show ?case
  proof (cases "p = q")
    case False
    with less.prems have "q \<noteq> []" "prefix p (butlast q)" by (auto simp: prefix_def butlast_append)
    moreover from less.prems(1) obtain n where "(q, n) \<in> set fs" by (metis hget_None_iff map_of_SomeD not_None_eq)
    with assms(1) \<open>q \<noteq> []\<close> have "hget fs (butlast q) = Some RealDir"
      unfolding tree_ok_def list_all_iff by blast
    then have "butlast q \<in> hkeys fs" by (rule hget_Some_key)
    ultimately show ?thesis using less.hyps [of "butlast q"] by simp
  qed (use less.prems in simp)
qed

lemma nothing_below:
  assumes "tree_ok fs" and "hget fs p = None" and "(q, n) \<in> set fs"
  shows "\<not> prefix p q"
proof
  assume "prefix p q"
  moreover from assms(3) have "q \<in> hkeys fs" by (metis hget_None_iff not_None_eq weak_map_of_SomeI option.distinct(1))
  ultimately have "p \<in> hkeys fs" using key_above [OF assms(1)] by blast
  with assms(2) show False by (simp add: hget_None_iff)
qed

lemma hput_absent: "hget fs p = None \<Longrightarrow> hput p n fs = fs @ [(p, n)]"
  by (induction fs) (auto split: if_splits)

definition move_path :: "path \<Rightarrow> path \<Rightarrow> path \<Rightarrow> path" where
  "move_path p q x = (if prefix p x then q @ drop (length p) x else x)"

definition move_tree :: "path \<Rightarrow> path \<Rightarrow> tree \<Rightarrow> tree" where
  "move_tree p q fs = map (\<lambda>(x, n). (move_path p q x, n)) fs"

lemma rename_iff: "rename p q fs = Inr fs' \<longleftrightarrow> hget fs p \<noteq> None \<and> hget fs q = None
     \<and> hget fs (butlast q) = Some RealDir \<and> fs' = move_tree p q fs"
  by (auto simp: rename_def move_tree_def move_path_def)

lemma move_back:
  assumes "\<not> prefix q x"
  shows "move_path q p (move_path p q x) = x"
  using assms by (auto simp: move_path_def prefix_def)

lemma move_tree_back:
  assumes "\<And>x n. (x, n) \<in> set fs \<Longrightarrow> \<not> prefix q x"
  shows "move_tree q p (move_tree p q fs) = fs"
proof -
  have "map (\<lambda>(x, n). (move_path q p x, n)) (map (\<lambda>(x, n). (move_path p q x, n)) fs) = map (\<lambda>e. e) fs"
    unfolding map_map by (rule map_cong) (use assms in \<open>auto simp: move_back\<close>)
  then show ?thesis by (simp add: move_tree_def)
qed

section \<open>What staging does\<close>

definition tombstone :: "git_root \<Rightarrow> string \<Rightarrow> path" where
  "tombstone R x = store_root R @ [''.c6-delete-'' @ x]"

definition staged_at :: "git_root \<Rightarrow> string \<Rightarrow> path" where
  "staged_at R x = tombstone R x @ [''repository.git'']"

definition guard_of :: "git_root \<Rightarrow> string \<Rightarrow> string \<Rightarrow> staged_deletion" where
  "guard_of R slug x = \<lparr>sd_original = repo_dir R slug, sd_tombstone = tombstone R x, sd_staged = staged_at R x\<rparr>"

lemma paths_apart [simp]:
  "\<not> prefix (staged_at R x) (repo_dir R slug)" "\<not> prefix (staged_at R x) (tombstone R x)"
  "\<not> prefix (repo_dir R slug) (store_root R)" "\<not> prefix (staged_at R x) (store_root R)"
  "prefix (tombstone R x) (staged_at R x)" "strict_prefix (tombstone R x) (staged_at R x)"
  "prefix (repo_dir R slug) (tombstone R x) \<longleftrightarrow> tombstone R x = repo_dir R slug"
  "prefix (repo_dir R slug) (staged_at R x) \<longleftrightarrow> tombstone R x = repo_dir R slug"
  "butlast (staged_at R x) = tombstone R x" "butlast (repo_dir R slug) = store_root R"
  "butlast (tombstone R x) = store_root R"
  by (auto simp: repo_dir_def staged_at_def tombstone_def butlast_append strict_prefix_def dest: prefix_length_le)

text \<open>The files while a deletion is staged, and after the repository is moved back.\<close>

definition files_staged :: "git_root \<Rightarrow> string \<Rightarrow> string \<Rightarrow> tree \<Rightarrow> tree" where
  "files_staged R slug x fs = move_tree (repo_dir R slug) (staged_at R x) (fs @ [(tombstone R x, RealDir)])"

definition files_back :: "git_root \<Rightarrow> string \<Rightarrow> tree \<Rightarrow> tree" where
  "files_back R x fs = fs @ [(tombstone R x, RealDir)]"

lemma stage_form:
  assumes "stage_delete M R slug st = (Inr g, st1)"
  obtains x where "g = guard_of R slug x" and "hget (files st) (tombstone R x) = None"
    and "hget (files st) (repo_dir R slug) = Some RealDir" and "files st1 = files_staged R slug x (files st)"
    and "hget (files st) (store_root R) = Some RealDir" and "validate_store_slug slug = Inr ()"
proof -
  from assms obtain rep st0 where o: "open_repository M R slug st = (Inr rep, st0)"
    unfolding stage_delete_def st_then_def [where m = "open_repository M R slug"] by (auto split: prod.splits sum.splits)
  then have valid: "validate_store_slug slug = Inr ()"
    by (auto simp: open_repository_def st_then_def st_check_def real_repository_def rbind_Inr_iff split: prod.splits sum.splits)
  note known = open_known [OF o] and same = open_same_files [OF o]
  let ?x = "temp_name M (world st0)"
  from assms o obtain st2 where mk: "change_files M (TempDir (tombstone R ?x)) (make_dir (tombstone R ?x)) st0 = (Inr (), st2)"
    and rn: "change_files M (Rename (repo_dir R slug) (staged_at R ?x)) (rename (repo_dir R slug) (staged_at R ?x)) st2 = (Inr (), st1)"
    and g: "g = guard_of R slug ?x"
    by (auto simp: stage_delete_def st_then_def Let_def io_step_def known(2) map_err_Inr_iff tombstone_def staged_at_def guard_of_def
        split: prod.splits sum.splits)
  from mk same have "hget (files st) (tombstone R ?x) = None" "hget (files st) (store_root R) = Some RealDir"
    "files st2 = files st @ [(tombstone R ?x, RealDir)]"
    by (auto dest!: change_files_ok simp: make_dir_iff hput_absent)
  with valid rn g known(1) show thesis
    by (intro that [of ?x]) (auto dest!: change_files_ok simp: rename_iff files_staged_def)
qed

lemma move_tree_other:
  assumes "\<not> prefix p y" and "\<not> prefix q y"
  shows "hget (move_tree p q fs) y = hget fs y"
  using assms by (induction fs) (auto simp: move_tree_def move_path_def)

lemma move_tree_old:
  assumes "\<not> prefix q p"
  shows "hget (move_tree p q fs) p = None"
  using assms by (induction fs) (auto simp: move_tree_def move_path_def split: if_splits dest: prefixI)

lemma move_tree_new:
  assumes "hget fs q = None"
  shows "hget (move_tree p q fs) q = hget fs p"
  using assms by (induction fs) (auto simp: move_tree_def move_path_def prefix_def split: if_splits)

text \<open>The situation while a deletion is staged.\<close>

definition staging :: "git_root \<Rightarrow> string \<Rightarrow> string \<Rightarrow> tree \<Rightarrow> bool" where
  "staging R slug x fs \<longleftrightarrow> tree_ok fs \<and> hget fs (tombstone R x) = None
     \<and> hget fs (repo_dir R slug) = Some RealDir \<and> hget fs (store_root R) = Some RealDir"

lemma not_staged:
  assumes "staging R slug x fs" and "(y, n) \<in> set (fs @ [(tombstone R x, RealDir)])"
  shows "\<not> prefix (staged_at R x) y"
proof (cases "(y, n) \<in> set fs")
  case True
  then show ?thesis
    using assms nothing_below [of fs "tombstone R x" y n] by (auto simp: staging_def staged_at_def dest: append_prefixD)
qed (use assms in auto)

lemma staged_free:
  assumes "staging R slug x fs"
  shows "hget fs (staged_at R x) = None" and "hget (files_back R x fs) (staged_at R x) = None"
  using not_staged [OF assms, of "staged_at R x"] unfolding files_back_def map_of_eq_None_iff by fastforce+

lemma staging_back:
  assumes "staging R slug x fs"
  shows "move_tree (staged_at R x) (repo_dir R slug) (files_staged R slug x fs) = files_back R x fs"
  unfolding files_staged_def files_back_def by (rule move_tree_back) (rule not_staged [OF assms])

lemma back_files:
  assumes "staging R slug x fs"
  shows "remove_dir (tombstone R x) (files_back R x fs) = Inr fs"
proof -
  from assms have none: "\<And>y n. (y, n) \<in> set fs \<Longrightarrow> \<not> prefix (tombstone R x) y"
    using nothing_below unfolding staging_def by blast
  then have "filter (\<lambda>e. tombstone R x \<noteq> fst e) fs = fs" by (force simp: filter_id_conv)
  moreover have "\<not> strict_prefix (tombstone R x) y" if "(y, n) \<in> set fs" for y n
    using none [OF that] by (auto simp: strict_prefix_def)
  ultimately show ?thesis
    using assms by (auto simp: remove_dir_def files_back_def staging_def list_all_iff AList.delete_eq map_add_def split_def
        split: option.split)
qed

lemma staged_lookups:
  assumes "staging R slug x fs"
  shows "hget (files_staged R slug x fs) (repo_dir R slug) = None"
    and "hget (files_staged R slug x fs) (staged_at R x) = Some RealDir"
    and "hget (files_staged R slug x fs) (store_root R) = Some RealDir"
    and "hget (files_staged R slug x fs) (tombstone R x) = Some RealDir"
proof -
  from assms have apart: "tombstone R x \<noteq> repo_dir R slug" by (auto simp: staging_def)
  let ?fs = "fs @ [(tombstone R x, RealDir)]"
  have "hget fs (staged_at R x) = None"
    using assms nothing_below [of fs "tombstone R x" "staged_at R x"] by (auto simp: staging_def map_of_eq_None_iff)
  with assms have look: "hget ?fs (staged_at R x) = None" "hget ?fs (repo_dir R slug) = Some RealDir"
    "hget ?fs (store_root R) = Some RealDir" "hget ?fs (tombstone R x) = Some RealDir"
    by (auto simp: staging_def map_add_def staged_at_def)
  show "hget (files_staged R slug x fs) (repo_dir R slug) = None"
    "hget (files_staged R slug x fs) (staged_at R x) = Some RealDir"
    "hget (files_staged R slug x fs) (store_root R) = Some RealDir"
    "hget (files_staged R slug x fs) (tombstone R x) = Some RealDir"
    using look apart unfolding files_staged_def
    by (simp_all add: move_tree_old move_tree_new move_tree_other)
qed

section \<open>Giving up and going through\<close>

text \<open>No file-system call is refused by the system.\<close>

definition calm :: "'w machine \<Rightarrow> bool" where
  "calm M \<longleftrightarrow> (\<forall>c w. \<not> fails M c w)"

lemma calm_change:
  "calm M \<Longrightarrow> f (files st) = Inr fs \<Longrightarrow> \<exists>w. change_files M c f st = (Inr (), st\<lparr>files := fs, world := w\<rparr>)"
  by (auto simp: calm_def change_files_def)

lemma change_cases:
  assumes "f (files st) = Inr fs"
  shows "(\<exists>k st'. change_files M c f st = (Inl k, st') \<and> files st' = files st)
       \<or> (\<exists>st'. change_files M c f st = (Inr (), st') \<and> files st' = fs)"
  using assms by (auto simp: change_files_def)

lemma guard_fields [simp]:
  "sd_original (guard_of R slug x) = repo_dir R slug" "sd_tombstone (guard_of R slug x) = tombstone R x"
  "sd_staged (guard_of R slug x) = staged_at R x"
  by (simp_all add: guard_of_def)

lemma rename_back:
  assumes "staging R slug x fs"
  shows "rename (staged_at R x) (repo_dir R slug) (files_staged R slug x fs) = Inr (files_back R x fs)"
  using staged_lookups [OF assms] staging_back [OF assms] by (auto simp: rename_iff)

lemma original_gone:
  assumes "staging R slug x fs" and "files st = files_staged R slug x fs"
  shows "\<not> path_exists M (repo_dir R slug) st"
  using staged_lookups(1) [OF assms(1)] assms(2) by (simp add: path_exists_def canonicalize_def resolve_def)

lemma open_hidden:
  assumes "hget (files st) (repo_dir R slug) = None" and "validate_store_slug slug = Inr ()"
  shows "fst (open_repository M R slug st) = Inl (RepositoryMissing slug)"
  using assms by (simp add: open_repository_def real_repository_def look_at_def st_then_def st_check_def)

text \<open>Where the files of the repository are after a deletion is given up.\<close>

definition kept :: "git_root \<Rightarrow> string \<Rightarrow> string \<Rightarrow> tree \<Rightarrow> tree \<Rightarrow> bool" where
  "kept R slug x fs fs' \<longleftrightarrow> fs' = files_staged R slug x fs \<or> fs' = files_back R x fs \<or> fs' = fs"

lemma drop_keeps:
  assumes "staging R slug x fs" and "kept R slug x fs (files st)"
  shows "kept R slug x fs (files (drop_staged M (guard_of R slug x) st))"
proof (cases "files st = files_staged R slug x fs")
  case True
  have "kept R slug x fs (files (snd (change_files M c (remove_dir (tombstone R x)) st')))"
    if "files st' = files_back R x fs" for c st'
    using change_cases [where f = "remove_dir (tombstone R x)" and st = st' and c = c and M = M] back_files [OF assms(1)] that
    by (auto simp: kept_def)
  then show ?thesis
    using change_cases [where f = "rename (staged_at R x) (repo_dir R slug)" and st = st and M = M
        and c = "Rename (staged_at R x) (repo_dir R slug)"] rename_back [OF assms(1)] True assms(2)
    by (auto simp: drop_staged_def)
next
  case False
  then have "\<not> path_exists M (staged_at R x) st"
    using assms staged_free [OF assms(1)] by (auto simp: kept_def path_exists_def canonicalize_def resolve_def)
  with assms(2) show ?thesis by (simp add: drop_staged_def)
qed

lemma restore_keeps:
  assumes "staging R slug x fs" and "files st = files_staged R slug x fs"
    and "restore_staged M (guard_of R slug x) st = (y, st')"
  shows "kept R slug x fs (files st')" and "y = Inr () \<Longrightarrow> files st' = fs"
proof -
  let ?mv = "change_files M (Rename (staged_at R x) (repo_dir R slug)) (rename (staged_at R x) (repo_dir R slug))"
  let ?rm = "change_files M (RemoveDir (tombstone R x)) (remove_dir (tombstone R x))"
  have run: "restore_staged M (guard_of R slug x) st = st_then (io_step ?mv) (\<lambda>_. io_step ?rm) st"
    using original_gone [OF assms(1,2), of M]
    by (simp add: restore_staged_def st_then_def [where m = "st_check _"] st_check_def fail_if_def)
  from rename_back [OF assms(1)] assms(2) consider k st1 where "?mv st = (Inl k, st1)" "files st1 = files_staged R slug x fs"
    | st1 where "?mv st = (Inr (), st1)" "files st1 = files_back R x fs"
    using change_cases [where f = "rename (staged_at R x) (repo_dir R slug)" and st = st and M = M] by metis
  then have "kept R slug x fs (files st') \<and> (y = Inr () \<longrightarrow> files st' = fs)"
  proof cases
    case 1
    with run assms(3) show ?thesis by (auto simp: st_then_def io_step_def kept_def)
  next
    case 2
    then have "remove_dir (tombstone R x) (files st1) = Inr fs" using back_files [OF assms(1)] by simp
    from change_cases [where f = "remove_dir (tombstone R x)" and c = "RemoveDir (tombstone R x)" and M = M, OF this] 2 run assms(3) show ?thesis
      by (auto simp: st_then_def io_step_def kept_def)
  qed
  then show "kept R slug x fs (files st')" and "y = Inr () \<Longrightarrow> files st' = fs" by blast+
qed

lemma rollback_keeps:
  assumes "staging R slug x fs" and "files st = files_staged R slug x fs"
    and "rollback_staged M (guard_of R slug x) st = (y, st')"
  shows "kept R slug x fs (files st')" and "y = Inr () \<Longrightarrow> files st' = fs"
proof -
  obtain z st1 where z: "restore_staged M (guard_of R slug x) st = (z, st1)" by fastforce
  note r = restore_keeps [OF assms(1,2) z]
  from z assms(3) r drop_keeps [OF assms(1) r(1), of M] show "kept R slug x fs (files st')" "y = Inr () \<Longrightarrow> files st' = fs"
    by (auto simp: rollback_staged_def split: sum.splits)
qed

text \<open>The entries at and below a path, by what follows it.\<close>

definition content :: "path \<Rightarrow> tree \<Rightarrow> tree" where
  "content p fs = map (\<lambda>(q, n). (drop (length p) q, n)) (filter (\<lambda>(q, _). prefix p q) fs)"

lemma content_moved:
  assumes "\<And>y n. (y, n) \<in> set fs \<Longrightarrow> \<not> prefix q y"
  shows "content q (move_tree p q fs) = content p fs"
  using assms
proof (induction fs)
  case (Cons e fs)
  then have "\<not> prefix q (fst e)" by (cases e) auto
  with Cons show ?case by (cases e) (auto simp: content_def move_tree_def move_path_def)
qed (simp add: content_def move_tree_def)

lemma content_kept:
  assumes "staging R slug x fs" and "kept R slug x fs fs'"
  shows "content (repo_dir R slug) fs = content (repo_dir R slug) fs'
     \<or> content (repo_dir R slug) fs = content (staged_at R x) fs'"
proof -
  have apart: "tombstone R x \<noteq> repo_dir R slug" using assms(1) by (auto simp: staging_def)
  then have put: "content (repo_dir R slug) (files_back R x fs) = content (repo_dir R slug) fs"
    by (simp add: content_def files_back_def)
  have "content (staged_at R x) (files_staged R slug x fs) = content (repo_dir R slug) (files_back R x fs)"
    unfolding files_staged_def files_back_def by (rule content_moved) (rule not_staged [OF assms(1)])
  with put assms(2) show ?thesis by (auto simp: kept_def)
qed


lemma calm_looks:
  "calm M \<Longrightarrow> path_exists M p st \<longleftrightarrow> resolve (files st) p \<noteq> None"
  by (cases "resolve (files st) p") (simp_all add: calm_def path_exists_def canonicalize_def)

lemma calm_restore:
  assumes "calm M" and "staging R slug x fs" and "files st = files_staged R slug x fs"
  shows "fst (restore_staged M (guard_of R slug x) st) = Inr ()"
proof -
  obtain w where mv: "change_files M (Rename (staged_at R x) (repo_dir R slug)) (rename (staged_at R x) (repo_dir R slug)) st
      = (Inr (), st\<lparr>files := files_back R x fs, world := w\<rparr>)"
    using calm_change [where f = "rename (staged_at R x) (repo_dir R slug)" and st = st, OF assms(1)]
      rename_back [OF assms(2)] assms(3) by metis
  obtain w' where "change_files M (RemoveDir (tombstone R x)) (remove_dir (tombstone R x)) (st\<lparr>files := files_back R x fs, world := w\<rparr>)
      = (Inr (), st\<lparr>files := fs, world := w'\<rparr>)"
    using calm_change [where f = "remove_dir (tombstone R x)" and st = "st\<lparr>files := files_back R x fs, world := w\<rparr>", OF assms(1)]
      back_files [OF assms(2)] by fastforce
  with mv original_gone [OF assms(2,3), of M] show ?thesis
    by (simp add: restore_staged_def st_then_def st_check_def io_step_def fail_if_def)
qed

lemma calm_drop:
  assumes "calm M" and "staging R slug x fs" and "files st = files_staged R slug x fs"
  shows "files (drop_staged M (guard_of R slug x) st) = fs"
proof -
  obtain w where mv: "change_files M (Rename (staged_at R x) (repo_dir R slug)) (rename (staged_at R x) (repo_dir R slug)) st
      = (Inr (), st\<lparr>files := files_back R x fs, world := w\<rparr>)"
    using calm_change [where f = "rename (staged_at R x) (repo_dir R slug)" and st = st, OF assms(1)]
      rename_back [OF assms(2)] assms(3) by metis
  obtain w' where "change_files M (RemoveDir (tombstone R x)) (remove_dir (tombstone R x)) (st\<lparr>files := files_back R x fs, world := w\<rparr>)
      = (Inr (), st\<lparr>files := fs, world := w'\<rparr>)"
    using calm_change [where f = "remove_dir (tombstone R x)" and st = "st\<lparr>files := files_back R x fs, world := w\<rparr>", OF assms(1)]
      back_files [OF assms(2)] by fastforce
  moreover have "path_exists M (staged_at R x) st"
    using staged_lookups(2) [OF assms(2)] assms(1,3) by (simp add: calm_looks resolve_def)
  ultimately show ?thesis using mv original_gone [OF assms(2,3), of M]
    by (simp add: drop_staged_def)
qed

lemma staged_removed:
  assumes "staging R slug x fs"
  shows "remove_tree (tombstone R x) (files_staged R slug x fs) = Inr (filter (\<lambda>(q, _). \<not> prefix (repo_dir R slug) q) fs)"
proof -
  have apart: "tombstone R x \<noteq> repo_dir R slug" using assms by (auto simp: staging_def)
  have "filter (\<lambda>(q, _). \<not> prefix (tombstone R x) q) (move_tree (repo_dir R slug) (staged_at R x) xs)
      = filter (\<lambda>(q, _). \<not> prefix (repo_dir R slug) q) xs"
    if "\<And>y n. (y, n) \<in> set xs \<Longrightarrow> \<not> prefix (tombstone R x) y" for xs
    using that
  proof (induction xs)
    case (Cons e xs)
    then have "\<not> prefix (tombstone R x) (fst e)" by (cases e) auto
    with Cons show ?case by (cases e) (auto simp: move_tree_def move_path_def staged_at_def)
  qed (simp add: move_tree_def)
  from this [of fs] nothing_below [of fs "tombstone R x"] assms apart
  have "filter (\<lambda>(q, _). \<not> prefix (tombstone R x) q) (files_staged R slug x fs) = filter (\<lambda>(q, _). \<not> prefix (repo_dir R slug) q) fs"
    by (auto simp: files_staged_def staging_def move_tree_def move_path_def)
  with staged_lookups(4) [OF assms] show ?thesis by (simp add: remove_tree_def)
qed

text \<open>Entries elsewhere.\<close>

lemma staged_elsewhere:
  assumes "(q, n) \<in> set fs" and "\<not> prefix (repo_dir R slug) q"
  shows "(q, n) \<in> set (files_staged R slug x fs)" and "(q, n) \<in> set (files_back R x fs)"
  using assms by (force simp: files_staged_def files_back_def move_tree_def move_path_def)+

lemma kept_elsewhere:
  "kept R slug x fs fs' \<Longrightarrow> (q, n) \<in> set fs \<Longrightarrow> \<not> prefix (repo_dir R slug) q \<Longrightarrow> (q, n) \<in> set fs'"
  using staged_elsewhere by (auto simp: kept_def)

lemma change_elsewhere:
  assumes "(q, n) \<in> set (files st)" and "\<And>fs. f (files st) = Inr fs \<Longrightarrow> (q, n) \<in> set fs"
  shows "(q, n) \<in> set (files (snd (change_files M c f st)))"
  using assms by (auto simp: change_files_def split: sum.splits)

lemma drop_elsewhere:
  assumes "(q, n) \<in> set (files st)" and "\<not> prefix (tombstone R x) q"
  shows "(q, n) \<in> set (files (drop_staged M (guard_of R slug x) st))"
proof -
  have "\<not> prefix (staged_at R x) q" using assms(2) by (auto simp: staged_at_def dest: append_prefixD)
  with assms(1) have mv: "(q, n) \<in> set (files (snd (change_files M c (rename (staged_at R x) (repo_dir R slug)) st)))" for c
    by (intro change_elsewhere) (force simp: rename_iff move_tree_def move_path_def)+
  have "(q, n) \<in> set (files (snd (change_files M c (remove_dir (tombstone R x)) st')))" if "(q, n) \<in> set (files st')" for c st'
    using that assms(2) by (intro change_elsewhere) (auto simp: remove_dir_def AList.delete_eq split: if_splits)
  with mv [of "Rename (staged_at R x) (repo_dir R slug)"] assms(1) show ?thesis
    by (auto simp: drop_staged_def split: prod.split sum.split)
qed

lemma commit_elsewhere:
  assumes "(q, n) \<in> set (files st)" and "\<not> prefix (tombstone R x) q"
  shows "(q, n) \<in> set (files (snd (commit_staged M (guard_of R slug x) st)))"
proof -
  obtain y st1 where r: "remove_all M (tombstone R x) st = (y, st1)" by fastforce
  with remove_all_files [of M "tombstone R x" st] assms have "(q, n) \<in> set (files st1)" by auto
  with r drop_elsewhere [OF this assms(2), of M slug] show ?thesis by (simp add: commit_staged_def split: sum.split)
qed

lemma commit_removes:
  assumes "staging R slug x fs" and "files st = files_staged R slug x fs"
  shows "fst (commit_staged M (guard_of R slug x) st) = Inr ()
     \<Longrightarrow> files (snd (commit_staged M (guard_of R slug x) st)) = filter (\<lambda>(q, _). \<not> prefix (repo_dir R slug) q) fs"
    and "calm M \<Longrightarrow> fst (commit_staged M (guard_of R slug x) st) = Inr ()"
proof -
  obtain y st' where r: "remove_all M (tombstone R x) st = (y, st')" by fastforce
  show "files (snd (commit_staged M (guard_of R slug x) st)) = filter (\<lambda>(q, _). \<not> prefix (repo_dir R slug) q) fs"
    if "fst (commit_staged M (guard_of R slug x) st) = Inr ()"
  proof -
    from r that have c: "y = Inr ()" "commit_staged M (guard_of R slug x) st = (Inr (), st')"
      by (auto simp: commit_staged_def split: sum.splits)
    with r have "remove_tree (tombstone R x) (files st) = Inr (files st')" by (simp add: remove_all_ok)
    with c staged_removed [OF assms(1)] assms(2) show ?thesis by simp
  qed
  show "fst (commit_staged M (guard_of R slug x) st) = Inr ()" if "calm M"
    using that staged_removed [OF assms(1)] assms(2)
    by (simp add: commit_staged_def remove_all_def calm_def change_files_def)
qed

text \<open>
  C14: staging a deletion hides the repository from every later \<open>open\<close>.  Whatever calls the file
  system then refuses, a deletion that is rolled back or whose guard is dropped has every entry of
  the repository, at its place or still where it was staged, a rollback that reports success has put
  every file back as it was, and a completed deletion that reports success has removed the
  repository with all that is below it and nothing else; in every case all the other files stay.
  When the system refuses nothing, the rollback and the deletion succeed and dropping the guard
  restores every file.
\<close>

theorem staged_deletion_exact:
  assumes "tree_ok (files st)" and "stage_delete M R slug st = (Inr g, st1)"
  shows "fst (open_repository M R slug st1) = Inl (RepositoryMissing slug)
    \<and> (\<forall>st2 \<in> {snd (rollback_staged M g st1), drop_staged M g st1}.
         content (repo_dir R slug) (files st) \<in> {content (repo_dir R slug) (files st2), content (sd_staged g) (files st2)})
    \<and> (fst (rollback_staged M g st1) = Inr () \<longrightarrow> files (snd (rollback_staged M g st1)) = files st)
    \<and> (fst (commit_staged M g st1) = Inr () \<longrightarrow>
         files (snd (commit_staged M g st1)) = filter (\<lambda>(q, _). \<not> prefix (repo_dir R slug) q) (files st))
    \<and> (\<forall>st2 \<in> {snd (rollback_staged M g st1), drop_staged M g st1, snd (commit_staged M g st1)}.
         set (filter (\<lambda>(q, _). \<not> prefix (repo_dir R slug) q) (files st)) \<subseteq> set (files st2))
    \<and> (calm M \<longrightarrow> fst (rollback_staged M g st1) = Inr () \<and> fst (commit_staged M g st1) = Inr ()
         \<and> files (drop_staged M g st1) = files st)"
proof -
  from assms obtain x where g: "g = guard_of R slug x" and s: "staging R slug x (files st)"
    and f: "files st1 = files_staged R slug x (files st)" and v: "validate_store_slug slug = Inr ()"
    by (auto simp: staging_def elim: stage_form)
  have k1: "kept R slug x (files st) (files (snd (rollback_staged M g st1)))"
    and r1: "fst (rollback_staged M g st1) = Inr () \<Longrightarrow> files (snd (rollback_staged M g st1)) = files st"
    using rollback_keeps [OF s f, folded g, OF prod.collapse [symmetric]] by blast+
  have k2: "kept R slug x (files st) (files (drop_staged M g st1))"
    unfolding g by (rule drop_keeps [OF s]) (simp add: kept_def f)
  have "\<not> prefix (tombstone R x) q" if "(q, n) \<in> set (files st)" for q n
    using s that nothing_below [of "files st" "tombstone R x" q n] unfolding staging_def by blast
  then have c: "(q, n) \<in> set (files (snd (commit_staged M g st1)))"
    if "(q, n) \<in> set (files st)" "\<not> prefix (repo_dir R slug) q" for q n
    unfolding g using that staged_elsewhere(1) [OF that, of x] by (intro commit_elsewhere) (auto simp: f)
  have "fst (open_repository M R slug st1) = Inl (RepositoryMissing slug)"
    using staged_lookups(1) [OF s] f by (simp add: open_hidden v)
  moreover have "fst (rollback_staged M g st1) = Inr ()" if "calm M"
    using calm_restore [OF that s f] by (auto simp: rollback_staged_def g split: prod.split sum.split)
  moreover note content_kept [OF s k1] content_kept [OF s k2] r1 commit_removes [OF s f, of M, folded g]
    calm_drop [OF _ s f, of M, folded g]
  moreover have "sd_staged g = staged_at R x" by (simp add: g)
  ultimately show ?thesis
    using c kept_elsewhere [OF k1] kept_elsewhere [OF k2] by (intro conjI) (auto simp del: sum.disc)
qed

section \<open>One machine\<close>

text \<open>A machine whose git answers what a bare SHA-1 repository answers, and a store with one project.\<close>

definition desk_machine :: "unit machine" where
  "desk_machine = \<lparr>run_program = (\<lambda>call w.
       (Ran \<lparr>exit_code = Some 0, out = (if ''--is-bare-repository'' \<in> set (call_argv call) then ''true'' else ''sha1''), err = []\<rparr>, w)),
     leaves = (\<lambda>_ _ _. Some RealDir), fails = (\<lambda>_ _. False), removed = (\<lambda>_ _ _. False), done_fs = (\<lambda>_ _ w. w), temp_name = (\<lambda>_. ''x1''),
     index_file = (\<lambda>_. ''/tmp/index''), search_path = Some ''/usr/bin''\<rparr>"

definition desk_root :: git_root where
  "desk_root = \<lparr>store_root = [''srv''], store_limits = \<lparr>max_changes = 8, max_file_bytes = 8, max_total_bytes = 8, max_read_bytes = 8, max_log_entries = 8\<rparr>\<rparr>"

definition desk_disk :: "unit disk" where
  "desk_disk = \<lparr>files = [([], RealDir), ([''srv''], RealDir), ([''srv'', ''demo.git''], RealDir),
     ([''srv'', ''demo.git'', ''HEAD''], PlainFile), ([''srv'', ''other.git''], RealDir)],
     world = (), commands = []\<rparr>"

lemma desk_staged: "fst (stage_delete desk_machine desk_root ''demo'' desk_disk) = Inr (guard_of desk_root ''demo'' ''x1'')"
  by code_simp

lemma desk_tree: "tree_ok (files desk_disk)"
  by code_simp

lemma desk_calm: "calm desk_machine"
  by (simp add: calm_def desk_machine_def)

lemma desk_rolled_back:
  "fst (rollback_staged desk_machine (guard_of desk_root ''demo'' ''x1'')
     (snd (stage_delete desk_machine desk_root ''demo'' desk_disk))) = Inr ()"
  by code_simp

theorem staged_deletion_exact_witness:
  "content (repo_dir desk_root ''demo'') (files desk_disk) \<noteq> []
   \<and> files (snd (commit_staged desk_machine (guard_of desk_root ''demo'' ''x1'')
        (snd (stage_delete desk_machine desk_root ''demo'' desk_disk))))
       = filter (\<lambda>(q, _). \<not> prefix (repo_dir desk_root ''demo'') q) (files desk_disk)
   \<and> files (snd (rollback_staged desk_machine (guard_of desk_root ''demo'' ''x1'')
        (snd (stage_delete desk_machine desk_root ''demo'' desk_disk)))) = files desk_disk"
proof -
  have run: "stage_delete desk_machine desk_root ''demo'' desk_disk
      = (Inr (guard_of desk_root ''demo'' ''x1''), snd (stage_delete desk_machine desk_root ''demo'' desk_disk))"
    by (rule prod_eqI) (simp_all add: desk_staged)
  have "content (repo_dir desk_root ''demo'') (files desk_disk) \<noteq> []" by code_simp
  with staged_deletion_exact [OF desk_tree run] desk_calm desk_rolled_back show ?thesis by blast
qed

end
