(* ===== verification/C6_Client.thy ===== *)
theory C6_Client
  imports Connector_Config Cli_Contracts Git_Http
begin

text \<open>
  \<^verbatim>\<open>crates/c6-client/src/lib.rs\<close>: the client of one server.  The URL parser, JSON and the HTTP
  stack are parameters; every request that is sent is recorded with its origin, path and bearer
  token.
\<close>

section \<open>Origins\<close>

datatype client_error =
    InvalidOrigin | InsecureOrigin | Unauthenticated | Forbidden | NotFound | Conflict
  | Network string | Protocol | Api nat error_envelope

text \<open>\<open>Origin::parse\<close>; setting an empty path leaves the path of an \<open>http\<close> or \<open>https\<close> URL at \<open>/\<close>.\<close>

definition parse_origin :: "url_parser \<Rightarrow> string \<Rightarrow> bool \<Rightarrow> client_error + web_url" where
  "parse_origin parse s allow_http =
     rbind (ok_or InvalidOrigin (parse s)) (\<lambda>u.
     andThen (fail_if (\<not> (url_scheme u = ''https'' \<or> url_scheme u = ''http'' \<and> allow_http
         \<and> url_host u \<in> {Some ''localhost'', Some ''127.0.0.1'', Some ''::1''})) InsecureOrigin)
    (andThen (fail_if (url_username u \<noteq> [] \<or> url_password u \<noteq> None) InvalidOrigin)
    (andThen (fail_if (url_query u \<noteq> None \<or> url_fragment u \<noteq> None \<or> url_path u \<noteq> ''/'') InvalidOrigin)
    (andThen (fail_if (url_host u = None) InvalidOrigin) (Inr u)))))"

text \<open>\<open>Origin::as_str\<close>.\<close>

definition origin_str :: "web_url \<Rightarrow> string" where
  "origin_str u = trim_end_slashes (url_text u)"

definition known_port :: "web_url \<Rightarrow> nat option" where
  "known_port u = (case url_port u of Some n \<Rightarrow> Some n
     | None \<Rightarrow> if url_scheme u = ''https'' then Some 443 else if url_scheme u = ''http'' then Some 80 else None)"

definition matches_url :: "web_url \<Rightarrow> web_url \<Rightarrow> bool" where
  "matches_url u v \<longleftrightarrow> url_scheme u = url_scheme v \<and> url_host u = url_host v \<and> known_port u = known_port v"

section \<open>Repository paths\<close>

definition slug_byte :: "char \<Rightarrow> bool" where
  "slug_byte c \<longleftrightarrow> ascii_lower c \<or> ascii_digit c \<or> c = CHR ''-''"

definition valid_slug :: "string \<Rightarrow> bool" where
  "valid_slug v \<longleftrightarrow> v \<noteq> [] \<and> length v \<le> 80 \<and> list_all slug_byte v \<and> \<not> prefix ''-'' v \<and> \<not> suffix ''-'' v"

definition valid_git_path :: "string \<Rightarrow> bool" where
  "valid_git_path p = (case strip_prefix ''/git/'' p of None \<Rightarrow> False
     | Some r \<Rightarrow> (case strip_suffix ''.git'' r of None \<Rightarrow> False
         | Some r \<Rightarrow> (case split_on (CHR ''/'') r of [w, p] \<Rightarrow> valid_slug w \<and> valid_slug p | _ \<Rightarrow> False)))"

section \<open>Redaction\<close>

text \<open>\<open>str::replace\<close> for a non-empty pattern.\<close>

function replace_all :: "'a list \<Rightarrow> 'a list \<Rightarrow> 'a list \<Rightarrow> 'a list" where
  "replace_all p r [] = []"
| "replace_all p r (c # s) =
     (if p \<noteq> [] \<and> prefix p (c # s) then r @ replace_all p r (drop (length p) (c # s)) else c # replace_all p r s)"
  by pat_completeness auto
termination
  by (relation "measure (\<lambda>(p, r, s). length s)") (auto simp: neq_Nil_conv)

definition redact :: "string \<Rightarrow> string option \<Rightarrow> string" where
  "redact m secret = (case secret of None \<Rightarrow> m
     | Some t \<Rightarrow> if t = [] then m else replace_all t ''[REDACTED]'' m)"

section \<open>Requests\<close>

record c6_client =
  cl_origin :: web_url
  cl_bearer :: "string option"

record sent_request =
  sent_origin :: web_url
  sent_path :: string
  sent_bearer :: "string option"

text \<open>What a send gives: a failure, or a status, an announced length and a body that can fail to arrive.\<close>

datatype http_answer = SendFailed string | Answered nat "nat option" "string + string"

record http_peer =
  build_failure :: "string option"
  join_refused :: "string \<Rightarrow> bool"
  answer_to :: "sent_request \<Rightarrow> http_answer"

record client_json =
  read_status :: "string \<Rightarrow> status_info option"
  read_whoami :: "string \<Rightarrow> who_am_i option"
  read_project_list :: "string \<Rightarrow> project_summary list option"
  read_remote :: "string \<Rightarrow> remote_info option"
  read_error :: "string \<Rightarrow> error_envelope option"

definition max_response_bytes :: nat where
  "max_response_bytes = 4 * 1024 * 1024"

definition client_new :: "http_peer \<Rightarrow> web_url \<Rightarrow> string option \<Rightarrow> client_error + c6_client" where
  "client_new net u bearer = (case build_failure net of
      Some m \<Rightarrow> Inl (Network (redact m bearer))
    | None \<Rightarrow> Inr \<lparr>cl_origin = u, cl_bearer = bearer\<rparr>)"

definition decode ::
  "client_json \<Rightarrow> (string \<Rightarrow> 'a option) \<Rightarrow> nat \<Rightarrow> nat option \<Rightarrow> string + string \<Rightarrow> client_error + 'a" where
  "decode J json code len body =
     andThen (fail_if (300 \<le> code \<and> code < 400) Protocol)
    (andThen (fail_if (case len of None \<Rightarrow> False | Some n \<Rightarrow> max_response_bytes < n) Protocol)
    (rbind (map_err Network body) (\<lambda>b.
     andThen (fail_if (max_response_bytes < length b) Protocol)
    (if 200 \<le> code \<and> code < 300 then ok_or Protocol (json b)
     else rbind (ok_or Protocol (read_error J b)) (\<lambda>e.
       Inl (if code = 401 then Unauthenticated else if code = 403 then Forbidden
         else if code = 404 then NotFound else if code = 409 then Conflict else Api code e))))))"

definition client_get ::
  "client_json \<Rightarrow> http_peer \<Rightarrow> (string \<Rightarrow> 'a option) \<Rightarrow> c6_client \<Rightarrow> string \<Rightarrow> sent_request list
     \<Rightarrow> (client_error + 'a) \<times> sent_request list" where
  "client_get J net json c path reqs =
     (if join_refused net path then (Inl Protocol, reqs)
      else let r = \<lparr>sent_origin = cl_origin c, sent_path = path, sent_bearer = cl_bearer c\<rparr> in
        (case answer_to net r of
           SendFailed m \<Rightarrow> Inl (Network (redact m (cl_bearer c)))
         | Answered code len body \<Rightarrow> decode J json code len body, reqs @ [r]))"

definition whoami :: "client_json \<Rightarrow> http_peer \<Rightarrow> c6_client \<Rightarrow> sent_request list \<Rightarrow> (client_error + who_am_i) \<times> sent_request list" where
  "whoami J net c = client_get J net (read_whoami J) c ''/api/v1/cli/whoami''"

definition server_status_of :: "client_json \<Rightarrow> http_peer \<Rightarrow> c6_client \<Rightarrow> sent_request list \<Rightarrow> (client_error + status_info) \<times> sent_request list" where
  "server_status_of J net c = client_get J net (read_status J) c ''/api/v1/status''"

definition projects_of :: "client_json \<Rightarrow> http_peer \<Rightarrow> c6_client \<Rightarrow> sent_request list \<Rightarrow> (client_error + project_summary list) \<times> sent_request list" where
  "projects_of J net c = client_get J net (read_project_list J) c ''/api/v1/projects''"

text \<open>A remote is used only if its URL stays on the client's origin and names a repository.\<close>

definition checked_remote :: "url_parser \<Rightarrow> web_url \<Rightarrow> uuid \<Rightarrow> remote_info \<Rightarrow> client_error + remote_info" where
  "checked_remote parse u k r =
     andThen (fail_if (rem_project r \<noteq> k) Protocol)
    (rbind (ok_or Protocol (parse (rem_clone_url r))) (\<lambda>v.
     andThen (fail_if (\<not> matches_url u v \<or> url_username v \<noteq> [] \<or> url_password v \<noteq> None \<or> url_query v \<noteq> None
         \<or> url_fragment v \<noteq> None \<or> \<not> valid_git_path (url_path v)) Protocol)
       (Inr r)))"

definition project_remote_of ::
  "client_json \<Rightarrow> url_parser \<Rightarrow> (uuid \<Rightarrow> string) \<Rightarrow> http_peer \<Rightarrow> c6_client \<Rightarrow> uuid \<Rightarrow> sent_request list
     \<Rightarrow> (client_error + remote_info) \<times> sent_request list" where
  "project_remote_of J parse uuid_text net c k =
     st_then (client_get J net (read_remote J) c (''/api/v1/projects/'' @ uuid_text k @ ''/remote''))
       (\<lambda>r. st_check (\<lambda>_. checked_remote parse (cl_origin c) k r))"

section \<open>Lemmas\<close>

lemma parse_origin_ok:
  "parse_origin parse s allow = Inr u \<Longrightarrow> parse s = Some u \<and> bare_origin u
     \<and> (url_scheme u = ''https'' \<or> url_scheme u = ''http'' \<and> allow)"
  by (auto simp: parse_origin_def bare_origin_def rbind_Inr_iff ok_or_Inr_iff)

text \<open>The requests that a client sends carry its own bearer token, to its own origin.\<close>

definition sends_as :: "c6_client \<Rightarrow> sent_request list \<Rightarrow> bool" where
  "sends_as c = list_all (\<lambda>r. sent_origin r = cl_origin c \<and> sent_bearer r = cl_bearer c)"

lemma client_get_sends: "client_get J net json c path reqs = (x, reqs') \<Longrightarrow> \<exists>rs. reqs' = reqs @ rs \<and> sends_as c rs"
  by (auto simp: client_get_def sends_as_def Let_def split: if_splits http_answer.splits)

lemma client_sends:
  "whoami J net c reqs = (w, reqs') \<Longrightarrow> \<exists>rs. reqs' = reqs @ rs \<and> sends_as c rs"
  "server_status_of J net c reqs = (s, reqs') \<Longrightarrow> \<exists>rs. reqs' = reqs @ rs \<and> sends_as c rs"
  "projects_of J net c reqs = (p, reqs') \<Longrightarrow> \<exists>rs. reqs' = reqs @ rs \<and> sends_as c rs"
  "project_remote_of J parse ut net c k reqs = (r, reqs') \<Longrightarrow> \<exists>rs. reqs' = reqs @ rs \<and> sends_as c rs"
  by (auto simp: whoami_def server_status_of_def projects_of_def project_remote_of_def st_then_def st_check_def
      split: prod.splits sum.splits dest: client_get_sends)

lemma project_remote_checked:
  "project_remote_of J parse ut net c k reqs = (Inr r, reqs') \<Longrightarrow> checked_remote parse (cl_origin c) k r = Inr r"
  by (auto simp: project_remote_of_def st_then_def st_check_def checked_remote_def rbind_Inr_iff split: prod.splits sum.splits)

section \<open>A redacted message does not tell the secret\<close>

lemma replace_all_prefix:
  assumes "CHR ''['' \<notin> set t" and "prefix t (replace_all p (CHR ''['' # r) m)"
  shows "prefix t m"
  using assms
proof (induction p "CHR ''['' # r" m arbitrary: t rule: replace_all.induct)
  case (2 p c s)
  show ?case
  proof (cases t)
    case (Cons d t')
    with "2.prems" have n: "\<not> (p \<noteq> [] \<and> prefix p (c # s))" by auto
    from n have e: "replace_all p (CHR ''['' # r) (c # s) = c # replace_all p (CHR ''['' # r) s"
      by (simp only: replace_all.simps if_False)
    have "prefix t' s" using "2.hyps"(2) [OF n] "2.prems" unfolding e Cons by simp
    with Cons "2.prems" e show ?thesis by simp
  qed simp
qed simp

lemma sublist_across:
  assumes "sublist t ((r @ [d]) @ x)" and "d \<notin> set t"
  shows "sublist t (r @ [d]) \<or> sublist t x"
proof -
  from assms(1) consider "sublist t (r @ [d])" | "sublist t x"
    | a b where "t = a @ b" "suffix a (r @ [d])" "prefix b x"
    unfolding sublist_append [of t "r @ [d]"] by blast
  then show ?thesis
  proof cases
    case (3 a b)
    with assms(2) have "a = []" by (auto simp: suffix_snoc)
    with 3 show ?thesis by (simp add: prefix_imp_sublist)
  qed simp_all
qed

lemma replace_all_hides:
  assumes t: "t \<noteq> []" "CHR ''['' \<notin> set t" "CHR '']'' \<notin> set t" "\<not> sublist t ''[REDACTED]''"
  shows "\<not> sublist t (replace_all t ''[REDACTED]'' m)"
  using t
proof (induction t "''[REDACTED]''" m rule: replace_all.induct)
  case (2 t c s)
  show ?case
  proof (cases "prefix t (c # s)")
    case True
    with 2 have "\<not> sublist t (replace_all t ''[REDACTED]'' (drop (length t) (c # s)))" by simp
    moreover have "''[REDACTED]'' = ''[REDACTED'' @ [CHR '']'']" by simp
    ultimately show ?thesis using True "2.prems" sublist_across [of t "''[REDACTED''" "CHR '']''"]
      by (metis replace_all.simps(2))
  next
    case False
    with 2 have "\<not> sublist t (replace_all t ''[REDACTED]'' s)" by simp
    moreover have "\<not> prefix t (replace_all t ''[REDACTED]'' (c # s))"
      using False replace_all_prefix "2.prems"(2) by blast
    ultimately show ?thesis using False by (simp add: sublist_Cons_right)
  qed
qed simp

text \<open>
  The network error of a client whose request could not be sent never contains its bearer token,
  whatever the lower layers reported, for a token without square brackets that is no part of the
  replacement text.
\<close>

theorem network_error_hides_token:
  assumes "cl_bearer c = Some t" and "t \<noteq> []" and "CHR ''['' \<notin> set t" and "CHR '']'' \<notin> set t"
    and "\<not> sublist t ''[REDACTED]''" and "answer_to net \<lparr>sent_origin = cl_origin c, sent_path = p, sent_bearer = cl_bearer c\<rparr> = SendFailed m"
    and "client_get J net json c p reqs = (Inl (Network shown), reqs')"
  shows "\<not> sublist t shown"
  using assms replace_all_hides [of t m]
  by (auto simp: client_get_def redact_def Let_def split: if_splits)

text \<open>A failure that quotes the request's header.\<close>

definition quoting_peer :: http_peer where
  "quoting_peer = \<lparr>build_failure = None, join_refused = (\<lambda>_. False),
     answer_to = (\<lambda>r. SendFailed (''Bearer '' @ (case sent_bearer r of None \<Rightarrow> [] | Some t \<Rightarrow> t) @ '' refused''))\<rparr>"

definition deaf_json :: client_json where
  "deaf_json = \<lparr>read_status = (\<lambda>_. None), read_whoami = (\<lambda>_. None), read_project_list = (\<lambda>_. None),
     read_remote = (\<lambda>_. None), read_error = (\<lambda>_. None)\<rparr>"

lemma token_parts: "\<not> sublist ''c6c_v1_t'' ''[REDACTED]''"
  by (simp add: sublist_Cons_right)

lemma redacted_quote: "replace_all ''c6c_v1_t'' ''[REDACTED]'' ''Bearer c6c_v1_t refused'' = ''Bearer [REDACTED] refused''"
  by code_simp

theorem network_error_hides_token_witness:
  "\<not> sublist ''c6c_v1_t'' ''Bearer [REDACTED] refused''"
  by (rule network_error_hides_token [where c = "\<lparr>cl_origin = desk_url ''https'' ''c'' None, cl_bearer = Some ''c6c_v1_t''\<rparr>"
        and net = quoting_peer and J = deaf_json and json = "read_whoami deaf_json" and p = "''/api''" and reqs = "[]"])
    (simp_all add: client_get_def quoting_peer_def redact_def token_parts redacted_quote)

end
