(* ===== verification/Cli_State.thy ===== *)
theory Cli_State
  imports Local_Files "HOL-Library.Char_ord" "HOL-Library.List_Lexorder"
begin

text \<open>
  \<^verbatim>\<open>crates/c6-cli/src/config.rs\<close> and \<^verbatim>\<open>credential.rs\<close>: the state directory of the command-line
  tools, its lock, the configuration and the credential store.  TOML and JSON are parameters.  A
  \<open>BTreeMap\<close> is an association list in key order.
\<close>

section \<open>Values\<close>

datatype state_error =
    NoDirectory | Unsafe string string | Io string | Invalid string | LockTimeout | LockUnsupported

primrec tput :: "string \<Rightarrow> 'v \<Rightarrow> (string \<times> 'v) list \<Rightarrow> (string \<times> 'v) list" where
  "tput k v [] = [(k, v)]"
| "tput k v (p # ps) = (if fst p = k then (k, v) # ps else if k < fst p then (k, v) # p # ps else p # tput k v ps)"

record cli_server =
  srv_base_url :: string
  srv_server_id :: string
  srv_allow_http :: bool

record cli_config =
  cfg_version :: u8
  cfg_default :: "string option"
  cfg_plaintext :: bool
  cfg_servers :: "(string \<times> cli_server) list"

definition default_config :: cli_config where
  "default_config = \<lparr>cfg_version = 1, cfg_default = None, cfg_plaintext = False, cfg_servers = []\<rparr>"

record stored_git_credential =
  gc_server :: string
  gc_path :: string
  gc_token :: string

record disk_store =
  ds_version :: u8
  ds_api :: "(string \<times> string) list"
  ds_git :: "stored_git_credential list"

record credential_store =
  cs_api :: "(string \<times> string) list"
  cs_git :: "stored_git_credential list"

record cli_codec =
  read_config :: "string \<Rightarrow> string + cli_config"
  write_config :: "cli_config \<Rightarrow> string + string"
  read_disk :: "string \<Rightarrow> string + disk_store"
  write_disk :: "disk_store \<Rightarrow> string + string"

section \<open>Paths\<close>

text \<open>\<open>Paths::discover\<close>: the environment variable, or the platform's directory.\<close>

definition discover :: "string option \<Rightarrow> string option \<Rightarrow> state_error + string" where
  "discover var platform = (case var of
      Some v \<Rightarrow> if v = [] then Inl NoDirectory else Inr v
    | None \<Rightarrow> rbind (ok_or NoDirectory platform) (\<lambda>p. Inr (p @ ''/c6'')))"

definition state_path :: "string \<Rightarrow> string \<Rightarrow> string" where
  "state_path d name = d @ CHR ''/'' # name"

definition config_path :: "string \<Rightarrow> string" where "config_path d = state_path d ''config.toml''"
definition credentials_path :: "string \<Rightarrow> string" where "credentials_path d = state_path d ''credentials.json''"
definition lock_path :: "string \<Rightarrow> string" where "lock_path d = state_path d ''state.lock''"

definition temp_path :: "string \<Rightarrow> string \<Rightarrow> nat \<Rightarrow> string" where
  "temp_path d name pid = state_path d (''.'' @ name @ ''.'' @ show_nat pid @ ''.tmp'')"

section \<open>Files\<close>

definition owner_only :: "os \<Rightarrow> local_file \<Rightarrow> bool" where
  "owner_only os f \<longleftrightarrow> lf_owner f = effective_user os \<and> \<not> open_to_others f"

definition validate_metadata :: "os \<Rightarrow> string \<Rightarrow> local_file \<Rightarrow> state_error + unit" where
  "validate_metadata os p f =
     andThen (fail_if (lf_kind f \<noteq> RegularFile) (Unsafe p ''must be a regular file, not a symlink''))
       (fail_if (\<not> owner_only os f) (Unsafe p ''must be owned by the current user with mode 0600 or stricter''))"

text \<open>\<open>Path::exists\<close> follows a link.\<close>

definition local_path_exists :: "os \<Rightarrow> local_tree \<Rightarrow> string \<Rightarrow> bool" where
  "local_path_exists os fs p \<longleftrightarrow> \<not> refused_call os (MetadataCall p)
     \<and> (case hget fs p of None \<Rightarrow> False | Some f \<Rightarrow> lf_kind f \<noteq> SymbolicLink \<or> real_path os p \<noteq> None)"

definition new_directory :: "os \<Rightarrow> local_file" where
  "new_directory os = \<lparr>lf_kind = RealDirectory, lf_mode = and 0x1C0 (not (mode_mask os)),
     lf_owner = effective_user os, lf_links = 2, lf_data = []\<rparr>"

definition ancestors :: "string \<Rightarrow> string list" where
  "ancestors p = map (\<lambda>n. take n p) (filter (\<lambda>n. 0 < n \<and> p ! n = CHR ''/'') [0..<length p])"

text \<open>
  The recursive directory builder: a missing ancestor is made, one that is there is left unless it is a
  file; it fails
  when the directory itself turns out to be there, since \<open>exists\<close> has not seen it.
\<close>

primrec make_dirs :: "os \<Rightarrow> string \<Rightarrow> string list \<Rightarrow> local_tree \<Rightarrow> (state_error + unit) \<times> local_tree" where
  "make_dirs os p [] fs =
     (if hget fs p \<noteq> None \<or> refused_call os (MakeDirsCall p) then (Inl (Io p), fs) else (Inr (), hput p (new_directory os) fs))"
| "make_dirs os p (q # qs) fs =
     (if hget fs q \<noteq> None then
        (if lf_kind (the (hget fs q)) \<in> {RegularFile, SpecialFile} then (Inl (Io p), fs) else make_dirs os p qs fs)
      else if refused_call os (MakeDirsCall q) then (Inl (Io p), fs)
      else make_dirs os p qs (hput q (new_directory os) fs))"

definition check_directory :: "os \<Rightarrow> string \<Rightarrow> local_tree \<Rightarrow> state_error + unit" where
  "check_directory os p fs =
     rbind (map_err (\<lambda>_. Io p) (lstat os fs p)) (\<lambda>f.
     andThen (fail_if (lf_kind f \<noteq> RealDirectory) (Unsafe p ''must be a real directory''))
       (fail_if (\<not> owner_only os f) (Unsafe p ''must be owned by the current user with mode 0700 or stricter'')))"

definition ensure_directory :: "os \<Rightarrow> string \<Rightarrow> local_tree \<Rightarrow> (state_error + unit) \<times> local_tree" where
  "ensure_directory os p =
     st_then (\<lambda>fs. if local_path_exists os fs p then (Inr (), fs) else make_dirs os p (ancestors p) fs)
       (\<lambda>_. st_check (check_directory os p))"

definition read_secure :: "os \<Rightarrow> local_tree \<Rightarrow> string \<Rightarrow> state_error + string option" where
  "read_secure os fs p = (case lstat os fs p of
      Inl OsMissing \<Rightarrow> Inr None
    | Inl _ \<Rightarrow> Inl (Io p)
    | Inr f \<Rightarrow> andThen (validate_metadata os p f)
        (if refused_call os (ReadCall p) then Inl (Io p) else Inr (Some (lf_data f))))"

section \<open>Replacing a file\<close>

definition new_file :: "os \<Rightarrow> string \<Rightarrow> local_file" where
  "new_file os b = \<lparr>lf_kind = RegularFile, lf_mode = and 0x180 (not (mode_mask os)),
     lf_owner = effective_user os, lf_links = 1, lf_data = b\<rparr>"

definition create_new :: "os \<Rightarrow> string \<Rightarrow> local_tree \<Rightarrow> (state_error + unit) \<times> local_tree" where
  "create_new os p fs = (if refused_call os (CreateCall p) \<or> hget fs p \<noteq> None then (Inl (Io p), fs)
     else (Inr (), hput p (new_file os []) fs))"

definition fill_file :: "os \<Rightarrow> string \<Rightarrow> string \<Rightarrow> local_tree \<Rightarrow> (state_error + unit) \<times> local_tree" where
  "fill_file os p b fs =
     (if refused_call os (WriteCall p) then (Inl (Io p), hput p (new_file os (take (part_written os p) b)) fs)
      else (fail_if (refused_call os (SyncCall p)) (Io p), hput p (new_file os b) fs))"

definition move_over :: "os \<Rightarrow> string \<Rightarrow> string \<Rightarrow> local_tree \<Rightarrow> (state_error + unit) \<times> local_tree" where
  "move_over os p q fs = (case hget fs p of
      None \<Rightarrow> (Inl (Io q), fs)
    | Some f \<Rightarrow>
        if refused_call os (MoveCall p q) \<or> map_option lf_kind (hget fs q) = Some RealDirectory then (Inl (Io q), fs)
        else (Inr (), hput q f (hdel p fs)))"

definition sync_directory :: "os \<Rightarrow> string \<Rightarrow> state_error + unit" where
  "sync_directory os d = fail_if (refused_call os (OpenDirCall d) \<or> refused_call os (SyncDirCall d)) (Io d)"

definition replace_steps :: "os \<Rightarrow> string \<Rightarrow> string \<Rightarrow> string \<Rightarrow> string \<Rightarrow> local_tree \<Rightarrow> (state_error + unit) \<times> local_tree" where
  "replace_steps os d t p b =
     st_then (create_new os t) (\<lambda>_. st_then (fill_file os t b) (\<lambda>_. st_then (move_over os t p)
       (\<lambda>_. st_check (\<lambda>_. sync_directory os d))))"

text \<open>\<open>write_atomic\<close>, for a file of the state directory.\<close>

definition write_atomic :: "os \<Rightarrow> nat \<Rightarrow> string \<Rightarrow> string \<Rightarrow> string \<Rightarrow> local_tree \<Rightarrow> (state_error + unit) \<times> local_tree" where
  "write_atomic os pid d name b =
     (let p = state_path d name; t = temp_path d name pid in
      st_then (ensure_directory os d) (\<lambda>_.
      st_then (st_check (\<lambda>fs. case lstat os fs p of Inl _ \<Rightarrow> Inr () | Inr f \<Rightarrow> validate_metadata os p f)) (\<lambda>_ fs.
        (case replace_steps os d t p b fs of
           (Inr u, fs) \<Rightarrow> (Inr u, fs)
         | (Inl e, fs) \<Rightarrow> (Inl e, if refused_call os (RemoveCall t) then fs else hdel t fs)))))"

section \<open>The lock\<close>

datatype flock_answer = LockTaken | LockBusy | LockBroken

text \<open>
  The loop of \<open>StateLock::acquire\<close>: \<open>tries n\<close> is the answer of attempt \<open>n\<close> and how many milliseconds
  it took; \<open>t\<close> is the time since the first one.  A busy attempt before the deadline is followed by a
  sleep of 25 milliseconds.
\<close>

function lock_loop :: "string \<Rightarrow> (nat \<Rightarrow> flock_answer \<times> nat) \<Rightarrow> nat \<Rightarrow> nat \<Rightarrow> state_error + unit" where
  "lock_loop p tries n t = (case tries n of
      (LockTaken, _) \<Rightarrow> Inr ()
    | (LockBroken, _) \<Rightarrow> Inl (Io p)
    | (LockBusy, d) \<Rightarrow> if 5000 \<le> t + d then Inl LockTimeout else lock_loop p tries (Suc n) (t + d + 25))"
  by pat_completeness auto
termination
  by (relation "measure (\<lambda>(p, tries, n, t). 5000 - t)") auto

declare lock_loop.simps [simp del]

definition open_lock :: "os \<Rightarrow> string \<Rightarrow> local_tree \<Rightarrow> (state_error + unit) \<times> local_tree" where
  "open_lock os p fs =
     (if refused_call os (OpenLockCall p) then (Inl (Io p), fs)
      else case hget fs p of
          None \<Rightarrow> (Inr (), hput p (new_file os []) fs)
        | Some f \<Rightarrow> (fail_if (lf_kind f \<in> {SymbolicLink, RealDirectory}) (Io p), fs))"

definition acquire ::
  "os \<Rightarrow> (nat \<Rightarrow> flock_answer \<times> nat) \<Rightarrow> string \<Rightarrow> local_tree \<Rightarrow> (state_error + unit) \<times> local_tree" where
  "acquire os tries d =
     st_then (ensure_directory os d) (\<lambda>_.
     st_then (open_lock os (lock_path d)) (\<lambda>_.
     st_check (\<lambda>fs.
       rbind (ok_or (Io (lock_path d)) (if refused_call os (MetadataCall (lock_path d)) then None else hget fs (lock_path d))) (\<lambda>f.
       andThen (validate_metadata os (lock_path d) f) (lock_loop (lock_path d) tries 0 0)))))"

section \<open>Configuration and credentials\<close>

definition load_state_config :: "cli_codec \<Rightarrow> os \<Rightarrow> string \<Rightarrow> local_tree \<Rightarrow> state_error + cli_config" where
  "load_state_config C os d fs =
     rbind (read_secure os fs (config_path d)) (\<lambda>b. case b of
        None \<Rightarrow> Inr default_config
      | Some b \<Rightarrow> rbind (map_err Invalid (read_config C b)) (\<lambda>c.
          andThen (fail_if (cfg_version c \<noteq> 1) (Invalid ''unsupported config version'')) (Inr c)))"

definition save_config :: "cli_codec \<Rightarrow> os \<Rightarrow> nat \<Rightarrow> string \<Rightarrow> cli_config \<Rightarrow> local_tree \<Rightarrow> (state_error + unit) \<times> local_tree" where
  "save_config C os pid d c =
     st_then (st_check (\<lambda>_. map_err Invalid (write_config C c))) (\<lambda>b. write_atomic os pid d ''config.toml'' b)"

definition load_store :: "cli_codec \<Rightarrow> os \<Rightarrow> string \<Rightarrow> local_tree \<Rightarrow> state_error + credential_store" where
  "load_store C os d fs =
     rbind (read_secure os fs (credentials_path d)) (\<lambda>b. case b of
        None \<Rightarrow> Inr \<lparr>cs_api = [], cs_git = []\<rparr>
      | Some b \<Rightarrow> rbind (map_err Invalid (read_disk C b)) (\<lambda>s.
          andThen (fail_if (ds_version s \<noteq> 1) (Invalid ''unsupported credential store version''))
            (Inr \<lparr>cs_api = ds_api s, cs_git = ds_git s\<rparr>)))"

definition save_store :: "cli_codec \<Rightarrow> os \<Rightarrow> nat \<Rightarrow> string \<Rightarrow> credential_store \<Rightarrow> local_tree \<Rightarrow> (state_error + unit) \<times> local_tree" where
  "save_store C os pid d s =
     st_then (st_check (\<lambda>_. map_err Invalid (write_disk C \<lparr>ds_version = 1, ds_api = cs_api s, ds_git = cs_git s\<rparr>)))
       (\<lambda>b. write_atomic os pid d ''credentials.json'' b)"

definition api_token :: "string \<Rightarrow> credential_store \<Rightarrow> string option" where
  "api_token server s = hget (cs_api s) server"

definition set_api_token :: "string \<Rightarrow> string \<Rightarrow> credential_store \<Rightarrow> credential_store" where
  "set_api_token server token s = s\<lparr>cs_api := tput server token (cs_api s)\<rparr>"

definition remove_api_token :: "string \<Rightarrow> credential_store \<Rightarrow> bool \<times> credential_store" where
  "remove_api_token server s = (hget (cs_api s) server \<noteq> None, s\<lparr>cs_api := hdel server (cs_api s)\<rparr>)"

definition git_token :: "string \<Rightarrow> string \<Rightarrow> credential_store \<Rightarrow> string option" where
  "git_token server path s = map_option gc_token (find (\<lambda>v. gc_server v = server \<and> gc_path v = path) (cs_git s))"

definition set_git_token :: "string \<Rightarrow> string \<Rightarrow> string \<Rightarrow> credential_store \<Rightarrow> credential_store" where
  "set_git_token server path token s =
     s\<lparr>cs_git := filter (\<lambda>v. gc_server v \<noteq> server \<or> gc_path v \<noteq> path) (cs_git s)
        @ [\<lparr>gc_server = server, gc_path = path, gc_token = token\<rparr>]\<rparr>"

definition remove_git_token :: "string \<Rightarrow> string \<Rightarrow> credential_store \<Rightarrow> bool \<times> credential_store" where
  "remove_git_token server path s =
     (let rest = filter (\<lambda>v. gc_server v \<noteq> server \<or> gc_path v \<noteq> path) (cs_git s) in
      (length (cs_git s) \<noteq> length rest, s\<lparr>cs_git := rest\<rparr>))"

definition plaintext_allowed :: "string option \<Rightarrow> bool \<Rightarrow> bool" where
  "plaintext_allowed var explicit \<longleftrightarrow> explicit \<or> var = Some ''1''"

section \<open>What the operations change\<close>

lemma state_path_neq [simp]: "state_path d m = state_path d n \<longleftrightarrow> m = n"
  by (simp add: state_path_def)

lemma temp_path_neq:
  "name \<in> {''config.toml'', ''credentials.json'', ''state.lock''} \<Longrightarrow> temp_path d n pid \<noteq> state_path d name"
  by (auto simp: temp_path_def)

lemma state_path_longer [simp]: "length d < length (state_path d n)"
  by (simp add: state_path_def)

lemma make_dirs_keeps:
  assumes "length p < length q" and "list_all (\<lambda>a. length a \<le> length p) qs"
  shows "hget (snd (make_dirs os p qs fs)) q = hget fs q"
  using assms by (induction qs arbitrary: fs) (auto simp: hmap_simps)

lemma ensure_directory_keeps: "length d < length q \<Longrightarrow> hget (snd (ensure_directory os d fs)) q = hget fs q"
  using make_dirs_keeps [of d q "ancestors d" os fs]
  by (auto simp: ensure_directory_def st_then_def st_check_def ancestors_def list_all_iff split: prod.splits sum.splits)

text \<open>The replacement on a tree whose directory is checked: the old file or all of the new one.\<close>

lemma replace_steps_target:
  assumes "t \<noteq> p"
  shows "hget (snd (replace_steps os d t p b fs)) p =
      (if hget (snd (replace_steps os d t p b fs)) p = hget fs p then hget fs p else Some (new_file os b))"
    and "fst (replace_steps os d t p b fs) = Inr u \<Longrightarrow> hget (snd (replace_steps os d t p b fs)) p = Some (new_file os b)"
  using assms
  by (auto simp: replace_steps_def st_then_def st_check_def create_new_def fill_file_def move_over_def fail_if_def hmap_simps
      split: if_splits option.splits prod.splits)

lemma replace_steps_other:
  "q \<noteq> t \<Longrightarrow> q \<noteq> p \<Longrightarrow> hget (snd (replace_steps os d t p b fs)) q = hget fs q"
  by (auto simp: replace_steps_def st_then_def st_check_def create_new_def fill_file_def move_over_def fail_if_def hmap_simps
      split: if_splits option.splits prod.splits)

definition state_names :: "string set" where
  "state_names = {''config.toml'', ''credentials.json'', ''state.lock''}"

lemma write_atomic_cases:
  assumes "write_atomic os pid d name b fs = (r, fs')" and "name \<in> state_names"
  shows "hget fs' (state_path d name) = hget fs (state_path d name) \<or> hget fs' (state_path d name) = Some (new_file os b)"
    and "r = Inr u \<Longrightarrow> hget fs' (state_path d name) = Some (new_file os b)"
    and "m \<in> state_names \<Longrightarrow> m \<noteq> name \<Longrightarrow> hget fs' (state_path d m) = hget fs (state_path d m)"
proof -
  let ?p = "state_path d name" and ?t = "temp_path d name pid"
  obtain x fs1 where e: "ensure_directory os d fs = (x, fs1)" by fastforce
  have k: "hget fs1 (state_path d n) = hget fs (state_path d n)" for n
    using ensure_directory_keeps [of d "state_path d n" os fs] e by simp
  obtain y fs2 where s: "replace_steps os d ?t ?p b fs1 = (y, fs2)" by fastforce
  have n: "?t \<noteq> state_path d n" if "n \<in> state_names" for n
    using that temp_path_neq [of n d name pid] by (simp add: state_names_def)
  note t1 = replace_steps_target [OF n [OF assms(2)], of os d b fs1, unfolded s, simplified]
  have c: "fs' = fs1 \<and> r \<noteq> Inr u \<or> r = y \<and> (fs' = fs2 \<or> r \<noteq> Inr u \<and> fs' = hdel ?t fs2)" for u
    using assms(1) e s
    by (auto simp: write_atomic_def st_then_def st_check_def Let_def split: sum.splits if_splits)
  show "hget fs' ?p = hget fs ?p \<or> hget fs' ?p = Some (new_file os b)"
    using c t1(1) k [of name] n [OF assms(2)] by (auto simp: hmap_simps split: if_splits)
  show "hget fs' ?p = Some (new_file os b)" if "r = Inr u"
    using c [of u] t1(2) that by auto
  show "hget fs' (state_path d m) = hget fs (state_path d m)" if m: "m \<in> state_names" "m \<noteq> name"
    using c k [of m] n [OF m(1)] replace_steps_other [of "state_path d m" ?t ?p os d b fs1] s m(2) by (auto simp: hmap_simps)
qed

text \<open>
  C39: replacing a state file is all or nothing: whichever calls the system refuses, and wherever the
  process dies, the file is afterwards the old one, byte for byte and with its old mode, or the whole
  new one; it is the new one when the operation reports success.  The other state files stay as they
  are.
\<close>

theorem write_is_all_or_nothing:
  "let (r, fs') = write_atomic os pid d ''credentials.json'' b fs in
     hget fs' (credentials_path d) \<in> (if is_ok r then {Some (new_file os b)} else {hget fs (credentials_path d), Some (new_file os b)})
     \<and> hget fs' (config_path d) = hget fs (config_path d) \<and> hget fs' (lock_path d) = hget fs (lock_path d)"
proof -
  obtain r fs' where w: "write_atomic os pid d ''credentials.json'' b fs = (r, fs')" by fastforce
  show ?thesis
    using write_atomic_cases [OF w] w
    by (auto simp: credentials_path_def config_path_def lock_path_def state_names_def is_ok_iff)
qed

section \<open>The lock is waited for a bounded time\<close>

definition first_tries :: "nat \<Rightarrow> (nat \<Rightarrow> flock_answer \<times> nat) \<Rightarrow> nat \<Rightarrow> flock_answer \<times> nat" where
  "first_tries k tries i = (if i \<le> k then tries i else (LockBroken, 0))"

lemma lock_loop_prefix:
  assumes "25 * n \<le> t" and "n \<le> 200"
  shows "lock_loop p tries n t = lock_loop p (first_tries 200 tries) n t"
  using assms
proof (induction p tries n t rule: lock_loop.induct)
  case (1 p tries n t)
  obtain a d where a: "tries n = (a, d)" by fastforce
  have f: "first_tries 200 tries n = (a, d)" using a "1.prems" by (simp add: first_tries_def)
  note steps = lock_loop.simps [of p tries n t, unfolded a] lock_loop.simps [of p "first_tries 200 tries" n t, unfolded f]
  show ?case
  proof (cases "a = LockBusy \<and> t + d < 5000")
    case True
    with 1 a show ?thesis by (simp add: steps)
  next
    case False
    then show ?thesis by (cases a) (simp_all add: steps)
  qed
qed

text \<open>
  Waiting for the state lock ends: it takes at most 201 attempts, however long each one takes and
  whatever other processes do, and then answers that the lock is taken, broken or timed out.
\<close>

theorem lock_wait_is_bounded:
  "lock_loop p tries 0 0 = lock_loop p (first_tries 200 tries) 0 0
   \<and> lock_loop p tries 0 0 \<in> {Inr (), Inl (Io p), Inl LockTimeout}"
proof
  have "lock_loop p tries n t \<in> {Inr (), Inl (Io p), Inl LockTimeout}" for n t
  proof (induction p tries n t rule: lock_loop.induct)
    case (1 p tries n t)
    then show ?case by (subst lock_loop.simps) (auto split: flock_answer.split prod.split)
  qed
  then show "lock_loop p tries 0 0 \<in> {Inr (), Inl (Io p), Inl LockTimeout}" .
qed (rule lock_loop_prefix; simp)

section \<open>Private files, and reading back what was written\<close>

definition private_to :: "nat \<Rightarrow> local_file \<Rightarrow> bool" where
  "private_to uid f \<longleftrightarrow> lf_kind f = RegularFile \<and> lf_owner f = uid \<and> \<not> open_to_others f"

definition private_state :: "nat \<Rightarrow> string \<Rightarrow> local_tree \<Rightarrow> bool" where
  "private_state uid d fs \<longleftrightarrow>
     list_all (\<lambda>p. case hget fs p of None \<Rightarrow> True | Some f \<Rightarrow> private_to uid f) [config_path d, credentials_path d, lock_path d]"

lemma masked_mode: "and (and (0x180 :: u32) m) 0x3F = 0"
proof -
  have "and (and 0x180 m) 0x3F = and m (and (0x180 :: u32) 0x3F)" by (simp only: ac_simps)
  then show ?thesis by simp
qed

lemma new_file_private: "effective_user os = uid \<Longrightarrow> private_to uid (new_file os b)"
  by (simp add: private_to_def new_file_def open_to_others_def masked_mode)

lemma validate_metadata_iff: "validate_metadata os p f = Inr u \<longleftrightarrow> private_to (effective_user os) f"
  by (auto simp: validate_metadata_def private_to_def owner_only_def rbind_Inr_iff fail_if_def)

lemma validate_private: "private_to (effective_user os) f \<Longrightarrow> validate_metadata os p f = Inr ()"
  by (simp add: validate_metadata_iff)

lemmas path_defs = config_path_def credentials_path_def lock_path_def

lemma private_state_step:
  assumes "private_state uid d fs" and "private_to uid f"
    and "\<And>m. m \<in> state_names \<Longrightarrow> hget fs' (state_path d m) = hget fs (state_path d m) \<or> hget fs' (state_path d m) = Some f"
  shows "private_state uid d fs'"
proof -
  have "case hget fs' (state_path d m) of None \<Rightarrow> True | Some f \<Rightarrow> private_to uid f" if "m \<in> state_names" for m
    using assms(3) [OF that] assms(1,2) that by (auto simp: private_state_def path_defs state_names_def)
  then show ?thesis by (simp add: private_state_def path_defs state_names_def)
qed

lemma write_atomic_private:
  assumes "private_state uid d fs" and "effective_user os = uid" and "name \<in> state_names"
    and "write_atomic os pid d name b fs = (r, fs')"
  shows "private_state uid d fs'"
proof (rule private_state_step [OF assms(1) new_file_private [OF assms(2)]])
  show "hget fs' (state_path d m) = hget fs (state_path d m) \<or> hget fs' (state_path d m) = Some (new_file os b)"
    if "m \<in> state_names" for m
    using write_atomic_cases(1,3) [OF assms(4,3)] that by (cases "m = name") simp_all
qed

lemma open_lock_target:
  "open_lock os p fs = (r, fs') \<Longrightarrow> fs' = fs \<or> hget fs p = None \<and> fs' = hput p (new_file os []) fs"
  by (auto simp: open_lock_def split: if_splits option.splits)

lemma acquire_changes:
  assumes "acquire os tries d fs = (r, fs')"
  shows "hget fs' (config_path d) = hget fs (config_path d)"
    and "hget fs' (credentials_path d) = hget fs (credentials_path d)"
    and "hget fs' (lock_path d) = hget fs (lock_path d) \<or> hget fs' (lock_path d) = Some (new_file os [])"
proof -
  obtain x fs1 where e: "ensure_directory os d fs = (x, fs1)" by fastforce
  have k: "hget fs1 (state_path d n) = hget fs (state_path d n)" for n
    using ensure_directory_keeps [of d "state_path d n" os fs] e by simp
  have "fs' = fs1 \<or> fs' = hput (lock_path d) (new_file os []) fs1"
    using assms e by (auto simp: acquire_def st_then_def st_check_def split: sum.splits prod.splits dest: open_lock_target)
  then show "hget fs' (config_path d) = hget fs (config_path d)"
    "hget fs' (credentials_path d) = hget fs (credentials_path d)"
    "hget fs' (lock_path d) = hget fs (lock_path d) \<or> hget fs' (lock_path d) = Some (new_file os [])"
    using k by (auto simp: path_defs hmap_simps)
qed

lemma acquire_private:
  assumes "private_state uid d fs" and "effective_user os = uid" and "acquire os tries d fs = (r, fs')"
  shows "private_state uid d fs'"
proof (rule private_state_step [OF assms(1) new_file_private [OF assms(2)]])
  show "hget fs' (state_path d m) = hget fs (state_path d m) \<or> hget fs' (state_path d m) = Some (new_file os [])"
    if "m \<in> state_names" for m
    using acquire_changes [OF assms(3)] that by (auto simp: state_names_def path_defs)
qed

lemma save_config_cases:
  assumes "save_config C os pid d c fs = (r, fs')"
  obtains e where "r = Inl e" "fs' = fs"
  | b where "write_config C c = Inr b" "write_atomic os pid d ''config.toml'' b fs = (r, fs')"
  using assms by (cases "write_config C c") (auto simp: save_config_def st_then_def st_check_def)

lemma save_store_cases:
  assumes "save_store C os pid d s fs = (r, fs')"
  obtains e where "r = Inl e" "fs' = fs"
  | b where "write_disk C \<lparr>ds_version = 1, ds_api = cs_api s, ds_git = cs_git s\<rparr> = Inr b"
      "write_atomic os pid d ''credentials.json'' b fs = (r, fs')"
  using assms
  by (cases "write_disk C \<lparr>ds_version = 1, ds_api = cs_api s, ds_git = cs_git s\<rparr>")
    (auto simp: save_store_def st_then_def st_check_def)

lemma state_names [simp]: "''config.toml'' \<in> state_names" "''credentials.json'' \<in> state_names"
  by (simp_all add: state_names_def)

lemma save_private:
  assumes "private_state uid d fs" and "effective_user os = uid"
  shows "save_config C os pid d c fs = (r, fs') \<Longrightarrow> private_state uid d fs'"
    and "save_store C os pid d s fs = (r, fs') \<Longrightarrow> private_state uid d fs'"
proof -
  note w = write_atomic_private [OF assms]
  show "private_state uid d fs'" if "save_config C os pid d c fs = (r, fs')"
    using that by (cases rule: save_config_cases) (use assms(1) w in \<open>simp_all, blast intro: state_names\<close>)
  show "private_state uid d fs'" if "save_store C os pid d s fs = (r, fs')"
    using that by (cases rule: save_store_cases) (use assms(1) w in \<open>simp_all, blast intro: state_names\<close>)
qed

text \<open>What a file of the state directory says, and that loading reads exactly this.\<close>

definition config_in :: "cli_codec \<Rightarrow> string \<Rightarrow> local_tree \<Rightarrow> cli_config option" where
  "config_in C d fs = (case hget fs (config_path d) of None \<Rightarrow> Some default_config
     | Some f \<Rightarrow> (case read_config C (lf_data f) of Inl _ \<Rightarrow> None | Inr c \<Rightarrow> if cfg_version c = 1 then Some c else None))"

definition store_in :: "cli_codec \<Rightarrow> string \<Rightarrow> local_tree \<Rightarrow> credential_store option" where
  "store_in C d fs = (case hget fs (credentials_path d) of None \<Rightarrow> Some \<lparr>cs_api = [], cs_git = []\<rparr>
     | Some f \<Rightarrow> (case read_disk C (lf_data f) of Inl _ \<Rightarrow> None
         | Inr s \<Rightarrow> if ds_version s = 1 then Some \<lparr>cs_api = ds_api s, cs_git = ds_git s\<rparr> else None))"

lemma read_secure_Inr:
  "read_secure os fs p = Inr x \<Longrightarrow> (x = None \<and> hget fs p = None) \<or> (\<exists>f. x = Some (lf_data f) \<and> hget fs p = Some f)"
  by (cases "hget fs p") (auto simp: read_secure_def lstat_def rbind_Inr_iff split: if_splits)

lemma load_config_in: "load_state_config C os d fs = Inr c \<Longrightarrow> config_in C d fs = Some c"
  by (auto simp: load_state_config_def config_in_def rbind_Inr_iff map_err_Inr_iff fail_if_def
      split: option.splits if_splits sum.splits dest!: read_secure_Inr)

lemma load_store_in: "load_store C os d fs = Inr s \<Longrightarrow> store_in C d fs = Some s"
  by (auto simp: load_store_def store_in_def rbind_Inr_iff map_err_Inr_iff fail_if_def
      split: option.splits if_splits sum.splits dest!: read_secure_Inr)

text \<open>The codec gives back what it wrote: documented behaviour of the TOML and JSON libraries.\<close>

definition codec_roundtrips :: "cli_codec \<Rightarrow> bool" where
  "codec_roundtrips C \<longleftrightarrow> (\<forall>c b. write_config C c = Inr b \<longrightarrow> read_config C b = Inr c)
     \<and> (\<forall>s b. write_disk C s = Inr b \<longrightarrow> read_disk C b = Inr s)"

lemma save_config_in:
  assumes "codec_roundtrips C" and "save_config C os pid d c fs = (r, fs')" and "cfg_version c = 1"
  shows "config_in C d fs' = config_in C d fs \<or> config_in C d fs' = Some c"
    and "r = Inr u \<Longrightarrow> config_in C d fs' = Some c"
    and "store_in C d fs' = store_in C d fs"
proof -
  have "(config_in C d fs' = config_in C d fs \<or> config_in C d fs' = Some c)
      \<and> (r = Inr u \<longrightarrow> config_in C d fs' = Some c) \<and> store_in C d fs' = store_in C d fs"
    using assms(2)
  proof (cases rule: save_config_cases)
    case (2 b)
    note w = write_atomic_cases [OF 2(2) state_names(1)]
    have "read_config C b = Inr c" using assms(1) 2(1) by (simp add: codec_roundtrips_def)
    with w(1,2) w(3) [OF state_names(2)] assms(3) show ?thesis
      by (auto simp: config_in_def store_in_def path_defs new_file_def)
  qed simp
  then show "config_in C d fs' = config_in C d fs \<or> config_in C d fs' = Some c"
    "r = Inr u \<Longrightarrow> config_in C d fs' = Some c" "store_in C d fs' = store_in C d fs" by auto
qed

lemma save_store_in:
  assumes "codec_roundtrips C" and "save_store C os pid d s fs = (r, fs')"
  shows "store_in C d fs' = store_in C d fs \<or> store_in C d fs' = Some s"
    and "r = Inr u \<Longrightarrow> store_in C d fs' = Some s"
    and "config_in C d fs' = config_in C d fs"
proof -
  let ?d = "\<lparr>ds_version = 1, ds_api = cs_api s, ds_git = cs_git s\<rparr>"
  have "(store_in C d fs' = store_in C d fs \<or> store_in C d fs' = Some s)
      \<and> (r = Inr u \<longrightarrow> store_in C d fs' = Some s) \<and> config_in C d fs' = config_in C d fs"
    using assms(2)
  proof (cases rule: save_store_cases)
    case (2 b)
    note w = write_atomic_cases [OF 2(2) state_names(2)]
    have "read_disk C b = Inr ?d" using assms(1) 2(1) by (simp add: codec_roundtrips_def)
    with w(1,2) w(3) [OF state_names(1)] show ?thesis
      by (auto simp: config_in_def store_in_def path_defs new_file_def)
  qed simp
  then show "store_in C d fs' = store_in C d fs \<or> store_in C d fs' = Some s"
    "r = Inr u \<Longrightarrow> store_in C d fs' = Some s" "config_in C d fs' = config_in C d fs" by auto
qed

lemma acquire_in:
  assumes "acquire os tries d fs = (r, fs')"
  shows "config_in C d fs' = config_in C d fs" and "store_in C d fs' = store_in C d fs"
  using acquire_changes(1,2) [OF assms] by (simp_all add: config_in_def store_in_def)

lemma hget_tput: "hget (tput k v m) q = (if q = k then Some v else hget m q)"
  by (induction m) auto

end
