(* ===== verification/Cli_Codec.thy ===== *)
theory Cli_Codec
  imports Cli_State
begin

text \<open>
  One codec for the configuration and the credential store that gives back what it wrote: a text is
  its characters, each after a mark, and an end; a list is its items, each after a mark, and an end.
  It shows that the hypothesis \<open>codec_roundtrips\<close> of the lemmas about the command-line tools can hold.
\<close>

definition enc_list :: "('a \<Rightarrow> string) \<Rightarrow> 'a list \<Rightarrow> string" where
  "enc_list e xs = concat (map (\<lambda>x. CHR ''x'' # e x) xs) @ ''.''"

primrec dec_list :: "nat \<Rightarrow> (string \<Rightarrow> ('a \<times> string) option) \<Rightarrow> string \<Rightarrow> ('a list \<times> string) option" where
  "dec_list 0 d s = None"
| "dec_list (Suc n) d s = (case s of [] \<Rightarrow> None
     | t # r \<Rightarrow> if t = CHR ''.'' then Some ([], r)
         else Option.bind (d r) (\<lambda>(x, r). map_option (apfst (Cons x)) (dec_list n d r)))"

definition dec_items :: "(string \<Rightarrow> ('a \<times> string) option) \<Rightarrow> string \<Rightarrow> ('a list \<times> string) option" where
  "dec_items d s = dec_list (length s) d s"

lemma dec_list_enc:
  assumes "\<And>x r. x \<in> set xs \<Longrightarrow> d (e x @ r) = Some (x, r)" and "length xs < n"
  shows "dec_list n d (enc_list e xs @ r) = Some (xs, r)"
  using assms by (induction xs arbitrary: n) (auto simp: enc_list_def gr0_conv_Suc Suc_less_eq2)

lemma enc_list_length: "length xs < length (enc_list e xs)"
  by (induction xs) (auto simp: enc_list_def)

lemma dec_items_enc:
  assumes "\<And>x r. x \<in> set xs \<Longrightarrow> d (e x @ r) = Some (x, r)"
  shows "dec_items d (enc_list e xs @ r) = Some (xs, r)"
  using dec_list_enc [of xs d e "length (enc_list e xs @ r)" r] assms enc_list_length [of xs e] by (simp add: dec_items_def)

definition dec_char :: "string \<Rightarrow> (char \<times> string) option" where
  "dec_char s = (case s of [] \<Rightarrow> None | c # r \<Rightarrow> Some (c, r))"

definition enc_text :: "string \<Rightarrow> string" where "enc_text = enc_list (\<lambda>c. [c])"
definition dec_text :: "string \<Rightarrow> (string \<times> string) option" where "dec_text = dec_items dec_char"

definition enc_bool :: "bool \<Rightarrow> string" where "enc_bool b = (if b then ''t'' else ''f'')"
definition dec_bool :: "string \<Rightarrow> (bool \<times> string) option" where
  "dec_bool s = map_option (apfst (\<lambda>c. c = CHR ''t'')) (dec_char s)"

definition enc_byte :: "u8 \<Rightarrow> string" where "enc_byte v = [char_of (unat v)]"
definition dec_byte :: "string \<Rightarrow> (u8 \<times> string) option" where
  "dec_byte s = map_option (apfst (\<lambda>c. word_of_nat (ord c))) (dec_char s)"

definition dec_then :: "(string \<Rightarrow> ('a \<times> string) option) \<Rightarrow> ('a \<Rightarrow> string \<Rightarrow> ('b \<times> string) option) \<Rightarrow> string \<Rightarrow> ('b \<times> string) option" where
  "dec_then d k s = Option.bind (d s) (\<lambda>(x, r). k x r)"

lemma byte_of_char: "word_of_nat (unat (v :: u8) mod 256) = v"
  using unat_byte_less [of v] by simp

lemma dec_enc [simp]:
  "dec_text (enc_text s @ r) = Some (s, r)" "dec_bool (enc_bool b @ r) = Some (b, r)" "dec_byte (enc_byte v @ r) = Some (v, r)"
  by (simp_all add: dec_text_def enc_text_def dec_items_enc dec_char_def dec_bool_def enc_bool_def dec_byte_def enc_byte_def
      byte_of_char)

definition enc_server :: "string \<times> cli_server \<Rightarrow> string" where
  "enc_server p = enc_text (fst p) @ enc_text (srv_base_url (snd p)) @ enc_text (srv_server_id (snd p)) @ enc_bool (srv_allow_http (snd p))"

definition dec_server :: "string \<Rightarrow> ((string \<times> cli_server) \<times> string) option" where
  "dec_server = dec_then dec_text (\<lambda>k. dec_then dec_text (\<lambda>b. dec_then dec_text (\<lambda>i. dec_then dec_bool (\<lambda>a r.
     Some ((k, \<lparr>srv_base_url = b, srv_server_id = i, srv_allow_http = a\<rparr>), r)))))"

definition enc_pair :: "string \<times> string \<Rightarrow> string" where
  "enc_pair p = enc_text (fst p) @ enc_text (snd p)"

definition dec_pair :: "string \<Rightarrow> ((string \<times> string) \<times> string) option" where
  "dec_pair = dec_then dec_text (\<lambda>k. dec_then dec_text (\<lambda>v r. Some ((k, v), r)))"

definition enc_git :: "stored_git_credential \<Rightarrow> string" where
  "enc_git v = enc_text (gc_server v) @ enc_text (gc_path v) @ enc_text (gc_token v)"

definition dec_git :: "string \<Rightarrow> (stored_git_credential \<times> string) option" where
  "dec_git = dec_then dec_text (\<lambda>k. dec_then dec_text (\<lambda>p. dec_then dec_text (\<lambda>t r.
     Some (\<lparr>gc_server = k, gc_path = p, gc_token = t\<rparr>, r))))"

lemma dec_enc_rows [simp]:
  "dec_server (enc_server p @ r) = Some (p, r)" "dec_pair (enc_pair q @ r) = Some (q, r)" "dec_git (enc_git v @ r) = Some (v, r)"
  by (simp_all add: dec_server_def enc_server_def dec_pair_def enc_pair_def dec_git_def enc_git_def dec_then_def prod_eq_iff)

definition enc_config :: "cli_config \<Rightarrow> string" where
  "enc_config c = enc_byte (cfg_version c) @ enc_list enc_text (case cfg_default c of None \<Rightarrow> [] | Some s \<Rightarrow> [s])
     @ enc_bool (cfg_plaintext c) @ enc_list enc_server (cfg_servers c)"

definition dec_config :: "string \<Rightarrow> (cli_config \<times> string) option" where
  "dec_config = dec_then dec_byte (\<lambda>v. dec_then (dec_items dec_text) (\<lambda>ds. dec_then dec_bool (\<lambda>p.
     dec_then (dec_items dec_server) (\<lambda>ss r. Some (\<lparr>cfg_version = v,
        cfg_default = (case ds of [] \<Rightarrow> None | s # _ \<Rightarrow> Some s), cfg_plaintext = p, cfg_servers = ss\<rparr>, r)))))"

definition enc_disk :: "disk_store \<Rightarrow> string" where
  "enc_disk s = enc_byte (ds_version s) @ enc_list enc_pair (ds_api s) @ enc_list enc_git (ds_git s)"

definition dec_disk :: "string \<Rightarrow> (disk_store \<times> string) option" where
  "dec_disk = dec_then dec_byte (\<lambda>v. dec_then (dec_items dec_pair) (\<lambda>a. dec_then (dec_items dec_git) (\<lambda>g r.
     Some (\<lparr>ds_version = v, ds_api = a, ds_git = g\<rparr>, r))))"

definition plain_codec :: cli_codec where
  "plain_codec = \<lparr>read_config = (\<lambda>b. case dec_config b of None \<Rightarrow> Inl ''bad'' | Some (c, _) \<Rightarrow> Inr c),
     write_config = (\<lambda>c. Inr (enc_config c)),
     read_disk = (\<lambda>b. case dec_disk b of None \<Rightarrow> Inl ''bad'' | Some (s, _) \<Rightarrow> Inr s),
     write_disk = (\<lambda>s. Inr (enc_disk s))\<rparr>"

lemma dec_config_enc: "dec_config (enc_config c @ r) = Some (c, r)"
  by (cases "cfg_default c") (simp_all add: dec_config_def enc_config_def dec_then_def dec_items_enc)

lemma dec_disk_enc: "dec_disk (enc_disk s @ r) = Some (s, r)"
  by (simp add: dec_disk_def enc_disk_def dec_then_def dec_items_enc)

lemma plain_codec_roundtrips: "codec_roundtrips plain_codec"
  using dec_config_enc [of _ "[]"] dec_disk_enc [of _ "[]"] by (simp add: codec_roundtrips_def plain_codec_def)

lemma plain_codec_reads:
  "read_config plain_codec (enc_config c) = Inr c" "read_disk plain_codec (enc_disk s) = Inr s"
  using dec_config_enc [of c "[]"] dec_disk_enc [of s "[]"] by (simp_all add: plain_codec_def)

end
