(* ===== verification/Credential_Helper.thy ===== *)
theory Credential_Helper
  imports C6_Client Cli_Codec Tables
begin

text \<open>
  \<^verbatim>\<open>crates/c6-cli/src/bin/git-credential-c6.rs\<close>: the helper that Git asks for a credential, tells of
  one or asks to forget one.
\<close>

section \<open>What Git says\<close>

type_synonym fields = "(string \<times> string) list"

datatype helper_error = HelperText string | HelperState state_error

definition valid_field_name :: "string \<Rightarrow> bool" where
  "valid_field_name key \<longleftrightarrow> (let base = (case strip_suffix ''[]'' key of Some b \<Rightarrow> b | None \<Rightarrow> key) in
     base \<noteq> [] \<and> \<not> (CHR ''['' \<in> set base \<or> CHR '']'' \<in> set base)
     \<and> list_all (\<lambda>c. ascii_alnum c \<or> c = CHR ''_'' \<or> c = CHR ''-'') base)"

definition target_fields :: "string list" where
  "target_fields = [''url'', ''protocol'', ''host'', ''path'', ''username'', ''password'']"

primrec collect_fields :: "string list \<Rightarrow> fields \<Rightarrow> helper_error + fields" where
  "collect_fields [] m = Inr m"
| "collect_fields (l # ls) m =
     (if l = [] then Inr m
      else rbind (ok_or (HelperText ''malformed credential input'') (split_once (CHR ''='') l)) (\<lambda>(key, v).
        andThen (fail_if (\<not> valid_field_name key) (HelperText ''malformed credential key''))
       (andThen (fail_if (has_control v) (HelperText ''malformed credential value''))
       (if key \<in> set target_fields
        then andThen (fail_if (hget m key \<noteq> None) (HelperText ''duplicate credential field'')) (collect_fields ls (tput key v m))
        else collect_fields ls m))))"

definition parse_fields :: "string \<Rightarrow> helper_error + fields" where
  "parse_fields inp = collect_fields (text_lines inp) []"

definition helper_target_url :: "url_parser \<Rightarrow> fields \<Rightarrow> helper_error + web_url option" where
  "helper_target_url parse m = (case hget m ''url'' of
      Some v \<Rightarrow>
        andThen (fail_if (hget m ''protocol'' \<noteq> None \<or> hget m ''host'' \<noteq> None \<or> hget m ''path'' \<noteq> None)
            (HelperText ''ambiguous credential target''))
          (rbind (ok_or (HelperText ''invalid credential URL'') (parse v)) (\<lambda>u. Inr (Some u)))
    | None \<Rightarrow>
        (case (hget m ''protocol'', hget m ''host'') of
           (Some proto, Some host) \<Rightarrow>
             if proto \<notin> {''https'', ''http''} then Inr None
             else rbind (ok_or (HelperText ''invalid credential target'')
                 (parse (proto @ ''://'' @ host @ CHR ''/'' # (case hget m ''path'' of None \<Rightarrow> [] | Some p \<Rightarrow> p))))
               (\<lambda>u. Inr (Some u))
         | _ \<Rightarrow> Inr None))"

definition request_target :: "url_parser \<Rightarrow> fields \<Rightarrow> helper_error + (web_url \<times> string) option" where
  "request_target parse m =
     rbind (helper_target_url parse m) (\<lambda>ou. case ou of
        None \<Rightarrow> Inr None
      | Some u \<Rightarrow>
          if url_username u \<noteq> [] \<or> url_password u \<noteq> None \<or> url_query u \<noteq> None \<or> url_fragment u \<noteq> None then Inr None
          else
            rbind (ok_or (HelperText ''missing host'') (url_host u)) (\<lambda>host.
            let path = CHR ''/'' # dropWhile (\<lambda>c. c = CHR ''/'') (url_path u);
                origin_text = url_scheme u @ ''://'' @ host
                  @ (case url_port u of None \<Rightarrow> [] | Some n \<Rightarrow> CHR '':'' # show_nat n) in
            rbind (map_err (\<lambda>_. HelperText ''invalid credential origin'')
                (parse_origin parse origin_text (url_scheme u = ''http'')))
              (\<lambda>origin. Inr (Some (origin, path)))))"

section \<open>The operations\<close>

record cli_env =
  env_parse :: url_parser
  env_codec :: cli_codec
  env_os :: os
  env_tries :: "nat \<Rightarrow> flock_answer \<times> nat"
  env_pid :: nat
  env_dir_var :: "string option"
  env_dir_platform :: "string option"

text \<open>Two origins are equal when their texts are.\<close>

definition matching_alias :: "url_parser \<Rightarrow> cli_config \<Rightarrow> web_url \<Rightarrow> string option" where
  "matching_alias parse c origin =
     map_option fst (find (\<lambda>(_, s). case parse_origin parse (srv_base_url s) (srv_allow_http s) of
        Inl _ \<Rightarrow> False | Inr u \<Rightarrow> url_text u = url_text origin) (cfg_servers c))"

definition git_secret :: "string \<Rightarrow> bool" where
  "git_secret t \<longleftrightarrow> prefix ''c6g_v1_'' t \<and> \<not> list_ex char_whitespace (utf8_chars t)"

definition git_answer :: "string \<Rightarrow> string" where
  "git_answer token = ''username=c6'' @ CHR 0x0A # ''password='' @ token @ [CHR 0x0A]"

definition save_tokens ::
  "cli_env \<Rightarrow> string \<Rightarrow> credential_store \<Rightarrow> local_tree \<Rightarrow> (helper_error + string option) \<times> local_tree" where
  "save_tokens E d s fs = (case save_store (env_codec E) (env_os E) (env_pid E) d s fs of
     (Inl e, fs) \<Rightarrow> (Inl (HelperState e), fs) | (Inr _, fs) \<Rightarrow> (Inr None, fs))"

definition helper_operation ::
  "cli_env \<Rightarrow> string \<Rightarrow> string \<Rightarrow> fields \<Rightarrow> cli_config \<Rightarrow> string \<Rightarrow> string \<Rightarrow> credential_store \<Rightarrow> local_tree
     \<Rightarrow> (helper_error + string option) \<times> local_tree" where
  "helper_operation E d operation m c al path s fs =
     (if operation = ''get'' then (Inr (map_option git_answer (git_token al path s)), fs)
      else if operation = ''store'' then
        (if \<not> cfg_plaintext c then (Inl (HelperText ''plaintext credential storage is not enabled; run `c6 auth login --plaintext-store --token-stdin` first''), fs)
         else if hget m ''username'' \<notin> {None, Some ''c6''} then (Inr None, fs)
         else case hget m ''password'' of
             None \<Rightarrow> (Inr None, fs)
           | Some token \<Rightarrow>
               if \<not> git_secret token then (Inr None, fs) else save_tokens E d (set_git_token al path token s) fs)
      else
        (case remove_git_token al path s of
           (True, s) \<Rightarrow> save_tokens E d s fs
         | (False, _) \<Rightarrow> (Inr None, fs)))"

text \<open>\<open>execute\<close>; the lock is held until the end.\<close>

definition helper_serve ::
  "cli_env \<Rightarrow> string \<Rightarrow> fields \<Rightarrow> web_url \<Rightarrow> string \<Rightarrow> string \<Rightarrow> local_tree \<Rightarrow> (helper_error + string option) \<times> local_tree" where
  "helper_serve E operation m origin path d =
     st_then (\<lambda>fs. apfst (map_err HelperState) (acquire (env_os E) (env_tries E) d fs)) (\<lambda>_.
     st_then (st_check (\<lambda>fs. map_err HelperState (load_state_config (env_codec E) (env_os E) d fs))) (\<lambda>c.
       case matching_alias (env_parse E) c origin of
         None \<Rightarrow> (\<lambda>fs. (Inr None, fs))
       | Some al \<Rightarrow>
           st_then (st_check (\<lambda>fs. map_err HelperState (load_store (env_codec E) (env_os E) d fs)))
             (helper_operation E d operation m c al path)))"

definition max_helper_input :: nat where
  "max_helper_input = 64 * 1024"

definition helper_request :: "cli_env \<Rightarrow> string option \<Rightarrow> string \<Rightarrow> helper_error + (string \<times> fields \<times> (web_url \<times> string) option)" where
  "helper_request E operation inp =
     rbind (ok_or (HelperText ''expected get, store, or erase'') operation) (\<lambda>operation.
     andThen (fail_if (operation \<notin> {''get'', ''store'', ''erase''}) (HelperText ''expected get, store, or erase''))
    (andThen (fail_if (\<not> utf8_valid (take (max_helper_input + 1) inp)) (HelperText ''stream did not contain valid UTF-8''))
    (andThen (fail_if (max_helper_input < length inp) (HelperText ''credential input too large''))
    (rbind (parse_fields inp) (\<lambda>m.
     rbind (request_target (env_parse E) m) (\<lambda>target. Inr (operation, m, target)))))))"

definition helper_execute ::
  "cli_env \<Rightarrow> string option \<Rightarrow> string \<Rightarrow> local_tree \<Rightarrow> (helper_error + string option) \<times> local_tree" where
  "helper_execute E operation inp =
     st_then (st_check (\<lambda>_. helper_request E operation inp)) (\<lambda>(operation, m, target).
       case target of
         None \<Rightarrow> (\<lambda>fs. (Inr None, fs))
       | Some (origin, path) \<Rightarrow>
           if \<not> valid_git_path path then (\<lambda>fs. (Inr None, fs))
           else st_then (st_check (\<lambda>_. map_err HelperState (discover (env_dir_var E) (env_dir_platform E))))
             (helper_serve E operation m origin path))"

section \<open>A run that reaches the store\<close>

lemma run_cases:
  assumes "st_then m k s = (r, s')"
  obtains e where "m s = (Inl e, s')" "r = Inl e" | a s1 where "m s = (Inr a, s1)" "k a s1 = (r, s')"
  using assms by (auto simp: st_then_def split: prod.splits sum.splits)

lemma helper_serve_Inr:
  assumes "helper_serve E operation m origin path d fs = (Inr x, fs')"
  obtains fs1 c where "acquire (env_os E) (env_tries E) d fs = (Inr (), fs1)"
    "load_state_config (env_codec E) (env_os E) d fs1 = Inr c" "matching_alias (env_parse E) c origin = None" "x = None" "fs' = fs1"
  | fs1 c al s where "acquire (env_os E) (env_tries E) d fs = (Inr (), fs1)"
    "load_state_config (env_codec E) (env_os E) d fs1 = Inr c" "matching_alias (env_parse E) c origin = Some al"
    "load_store (env_codec E) (env_os E) d fs1 = Inr s" "helper_operation E d operation m c al path s fs1 = (Inr x, fs')"
proof -
  obtain fs1 where a: "acquire (env_os E) (env_tries E) d fs = (Inr (), fs1)"
    using assms by (auto simp: helper_serve_def st_then_def apfst_def map_prod_def map_err_Inr_iff split: prod.splits sum.splits)
  obtain c where c: "load_state_config (env_codec E) (env_os E) d fs1 = Inr c"
    using assms a by (cases "load_state_config (env_codec E) (env_os E) d fs1") (auto simp: helper_serve_def st_then_def st_check_def)
  show thesis
  proof (cases "matching_alias (env_parse E) c origin")
    case None
    with assms a c show thesis by (intro that(1)) (auto simp: helper_serve_def st_then_def st_check_def)
  next
    case (Some al)
    obtain s where "load_store (env_codec E) (env_os E) d fs1 = Inr s"
      using assms a c Some
      by (cases "load_store (env_codec E) (env_os E) d fs1") (auto simp: helper_serve_def st_then_def st_check_def)
    with assms a c Some show thesis by (intro that(2)) (auto simp: helper_serve_def st_then_def st_check_def)
  qed
qed


lemma helper_execute_target:
  assumes "helper_execute E (Some operation) inp fs = (Inr x, fs')" and "parse_fields inp = Inr m"
    and "request_target (env_parse E) m = Inr (Some (origin, path))" and "valid_git_path path"
    and "discover (env_dir_var E) (env_dir_platform E) = Inr d"
  shows "helper_serve E operation m origin path d fs = (Inr x, fs')"
proof -
  from assms(1) have "is_ok (helper_request E (Some operation) inp)"
    by (auto simp: helper_execute_def st_then_def st_check_def is_ok_iff split: sum.splits)
  with assms(2,3) have "helper_request E (Some operation) inp = Inr (operation, m, Some (origin, path))"
    by (auto simp: helper_request_def is_ok_iff rbind_Inr_iff)
  with assms(1,4,5) show ?thesis by (simp add: helper_execute_def st_then_def st_check_def)
qed

section \<open>What the helper gives away\<close>












text \<open>Storing.\<close>

lemma find_filtered: "(\<And>x. P x \<Longrightarrow> Q x) \<Longrightarrow> find P (filter Q xs) = find P xs"
  by (induction xs) auto

lemma git_token_set:
  "git_token b q (set_git_token al path t s) = (if b = al \<and> q = path then Some t else git_token b q s)"
proof (cases "b = al \<and> q = path")
  case True
  have "find (\<lambda>v. gc_server v = al \<and> gc_path v = path) (filter (\<lambda>v. gc_server v \<noteq> al \<or> gc_path v \<noteq> path) (cs_git s)) = None"
    by (auto simp: find_None_iff)
  with True show ?thesis by (simp add: git_token_def set_git_token_def find_append)
next
  case False
  then have "find (\<lambda>v. gc_server v = b \<and> gc_path v = q) (filter (\<lambda>v. gc_server v \<noteq> al \<or> gc_path v \<noteq> path) (cs_git s))
      = find (\<lambda>v. gc_server v = b \<and> gc_path v = q) (cs_git s)"
    by (intro find_filtered) auto
  with False show ?thesis by (auto simp: git_token_def set_git_token_def find_append split: option.split)
qed

text \<open>
  C33: what Git tells the helper to store for a repository of a configured server is what it gets for
  that repository afterwards, and the tokens of all other repositories and servers stay as they were.
\<close>

theorem stored_token_is_given_back:
  assumes "codec_roundtrips (env_codec E)"
    and "helper_execute E (Some ''store'') inp fs = (Inr x, fs1)" and "helper_execute E (Some ''get'') inp' fs1 = (Inr out, fs2)"
    and "discover (env_dir_var E) (env_dir_platform E) = Inr d"
    and "parse_fields inp = Inr m" and "hget m ''password'' = Some t" and "git_secret t" and "hget m ''username'' \<in> {None, Some ''c6''}"
    and "request_target (env_parse E) m = Inr (Some (origin, path))" and "valid_git_path path"
    and "parse_fields inp' = Inr m'" and "request_target (env_parse E) m' = Inr (Some (origin, path))"
    and "config_in (env_codec E) d fs = Some c" and "store_in (env_codec E) d fs = Some s"
    and "matching_alias (env_parse E) c origin = Some al"
  shows "out = Some (git_answer t) \<and> store_in (env_codec E) d fs2 = Some (set_git_token al path t s)
    \<and> (if (b, q) = (al, path) then True else git_token b q (set_git_token al path t s) = git_token b q s)"
proof -
  have st: "helper_serve E ''store'' m origin path d fs = (Inr x, fs1)"
    by (rule helper_execute_target [OF assms(2,5,9,10,4)])
  have gt: "helper_serve E ''get'' m' origin path d fs1 = (Inr out, fs2)"
    by (rule helper_execute_target [OF assms(3,11,12,10,4)])
  from st have one: "config_in (env_codec E) d fs1 = Some c \<and> store_in (env_codec E) d fs1 = Some (set_git_token al path t s)"
  proof (cases rule: helper_serve_Inr)
    case (1 fsa c')
    then show ?thesis using assms(13,15) acquire_in [OF 1(1)] load_config_in [OF 1(2)] by simp
  next
    case (2 fsa c' al' s')
    note same = acquire_in [OF 2(1), of "env_codec E"]
    have e: "c' = c" "al' = al" "s' = s"
      using same assms(13,14,15) load_config_in [OF 2(2)] load_store_in [OF 2(4)] 2(3) by simp_all
    from 2(5) assms(6,7,8) obtain u where
      "save_store (env_codec E) (env_os E) (env_pid E) d (set_git_token al path t s) fsa = (Inr u, fs1)"
      by (auto simp: e helper_operation_def save_tokens_def split: if_splits prod.splits sum.splits)
    from save_store_in(2,3) [OF assms(1) this] same assms(13) show ?thesis by simp
  qed
  from gt show ?thesis
  proof (cases rule: helper_serve_Inr)
    case (1 fsa c')
    then show ?thesis using one assms(15) acquire_in [OF 1(1)] load_config_in [OF 1(2)] by simp
  next
    case (2 fsa c' al' s')
    note same = acquire_in [OF 2(1), of "env_codec E"]
    have e: "c' = c" "al' = al" "s' = set_git_token al path t s"
      using same one assms(15) load_config_in [OF 2(2)] load_store_in [OF 2(4)] 2(3) by simp_all
    from 2(5) have "out = Some (git_answer t)" "fs2 = fsa"
      by (simp_all add: e helper_operation_def git_token_set)
    with same one show ?thesis by (auto simp: git_token_set)
  qed
qed

section \<open>One machine\<close>

definition home_config :: cli_config where
  "home_config = \<lparr>cfg_version = 1, cfg_default = Some ''work'', cfg_plaintext = True,
     cfg_servers = [(''work'', \<lparr>srv_base_url = ''https://c'', srv_server_id = ''s1'', srv_allow_http = False\<rparr>)]\<rparr>"

definition home_store :: credential_store where
  "home_store = \<lparr>cs_api = [], cs_git = [\<lparr>gc_server = ''work'', gc_path = ''/git/a/b.git'', gc_token = ''c6g_v1_t''\<rparr>]\<rparr>"

definition home_tree :: local_tree where
  "home_tree = [(''/h'', new_directory desk_os), (''/h/config.toml'', new_file desk_os (enc_config home_config)),
     (''/h/credentials.json'', new_file desk_os (enc_disk \<lparr>ds_version = 1, ds_api = cs_api home_store, ds_git = cs_git home_store\<rparr>))]"

definition home_urls :: url_parser where
  "home_urls s = (if s = ''https://c'' then Some (desk_url ''https'' ''c'' None)
     else if s = ''https://c/git/a/b.git'' then Some ((desk_url ''https'' ''c'' None)\<lparr>url_path := ''/git/a/b.git''\<rparr>) else None)"

definition home_env :: cli_env where
  "home_env = \<lparr>env_parse = home_urls, env_codec = plain_codec, env_os = desk_os, env_tries = (\<lambda>n. (LockTaken, 0)), env_pid = 7,
     env_dir_var = Some ''/h'', env_dir_platform = None\<rparr>"

definition home_fields :: fields where
  "home_fields = [(''host'', ''c''), (''path'', ''git/a/b.git''), (''protocol'', ''https'')]"

definition home_question :: string where
  "home_question = ''protocol=https'' @ CHR 0x0A # ''host=c'' @ CHR 0x0A # ''path=git/a/b.git'' @ [CHR 0x0A, CHR 0x0A]"

lemma home_parsed: "parse_fields home_question = Inr home_fields" "utf8_valid home_question"
  by code_simp+

lemma home_target: "request_target home_urls home_fields = Inr (Some (desk_url ''https'' ''c'' None, ''/git/a/b.git''))"
  by (simp add: request_target_def helper_target_url_def home_fields_def home_urls_def desk_url_def parse_origin_def)

lemma home_path: "valid_git_path ''/git/a/b.git''"
  by code_simp

lemmas home_simps = st_then_def st_check_def ensure_directory_def local_path_exists_def desk_os_def check_directory_def lstat_def
  open_lock_def lock_path_def state_path_def new_directory_def owner_only_def open_to_others_def lock_loop.simps new_file_def
  validate_metadata_def config_path_def credentials_path_def read_secure_def

definition home_locked :: local_tree where
  "home_locked = hput ''/h/state.lock'' (new_file desk_os []) home_tree"

lemma home_lock: "acquire desk_os (\<lambda>n. (LockTaken, 0)) ''/h'' home_tree = (Inr (), home_locked)"
  by (simp add: acquire_def home_locked_def home_tree_def home_simps)

lemma home_loads:
  "load_state_config plain_codec desk_os ''/h'' home_locked = Inr home_config"
  "load_store plain_codec desk_os ''/h'' home_locked = Inr home_store"
proof -
  have "cfg_version home_config = 1" by (simp add: home_config_def)
  then show "load_state_config plain_codec desk_os ''/h'' home_locked = Inr home_config"
    by (simp add: load_state_config_def home_locked_def home_tree_def home_simps plain_codec_reads)
  show "load_store plain_codec desk_os ''/h'' home_locked = Inr home_store"
    by (simp add: load_store_def home_locked_def home_tree_def home_simps plain_codec_reads)
qed

lemma home_alias: "matching_alias home_urls home_config (desk_url ''https'' ''c'' None) = Some ''work''"
  by (simp add: matching_alias_def home_config_def home_urls_def desk_url_def parse_origin_def)


lemma home_request:
  "q \<in> {''get'', ''store''} \<Longrightarrow> utf8_valid inp \<Longrightarrow> length inp \<le> max_helper_input \<Longrightarrow> parse_fields inp = Inr m
   \<Longrightarrow> request_target home_urls m = Inr (Some (desk_url ''https'' ''c'' None, ''/git/a/b.git''))
   \<Longrightarrow> helper_execute home_env (Some q) inp fs = helper_serve home_env q m (desk_url ''https'' ''c'' None) ''/git/a/b.git'' ''/h'' fs"
  by (auto simp: helper_execute_def helper_request_def st_then_def st_check_def home_env_def home_path discover_def)

lemma home_question_length: "length home_question \<le> max_helper_input"
  by (simp add: home_question_def max_helper_input_def)




text \<open>Storing another token for the same repository, then asking.\<close>

definition home_news :: string where
  "home_news = ''protocol=https'' @ CHR 0x0A # ''host=c'' @ CHR 0x0A # ''path=git/a/b.git'' @ CHR 0x0A
     # ''username=c6'' @ CHR 0x0A # ''password=c6g_v1_u'' @ [CHR 0x0A, CHR 0x0A]"

definition news_fields :: fields where
  "news_fields = [(''host'', ''c''), (''password'', ''c6g_v1_u''), (''path'', ''git/a/b.git''), (''protocol'', ''https''), (''username'', ''c6'')]"

lemma news_parsed: "parse_fields home_news = Inr news_fields" "utf8_valid home_news" "git_secret ''c6g_v1_u''"
  by code_simp+

lemma news_length: "length home_news \<le> max_helper_input"
  by (simp add: home_news_def max_helper_input_def)

lemma news_target: "request_target home_urls news_fields = Inr (Some (desk_url ''https'' ''c'' None, ''/git/a/b.git''))"
  by (simp add: request_target_def helper_target_url_def news_fields_def home_urls_def desk_url_def parse_origin_def)

definition news_store :: credential_store where
  "news_store = set_git_token ''work'' ''/git/a/b.git'' ''c6g_v1_u'' home_store"

definition home_stored :: local_tree where
  "home_stored = hput ''/h/credentials.json'' (new_file desk_os (enc_disk \<lparr>ds_version = 1, ds_api = cs_api news_store, ds_git = cs_git news_store\<rparr>)) home_locked"

lemma home_saved: "save_store plain_codec desk_os 7 ''/h'' news_store home_locked = (Inr (), home_stored)"
  by (simp add: save_store_def plain_codec_def st_then_def st_check_def write_atomic_def replace_steps_def create_new_def
      fill_file_def move_over_def sync_directory_def temp_path_def Let_def show_nat.simps
      home_stored_def home_locked_def home_tree_def home_simps)

lemma home_plaintext: "cfg_plaintext home_config"
  by (simp add: home_config_def)

lemma home_put: "helper_execute home_env (Some ''store'') home_news home_tree = (Inr None, home_stored)"
  by (simp add: home_request [OF _ news_parsed(2) news_length news_parsed(1) news_target] helper_serve_def)
    (simp add: home_env_def home_lock home_loads home_alias st_then_def st_check_def helper_operation_def news_fields_def
      news_parsed(3) save_tokens_def home_saved [unfolded news_store_def] home_plaintext)

lemma stored_lock: "acquire desk_os (\<lambda>n. (LockTaken, 0)) ''/h'' home_stored = (Inr (), home_stored)"
  by (simp add: acquire_def home_stored_def home_locked_def home_tree_def home_simps)

lemma stored_loads:
  "load_state_config plain_codec desk_os ''/h'' home_stored = Inr home_config"
  "load_store plain_codec desk_os ''/h'' home_stored = Inr news_store"
proof -
  have "cfg_version home_config = 1" by (simp add: home_config_def)
  then show "load_state_config plain_codec desk_os ''/h'' home_stored = Inr home_config"
    by (simp add: load_state_config_def home_stored_def home_locked_def home_tree_def home_simps plain_codec_reads)
  show "load_store plain_codec desk_os ''/h'' home_stored = Inr news_store"
    by (simp add: load_store_def home_stored_def home_locked_def home_tree_def home_simps plain_codec_reads)
qed

lemma stored_get: "helper_execute home_env (Some ''get'') home_question home_stored = (Inr (Some (git_answer ''c6g_v1_u'')), home_stored)"
  by (simp add: home_request [OF _ home_parsed(2) home_question_length home_parsed(1) home_target] helper_serve_def)
    (simp add: home_env_def stored_lock stored_loads home_alias st_then_def st_check_def helper_operation_def news_store_def git_token_set)

theorem stored_token_is_given_back_witness:
  "Some (git_answer ''c6g_v1_u'') = Some (git_answer ''c6g_v1_u'')
    \<and> store_in plain_codec ''/h'' home_stored = Some (set_git_token ''work'' ''/git/a/b.git'' ''c6g_v1_u'' home_store)
    \<and> git_token ''work'' ''/git/a/c.git'' (set_git_token ''work'' ''/git/a/b.git'' ''c6g_v1_u'' home_store)
      = git_token ''work'' ''/git/a/c.git'' home_store"
proof -
  have e: "env_codec home_env = plain_codec" "env_parse home_env = home_urls"
    "discover (env_dir_var home_env) (env_dir_platform home_env) = Inr ''/h''"
    by (simp_all add: home_env_def discover_def)
  have c: "config_in plain_codec ''/h'' home_tree = Some home_config" "store_in plain_codec ''/h'' home_tree = Some home_store"
    using load_config_in [OF home_loads(1)] load_store_in [OF home_loads(2)] acquire_in [OF home_lock, of plain_codec] by simp_all
  have f: "hget news_fields ''password'' = Some ''c6g_v1_u''" "hget news_fields ''username'' \<in> {None, Some ''c6''}"
    by (simp_all add: news_fields_def)
  have "codec_roundtrips (env_codec home_env)" by (simp add: e plain_codec_roundtrips)
  from stored_token_is_given_back [OF this home_put stored_get e(3) news_parsed(1) f(1) news_parsed(3) f(2)
      news_target [folded e(2)] home_path home_parsed(1) home_target [folded e(2)] c [folded e(1)] home_alias [folded e(2)],
      of "''work''" "''/git/a/c.git''"]
  show ?thesis by (simp add: e)
qed

end
