(* ===== verification/Cli_Commands.thy ===== *)
theory Cli_Commands
  imports Credential_Helper
begin

text \<open>
  \<^verbatim>\<open>crates/c6-cli/src/lib.rs\<close> and \<^verbatim>\<open>bin/c6.rs\<close>: the commands of the command-line tool.  A command
  works on the files of the machine, sends requests to a server and runs Git; what it sends and runs
  is recorded.  Parsing the arguments is not modelled: a command is what the parser gives.
\<close>

section \<open>Errors\<close>

datatype local_failure = StateFailure state_error | LocalMessage string

datatype app_error =
    Usage string | Authentication | Forbidden | NotFound | Conflict | Network string | Protocol
  | Local local_failure | GitFailure | Internal string

fun exit_code :: "app_error \<Rightarrow> int" where
  "exit_code (Usage _) = 2"
| "exit_code Authentication = 10"
| "exit_code Forbidden = 11"
| "exit_code NotFound = 12"
| "exit_code Conflict = 13"
| "exit_code (Network _) = 20"
| "exit_code Protocol = 21"
| "exit_code (Local _) = 30"
| "exit_code GitFailure = 31"
| "exit_code (Internal _) = 1"

fun error_name :: "app_error \<Rightarrow> string" where
  "error_name (Usage _) = ''usage''"
| "error_name Authentication = ''unauthenticated''"
| "error_name Forbidden = ''forbidden''"
| "error_name NotFound = ''not_found''"
| "error_name Conflict = ''conflict''"
| "error_name (Network _) = ''network''"
| "error_name Protocol = ''protocol_mismatch''"
| "error_name (Local _) = ''local_state''"
| "error_name GitFailure = ''git_failed''"
| "error_name (Internal _) = ''internal''"

fun from_client :: "client_error \<Rightarrow> app_error" where
  "from_client InvalidOrigin = Usage ''server URL must be an origin without a path, query, fragment, or credentials''"
| "from_client InsecureOrigin = Usage ''server URL must use HTTPS (loopback HTTP requires explicit opt-in)''"
| "from_client client_error.Unauthenticated = Authentication"
| "from_client client_error.Forbidden = Forbidden"
| "from_client client_error.NotFound = NotFound"
| "from_client client_error.Conflict = Conflict"
| "from_client (client_error.Network m) = Network m"
| "from_client client_error.Protocol = Protocol"
| "from_client (Api _ _) = Protocol"

section \<open>The world of a command\<close>

text \<open>What is the same for every command of one user on one machine, and what can differ each time.\<close>

record user_machine =
  m_parse :: url_parser
  m_codec :: cli_codec
  m_json :: client_json
  m_uuid_text :: "uuid \<Rightarrow> string"
  m_user :: nat

record occasion =
  x_os :: os
  x_tries :: "nat \<Rightarrow> flock_answer \<times> nat"
  x_pid :: nat
  x_net :: http_peer
  x_git :: "string list \<Rightarrow> string + int"
  x_git_version :: "string + int \<times> string"
  x_stdin :: "string + string"
  x_plaintext_var :: "string option"
  x_flush_fails :: "string option"
  x_json :: bool

definition os_of :: "user_machine \<Rightarrow> occasion \<Rightarrow> os" where
  "os_of M X = (x_os X)\<lparr>effective_user := m_user M\<rparr>"

text \<open>\<open>w_typed\<close> tells which token was typed in for which server.\<close>

record cli_world =
  w_files :: local_tree
  w_sent :: "sent_request list"
  w_git :: "(string list \<times> bool) list"
  w_typed :: "(string \<times> string) list"

type_synonym 'a cli = "cli_world \<Rightarrow> (app_error + 'a) \<times> cli_world"

definition on_files :: "(local_tree \<Rightarrow> (state_error + 'a) \<times> local_tree) \<Rightarrow> 'a cli" where
  "on_files m w = (case m (w_files w) of (r, fs) \<Rightarrow> (map_err (\<lambda>e. Local (StateFailure e)) r, w\<lparr>w_files := fs\<rparr>))"

definition on_net :: "(sent_request list \<Rightarrow> (client_error + 'a) \<times> sent_request list) \<Rightarrow> 'a cli" where
  "on_net m w = (case m (w_sent w) of (r, reqs) \<Rightarrow> (map_err from_client r, w\<lparr>w_sent := reqs\<rparr>))"

definition cli_check :: "app_error + 'a \<Rightarrow> 'a cli" where
  "cli_check r w = (r, w)"

definition cli_return :: "'a \<Rightarrow> 'a cli" where
  "cli_return a w = (Inr a, w)"

text \<open>\<open>run_git\<close>: in machine mode every prompt is turned off in the environment.\<close>

definition git_unavailable :: "string \<Rightarrow> app_error" where
  "git_unavailable e = Local (LocalMessage (''could not execute Git: '' @ e))"

definition cli_run_git :: "occasion \<Rightarrow> string list \<Rightarrow> int cli" where
  "cli_run_git X argv w =
     (map_err git_unavailable (x_git X argv), w\<lparr>w_git := w_git w @ [(argv, x_json X)]\<rparr>)"

definition cli_git_ok :: "occasion \<Rightarrow> string list \<Rightarrow> unit cli" where
  "cli_git_ok X argv = st_then (cli_run_git X argv) (\<lambda>n. cli_check (fail_if (n \<noteq> 0) GitFailure))"

definition cli_git_environment :: "occasion \<Rightarrow> app_error + string" where
  "cli_git_environment X = (case x_git_version X of
      Inl e \<Rightarrow> Inl (git_unavailable e)
    | Inr (n, out) \<Rightarrow> if n \<noteq> 0 then Inl GitFailure else if \<not> utf8_valid out then Inl Protocol else Inr (trim out))"

section \<open>Shared parts\<close>

definition selected_server :: "cli_config \<Rightarrow> string option \<Rightarrow> app_error + (string \<times> cli_server)" where
  "selected_server c requested =
     rbind (ok_or (Local (LocalMessage ''no server selected; use `c6 server add`''))
         (case requested of Some al \<Rightarrow> Some al | None \<Rightarrow> cfg_default c)) (\<lambda>al.
     rbind (ok_or (Local (LocalMessage (''server alias `'' @ al @ ''` is not configured''))) (hget (cfg_servers c) al))
       (\<lambda>s. Inr (al, s)))"

definition load_config_of :: "user_machine \<Rightarrow> occasion \<Rightarrow> string \<Rightarrow> cli_config cli" where
  "load_config_of M X d = on_files (st_check (load_state_config (m_codec M) (os_of M X) d))"

definition load_store_of :: "user_machine \<Rightarrow> occasion \<Rightarrow> string \<Rightarrow> credential_store cli" where
  "load_store_of M X d = on_files (st_check (load_store (m_codec M) (os_of M X) d))"

definition lock_of :: "user_machine \<Rightarrow> occasion \<Rightarrow> string \<Rightarrow> unit cli" where
  "lock_of M X d = on_files (acquire (os_of M X) (x_tries X) d)"

definition save_config_of :: "user_machine \<Rightarrow> occasion \<Rightarrow> string \<Rightarrow> cli_config \<Rightarrow> unit cli" where
  "save_config_of M X d c = on_files (save_config (m_codec M) (os_of M X) (x_pid X) d c)"

definition save_store_of :: "user_machine \<Rightarrow> occasion \<Rightarrow> string \<Rightarrow> credential_store \<Rightarrow> unit cli" where
  "save_store_of M X d s = on_files (save_store (m_codec M) (os_of M X) (x_pid X) d s)"

definition origin_of :: "user_machine \<Rightarrow> string \<Rightarrow> bool \<Rightarrow> app_error + web_url" where
  "origin_of M s allow = map_err from_client (parse_origin (m_parse M) s allow)"

definition new_client :: "occasion \<Rightarrow> web_url \<Rightarrow> string option \<Rightarrow> app_error + c6_client" where
  "new_client X u bearer = map_err from_client (client_new (x_net X) u bearer)"

definition authenticated_client :: "user_machine \<Rightarrow> occasion \<Rightarrow> string \<Rightarrow> string option \<Rightarrow> (string \<times> c6_client) cli" where
  "authenticated_client M X d requested =
     st_then (load_config_of M X d) (\<lambda>c.
     st_then (cli_check (selected_server c requested)) (\<lambda>(al, server).
     st_then (load_store_of M X d) (\<lambda>s.
     st_then (cli_check (ok_or Authentication (api_token al s))) (\<lambda>token.
     st_then (cli_check (origin_of M (srv_base_url server) (srv_allow_http server))) (\<lambda>u.
     st_then (cli_check (new_client X u (Some token))) (\<lambda>client. cli_return (al, client)))))))"

definition parse_project_ref :: "string \<Rightarrow> app_error + (string \<times> string)" where
  "parse_project_ref v = (case split_on (CHR ''/'') v of
      [w, p] \<Rightarrow> if \<not> valid_slug w \<or> \<not> valid_slug p
        then Inl (Usage ''workspace and project must be lowercase URL-safe slugs'') else Inr (w, p)
    | _ \<Rightarrow> Inl (Usage ''project must be `<workspace>/<project>`''))"

definition resolve_project :: "user_machine \<Rightarrow> occasion \<Rightarrow> c6_client \<Rightarrow> string \<Rightarrow> (who_am_i \<times> project_summary) cli" where
  "resolve_project M X client reference =
     st_then (cli_check (parse_project_ref reference)) (\<lambda>(w, p).
     st_then (on_net (whoami (m_json M) (x_net X) client)) (\<lambda>who.
     st_then (cli_check (ok_or NotFound (find (\<lambda>ws. cws_slug ws = w) (who_workspaces who)))) (\<lambda>ws.
     st_then (on_net (projects_of (m_json M) (x_net X) client)) (\<lambda>ps.
     st_then (cli_check (ok_or NotFound (find (\<lambda>q. psum_workspace q = cws_id ws \<and> psum_slug q = p) ps)))
       (\<lambda>project. cli_return (who, project))))))"

record git_credential_config =
  helper_key :: string
  use_http_path_key :: string

definition git_credential_config_of :: "url_parser \<Rightarrow> string \<Rightarrow> app_error + git_credential_config" where
  "git_credential_config_of parse remote =
     rbind (ok_or Protocol (parse remote)) (\<lambda>u.
     andThen (fail_if (url_scheme u \<notin> {''https'', ''http''} \<or> url_host u = None \<or> url_username u \<noteq> []
         \<or> url_password u \<noteq> None \<or> url_query u \<noteq> None \<or> url_fragment u \<noteq> None \<or> \<not> valid_git_path (url_path u)) Protocol)
       (Inr \<lparr>helper_key = ''credential.'' @ remote @ ''.helper'', use_http_path_key = ''credential.'' @ remote @ ''.useHttpPath''\<rparr>))"

definition max_secret_input :: nat where
  "max_secret_input = 16 * 1024"

definition read_secret :: "string + string \<Rightarrow> app_error + string" where
  "read_secret inp =
     rbind (map_err (\<lambda>e. Local (LocalMessage (''could not read token: '' @ e))) inp) (\<lambda>b.
     andThen (fail_if (max_secret_input < length b) (Usage ''token input is too large''))
    (andThen (fail_if (\<not> utf8_valid b) (Usage ''token must be UTF-8''))
       (let token = trim b in
        if \<not> prefix ''c6c_v1_'' token \<or> list_ex char_whitespace (utf8_chars token) then Inl Authentication else Inr token)))"

section \<open>Commands\<close>

datatype server_command = ServerAdd string "string option" bool | ServerList | ServerUse string
datatype auth_command = AuthLogin "string option" bool bool | AuthStatus "string option" | AuthLogout "string option"

datatype command =
    Version | Server server_command | Auth auth_command | ProjectList "string option" "string option"
  | Clone string "string option" "string option" | RemoteAdd string string "string option" | Doctor "string option"

datatype cli_output =
    OutVersion
  | OutServer string string string
  | OutServers "(string \<times> string \<times> string \<times> bool) list"
  | OutDefault string
  | OutLogin string uuid string
  | OutStatus string user_summary "cli_workspace list"
  | OutLogout string bool
  | OutProjects "project_summary list"
  | OutClone uuid string
  | OutRemote string string
  | OutDoctor string string string uuid bool bool bool

text \<open>\<open>output\<close>: without \<open>--json\<close> the human form is printed and flushed.\<close>

definition give :: "occasion \<Rightarrow> cli_output \<Rightarrow> cli_output cli" where
  "give X v = cli_check (if x_json X then Inr v
     else case x_flush_fails X of Some m \<Rightarrow> Inl (Internal m) | None \<Rightarrow> Inr v)"

definition alias_of_name :: "string \<Rightarrow> string" where
  "alias_of_name name =
     (let cs = concat (map (\<lambda>ch. case ch of [c] \<Rightarrow> if ascii_alnum c \<or> c = CHR ''-'' then [c] else ''-'' | _ \<Rightarrow> ''-'')
        (utf8_chars (map to_lower name))) in
      rev (dropWhile (\<lambda>c. c = CHR ''-'') (rev (dropWhile (\<lambda>c. c = CHR ''-'') cs))))"

definition valid_alias :: "string \<Rightarrow> bool" where
  "valid_alias al \<longleftrightarrow> al \<noteq> [] \<and> list_all (\<lambda>c. ascii_alnum c \<or> c = CHR ''-'' \<or> c = CHR ''_'') al"

definition alias_rule :: string where
  "alias_rule = ''server alias must contain letters, numbers, '' @ [char_of (39::nat), CHR ''-'', char_of (39::nat)]
     @ '' or '' @ [char_of (39::nat), CHR ''_'', char_of (39::nat)]"

definition add_server :: "string \<Rightarrow> cli_server \<Rightarrow> cli_config \<Rightarrow> app_error + cli_config" where
  "add_server al s c =
     andThen (fail_if (case hget (cfg_servers c) al of None \<Rightarrow> False
         | Some old \<Rightarrow> srv_server_id old \<noteq> srv_server_id s \<or> srv_base_url old \<noteq> srv_base_url s) Conflict)
       (Inr (c\<lparr>cfg_servers := tput al s (cfg_servers c),
          cfg_default := (case cfg_default c of None \<Rightarrow> Some al | Some e \<Rightarrow> Some e)\<rparr>))"

definition server_add :: "user_machine \<Rightarrow> occasion \<Rightarrow> string \<Rightarrow> string \<Rightarrow> string option \<Rightarrow> bool \<Rightarrow> cli_output cli" where
  "server_add M X d text name allow =
     st_then (cli_check (origin_of M text allow)) (\<lambda>u.
     st_then (cli_check (new_client X u None)) (\<lambda>client.
     st_then (on_net (server_status_of (m_json M) (x_net X) client)) (\<lambda>st.
     let sid = m_uuid_text M (sst_id st); al = (case name of Some n \<Rightarrow> n | None \<Rightarrow> alias_of_name (sst_name st)) in
     st_then (cli_check (fail_if (\<not> valid_alias al) (Usage alias_rule))) (\<lambda>_.
     st_then (lock_of M X d) (\<lambda>_.
     st_then (load_config_of M X d) (\<lambda>c.
     st_then (cli_check (add_server al \<lparr>srv_base_url = origin_str u, srv_server_id = sid, srv_allow_http = allow\<rparr> c)) (\<lambda>c.
     st_then (save_config_of M X d c) (\<lambda>_.
       give X (OutServer al (origin_str u) sid)))))))))"

definition server_list :: "user_machine \<Rightarrow> occasion \<Rightarrow> string \<Rightarrow> cli_output cli" where
  "server_list M X d =
     st_then (load_config_of M X d) (\<lambda>c.
       cli_return (OutServers (map (\<lambda>(n, s). (n, srv_base_url s, srv_server_id s, cfg_default c = Some n)) (cfg_servers c))))"

definition server_use :: "user_machine \<Rightarrow> occasion \<Rightarrow> string \<Rightarrow> string \<Rightarrow> cli_output cli" where
  "server_use M X d al =
     st_then (lock_of M X d) (\<lambda>_.
     st_then (load_config_of M X d) (\<lambda>c.
     st_then (cli_check (fail_if (hget (cfg_servers c) al = None) NotFound)) (\<lambda>_.
     st_then (save_config_of M X d (c\<lparr>cfg_default := Some al\<rparr>)) (\<lambda>_.
       give X (OutDefault al)))))"

text \<open>
  \<open>auth login\<close> in its two parts: asking the server who the token belongs to, without the lock, and
  storing the token, under the lock.  Other commands can run in between.
\<close>

record checked_login =
  log_alias :: string
  log_base_url :: string
  log_server_id :: string
  log_token :: string
  log_user :: user_summary

definition note_typed :: "string \<Rightarrow> string \<Rightarrow> unit cli" where
  "note_typed al token w = (Inr (), w\<lparr>w_typed := w_typed w @ [(al, token)]\<rparr>)"

definition login_check :: "user_machine \<Rightarrow> occasion \<Rightarrow> string \<Rightarrow> string option \<Rightarrow> bool \<Rightarrow> bool \<Rightarrow> checked_login cli" where
  "login_check M X d requested token_stdin plaintext =
     st_then (cli_check (fail_if (\<not> token_stdin) (Usage ''tokens are accepted only with --token-stdin''))) (\<lambda>_.
     st_then (cli_check (fail_if (\<not> plaintext_allowed (x_plaintext_var X) plaintext)
         (Local (LocalMessage ''the headless plaintext credential fallback requires --plaintext-store (token will be plaintext at rest)'')))) (\<lambda>_.
     st_then (load_config_of M X d) (\<lambda>c.
     st_then (cli_check (selected_server c requested)) (\<lambda>(al, server).
     st_then (cli_check (origin_of M (srv_base_url server) (srv_allow_http server))) (\<lambda>u.
     st_then (cli_check (read_secret (x_stdin X))) (\<lambda>token.
     st_then (note_typed al token) (\<lambda>_.
     st_then (cli_check (new_client X u (Some token))) (\<lambda>client.
     st_then (on_net (whoami (m_json M) (x_net X) client)) (\<lambda>who.
     st_then (cli_check (fail_if (m_uuid_text M (ssum_id (who_server who)) \<noteq> srv_server_id server) Protocol)) (\<lambda>_.
       cli_return \<lparr>log_alias = al, log_base_url = srv_base_url server, log_server_id = srv_server_id server,
         log_token = token, log_user = who_user who\<rparr>))))))))))"

definition login_store :: "user_machine \<Rightarrow> occasion \<Rightarrow> string \<Rightarrow> checked_login \<Rightarrow> cli_output cli" where
  "login_store M X d l =
     st_then (lock_of M X d) (\<lambda>_.
     st_then (load_config_of M X d) (\<lambda>c.
     st_then (cli_check (selected_server c (Some (log_alias l)))) (\<lambda>(_, current).
     st_then (cli_check (fail_if (srv_server_id current \<noteq> log_server_id l \<or> srv_base_url current \<noteq> log_base_url l) Conflict)) (\<lambda>_.
     st_then (load_store_of M X d) (\<lambda>s.
     st_then (save_store_of M X d (set_api_token (log_alias l) (log_token l) s)) (\<lambda>_.
     st_then (save_config_of M X d (c\<lparr>cfg_plaintext := True\<rparr>)) (\<lambda>_.
       give X (OutLogin (log_alias l) (usum_id (log_user l)) (usum_name (log_user l))))))))))"

definition auth_login :: "user_machine \<Rightarrow> occasion \<Rightarrow> string \<Rightarrow> string option \<Rightarrow> bool \<Rightarrow> bool \<Rightarrow> cli_output cli" where
  "auth_login M X d requested token_stdin plaintext =
     st_then (login_check M X d requested token_stdin plaintext) (login_store M X d)"

definition auth_status :: "user_machine \<Rightarrow> occasion \<Rightarrow> string \<Rightarrow> string option \<Rightarrow> cli_output cli" where
  "auth_status M X d requested =
     st_then (authenticated_client M X d requested) (\<lambda>(al, client).
     st_then (on_net (whoami (m_json M) (x_net X) client)) (\<lambda>who.
       give X (OutStatus al (who_user who) (who_workspaces who))))"

definition auth_logout :: "user_machine \<Rightarrow> occasion \<Rightarrow> string \<Rightarrow> string option \<Rightarrow> cli_output cli" where
  "auth_logout M X d requested =
     st_then (lock_of M X d) (\<lambda>_.
     st_then (load_config_of M X d) (\<lambda>c.
     st_then (cli_check (selected_server c requested)) (\<lambda>(al, _).
     st_then (load_store_of M X d) (\<lambda>s.
     let (removed, s) = remove_api_token al s in
     st_then (save_store_of M X d s) (\<lambda>_. give X (OutLogout al removed))))))"

definition cli_project_list :: "user_machine \<Rightarrow> occasion \<Rightarrow> string \<Rightarrow> string option \<Rightarrow> string option \<Rightarrow> cli_output cli" where
  "cli_project_list M X d requested workspace =
     st_then (authenticated_client M X d requested) (\<lambda>(_, client).
     st_then (on_net (whoami (m_json M) (x_net X) client)) (\<lambda>who.
     st_then (on_net (projects_of (m_json M) (x_net X) client)) (\<lambda>ps.
       (case workspace of
          None \<Rightarrow> cli_return (OutProjects ps)
        | Some slug \<Rightarrow>
            st_then (cli_check (ok_or NotFound (find (\<lambda>ws. cws_slug ws = slug) (who_workspaces who)))) (\<lambda>ws.
              cli_return (OutProjects (filter (\<lambda>p. psum_workspace p = cws_id ws) ps)))))))"

text \<open>The remote of a project, if it can be fetched, and the keys of its credential helper.\<close>

definition fetchable_remote ::
  "user_machine \<Rightarrow> occasion \<Rightarrow> string \<Rightarrow> string option \<Rightarrow> string \<Rightarrow> (uuid \<times> string \<times> git_credential_config) cli" where
  "fetchable_remote M X d requested reference =
     st_then (authenticated_client M X d requested) (\<lambda>(_, client).
     st_then (resolve_project M X client reference) (\<lambda>(_, project).
     st_then (on_net (project_remote_of (m_json M) (m_parse M) (m_uuid_text M) (x_net X) client (psum_id project))) (\<lambda>r.
     st_then (cli_check (fail_if (\<not> can_fetch (rem_capabilities r)) Forbidden)) (\<lambda>_.
     st_then (cli_check (git_credential_config_of (m_parse M) (rem_clone_url r)))
       (\<lambda>k. cli_return (psum_id project, rem_clone_url r, k))))))"

definition clone_argv :: "git_credential_config \<Rightarrow> string \<Rightarrow> string option \<Rightarrow> string list" where
  "clone_argv k remote dir =
     [''clone'', ''--config'', helper_key k @ ''='', ''--config'', helper_key k @ ''=c6'',
      ''--config'', use_http_path_key k @ ''=true'', remote] @ (case dir of None \<Rightarrow> [] | Some e \<Rightarrow> [e])"

definition clone_command :: "user_machine \<Rightarrow> occasion \<Rightarrow> string \<Rightarrow> string \<Rightarrow> string option \<Rightarrow> string option \<Rightarrow> cli_output cli" where
  "clone_command M X d reference dir requested =
     st_then (fetchable_remote M X d requested reference) (\<lambda>(project, remote, k).
     st_then (cli_git_ok X (clone_argv k remote dir)) (\<lambda>_. give X (OutClone project remote)))"

definition remote_argvs :: "git_credential_config \<Rightarrow> string \<Rightarrow> string \<Rightarrow> string list list" where
  "remote_argvs k remote name =
     [[''config'', ''--local'', ''--replace-all'', helper_key k, []],
      [''config'', ''--local'', ''--add'', helper_key k, ''c6''],
      [''config'', ''--local'', use_http_path_key k, ''true''],
      [''remote'', ''add'', name, remote]]"

primrec git_all :: "occasion \<Rightarrow> string list list \<Rightarrow> unit cli" where
  "git_all X [] = cli_return ()"
| "git_all X (a # as) = st_then (cli_git_ok X a) (\<lambda>_. git_all X as)"

definition remote_add :: "user_machine \<Rightarrow> occasion \<Rightarrow> string \<Rightarrow> string \<Rightarrow> string \<Rightarrow> string option \<Rightarrow> cli_output cli" where
  "remote_add M X d reference name requested =
     st_then (cli_check (fail_if (name = [] \<or> prefix ''-'' name \<or> list_ex char_whitespace (utf8_chars name))
       (Usage ''invalid Git remote name''))) (\<lambda>_.
     st_then (fetchable_remote M X d requested reference) (\<lambda>(_, remote, k).
     st_then (git_all X (remote_argvs k remote name)) (\<lambda>_. give X (OutRemote name remote))))"

definition doctor :: "user_machine \<Rightarrow> occasion \<Rightarrow> string \<Rightarrow> string option \<Rightarrow> cli_output cli" where
  "doctor M X d requested =
     st_then (cli_check (cli_git_environment X)) (\<lambda>version.
     st_then (load_config_of M X d) (\<lambda>c.
     st_then (cli_check (selected_server c requested)) (\<lambda>(al, server).
     st_then (cli_check (origin_of M (srv_base_url server) (srv_allow_http server))) (\<lambda>u.
     st_then (cli_check (new_client X u None)) (\<lambda>client.
     st_then (on_net (server_status_of (m_json M) (x_net X) client)) (\<lambda>st.
     st_then (cli_check (fail_if (m_uuid_text M (sst_id st) \<noteq> srv_server_id server) Protocol)) (\<lambda>_.
     st_then (load_store_of M X d) (\<lambda>s.
       cli_return (OutDoctor version al (srv_base_url server) (sst_id st) (cfg_plaintext c) (api_token al s \<noteq> None)
         (prefix ''https://'' (srv_base_url server)))))))))))"

text \<open>\<open>execute\<close>, in the state directory that \<open>Paths::discover\<close> has found.\<close>

definition cli_execute :: "user_machine \<Rightarrow> occasion \<Rightarrow> string \<Rightarrow> command \<Rightarrow> cli_output cli" where
  "cli_execute M X d cmd = (case cmd of
      Version \<Rightarrow> give X OutVersion
    | Server (ServerAdd text name allow) \<Rightarrow> server_add M X d text name allow
    | Server ServerList \<Rightarrow> server_list M X d
    | Server (ServerUse al) \<Rightarrow> server_use M X d al
    | Auth (AuthLogin server token_stdin plaintext) \<Rightarrow> auth_login M X d server token_stdin plaintext
    | Auth (AuthStatus server) \<Rightarrow> auth_status M X d server
    | Auth (AuthLogout server) \<Rightarrow> auth_logout M X d server
    | ProjectList server workspace \<Rightarrow> cli_project_list M X d server workspace
    | Clone reference dir server \<Rightarrow> clone_command M X d reference dir server
    | RemoteAdd reference name server \<Rightarrow> remote_add M X d reference name server
    | Doctor server \<Rightarrow> doctor M X d server)"

end
