(* ===== verification/Cli_Authority.thy ===== *)
theory Cli_Authority
  imports Cli_Commands
begin

text \<open>
  The command-line tool over time: any number of commands and credential helpers of one user on one
  machine, one after the other, with a login that can be overtaken between its two parts.
\<close>

section \<open>Histories\<close>

datatype cli_event =
    RunCommand occasion command
  | CheckLogin occasion "string option" bool bool
  | StoreLogin occasion nat
  | RunHelper occasion "string option" string

record desk =
  d_world :: cli_world
  d_logins :: "checked_login list"

definition helper_env :: "user_machine \<Rightarrow> occasion \<Rightarrow> string \<Rightarrow> cli_env" where
  "helper_env M X d = \<lparr>env_parse = m_parse M, env_codec = m_codec M, env_os = os_of M X, env_tries = x_tries X,
     env_pid = x_pid X, env_dir_var = Some d, env_dir_platform = None\<rparr>"

definition desk_step :: "user_machine \<Rightarrow> string \<Rightarrow> cli_event \<Rightarrow> desk \<Rightarrow> desk" where
  "desk_step M d e k = (case e of
      RunCommand X cmd \<Rightarrow> k\<lparr>d_world := snd (cli_execute M X d cmd (d_world k))\<rparr>
    | CheckLogin X al stdin plain \<Rightarrow>
        (case login_check M X d al stdin plain (d_world k) of
           (Inl _, w) \<Rightarrow> k\<lparr>d_world := w\<rparr>
         | (Inr l, w) \<Rightarrow> k\<lparr>d_world := w, d_logins := d_logins k @ [l]\<rparr>)
    | StoreLogin X i \<Rightarrow>
        if i < length (d_logins k) then k\<lparr>d_world := snd (login_store M X d (d_logins k ! i) (d_world k))\<rparr> else k
    | RunHelper X operation inp \<Rightarrow>
        k\<lparr>d_world := (d_world k)\<lparr>w_files := snd (helper_execute (helper_env M X d) operation inp (w_files (d_world k)))\<rparr>\<rparr>)"

definition desk_run :: "user_machine \<Rightarrow> string \<Rightarrow> cli_event list \<Rightarrow> desk \<Rightarrow> desk" where
  "desk_run M d evs k = fold (desk_step M d) evs k"

definition new_desk :: "local_tree \<Rightarrow> desk" where
  "new_desk fs = \<lparr>d_world = \<lparr>w_files = fs, w_sent = [], w_git = [], w_typed = []\<rparr>, d_logins = []\<rparr>"

section \<open>The invariant\<close>

text \<open>Where an alias is configured to point.\<close>

definition pinned :: "user_machine \<Rightarrow> string \<Rightarrow> local_tree \<Rightarrow> string \<Rightarrow> (string \<times> string) option" where
  "pinned M d fs al = Option.bind (config_in (m_codec M) d fs)
     (\<lambda>c. map_option (\<lambda>s. (srv_base_url s, srv_server_id s)) (hget (cfg_servers c) al))"

text \<open>A token of an alias goes to the origin that the alias is configured with.\<close>

definition rightful_request :: "user_machine \<Rightarrow> string \<Rightarrow> cli_world \<Rightarrow> web_url \<Rightarrow> string option \<Rightarrow> bool" where
  "rightful_request M d w u bearer \<longleftrightarrow> (case bearer of None \<Rightarrow> True
     | Some t \<Rightarrow> (\<exists>al base sid allow. (al, t) \<in> set (w_typed w) \<and> pinned M d (w_files w) al = Some (base, sid)
         \<and> parse_origin (m_parse M) base allow = Inr u))"

definition stored_rightfully :: "user_machine \<Rightarrow> string \<Rightarrow> cli_world \<Rightarrow> bool" where
  "stored_rightfully M d w \<longleftrightarrow> (case store_in (m_codec M) d (w_files w) of None \<Rightarrow> True
     | Some s \<Rightarrow> list_all (\<lambda>p. p \<in> set (w_typed w)) (cs_api s))"

text \<open>
  Git is only run with a remote that lies on the origin of a configured alias, and with the settings
  that make the helper its only source of credentials.
\<close>

definition checked_run :: "user_machine \<Rightarrow> string \<Rightarrow> cli_world \<Rightarrow> string list \<Rightarrow> bool" where
  "checked_run M d w argv \<longleftrightarrow> (\<exists>al base sid allow u v remote k dir name.
     pinned M d (w_files w) al = Some (base, sid) \<and> parse_origin (m_parse M) base allow = Inr u
     \<and> m_parse M remote = Some v \<and> matches_url u v \<and> git_credential_config_of (m_parse M) remote = Inr k
     \<and> (argv = clone_argv k remote dir \<or> argv \<in> set (remote_argvs k remote name)))"

definition world_ok :: "user_machine \<Rightarrow> string \<Rightarrow> cli_world \<Rightarrow> bool" where
  "world_ok M d w \<longleftrightarrow> private_state (m_user M) d (w_files w) \<and> stored_rightfully M d w
     \<and> list_all (\<lambda>r. rightful_request M d w (sent_origin r) (sent_bearer r)) (w_sent w)
     \<and> list_all (\<lambda>g. checked_run M d w (fst g)) (w_git w)"

text \<open>What a command can do to a world: typed tokens and pinned aliases stay.\<close>

definition later_world :: "user_machine \<Rightarrow> string \<Rightarrow> cli_world \<Rightarrow> cli_world \<Rightarrow> bool" where
  "later_world M d w w' \<longleftrightarrow> set (w_typed w) \<subseteq> set (w_typed w')
     \<and> (\<forall>al p. pinned M d (w_files w) al = Some p \<longrightarrow> pinned M d (w_files w') al = Some p)"

lemma later_refl [simp]: "later_world M d w w"
  by (simp add: later_world_def)

lemma later_trans: "later_world M d w w' \<Longrightarrow> later_world M d w' w'' \<Longrightarrow> later_world M d w w''"
  by (auto simp: later_world_def)

lemma rightful_later: "later_world M d w w' \<Longrightarrow> rightful_request M d w u b \<Longrightarrow> rightful_request M d w' u b"
  by (cases b) (auto simp: rightful_request_def later_world_def, blast)

lemma checked_later: "later_world M d w w' \<Longrightarrow> checked_run M d w a \<Longrightarrow> checked_run M d w' a"
  unfolding checked_run_def later_world_def by blast

text \<open>A step keeps the invariant, only goes to later worlds, and gives what \<open>Q\<close> says.\<close>

definition keeps_desk :: "user_machine \<Rightarrow> string \<Rightarrow> (cli_world \<Rightarrow> bool) \<Rightarrow> 'a cli \<Rightarrow> (cli_world \<Rightarrow> 'a \<Rightarrow> bool) \<Rightarrow> bool" where
  "keeps_desk M d P m Q \<longleftrightarrow> (\<forall>w r w'. world_ok M d w \<and> P w \<and> m w = (r, w') \<longrightarrow>
     world_ok M d w' \<and> later_world M d w w' \<and> (case r of Inl _ \<Rightarrow> True | Inr a \<Rightarrow> Q w' a))"

lemma keeps_desk_then:
  assumes "keeps_desk M d P m Q" and "\<And>a. keeps_desk M d (\<lambda>w. Q w a) (k a) R"
  shows "keeps_desk M d P (st_then m k) R"
  unfolding keeps_desk_def
proof (intro allI impI)
  fix w r w'
  assume w: "world_ok M d w \<and> P w \<and> st_then m k w = (r, w')"
  then have "st_then m k w = (r, w')" by simp
  then show "world_ok M d w' \<and> later_world M d w w' \<and> (case r of Inl _ \<Rightarrow> True | Inr a \<Rightarrow> R w' a)"
  proof (cases rule: run_cases)
    case (1 e)
    with w assms(1) show ?thesis by (fastforce simp: keeps_desk_def)
  next
    case (2 a w1)
    have "world_ok M d w1 \<and> later_world M d w w1 \<and> Q w1 a"
      using w 2(1) assms(1) by (fastforce simp: keeps_desk_def)
    moreover from this 2(2) assms(2) [of a] have "world_ok M d w' \<and> later_world M d w1 w'
        \<and> (case r of Inl _ \<Rightarrow> True | Inr a \<Rightarrow> R w' a)"
      by (fastforce simp: keeps_desk_def)
    ultimately show ?thesis by (blast intro: later_trans)
  qed
qed

lemma keeps_desk_check: "(\<And>w a. P w \<Longrightarrow> r = Inr a \<Longrightarrow> Q w a) \<Longrightarrow> keeps_desk M d P (cli_check r) Q"
  by (auto simp: keeps_desk_def cli_check_def split: sum.split)

lemma keeps_desk_return: "(\<And>w. P w \<Longrightarrow> Q w a) \<Longrightarrow> keeps_desk M d P (cli_return a) Q"
  by (auto simp: keeps_desk_def cli_return_def)

lemma keeps_desk_pre: "keeps_desk M d P m Q \<Longrightarrow> (\<And>w. P' w \<Longrightarrow> P w) \<Longrightarrow> keeps_desk M d P' m Q"
  by (fastforce simp: keeps_desk_def)

lemma keeps_desk_post: "keeps_desk M d P m Q \<Longrightarrow> (\<And>w a. Q w a \<Longrightarrow> Q' w a) \<Longrightarrow> keeps_desk M d P m Q'"
  by (fastforce simp: keeps_desk_def split: sum.splits)

lemma keeps_desk_fact: "(\<And>w. P w \<Longrightarrow> B) \<Longrightarrow> (B \<Longrightarrow> keeps_desk M d P m Q) \<Longrightarrow> keeps_desk M d P m Q"
  unfolding keeps_desk_def by blast

section \<open>The parts of a command\<close>

definition config_is :: "user_machine \<Rightarrow> string \<Rightarrow> cli_config \<Rightarrow> cli_world \<Rightarrow> bool" where
  "config_is M d c w \<longleftrightarrow> config_in (m_codec M) d (w_files w) = Some c"

definition typed_for :: "string \<Rightarrow> string \<Rightarrow> cli_world \<Rightarrow> bool" where
  "typed_for al t w \<longleftrightarrow> (al, t) \<in> set (w_typed w)"

text \<open>A fact that stays as long as the configuration stays.\<close>

definition framed :: "user_machine \<Rightarrow> string \<Rightarrow> (cli_world \<Rightarrow> bool) \<Rightarrow> bool" where
  "framed M d P \<longleftrightarrow> (\<forall>w w'. config_in (m_codec M) d (w_files w') = config_in (m_codec M) d (w_files w)
     \<and> set (w_typed w) \<subseteq> set (w_typed w') \<and> P w \<longrightarrow> P w')"

named_theorems framed_intros

lemma framed_atoms [framed_intros]: "framed M d (\<lambda>_. True)" "framed M d (\<lambda>_. b)" "framed M d (config_is M d c)" "framed M d (typed_for al t)"
  by (auto simp: framed_def config_is_def typed_for_def)

lemma framed_conj [framed_intros]: "framed M d P \<Longrightarrow> framed M d Q \<Longrightarrow> framed M d (\<lambda>w. P w \<and> Q w)"
  unfolding framed_def by blast

lemma pinned_same: "config_in (m_codec M) d fs' = config_in (m_codec M) d fs \<Longrightarrow> pinned M d fs' = pinned M d fs"
  by (simp add: pinned_def fun_eq_iff)

text \<open>A step that leaves configuration and store as they are.\<close>

lemma keeps_desk_same:
  assumes "\<And>w r w'. P w \<Longrightarrow> world_ok M d w \<Longrightarrow> m w = (r, w') \<Longrightarrow> config_in (m_codec M) d (w_files w') = config_in (m_codec M) d (w_files w)
      \<and> stored_rightfully M d w' \<and> private_state (m_user M) d (w_files w') \<and> set (w_typed w) \<subseteq> set (w_typed w')
      \<and> (\<exists>rs. w_sent w' = w_sent w @ rs \<and> list_all (\<lambda>r. rightful_request M d w (sent_origin r) (sent_bearer r)) rs)
      \<and> (\<exists>gs. w_git w' = w_git w @ gs \<and> list_all (\<lambda>g. checked_run M d w (fst g)) gs)"
    and "framed M d P"
  shows "keeps_desk M d P m (\<lambda>w _. P w)"
  unfolding keeps_desk_def
proof (intro allI impI, elim conjE)
  fix w r w'
  assume w: "world_ok M d w" "P w" "m w = (r, w')"
  note a = assms(1) [OF w(2,1,3)]
  then have l: "later_world M d w w'" using pinned_same [of M d "w_files w'" "w_files w"] by (simp add: later_world_def)
  have "list_all (\<lambda>r. rightful_request M d w' (sent_origin r) (sent_bearer r)) (w_sent w')"
    using a w(1) rightful_later [OF l] by (auto simp: world_ok_def list_all_iff)
  moreover have "list_all (\<lambda>g. checked_run M d w' (fst g)) (w_git w')"
  proof -
    have "list_all (\<lambda>g. checked_run M d w (fst g)) (w_git w')" using a w(1) by (auto simp: world_ok_def)
    then show ?thesis by (rule list.pred_mono_strong) (rule checked_later [OF l])
  qed
  moreover have "P w'" using assms(2) a w(2) unfolding framed_def by blast
  ultimately show "world_ok M d w' \<and> later_world M d w w' \<and> (case r of Inl _ \<Rightarrow> True | Inr _ \<Rightarrow> P w')"
    using a l by (simp add: world_ok_def split: sum.split)
qed

lemma os_user [simp]: "effective_user (os_of M X) = m_user M"
  by (simp add: os_of_def)

lemma stored_same:
  "store_in (m_codec M) d (w_files w') = store_in (m_codec M) d (w_files w) \<Longrightarrow> set (w_typed w) \<subseteq> set (w_typed w')
   \<Longrightarrow> stored_rightfully M d w \<Longrightarrow> stored_rightfully M d w'"
  by (auto simp: stored_rightfully_def list_all_iff split: option.splits)

lemma keeps_lock:
  assumes "framed M d P"
  shows "keeps_desk M d P (lock_of M X d) (\<lambda>w _. P w)"
proof (rule keeps_desk_same [OF _ assms])
  fix w r w'
  assume w: "world_ok M d w" "lock_of M X d w = (r, w')"
  then obtain x where x: "acquire (os_of M X) (x_tries X) d (w_files w) = (x, w_files w')" "w_sent w' = w_sent w" "w_typed w' = w_typed w" "w_git w' = w_git w"
    by (auto simp: lock_of_def on_files_def split: prod.splits)
  note a = acquire_in [OF x(1), of "m_codec M"]
  show "config_in (m_codec M) d (w_files w') = config_in (m_codec M) d (w_files w)
      \<and> stored_rightfully M d w' \<and> private_state (m_user M) d (w_files w') \<and> set (w_typed w) \<subseteq> set (w_typed w')
      \<and> (\<exists>rs. w_sent w' = w_sent w @ rs \<and> list_all (\<lambda>r. rightful_request M d w (sent_origin r) (sent_bearer r)) rs)
      \<and> (\<exists>gs. w_git w' = w_git w @ gs \<and> list_all (\<lambda>g. checked_run M d w (fst g)) gs)"
    using a x w(1) stored_same [of M d w' w] acquire_private [OF _ os_user x(1)] by (simp add: world_ok_def)
qed

lemma keeps_load_config:
  "keeps_desk M d P (load_config_of M X d) (\<lambda>w c. P w \<and> config_is M d c w \<and> cfg_version c = 1)"
proof -
  have v: "config_in (m_codec M) d fs = Some c \<Longrightarrow> cfg_version c = 1" for fs c
    by (auto simp: config_in_def default_config_def split: option.splits sum.splits if_splits)
  show ?thesis
    by (auto simp: keeps_desk_def load_config_of_def on_files_def st_check_def config_is_def map_err_Inr_iff
        split: sum.splits dest: load_config_in intro: v)
qed

lemma keeps_load_store:
  "keeps_desk M d P (load_store_of M X d) (\<lambda>w s. P w \<and> list_all (\<lambda>(al, t). typed_for al t w) (cs_api s))"
proof -
  have "world_ok M d w \<Longrightarrow> load_store (m_codec M) (os_of M X) d (w_files w) = Inr s
      \<Longrightarrow> list_all (\<lambda>(al, t). typed_for al t w) (cs_api s)" for w s
    using load_store_in by (fastforce simp: world_ok_def stored_rightfully_def typed_for_def list_all_iff)
  then show ?thesis
    by (auto simp: keeps_desk_def load_store_of_def on_files_def st_check_def map_err_Inr_iff split: sum.splits)
qed

lemma keeps_net:
  assumes "framed M d P" and "\<And>w. P w \<Longrightarrow> rightful_request M d w (cl_origin c) (cl_bearer c)"
    and "\<And>reqs r reqs'. m reqs = (r, reqs') \<Longrightarrow> \<exists>rs. reqs' = reqs @ rs \<and> sends_as c rs"
  shows "keeps_desk M d P (on_net m) (\<lambda>w _. P w)"
proof (rule keeps_desk_same [OF _ assms(1)])
  fix w r w'
  assume w: "P w" "world_ok M d w" "on_net m w = (r, w')"
  then obtain x where x: "m (w_sent w) = (x, w_sent w')" "w_files w' = w_files w" "w_typed w' = w_typed w" "w_git w' = w_git w"
    by (auto simp: on_net_def split: prod.splits)
  from assms(3) [OF x(1)] obtain rs where rs: "w_sent w' = w_sent w @ rs" "sends_as c rs" by blast
  then have "list_all (\<lambda>r. rightful_request M d w (sent_origin r) (sent_bearer r)) rs"
    using assms(2) [OF w(1)] by (auto simp: sends_as_def list_all_iff)
  with x rs w(2) stored_same [of M d w' w] show "config_in (m_codec M) d (w_files w') = config_in (m_codec M) d (w_files w)
      \<and> stored_rightfully M d w' \<and> private_state (m_user M) d (w_files w') \<and> set (w_typed w) \<subseteq> set (w_typed w')
      \<and> (\<exists>rs. w_sent w' = w_sent w @ rs \<and> list_all (\<lambda>r. rightful_request M d w (sent_origin r) (sent_bearer r)) rs)
      \<and> (\<exists>gs. w_git w' = w_git w @ gs \<and> list_all (\<lambda>g. checked_run M d w (fst g)) gs)"
    by (simp add: world_ok_def)
qed

lemma keeps_save_store:
  assumes "codec_roundtrips (m_codec M)" and "framed M d P" and "\<And>w. P w \<Longrightarrow> list_all (\<lambda>(al, t). typed_for al t w) (cs_api s)"
  shows "keeps_desk M d P (save_store_of M X d s) (\<lambda>w _. P w)"
proof (rule keeps_desk_same [OF _ assms(2)])
  fix w r w'
  assume w: "P w" "world_ok M d w" "save_store_of M X d s w = (r, w')"
  then obtain x where x: "save_store (m_codec M) (os_of M X) (x_pid X) d s (w_files w) = (x, w_files w')"
    "w_sent w' = w_sent w" "w_typed w' = w_typed w" "w_git w' = w_git w"
    by (auto simp: save_store_of_def on_files_def split: prod.splits)
  note s = save_store_in [OF assms(1) x(1)]
  have "stored_rightfully M d w'"
    using s(1) w(2) assms(3) [OF w(1)] x(3)
    by (auto simp: world_ok_def stored_rightfully_def typed_for_def list_all_iff split: option.splits)
  then show "config_in (m_codec M) d (w_files w') = config_in (m_codec M) d (w_files w)
      \<and> stored_rightfully M d w' \<and> private_state (m_user M) d (w_files w') \<and> set (w_typed w) \<subseteq> set (w_typed w')
      \<and> (\<exists>rs. w_sent w' = w_sent w @ rs \<and> list_all (\<lambda>r. rightful_request M d w (sent_origin r) (sent_bearer r)) rs)
      \<and> (\<exists>gs. w_git w' = w_git w @ gs \<and> list_all (\<lambda>g. checked_run M d w (fst g)) gs)"
    using s(3) x w(2) save_private(2) [OF _ os_user x(1)] by (simp add: world_ok_def)
qed

text \<open>A configuration that points every alias of another one to where it pointed.\<close>

definition keeps_pins :: "cli_config \<Rightarrow> cli_config \<Rightarrow> bool" where
  "keeps_pins c c' \<longleftrightarrow> (\<forall>al s. hget (cfg_servers c) al = Some s \<longrightarrow> (\<exists>s'. hget (cfg_servers c') al = Some s'
     \<and> srv_base_url s' = srv_base_url s \<and> srv_server_id s' = srv_server_id s))"

lemma keeps_save_config:
  assumes "codec_roundtrips (m_codec M)" and "cfg_version c' = 1" and "keeps_pins c c'"
    and "\<And>w. P w \<Longrightarrow> config_is M d c w"
  shows "keeps_desk M d P (save_config_of M X d c') (\<lambda>_ _. True)"
  unfolding keeps_desk_def
proof (intro allI impI, elim conjE)
  fix w r w'
  assume w: "world_ok M d w" "P w" "save_config_of M X d c' w = (r, w')"
  then obtain x where x: "save_config (m_codec M) (os_of M X) (x_pid X) d c' (w_files w) = (x, w_files w')"
    "w_sent w' = w_sent w" "w_typed w' = w_typed w" "w_git w' = w_git w"
    by (auto simp: save_config_of_def on_files_def split: prod.splits)
  note s = save_config_in [OF assms(1) x(1) assms(2)]
  have c: "config_in (m_codec M) d (w_files w) = Some c" using assms(4) [OF w(2)] by (simp add: config_is_def)
  have l: "later_world M d w w'"
    using s(1) c assms(3) x(3) by (fastforce simp: later_world_def pinned_def keeps_pins_def)
  have "list_all (\<lambda>r. rightful_request M d w' (sent_origin r) (sent_bearer r)) (w_sent w')"
    using w(1) x(2) rightful_later [OF l] by (auto simp: world_ok_def list_all_iff)
  moreover have "list_all (\<lambda>g. checked_run M d w' (fst g)) (w_git w')"
    using w(1) unfolding world_ok_def x(4) by (elim conjE list.pred_mono_strong) (rule checked_later [OF l])
  ultimately show "world_ok M d w' \<and> later_world M d w w' \<and> (case r of Inl _ \<Rightarrow> True | Inr _ \<Rightarrow> True)"
    using l w(1) s(3) x(3) stored_same [of M d w' w] save_private(1) [OF _ os_user x(1)]
    by (simp add: world_ok_def split: sum.split)
qed

section \<open>The commands\<close>

definition rightful_client :: "user_machine \<Rightarrow> string \<Rightarrow> c6_client \<Rightarrow> cli_world \<Rightarrow> bool" where
  "rightful_client M d c w \<longleftrightarrow> rightful_request M d w (cl_origin c) (cl_bearer c)"

lemma framed_client [framed_intros]: "framed M d (rightful_client M d c)"
proof -
  have "rightful_request M d w' u b" if "rightful_request M d w u b" "set (w_typed w) \<subseteq> set (w_typed w')"
    "config_in (m_codec M) d (w_files w') = config_in (m_codec M) d (w_files w)" for w w' u b
    using that pinned_same [OF that(3)] by (intro rightful_later [OF _ that(1)]) (simp add: later_world_def)
  then show ?thesis unfolding framed_def rightful_client_def by blast
qed

lemma new_client_fields: "new_client X u b = Inr c \<Longrightarrow> cl_origin c = u \<and> cl_bearer c = b"
  by (auto simp: new_client_def client_new_def map_err_Inr_iff split: option.splits)

lemma anonymous_client: "new_client X u None = Inr c \<Longrightarrow> rightful_client M d c w"
  by (auto simp: rightful_client_def rightful_request_def dest: new_client_fields)

lemma selected_server_Inr: "selected_server c al = Inr (a, s) \<Longrightarrow> hget (cfg_servers c) a = Some s"
  by (auto simp: selected_server_def rbind_Inr_iff ok_or_Inr_iff)

lemma token_client:
  assumes "config_is M d c w" and "selected_server c requested = Inr (al, s)" and "typed_for al t w"
    and "origin_of M (srv_base_url s) (srv_allow_http s) = Inr u" and "new_client X u (Some t) = Inr cl"
  shows "rightful_client M d cl w"
proof -
  have "pinned M d (w_files w) al = Some (srv_base_url s, srv_server_id s)"
    using assms(1) selected_server_Inr [OF assms(2)] by (simp add: pinned_def config_is_def)
  moreover have "parse_origin (m_parse M) (srv_base_url s) (srv_allow_http s) = Inr u"
    using assms(4) by (simp add: origin_of_def map_err_Inr_iff)
  ultimately show ?thesis
    using assms(3) new_client_fields [OF assms(5)]
    unfolding rightful_client_def rightful_request_def typed_for_def by (simp, blast)
qed

lemma desk_check: "keeps_desk M d P (cli_check r) (\<lambda>w a. P w \<and> r = Inr a)"
  by (rule keeps_desk_check) simp

lemma keeps_end: "keeps_desk M d P (cli_return a) (\<lambda>_ _. True)" "keeps_desk M d P (cli_check r) (\<lambda>_ _. True)"
  "keeps_desk M d P (give X v) (\<lambda>_ _. True)"
  by (simp_all add: keeps_desk_return keeps_desk_check give_def)

lemma keeps_requests:
  assumes "framed M d P" and "\<And>w. P w \<Longrightarrow> rightful_client M d c w"
  shows "keeps_desk M d P (on_net (whoami J net c)) (\<lambda>w _. P w)"
    and "keeps_desk M d P (on_net (server_status_of J net c)) (\<lambda>w _. P w)"
    and "keeps_desk M d P (on_net (projects_of J net c)) (\<lambda>w _. P w)"
    and "keeps_desk M d P (on_net (project_remote_of J parse ut net c k)) (\<lambda>w _. P w)"
  by (rule keeps_net [OF assms(1) assms(2) [unfolded rightful_client_def]], assumption, erule client_sends)+

lemma keeps_note: "framed M d P \<Longrightarrow> keeps_desk M d P (note_typed al t) (\<lambda>w _. P w \<and> typed_for al t w)"
proof -
  assume f: "framed M d P"
  have "keeps_desk M d P (note_typed al t) (\<lambda>w _. P w)"
  proof (rule keeps_desk_same [OF _ f])
    fix w r w'
    assume w: "world_ok M d w" "note_typed al t w = (r, w')"
    then have e: "w' = w\<lparr>w_typed := w_typed w @ [(al, t)]\<rparr>" by (simp add: note_typed_def)
    have "stored_rightfully M d w'" by (rule stored_same [of M d w' w]) (use w(1) in \<open>auto simp: e world_ok_def\<close>)
    with w(1) show "config_in (m_codec M) d (w_files w') = config_in (m_codec M) d (w_files w)
      \<and> stored_rightfully M d w' \<and> private_state (m_user M) d (w_files w') \<and> set (w_typed w) \<subseteq> set (w_typed w')
      \<and> (\<exists>rs. w_sent w' = w_sent w @ rs \<and> list_all (\<lambda>r. rightful_request M d w (sent_origin r) (sent_bearer r)) rs)
      \<and> (\<exists>gs. w_git w' = w_git w @ gs \<and> list_all (\<lambda>g. checked_run M d w (fst g)) gs)"
      by (auto simp: e world_ok_def)
  qed
  then show ?thesis by (auto simp: keeps_desk_def note_typed_def typed_for_def)
qed

lemmas keeps_binds = keeps_desk_then [OF desk_check] keeps_desk_then [OF keeps_lock] keeps_desk_then [OF keeps_load_config]
  keeps_desk_then [OF keeps_load_store] keeps_desk_then [OF keeps_requests(1)] keeps_desk_then [OF keeps_requests(2)]
  keeps_desk_then [OF keeps_requests(3)] keeps_desk_then [OF keeps_requests(4)] keeps_desk_then [OF keeps_note]

lemma keeps_authenticated:
  "keeps_desk M d (\<lambda>_. True) (authenticated_client M X d requested)
     (\<lambda>w p. rightful_client M d (snd p) w \<and> cl_bearer (snd p) \<noteq> None)"
  unfolding authenticated_client_def split_def
proof (intro keeps_binds keeps_desk_return)
  fix c p s t u cl w
  assume "(((((True \<and> config_is M d c w \<and> cfg_version c = 1) \<and> selected_server c requested = Inr p)
      \<and> list_all (\<lambda>(al, t). typed_for al t w) (cs_api s)) \<and> ok_or Authentication (api_token (fst p) s) = Inr t)
      \<and> origin_of M (srv_base_url (snd p)) (srv_allow_http (snd p)) = Inr u) \<and> new_client X u (Some t) = Inr cl"
  then show "rightful_client M d (snd (fst p, cl)) w \<and> cl_bearer (snd (fst p, cl)) \<noteq> None"
    using token_client [of M d c w requested "fst p" "snd p" t u X cl] new_client_fields [of X u "Some t" cl]
    by (auto simp: api_token_def list_all_iff ok_or_Inr_iff dest: map_of_SomeD)
qed

lemma add_server_pins: "add_server al s c = Inr c' \<Longrightarrow> keeps_pins c c' \<and> cfg_version c' = cfg_version c"
  by (auto simp: add_server_def keeps_pins_def hget_tput rbind_Inr_iff fail_if_def split: option.splits if_splits)

lemma keeps_bind_save_config:
  assumes "codec_roundtrips (m_codec M)" and "\<And>w. P w \<Longrightarrow> cfg_version c' = 1 \<and> keeps_pins c c' \<and> config_is M d c w"
    and "keeps_desk M d (\<lambda>_. True) k R"
  shows "keeps_desk M d P (st_then (save_config_of M X d c') (\<lambda>_. k)) R"
proof (rule keeps_desk_fact)
  show "cfg_version c' = 1 \<and> keeps_pins c c'" if "P w" for w using assms(2) [OF that] by simp
  assume "cfg_version c' = 1 \<and> keeps_pins c c'"
  then have "keeps_desk M d P (save_config_of M X d c') (\<lambda>_ _. True)"
    using assms(2) by (intro keeps_save_config [OF assms(1), of _ c]) auto
  then show "keeps_desk M d P (st_then (save_config_of M X d c') (\<lambda>_. k)) R"
    by (rule keeps_desk_then) (rule assms(3))
qed

lemma same_servers_pins: "cfg_servers c' = cfg_servers c \<Longrightarrow> keeps_pins c c'"
  by (simp add: keeps_pins_def)

lemma keeps_server_add:
  assumes "codec_roundtrips (m_codec M)"
  shows "keeps_desk M d (\<lambda>_. True) (server_add M X d text name allow) (\<lambda>_ _. True)"
  unfolding server_add_def Let_def
  apply (intro keeps_binds framed_intros)
   apply (blast intro: anonymous_client)
  subgoal for u cl st v v' c c'
    by (rule keeps_bind_save_config [OF assms _ keeps_end(3), of _ c' c]) (use add_server_pins [of _ _ c c'] in fastforce)
  done

lemma keeps_server_use:
  assumes "codec_roundtrips (m_codec M)"
  shows "keeps_desk M d (\<lambda>_. True) (server_use M X d al) (\<lambda>_ _. True)"
  unfolding server_use_def
  apply (intro keeps_binds framed_intros)
  subgoal for v c v'
    by (rule keeps_bind_save_config [OF assms _ keeps_end(3), of _ _ c]) (simp add: same_servers_pins)
  done

lemma keeps_reading:
  "keeps_desk M d (\<lambda>_. True) (server_list M X d) (\<lambda>_ _. True)"
  "keeps_desk M d (\<lambda>_. True) (doctor M X d requested) (\<lambda>_ _. True)"
  "keeps_desk M d (\<lambda>_. True) (auth_status M X d requested) (\<lambda>_ _. True)"
  "keeps_desk M d (\<lambda>_. True) (cli_project_list M X d requested workspace) (\<lambda>_ _. True)"
proof -
  show "keeps_desk M d (\<lambda>_. True) (server_list M X d) (\<lambda>_ _. True)"
    unfolding server_list_def by (intro keeps_binds keeps_end)
  show "keeps_desk M d (\<lambda>_. True) (doctor M X d requested) (\<lambda>_ _. True)"
    unfolding doctor_def split_def
    by (intro keeps_binds keeps_end framed_intros) (blast intro: anonymous_client)
  show "keeps_desk M d (\<lambda>_. True) (auth_status M X d requested) (\<lambda>_ _. True)"
    unfolding auth_status_def split_def
    by (intro keeps_desk_then [OF keeps_authenticated] keeps_binds keeps_end framed_intros) (elim conjE, assumption)
  show "keeps_desk M d (\<lambda>_. True) (cli_project_list M X d requested workspace) (\<lambda>_ _. True)"
    unfolding cli_project_list_def split_def
    by (intro keeps_desk_then [OF keeps_authenticated] keeps_binds framed_intros, elim conjE, assumption, elim conjE, assumption)
      (cases workspace; simp; intro keeps_binds keeps_end)
qed

lemma keeps_login_check:
  "keeps_desk M d (\<lambda>_. True) (login_check M X d requested stdin plain) (\<lambda>w l. typed_for (log_alias l) (log_token l) w)"
  unfolding login_check_def split_def
  by (intro keeps_binds keeps_desk_return framed_intros) (auto intro: token_client)

lemma typed_set_token:
  "list_all (\<lambda>(al, t). typed_for al t w) (cs_api s) \<Longrightarrow> typed_for al t w
   \<Longrightarrow> list_all (\<lambda>(al, t). typed_for al t w) (cs_api (set_api_token al t s))"
proof -
  have "set (tput al t m) \<subseteq> insert (al, t) (set m)" for m by (induction m) auto
  then show "list_all (\<lambda>(al, t). typed_for al t w) (cs_api s) \<Longrightarrow> typed_for al t w
    \<Longrightarrow> list_all (\<lambda>(al, t). typed_for al t w) (cs_api (set_api_token al t s))"
    by (fastforce simp: set_api_token_def list_all_iff)
qed

lemma framed_store [framed_intros]: "framed M d (\<lambda>w. list_all (\<lambda>(al, t). typed_for al t w) m)"
  unfolding framed_def typed_for_def list_all_iff by fast

lemma keeps_login_store:
  assumes "codec_roundtrips (m_codec M)"
  shows "keeps_desk M d (typed_for (log_alias l) (log_token l)) (login_store M X d l) (\<lambda>_ _. True)"
  unfolding login_store_def split_def
  apply (intro keeps_binds framed_intros)
  subgoal for v c p v' s
    by (rule keeps_desk_then [OF keeps_save_store [OF assms]])
      (intro framed_intros, simp add: typed_set_token, rule keeps_bind_save_config [OF assms _ keeps_end(3), of _ _ c],
        simp add: same_servers_pins)
  done

lemma typed_remove_token:
  "list_all (\<lambda>(al, t). typed_for al t w) (cs_api s) \<Longrightarrow> list_all (\<lambda>(al, t). typed_for al t w) (cs_api (snd (remove_api_token al s)))"
  by (auto simp: remove_api_token_def list_all_iff AList.delete_eq)

lemma keeps_logout:
  assumes "codec_roundtrips (m_codec M)"
  shows "keeps_desk M d (\<lambda>_. True) (auth_logout M X d requested) (\<lambda>_ _. True)"
  unfolding auth_logout_def split_def Let_def
  apply (intro keeps_binds framed_intros)
  subgoal for v c p s
    by (rule keeps_desk_then [OF keeps_save_store [OF assms]])
      (intro framed_intros, simp add: typed_remove_token, rule keeps_end)
  done

section \<open>Running Git\<close>

lemma keeps_git:
  assumes "framed M d P" and "\<And>w. P w \<Longrightarrow> checked_run M d w argv"
  shows "keeps_desk M d P (cli_run_git X argv) (\<lambda>w _. P w)"
proof (rule keeps_desk_same [OF _ assms(1)])
  fix w r w'
  assume w: "P w" "world_ok M d w" "cli_run_git X argv w = (r, w')"
  then have e: "w' = w\<lparr>w_git := w_git w @ [(argv, x_json X)]\<rparr>" by (simp add: cli_run_git_def)
  have "stored_rightfully M d w'" by (rule stored_same [of M d w' w]) (use w(2) in \<open>auto simp: e world_ok_def\<close>)
  with w assms(2) [OF w(1)] show "config_in (m_codec M) d (w_files w') = config_in (m_codec M) d (w_files w)
      \<and> stored_rightfully M d w' \<and> private_state (m_user M) d (w_files w') \<and> set (w_typed w) \<subseteq> set (w_typed w')
      \<and> (\<exists>rs. w_sent w' = w_sent w @ rs \<and> list_all (\<lambda>r. rightful_request M d w (sent_origin r) (sent_bearer r)) rs)
      \<and> (\<exists>gs. w_git w' = w_git w @ gs \<and> list_all (\<lambda>g. checked_run M d w (fst g)) gs)"
    by (simp add: e world_ok_def)
qed

lemma keeps_git_ok:
  assumes "framed M d P" and "\<And>w. P w \<Longrightarrow> checked_run M d w argv"
  shows "keeps_desk M d P (cli_git_ok X argv) (\<lambda>w _. P w)"
  unfolding cli_git_ok_def
  by (rule keeps_desk_then [OF keeps_git [OF assms]], assumption) (rule keeps_desk_check, simp)

lemma keeps_git_all:
  assumes "framed M d P" and "\<And>w a. P w \<Longrightarrow> a \<in> set as \<Longrightarrow> checked_run M d w a"
  shows "keeps_desk M d P (git_all X as) (\<lambda>w _. P w)"
  using assms(2)
proof (induction as)
  case Nil
  then show ?case by (simp add: keeps_desk_return)
next
  case (Cons a as)
  show ?case unfolding git_all.simps
    by (rule keeps_desk_then [OF keeps_git_ok [OF assms(1)]]) (use Cons in auto)
qed

text \<open>The remote of a project, on the origin of its alias.\<close>

definition checked_remote_url :: "user_machine \<Rightarrow> string \<Rightarrow> string \<Rightarrow> git_credential_config \<Rightarrow> cli_world \<Rightarrow> bool" where
  "checked_remote_url M d remote k w \<longleftrightarrow> git_credential_config_of (m_parse M) remote = Inr k
     \<and> (\<exists>al base sid allow u v. pinned M d (w_files w) al = Some (base, sid) \<and> parse_origin (m_parse M) base allow = Inr u
       \<and> m_parse M remote = Some v \<and> matches_url u v)"

lemma framed_remote [framed_intros]: "framed M d (checked_remote_url M d remote k)"
  unfolding framed_def checked_remote_url_def using pinned_same by metis

lemma checked_runs:
  assumes "checked_remote_url M d remote k w"
  shows "checked_run M d w (clone_argv k remote dir)" and "a \<in> set (remote_argvs k remote name) \<Longrightarrow> checked_run M d w a"
  using assms unfolding checked_run_def checked_remote_url_def by blast+

lemma keeps_desk_result:
  assumes "keeps_desk M d P m Q" and "\<And>w a w'. m w = (Inr a, w') \<Longrightarrow> B a"
  shows "keeps_desk M d P m (\<lambda>w a. Q w a \<and> B a)"
  unfolding keeps_desk_def
proof (intro allI impI, elim conjE)
  fix w r w'
  assume w: "world_ok M d w" "P w" "m w = (r, w')"
  then have "world_ok M d w' \<and> later_world M d w w' \<and> (case r of Inl _ \<Rightarrow> True | Inr a \<Rightarrow> Q w' a)"
    using assms(1) unfolding keeps_desk_def by blast
  with assms(2) w(3) show "world_ok M d w' \<and> later_world M d w w' \<and> (case r of Inl _ \<Rightarrow> True | Inr a \<Rightarrow> Q w' a \<and> B a)"
    by (cases r) auto
qed

lemma keeps_resolve:
  "keeps_desk M d (\<lambda>w. rightful_client M d c w \<and> b) (resolve_project M X c reference) (\<lambda>w _. rightful_client M d c w \<and> b)"
  unfolding resolve_project_def split_def
  by (intro keeps_binds keeps_desk_return framed_intros) simp_all

lemma remote_is_checked:
  "on_net (project_remote_of J parse ut net c k) w = (Inr r, w') \<Longrightarrow> checked_remote parse (cl_origin c) k r = Inr r"
  by (auto simp: on_net_def map_err_Inr_iff split: prod.splits dest: project_remote_checked)

lemma remote_on_origin:
  assumes "rightful_client M d c w" and "cl_bearer c \<noteq> None" and "checked_remote (m_parse M) (cl_origin c) k r = Inr r"
    and "git_credential_config_of (m_parse M) (rem_clone_url r) = Inr g"
  shows "checked_remote_url M d (rem_clone_url r) g w"
proof -
  obtain t al base sid allow where p: "pinned M d (w_files w) al = Some (base, sid)" "parse_origin (m_parse M) base allow = Inr (cl_origin c)"
    using assms(1,2) unfolding rightful_client_def rightful_request_def by (cases "cl_bearer c") auto
  obtain v where "m_parse M (rem_clone_url r) = Some v" "matches_url (cl_origin c) v"
    using assms(3) by (auto simp: checked_remote_def rbind_Inr_iff ok_or_Inr_iff)
  with p assms(4) show ?thesis unfolding checked_remote_url_def by blast
qed

lemma keeps_fetchable:
  "keeps_desk M d (\<lambda>_. True) (fetchable_remote M X d requested reference) (\<lambda>w p. checked_remote_url M d (fst (snd p)) (snd (snd p)) w)"
  unfolding fetchable_remote_def split_def
proof (rule keeps_desk_then [OF keeps_authenticated], rule keeps_desk_then [OF keeps_resolve])
  fix p :: "string \<times> c6_client" and q :: "who_am_i \<times> project_summary"
  let ?c = "snd p"
  let ?P = "\<lambda>w. rightful_client M d ?c w \<and> cl_bearer ?c \<noteq> None"
  have n: "keeps_desk M d ?P (on_net (project_remote_of (m_json M) (m_parse M) (m_uuid_text M) (x_net X) ?c (psum_id (snd q))))
      (\<lambda>w r. ?P w \<and> checked_remote (m_parse M) (cl_origin ?c) (psum_id (snd q)) r = Inr r)"
    by (rule keeps_desk_result [OF keeps_requests(4)]) (intro framed_intros, blast, rule remote_is_checked)
  show "keeps_desk M d ?P
     (st_then (on_net (project_remote_of (m_json M) (m_parse M) (m_uuid_text M) (x_net X) ?c (psum_id (snd q)))) (\<lambda>r.
      st_then (cli_check (fail_if (\<not> can_fetch (rem_capabilities r)) Forbidden)) (\<lambda>_.
      st_then (cli_check (git_credential_config_of (m_parse M) (rem_clone_url r)))
        (\<lambda>k. cli_return (psum_id (snd q), rem_clone_url r, k)))))
     (\<lambda>w p. checked_remote_url M d (fst (snd p)) (snd (snd p)) w)"
    by (rule keeps_desk_then [OF n], intro keeps_binds keeps_desk_return) (auto intro: remote_on_origin)
qed

lemma keeps_clone:
  "keeps_desk M d (\<lambda>_. True) (clone_command M X d reference dir requested) (\<lambda>_ _. True)"
  "keeps_desk M d (\<lambda>_. True) (remote_add M X d reference name requested) (\<lambda>_ _. True)"
proof -
  show "keeps_desk M d (\<lambda>_. True) (clone_command M X d reference dir requested) (\<lambda>_ _. True)"
    unfolding clone_command_def split_def
    by (rule keeps_desk_then [OF keeps_fetchable], rule keeps_desk_then [OF keeps_git_ok])
      (intro framed_intros, erule checked_runs, rule keeps_end)
  have f: "keeps_desk M d (\<lambda>_. True \<and> b) (fetchable_remote M X d requested reference)
      (\<lambda>w p. checked_remote_url M d (fst (snd p)) (snd (snd p)) w)" for b
    by (rule keeps_desk_pre [OF keeps_fetchable]) simp
  show "keeps_desk M d (\<lambda>_. True) (remote_add M X d reference name requested) (\<lambda>_ _. True)"
    unfolding remote_add_def split_def
    by (rule keeps_desk_then [OF desk_check], rule keeps_desk_then [OF f], rule keeps_desk_then [OF keeps_git_all])
      (intro framed_intros, erule (1) checked_runs, rule keeps_end)
qed

lemma keeps_execute:
  assumes "codec_roundtrips (m_codec M)"
  shows "keeps_desk M d (\<lambda>_. True) (cli_execute M X d cmd) (\<lambda>_ _. True)"
  unfolding cli_execute_def auth_login_def
  by (auto split: command.split server_command.split auth_command.split
      intro!: keeps_end keeps_server_add [OF assms] keeps_server_use [OF assms] keeps_reading keeps_clone keeps_logout [OF assms]
        keeps_desk_then [OF keeps_login_check keeps_login_store [OF assms]])

section \<open>The credential helper\<close>

text \<open>What a run of the helper can do to the files: only the tokens of Git change.\<close>

definition helper_change :: "cli_codec \<Rightarrow> nat \<Rightarrow> string \<Rightarrow> local_tree \<Rightarrow> local_tree \<Rightarrow> bool" where
  "helper_change C uid d fs fs' \<longleftrightarrow> (private_state uid d fs \<longrightarrow> private_state uid d fs')
     \<and> config_in C d fs' = config_in C d fs \<and> map_option cs_api (store_in C d fs') = map_option cs_api (store_in C d fs)"

lemma helper_change_refl [simp]: "helper_change C uid d fs fs"
  by (simp add: helper_change_def)

lemma save_tokens_change:
  assumes "codec_roundtrips (env_codec E)" and "effective_user (env_os E) = uid" and "save_tokens E d s' fs = (r, fs')"
    and "store_in (env_codec E) d fs = Some s" and "cs_api s' = cs_api s"
  shows "helper_change (env_codec E) uid d fs fs'"
proof -
  obtain x where x: "save_store (env_codec E) (env_os E) (env_pid E) d s' fs = (x, fs')"
    using assms(3) by (auto simp: save_tokens_def split: prod.splits sum.splits)
  show ?thesis
    using save_store_in [OF assms(1) x] save_private(2) [OF _ assms(2) x] assms(4,5) by (auto simp: helper_change_def)
qed

lemma helper_operation_change:
  assumes "codec_roundtrips (env_codec E)" and "effective_user (env_os E) = uid"
    and "helper_operation E d operation m c al path s fs = (r, fs')" and "store_in (env_codec E) d fs = Some s"
  shows "helper_change (env_codec E) uid d fs fs'"
proof -
  have "cs_api (set_git_token al path t s) = cs_api s" "cs_api (snd (remove_git_token al path s)) = cs_api s" for t
    by (simp_all add: set_git_token_def remove_git_token_def Let_def)
  then have "fs' = fs \<or> (\<exists>s'. save_tokens E d s' fs = (r, fs') \<and> cs_api s' = cs_api s)"
    using assms(3) by (auto simp: helper_operation_def split: if_splits option.splits prod.splits bool.splits)
  with save_tokens_change [OF assms(1,2) _ assms(4)] show ?thesis by auto
qed

lemma helper_serve_change:
  assumes "codec_roundtrips (env_codec E)" and "effective_user (env_os E) = uid"
    and "helper_serve E operation m origin path d fs = (r, fs')"
  shows "helper_change (env_codec E) uid d fs fs'"
proof -
  obtain x fs1 where a: "acquire (env_os E) (env_tries E) d fs = (x, fs1)" by fastforce
  have one: "helper_change (env_codec E) uid d fs fs1"
    using acquire_in [OF a, of "env_codec E"] acquire_private [OF _ assms(2) a] by (simp add: helper_change_def)
  have "fs' = fs1 \<or> (\<exists>c al s. load_store (env_codec E) (env_os E) d fs1 = Inr s
      \<and> helper_operation E d operation m c al path s fs1 = (r, fs'))"
    using assms(3) a
    by (cases x; cases "load_state_config (env_codec E) (env_os E) d fs1"; cases "load_store (env_codec E) (env_os E) d fs1")
      (auto simp: helper_serve_def st_then_def st_check_def split: option.splits)
  then show ?thesis
  proof
    assume "\<exists>c al s. load_store (env_codec E) (env_os E) d fs1 = Inr s \<and> helper_operation E d operation m c al path s fs1 = (r, fs')"
    then obtain c al s where s: "load_store (env_codec E) (env_os E) d fs1 = Inr s"
      "helper_operation E d operation m c al path s fs1 = (r, fs')" by blast
    have "helper_change (env_codec E) uid d fs1 fs'"
      by (rule helper_operation_change [OF assms(1,2) s(2) load_store_in [OF s(1)]])
    with one show ?thesis by (auto simp: helper_change_def)
  qed (simp add: one)
qed

lemma helper_execute_change:
  assumes "codec_roundtrips (env_codec E)" and "effective_user (env_os E) = uid"
    and "discover (env_dir_var E) (env_dir_platform E) = Inr d" and "helper_execute E operation inp fs = (r, fs')"
  shows "helper_change (env_codec E) uid d fs fs'"
proof (cases "helper_request E operation inp")
  case (Inl e)
  with assms(4) show ?thesis by (auto simp: helper_execute_def st_then_def st_check_def)
next
  case (Inr q)
  obtain op m target where q: "q = (op, m, target)" by (cases q)
  have "fs' = fs \<or> (\<exists>origin path. helper_serve E op m origin path d fs = (r, fs'))"
    using assms(3,4) Inr q by (auto simp: helper_execute_def st_then_def st_check_def split: option.splits if_splits)
  with helper_serve_change [OF assms(1,2)] show ?thesis by auto
qed

section \<open>Every history\<close>

definition desk_ok :: "user_machine \<Rightarrow> string \<Rightarrow> desk \<Rightarrow> bool" where
  "desk_ok M d k \<longleftrightarrow> world_ok M d (d_world k) \<and> list_all (\<lambda>l. typed_for (log_alias l) (log_token l) (d_world k)) (d_logins k)"

lemma keepsD: "keeps_desk M d P m Q \<Longrightarrow> world_ok M d w \<Longrightarrow> P w \<Longrightarrow> m w = (r, w')
    \<Longrightarrow> world_ok M d w' \<and> later_world M d w w' \<and> (case r of Inl _ \<Rightarrow> True | Inr a \<Rightarrow> Q w' a)"
  unfolding keeps_desk_def by blast

lemma typed_later: "later_world M d w w' \<Longrightarrow> list_all (\<lambda>l. typed_for (log_alias l) (log_token l) w) ls
    \<Longrightarrow> list_all (\<lambda>l. typed_for (log_alias l) (log_token l) w') ls"
  by (auto simp: later_world_def typed_for_def list_all_iff)

lemma helper_step_ok:
  assumes "codec_roundtrips (m_codec M)" and "d \<noteq> []" and "world_ok M d w"
  shows "let w' = w\<lparr>w_files := snd (helper_execute (helper_env M X d) operation inp (w_files w))\<rparr> in
     world_ok M d w' \<and> later_world M d w w'"
proof -
  obtain r fs' where h: "helper_execute (helper_env M X d) operation inp (w_files w) = (r, fs')" by fastforce
  have "helper_change (m_codec M) (m_user M) d (w_files w) fs'"
    using helper_execute_change [OF _ _ _ h, of "m_user M" d] assms(1,2) by (simp add: helper_env_def discover_def)
  then have c: "private_state (m_user M) d (w_files w) \<longrightarrow> private_state (m_user M) d fs'"
    "config_in (m_codec M) d fs' = config_in (m_codec M) d (w_files w)"
    "map_option cs_api (store_in (m_codec M) d fs') = map_option cs_api (store_in (m_codec M) d (w_files w))"
    by (simp_all add: helper_change_def)
  have l: "later_world M d w (w\<lparr>w_files := fs'\<rparr>)"
    using pinned_same [OF c(2)] by (simp add: later_world_def)
  have s: "stored_rightfully M d (w\<lparr>w_files := fs'\<rparr>)"
    using assms(3) c(3) by (auto simp: world_ok_def stored_rightfully_def split: option.splits)
  have "list_all (\<lambda>r. rightful_request M d (w\<lparr>w_files := fs'\<rparr>) (sent_origin r) (sent_bearer r)) (w_sent w)"
    using assms(3) rightful_later [OF l] by (auto simp: world_ok_def list_all_iff)
  moreover have "list_all (\<lambda>g. checked_run M d (w\<lparr>w_files := fs'\<rparr>) (fst g)) (w_git w)"
    using assms(3) unfolding world_ok_def by (elim conjE list.pred_mono_strong) (rule checked_later [OF l])
  ultimately show ?thesis using l s c(1) assms(3) h by (simp add: world_ok_def)
qed

lemma desk_step_ok:
  assumes "codec_roundtrips (m_codec M)" and "d \<noteq> []" and "desk_ok M d k"
  shows "desk_ok M d (desk_step M d e k) \<and> later_world M d (d_world k) (d_world (desk_step M d e k))"
proof -
  have w: "world_ok M d (d_world k)" using assms(3) by (simp add: desk_ok_def)
  have ls: "list_all (\<lambda>l. typed_for (log_alias l) (log_token l) (d_world k)) (d_logins k)" using assms(3) by (simp add: desk_ok_def)
  show ?thesis
  proof (cases e)
    case (RunCommand X cmd)
    obtain r w' where x: "cli_execute M X d cmd (d_world k) = (r, w')" by fastforce
    from keepsD [OF keeps_execute [OF assms(1)] w _ x] typed_later [of M d "d_world k" w', OF _ ls] RunCommand x
    show ?thesis by (simp add: desk_step_def desk_ok_def)
  next
    case (CheckLogin X al stdin plain)
    obtain r w' where x: "login_check M X d al stdin plain (d_world k) = (r, w')" by fastforce
    from keepsD [OF keeps_login_check w _ x] typed_later [of M d "d_world k" w', OF _ ls] CheckLogin x
    show ?thesis by (cases r) (simp_all add: desk_step_def desk_ok_def)
  next
    case (StoreLogin X i)
    show ?thesis
    proof (cases "i < length (d_logins k)")
      case True
      let ?l = "d_logins k ! i"
      obtain r w' where x: "login_store M X d ?l (d_world k) = (r, w')" by fastforce
      have t: "typed_for (log_alias ?l) (log_token ?l) (d_world k)" using ls True by (simp add: list_all_length)
      from keepsD [OF keeps_login_store [OF assms(1)] w t x] typed_later [of M d "d_world k" w', OF _ ls] StoreLogin True x
      show ?thesis by (simp add: desk_step_def desk_ok_def)
    next
      case False
      with StoreLogin assms(3) show ?thesis by (simp add: desk_step_def)
    qed
  next
    case (RunHelper X operation inp)
    let ?w = "(d_world k)\<lparr>w_files := snd (helper_execute (helper_env M X d) operation inp (w_files (d_world k)))\<rparr>"
    have h: "world_ok M d ?w" "later_world M d (d_world k) ?w"
      using helper_step_ok [OF assms(1,2) w, of X operation inp] by (simp_all add: Let_def)
    from h typed_later [OF h(2) ls] RunHelper show ?thesis by (simp add: desk_step_def desk_ok_def)
  qed
qed

lemma desk_run_ok:
  assumes "codec_roundtrips (m_codec M)" and "d \<noteq> []" and "desk_ok M d k"
  shows "desk_ok M d (desk_run M d evs k) \<and> later_world M d (d_world k) (d_world (desk_run M d evs k))"
  using assms(3)
proof (induction evs arbitrary: k)
  case Nil
  then show ?case by (simp add: desk_run_def)
next
  case (Cons e evs)
  note s = desk_step_ok [OF assms(1,2) Cons.prems, of e]
  from Cons.IH [OF conjunct1 [OF s]] s show ?case by (auto simp: desk_run_def intro: later_trans)
qed

definition fresh_machine :: "string \<Rightarrow> local_tree \<Rightarrow> bool" where
  "fresh_machine d fs \<longleftrightarrow> list_all (\<lambda>p. hget fs p = None) [config_path d, credentials_path d, lock_path d]"

lemma new_desk_ok: "fresh_machine d fs \<Longrightarrow> desk_ok M d (new_desk fs)"
  by (auto simp: fresh_machine_def desk_ok_def new_desk_def world_ok_def private_state_def stored_rightfully_def store_in_def)

text \<open>
  C6: after any history of commands and helpers on a machine, logins overtaken between their two
  parts included, whatever the servers answer and whichever system calls fail: every bearer token
  that was ever sent went to the origin that is configured for the alias it was typed in for, every
  token in the store was typed in for its alias, Git was only run with remotes on the origin of a
  configured alias, and the three state files are regular files that only their owner can open.
\<close>

theorem tokens_go_where_they_belong:
  assumes "codec_roundtrips (m_codec M)" and "d \<noteq> []" and "fresh_machine d fs"
  shows "world_ok M d (d_world (desk_run M d evs (new_desk fs)))"
  using desk_run_ok [OF assms(1,2) new_desk_ok [OF assms(3)]] by (simp add: desk_ok_def)

text \<open>
  C31: an alias is never pointed elsewhere: once the configuration has a base address and a server
  identity for it, no later history of commands changes either.
\<close>

theorem aliases_stay_pinned:
  assumes "codec_roundtrips (m_codec M)" and "d \<noteq> []" and "fresh_machine d fs"
    and "pinned M d (w_files (d_world (desk_run M d evs (new_desk fs)))) al = Some p"
  shows "pinned M d (w_files (d_world (desk_run M d (evs @ rest) (new_desk fs)))) al = Some p"
proof -
  have "desk_ok M d (desk_run M d evs (new_desk fs))" using desk_run_ok [OF assms(1,2) new_desk_ok [OF assms(3)]] by simp
  from desk_run_ok [OF assms(1,2) this, of rest] assms(4) show ?thesis
    by (cases p) (simp add: desk_run_def later_world_def)
qed

section \<open>One machine\<close>

definition laptop :: user_machine where
  "laptop = \<lparr>m_parse = home_urls, m_codec = plain_codec,
     m_json = deaf_json\<lparr>read_status := (\<lambda>_. Some \<lparr>sst_claimed = True, sst_id = 1, sst_name = ''C6''\<rparr>),
       read_whoami := (\<lambda>_. Some \<lparr>who_server = \<lparr>ssum_id = 1, ssum_name = ''C6''\<rparr>, who_user = \<lparr>usum_id = 2, usum_name = ''N''\<rparr>, who_workspaces = []\<rparr>)\<rparr>,
     m_uuid_text = (\<lambda>u. if u = 1 then ''s1'' else ''u''), m_user = 1000\<rparr>"

definition morning :: occasion where
  "morning = \<lparr>x_os = desk_os, x_tries = (\<lambda>n. (LockTaken, 0)), x_pid = 7,
     x_net = \<lparr>build_failure = None, join_refused = (\<lambda>_. False), answer_to = (\<lambda>r. Answered 200 None (Inr ''x''))\<rparr>,
     x_git = (\<lambda>_. Inr 0), x_git_version = Inr (0, ''git''), x_stdin = Inr ''c6c_v1_t'', x_plaintext_var = None, x_flush_fails = None, x_json = True\<rparr>"

definition first_day :: "cli_event list" where
  "first_day = [RunCommand morning (Server (ServerAdd ''https://c'' (Some ''work'') False)),
     CheckLogin morning None True True, RunCommand morning (Auth (AuthLogout None)), StoreLogin morning 0,
     RunCommand morning (Auth (AuthStatus None))]"

theorem tokens_go_where_they_belong_witness:
  "world_ok laptop ''/h'' (d_world (desk_run laptop ''/h'' first_day (new_desk [])))"
  by (rule tokens_go_where_they_belong) (simp_all add: laptop_def plain_codec_roundtrips fresh_machine_def)

lemma plain_codec_writes: "write_config plain_codec c = Inr (enc_config c)"
  by (simp add: plain_codec_def)

lemmas command_simps = st_then_def st_check_def cli_check_def cli_execute_def origin_of_def new_client_def client_new_def
  on_net_def on_files_def lock_of_def load_config_of_def save_config_of_def os_of_def give_def Let_def

lemma first_pin:
  "pinned laptop ''/h'' (w_files (d_world (desk_run laptop ''/h'' [RunCommand morning (Server (ServerAdd ''https://c'' (Some ''work'') False))]
     (new_desk [])))) ''work'' = Some (''https://c'', ''s1'')"
  by (simp add: desk_run_def desk_step_def command_simps server_add_def laptop_def morning_def parse_origin_def home_urls_def
      desk_url_def server_status_of_def client_get_def decode_def max_response_bytes_def new_desk_def valid_alias_def char_simps
      acquire_def add_server_def default_config_def load_state_config_def save_config_def plain_codec_writes write_atomic_def
      replace_steps_def create_new_def fill_file_def move_over_def sync_directory_def temp_path_def show_nat.simps home_simps
      origin_str_def trim_end_slashes_def ancestors_def pinned_def config_in_def plain_codec_reads)

theorem aliases_stay_pinned_witness:
  "pinned laptop ''/h'' (w_files (d_world (desk_run laptop ''/h'' ([RunCommand morning (Server (ServerAdd ''https://c'' (Some ''work'') False))]
     @ first_day) (new_desk [])))) ''work'' = Some (''https://c'', ''s1'')"
  by (rule aliases_stay_pinned [OF _ _ _ first_pin]) (simp_all add: laptop_def plain_codec_roundtrips fresh_machine_def)

end
