(* ===== verification/Runner_Keys.thy ===== *)
theory Runner_Keys
  imports Runner_Protocol Local_Files
begin

text \<open>
  The key file of the runner (\<^verbatim>\<open>crates/c6-runner/src/lib.rs\<close>, \<open>load_auth_key_file\<close> and
  \<open>load_or_create_auth_key\<close>): the control plane and the runner may both create it, at the same time.
  The file calls of each are steps that interleave; the temporary name of a creator is its own.
\<close>

section \<open>Loading\<close>

datatype key_error =
    KeyIo os_error | UnsafeType | InsecurePermissions | UnsafeParent | WeakKeyFile | KeyRandom string

definition load_auth_key_file :: "os \<Rightarrow> string \<Rightarrow> local_tree \<Rightarrow> key_error + bytes" where
  "load_auth_key_file os p fs =
     rbind (map_err KeyIo (lstat os fs p)) (\<lambda>f.
     andThen (fail_if (lf_kind f \<noteq> RegularFile) UnsafeType)
    (andThen (fail_if (permission_bits f \<noteq> 0x180) InsecurePermissions)
    (andThen (fail_if (refused_call os (ReadCall p)) (KeyIo OsFailed))
    (let key = bytes_of_chars (lf_data f) in
     andThen (map_err (\<lambda>_. WeakKeyFile) (validate_auth_key key)) (Inr key)))))"

section \<open>Creating\<close>

text \<open>What a creator is given: its temporary name, the parent of the key's path, and its randomness.\<close>

record key_place =
  kp_path :: string
  kp_parent :: "string option"
  kp_temp :: string

definition drop_temp :: "os \<Rightarrow> string \<Rightarrow> local_tree \<Rightarrow> local_tree" where
  "drop_temp os t fs = (if refused_call os (RemoveCall t) then fs else hdel t fs)"

definition temp_file :: "os \<Rightarrow> string \<Rightarrow> local_file" where
  "temp_file os b = \<lparr>lf_kind = RegularFile, lf_mode = and 0x180 (not (mode_mask os)),
     lf_owner = effective_user os, lf_links = 1, lf_data = b\<rparr>"

text \<open>The parent is looked at, and the new key is written to the temporary file in full.\<close>

definition key_prepare :: "os \<Rightarrow> key_place \<Rightarrow> string + bytes \<Rightarrow> local_tree \<Rightarrow> (key_error + unit) \<times> local_tree" where
  "key_prepare os k random fs =
     (case rbind (ok_or UnsafeParent (kp_parent k)) (\<lambda>d. map_err KeyIo (lstat os fs d)) of
        Inl e \<Rightarrow> (Inl e, fs)
      | Inr f \<Rightarrow>
          let t = kp_temp k; gone = drop_temp os t in
          if lf_kind f \<noteq> RealDirectory then (Inl UnsafeParent, fs)
          else if refused_call os (CreateCall t) then (Inl (KeyIo OsFailed), gone fs)
          else if hget fs t \<noteq> None then (Inl (KeyIo OsExists), gone fs)
          else case random of
              Inl m \<Rightarrow> (Inl (KeyRandom m), gone (hput t (temp_file os []) fs))
            | Inr key \<Rightarrow>
                if refused_call os (WriteCall t)
                then (Inl (KeyIo OsFailed), gone (hput t (temp_file os (take (part_written os t) (chars_of_bytes key))) fs))
                else if refused_call os (SyncCall t)
                then (Inl (KeyIo OsFailed), gone (hput t (temp_file os (chars_of_bytes key)) fs))
                else (Inr (), hput t (temp_file os (chars_of_bytes key)) fs))"

text \<open>
  The hard link makes the key file appear at once, and only where there is none; then, or when
  somebody else was first, the temporary name goes.  The two names are one file, which nobody writes
  to any more: the copy here stands for it.
\<close>

definition hard_link :: "os \<Rightarrow> string \<Rightarrow> string \<Rightarrow> local_tree \<Rightarrow> (os_error + unit) \<times> local_tree" where
  "hard_link os t p fs =
     (if refused_call os (LinkCall t p) then (Inl OsFailed, fs)
      else case (hget fs t, hget fs p) of
          (None, _) \<Rightarrow> (Inl OsMissing, fs)
        | (Some f, None) \<Rightarrow> (Inr (), hput p f fs)
        | (Some _, Some _) \<Rightarrow> (Inl OsExists, fs))"

definition key_publish :: "os \<Rightarrow> key_place \<Rightarrow> local_tree \<Rightarrow> (key_error + unit) \<times> local_tree" where
  "key_publish os k fs =
     (case hard_link os (kp_temp k) (kp_path k) fs of
        (Inr _, fs) \<Rightarrow> (Inr (), drop_temp os (kp_temp k) fs)
      | (Inl e, fs) \<Rightarrow> (if e = OsExists then Inr () else Inl (KeyIo e), drop_temp os (kp_temp k) fs))"

text \<open>\<open>load_or_create_auth_key\<close>, run without a pause.\<close>

definition load_or_create_auth_key ::
  "os \<Rightarrow> key_place \<Rightarrow> string + bytes \<Rightarrow> local_tree \<Rightarrow> (key_error + bytes) \<times> local_tree" where
  "load_or_create_auth_key os k random fs =
     (case load_auth_key_file os (kp_path k) fs of
        Inr key \<Rightarrow> (Inr key, fs)
      | Inl e \<Rightarrow>
          if e \<noteq> KeyIo OsMissing then (Inl e, fs)
          else st_then (key_prepare os k random) (\<lambda>_.
               st_then (key_publish os k) (\<lambda>_. st_check (load_auth_key_file os (kp_path k)))) fs)"

section \<open>Creators at the same time\<close>

text \<open>Where a creator is: it has found no key, it has its temporary file, it has linked it, it is done.\<close>

datatype key_task = KeyStart | KeyAbsent | KeyReady bytes | KeyLinked | KeyDone "key_error + bytes"

definition key_advance ::
  "os \<Rightarrow> key_place \<Rightarrow> string + bytes \<Rightarrow> key_task \<Rightarrow> local_tree \<Rightarrow> key_task \<times> local_tree" where
  "key_advance os k random c fs = (case c of
      KeyStart \<Rightarrow>
        (case load_auth_key_file os (kp_path k) fs of
           Inl e \<Rightarrow> (if e = KeyIo OsMissing then KeyAbsent else KeyDone (Inl e), fs)
         | Inr key \<Rightarrow> (KeyDone (Inr key), fs))
    | KeyAbsent \<Rightarrow>
        (case key_prepare os k random fs of
           (Inl e, fs) \<Rightarrow> (KeyDone (Inl e), fs)
         | (Inr _, fs) \<Rightarrow> (case random of Inr key \<Rightarrow> KeyReady key | Inl _ \<Rightarrow> KeyStart, fs))
    | KeyReady _ \<Rightarrow>
        (case key_publish os k fs of (Inl e, fs) \<Rightarrow> (KeyDone (Inl e), fs) | (Inr _, fs) \<Rightarrow> (KeyLinked, fs))
    | KeyLinked \<Rightarrow> (KeyDone (load_auth_key_file os (kp_path k) fs), fs)
    | KeyDone r \<Rightarrow> (KeyDone r, fs))"

text \<open>The keys drawn so far are kept beside, to say where a key comes from.\<close>

record key_race =
  kr_files :: local_tree
  kr_tasks :: "(nat \<times> key_task) list"
  kr_drawn :: "bytes list"

record key_turn =
  kt_who :: nat
  kt_os :: os
  kt_random :: "string + bytes"

definition place_of :: "string \<Rightarrow> string option \<Rightarrow> (nat \<Rightarrow> string) \<Rightarrow> nat \<Rightarrow> key_place" where
  "place_of p parent temp i = \<lparr>kp_path = p, kp_parent = parent, kp_temp = temp i\<rparr>"

definition task_of :: "key_race \<Rightarrow> nat \<Rightarrow> key_task" where
  "task_of w i = (case hget (kr_tasks w) i of Some c \<Rightarrow> c | None \<Rightarrow> KeyStart)"

definition key_step ::
  "string \<Rightarrow> string option \<Rightarrow> (nat \<Rightarrow> string) \<Rightarrow> key_race \<Rightarrow> key_turn \<Rightarrow> key_task \<times> key_race" where
  "key_step p parent temp w e =
     (let i = kt_who e;
          (c, fs) = key_advance (kt_os e) (place_of p parent temp i) (kt_random e) (task_of w i) (kr_files w) in
      (c, \<lparr>kr_files = fs, kr_tasks = hput i c (kr_tasks w),
         kr_drawn = kr_drawn w @ (case kt_random e of Inr key \<Rightarrow> [key] | Inl _ \<Rightarrow> [])\<rparr>))"

definition key_race_on :: "local_tree \<Rightarrow> key_race" where
  "key_race_on fs = \<lparr>kr_files = fs, kr_tasks = [], kr_drawn = []\<rparr>"

section \<open>What a step does\<close>

definition key_in :: "local_tree \<Rightarrow> string \<Rightarrow> bytes option" where
  "key_in fs q = map_option (\<lambda>f. bytes_of_chars (lf_data f)) (hget fs q)"

lemma loaded_key: "load_auth_key_file os p fs = Inr key \<Longrightarrow> key_in fs p = Some key"
  by (auto simp: load_auth_key_file_def lstat_def key_in_def result_simps Let_def split: if_splits)

lemma key_in_put [simp]: "key_in (hput q f fs) r = (if r = q then Some (bytes_of_chars (lf_data f)) else key_in fs r)"
  by (simp add: key_in_def update_conv)

lemma drop_temp_key: "q \<noteq> t \<Longrightarrow> key_in (drop_temp os t fs) q = key_in fs q"
  by (simp add: key_in_def drop_temp_def delete_conv')

lemma prepare_keys:
  assumes "key_prepare os k random fs = (r, fs')"
  shows "q \<noteq> kp_temp k \<Longrightarrow> key_in fs' q = key_in fs q"
    and "r = Inr () \<Longrightarrow> \<exists>key. random = Inr key \<and> key_in fs' (kp_temp k) = Some key"
  using assms
  by (auto simp: key_prepare_def Let_def drop_temp_key temp_file_def bytes_of_chars_of split: sum.splits if_splits)

lemma publish_keys:
  assumes "key_publish os k fs = (r, fs')" and "kp_path k \<noteq> kp_temp k"
  shows "q \<noteq> kp_path k \<Longrightarrow> q \<noteq> kp_temp k \<Longrightarrow> key_in fs' q = key_in fs q"
    and "key_in fs' (kp_path k) = (if key_in fs (kp_path k) = None \<and> r = Inr () then key_in fs (kp_temp k) else key_in fs (kp_path k))"
  using assms by (auto simp: key_publish_def hard_link_def drop_temp_key split: prod.splits option.splits if_splits)
    (auto simp: key_in_def drop_temp_def delete_conv' update_conv)

lemma advance_keys:
  assumes "key_advance os k random c fs = (c', fs')" and "kp_path k \<noteq> kp_temp k"
  shows "q \<noteq> kp_path k \<Longrightarrow> q \<noteq> kp_temp k \<Longrightarrow> key_in fs' q = key_in fs q"
    and "key_in fs (kp_path k) = Some x \<Longrightarrow> key_in fs' (kp_path k) = Some x"
    and "key_in fs (kp_path k) = None \<Longrightarrow> key_in fs' (kp_path k) = Some x \<Longrightarrow> (\<exists>y. c = KeyReady y) \<and> key_in fs (kp_temp k) = Some x"
    and "c' = KeyReady x \<Longrightarrow> random = Inr x \<and> key_in fs' (kp_temp k) = Some x"
    and "c' = KeyDone (Inr x) \<Longrightarrow> c = c' \<or> key_in fs' (kp_path k) = Some x"
  using assms
  by (auto simp: key_advance_def loaded_key publish_keys dest: prepare_keys split: key_task.splits sum.splits prod.splits if_splits)

text \<open>Four steps in a row are the whole of it.\<close>

lemma load_or_create_steps:
  "((\<lambda>(c, fs). key_advance os k random c fs) ^^ 4) (KeyStart, fs) = apfst KeyDone (load_or_create_auth_key os k random fs)"
proof (cases "load_auth_key_file os (kp_path k) fs = Inl (KeyIo OsMissing)")
  case False
  then show ?thesis
    by (cases "load_auth_key_file os (kp_path k) fs") (simp_all add: load_or_create_auth_key_def key_advance_def eval_nat_numeral)
next
  case True
  obtain a fs1 where p: "key_prepare os k random fs = (a, fs1)" by fastforce
  obtain b fs2 where q: "key_publish os k fs1 = (b, fs2)" by fastforce
  show ?thesis
  proof (cases a)
    case (Inl e)
    with True p show ?thesis by (simp add: load_or_create_auth_key_def key_advance_def st_then_def eval_nat_numeral)
  next
    case (Inr u)
    then obtain key where "random = Inr key" using prepare_keys(2) [OF p] by auto
    with True p q Inr show ?thesis
      by (cases b) (simp_all add: load_or_create_auth_key_def key_advance_def st_then_def st_check_def eval_nat_numeral)
  qed
qed

section \<open>One key\<close>

definition race_ok :: "string \<Rightarrow> (nat \<Rightarrow> string) \<Rightarrow> bytes option \<Rightarrow> key_race \<Rightarrow> bool" where
  "race_ok p temp old w \<longleftrightarrow> (inj temp \<and> p \<notin> range temp \<longrightarrow>
     (\<forall>i x. task_of w i = KeyReady x \<longrightarrow> x \<in> set (kr_drawn w) \<and> key_in (kr_files w) (temp i) = Some x)
     \<and> (\<forall>i x. task_of w i = KeyDone (Inr x) \<longrightarrow> key_in (kr_files w) p = Some x)
     \<and> (\<forall>x. key_in (kr_files w) p = Some x \<longrightarrow> old = Some x \<or> x \<in> set (kr_drawn w)))"

definition race_le :: "string \<Rightarrow> (nat \<Rightarrow> string) \<Rightarrow> key_race \<Rightarrow> key_race \<Rightarrow> bool" where
  "race_le p temp w w' \<longleftrightarrow> (p \<notin> range temp \<longrightarrow> (\<forall>x. key_in (kr_files w) p = Some x \<longrightarrow> key_in (kr_files w') p = Some x))"

lemma key_step_form:
  obtains c fs where
    "key_advance (kt_os e) (place_of p parent temp (kt_who e)) (kt_random e) (task_of w (kt_who e)) (kr_files w) = (c, fs)"
    "snd (key_step p parent temp w e) = \<lparr>kr_files = fs, kr_tasks = hput (kt_who e) c (kr_tasks w),
       kr_drawn = kr_drawn w @ (case kt_random e of Inr key \<Rightarrow> [key] | Inl _ \<Rightarrow> [])\<rparr>"
  by (cases "key_advance (kt_os e) (place_of p parent temp (kt_who e)) (kt_random e) (task_of w (kt_who e)) (kr_files w)")
    (simp add: key_step_def Let_def)

lemma key_step_le: "race_le p temp w (snd (key_step p parent temp w e))"
proof -
  obtain c fs where s: "key_advance (kt_os e) (place_of p parent temp (kt_who e)) (kt_random e) (task_of w (kt_who e)) (kr_files w) = (c, fs)"
    "snd (key_step p parent temp w e) = \<lparr>kr_files = fs, kr_tasks = hput (kt_who e) c (kr_tasks w),
       kr_drawn = kr_drawn w @ (case kt_random e of Inr key \<Rightarrow> [key] | Inl _ \<Rightarrow> [])\<rparr>" by (rule key_step_form)
  show ?thesis using advance_keys(2) [OF s(1)] by (auto simp: race_le_def s(2) place_of_def)
qed

lemma key_step_ok:
  assumes "race_ok p temp old w"
  shows "race_ok p temp old (snd (key_step p parent temp w e))"
  unfolding race_ok_def
proof (rule impI)
  let ?i = "kt_who e"
  assume t: "inj temp \<and> p \<notin> range temp"
  obtain c fs where s: "key_advance (kt_os e) (place_of p parent temp ?i) (kt_random e) (task_of w ?i) (kr_files w) = (c, fs)"
    "snd (key_step p parent temp w e) = \<lparr>kr_files = fs, kr_tasks = hput ?i c (kr_tasks w),
       kr_drawn = kr_drawn w @ (case kt_random e of Inr key \<Rightarrow> [key] | Inl _ \<Rightarrow> [])\<rparr>" by (rule key_step_form)
  have ne: "p \<noteq> temp ?i" "\<And>j. j \<noteq> ?i \<Longrightarrow> temp j \<noteq> temp ?i" "\<And>j. temp j \<noteq> p" using t by (auto dest: injD)
  note a = advance_keys [OF s(1), unfolded place_of_def, simplified, OF ne(1)]
  from assms t have w: "\<And>j x. task_of w j = KeyReady x \<Longrightarrow> x \<in> set (kr_drawn w) \<and> key_in (kr_files w) (temp j) = Some x"
    "\<And>j x. task_of w j = KeyDone (Inr x) \<Longrightarrow> key_in (kr_files w) p = Some x"
    "\<And>x. key_in (kr_files w) p = Some x \<Longrightarrow> old = Some x \<or> x \<in> set (kr_drawn w)" by (auto simp: race_ok_def)
  have task: "task_of (snd (key_step p parent temp w e)) j = (if j = ?i then c else task_of w j)" for j
    by (simp add: s(2) task_of_def update_conv)
  note task = task [unfolded s(2)]
  show "(\<forall>j x. task_of (snd (key_step p parent temp w e)) j = KeyReady x \<longrightarrow>
        x \<in> set (kr_drawn (snd (key_step p parent temp w e))) \<and> key_in (kr_files (snd (key_step p parent temp w e))) (temp j) = Some x)
     \<and> (\<forall>j x. task_of (snd (key_step p parent temp w e)) j = KeyDone (Inr x) \<longrightarrow> key_in (kr_files (snd (key_step p parent temp w e))) p = Some x)
     \<and> (\<forall>x. key_in (kr_files (snd (key_step p parent temp w e))) p = Some x \<longrightarrow> old = Some x \<or> x \<in> set (kr_drawn (snd (key_step p parent temp w e))))"
  proof (intro conjI allI impI)
    fix j x assume r: "task_of (snd (key_step p parent temp w e)) j = KeyReady x"
    show "x \<in> set (kr_drawn (snd (key_step p parent temp w e)))"
      using r a(4) [of x] w(1) [of j x] by (auto simp: task s(2) split: if_splits)
    show "key_in (kr_files (snd (key_step p parent temp w e))) (temp j) = Some x"
      using r a(4) [of x] w(1) [of j x] a(1) [OF ne(3) ne(2)] by (auto simp: task s(2) split: if_splits)
  next
    fix j x assume "task_of (snd (key_step p parent temp w e)) j = KeyDone (Inr x)"
    then show "key_in (kr_files (snd (key_step p parent temp w e))) p = Some x"
      using a(2) [of x] a(5) [of x] w(2) [of j x] by (auto simp: task s(2) split: if_splits)
  next
    fix x assume x: "key_in (kr_files (snd (key_step p parent temp w e))) p = Some x"
    show "old = Some x \<or> x \<in> set (kr_drawn (snd (key_step p parent temp w e)))"
    proof (cases "key_in (kr_files w) p")
      case None
      with x a(3) [of x] w(1) [of ?i] show ?thesis by (auto simp: s(2))
    next
      case (Some y)
      with x a(2) [of y] w(3) [of y] show ?thesis by (auto simp: s(2))
    qed
  qed
qed

interpretation key_race: growing_machine "key_step p parent temp" "key_race_on fs" "race_ok p temp (key_in fs p)" "race_le p temp"
  for p parent temp fs
proof
  show "race_ok p temp (key_in fs p) (key_race_on fs)"
    by (simp add: race_ok_def key_race_on_def task_of_def)
  show "race_le p temp s (snd (key_step p parent temp s e))" for s e by (rule key_step_le)
qed (auto intro: key_step_ok simp: race_le_def)


section \<open>Two creators\<close>









end
