(* ===== verification/Runner_Link.thy ===== *)
theory Runner_Link
  imports Runner_Service
begin

text \<open>
  The two ends of the runner's socket (\<^verbatim>\<open>crates/c6-runner/src/lib.rs\<close>): \<open>RunnerClient\<close>, which the control
  plane holds, and \<open>handle_connection\<close>, which serves one request.  JSON is a parameter; a connection
  is what is written and the reads in which it arrives.
\<close>

section \<open>The client\<close>

record runner_response =
  resp_version :: u8
  resp_id :: uuid
  resp_body :: response_body

datatype link_error =
    LinkProtocol protocol_error | LinkValidation validation_error | LinkTooLarge | ResponseVersion
  | ResponseRequestId | LinkFrame frame_error | LinkIo | LinkJson string

record wire_codec =
  envelope_json :: "signed_envelope \<Rightarrow> string + bytes"
  parse_envelope :: "bytes \<Rightarrow> string + signed_envelope"
  response_json :: "runner_response \<Rightarrow> string + bytes"
  parse_response :: "bytes \<Rightarrow> string + runner_response"

definition runner_client_new :: "bytes \<Rightarrow> link_error + bytes" where
  "runner_client_new key = andThen (map_err LinkProtocol (validate_auth_key key)) (Inr key)"

text \<open>\<open>send\<close>, up to the write and from the first read; \<open>net\<close> is the connection in between.\<close>

definition client_request ::
  "crypto \<Rightarrow> wire_codec \<Rightarrow> bytes \<Rightarrow> uuid \<Rightarrow> int \<Rightarrow> bytes \<Rightarrow> runner_command \<Rightarrow> link_error + bytes" where
  "client_request c W key rid now fresh cmd =
     rbind (map_err LinkProtocol (sign_envelope c rid now fresh cmd key)) (\<lambda>e.
     rbind (map_err LinkJson (envelope_json W e)) (\<lambda>frame.
     andThen (fail_if (max_frame_bytes < length frame) LinkTooLarge) (Inr (frame @ [10]))))"

definition client_response :: "wire_codec \<Rightarrow> uuid \<Rightarrow> (unit + bytes) list \<Rightarrow> link_error + response_body" where
  "client_response W rid reads =
     rbind (map_err LinkFrame (read_frame [] reads)) (\<lambda>b.
     rbind (map_err LinkJson (parse_response W b)) (\<lambda>r.
     andThen (fail_if (resp_version r \<noteq> runner_protocol_version) ResponseVersion)
    (andThen (fail_if (resp_id r \<noteq> rid) ResponseRequestId) (Inr (resp_body r)))))"

definition client_send ::
  "crypto \<Rightarrow> wire_codec \<Rightarrow> bytes \<Rightarrow> uuid \<Rightarrow> int \<Rightarrow> bytes \<Rightarrow> (bytes \<Rightarrow> (unit + bytes) list option) \<Rightarrow> runner_command
     \<Rightarrow> link_error + response_body" where
  "client_send c W key rid now fresh net cmd =
     rbind (client_request c W key rid now fresh cmd) (\<lambda>frame.
     rbind (ok_or LinkIo (net frame)) (client_response W rid))"

text \<open>\<open>ping\<close>, \<open>execute\<close>, \<open>inspect\<close> and \<open>cancel\<close>: only an execution is checked before it is sent.\<close>

definition command_check :: "runner_command \<Rightarrow> link_error + unit" where
  "command_check cmd = (case cmd of Execute x \<Rightarrow> map_err LinkValidation (execution_validate x) | _ \<Rightarrow> Inr ())"

definition runner_call ::
  "crypto \<Rightarrow> wire_codec \<Rightarrow> bytes \<Rightarrow> uuid \<Rightarrow> int \<Rightarrow> bytes \<Rightarrow> (bytes \<Rightarrow> (unit + bytes) list option) \<Rightarrow> runner_command
     \<Rightarrow> link_error + response_body" where
  "runner_call c W key rid now fresh net cmd =
     andThen (command_check cmd) (client_send c W key rid now fresh net cmd)"

section \<open>The daemon\<close>

datatype daemon_error = DaemonIo | UnsafeSocketPath | DaemonFrame frame_error | DaemonJson string

definition connection_request :: "wire_codec \<Rightarrow> (unit + bytes) list \<Rightarrow> daemon_error + signed_envelope" where
  "connection_request W reads =
     rbind (map_err DaemonFrame (read_frame [] reads)) (\<lambda>b. map_err (\<lambda>_. DaemonFrame FrameMalformed) (parse_envelope W b))"

definition connection_response :: "wire_codec \<Rightarrow> runner_response \<Rightarrow> daemon_error + bytes" where
  "connection_response W r = rbind (map_err DaemonJson (response_json W r)) (\<lambda>b. Inr (b @ [10]))"

text \<open>
  \<open>service\<close> is what \<open>RunnerService::handle\<close> answers in the end: at once, or for an execution when its
  task is saved.
\<close>

definition handle_connection ::
  "wire_codec \<Rightarrow> (signed_envelope \<Rightarrow> response_body) \<Rightarrow> (unit + bytes) list \<Rightarrow> daemon_error + bytes" where
  "handle_connection W service reads =
     rbind (connection_request W reads) (\<lambda>e.
       connection_response W \<lparr>resp_version = runner_protocol_version, resp_id = request_id e, resp_body = service e\<rparr>)"

text \<open>A connection to it: both directions arrive in pieces, and an error closes without an answer.\<close>

definition socket_to ::
  "((unit + bytes) list \<Rightarrow> daemon_error + bytes) \<Rightarrow> (bytes \<Rightarrow> bytes list) \<Rightarrow> bytes \<Rightarrow> (unit + bytes) list option" where
  "socket_to serve pieces frame = Some (case serve (map Inr (pieces frame)) of Inl _ \<Rightarrow> [] | Inr out \<Rightarrow> map Inr (pieces out))"

section \<open>A call and its answer\<close>

text \<open>What is used of JSON: it is read back, and its bytes are some and none of them is a line end.\<close>

definition wire_ok :: "wire_codec \<Rightarrow> bool" where
  "wire_ok W \<longleftrightarrow> (\<forall>e b. envelope_json W e = Inr b \<longrightarrow> parse_envelope W b = Inr e \<and> 10 \<notin> set b \<and> b \<noteq> [])
     \<and> (\<forall>r b. response_json W r = Inr b \<longrightarrow> parse_response W b = Inr r \<and> 10 \<notin> set b \<and> b \<noteq> [])"

definition splits :: "(bytes \<Rightarrow> bytes list) \<Rightarrow> bool" where
  "splits pieces \<longleftrightarrow> (\<forall>b. concat (pieces b) = b \<and> [] \<notin> set (pieces b))"

lemma read_pieces:
  assumes "splits pieces" and "10 \<notin> set f" and "f \<noteq> []" and "length f \<le> max_frame_bytes"
  shows "read_frame [] (map Inr (pieces (f @ [10]))) = Inr f"
  using read_frame_complete [of "[]" "pieces (f @ [10])" f "[]"] assms by (simp add: splits_def)

lemma read_large:
  "acc @ concat bs = f @ [10] \<Longrightarrow> [] \<notin> set bs \<Longrightarrow> 10 \<notin> set f \<Longrightarrow> 10 \<notin> set acc
   \<Longrightarrow> max_frame_bytes < length f \<Longrightarrow> length acc \<le> max_frame_bytes \<Longrightarrow> read_frame acc (map Inr bs) = Inl FrameTooLarge"
proof (induction bs arbitrary: acc)
  case Nil
  then have "10 \<in> set acc" by simp
  with Nil show ?case by simp
next
  case (Cons b bs)
  have ne: "b \<noteq> []" using Cons.prems(2) by auto
  show ?case
  proof (cases "concat bs = []")
    case True
    then have "acc @ b = f @ [10]" using Cons.prems(1) by (simp only: concat.simps append_Nil2)
    then obtain p where p: "b = p @ [10]" "f = acc @ p" using ne by (cases b rule: rev_cases) auto
    have "split_once 10 b = Some (p, [])" using Cons.prems(3) p by (simp add: split_once_Some)
    with ne p Cons.prems(5) show ?thesis by (auto simp: Let_def)
  next
    case False
    then obtain q where q: "concat bs = q @ [10]" "f = acc @ b @ q"
      using Cons.prems(1) by (cases "concat bs" rule: rev_cases) auto
    then have sep: "10 \<notin> set b" "10 \<notin> set (acc @ b)" using Cons.prems(3) by auto
    have "read_frame (acc @ b) (map Inr bs) = Inl FrameTooLarge" if "length (acc @ b) \<le> max_frame_bytes"
      by (rule Cons.IH) (use Cons.prems q sep that in auto)
    with ne sep show ?thesis by (auto simp: split_once_None [THEN iffD2] Let_def)
  qed
qed

lemma signed_fields: "sign_envelope c rid now fresh cmd key = Inr e \<Longrightarrow> request_id e = rid"
  by (auto simp: sign_envelope_def result_simps Let_def)

lemma served_request:
  assumes "wire_ok W" and "splits pieces" and "sign_envelope c rid now fresh cmd key = Inr e"
    and "envelope_json W e = Inr f" and "length f \<le> max_frame_bytes"
  shows "client_request c W key rid now fresh cmd = Inr (f @ [10])"
    and "connection_request W (map Inr (pieces (f @ [10]))) = Inr e"
  using assms read_pieces [OF assms(2), of f]
  by (simp_all add: client_request_def connection_request_def wire_ok_def)

lemma response_for_read:
  assumes "wire_ok W" and "splits pieces"
    and "connection_response W \<lparr>resp_version = runner_protocol_version, resp_id = rid, resp_body = b\<rparr> = Inr out"
  shows "client_response W rid (map Inr (pieces out))
    = (if max_frame_bytes < length out - 1 then Inl (LinkFrame FrameTooLarge) else Inr b)"
proof -
  obtain f where f: "response_json W \<lparr>resp_version = runner_protocol_version, resp_id = rid, resp_body = b\<rparr> = Inr f" "out = f @ [10]"
    using assms(3) by (auto simp: connection_response_def result_simps)
  with assms(1) have w: "10 \<notin> set f" "f \<noteq> []"
    "parse_response W f = Inr \<lparr>resp_version = runner_protocol_version, resp_id = rid, resp_body = b\<rparr>" by (auto simp: wire_ok_def)
  show ?thesis
  proof (cases "max_frame_bytes < length f")
    case True
    have "read_frame [] (map Inr (pieces out)) = Inl FrameTooLarge"
      by (rule read_large [of _ _ f]) (use assms(2) True w f(2) in \<open>auto simp: splits_def\<close>)
    with True f(2) show ?thesis by (simp add: client_response_def)
  next
    case False
    with read_pieces [OF assms(2) w(1,2)] f(2) w(3) show ?thesis by (simp add: client_response_def)
  qed
qed

lemma call_answer:
  assumes "wire_ok W" and "splits pieces" and "command_check cmd = Inr ()"
    and "sign_envelope c rid now fresh cmd key = Inr e" and "envelope_json W e = Inr f" and "length f \<le> max_frame_bytes"
    and "response_json W \<lparr>resp_version = runner_protocol_version, resp_id = rid, resp_body = service e\<rparr> = Inr out"
  shows "runner_call c W key rid now fresh (socket_to (handle_connection W service) pieces) cmd
    = (if max_frame_bytes < length out then Inl (LinkFrame FrameTooLarge) else Inr (service e))"
proof -
  let ?r = "\<lparr>resp_version = runner_protocol_version, resp_id = rid, resp_body = service e\<rparr>"
  have o: "connection_response W ?r = Inr (out @ [10])" using assms(7) by (simp add: connection_response_def)
  have "handle_connection W service (map Inr (pieces (f @ [10]))) = Inr (out @ [10])"
    using served_request(2) [OF assms(1,2,4,5,6)] signed_fields [OF assms(4)] o by (simp add: handle_connection_def)
  moreover note served_request(1) [OF assms(1,2,4,5,6)]
  ultimately show ?thesis
    using response_for_read [OF assms(1,2) o] assms(3) by (simp add: runner_call_def client_send_def socket_to_def)
qed

text \<open>
  What the client of the runner asks is what the runner is asked, and the client gets the
  runner's answer to it, however the bytes are split on the way: the envelope passes the runner's
  authentication within a minute on either clock while its nonce is new, carries the command, and
  the answer is the one to this request.
\<close>

theorem call_reaches_service:
  assumes "wire_ok W" and "splits pieces" and "base64_ok c" and "command_check cmd = Inr ()"
    and "command_json c cmd = Inr body" and "parse_command c body = Inr cmd" and "length fresh = 16"
    and "sign_envelope c rid now fresh cmd key = Inr e" and "envelope_json W e = Inr f" and "length f \<le> 256 * 1024"
    and "\<bar>now' - now\<bar> \<le> 60000" and "hget (retain_fresh now' seen) (b64_encode c fresh) = None"
    and "length (retain_fresh now' seen) < 4096"
    and "response_json W \<lparr>resp_version = 1, resp_id = rid, resp_body = service e\<rparr> = Inr out" and "length out \<le> 256 * 1024"
  shows "fst (verify c key seen e now') = Inr cmd
    \<and> runner_call c W key rid now fresh (socket_to (handle_connection W service) pieces) cmd = Inr (service e)"
  using call_answer [where service = service, OF assms(1,2,4,8,9)] signed_envelope_accepted [OF assms(3,8,5,6,7,11,12,13)] assms(10,14,15)
  by (simp add: max_frame_bytes_def runner_protocol_version_def)

section \<open>An answer that is too large\<close>

text \<open>JSON writes every character of a string, so the record of a run takes at least its texts.\<close>

definition run_text :: "run_record \<Rightarrow> nat" where
  "run_text r = length (log_content (rec_stdout r)) + length (log_content (rec_stderr r))
     + length (sim_stdout (simulation (rec_request r))) + length (sim_stderr (simulation (rec_request r)))"

definition tells_run :: "response_body \<Rightarrow> run_record \<Rightarrow> bool" where
  "tells_run b r \<longleftrightarrow> b = RespFinished r \<or> b = RespStatus (Some r)"

definition writes_texts :: "wire_codec \<Rightarrow> bool" where
  "writes_texts W \<longleftrightarrow> (\<forall>a b r. response_json W a = Inr b \<longrightarrow> tells_run (resp_body a) r \<longrightarrow> run_text r \<le> length b)"

lemma run_text_twice:
  assumes "length (sim_stdout (simulation x)) \<le> unat (log_bytes (resources x))"
  shows "2 * length (sim_stdout (simulation x)) \<le> run_text (build_record x started finished (Exited (simulate x)))"
  using assms by (simp add: run_text_def build_record_def Let_def simulate_def capture_log_def)

text \<open>
  A run whose standard output is longer than 128 KiB and within its log limit is executed and
  kept, but its result can never be read: the answer repeats the output beside the request, so it
  exceeds the client's frame limit, to the execution and to every later inspection.
\<close>

theorem large_result_unreadable:
  assumes "wire_ok W" and "writes_texts W" and "splits pieces" and "command_check cmd = Inr ()"
    and "sign_envelope c rid now fresh cmd key = Inr e" and "envelope_json W e = Inr f" and "length f \<le> 256 * 1024"
    and "tells_run (service e) (build_record x started finished (Exited (simulate x)))"
    and "128 * 1024 < length (sim_stdout (simulation x))"
    and "length (sim_stdout (simulation x)) \<le> unat (log_bytes (resources x))"
    and "response_json W \<lparr>resp_version = 1, resp_id = rid, resp_body = service e\<rparr> = Inr out"
  shows "runner_call c W key rid now fresh (socket_to (handle_connection W service) pieces) cmd = Inl (LinkFrame FrameTooLarge)"
proof -
  have "run_text (build_record x started finished (Exited (simulate x))) \<le> length out"
    using assms(2,8,11) unfolding writes_texts_def by (metis runner_response.select_convs(3))
  with run_text_twice [OF assms(10), of started finished] assms(9) have "max_frame_bytes < length out" by (simp add: max_frame_bytes_def)
  with call_answer [where service = service, OF assms(1,3,4,5,6)] assms(7,11) show ?thesis
    by (simp add: max_frame_bytes_def runner_protocol_version_def)
qed

section \<open>Concretely\<close>

definition one_crypto :: "runner_command \<Rightarrow> crypto" where
  "one_crypto cmd = toy_crypto\<lparr>command_json := (\<lambda>_. Inr [112]), parse_command := (\<lambda>_. Inr cmd)\<rparr>"

definition one_envelope :: "runner_command \<Rightarrow> signed_envelope" where
  "one_envelope cmd = (case sign_envelope (one_crypto cmd) 7 5 toy_nonce cmd (replicate 32 1) of Inr e \<Rightarrow> e | Inl _ \<Rightarrow> toy_envelope [])"

definition one_wire :: "runner_command \<Rightarrow> response_body \<Rightarrow> nat \<Rightarrow> wire_codec" where
  "one_wire cmd b n = \<lparr>envelope_json = (\<lambda>e. if e = one_envelope cmd then Inr [1] else Inl ''other''),
     parse_envelope = (\<lambda>f. if f = [1] then Inr (one_envelope cmd) else Inl ''other''),
     response_json = (\<lambda>r. if r = \<lparr>resp_version = 1, resp_id = 7, resp_body = b\<rparr> then Inr (replicate n 2) else Inl ''other''),
     parse_response = (\<lambda>f. if f = replicate n 2 then Inr \<lparr>resp_version = 1, resp_id = 7, resp_body = b\<rparr> else Inl ''other'')\<rparr>"

definition whole :: "bytes \<Rightarrow> bytes list" where
  "whole b = (if b = [] then [] else [b])"

lemma whole_splits: "splits whole"
  by (simp add: splits_def whole_def)

lemma one_wire_ok: "0 < n \<Longrightarrow> wire_ok (one_wire cmd b n)"
  by (auto simp: wire_ok_def one_wire_def split: if_splits)

lemma one_signed: "sign_envelope (one_crypto cmd) 7 5 toy_nonce cmd (replicate 32 1) = Inr (one_envelope cmd)"
  by (simp add: one_envelope_def sign_envelope_def one_crypto_def validate_auth_key_def min_auth_key_bytes_def Let_def)

lemma one_json: "envelope_json (one_wire cmd b n) (one_envelope cmd) = Inr [1]"
  "response_json (one_wire cmd b n) \<lparr>resp_version = 1, resp_id = 7, resp_body = b\<rparr> = Inr (replicate n 2)"
  by (simp_all add: one_wire_def)

theorem call_reaches_service_witness:
  "runner_call (one_crypto RunnerPing) (one_wire RunnerPing RespPong 9) (replicate 32 1) 7 5 toy_nonce
     (socket_to (handle_connection (one_wire RunnerPing RespPong 9) (\<lambda>_. RespPong)) whole) RunnerPing = Inr RespPong"
proof -
  have "base64_ok (one_crypto RunnerPing)" by (simp add: base64_ok_def one_crypto_def toy_crypto_def bytes_of_chars_of)
  from call_reaches_service [where service = "\<lambda>_. RespPong" and now' = 5 and seen = "[]",
      OF one_wire_ok [of 9] whole_splits this _ _ _ _ one_signed one_json(1) _ _ _ _ one_json(2)]
  show ?thesis by (simp add: command_check_def one_crypto_def toy_nonce_def retain_fresh_def)
qed

definition large_run :: execution_request where
  "large_run = (sample_run 0)\<lparr>resources := (resources (sample_run 0))\<lparr>log_bytes := 1048576\<rparr>,
     simulation := (simulation (sample_run 0))\<lparr>sim_stdout := replicate 140000 (CHR ''x'')\<rparr>\<rparr>"

lemma large_run_valid: "execution_validate large_run = Inr ()"
  by (auto simp: large_run_def execution_validate_def sample_run_def rbind_Inr_iff validate_revision_iff validate_digest_iff
      hex_of_length_def list_all_iff lower_hex_def ascii_digit_def resources_validate_iff resources_ok_def
      in_range_def network_validate_iff network_ok_def simulation_validate_iff sat_add64_def)

definition large_record :: run_record where
  "large_record = build_record large_run 10 20 (Exited (simulate large_run))"

lemma large_text: "run_text large_record = 280000"
  by (simp add: large_record_def run_text_def build_record_def Let_def simulate_def capture_log_def large_run_def sample_run_def)

theorem large_result_unreadable_witness:
  "execution_validate large_run = Inr () \<and>
   runner_call (one_crypto (Execute large_run)) (one_wire (Execute large_run) (RespFinished large_record) 300000) (replicate 32 1) 7 5
     toy_nonce (socket_to (handle_connection (one_wire (Execute large_run) (RespFinished large_record) 300000)
       (\<lambda>_. RespFinished large_record)) whole) (Execute large_run) = Inl (LinkFrame FrameTooLarge)"
proof -
  let ?W = "one_wire (Execute large_run) (RespFinished large_record) 300000"
  have t: "writes_texts ?W" using large_text by (auto simp: writes_texts_def one_wire_def tells_run_def split: if_splits)
  have k: "command_check (Execute large_run) = Inr ()" by (simp add: command_check_def large_run_valid)
  have "runner_call (one_crypto (Execute large_run)) ?W (replicate 32 1) 7 5 toy_nonce
      (socket_to (handle_connection ?W (\<lambda>_. RespFinished large_record)) whole) (Execute large_run) = Inl (LinkFrame FrameTooLarge)"
    by (rule large_result_unreadable [where x = large_run and started = 10 and finished = 20,
          OF one_wire_ok t whole_splits k one_signed one_json(1) _ _ _ _ one_json(2)])
      (simp_all add: tells_run_def large_record_def, simp_all add: large_run_def sample_run_def)
  with large_run_valid show ?thesis by simp
qed

end
