(* ===== verification/Spec2Isabelle.thy ===== *)
theory Spec2Isabelle
  imports Manifest Identifiers Scheduler Runner_Service Cloud_Login Connector_Catalog Server_Claims Server_Refusals Server_Storage
    Server_Startup Git_Safety Git_Deletion Cli_Authority Runner_Keys Runner_Link
begin

text \<open>
  C6 is a small-software forge: a control plane that keeps projects, roles, credentials and bare git
  repositories (\<^verbatim>\<open>crates/c6-server\<close>, \<^verbatim>\<open>crates/c6-git\<close>, \<^verbatim>\<open>crates/c6-core\<close>), a scheduler and a runner
  for its jobs (\<^verbatim>\<open>crates/c6-scheduler\<close>, \<^verbatim>\<open>crates/c6-runner\<close>), a hosted directory that relays browsers
  to such control planes (\<^verbatim>\<open>crates/c6-cloud\<close>, \<^verbatim>\<open>crates/c6-cloud-core\<close>), the connector that runs beside
  a control plane and answers the relay (\<^verbatim>\<open>crates/c6-connector\<close>), and the command-line tools
  (\<^verbatim>\<open>crates/c6-cli\<close>, \<^verbatim>\<open>crates/c6-client\<close>).  This library models them in HOL, one theory per
  component, and proves what makes each correct and what holds where they meet.

  \<^bold>\<open>Conventions.\<close>  A Rust \<open>Result\<close> is a sum with the error on the left; every early return is a branch.
  An operation that changes state takes the state and returns the answer with the next state.  A
  \<open>Mutex\<close> that guards a database is one function from database to database, a transaction: an error
  rolls it back.  Machine integers are words where they wrap or saturate and naturals where the
  code bounds them first; a \<open>HashMap\<close> is an association list with distinct keys; SQL tables are
  lists of rows in insertion order, with the constraints of the schema checked by each insert.

  \<^bold>\<open>Shared theories.\<close>  \<open>Prelude\<close> holds results, texts, bytes and maps; \<open>Machines\<close> the interfaces
  \<open>guarded_machine\<close>, \<open>growing_machine\<close>, \<open>wire_names\<close> and \<open>partial_codec\<close>, as locales whose lemmas are
  proved once and interpreted by the components; \<open>Tables\<close> keys, references and one-way updates of
  tables; \<open>Cookies\<close> the cookie header both services read.

  \<^bold>\<open>Contracts.\<close>  \<open>Permissions\<close> (\<^verbatim>\<open>permissions.rs\<close>, the credential types of \<^verbatim>\<open>model.rs\<close> and the role
  checks of the server) shows that roles are strictly cumulative and that the server's ranks are the
  core order.  \<open>Manifest\<close> (\<^verbatim>\<open>manifest.rs\<close>) shows that the validator of \<^verbatim>\<open>c6.toml\<close> decides the declarative
  contract.  \<open>Identifiers\<close>, \<open>Tokens\<close> and \<open>Cloud_Contracts\<close> are the values of \<^verbatim>\<open>c6-cloud-core\<close>: slugs,
  the four token classes with their one reading, and the bounds of requests.

  \<^bold>\<open>The relay.\<close>  \<open>Relay_Frames\<close> and \<open>Relay_Session\<close> (\<^verbatim>\<open>relay.rs\<close>): the wire values with their exact binary
  codec, and the session validator as a machine whose accepted traces refine a contract per request,
  keep chunks in order and stay within the limits.  \<open>Relay_Link\<close> is one end of a connection,
  \<open>Cloud_Relay\<close> the cloud end (\<open>execute_exchange\<close>, \<open>relay_session\<close>, \<open>relay_proxy\<close>), \<open>Connector\<close> the other
  (\<^verbatim>\<open>proxy.rs\<close>, \<^verbatim>\<open>runtime.rs\<close>).  The socket is a list of incoming messages and a list of outgoing ones;
  select loops are sequences of events in any order.

  \<^bold>\<open>The cloud service.\<close>  \<open>Cloud_Store\<close>, \<open>Cloud_Api\<close> (tables, authentication, every handler of the router);
  \<open>Cloud_History\<close> runs their critical sections in every interleaving and keeps the invariant and the
  order \<open>cloud_below\<close>; \<open>Cloud_Authority\<close> states what a request needs to change anything, that nothing
  is undone and revocation is final; \<open>Cloud_Login\<close> that what is issued is accepted.

  \<^bold>\<open>The control plane.\<close>  \<open>Server_Store\<close>, \<open>Server_Auth\<close>, \<open>Server_Api\<close>, \<open>Server_Projects\<close>, \<open>Server_Routes\<close>
  are \<^verbatim>\<open>c6-server/src/main.rs\<close>: the tables of \<open>migrate\<close>, browser sessions and opaque credentials, each
  handler with its transaction, the Git endpoints and the routes behind the origin check
  (\<open>dispatch\<close>, \<open>respond\<close>).  \<open>Server_Startup\<close> is what runs before the first request.  \<open>Server_History\<close> is the
  machine of the transactions with its invariant \<open>server_inv\<close> and order \<open>srv_below\<close>; \<open>Server_Authority\<close>
  shows that a request is at most one step of it and which proofs each change needs; \<open>Server_Claims\<close>
  and \<open>Server_Refusals\<close> state the promises; \<open>Server_Storage\<close> that every project has its repository;
  \<open>Server_Desk\<close> is a server small enough to evaluate, for the witnesses.

  \<^bold>\<open>Git.\<close>  \<open>Git_Text\<close> (names, paths, limits, change sets, the parsers of git's output), \<open>Git_Http\<close>
  (\<^verbatim>\<open>smart_http.rs\<close>: checks, child environment, bounded readers, wait loop, CGI answer), \<open>Git_Interface\<close>
  (the operations the control plane calls, as the locale \<open>git_store\<close>), \<open>Git_Repository\<close> (\<^verbatim>\<open>lib.rs\<close>:
  \<open>GitStore\<close>, \<open>StagedDeletion\<close>, \<open>Repository\<close> over a tree of files and a machine that runs git),
  \<open>Git_Store\<close> (that this keeps the contract), \<open>Git_Safety\<close> (runs stay in their repository, branches move
  by compare-and-swap only) and \<open>Git_Deletion\<close> (two-step deletion).

  \<^bold>\<open>Jobs.\<close>  \<open>Scheduler\<close>: validation, the decision of a tick, and the plane whose ticks enqueue each
  occurrence once.  \<open>Runner_Protocol\<close> and \<open>Runner_Service\<close>: validation of executions, signed envelopes
  and replay protection, bounded logs, the result store as the locale \<open>result_store\<close> with the
  file-backed store as its model, and the service as a machine, in which a save is its three file
  calls.  \<open>Runner_Keys\<close> is the key file, with any number of processes creating it at once;
  \<open>Runner_Link\<close> one call of the client over a connection of the daemon.

  \<^bold>\<open>Local tools.\<close>  \<open>Local_Files\<close> is the tree of local files with owners and modes that the connector, the
  command-line tools and the server's start work on.  \<open>Connector_Config\<close> (\<^verbatim>\<open>c6-connector/src/config.rs\<close>)
  shows that a loaded configuration is well formed, \<open>Connector_Catalog\<close> (\<^verbatim>\<open>catalog.rs\<close>) that every upload
  meets the bounds of the cloud.  \<open>Cli_Contracts\<close> and \<open>C6_Client\<close> (\<^verbatim>\<open>c6-client/src/lib.rs\<close>) are the wire
  values and the client with its origin and redirect rules; \<open>Cli_State\<close> (\<^verbatim>\<open>c6-cli/src/config.rs\<close>) the
  configuration and credential files behind a lock, written by replacement; \<open>Credential_Helper\<close>
  (\<^verbatim>\<open>credential.rs\<close>, \<^verbatim>\<open>bin/git-credential-c6.rs\<close>) the git credential helper; \<open>Cli_Commands\<close> (\<^verbatim>\<open>lib.rs\<close>,
  \<^verbatim>\<open>bin/c6.rs\<close>) every command.  \<open>Cli_Codec\<close> is one concrete file format, for the witnesses.
  \<open>Cli_Authority\<close> puts commands and helpers of one machine in any order and shows that a token is
  sent only to the origin and project it was stored for, and that an alias never moves to another
  origin.

  \<^bold>\<open>Parameters.\<close>  What is not under \<^verbatim>\<open>src/\<close> is an argument of the definitions that use it: SHA-256, HMAC,
  base64, JSON and TOML codecs, URL and header parsing, cron and time zones, randomness and clocks
  (\<open>fresh\<close>), the git program, the HTTP peer.  Laws a proof needs of one are named hypotheses of the
  theorem and discharged by a concrete instance in its witness.

  \<^bold>\<open>Fuel and bounds.\<close>  The wait loop of \<open>Git_Http\<close> runs on the polls it is given, and with a clock that
  advances \<open>timeout / 5 + 2\<close> turns suffice; that its readers return too needs the pipes of a child that
  is gone to be closed, which is a hypothesis (\<open>lets_go\<close>); the lock loop of \<open>Cli_State\<close> is total on the tries the
  code allows and \<open>lock_wait_is_bounded\<close> bounds its wait; every other loop is structural.  Concrete limits are those of the code.

  \<^bold>\<open>Not modelled.\<close>  SQLite and file-system failures in the middle of a call that is one call here
  (a recursive removal is not: when it fails, any part of the tree may be gone), TLS and socket set-up, static files and
  response headers of the services, log output, argument parsing by clap and the printing of its
  answers, the plain serde types of \<^verbatim>\<open>c6-core/src/api.rs\<close> and \<^verbatim>\<open>model.rs\<close> that no modelled operation reads, the accept loop and socket
  path of the runner's daemon, and process start-up of the binaries other than the control plane's.
\<close>

end
